(* ===== verification/Prelude.thy ===== *)
theory Prelude
  imports Complex_Main "HOL-Library.Word" "HOL-Library.AList"
begin

section \<open>Prelude: bytes, exceptions, results, time, dictionaries, queues\<close>

text \<open>
  What every component shares.
  \<^item> \<open>bytes\<close> (Python \<open>bytes\<close>) are lists of 8-bit words; OIDs and algorithm names are strings.
  \<^item> A raised exception is a value of \<open>exn\<close>; the text of its message is not modelled. A call that
    may raise returns \<open>'a result\<close>, the exception (\<open>Inl\<close>) or the value (\<open>Inr\<close>). A method that also
    mutates its object returns \<open>'a result \<times> 's\<close>: the state is there on both branches, because what
    Python has assigned before a raise stays assigned.
  \<^item> \<open>rbind\<close> is sequencing of calls that may raise; \<open>rcatch\<close> is a \<open>try\<close> block around one call whose
    handler raises another exception; \<open>sbind\<close> is sequencing of mutating methods.
  \<^item> \<open>ftime\<close> is a Python float used as a time, with \<open>float('inf')\<close> as \<open>Infinity\<close>; finite times are
    rationals, so the rounding of float addition is not modelled.
  \<^item> A Python dict is an association list in insertion order (\<open>AList.update\<close> overwrites in place
    or appends; \<open>AList.delete\<close> removes), because several loops of the code run over a dict and
    their order decides the order of the output.
\<close>

named_theorems kem_simps \<open>equations of the model's small operations\<close>
named_theorems wf_intros \<open>well-formedness is kept by an operation\<close>

subsection \<open>Bytes\<close>

type_synonym byte = "8 word"
type_synonym bytes = "byte list"
type_synonym oid = string

text \<open>The decimal digits of \<^verbatim>\<open>str(n)\<close>.\<close>

fun decimal :: "nat \<Rightarrow> string" where
  "decimal n = (if n < 10 then [char_of (48 + n)] else decimal (n div 10) @ [char_of (48 + n mod 10)])"

declare decimal.simps [simp del]

subsection \<open>Exceptions\<close>

datatype exn =
    ValueError | KeyError | IndexError | TypeError | AttributeError | OverflowError | OSError
  | NonCanonicalEncoding
  | UnknownKemAlgorithm | KemLengthMismatch | InvalidCorrelationId | EmptyFalseStartPayload
  | InvalidTag | InvalidUnwrap
  | SessionError | UnexpectedPDU | HandshakeFailed
  | CandidateLimitExceeded
  | DispatcherError
  | KeyDirectoryError | WrongPassphrase | KeyNotFound | DuplicateKey
  | PrivateKeyRequiresPublicKey | PrivateKeyUnwrapFailed | PublicKeyIntegrityError
  | AltIndexIntegrityError
  | CryptoBackendUnsupported
  | AssertionError | NotImplementedError

text \<open>The classes that an \<open>except ValueError\<close> clause catches: \<open>ValueError\<close> and its subclasses.\<close>

fun is_value_error :: "exn \<Rightarrow> bool" where
  "is_value_error ValueError = True"
| "is_value_error NonCanonicalEncoding = True"
| "is_value_error UnknownKemAlgorithm = True"
| "is_value_error KemLengthMismatch = True"
| "is_value_error InvalidCorrelationId = True"
| "is_value_error EmptyFalseStartPayload = True"
| "is_value_error _ = False"

subsection \<open>Results\<close>

type_synonym 'a result = "exn + 'a"

definition rbind :: "'a result \<Rightarrow> ('a \<Rightarrow> 'b result) \<Rightarrow> 'b result" where
  "rbind r f = (case r of Inl e \<Rightarrow> Inl e | Inr x \<Rightarrow> f x)"

definition rcatch :: "exn \<Rightarrow> 'a result \<Rightarrow> 'a result" where
  "rcatch e' r = (case r of Inl _ \<Rightarrow> Inl e' | Inr x \<Rightarrow> Inr x)"

definition need :: "'a option \<Rightarrow> 'a result" where
  "need x = (case x of None \<Rightarrow> Inl AttributeError | Some y \<Rightarrow> Inr y)"

definition lookup_or_KeyError :: "'v option \<Rightarrow> 'v result" where
  "lookup_or_KeyError x = (case x of None \<Rightarrow> Inl KeyError | Some y \<Rightarrow> Inr y)"

lemma rbind_simps [simp]: "rbind (Inl e) f = Inl e" "rbind (Inr x) f = f x"
  by (simp_all add: rbind_def)

lemma rbind_eq_Inr [simp]: "rbind r f = Inr y \<longleftrightarrow> (\<exists>x. r = Inr x \<and> f x = Inr y)"
  by (cases r) simp_all

lemma rbind_eq_Inl: "rbind r f = Inl e \<longleftrightarrow> r = Inl e \<or> (\<exists>x. r = Inr x \<and> f x = Inl e)"
  by (cases r) simp_all

lemma rbind_assoc: "rbind (rbind r f) g = rbind r (\<lambda>x. rbind (f x) g)"
  by (cases r) simp_all

lemma rbind_split: "P (rbind r f) \<longleftrightarrow>
    (\<forall>e. r = Inl e \<longrightarrow> P (Inl e)) \<and> (\<forall>x. r = Inr x \<longrightarrow> P (f x))"
  by (cases r) simp_all

lemma rbind_split_asm: "P (rbind r f) \<longleftrightarrow>
    \<not> ((\<exists>e. r = Inl e \<and> \<not> P (Inl e)) \<or> (\<exists>x. r = Inr x \<and> \<not> P (f x)))"
  by (cases r) simp_all

lemmas rbind_splits = rbind_split rbind_split_asm

lemma rcatch_simps [simp]: "rcatch e' (Inl e) = Inl e'" "rcatch e' (Inr x) = Inr x"
  by (simp_all add: rcatch_def)

lemma rcatch_eq_Inr [simp]: "rcatch e' r = Inr x \<longleftrightarrow> r = Inr x"
  by (cases r) simp_all

lemma rcatch_eq_Inl: "rcatch e' r = Inl e \<longleftrightarrow> e = e' \<and> (\<exists>d. r = Inl d)"
  by (cases r) auto

lemma need_simps [simp]: "need None = Inl AttributeError" "need (Some x) = Inr x"
  by (simp_all add: need_def)

lemma need_eq_Inr [simp]: "need x = Inr y \<longleftrightarrow> x = Some y"
  by (cases x) simp_all

lemma lookup_or_KeyError_simps [simp]:
  "lookup_or_KeyError None = Inl KeyError" "lookup_or_KeyError (Some x) = Inr x"
  by (simp_all add: lookup_or_KeyError_def)

lemma lookup_or_KeyError_eq_Inr [simp]: "lookup_or_KeyError x = Inr y \<longleftrightarrow> x = Some y"
  by (cases x) simp_all

text \<open>A call whose only exceptions an \<open>except ValueError\<close> clause catches.\<close>

definition only_value_errors :: "'a result \<Rightarrow> bool" where
  "only_value_errors r \<longleftrightarrow> (\<forall>e. r = Inl e \<longrightarrow> is_value_error e)"

lemma only_value_errorsD: "only_value_errors r \<Longrightarrow> r = Inl e \<Longrightarrow> is_value_error e"
  by (simp add: only_value_errors_def)

lemma only_value_errors_simps [simp]:
  "only_value_errors (Inr x)" "only_value_errors (Inl e) \<longleftrightarrow> is_value_error e"
  by (simp_all add: only_value_errors_def)

lemma only_value_errors_rbind:
  "only_value_errors r \<Longrightarrow> (\<And>x. only_value_errors (f x)) \<Longrightarrow> only_value_errors (rbind r f)"
  by (cases r) simp_all

subsection \<open>Mutating methods\<close>

definition sseq :: "'a result \<times> 's \<Rightarrow> ('a \<Rightarrow> 's \<Rightarrow> 'b result \<times> 's) \<Rightarrow> 'b result \<times> 's" where
  "sseq m f = (case m of (Inl e, s) \<Rightarrow> (Inl e, s) | (Inr x, s) \<Rightarrow> f x s)"

lemma sseq_simps [simp]: "sseq (Inl e, s) f = (Inl e, s)" "sseq (Inr x, s) f = f x s"
  by (simp_all add: sseq_def)

lemma sseq_split: "P (sseq m f) \<longleftrightarrow>
    (\<forall>e s. m = (Inl e, s) \<longrightarrow> P (Inl e, s)) \<and> (\<forall>x s. m = (Inr x, s) \<longrightarrow> P (f x s))"
  by (cases m; cases "fst m") auto

lemma sseq_split_asm: "P (sseq m f) \<longleftrightarrow>
    \<not> ((\<exists>e s. m = (Inl e, s) \<and> \<not> P (Inl e, s)) \<or> (\<exists>x s. m = (Inr x, s) \<and> \<not> P (f x s)))"
  by (cases m; cases "fst m") auto

lemmas sseq_splits = sseq_split sseq_split_asm

lemma sseq_inv:
  assumes "P (snd m)" "\<And>x s. m = (Inr x, s) \<Longrightarrow> P s \<Longrightarrow> P (snd (f x s))"
  shows "P (snd (sseq m f))"
  using assms by (auto split: sseq_split)

subsection \<open>Times\<close>

datatype ftime = Fin rat | Infinity

instantiation ftime :: linorder
begin

fun less_eq_ftime :: "ftime \<Rightarrow> ftime \<Rightarrow> bool" where
  "less_eq_ftime (Fin a) (Fin b) = (a \<le> b)"
| "less_eq_ftime _ Infinity = True"
| "less_eq_ftime Infinity (Fin _) = False"

definition less_ftime :: "ftime \<Rightarrow> ftime \<Rightarrow> bool" where
  "less_ftime a b \<longleftrightarrow> a \<le> b \<and> \<not> b \<le> a"

instance
proof
  fix x y z :: ftime
  show "x < y \<longleftrightarrow> x \<le> y \<and> \<not> y \<le> x" by (rule less_ftime_def)
  show "x \<le> x" by (cases x) auto
  show "x \<le> y \<Longrightarrow> y \<le> z \<Longrightarrow> x \<le> z" by (cases x; cases y; cases z) auto
  show "x \<le> y \<Longrightarrow> y \<le> x \<Longrightarrow> x = y" by (cases x; cases y) auto
  show "x \<le> y \<or> y \<le> x" by (cases x; cases y) auto
qed

end

lemma ftime_le_Infinity [simp]: "x \<le> Infinity"
  by (cases x) simp_all

lemma ftime_min_Infinity [simp]: "min Infinity x = x" "min x Infinity = x"
  by (simp_all add: min_def) (cases x; simp)+

lemma ftime_Infinity_le [simp]: "Infinity \<le> x \<longleftrightarrow> x = Infinity"
  by (cases x) simp_all

subsection \<open>Dictionaries in insertion order\<close>

type_synonym ('k, 'v) dict = "('k \<times> 'v) list"

definition dict_keys :: "('k, 'v) dict \<Rightarrow> 'k list" where
  "dict_keys d = map fst d"

definition setdefault :: "'k \<Rightarrow> 'v \<Rightarrow> ('k, 'v) dict \<Rightarrow> ('k, 'v) dict" where
  "setdefault k v d = (if map_of d k = None then d @ [(k, v)] else d)"

lemma dict_get_update [simp]: "map_of (AList.update k v d) = (map_of d)(k \<mapsto> v)"
  by (rule update_conv')

lemma dict_get_delete [simp]: "map_of (AList.delete k d) = (map_of d)(k := None)"
  by (rule delete_conv')

lemma dict_get_setdefault [simp]:
  "map_of (setdefault k v d) = (if map_of d k = None then (map_of d)(k \<mapsto> v) else map_of d)"
  by (auto simp: setdefault_def fun_eq_iff map_add_def split: option.splits)

lemma distinct_setdefault:
  "distinct (map fst d) \<Longrightarrow> distinct (map fst (setdefault k v d))"
  by (auto simp: setdefault_def map_of_eq_None_iff)

lemma distinct_dict_delete:
  "distinct (map fst d) \<Longrightarrow> distinct (map fst (AList.delete k d))"
  by (rule distinct_delete)

lemma dict_delete_absent: "map_of d k = None \<Longrightarrow> AList.delete k d = d"
  by (metis (no_types, lifting) delete_id map_of_eq_None_iff)

lemma set_dict_delete: "set (AList.delete k d) = {p \<in> set d. fst p \<noteq> k}"
  by (induction d) auto

lemma set_dict_iff:
  "distinct (map fst d) \<Longrightarrow> (k, v) \<in> set d \<longleftrightarrow> map_of d k = Some v"
  by simp

subsection \<open>Queues\<close>

text \<open>
  \<open>list.append\<close> and \<open>list.pop(0)\<close>; popping the empty list raises \<open>IndexError\<close>.
\<close>

fun pop_front :: "'a list \<Rightarrow> ('a \<times> 'a list) result" where
  "pop_front [] = Inl IndexError"
| "pop_front (x # xs) = Inr (x, xs)"

lemma pop_front_eq_Inr [simp]: "pop_front xs = Inr (y, ys) \<longleftrightarrow> xs = y # ys"
  by (cases xs) auto

lemma pop_front_append: "pop_front (x # xs @ [y]) = Inr (x, xs @ [y])"
  by simp

text \<open>
  What \<^verbatim>\<open>Session\<close> and \<^verbatim>\<open>Dispatcher\<close> promise of each of their output queues: \<open>poll\<close> tells whether there is
  something, \<open>get\<close> hands it out from the front. Taken to the end it gives the whole queue in order.
\<close>

locale output_queue =
  fixes contents :: "'s \<Rightarrow> 'a list"
    and poll :: "'s \<Rightarrow> bool"
    and get :: "'s \<Rightarrow> 'a result \<times> 's"
  assumes poll_iff: "poll s \<longleftrightarrow> contents s \<noteq> []"
    and get_empty: "contents s = [] \<Longrightarrow> get s = (Inl IndexError, s)"
    and get_front: "contents s = x # xs \<Longrightarrow> fst (get s) = Inr x \<and> contents (snd (get s)) = xs"
begin

lemma poll_get: "poll s \<longleftrightarrow> (\<exists>x. fst (get s) = Inr x)"
  by (cases "contents s") (auto simp: poll_iff get_empty dest: get_front)

lemma after_gets: "contents (((\<lambda>s. snd (get s)) ^^ n) s) = drop n (contents s)"
proof (induction n)
  case (Suc n)
  let ?s = "((\<lambda>s. snd (get s)) ^^ n) s"
  show ?case
  proof (cases "contents ?s")
    case Nil
    then show ?thesis using Suc get_empty [OF Nil] by simp
  next
    case (Cons x xs)
    then show ?thesis using Suc get_front [OF Cons] by (simp add: drop_Suc tl_drop [symmetric])
  qed
qed simp

lemma nth_get: "n < length (contents s) \<Longrightarrow> fst (get (((\<lambda>s. snd (get s)) ^^ n) s)) = Inr (contents s ! n)"
  using get_front [of "((\<lambda>s. snd (get s)) ^^ n) s" "contents s ! n" "drop (Suc n) (contents s)"]
  by (simp add: after_gets Cons_nth_drop_Suc)

lemma exhausted: "\<not> poll (((\<lambda>s. snd (get s)) ^^ length (contents s)) s)"
  by (simp add: poll_iff after_gets)

end

end
