(* ===== verification/ThirdParty.thy ===== *)
theory ThirdParty
  imports Prelude
begin

section \<open>Code outside the repository: the parameters of the model\<close>

text \<open>
  The package calls \<^verbatim>\<open>asn1crypto\<close>, \<^verbatim>\<open>cryptography\<close> and the C primitives behind
  \<^verbatim>\<open>hashlib\<close>/\<^verbatim>\<open>hmac\<close>/\<^verbatim>\<open>os.urandom\<close>. Their code is not in the repository, so they are one
  record \<open>lib\<close> of functions that every definition using them takes as an argument. What the code
  relies on is stated here as named predicates of a \<open>lib\<close> (documented behaviour of these packages);
  a theorem that needs one has it as a hypothesis.

  Randomness is an argument too: a \<open>coins\<close> record holds what one call of a session draws from the
  operating system (a uuid, the seed of an ephemeral key, two encapsulations' randomness, a nonce).
\<close>

subsection \<open>ASN.1 values\<close>

text \<open>
  The abstract value of an encoding: what \<^verbatim>\<open>asn1crypto\<close> reads from the bytes before a class's
  \<^verbatim>\<open>_fields\<close> are applied. \<open>ACtxP\<close> and \<open>ACtxC\<close> are the primitive and constructed
  context-specific tags (\<^verbatim>\<open>implicit\<close> in the sources); \<open>AOther\<close> is any other tag.
\<close>

datatype asn1 =
    AInt int
  | AOctets bytes
  | AOid oid
  | ANull
  | ASeq "asn1 list"
  | ACtxP nat bytes
  | ACtxC nat "asn1 list"
  | AOther nat bytes

text \<open>\<^verbatim>\<open>asn1crypto.algos.AlgorithmIdentifier\<close> and \<^verbatim>\<open>DigestAlgorithm\<close>: an OID and optional parameters.\<close>

record algorithm_identifier =
  alg_algorithm :: oid
  alg_parameters :: "asn1 option"

subsection \<open>ML-KEM private key objects and AEAD classes\<close>

text \<open>An \<^verbatim>\<open>MLKEM768PrivateKey\<close>/\<^verbatim>\<open>MLKEM1024PrivateKey\<close> object: its level and its raw seed bytes.\<close>

datatype mlkem_private = MlkemPrivate (priv_level: int) (private_bytes_raw: bytes)

datatype aead_class = AESGCM | ChaCha20Poly1305

subsection \<open>The libraries\<close>

record lib =
  ber_decode :: "bytes \<Rightarrow> asn1 result"
  der_encode :: "asn1 \<Rightarrow> bytes"
  valid_oid :: "string \<Rightarrow> bool"
  digest_algorithm :: "string \<Rightarrow> algorithm_identifier result"
  hash_new :: "string \<Rightarrow> bytes \<Rightarrow> bytes result"
  sha256 :: "bytes \<Rightarrow> bytes"
  hmac_sha256 :: "bytes \<Rightarrow> bytes \<Rightarrow> bytes"
  mlkem_generate :: "int \<Rightarrow> bytes \<Rightarrow> mlkem_private result"
  mlkem_from_seed_bytes :: "int \<Rightarrow> bytes \<Rightarrow> mlkem_private result"
  mlkem_public_bytes :: "mlkem_private \<Rightarrow> bytes"
  mlkem_encapsulate :: "int \<Rightarrow> bytes \<Rightarrow> bytes \<Rightarrow> (bytes \<times> bytes) result"
  mlkem_decapsulate :: "mlkem_private \<Rightarrow> bytes \<Rightarrow> bytes result"
  aead_generate_key :: "aead_class \<Rightarrow> bytes \<Rightarrow> bytes result"
  aead_encrypt :: "aead_class \<Rightarrow> bytes \<Rightarrow> bytes \<Rightarrow> bytes \<Rightarrow> bytes \<Rightarrow> bytes result"
  aead_decrypt :: "aead_class \<Rightarrow> bytes \<Rightarrow> bytes \<Rightarrow> bytes \<Rightarrow> bytes \<Rightarrow> bytes result"
  hkdf_sha256 :: "int \<Rightarrow> bytes \<Rightarrow> bytes \<Rightarrow> bytes \<Rightarrow> bytes result"
  pbkdf2_sha256 :: "int \<Rightarrow> bytes \<Rightarrow> int \<Rightarrow> bytes \<Rightarrow> bytes result"
  aes_key_wrap_with_padding :: "bytes \<Rightarrow> bytes \<Rightarrow> bytes result"
  aes_key_unwrap_with_padding :: "bytes \<Rightarrow> bytes \<Rightarrow> bytes result"

record coins =
  coin_uuid4 :: bytes
  coin_generate :: bytes
  coin_encaps1 :: bytes
  coin_encaps2 :: bytes
  coin_urandom16 :: bytes

subsection \<open>What the code relies on\<close>

text \<open>An ASN.1 value \<^verbatim>\<open>asn1crypto\<close> can hold: its OIDs are dotted strings, no foreign tags.\<close>

fun asn1_valid :: "lib \<Rightarrow> asn1 \<Rightarrow> bool" where
  "asn1_valid L (AOid oid) = valid_oid L oid"
| "asn1_valid L (ASeq ts) = list_all (asn1_valid L) ts"
| "asn1_valid L (ACtxC _ ts) = list_all (asn1_valid L) ts"
| "asn1_valid L (AOther _ _) = False"
| "asn1_valid L _ = True"

definition asn1_works :: "lib \<Rightarrow> bool" where
  "asn1_works L \<longleftrightarrow> (\<forall>t. asn1_valid L t \<longrightarrow> ber_decode L (der_encode L t) = Inr t)"

text \<open>
  FIPS 203: at both levels key generation works, a private key can be rebuilt from its seed, a
  public key and a ciphertext have the lengths of Table 3, and decapsulating what was
  encapsulated to one's own public key gives the same shared secret.
\<close>

definition fips203_pk_len :: "int \<Rightarrow> nat" where
  "fips203_pk_len level = (if level = 768 then 1184 else 1568)"

definition fips203_ct_len :: "int \<Rightarrow> nat" where
  "fips203_ct_len level = (if level = 768 then 1088 else 1568)"

definition mlkem_key_works :: "lib \<Rightarrow> mlkem_private \<Rightarrow> bool" where
  "mlkem_key_works L k \<longleftrightarrow>
     mlkem_from_seed_bytes L (priv_level k) (private_bytes_raw k) = Inr k \<and>
     length (mlkem_public_bytes L k) = fips203_pk_len (priv_level k) \<and>
     (\<forall>c. \<exists>ss ct. mlkem_encapsulate L (priv_level k) (mlkem_public_bytes L k) c = Inr (ss, ct) \<and>
        length ct = fips203_ct_len (priv_level k) \<and> mlkem_decapsulate L k ct = Inr ss)"

definition mlkem_works :: "lib \<Rightarrow> bool" where
  "mlkem_works L \<longleftrightarrow> (\<forall>level c. level = 768 \<or> level = 1024 \<longrightarrow>
     (\<exists>k. mlkem_generate L level c = Inr k \<and> priv_level k = level \<and> mlkem_key_works L k))"

text \<open>
  Both AEADs take a 32-byte key and a 12-byte nonce; a ciphertext is never empty (it carries the
  tag) and decrypts to the plaintext. \<^verbatim>\<open>cryptography\<close> refuses plaintexts of 2^31 bytes and more.
\<close>

definition aead_works :: "lib \<Rightarrow> bool" where
  "aead_works L \<longleftrightarrow> (\<forall>cls key nonce pt ad.
     length key = 32 \<longrightarrow> length nonce = 12 \<longrightarrow> length pt < 2 ^ 31 \<longrightarrow>
       (\<exists>ct. aead_encrypt L cls key nonce pt ad = Inr ct \<and> ct \<noteq> [] \<and>
             aead_decrypt L cls key nonce ct ad = Inr pt))"

definition hkdf_works :: "lib \<Rightarrow> bool" where
  "hkdf_works L \<longleftrightarrow> (\<forall>n salt info ikm. 0 < n \<longrightarrow> n \<le> 255 * 32 \<longrightarrow>
     (\<exists>k. hkdf_sha256 L n salt info ikm = Inr k \<and> int (length k) = n))"

lemma asn1_worksD: "asn1_works L \<Longrightarrow> asn1_valid L t \<Longrightarrow> ber_decode L (der_encode L t) = Inr t"
  by (simp add: asn1_works_def)

lemma mlkem_worksE:
  assumes "mlkem_works L" "level = 768 \<or> level = 1024"
  obtains k where "mlkem_generate L level c = Inr k" and "priv_level k = level"
    and "mlkem_key_works L k"
  using assms unfolding mlkem_works_def by blast

lemma mlkem_key_worksE:
  assumes "mlkem_key_works L k"
  obtains ss ct where "mlkem_encapsulate L (priv_level k) (mlkem_public_bytes L k) c = Inr (ss, ct)"
    and "length ct = fips203_ct_len (priv_level k)" and "mlkem_decapsulate L k ct = Inr ss"
  using assms unfolding mlkem_key_works_def by blast

lemma aead_worksE:
  assumes "aead_works L" "length key = 32" "length nonce = 12" "length pt < 2 ^ 31"
  obtains ct where "aead_encrypt L cls key nonce pt ad = Inr ct" and "ct \<noteq> []"
    and "aead_decrypt L cls key nonce ct ad = Inr pt"
  using assms by (force simp: aead_works_def)

lemma hkdf_worksE:
  assumes "hkdf_works L" "0 < n" "n \<le> 255 * 32"
  obtains k where "hkdf_sha256 L n salt info ikm = Inr k" and "int (length k) = n"
  using assms by (force simp: hkdf_works_def)

end
