(* ===== verification/Common.thy ===== *)
theory Common
  imports ThirdParty
begin

section \<open>\<^verbatim>\<open>common.py\<close>: only canonical DER is accepted\<close>

text \<open>
  \<open>require_der\<close> re-encodes the object that was parsed and compares with the input. Every
  class of the package that has a \<open>load\<close> calls it; the contract they share is the locale
  \<open>canonical_load\<close>: what was loaded dumps to exactly the bytes that were read. The lemmas of the
  locale are what the rest of the program rests on (byte equality is message equality, see
  \<^verbatim>\<open>candidate.py\<close> and the duplicate check of \<^verbatim>\<open>session.py\<close>). It is interpreted on
  every class with a \<open>load\<close>.
\<close>

definition require_der :: "('a \<Rightarrow> bytes result) \<Rightarrow> bytes \<Rightarrow> 'a \<Rightarrow> unit result" where
  "require_der dump encoded_data obj =
     rbind (dump obj) (\<lambda>rebuilt.
       if rebuilt \<noteq> encoded_data then Inl NonCanonicalEncoding else Inr ())"

lemma require_der_eq_Inr [simp]: "require_der dump b x = Inr u \<longleftrightarrow> dump x = Inr b"
  by (auto simp: require_der_def)

locale canonical_load =
  fixes load :: "bytes \<Rightarrow> 'a result" and dump :: "'a \<Rightarrow> bytes result"
  assumes load_canonical: "load b = Inr x \<Longrightarrow> dump x = Inr b"
begin

lemma load_injective: "load b = Inr x \<Longrightarrow> load c = Inr x \<Longrightarrow> b = c"
  by (metis load_canonical sum.inject(2))

lemma reload: "load b = Inr x \<Longrightarrow> rbind (dump x) load = Inr x"
  by (simp add: load_canonical)

lemma noncanonical_rejected: "dump x = Inr b \<Longrightarrow> c \<noteq> b \<Longrightarrow> load c \<noteq> Inr x"
  by (metis load_canonical sum.inject(2))

end

end
