(* ===== verification/Bottom.thy ===== *)
theory Bottom
  imports Common
begin

section \<open>\<^verbatim>\<open>bottom.py\<close>: the protocol messages\<close>

text \<open>
  Each ASN.1 class is a record with the entries of its \<^verbatim>\<open>_fields\<close>; \<open>X_fields\<close> gives the
  elements of its SEQUENCE and \<open>X_of\<close> reads them back, so that a class's \<open>dump\<close> is \<open>der_encode\<close>
  of its value and its \<open>load\<close> is \<open>ber_decode\<close> followed by the code's own checks
  (canonicality, then lengths). A value that does not fit the fields raises \<open>ValueError\<close>, as
  \<^verbatim>\<open>asn1crypto\<close> does.

  The lemmas give the round trip of every class, what a successful \<open>build\<close>/\<open>load\<close> guarantees
  (lengths, known algorithms, the correlation id), and the canonicality contract of every \<open>load\<close>.
\<close>

subsection \<open>Algorithm tables\<close>

definition MLKEM_OIDS :: "(int, oid) dict" where
  "MLKEM_OIDS = [(768, ''2.16.840.1.101.3.4.4.2''), (1024, ''2.16.840.1.101.3.4.4.3'')]"

definition OID_TO_LEVEL :: "(oid, int) dict" where
  "OID_TO_LEVEL = map (\<lambda>(k, v). (v, k)) MLKEM_OIDS"

definition MLKEM_PK_LEN :: "(int, nat) dict" where
  "MLKEM_PK_LEN = [(768, 1184), (1024, 1568)]"

definition MLKEM_CT_LEN :: "(int, nat) dict" where
  "MLKEM_CT_LEN = [(768, 1088), (1024, 1568)]"

definition CID_LEN :: nat where
  "CID_LEN = 16"

definition AEAD_OIDS :: "(string, oid) dict" where
  "AEAD_OIDS = [(''aes256-gcm'', ''2.16.840.1.101.3.4.1.46''),
                (''chacha20-poly1305'', ''1.2.840.113549.1.9.16.3.18'')]"

definition AEAD_OID_TO_NAME :: "(oid, string) dict" where
  "AEAD_OID_TO_NAME = map (\<lambda>(k, v). (v, k)) AEAD_OIDS"

definition aead_name :: "oid \<Rightarrow> string option" where
  "aead_name oid = map_of AEAD_OID_TO_NAME oid"

definition kem_alg :: "oid \<Rightarrow> algorithm_identifier" where
  "kem_alg oid = \<lparr>alg_algorithm = oid, alg_parameters = None\<rparr>"

lemma OID_TO_LEVEL_iff: "map_of OID_TO_LEVEL oid = Some l \<longleftrightarrow> map_of MLKEM_OIDS l = Some oid"
  by (auto simp: OID_TO_LEVEL_def MLKEM_OIDS_def split: if_splits)

lemma MLKEM_OIDS_dom: "map_of MLKEM_OIDS l = Some oid \<Longrightarrow> l = 768 \<or> l = 1024"
  by (auto simp: MLKEM_OIDS_def split: if_splits)

lemma MLKEM_OIDS_Some: "l = 768 \<or> l = 1024 \<Longrightarrow> \<exists>oid. map_of MLKEM_OIDS l = Some oid"
  by (auto simp: MLKEM_OIDS_def)

lemma MLKEM_LEN_known:
  "l = 768 \<or> l = 1024 \<Longrightarrow> map_of MLKEM_PK_LEN l = Some (fips203_pk_len l)"
  "l = 768 \<or> l = 1024 \<Longrightarrow> map_of MLKEM_CT_LEN l = Some (fips203_ct_len l)"
  by (auto simp: MLKEM_PK_LEN_def MLKEM_CT_LEN_def fips203_pk_len_def fips203_ct_len_def)

lemma aead_name_iff: "aead_name oid = Some name \<longleftrightarrow> map_of AEAD_OIDS name = Some oid"
  by (auto simp: aead_name_def AEAD_OID_TO_NAME_def AEAD_OIDS_def split: if_splits)

subsection \<open>Reading ASN.1 values\<close>

fun as_int :: "asn1 \<Rightarrow> int result" where
  "as_int (AInt i) = Inr i"
| "as_int _ = Inl ValueError"

fun as_octets :: "asn1 \<Rightarrow> bytes result" where
  "as_octets (AOctets b) = Inr b"
| "as_octets _ = Inl ValueError"

fun as_oid :: "asn1 \<Rightarrow> oid result" where
  "as_oid (AOid o1) = Inr o1"
| "as_oid _ = Inl ValueError"

fun as_seq :: "asn1 \<Rightarrow> asn1 list result" where
  "as_seq (ASeq ts) = Inr ts"
| "as_seq _ = Inl ValueError"

lemma as_eq_Inr [simp]:
  "as_int t = Inr i \<longleftrightarrow> t = AInt i" "as_octets t = Inr b \<longleftrightarrow> t = AOctets b"
  "as_oid t = Inr d \<longleftrightarrow> t = AOid d" "as_seq t = Inr ts \<longleftrightarrow> t = ASeq ts"
  by (cases t; simp)+

fun rmap :: "('a \<Rightarrow> 'b result) \<Rightarrow> 'a list \<Rightarrow> 'b list result" where
  "rmap f [] = Inr []"
| "rmap f (x # xs) = rbind (f x) (\<lambda>y. rbind (rmap f xs) (\<lambda>ys. Inr (y # ys)))"

lemma rmap_id: "(\<And>x. x \<in> set xs \<Longrightarrow> f (g x) = Inr x) \<Longrightarrow> rmap f (map g xs) = Inr xs"
  by (induction xs) auto

definition alg_value :: "algorithm_identifier \<Rightarrow> asn1" where
  "alg_value a = ASeq (AOid (alg_algorithm a) #
     (case alg_parameters a of None \<Rightarrow> [] | Some p \<Rightarrow> [p]))"

definition alg_of :: "asn1 \<Rightarrow> algorithm_identifier result" where
  "alg_of t = rbind (as_seq t) (\<lambda>fs. case fs of
       [d] \<Rightarrow> rbind (as_oid d) (\<lambda>oid. Inr \<lparr>alg_algorithm = oid, alg_parameters = None\<rparr>)
     | [d, p] \<Rightarrow> rbind (as_oid d) (\<lambda>oid. Inr \<lparr>alg_algorithm = oid, alg_parameters = Some p\<rparr>)
     | _ \<Rightarrow> Inl ValueError)"

lemma alg_of_value [simp]: "alg_of (alg_value a) = Inr a"
  by (cases a) (auto simp: alg_of_def alg_value_def split: option.splits)

subsection \<open>KEM public keys\<close>

record kem_public_key =
  pk_algorithm :: algorithm_identifier
  pk_public_key :: bytes

definition kem_public_key_value :: "kem_public_key \<Rightarrow> asn1" where
  "kem_public_key_value k = ASeq [alg_value (pk_algorithm k), AOctets (pk_public_key k)]"

definition kem_public_key_of :: "asn1 \<Rightarrow> kem_public_key result" where
  "kem_public_key_of t = rbind (as_seq t) (\<lambda>fs. case fs of
       [a, k] \<Rightarrow> rbind (alg_of a) (\<lambda>alg. rbind (as_octets k) (\<lambda>b.
         Inr \<lparr>pk_algorithm = alg, pk_public_key = b\<rparr>))
     | _ \<Rightarrow> Inl ValueError)"

definition KemPublicKey_dump :: "lib \<Rightarrow> kem_public_key \<Rightarrow> bytes" where
  "KemPublicKey_dump L k = der_encode L (kem_public_key_value k)"

definition KemPublicKey_validate_length :: "kem_public_key \<Rightarrow> unit result" where
  "KemPublicKey_validate_length k =
     (case map_of OID_TO_LEVEL (alg_algorithm (pk_algorithm k)) of
        None \<Rightarrow> Inl UnknownKemAlgorithm
      | Some level \<Rightarrow> rbind (lookup_or_KeyError (map_of MLKEM_PK_LEN level)) (\<lambda>expected.
          if length (pk_public_key k) \<noteq> expected then Inl KemLengthMismatch else Inr ()))"

definition KemPublicKey_load :: "lib \<Rightarrow> bytes \<Rightarrow> kem_public_key result" where
  "KemPublicKey_load L encoded_data =
     rbind (ber_decode L encoded_data) (\<lambda>t.
     rbind (kem_public_key_of t) (\<lambda>obj.
     rbind (require_der (\<lambda>x. Inr (KemPublicKey_dump L x)) encoded_data obj) (\<lambda>_.
     rbind (KemPublicKey_validate_length obj) (\<lambda>_. Inr obj))))"

definition KemPublicKey_build :: "bytes \<Rightarrow> int option \<Rightarrow> oid option \<Rightarrow> kem_public_key result" where
  "KemPublicKey_build pk_bytes level oid =
     (if level \<noteq> None \<and> map_of MLKEM_OIDS (the level) = None then Inl UnknownKemAlgorithm
      else rbind (if level = None \<and> oid \<noteq> None
                  then (case map_of OID_TO_LEVEL (the oid) of
                          None \<Rightarrow> Inl UnknownKemAlgorithm | Some l \<Rightarrow> Inr (Some l))
                  else Inr level) (\<lambda>level'.
        rbind (lookup_or_KeyError (Option.bind level' (map_of MLKEM_OIDS))) (\<lambda>o'.
        let obj = \<lparr>pk_algorithm = kem_alg o', pk_public_key = pk_bytes\<rparr>
        in rbind (KemPublicKey_validate_length obj) (\<lambda>_. Inr obj))))"

subsection \<open>KEM ciphertexts\<close>

record kem_ciphertext =
  ct_algorithm :: algorithm_identifier
  ct_ciphertext :: bytes

definition kem_ciphertext_value :: "kem_ciphertext \<Rightarrow> asn1" where
  "kem_ciphertext_value c = ASeq [alg_value (ct_algorithm c), AOctets (ct_ciphertext c)]"

definition kem_ciphertext_of :: "asn1 \<Rightarrow> kem_ciphertext result" where
  "kem_ciphertext_of t = rbind (as_seq t) (\<lambda>fs. case fs of
       [a, c] \<Rightarrow> rbind (alg_of a) (\<lambda>alg. rbind (as_octets c) (\<lambda>b.
         Inr \<lparr>ct_algorithm = alg, ct_ciphertext = b\<rparr>))
     | _ \<Rightarrow> Inl ValueError)"

definition KemCiphertext_dump :: "lib \<Rightarrow> kem_ciphertext \<Rightarrow> bytes" where
  "KemCiphertext_dump L c = der_encode L (kem_ciphertext_value c)"

definition KemCiphertext_validate_length :: "kem_ciphertext \<Rightarrow> unit result" where
  "KemCiphertext_validate_length c =
     (case map_of OID_TO_LEVEL (alg_algorithm (ct_algorithm c)) of
        None \<Rightarrow> Inl UnknownKemAlgorithm
      | Some level \<Rightarrow> rbind (lookup_or_KeyError (map_of MLKEM_CT_LEN level)) (\<lambda>expected.
          if length (ct_ciphertext c) \<noteq> expected then Inl KemLengthMismatch else Inr ()))"

definition KemCiphertext_load :: "lib \<Rightarrow> bytes \<Rightarrow> kem_ciphertext result" where
  "KemCiphertext_load L encoded_data =
     rbind (ber_decode L encoded_data) (\<lambda>t.
     rbind (kem_ciphertext_of t) (\<lambda>obj.
     rbind (require_der (\<lambda>x. Inr (KemCiphertext_dump L x)) encoded_data obj) (\<lambda>_.
     rbind (KemCiphertext_validate_length obj) (\<lambda>_. Inr obj))))"

definition KemCiphertext_build :: "bytes \<Rightarrow> int \<Rightarrow> kem_ciphertext result" where
  "KemCiphertext_build ct_bytes level =
     (case map_of MLKEM_OIDS level of
        None \<Rightarrow> Inl UnknownKemAlgorithm
      | Some oid \<Rightarrow>
          let obj = \<lparr>ct_algorithm = kem_alg oid, ct_ciphertext = ct_bytes\<rparr>
          in rbind (KemCiphertext_validate_length obj) (\<lambda>_. Inr obj))"

subsection \<open>Key identifiers\<close>

record key_id =
  kid_hash_algorithm :: algorithm_identifier
  kid_key_hash :: bytes

definition key_id_value :: "key_id \<Rightarrow> asn1" where
  "key_id_value k = ASeq [alg_value (kid_hash_algorithm k), AOctets (kid_key_hash k)]"

definition key_id_of :: "asn1 \<Rightarrow> key_id result" where
  "key_id_of t = rbind (as_seq t) (\<lambda>fs. case fs of
       [a, h] \<Rightarrow> rbind (alg_of a) (\<lambda>alg. rbind (as_octets h) (\<lambda>b.
         Inr \<lparr>kid_hash_algorithm = alg, kid_key_hash = b\<rparr>))
     | _ \<Rightarrow> Inl ValueError)"

definition KeyId_dump :: "lib \<Rightarrow> key_id \<Rightarrow> bytes" where
  "KeyId_dump L k = der_encode L (key_id_value k)"

definition KeyId_build :: "lib \<Rightarrow> kem_public_key \<Rightarrow> string \<Rightarrow> key_id result" where
  "KeyId_build L kem_pk digest =
     rbind (hash_new L digest (KemPublicKey_dump L kem_pk)) (\<lambda>digest_bytes.
     rbind (digest_algorithm L digest) (\<lambda>alg.
     Inr \<lparr>kid_hash_algorithm = alg, kid_key_hash = digest_bytes\<rparr>))"

subsection \<open>AEAD negotiation list\<close>

definition AeadAlgorithmList_build :: "lib \<Rightarrow> string list \<Rightarrow> oid list result" where
  "AeadAlgorithmList_build L oids =
     (let resolved = map (\<lambda>x. case map_of AEAD_OIDS x of None \<Rightarrow> x | Some oid \<Rightarrow> oid) oids
      in if resolved = [] then Inl ValueError
         else rmap (\<lambda>x. if valid_oid L x then Inr x else Inl ValueError) resolved)"

subsection \<open>The five PDUs\<close>

record session_init_request =
  sir_ct1 :: kem_ciphertext
  sir_key_id_b :: key_id
  sir_pk_a_star :: kem_public_key
  sir_key_id_a :: key_id
  sir_acceptable_aeads :: "oid list"

definition session_init_request_fields :: "session_init_request \<Rightarrow> asn1 list" where
  "session_init_request_fields r =
     [kem_ciphertext_value (sir_ct1 r), key_id_value (sir_key_id_b r),
      kem_public_key_value (sir_pk_a_star r), key_id_value (sir_key_id_a r),
      ASeq (map AOid (sir_acceptable_aeads r))]"

definition session_init_request_of :: "asn1 list \<Rightarrow> session_init_request result" where
  "session_init_request_of fs = (case fs of
       [c, b, p, a, l] \<Rightarrow>
         rbind (kem_ciphertext_of c) (\<lambda>ct1. rbind (key_id_of b) (\<lambda>kb.
         rbind (kem_public_key_of p) (\<lambda>pk. rbind (key_id_of a) (\<lambda>ka.
         rbind (as_seq l) (\<lambda>ts. rbind (rmap as_oid ts) (\<lambda>oids.
         Inr \<lparr>sir_ct1 = ct1, sir_key_id_b = kb, sir_pk_a_star = pk, sir_key_id_a = ka,
              sir_acceptable_aeads = oids\<rparr>))))))
     | _ \<Rightarrow> Inl ValueError)"

record session_init_response =
  rsp_pk_b_star :: kem_public_key
  rsp_ct2 :: kem_ciphertext
  rsp_ct3 :: kem_ciphertext
  rsp_n_b :: bytes
  rsp_chosen_aead :: oid

definition session_init_response_fields :: "session_init_response \<Rightarrow> asn1 list" where
  "session_init_response_fields r =
     [kem_public_key_value (rsp_pk_b_star r), kem_ciphertext_value (rsp_ct2 r),
      kem_ciphertext_value (rsp_ct3 r), AOctets (rsp_n_b r), AOid (rsp_chosen_aead r)]"

definition session_init_response_of :: "asn1 list \<Rightarrow> session_init_response result" where
  "session_init_response_of fs = (case fs of
       [p, c2, c3, n, d] \<Rightarrow>
         rbind (kem_public_key_of p) (\<lambda>pk. rbind (kem_ciphertext_of c2) (\<lambda>ct2.
         rbind (kem_ciphertext_of c3) (\<lambda>ct3. rbind (as_octets n) (\<lambda>nb. rbind (as_oid d) (\<lambda>oid.
         Inr \<lparr>rsp_pk_b_star = pk, rsp_ct2 = ct2, rsp_ct3 = ct3, rsp_n_b = nb,
              rsp_chosen_aead = oid\<rparr>)))))
     | _ \<Rightarrow> Inl ValueError)"

record session_completion_request =
  scr_c_m :: bytes
  scr_ct4 :: kem_ciphertext
  scr_n_a :: bytes

definition session_completion_request_fields :: "session_completion_request \<Rightarrow> asn1 list" where
  "session_completion_request_fields r =
     [AOctets (scr_c_m r), kem_ciphertext_value (scr_ct4 r), AOctets (scr_n_a r)]"

definition session_completion_request_of :: "asn1 list \<Rightarrow> session_completion_request result" where
  "session_completion_request_of fs = (case fs of
       [c, k, n] \<Rightarrow>
         rbind (as_octets c) (\<lambda>cm. rbind (kem_ciphertext_of k) (\<lambda>ct4. rbind (as_octets n) (\<lambda>na.
         Inr \<lparr>scr_c_m = cm, scr_ct4 = ct4, scr_n_a = na\<rparr>)))
     | _ \<Rightarrow> Inl ValueError)"

definition validate_c_m :: "session_completion_request \<Rightarrow> unit result" where
  "validate_c_m r = (if length (scr_c_m r) = 0 then Inl EmptyFalseStartPayload else Inr ())"

definition SessionCompletionRequest_dump :: "lib \<Rightarrow> session_completion_request \<Rightarrow> bytes result" where
  "SessionCompletionRequest_dump L r =
     rbind (validate_c_m r) (\<lambda>_.
       Inr (der_encode L (ASeq (session_completion_request_fields r))))"

definition SessionCompletionRequest_load :: "lib \<Rightarrow> bytes \<Rightarrow> session_completion_request result" where
  "SessionCompletionRequest_load L encoded_data =
     rbind (ber_decode L encoded_data) (\<lambda>t.
     rbind (rbind (as_seq t) session_completion_request_of) (\<lambda>obj.
     rbind (require_der (SessionCompletionRequest_dump L) encoded_data obj) (\<lambda>_.
     rbind (validate_c_m obj) (\<lambda>_. Inr obj))))"

definition SessionCompletionRequest_build ::
    "bytes \<Rightarrow> kem_ciphertext \<Rightarrow> bytes \<Rightarrow> session_completion_request result" where
  "SessionCompletionRequest_build c_m ct4 n_a =
     (let obj = \<lparr>scr_c_m = c_m, scr_ct4 = ct4, scr_n_a = n_a\<rparr>
      in rbind (validate_c_m obj) (\<lambda>_. Inr obj))"

record session_completion_response =
  scp_h_m :: bytes
  scp_m :: "bytes option"

definition session_completion_response_fields :: "session_completion_response \<Rightarrow> asn1 list" where
  "session_completion_response_fields r =
     AOctets (scp_h_m r) # (case scp_m r of None \<Rightarrow> [] | Some m \<Rightarrow> [ACtxP 0 m])"

definition session_completion_response_of :: "asn1 list \<Rightarrow> session_completion_response result" where
  "session_completion_response_of fs = (case fs of
       [h] \<Rightarrow> rbind (as_octets h) (\<lambda>hm. Inr \<lparr>scp_h_m = hm, scp_m = None\<rparr>)
     | [h, ACtxP 0 m] \<Rightarrow> rbind (as_octets h) (\<lambda>hm. Inr \<lparr>scp_h_m = hm, scp_m = Some m\<rparr>)
     | _ \<Rightarrow> Inl ValueError)"

record message =
  msg_seq :: int
  msg_m :: bytes

definition message_fields :: "message \<Rightarrow> asn1 list" where
  "message_fields r = [AInt (msg_seq r), AOctets (msg_m r)]"

definition message_of :: "asn1 list \<Rightarrow> message result" where
  "message_of fs = (case fs of
       [i, m] \<Rightarrow> rbind (as_int i) (\<lambda>sq. rbind (as_octets m) (\<lambda>b. Inr \<lparr>msg_seq = sq, msg_m = b\<rparr>))
     | _ \<Rightarrow> Inl ValueError)"

text \<open>\<open>Message({...})\<close>: the constructor, which refuses a missing field.\<close>

definition Message_init :: "int option \<Rightarrow> bytes option \<Rightarrow> message result" where
  "Message_init sq m = (case (sq, m) of
       (Some i, Some b) \<Rightarrow> Inr \<lparr>msg_seq = i, msg_m = b\<rparr>
     | _ \<Rightarrow> Inl ValueError)"

subsection \<open>The payload choice and the envelope\<close>

datatype make_payload =
    Session_init_request session_init_request
  | Session_init_response session_init_response
  | Session_completion_request session_completion_request
  | Session_completion_response session_completion_response
  | Message message

fun payload_name :: "make_payload \<Rightarrow> string" where
  "payload_name (Session_init_request _) = ''session_init_request''"
| "payload_name (Session_init_response _) = ''session_init_response''"
| "payload_name (Session_completion_request _) = ''session_completion_request''"
| "payload_name (Session_completion_response _) = ''session_completion_response''"
| "payload_name (Message _) = ''message''"

fun make_payload_value :: "make_payload \<Rightarrow> asn1" where
  "make_payload_value (Session_init_request r) = ACtxC 0 (session_init_request_fields r)"
| "make_payload_value (Session_init_response r) = ACtxC 1 (session_init_response_fields r)"
| "make_payload_value (Session_completion_request r) = ACtxC 2 (session_completion_request_fields r)"
| "make_payload_value (Session_completion_response r) = ACtxC 3 (session_completion_response_fields r)"
| "make_payload_value (Message r) = ACtxC 4 (message_fields r)"

definition make_payload_of :: "asn1 \<Rightarrow> make_payload result" where
  "make_payload_of t = (case t of
       ACtxC n fs \<Rightarrow>
         (if n = 0 then rbind (session_init_request_of fs) (\<lambda>r. Inr (Session_init_request r))
          else if n = 1 then rbind (session_init_response_of fs) (\<lambda>r. Inr (Session_init_response r))
          else if n = 2 then
            rbind (session_completion_request_of fs) (\<lambda>r. Inr (Session_completion_request r))
          else if n = 3 then
            rbind (session_completion_response_of fs) (\<lambda>r. Inr (Session_completion_response r))
          else if n = 4 then rbind (message_of fs) (\<lambda>r. Inr (Message r))
          else Inl ValueError)
     | _ \<Rightarrow> Inl ValueError)"

text \<open>\<open>dump\<close> of a choice dumps the chosen alternative, so the check of \<open>c_m\<close> runs here too.\<close>

fun validate_payload :: "make_payload \<Rightarrow> unit result" where
  "validate_payload (Session_completion_request r) = validate_c_m r"
| "validate_payload _ = Inr ()"

record make_message =
  mm_version :: int
  mm_cid :: bytes
  mm_payload :: make_payload

definition make_message_value :: "make_message \<Rightarrow> asn1" where
  "make_message_value m = ASeq
     ((if mm_version m = 0 then [] else [AInt (mm_version m)]) @
      [AOctets (mm_cid m), make_payload_value (mm_payload m)])"

definition make_message_of :: "asn1 \<Rightarrow> make_message result" where
  "make_message_of t = rbind (as_seq t) (\<lambda>fs. case fs of
       [c, p] \<Rightarrow> rbind (as_octets c) (\<lambda>cid. rbind (make_payload_of p) (\<lambda>pl.
         Inr \<lparr>mm_version = 0, mm_cid = cid, mm_payload = pl\<rparr>))
     | [v, c, p] \<Rightarrow> rbind (as_int v) (\<lambda>ver. rbind (as_octets c) (\<lambda>cid.
         rbind (make_payload_of p) (\<lambda>pl.
         Inr \<lparr>mm_version = ver, mm_cid = cid, mm_payload = pl\<rparr>)))
     | _ \<Rightarrow> Inl ValueError)"

definition MakeMessage_dump :: "lib \<Rightarrow> make_message \<Rightarrow> bytes result" where
  "MakeMessage_dump L m =
     rbind (validate_payload (mm_payload m)) (\<lambda>_. Inr (der_encode L (make_message_value m)))"

definition validate_cid :: "make_message \<Rightarrow> unit result" where
  "validate_cid m = (if length (mm_cid m) \<noteq> CID_LEN then Inl InvalidCorrelationId else Inr ())"

definition MakeMessage_load :: "lib \<Rightarrow> bytes \<Rightarrow> make_message result" where
  "MakeMessage_load L encoded_data =
     rbind (ber_decode L encoded_data) (\<lambda>t.
     rbind (make_message_of t) (\<lambda>obj.
     rbind (require_der (MakeMessage_dump L) encoded_data obj) (\<lambda>_.
     rbind (validate_cid obj) (\<lambda>_. Inr obj))))"

definition MakeMessage_build :: "bytes \<Rightarrow> make_payload \<Rightarrow> int \<Rightarrow> make_message result" where
  "MakeMessage_build a_correlation_id payload version =
     (let obj = \<lparr>mm_version = version, mm_cid = a_correlation_id, mm_payload = payload\<rparr>
      in rbind (validate_cid obj) (\<lambda>_. Inr obj))"

definition correlation_id :: "make_message \<Rightarrow> bytes result" where
  "correlation_id m = (if length (mm_cid m) \<noteq> 16 then Inl ValueError else Inr (mm_cid m))"

subsection \<open>Round trips\<close>

lemma kem_public_key_of_value [simp]: "kem_public_key_of (kem_public_key_value k) = Inr k"
  by (simp add: kem_public_key_of_def kem_public_key_value_def)

lemma kem_ciphertext_of_value [simp]: "kem_ciphertext_of (kem_ciphertext_value c) = Inr c"
  by (simp add: kem_ciphertext_of_def kem_ciphertext_value_def)

lemma key_id_of_value [simp]: "key_id_of (key_id_value k) = Inr k"
  by (simp add: key_id_of_def key_id_value_def)

lemma rmap_as_oid [simp]: "rmap as_oid (map AOid ds) = Inr ds"
  by (induction ds) simp_all

lemma session_init_request_of_fields [simp]:
  "session_init_request_of (session_init_request_fields r) = Inr r"
  by (simp add: session_init_request_of_def session_init_request_fields_def)

lemma session_init_response_of_fields [simp]:
  "session_init_response_of (session_init_response_fields r) = Inr r"
  by (simp add: session_init_response_of_def session_init_response_fields_def)

lemma session_completion_request_of_fields [simp]:
  "session_completion_request_of (session_completion_request_fields r) = Inr r"
  by (simp add: session_completion_request_of_def session_completion_request_fields_def)

lemma session_completion_response_of_fields [simp]:
  "session_completion_response_of (session_completion_response_fields r) = Inr r"
  by (cases r) (auto simp: session_completion_response_of_def session_completion_response_fields_def
      split: option.splits)

lemma message_of_fields [simp]: "message_of (message_fields r) = Inr r"
  by (simp add: message_of_def message_fields_def)

lemma make_payload_of_value [simp]: "make_payload_of (make_payload_value p) = Inr p"
  by (cases p) (simp_all add: make_payload_of_def)

lemma make_message_of_value [simp]: "make_message_of (make_message_value m) = Inr m"
  by (cases m) (simp add: make_message_of_def make_message_value_def)

subsection \<open>What the checks of \<open>build\<close> and \<open>load\<close> guarantee\<close>

definition kem_public_key_ok :: "int \<Rightarrow> kem_public_key \<Rightarrow> bool" where
  "kem_public_key_ok level k \<longleftrightarrow>
     map_of MLKEM_OIDS level = Some (alg_algorithm (pk_algorithm k)) \<and>
     length (pk_public_key k) = fips203_pk_len level"

definition kem_ciphertext_ok :: "int \<Rightarrow> kem_ciphertext \<Rightarrow> bool" where
  "kem_ciphertext_ok level c \<longleftrightarrow>
     map_of MLKEM_OIDS level = Some (alg_algorithm (ct_algorithm c)) \<and>
     length (ct_ciphertext c) = fips203_ct_len level"

lemma KemPublicKey_validate_length_iff:
  "KemPublicKey_validate_length k = Inr () \<longleftrightarrow> (\<exists>level. kem_public_key_ok level k)"
proof (cases "map_of OID_TO_LEVEL (alg_algorithm (pk_algorithm k))")
  case None
  then have "\<not> kem_public_key_ok level k" for level
    by (metis OID_TO_LEVEL_iff kem_public_key_ok_def option.distinct(1))
  with None show ?thesis by (simp add: KemPublicKey_validate_length_def)
next
  case (Some l)
  then have m: "map_of MLKEM_OIDS l = Some (alg_algorithm (pk_algorithm k))"
    by (simp add: OID_TO_LEVEL_iff)
  then have len: "map_of MLKEM_PK_LEN l = Some (fips203_pk_len l)"
    by (metis MLKEM_OIDS_dom MLKEM_LEN_known(1))
  have uniq: "kem_public_key_ok level k \<longleftrightarrow>
      level = l \<and> length (pk_public_key k) = fips203_pk_len l" for level
    using Some m by (metis OID_TO_LEVEL_iff kem_public_key_ok_def option.inject)
  show ?thesis using Some len by (simp add: KemPublicKey_validate_length_def uniq)
qed

lemma KemCiphertext_validate_length_iff:
  "KemCiphertext_validate_length c = Inr () \<longleftrightarrow> (\<exists>level. kem_ciphertext_ok level c)"
proof (cases "map_of OID_TO_LEVEL (alg_algorithm (ct_algorithm c))")
  case None
  then have "\<not> kem_ciphertext_ok level c" for level
    by (metis OID_TO_LEVEL_iff kem_ciphertext_ok_def option.distinct(1))
  with None show ?thesis by (simp add: KemCiphertext_validate_length_def)
next
  case (Some l)
  then have m: "map_of MLKEM_OIDS l = Some (alg_algorithm (ct_algorithm c))"
    by (simp add: OID_TO_LEVEL_iff)
  then have len: "map_of MLKEM_CT_LEN l = Some (fips203_ct_len l)"
    by (metis MLKEM_OIDS_dom MLKEM_LEN_known(2))
  have uniq: "kem_ciphertext_ok level c \<longleftrightarrow>
      level = l \<and> length (ct_ciphertext c) = fips203_ct_len l" for level
    using Some m by (metis OID_TO_LEVEL_iff kem_ciphertext_ok_def option.inject)
  show ?thesis using Some len by (simp add: KemCiphertext_validate_length_def uniq)
qed

lemma KemPublicKey_build_level:
  "KemPublicKey_build b (Some l) None = Inr k \<longleftrightarrow>
     kem_public_key_ok l k \<and> pk_public_key k = b \<and> alg_parameters (pk_algorithm k) = None"
  by (cases k; cases "pk_algorithm k")
     (auto simp: KemPublicKey_build_def KemPublicKey_validate_length_iff kem_public_key_ok_def
       kem_alg_def Let_def dest: MLKEM_OIDS_dom, (metis OID_TO_LEVEL_iff option.inject)?)

lemma KemCiphertext_build_eq_Inr:
  "KemCiphertext_build b l = Inr c \<longleftrightarrow>
     kem_ciphertext_ok l c \<and> ct_ciphertext c = b \<and> alg_parameters (ct_algorithm c) = None"
  by (cases c; cases "ct_algorithm c")
     (auto simp: KemCiphertext_build_def KemCiphertext_validate_length_iff kem_ciphertext_ok_def
       kem_alg_def Let_def dest: MLKEM_OIDS_dom split: option.splits,
       (metis OID_TO_LEVEL_iff option.inject)?)

lemma KemPublicKey_loadD:
  "KemPublicKey_load L b = Inr k \<Longrightarrow> KemPublicKey_dump L k = b \<and> (\<exists>level. kem_public_key_ok level k)"
  by (auto simp: KemPublicKey_load_def KemPublicKey_validate_length_iff)

lemma KemCiphertext_loadD:
  "KemCiphertext_load L b = Inr c \<Longrightarrow> KemCiphertext_dump L c = b \<and> (\<exists>level. kem_ciphertext_ok level c)"
  by (auto simp: KemCiphertext_load_def KemCiphertext_validate_length_iff)

lemma SessionCompletionRequest_loadD:
  "SessionCompletionRequest_load L b = Inr r \<Longrightarrow>
     SessionCompletionRequest_dump L r = Inr b \<and> scr_c_m r \<noteq> []"
  by (auto simp: SessionCompletionRequest_load_def SessionCompletionRequest_dump_def validate_c_m_def
      split: if_splits)

lemma MakeMessage_loadD:
  assumes "MakeMessage_load L b = Inr m"
  shows "MakeMessage_dump L m = Inr b" and "length (mm_cid m) = 16"
    and "validate_payload (mm_payload m) = Inr ()" and "correlation_id m = Inr (mm_cid m)"
  using assms by (auto simp: MakeMessage_load_def MakeMessage_dump_def validate_cid_def CID_LEN_def
      correlation_id_def split: if_splits)

interpretation kem_public_key: canonical_load "KemPublicKey_load L" "\<lambda>k. Inr (KemPublicKey_dump L k)" for L
  by unfold_locales (simp add: KemPublicKey_loadD)

interpretation kem_ciphertext: canonical_load "KemCiphertext_load L" "\<lambda>c. Inr (KemCiphertext_dump L c)" for L
  by unfold_locales (simp add: KemCiphertext_loadD)

interpretation completion_request: canonical_load "SessionCompletionRequest_load L" "SessionCompletionRequest_dump L" for L
  by unfold_locales (simp add: SessionCompletionRequest_loadD)

interpretation make_message: canonical_load "MakeMessage_load L" "MakeMessage_dump L" for L
  by unfold_locales (simp add: MakeMessage_loadD)

text \<open>The other direction: what was built and dumped loads back, when \<^verbatim>\<open>asn1crypto\<close> round-trips.\<close>

lemma MakeMessage_load_dump:
  assumes "asn1_works L" "asn1_valid L (make_message_value m)"
    and "MakeMessage_dump L m = Inr b" "length (mm_cid m) = 16"
  shows "MakeMessage_load L b = Inr m"
proof -
  from assms(3) have b: "b = der_encode L (make_message_value m)"
    by (auto simp: MakeMessage_dump_def)
  then have "ber_decode L b = Inr (make_message_value m)"
    using assms(1,2) by (simp add: asn1_worksD)
  then show ?thesis
    using assms(3,4) by (simp add: MakeMessage_load_def validate_cid_def CID_LEN_def)
qed

lemma KemPublicKey_load_dump:
  assumes "asn1_works L" "asn1_valid L (kem_public_key_value k)" "kem_public_key_ok level k"
  shows "KemPublicKey_load L (KemPublicKey_dump L k) = Inr k"
  using assms by (auto simp: KemPublicKey_load_def KemPublicKey_dump_def asn1_worksD
      KemPublicKey_validate_length_iff)

text \<open>
  DER's DEFAULT rule: a message that spells out \<^verbatim>\<open>version = 0\<close> decodes, but re-encodes without it,
  so it is refused.
\<close>

lemma explicit_default_version_rejected:
  assumes "ber_decode L b = Inr (ASeq [AInt 0, AOctets cid, make_payload_value p])"
    and "asn1_works L" "asn1_valid L (make_payload_value p)"
  shows "\<exists>e. MakeMessage_load L b = Inl e \<and> is_value_error e"
proof -
  let ?m = "\<lparr>mm_version = 0, mm_cid = cid, mm_payload = p\<rparr>"
  have of: "make_message_of (ASeq [AInt 0, AOctets cid, make_payload_value p]) = Inr ?m"
    by (simp add: make_message_of_def)
  have "MakeMessage_dump L ?m \<noteq> Inr b"
  proof
    assume "MakeMessage_dump L ?m = Inr b"
    then have "b = der_encode L (ASeq [AOctets cid, make_payload_value p])"
      by (auto simp: MakeMessage_dump_def make_message_value_def)
    then have "ber_decode L b = Inr (ASeq [AOctets cid, make_payload_value p])"
      using assms(2,3) by (simp add: asn1_worksD)
    with assms(1) show False by simp
  qed
  then show ?thesis
    using assms(1) of
    by (auto simp: MakeMessage_load_def require_der_def MakeMessage_dump_def validate_c_m_def
        rbind_def split: sum.splits if_splits elim!: validate_payload.elims)
qed

text \<open>Every failure of \<open>load\<close> that is not the decoder's own is a \<open>ValueError\<close>.\<close>

lemma as_value_error:
  "only_value_errors (as_int t)" "only_value_errors (as_octets t)"
  "only_value_errors (as_oid t)" "only_value_errors (as_seq t)"
  by (cases t; simp)+

lemma rmap_value_error: "(\<And>x. only_value_errors (f x)) \<Longrightarrow> only_value_errors (rmap f xs)"
  by (induction xs) (auto intro!: only_value_errors_rbind)

lemma alg_of_value_error: "only_value_errors (alg_of t)"
  by (auto simp: alg_of_def intro!: only_value_errors_rbind as_value_error split: list.split)

lemmas alg_value_errors = only_value_errors_rbind as_value_error alg_of_value_error

lemma key_of_value_error:
  "only_value_errors (kem_public_key_of t)" "only_value_errors (kem_ciphertext_of t)"
  "only_value_errors (key_id_of t)"
  by (auto simp: kem_public_key_of_def kem_ciphertext_of_def key_id_of_def
      intro!: alg_value_errors split: list.split)

lemmas key_value_errors = alg_value_errors key_of_value_error rmap_value_error

lemma pdu_of_value_error:
  "only_value_errors (session_init_request_of fs)" "only_value_errors (session_init_response_of fs)"
  "only_value_errors (session_completion_request_of fs)"
  "only_value_errors (session_completion_response_of fs)" "only_value_errors (message_of fs)"
  by (auto simp: session_init_request_of_def session_init_response_of_def
      session_completion_request_of_def session_completion_response_of_def message_of_def
      intro!: key_value_errors split: list.split asn1.split nat.split)

lemma make_payload_of_value_error: "only_value_errors (make_payload_of t)"
  by (auto simp: make_payload_of_def intro!: only_value_errors_rbind pdu_of_value_error
      split: asn1.split)

lemma make_message_of_value_error: "only_value_errors (make_message_of t)"
  by (auto simp: make_message_of_def intro!: key_value_errors make_payload_of_value_error
      split: list.split)

lemma validate_payload_value_error: "only_value_errors (validate_payload p)"
  by (cases p) (auto simp: validate_c_m_def)

lemma MakeMessage_load_value_error:
  assumes "only_value_errors (ber_decode L b)"
  shows "only_value_errors (MakeMessage_load L b)"
  using assms by (auto simp: MakeMessage_load_def require_der_def MakeMessage_dump_def
      validate_cid_def intro!: only_value_errors_rbind make_message_of_value_error
      validate_payload_value_error)

text \<open>
  A key id binds the algorithm: the hash runs over the encoding of the whole public key, so two
  keys with the same id are the same key unless the hash collides on their encodings.
\<close>

lemma KemPublicKey_dump_inj:
  assumes "asn1_works L" "asn1_valid L (kem_public_key_value k)" "asn1_valid L (kem_public_key_value k')"
    and "KemPublicKey_dump L k = KemPublicKey_dump L k'"
  shows "k = k'"
proof -
  have "Inr (kem_public_key_value k) = (Inr (kem_public_key_value k') :: asn1 result)"
    using assms by (metis KemPublicKey_dump_def asn1_worksD)
  then have "kem_public_key_of (kem_public_key_value k) = kem_public_key_of (kem_public_key_value k')"
    by simp
  then show ?thesis by simp
qed

lemma KeyId_build_eq_Inr [simp]:
  "KeyId_build L k d = Inr kid \<longleftrightarrow>
     hash_new L d (KemPublicKey_dump L k) = Inr (kid_key_hash kid) \<and>
     digest_algorithm L d = Inr (kid_hash_algorithm kid)"
  by (cases kid) (auto simp: KeyId_build_def)

subsection \<open>The properties of the wire format\<close>

text \<open>
  \<open>load\<close> and \<open>dump\<close> are inverse to each other and each message has one encoding: over a codec that
  round-trips, bytes load as a message exactly when they are what that message dumps to and its correlation
  id has 16 bytes. So every message that can be built round-trips, and no other bytes load as it.
\<close>

theorem message_loads_iff_dumped:
  assumes "asn1_works L" "asn1_valid L (make_message_value m)"
  shows "MakeMessage_load L b = Inr m \<longleftrightarrow> MakeMessage_dump L m = Inr b \<and> length (mm_cid m) = CID_LEN"
  using assms MakeMessage_loadD(1,2) [of L b m] MakeMessage_load_dump [of L m b] by (auto simp: CID_LEN_def)

text \<open>
  DER's rule for defaults is enforced: a message that spells out \<^verbatim>\<open>version = 0\<close> is refused with a
  \<open>ValueError\<close>, though it decodes to the same fields as the one without.
\<close>

theorem explicit_default_refused:
  assumes "ber_decode L b = Inr (ASeq [AInt 0, AOctets cid, make_payload_value p])"
    and "asn1_works L" "asn1_valid L (make_payload_value p)"
  shows "make_message_of (ASeq [AInt 0, AOctets cid, make_payload_value p]) =
      make_message_of (ASeq [AOctets cid, make_payload_value p])
    \<and> (\<exists>e. MakeMessage_load L b = Inl e \<and> is_value_error e)"
  using explicit_default_version_rejected [OF assms] by (simp add: make_message_of_def)

text \<open>
  A public key or ciphertext can be built exactly when its level is one of the two that are supported and
  the bytes have the length of FIPS 203 for that level; what is built carries the OID of the level, no
  parameters and the bytes.
\<close>

theorem wire_lengths_exact:
  shows "(KemPublicKey_build b (Some l) None = Inr k \<longleftrightarrow>
      map_of MLKEM_OIDS l = Some (alg_algorithm (pk_algorithm k)) \<and> alg_parameters (pk_algorithm k) = None \<and>
      pk_public_key k = b \<and> length b = fips203_pk_len l)
    \<and> (KemCiphertext_build b l = Inr c \<longleftrightarrow>
      map_of MLKEM_OIDS l = Some (alg_algorithm (ct_algorithm c)) \<and> alg_parameters (ct_algorithm c) = None \<and>
      ct_ciphertext c = b \<and> length b = fips203_ct_len l)"
  by (auto simp: KemPublicKey_build_level KemCiphertext_build_eq_Inr kem_public_key_ok_def kem_ciphertext_ok_def)

text \<open>
  A key id binds the whole key, its algorithm included: two keys with the same id under the same digest
  either are the same key or are a collision of that digest on two different encodings.
\<close>

theorem key_id_binds_key:
  assumes "asn1_works L" "asn1_valid L (kem_public_key_value k)" "asn1_valid L (kem_public_key_value k')"
    and "KeyId_build L k d = Inr kid" "KeyId_build L k' d = Inr kid"
  shows "hash_new L d (KemPublicKey_dump L k) = hash_new L d (KemPublicKey_dump L k')
    \<and> (KemPublicKey_dump L k = KemPublicKey_dump L k' \<longleftrightarrow> k = k')"
  using assms KemPublicKey_dump_inj [OF assms(1-3)] by auto

end
