(* ===== verification/SessionCrypto.thy ===== *)
theory SessionCrypto
  imports Bottom
begin

section \<open>\<^verbatim>\<open>session.py\<close>, first part: KEM plumbing, session keys, message protection\<close>

text \<open>
  The stateless functions of the session layer: encapsulation over the wire types, the derivation
  of two keys and two IVs per session, the nonce of a message (IV XOR sequence number, in 12
  bytes) and AEAD encryption. The lemmas: a KEM and an AEAD that work give round trips here; a
  nonce determines its sequence number; the four HKDF inputs of a session are different.
\<close>

unbundle bit_operations_syntax

subsection \<open>ML-KEM plumbing\<close>

definition MLKEM_CLASSES :: "int list" where
  "MLKEM_CLASSES = [768, 1024]"

definition mlkem_class :: "int \<Rightarrow> unit result" where
  "mlkem_class level = (if level \<in> set MLKEM_CLASSES then Inr () else Inl KeyError)"

definition SESSION_OID_TO_LEVEL :: "(oid, int) dict" where
  "SESSION_OID_TO_LEVEL =
     map (\<lambda>(level, oid). (oid, level)) (filter (\<lambda>(level, _). level \<in> set MLKEM_CLASSES) MLKEM_OIDS)"

definition level_of :: "kem_public_key \<Rightarrow> int result" where
  "level_of k = (case map_of SESSION_OID_TO_LEVEL (alg_algorithm (pk_algorithm k)) of
       None \<Rightarrow> Inl UnknownKemAlgorithm | Some level \<Rightarrow> Inr level)"

definition generate_ephemeral :: "lib \<Rightarrow> int \<Rightarrow> bytes \<Rightarrow> (mlkem_private \<times> kem_public_key) result" where
  "generate_ephemeral L level c =
     rbind (mlkem_class level) (\<lambda>_.
     rbind (mlkem_generate L level c) (\<lambda>private.
     rbind (KemPublicKey_build (mlkem_public_bytes L private) (Some level) None) (\<lambda>public_wire.
     Inr (private, public_wire))))"

definition encapsulate :: "lib \<Rightarrow> kem_public_key \<Rightarrow> bytes \<Rightarrow> (bytes \<times> kem_ciphertext) result" where
  "encapsulate L peer_public c =
     rbind (level_of peer_public) (\<lambda>level.
     rbind (mlkem_class level) (\<lambda>_.
     rbind (mlkem_encapsulate L level (pk_public_key peer_public) c) (\<lambda>(shared_secret, ct_bytes).
     rbind (KemCiphertext_build ct_bytes level) (\<lambda>ct.
     Inr (shared_secret, ct)))))"

definition decapsulate :: "lib \<Rightarrow> bytes \<Rightarrow> int \<Rightarrow> kem_ciphertext \<Rightarrow> bytes result" where
  "decapsulate L private_seed level ciphertext =
     rbind (mlkem_class level) (\<lambda>_.
     rbind (mlkem_from_seed_bytes L level private_seed) (\<lambda>private_obj.
     mlkem_decapsulate L private_obj (ct_ciphertext ciphertext)))"

subsection \<open>Session keys\<close>

record session_keys =
  sk_aead_name :: string
  sk_key_a2b :: bytes
  sk_iv_a2b :: bytes
  sk_key_b2a :: bytes
  sk_iv_b2a :: bytes

definition AEAD_KEY_LENGTHS :: "(string, int) dict" where
  "AEAD_KEY_LENGTHS = [(''aes256-gcm'', 32), (''chacha20-poly1305'', 32)]"

definition AEAD_NONCE_LENGTH :: int where
  "AEAD_NONCE_LENGTH = 12"

text \<open>A bytes literal \<^verbatim>\<open>b"..."\<close>.\<close>

definition ascii :: "string \<Rightarrow> bytes" where
  "ascii s = map of_char s"

definition derive_session_keys ::
    "lib \<Rightarrow> bytes \<Rightarrow> bytes \<Rightarrow> bytes \<Rightarrow> bytes \<Rightarrow> bytes \<Rightarrow> bytes \<Rightarrow> bytes \<Rightarrow> string \<Rightarrow> session_keys result" where
  "derive_session_keys L n_a n_b f_a s1 s2 s3 s4 aead =
     (case map_of AEAD_KEY_LENGTHS aead of
        None \<Rightarrow> Inl ValueError
      | Some key_length \<Rightarrow>
          let salt = n_a @ n_b;
              ikm = s1 @ s2 @ s3 @ s4;
              derive = (\<lambda>label n. hkdf_sha256 L n salt (f_a @ ascii label) ikm)
          in rbind (derive ''kem-make-session-a2b-key-v1'' key_length) (\<lambda>ka.
             rbind (derive ''kem-make-session-a2b-iv-v1'' AEAD_NONCE_LENGTH) (\<lambda>ia.
             rbind (derive ''kem-make-session-b2a-key-v1'' key_length) (\<lambda>kb.
             rbind (derive ''kem-make-session-b2a-iv-v1'' AEAD_NONCE_LENGTH) (\<lambda>ib.
             Inr \<lparr>sk_aead_name = aead, sk_key_a2b = ka, sk_iv_a2b = ia,
                  sk_key_b2a = kb, sk_iv_b2a = ib\<rparr>)))))"

subsection \<open>Nonces and encryption\<close>

text \<open>\<^verbatim>\<open>seq.to_bytes(n, "big")\<close>.\<close>

fun big_endian :: "nat \<Rightarrow> int \<Rightarrow> bytes" where
  "big_endian 0 i = []"
| "big_endian (Suc n) i = big_endian n (i div 256) @ [word_of_int (i mod 256)]"

definition int_to_bytes :: "nat \<Rightarrow> int \<Rightarrow> bytes result" where
  "int_to_bytes n i = (if i < 0 \<or> 256 ^ n \<le> i then Inl OverflowError else Inr (big_endian n i))"

definition nonce_for_seq :: "bytes \<Rightarrow> int \<Rightarrow> bytes result" where
  "nonce_for_seq iv sq =
     rbind (int_to_bytes (length iv) sq) (\<lambda>seq_bytes. Inr (map2 (\<lambda>a b. a XOR b) iv seq_bytes))"

definition aead_cipher :: "string \<Rightarrow> aead_class result" where
  "aead_cipher aead =
     (if aead = ''aes256-gcm'' then Inr AESGCM
      else if aead = ''chacha20-poly1305'' then Inr ChaCha20Poly1305
      else Inl ValueError)"

definition encrypt :: "lib \<Rightarrow> string \<Rightarrow> bytes \<Rightarrow> bytes \<Rightarrow> int \<Rightarrow> bytes \<Rightarrow> bytes \<Rightarrow> bytes result" where
  "encrypt L aead key iv sq plaintext associated_data =
     rbind (aead_cipher aead) (\<lambda>cipher.
     rbind (nonce_for_seq iv sq) (\<lambda>nonce.
     aead_encrypt L cipher key nonce plaintext associated_data))"

definition decrypt :: "lib \<Rightarrow> string \<Rightarrow> bytes \<Rightarrow> bytes \<Rightarrow> int \<Rightarrow> bytes \<Rightarrow> bytes \<Rightarrow> bytes result" where
  "decrypt L aead key iv sq ciphertext associated_data =
     rbind (aead_cipher aead) (\<lambda>cipher.
     rbind (nonce_for_seq iv sq) (\<lambda>nonce.
     aead_decrypt L cipher key nonce ciphertext associated_data))"

subsection \<open>KEM round trips\<close>

lemma level_of_eq_Inr: "level_of k = Inr l \<longleftrightarrow> map_of MLKEM_OIDS l = Some (alg_algorithm (pk_algorithm k))"
  by (auto simp: level_of_def SESSION_OID_TO_LEVEL_def MLKEM_OIDS_def MLKEM_CLASSES_def
      split: if_splits option.splits)

lemma mlkem_class_eq_Inr [simp]: "mlkem_class l = Inr u \<longleftrightarrow> l = 768 \<or> l = 1024"
  by (auto simp: mlkem_class_def MLKEM_CLASSES_def)

text \<open>A public key on the wire that belongs to a working private key.\<close>

definition key_pair :: "lib \<Rightarrow> mlkem_private \<Rightarrow> kem_public_key \<Rightarrow> bool" where
  "key_pair L k pk \<longleftrightarrow>
     mlkem_key_works L k \<and> (priv_level k = 768 \<or> priv_level k = 1024) \<and>
     map_of MLKEM_OIDS (priv_level k) = Some (alg_algorithm (pk_algorithm pk)) \<and>
     pk_public_key pk = mlkem_public_bytes L k"

lemma key_pair_level: "key_pair L k pk \<Longrightarrow> level_of pk = Inr (priv_level k)"
  by (simp add: key_pair_def level_of_eq_Inr)

lemma generate_ephemeral_works:
  assumes "mlkem_works L" "level = 768 \<or> level = 1024"
  obtains k pk where "generate_ephemeral L level c = Inr (k, pk)" and "key_pair L k pk"
    and "priv_level k = level" and "alg_parameters (pk_algorithm pk) = None"
proof -
  from assms obtain k where k: "mlkem_generate L level c = Inr k" "priv_level k = level"
      "mlkem_key_works L k"
    by (elim mlkem_worksE)
  obtain oid where oid: "map_of MLKEM_OIDS level = Some oid"
    using assms(2) MLKEM_OIDS_Some by blast
  let ?pk = "\<lparr>pk_algorithm = kem_alg oid, pk_public_key = mlkem_public_bytes L k\<rparr>"
  have "KemPublicKey_build (mlkem_public_bytes L k) (Some level) None = Inr ?pk"
    using oid k by (simp add: KemPublicKey_build_level kem_public_key_ok_def kem_alg_def
        mlkem_key_works_def)
  then have "generate_ephemeral L level c = Inr (k, ?pk)"
    using k(1) assms(2) by (simp add: generate_ephemeral_def)
  moreover have "key_pair L k ?pk"
    using k assms(2) oid by (simp add: key_pair_def kem_alg_def)
  ultimately show thesis using that k(2) by (simp add: kem_alg_def)
qed

lemma encapsulate_works:
  assumes "key_pair L k pk"
  obtains ss ct where "encapsulate L pk c = Inr (ss, ct)"
    and "decapsulate L (private_bytes_raw k) (priv_level k) ct = Inr ss"
    and "kem_ciphertext_ok (priv_level k) ct" and "alg_parameters (ct_algorithm ct) = None"
proof -
  from assms have k: "mlkem_key_works L k" "priv_level k = 768 \<or> priv_level k = 1024"
      "map_of MLKEM_OIDS (priv_level k) = Some (alg_algorithm (pk_algorithm pk))"
      "pk_public_key pk = mlkem_public_bytes L k"
    by (simp_all add: key_pair_def)
  from k(1) obtain ss ctb where e:
      "mlkem_encapsulate L (priv_level k) (mlkem_public_bytes L k) c = Inr (ss, ctb)"
      "length ctb = fips203_ct_len (priv_level k)" "mlkem_decapsulate L k ctb = Inr ss"
    by (elim mlkem_key_worksE)
  let ?ct = "\<lparr>ct_algorithm = kem_alg (alg_algorithm (pk_algorithm pk)), ct_ciphertext = ctb\<rparr>"
  have ok: "kem_ciphertext_ok (priv_level k) ?ct"
    using k(3) e(2) by (simp add: kem_ciphertext_ok_def kem_alg_def)
  then have "KemCiphertext_build ctb (priv_level k) = Inr ?ct"
    by (simp add: KemCiphertext_build_eq_Inr kem_alg_def)
  then have "encapsulate L pk c = Inr (ss, ?ct)"
    using k e(1) assms by (simp add: encapsulate_def key_pair_level)
  moreover have "decapsulate L (private_bytes_raw k) (priv_level k) ?ct = Inr ss"
    using k(1,2) e(3) by (simp add: decapsulate_def mlkem_key_works_def)
  ultimately show thesis using that ok by (simp add: kem_alg_def)
qed

subsection \<open>Session keys: lengths and separate inputs\<close>

lemma AEAD_KEY_LENGTHS_Some: "map_of AEAD_OIDS aead = Some oid \<Longrightarrow> map_of AEAD_KEY_LENGTHS aead = Some 32"
  by (auto simp: AEAD_OIDS_def AEAD_KEY_LENGTHS_def split: if_splits)

lemma derive_session_keys_works:
  assumes "hkdf_works L" "map_of AEAD_OIDS aead = Some oid"
  obtains keys where "derive_session_keys L n_a n_b f_a s1 s2 s3 s4 aead = Inr keys"
    and "sk_aead_name keys = aead"
    and "length (sk_key_a2b keys) = 32" "length (sk_iv_a2b keys) = 12"
    and "length (sk_key_b2a keys) = 32" "length (sk_iv_b2a keys) = 12"
proof -
  let ?d = "\<lambda>label n. hkdf_sha256 L n (n_a @ n_b) (f_a @ ascii label) (s1 @ s2 @ s3 @ s4)"
  have ex: "\<exists>k. ?d label n = Inr k \<and> int (length k) = n" if "0 < n" "n \<le> 8160" for label n
    using hkdf_worksE [OF assms(1) that(1)] that(2) by simp metis
  from ex [of 32] ex [of 12] obtain ka ia kb ib where
      "?d ''kem-make-session-a2b-key-v1'' 32 = Inr ka" "length ka = 32"
      "?d ''kem-make-session-a2b-iv-v1'' 12 = Inr ia" "length ia = 12"
      "?d ''kem-make-session-b2a-key-v1'' 32 = Inr kb" "length kb = 32"
      "?d ''kem-make-session-b2a-iv-v1'' 12 = Inr ib" "length ib = 12"
    by simp metis
  then show thesis
    using that AEAD_KEY_LENGTHS_Some [OF assms(2)]
    by (simp add: derive_session_keys_def AEAD_NONCE_LENGTH_def Let_def)
qed

lemma session_key_labels_differ:
  "f_a @ ascii ''kem-make-session-a2b-key-v1'' \<noteq> f_a @ ascii ''kem-make-session-b2a-key-v1''"
  "f_a @ ascii ''kem-make-session-a2b-iv-v1'' \<noteq> f_a @ ascii ''kem-make-session-b2a-iv-v1''"
  by (simp_all add: ascii_def)

subsection \<open>Nonces\<close>

lemma length_big_endian [simp]: "length (big_endian n i) = n"
  by (induction n arbitrary: i) simp_all

text \<open>\<^verbatim>\<open>int.from_bytes(b, "big")\<close>, the inverse.\<close>

definition from_big_endian :: "bytes \<Rightarrow> int" where
  "from_big_endian = foldl (\<lambda>a b. a * 256 + uint b) 0"

lemma from_big_endian_snoc [simp]: "from_big_endian (bs @ [b]) = from_big_endian bs * 256 + uint b"
  by (simp add: from_big_endian_def)

lemma from_big_endian: "0 \<le> i \<Longrightarrow> i < 256 ^ n \<Longrightarrow> from_big_endian (big_endian n i) = i"
proof (induction n arbitrary: i)
  case 0
  then show ?case by (simp add: from_big_endian_def)
next
  case (Suc n)
  have "from_big_endian (big_endian n (i div 256)) = i div 256"
    using Suc.prems by (intro Suc.IH) auto
  moreover have "uint (word_of_int (i mod 256) :: byte) = i mod 256"
    by (simp add: uint_word_of_int)
  ultimately show ?case by simp
qed

lemma int_to_bytes_inj:
  "int_to_bytes n i = Inr b \<Longrightarrow> int_to_bytes n j = Inr b \<Longrightarrow> i = j"
  by (auto simp: int_to_bytes_def split: if_splits dest: arg_cong [where f = from_big_endian]
      simp: from_big_endian)

lemma byte_xor_cancel: "x XOR y = x XOR z \<Longrightarrow> y = (z :: byte)"
  by (auto simp: bit_eq_iff bit_xor_iff)

lemma map2_xor_inj:
  "length xs = length ys \<Longrightarrow> length xs = length zs \<Longrightarrow>
   map2 (\<lambda>a b. a XOR b) xs ys = map2 (\<lambda>a b. a XOR b) xs zs \<Longrightarrow> ys = (zs :: bytes)"
proof (induction xs ys arbitrary: zs rule: list_induct2)
  case Nil
  then show ?case by simp
next
  case (Cons x xs y ys)
  then obtain z zs' where "zs = z # zs'" by (cases zs) auto
  with Cons show ?case by (auto dest: byte_xor_cancel)
qed

lemma nonce_for_seq_inj:
  assumes "nonce_for_seq iv i = Inr n" "nonce_for_seq iv j = Inr n"
  shows "i = j"
proof -
  from assms obtain bi bj where b: "int_to_bytes (length iv) i = Inr bi"
      "int_to_bytes (length iv) j = Inr bj"
      "map2 (\<lambda>a b. a XOR b) iv bi = map2 (\<lambda>a b. a XOR b) iv bj"
    by (auto simp: nonce_for_seq_def)
  then have "length bi = length iv" "length bj = length iv"
    by (auto simp: int_to_bytes_def split: if_splits)
  then have "bi = bj" by (intro map2_xor_inj [OF _ _ b(3)]) simp_all
  with b(1,2) show ?thesis using int_to_bytes_inj by blast
qed

lemma nonce_for_seq_ok:
  "0 \<le> i \<Longrightarrow> i < 256 ^ length iv \<Longrightarrow> \<exists>n. nonce_for_seq iv i = Inr n \<and> length n = length iv"
  by (auto simp: nonce_for_seq_def int_to_bytes_def)

lemma nonce_for_seq_overflow: "256 ^ length iv \<le> i \<Longrightarrow> nonce_for_seq iv i = Inl OverflowError"
  by (auto simp: nonce_for_seq_def int_to_bytes_def)

subsection \<open>Encryption round trip\<close>

lemma aead_cipher_known: "map_of AEAD_OIDS aead = Some oid \<Longrightarrow> \<exists>cls. aead_cipher aead = Inr cls"
  by (auto simp: AEAD_OIDS_def aead_cipher_def split: if_splits)

lemma encrypt_works:
  assumes "aead_works L" "map_of AEAD_OIDS aead = Some oid"
    and "length key = 32" "length iv = 12" "0 \<le> i" "i < 256 ^ 12" "length pt < 2 ^ 31"
  obtains ct where "encrypt L aead key iv i pt ad = Inr ct" and "ct \<noteq> []"
    and "decrypt L aead key iv i ct ad = Inr pt"
proof -
  obtain cls where c: "aead_cipher aead = Inr cls"
    using aead_cipher_known assms(2) by blast
  obtain n where n: "nonce_for_seq iv i = Inr n" "length n = 12"
    using nonce_for_seq_ok [of i iv] assms by auto
  from assms(1,3) n(2) assms(7) obtain ct where "aead_encrypt L cls key n pt ad = Inr ct"
      "ct \<noteq> []" "aead_decrypt L cls key n ct ad = Inr pt"
    by (rule aead_worksE)
  then show thesis using that c n(1) by (simp add: encrypt_def decrypt_def)
qed

text \<open>
  The nonces of a direction are pairwise different and never wrap around: two sequence numbers that get
  the same nonce under the same IV are equal, a nonce is as long as the IV, and the first sequence number
  that no longer fits (2^96 for 12 bytes) raises \<open>OverflowError\<close> instead of starting over.
\<close>

theorem nonces_never_wrap:
  assumes "0 \<le> i"
  shows "case nonce_for_seq iv i of
      Inl e \<Rightarrow> e = OverflowError \<and> 256 ^ length iv \<le> i
    | Inr n \<Rightarrow> length n = length iv \<and> i < 256 ^ length iv \<and> (\<forall>j. nonce_for_seq iv j = Inr n \<longleftrightarrow> j = i)"
proof (cases "i < 256 ^ length iv")
  case True
  then obtain n where "nonce_for_seq iv i = Inr n" "length n = length iv"
    using nonce_for_seq_ok assms by blast
  with True show ?thesis by (auto dest: nonce_for_seq_inj)
qed (simp add: nonce_for_seq_overflow)

end
