(* ===== verification/Session.thy ===== *)
theory Session
  imports SessionCrypto
begin

section \<open>\<^verbatim>\<open>session.py\<close>, second part: the session state machine\<close>

text \<open>
  \<open>session\<close> is the object's state; every method is a function from the state before the call to
  the result (or exception) and the state after it. What an exception leaves behind is kept: a
  handler that fails after an assignment has made that assignment. \<open>L\<close> is the third-party
  code, \<open>K\<close> the key lookup object (\<open>self._keys\<close>), \<open>c\<close> the randomness the call draws; the key
  lookup is a read-only collaborator and so an argument, not a field. A use of an attribute that
  is still \<open>None\<close> raises \<open>AttributeError\<close> in the model (\<open>need\<close>).
\<close>

subsection \<open>Enumerations and configuration\<close>

datatype role = INITIATOR | RESPONDER

datatype session_state =
    INITIAL
  | EXPECT_SESSION_INIT_RESPONSE
  | EXPECT_SESSION_COMPLETION_REQUEST
  | EXPECT_SESSION_COMPLETION_RESPONSE
  | ESTABLISHED
  | DROPPED

datatype update_result = NOTHING_READY | PDU_READY | PAYLOAD_READY | SESSION_DROPPED

record key_lookup =
  kl_get_public_key :: "key_id \<Rightarrow> kem_public_key result"
  kl_get_private_key :: "key_id \<Rightarrow> bytes result"

record session_config =
  cfg_max_retries :: int
  cfg_retry_interval_seconds :: rat
  cfg_ttl_seconds :: rat
  cfg_kem_level :: int
  cfg_acceptable_aeads :: "string list"

definition SessionConfig :: session_config where
  "SessionConfig = \<lparr>cfg_max_retries = 2, cfg_retry_interval_seconds = 5, cfg_ttl_seconds = 60,
     cfg_kem_level = 768, cfg_acceptable_aeads = [''aes256-gcm'', ''chacha20-poly1305'']\<rparr>"

text \<open>The result of \<open>update\<close>, for anything with \<open>poll_payload\<close> and \<open>poll_pdu\<close>.\<close>

definition next_update_result ::
    "('s \<Rightarrow> bool) \<Rightarrow> ('s \<Rightarrow> bool) \<Rightarrow> 's \<Rightarrow> ftime \<Rightarrow> update_result \<times> ftime" where
  "next_update_result poll_payload poll_pdu poller next_deadline =
     (if poll_payload poller then (PAYLOAD_READY, next_deadline)
      else if poll_pdu poller then (PDU_READY, next_deadline)
      else (NOTHING_READY, next_deadline))"

subsection \<open>The state of a session\<close>

record session =
  ses_role :: role
  ses_own_key_id :: "key_id option"
  ses_config :: session_config
  ses_state :: session_state
  ses_cid :: "bytes option"
  ses_last_received :: "bytes option"
  ses_last_sent :: "bytes option"
  ses_attempt_count :: int
  ses_deadline :: "rat option"
  ses_outgoing_pdus :: "bytes list"
  ses_outgoing_payloads :: "bytes list"
  ses_pending_payload :: "bytes option"
  ses_own_ephemeral_private :: "mlkem_private option"
  ses_own_ephemeral_public :: "kem_public_key option"
  ses_peer_static_public :: "kem_public_key option"
  ses_peer_key_id :: "key_id option"
  ses_s1 :: "bytes option"
  ses_s2 :: "bytes option"
  ses_s3 :: "bytes option"
  ses_s4 :: "bytes option"
  ses_n_a :: "bytes option"
  ses_n_b :: "bytes option"
  ses_chosen_aead :: "string option"
  ses_session_keys :: "session_keys option"
  ses_seq_a2b :: int
  ses_seq_b2a :: int
  ses_sent_plaintext_for_h_m :: "bytes option"
  ses_incoming_queue :: "bytes list"

definition Session_init :: "role \<Rightarrow> key_id option \<Rightarrow> session_config option \<Rightarrow> session" where
  "Session_init role own_key_id config =
     \<lparr>ses_role = role, ses_own_key_id = own_key_id,
      ses_config = (case config of None \<Rightarrow> SessionConfig | Some c \<Rightarrow> c),
      ses_state = INITIAL, ses_cid = None,
      ses_last_received = None, ses_last_sent = None, ses_attempt_count = 0, ses_deadline = None,
      ses_outgoing_pdus = [], ses_outgoing_payloads = [], ses_pending_payload = None,
      ses_own_ephemeral_private = None, ses_own_ephemeral_public = None,
      ses_peer_static_public = None, ses_peer_key_id = None,
      ses_s1 = None, ses_s2 = None, ses_s3 = None, ses_s4 = None,
      ses_n_a = None, ses_n_b = None, ses_chosen_aead = None, ses_session_keys = None,
      ses_seq_a2b = 0, ses_seq_b2a = 0, ses_sent_plaintext_for_h_m = None,
      ses_incoming_queue = []\<rparr>"

text \<open>Run a computation that ends in the new state; on an exception the state is the old one.\<close>

definition commit :: "'s \<Rightarrow> 's result \<Rightarrow> unit result \<times> 's" where
  "commit s r = (case r of Inl e \<Rightarrow> (Inl e, s) | Inr s' \<Rightarrow> (Inr (), s'))"

subsection \<open>Push in, pull out\<close>

definition post_pdu :: "bytes \<Rightarrow> session \<Rightarrow> session" where
  "post_pdu der_bytes s = s\<lparr>ses_incoming_queue := ses_incoming_queue s @ [der_bytes]\<rparr>"

definition post_payload :: "bytes \<Rightarrow> session \<Rightarrow> unit result \<times> session" where
  "post_payload payload s =
     (if payload = [] then (Inl ValueError, s)
      else (Inr (), s\<lparr>ses_pending_payload := Some payload\<rparr>))"

definition poll_pdu :: "session \<Rightarrow> bool" where
  "poll_pdu s \<longleftrightarrow> length (ses_outgoing_pdus s) > 0"

definition get_pdu :: "session \<Rightarrow> bytes result \<times> session" where
  "get_pdu s = (case pop_front (ses_outgoing_pdus s) of
       Inl e \<Rightarrow> (Inl e, s) | Inr (x, xs) \<Rightarrow> (Inr x, s\<lparr>ses_outgoing_pdus := xs\<rparr>))"

definition poll_payload :: "session \<Rightarrow> bool" where
  "poll_payload s \<longleftrightarrow> length (ses_outgoing_payloads s) > 0"

definition get_payload :: "session \<Rightarrow> bytes result \<times> session" where
  "get_payload s = (case pop_front (ses_outgoing_payloads s) of
       Inl e \<Rightarrow> (Inl e, s) | Inr (x, xs) \<Rightarrow> (Inr x, s\<lparr>ses_outgoing_payloads := xs\<rparr>))"

definition get_last_sent :: "session \<Rightarrow> bytes option" where
  "get_last_sent s = ses_last_sent s"

definition get_last_received :: "session \<Rightarrow> bytes option" where
  "get_last_received s = ses_last_received s"

subsection \<open>Lifecycle\<close>

definition initiate :: "lib \<Rightarrow> key_lookup \<Rightarrow> coins \<Rightarrow> key_id \<Rightarrow> rat \<Rightarrow> session \<Rightarrow> unit result \<times> session" where
  "initiate L K c peer_key_id now s =
     (if ses_role s \<noteq> INITIATOR then (Inl SessionError, s)
      else if ses_state s \<noteq> INITIAL then (Inl SessionError, s)
      else
        let cid = coin_uuid4 c;
            sa = s\<lparr>ses_cid := Some cid, ses_peer_key_id := Some peer_key_id\<rparr>
        in case kl_get_public_key K peer_key_id of Inl e \<Rightarrow> (Inl e, sa) | Inr peer_static_public \<Rightarrow>
        (case generate_ephemeral L (cfg_kem_level (ses_config s)) (coin_generate c) of
           Inl e \<Rightarrow> (Inl e, sa) | Inr (private, public) \<Rightarrow>
        let sb = sa\<lparr>ses_own_ephemeral_private := Some private, ses_own_ephemeral_public := Some public\<rparr>
        in case encapsulate L peer_static_public (coin_encaps1 c) of
           Inl e \<Rightarrow> (Inl e, sb) | Inr (s1, ct1) \<Rightarrow>
        let sc = sb\<lparr>ses_s1 := Some s1\<rparr>
        in commit sc
          (rbind (need (ses_own_key_id s)) (\<lambda>own_key_id.
           rbind (AeadAlgorithmList_build L (cfg_acceptable_aeads (ses_config s))) (\<lambda>aeads.
           let req = \<lparr>sir_ct1 = ct1, sir_key_id_b = peer_key_id, sir_pk_a_star = public,
                      sir_key_id_a = own_key_id, sir_acceptable_aeads = aeads\<rparr>
           in rbind (MakeMessage_build cid (Session_init_request req) 0) (\<lambda>msg.
              rbind (MakeMessage_dump L msg) (\<lambda>der.
              Inr (sc\<lparr>ses_last_sent := Some der, ses_attempt_count := 0,
                      ses_deadline := Some (now + cfg_retry_interval_seconds (ses_config s)),
                      ses_state := EXPECT_SESSION_INIT_RESPONSE,
                      ses_outgoing_pdus := ses_outgoing_pdus sc @ [der]\<rparr>))))))))"

definition reset :: "session \<Rightarrow> session" where
  "reset s = Session_init (ses_role s) (ses_own_key_id s) (Some (ses_config s))"

definition fork :: "lib \<Rightarrow> session \<Rightarrow> session result" where
  "fork L s =
     (if ses_role s \<noteq> INITIATOR then Inl SessionError
      else if ses_state s \<noteq> EXPECT_SESSION_INIT_RESPONSE then Inl SessionError
      else
        let twin = Session_init (ses_role s) (ses_own_key_id s) (Some (ses_config s))
        in rbind (mlkem_class (cfg_kem_level (ses_config s))) (\<lambda>_.
           rbind (need (ses_own_ephemeral_private s)) (\<lambda>own.
           rbind (mlkem_from_seed_bytes L (cfg_kem_level (ses_config s)) (private_bytes_raw own)) (\<lambda>private.
           Inr (twin\<lparr>ses_state := EXPECT_SESSION_INIT_RESPONSE, ses_cid := ses_cid s,
                     ses_peer_key_id := ses_peer_key_id s,
                     ses_own_ephemeral_private := Some private,
                     ses_own_ephemeral_public := ses_own_ephemeral_public s,
                     ses_s1 := ses_s1 s, ses_last_sent := ses_last_sent s,
                     ses_attempt_count := ses_attempt_count s, ses_deadline := ses_deadline s,
                     ses_pending_payload := ses_pending_payload s\<rparr>)))))"

subsection \<open>Retry and timeout\<close>

definition on_timeout :: "rat \<Rightarrow> session \<Rightarrow> session" where
  "on_timeout now s =
     (if ses_role s = RESPONDER then s\<lparr>ses_state := DROPPED\<rparr>
      else if ses_attempt_count s \<ge> cfg_max_retries (ses_config s) then s\<lparr>ses_state := DROPPED\<rparr>
      else
        let s1 = s\<lparr>ses_attempt_count := ses_attempt_count s + 1,
                   ses_deadline := Some (now + cfg_retry_interval_seconds (ses_config s))\<rparr>
        in case ses_last_sent s1 of
             None \<Rightarrow> s1
           | Some sent \<Rightarrow> s1\<lparr>ses_outgoing_pdus := ses_outgoing_pdus s1 @ [sent]\<rparr>)"

subsection \<open>Responder handlers\<close>

text \<open>
  \<^verbatim>\<open>next((name for name in acceptable if AEAD_OIDS[name] in requested), None)\<close>: the first match;
  a name the table does not know raises \<open>KeyError\<close> if it is reached.
\<close>

fun select_aead :: "oid list \<Rightarrow> string list \<Rightarrow> string option result" where
  "select_aead requested [] = Inr None"
| "select_aead requested (name # names) =
     rbind (lookup_or_KeyError (map_of AEAD_OIDS name)) (\<lambda>oid.
       if oid \<in> set requested then Inr (Some name) else select_aead requested names)"

definition handle_session_init_request ::
    "lib \<Rightarrow> key_lookup \<Rightarrow> coins \<Rightarrow> rat \<Rightarrow> session_init_request \<Rightarrow> bytes \<Rightarrow> session \<Rightarrow> unit result \<times> session" where
  "handle_session_init_request L K c now req der_bytes s = commit s
     (rbind (rcatch HandshakeFailed (kl_get_private_key K (sir_key_id_b req))) (\<lambda>own_static_private.
      rbind (rcatch HandshakeFailed (kl_get_public_key K (sir_key_id_a req))) (\<lambda>peer_static_public.
      rbind (level_of (sir_pk_a_star req)) (\<lambda>level.
      rbind (decapsulate L own_static_private level (sir_ct1 req)) (\<lambda>s1.
      rbind (generate_ephemeral L level (coin_generate c)) (\<lambda>(own_ephemeral_private, own_ephemeral_public).
      rbind (encapsulate L (sir_pk_a_star req) (coin_encaps1 c)) (\<lambda>(s2, ct2).
      rbind (encapsulate L peer_static_public (coin_encaps2 c)) (\<lambda>(s3, ct3).
      let n_b = coin_urandom16 c
      in rbind (select_aead (sir_acceptable_aeads req) (cfg_acceptable_aeads (ses_config s))) (\<lambda>found.
      rbind (case found of None \<Rightarrow> Inl HandshakeFailed | Some name \<Rightarrow> Inr name) (\<lambda>chosen.
      rbind (lookup_or_KeyError (map_of AEAD_OIDS chosen)) (\<lambda>chosen_oid.
      rbind (need (ses_cid s)) (\<lambda>cid.
      let resp = \<lparr>rsp_pk_b_star = own_ephemeral_public, rsp_ct2 = ct2, rsp_ct3 = ct3,
                  rsp_n_b = n_b, rsp_chosen_aead = chosen_oid\<rparr>
      in rbind (MakeMessage_build cid (Session_init_response resp) 0) (\<lambda>out_msg.
      rbind (MakeMessage_dump L out_msg) (\<lambda>out_der.
      Inr (s\<lparr>ses_own_ephemeral_private := Some own_ephemeral_private,
             ses_own_ephemeral_public := Some own_ephemeral_public,
             ses_peer_static_public := Some peer_static_public,
             ses_peer_key_id := Some (sir_key_id_a req),
             ses_s1 := Some s1, ses_s2 := Some s2, ses_s3 := Some s3,
             ses_n_b := Some n_b, ses_chosen_aead := Some chosen,
             ses_last_received := Some der_bytes, ses_last_sent := Some out_der,
             ses_attempt_count := 0,
             ses_deadline := Some (now + cfg_ttl_seconds (ses_config s)),
             ses_state := EXPECT_SESSION_COMPLETION_REQUEST,
             ses_outgoing_pdus := ses_outgoing_pdus s @ [out_der]\<rparr>)))))))))))))))"

text \<open>
  The completion request in three steps: derive the keys and decrypt \<open>c_m\<close> (nothing assigned
  yet); deliver the payload and encrypt a pending reply; build the response and establish.
\<close>

definition open_completion_request ::
    "lib \<Rightarrow> session_completion_request \<Rightarrow> session \<Rightarrow> (bytes \<times> session_keys \<times> bytes) result" where
  "open_completion_request L req s =
     rbind (need (ses_own_ephemeral_private s)) (\<lambda>own.
     rbind (decapsulate L (private_bytes_raw own) (cfg_kem_level (ses_config s)) (scr_ct4 req)) (\<lambda>s4.
     rbind (need (ses_n_b s)) (\<lambda>n_b.
     rbind (need (ses_peer_key_id s)) (\<lambda>peer_key_id.
     rbind (need (ses_s1 s)) (\<lambda>s1.
     rbind (need (ses_s2 s)) (\<lambda>s2.
     rbind (need (ses_s3 s)) (\<lambda>s3.
     rbind (need (ses_chosen_aead s)) (\<lambda>aead.
     rbind (derive_session_keys L (scr_n_a req) n_b (KeyId_dump L peer_key_id) s1 s2 s3 s4 aead) (\<lambda>keys.
     rbind (rcatch HandshakeFailed
              (rbind (need (ses_cid s)) (\<lambda>cid.
               decrypt L (sk_aead_name keys) (sk_key_a2b keys) (sk_iv_a2b keys) 0 (scr_c_m req) cid))) (\<lambda>plaintext.
     Inr (s4, keys, plaintext)))))))))))"

definition reply_to_completion_request ::
    "lib \<Rightarrow> session_keys \<Rightarrow> session \<Rightarrow> bytes option result \<times> session" where
  "reply_to_completion_request L keys s =
     (case ses_pending_payload s of
        None \<Rightarrow> (Inr None, s)
      | Some payload \<Rightarrow>
          (case rbind (need (ses_cid s)) (\<lambda>cid.
                  encrypt L (sk_aead_name keys) (sk_key_b2a keys) (sk_iv_b2a keys) 0 payload cid) of
             Inl e \<Rightarrow> (Inl e, s)
           | Inr reply_ct \<Rightarrow>
               (Inr (Some reply_ct), s\<lparr>ses_seq_b2a := 1, ses_pending_payload := None\<rparr>)))"

definition handle_session_completion_request ::
    "lib \<Rightarrow> rat \<Rightarrow> session_completion_request \<Rightarrow> bytes \<Rightarrow> session \<Rightarrow> unit result \<times> session" where
  "handle_session_completion_request L now req der_bytes s =
     (case open_completion_request L req s of
        Inl e \<Rightarrow> (Inl e, s)
      | Inr (s4, keys, plaintext) \<Rightarrow>
          sseq (reply_to_completion_request L keys
                  (if plaintext \<noteq> []
                   then s\<lparr>ses_outgoing_payloads := ses_outgoing_payloads s @ [plaintext]\<rparr> else s))
            (\<lambda>m sr. commit sr
               (rbind (need (ses_cid sr)) (\<lambda>cid.
                let resp = \<lparr>scp_h_m = sha256 L plaintext, scp_m = m\<rparr>
                in rbind (MakeMessage_build cid (Session_completion_response resp) 0) (\<lambda>out_msg.
                   rbind (MakeMessage_dump L out_msg) (\<lambda>out_der.
                   Inr (sr\<lparr>ses_n_a := Some (scr_n_a req), ses_s4 := Some s4,
                           ses_session_keys := Some keys, ses_seq_a2b := 1,
                           ses_last_received := Some der_bytes, ses_last_sent := Some out_der,
                           ses_state := ESTABLISHED, ses_deadline := None,
                           ses_outgoing_pdus := ses_outgoing_pdus sr @ [out_der]\<rparr>)))))))"

subsection \<open>Initiator handlers\<close>

text \<open>
  The init response in two steps: everything up to the encryption of \<open>c_m\<close>, then (the pending
  payload is already cleared) the completion request is built and sent.
\<close>

definition open_init_response ::
    "lib \<Rightarrow> key_lookup \<Rightarrow> coins \<Rightarrow> session_init_response \<Rightarrow> session \<Rightarrow>
      (string \<times> kem_ciphertext \<times> session_keys \<times> bytes \<times> bytes) result" where
  "open_init_response L K c resp s =
     (let level = cfg_kem_level (ses_config s); n_a = coin_urandom16 c
      in rbind (need (ses_own_key_id s)) (\<lambda>own_key_id.
         rbind (kl_get_private_key K own_key_id) (\<lambda>own_static_private.
         rbind (need (ses_own_ephemeral_private s)) (\<lambda>own.
         rbind (decapsulate L (private_bytes_raw own) level (rsp_ct2 resp)) (\<lambda>s2.
         rbind (decapsulate L own_static_private level (rsp_ct3 resp)) (\<lambda>s3.
         rbind (case aead_name (rsp_chosen_aead resp) of
                  None \<Rightarrow> Inl HandshakeFailed
                | Some name \<Rightarrow> if name \<in> set (cfg_acceptable_aeads (ses_config s)) then Inr name
                               else Inl HandshakeFailed) (\<lambda>chosen.
         rbind (encapsulate L (rsp_pk_b_star resp) (coin_encaps1 c)) (\<lambda>(s4, ct4).
         rbind (need (ses_s1 s)) (\<lambda>s1.
         rbind (derive_session_keys L n_a (rsp_n_b resp) (KeyId_dump L own_key_id) s1 s2 s3 s4 chosen) (\<lambda>keys.
         let plaintext = (case ses_pending_payload s of None \<Rightarrow> [] | Some p \<Rightarrow> p)
         in rbind (need (ses_cid s)) (\<lambda>cid.
            rbind (encrypt L (sk_aead_name keys) (sk_key_a2b keys) (sk_iv_a2b keys) 0 plaintext cid) (\<lambda>c_m.
            Inr (chosen, ct4, keys, plaintext, c_m)))))))))))))"

definition handle_session_init_response ::
    "lib \<Rightarrow> key_lookup \<Rightarrow> coins \<Rightarrow> rat \<Rightarrow> session_init_response \<Rightarrow> bytes \<Rightarrow> session \<Rightarrow> unit result \<times> session" where
  "handle_session_init_response L K c now resp der_bytes s =
     (case open_init_response L K c resp s of
        Inl e \<Rightarrow> (Inl e, s)
      | Inr (chosen, ct4, keys, plaintext, c_m) \<Rightarrow>
          let n_a = coin_urandom16 c; sp = s\<lparr>ses_pending_payload := None\<rparr>
          in commit sp
            (rbind (SessionCompletionRequest_build c_m ct4 n_a) (\<lambda>req.
             rbind (need (ses_cid s)) (\<lambda>cid.
             rbind (MakeMessage_build cid (Session_completion_request req) 0) (\<lambda>out_msg.
             rbind (MakeMessage_dump L out_msg) (\<lambda>out_der.
             Inr (sp\<lparr>ses_n_a := Some n_a, ses_n_b := Some (rsp_n_b resp),
                     ses_chosen_aead := Some chosen, ses_session_keys := Some keys,
                     ses_seq_a2b := 1, ses_sent_plaintext_for_h_m := Some plaintext,
                     ses_last_received := Some der_bytes, ses_last_sent := Some out_der,
                     ses_attempt_count := 0,
                     ses_deadline := Some (now + cfg_retry_interval_seconds (ses_config s)),
                     ses_state := EXPECT_SESSION_COMPLETION_RESPONSE,
                     ses_outgoing_pdus := ses_outgoing_pdus sp @ [out_der]\<rparr>)))))))"

definition handle_session_completion_response ::
    "lib \<Rightarrow> rat \<Rightarrow> session_completion_response \<Rightarrow> bytes \<Rightarrow> session \<Rightarrow> unit result \<times> session" where
  "handle_session_completion_response L now resp der_bytes s = commit s
     (rbind (need (ses_sent_plaintext_for_h_m s)) (\<lambda>sent_plaintext.
      if scp_h_m resp \<noteq> sha256 L sent_plaintext then Inl HandshakeFailed
      else
        rbind (case scp_m resp of
                 None \<Rightarrow> Inr s
               | Some ct \<Rightarrow>
                   rbind (rcatch HandshakeFailed
                     (rbind (need (ses_session_keys s)) (\<lambda>keys.
                      rbind (need (ses_cid s)) (\<lambda>cid.
                      decrypt L (sk_aead_name keys) (sk_key_b2a keys) (sk_iv_b2a keys) 0 ct cid)))) (\<lambda>reply_plaintext.
                   Inr (s\<lparr>ses_seq_b2a := 1,
                          ses_outgoing_payloads := ses_outgoing_payloads s @ [reply_plaintext]\<rparr>))) (\<lambda>sm.
        Inr (sm\<lparr>ses_last_received := Some der_bytes, ses_last_sent := None,
                ses_state := ESTABLISHED, ses_deadline := None\<rparr>))))"

subsection \<open>Established traffic\<close>

text \<open>The key, IV and sequence number of a direction.\<close>

definition outgoing_protection :: "session \<Rightarrow> session_keys \<Rightarrow> bytes \<times> bytes \<times> int" where
  "outgoing_protection s keys =
     (if ses_role s = INITIATOR then (sk_key_a2b keys, sk_iv_a2b keys, ses_seq_a2b s)
      else (sk_key_b2a keys, sk_iv_b2a keys, ses_seq_b2a s))"

definition incoming_protection :: "session \<Rightarrow> session_keys \<Rightarrow> bytes \<times> bytes \<times> int" where
  "incoming_protection s keys =
     (if ses_role s = INITIATOR then (sk_key_b2a keys, sk_iv_b2a keys, ses_seq_b2a s)
      else (sk_key_a2b keys, sk_iv_a2b keys, ses_seq_a2b s))"

definition bump_outgoing_seq :: "session \<Rightarrow> session" where
  "bump_outgoing_seq s =
     (if ses_role s = INITIATOR then s\<lparr>ses_seq_a2b := ses_seq_a2b s + 1\<rparr>
      else s\<lparr>ses_seq_b2a := ses_seq_b2a s + 1\<rparr>)"

definition bump_incoming_seq :: "session \<Rightarrow> session" where
  "bump_incoming_seq s =
     (if ses_role s = INITIATOR then s\<lparr>ses_seq_b2a := ses_seq_b2a s + 1\<rparr>
      else s\<lparr>ses_seq_a2b := ses_seq_a2b s + 1\<rparr>)"

definition send_established_payload :: "lib \<Rightarrow> session \<Rightarrow> unit result \<times> session" where
  "send_established_payload L s =
     (let sp = s\<lparr>ses_pending_payload := None\<rparr>
      in case rbind (need (ses_session_keys s)) (\<lambda>keys.
              let (key, iv, sq) = outgoing_protection s keys
              in rbind (need (ses_pending_payload s)) (\<lambda>payload.
                 rbind (need (ses_cid s)) (\<lambda>cid.
                 rbind (encrypt L (sk_aead_name keys) key iv sq payload cid) (\<lambda>ct.
                 Inr (cid, sq, ct))))) of
           Inl e \<Rightarrow> (Inl e, sp)
         | Inr (cid, sq, ct) \<Rightarrow>
             let sb = bump_outgoing_seq sp
             in commit sb
               (rbind (Message_init (Some sq) (Some ct)) (\<lambda>msg_pdu.
                rbind (MakeMessage_build cid (Message msg_pdu) 0) (\<lambda>out_msg.
                rbind (MakeMessage_dump L out_msg) (\<lambda>out_der.
                Inr (sb\<lparr>ses_outgoing_pdus := ses_outgoing_pdus sb @ [out_der]\<rparr>))))))"

definition handle_established_message :: "lib \<Rightarrow> message \<Rightarrow> session \<Rightarrow> unit result \<times> session" where
  "handle_established_message L inner s = commit s
     (rbind (need (ses_session_keys s)) (\<lambda>keys.
      let (key, iv, expected_seq) = incoming_protection s keys
      in if msg_seq inner \<noteq> expected_seq then Inl HandshakeFailed
         else
           rbind (need (ses_cid s)) (\<lambda>cid.
           rbind (decrypt L (sk_aead_name keys) key iv (msg_seq inner) (msg_m inner) cid) (\<lambda>plaintext.
           let sb = bump_incoming_seq s
           in Inr (sb\<lparr>ses_outgoing_payloads := ses_outgoing_payloads sb @ [plaintext]\<rparr>)))))"

subsection \<open>Dispatch of one incoming PDU\<close>

definition process_incoming ::
    "lib \<Rightarrow> key_lookup \<Rightarrow> coins \<Rightarrow> rat \<Rightarrow> bytes \<Rightarrow> session \<Rightarrow> unit result \<times> session" where
  "process_incoming L K c now der_bytes s =
     (if ses_last_received s = Some der_bytes then
        (Inr (), case ses_last_sent s of
                   None \<Rightarrow> s
                 | Some sent \<Rightarrow> s\<lparr>ses_outgoing_pdus := ses_outgoing_pdus s @ [sent]\<rparr>)
      else case MakeMessage_load L der_bytes of
        Inl e \<Rightarrow> if is_value_error e then (Inr (), s) else (Inl e, s)
      | Inr msg \<Rightarrow>
      (case correlation_id msg of
        Inl e \<Rightarrow> (Inl e, s)
      | Inr incoming_cid \<Rightarrow>
        if ses_state s = INITIAL \<and> ses_role s = RESPONDER then
          (case mm_payload msg of
             Session_init_request req \<Rightarrow>
               handle_session_init_request L K c now req der_bytes (s\<lparr>ses_cid := Some incoming_cid\<rparr>)
           | _ \<Rightarrow> (Inr (), s))
        else if ses_cid s \<noteq> Some incoming_cid then (Inr (), s)
        else if ses_state s = EXPECT_SESSION_INIT_RESPONSE \<and> ses_role s = INITIATOR then
          (case mm_payload msg of
             Session_init_response resp \<Rightarrow> handle_session_init_response L K c now resp der_bytes s
           | _ \<Rightarrow> (Inl UnexpectedPDU, s))
        else if ses_state s = EXPECT_SESSION_COMPLETION_REQUEST \<and> ses_role s = RESPONDER then
          (case mm_payload msg of
             Session_completion_request req \<Rightarrow> handle_session_completion_request L now req der_bytes s
           | _ \<Rightarrow> (Inl UnexpectedPDU, s))
        else if ses_state s = EXPECT_SESSION_COMPLETION_RESPONSE \<and> ses_role s = INITIATOR then
          (case mm_payload msg of
             Session_completion_response resp \<Rightarrow> handle_session_completion_response L now resp der_bytes s
           | _ \<Rightarrow> (Inl UnexpectedPDU, s))
        else if ses_state s = ESTABLISHED then
          (case mm_payload msg of
             Message inner \<Rightarrow> handle_established_message L inner s
           | _ \<Rightarrow> (Inl UnexpectedPDU, s))
        else (Inl UnexpectedPDU, s)))"

subsection \<open>The crank\<close>

definition timed_out :: "rat \<Rightarrow> session \<Rightarrow> bool" where
  "timed_out now s \<longleftrightarrow>
     (case ses_deadline s of None \<Rightarrow> False | Some d \<Rightarrow> now \<ge> d) \<and>
     ses_state s \<notin> {ESTABLISHED, INITIAL}"

definition update_outcome :: "rat \<Rightarrow> session \<Rightarrow> update_result \<times> ftime" where
  "update_outcome now s =
     (if ses_state s = DROPPED then (SESSION_DROPPED, Infinity)
      else next_update_result poll_payload poll_pdu s
        (Fin (case ses_deadline s of
                Some d \<Rightarrow> d | None \<Rightarrow> now + cfg_retry_interval_seconds (ses_config s))))"

definition update_session ::
    "lib \<Rightarrow> key_lookup \<Rightarrow> coins \<Rightarrow> rat \<Rightarrow> session \<Rightarrow> (update_result \<times> ftime) result \<times> session" where
  "update_session L K c now s =
     (if ses_state s = DROPPED then (Inr (SESSION_DROPPED, Infinity), s)
      else
        sseq (case ses_incoming_queue s of
                [] \<Rightarrow> (Inr (), s)
              | incoming # rest \<Rightarrow>
                  process_incoming L K c now incoming (s\<lparr>ses_incoming_queue := rest\<rparr>)) (\<lambda>_ sa.
        sseq (if ses_state sa = ESTABLISHED \<and> ses_pending_payload sa \<noteq> None
              then send_established_payload L sa else (Inr (), sa)) (\<lambda>_ sb.
        if ses_state sb = DROPPED then (Inr (SESSION_DROPPED, Infinity), sb)
        else
          let sc = (if timed_out now sb then on_timeout now sb else sb)
          in (Inr (update_outcome now sc), sc))))"

subsection \<open>Comparison of key ids\<close>

definition key_id_equal :: "key_id \<Rightarrow> key_id \<Rightarrow> bool" where
  "key_id_equal a b \<longleftrightarrow>
     alg_algorithm (kid_hash_algorithm a) = alg_algorithm (kid_hash_algorithm b) \<and>
     kid_key_hash a = kid_key_hash b"

end
