(* ===== verification/SessionInv.thy ===== *)
theory SessionInv
  imports Session
begin

section \<open>The session invariant\<close>

text \<open>
  What the fields of a session promise in each state (\<open>session_wf\<close>), and that every method keeps
  it, on success and when it raises. For each handler there is an elimination rule that gives its
  two outcomes: an exception with the state it leaves, or success with the exact new state and
  the facts that were checked. Reachable sessions (\<open>session_reach\<close>) are those the public methods
  produce from the constructor.
\<close>

lemma commit_eq: "commit s r = (x, s') \<longleftrightarrow>
    (\<exists>e. r = Inl e \<and> x = Inl e \<and> s' = s) \<or> (r = Inr s' \<and> x = Inr ())"
  by (cases r) (auto simp: commit_def)

lemma commit_simps [simp]: "commit s (Inl e) = (Inl e, s)" "commit s (Inr s') = (Inr (), s')"
  by (simp_all add: commit_def)

lemma unit_result_cases:
  obtains (Inl) e where "r = Inl e" | (Inr) "r = (Inr () :: unit result)"
  by (cases r) auto

subsection \<open>The outcomes of the handlers\<close>

lemma handle_session_init_request_cases:
  assumes "handle_session_init_request L K c now req der s = (r, s')"
  obtains (raised) e where "r = Inl e" "s' = s"
  | (success) own_static peer level k pub s1 s2 ct2 s3 ct3 aead oid cid out where
      "r = Inr ()"
      "kl_get_private_key K (sir_key_id_b req) = Inr own_static"
      "kl_get_public_key K (sir_key_id_a req) = Inr peer"
      "level_of (sir_pk_a_star req) = Inr level"
      "decapsulate L own_static level (sir_ct1 req) = Inr s1"
      "generate_ephemeral L level (coin_generate c) = Inr (k, pub)"
      "encapsulate L (sir_pk_a_star req) (coin_encaps1 c) = Inr (s2, ct2)"
      "encapsulate L peer (coin_encaps2 c) = Inr (s3, ct3)"
      "select_aead (sir_acceptable_aeads req) (cfg_acceptable_aeads (ses_config s)) = Inr (Some aead)"
      "map_of AEAD_OIDS aead = Some oid"
      "ses_cid s = Some cid" "length cid = 16"
      "MakeMessage_dump L \<lparr>mm_version = 0, mm_cid = cid, mm_payload = Session_init_response
         \<lparr>rsp_pk_b_star = pub, rsp_ct2 = ct2, rsp_ct3 = ct3, rsp_n_b = coin_urandom16 c,
          rsp_chosen_aead = oid\<rparr>\<rparr> = Inr out"
      "s' = s\<lparr>ses_own_ephemeral_private := Some k, ses_own_ephemeral_public := Some pub,
             ses_peer_static_public := Some peer, ses_peer_key_id := Some (sir_key_id_a req),
             ses_s1 := Some s1, ses_s2 := Some s2, ses_s3 := Some s3,
             ses_n_b := Some (coin_urandom16 c), ses_chosen_aead := Some aead,
             ses_last_received := Some der, ses_last_sent := Some out, ses_attempt_count := 0,
             ses_deadline := Some (now + cfg_ttl_seconds (ses_config s)),
             ses_state := EXPECT_SESSION_COMPLETION_REQUEST,
             ses_outgoing_pdus := ses_outgoing_pdus s @ [out]\<rparr>"
proof (cases r rule: unit_result_cases)
  case (Inl e)
  with assms have "s' = s" by (auto simp: handle_session_init_request_def commit_eq)
  with Inl show ?thesis by (rule raised)
next
  case Inr
  with assms show ?thesis
    by (auto simp: handle_session_init_request_def commit_eq Let_def MakeMessage_build_def
        validate_cid_def CID_LEN_def split: option.splits prod.splits if_splits
        intro!: success)
qed

lemma open_completion_request_eq_Inr:
  "open_completion_request L req s = Inr (s4, keys, plaintext) \<longleftrightarrow>
     (\<exists>own n_b peer s1 s2 s3 aead cid.
        ses_own_ephemeral_private s = Some own \<and> ses_n_b s = Some n_b \<and>
        ses_peer_key_id s = Some peer \<and> ses_s1 s = Some s1 \<and> ses_s2 s = Some s2 \<and>
        ses_s3 s = Some s3 \<and> ses_chosen_aead s = Some aead \<and> ses_cid s = Some cid \<and>
        decapsulate L (private_bytes_raw own) (cfg_kem_level (ses_config s)) (scr_ct4 req) = Inr s4 \<and>
        derive_session_keys L (scr_n_a req) n_b (KeyId_dump L peer) s1 s2 s3 s4 aead = Inr keys \<and>
        decrypt L (sk_aead_name keys) (sk_key_a2b keys) (sk_iv_a2b keys) 0 (scr_c_m req) cid
          = Inr plaintext)"
  by (auto simp: open_completion_request_def)

text \<open>
  The payload the responder delivers on the way, and the state after that and after a reply has
  been encrypted: what an exception later in the handler leaves behind.
\<close>

definition deliver_payload :: "bytes \<Rightarrow> session \<Rightarrow> session" where
  "deliver_payload p s =
     (if p \<noteq> [] then s\<lparr>ses_outgoing_payloads := ses_outgoing_payloads s @ [p]\<rparr> else s)"

definition clear_replied :: "session \<Rightarrow> session" where
  "clear_replied s =
     (if ses_pending_payload s = None then s else s\<lparr>ses_seq_b2a := 1, ses_pending_payload := None\<rparr>)"

lemma handle_session_completion_request_cases:
  assumes "handle_session_completion_request L now req der s = (r, s')"
  obtains (rejected) e where "r = Inl e" "s' = s" "open_completion_request L req s = Inl e"
  | (reply_failed) e s4 keys plaintext where "r = Inl e"
      "open_completion_request L req s = Inr (s4, keys, plaintext)"
      "s' = deliver_payload plaintext s \<or> s' = clear_replied (deliver_payload plaintext s)"
  | (success) s4 keys plaintext m cid out where "r = Inr ()"
      "open_completion_request L req s = Inr (s4, keys, plaintext)"
      "ses_cid s = Some cid" "length cid = 16"
      "case ses_pending_payload s of None \<Rightarrow> m = None
       | Some p \<Rightarrow> \<exists>ct. m = Some ct \<and>
           encrypt L (sk_aead_name keys) (sk_key_b2a keys) (sk_iv_b2a keys) 0 p cid = Inr ct"
      "MakeMessage_dump L \<lparr>mm_version = 0, mm_cid = cid, mm_payload = Session_completion_response
         \<lparr>scp_h_m = sha256 L plaintext, scp_m = m\<rparr>\<rparr> = Inr out"
      "s' = (clear_replied (deliver_payload plaintext s))
         \<lparr>ses_n_a := Some (scr_n_a req), ses_s4 := Some s4, ses_session_keys := Some keys,
          ses_seq_a2b := 1, ses_last_received := Some der, ses_last_sent := Some out,
          ses_state := ESTABLISHED, ses_deadline := None,
          ses_outgoing_pdus := ses_outgoing_pdus s @ [out]\<rparr>"
proof (cases "open_completion_request L req s")
  case (Inl e)
  with assms show ?thesis by (intro rejected) (auto simp: handle_session_completion_request_def)
next
  case (Inr x)
  then obtain s4 keys plaintext where o: "open_completion_request L req s = Inr (s4, keys, plaintext)"
    by (cases x) auto
  let ?sd = "deliver_payload plaintext s"
  have h: "sseq (reply_to_completion_request L keys ?sd)
      (\<lambda>m sr. commit sr
               (rbind (need (ses_cid sr)) (\<lambda>cid.
                rbind (MakeMessage_build cid (Session_completion_response
                         \<lparr>scp_h_m = sha256 L plaintext, scp_m = m\<rparr>) 0) (\<lambda>out_msg.
                rbind (MakeMessage_dump L out_msg) (\<lambda>out_der.
                   Inr (sr\<lparr>ses_n_a := Some (scr_n_a req), ses_s4 := Some s4,
                           ses_session_keys := Some keys, ses_seq_a2b := 1,
                           ses_last_received := Some der, ses_last_sent := Some out_der,
                           ses_state := ESTABLISHED, ses_deadline := None,
                           ses_outgoing_pdus := ses_outgoing_pdus sr @ [out_der]\<rparr>)))))) = (r, s')"
    using assms o by (simp add: handle_session_completion_request_def deliver_payload_def Let_def)
  have frame: "ses_cid (clear_replied ?sd) = ses_cid s"
      "ses_pending_payload ?sd = ses_pending_payload s" "ses_cid ?sd = ses_cid s"
      "ses_outgoing_pdus (clear_replied ?sd) = ses_outgoing_pdus s"
    by (simp_all add: clear_replied_def deliver_payload_def)
  show ?thesis
  proof (cases "reply_to_completion_request L keys ?sd")
    case (Pair m sr)
    show ?thesis
    proof (cases m)
      case (Inl e)
      with Pair h have "r = Inl e" "s' = ?sd"
        by (auto simp: reply_to_completion_request_def split: option.splits sum.splits)
      then show ?thesis by (intro reply_failed [OF _ o]) auto
    next
      case (Inr mm)
      with Pair have sr: "sr = clear_replied ?sd" and
        mm: "case ses_pending_payload s of None \<Rightarrow> mm = None
             | Some p \<Rightarrow> \<exists>ct cid. ses_cid s = Some cid \<and> mm = Some ct \<and>
                 encrypt L (sk_aead_name keys) (sk_key_b2a keys) (sk_iv_b2a keys) 0 p cid = Inr ct"
        by (auto simp: reply_to_completion_request_def clear_replied_def frame
            split: option.splits sum.splits)
      show ?thesis
      proof (cases r rule: unit_result_cases)
        case (Inl e)
        with h Pair Inr have "s' = sr" by (auto simp: commit_eq)
        with Inl sr show ?thesis by (intro reply_failed [OF _ o]) auto
      next
        case Inr
        with h Pair \<open>m = Inr mm\<close> obtain cid out where "ses_cid s = Some cid" "length cid = 16"
            "MakeMessage_dump L \<lparr>mm_version = 0, mm_cid = cid, mm_payload =
               Session_completion_response \<lparr>scp_h_m = sha256 L plaintext, scp_m = mm\<rparr>\<rparr> = Inr out"
            "s' = (clear_replied ?sd)
               \<lparr>ses_n_a := Some (scr_n_a req), ses_s4 := Some s4, ses_session_keys := Some keys,
                ses_seq_a2b := 1, ses_last_received := Some der, ses_last_sent := Some out,
                ses_state := ESTABLISHED, ses_deadline := None,
                ses_outgoing_pdus := ses_outgoing_pdus s @ [out]\<rparr>"
          by (auto simp: sr frame commit_eq MakeMessage_build_def validate_cid_def CID_LEN_def
              split: if_splits)
        with Inr mm show ?thesis
          by (intro success [OF _ o]) (auto split: option.splits)
      qed
    qed
  qed
qed

lemma open_init_response_eq_Inr:
  "open_init_response L K c resp s = Inr (aead, ct4, keys, plaintext, c_m) \<longleftrightarrow>
     (\<exists>own_id own_static own s2 s3 s4 s1 cid.
        ses_own_key_id s = Some own_id \<and> kl_get_private_key K own_id = Inr own_static \<and>
        ses_own_ephemeral_private s = Some own \<and> ses_s1 s = Some s1 \<and> ses_cid s = Some cid \<and>
        decapsulate L (private_bytes_raw own) (cfg_kem_level (ses_config s)) (rsp_ct2 resp) = Inr s2 \<and>
        decapsulate L own_static (cfg_kem_level (ses_config s)) (rsp_ct3 resp) = Inr s3 \<and>
        aead_name (rsp_chosen_aead resp) = Some aead \<and>
        aead \<in> set (cfg_acceptable_aeads (ses_config s)) \<and>
        encapsulate L (rsp_pk_b_star resp) (coin_encaps1 c) = Inr (s4, ct4) \<and>
        derive_session_keys L (coin_urandom16 c) (rsp_n_b resp) (KeyId_dump L own_id) s1 s2 s3 s4 aead
          = Inr keys \<and>
        plaintext = (case ses_pending_payload s of None \<Rightarrow> [] | Some p \<Rightarrow> p) \<and>
        encrypt L (sk_aead_name keys) (sk_key_a2b keys) (sk_iv_a2b keys) 0 plaintext cid = Inr c_m)"
  by (auto simp: open_init_response_def Let_def split: option.splits if_splits prod.splits)

lemma handle_session_init_response_cases:
  assumes "handle_session_init_response L K c now resp der s = (r, s')"
  obtains (rejected) e where "r = Inl e" "s' = s" "open_init_response L K c resp s = Inl e"
  | (build_failed) e x where "r = Inl e" "s' = s\<lparr>ses_pending_payload := None\<rparr>"
      "open_init_response L K c resp s = Inr x"
  | (success) aead ct4 keys plaintext c_m cid out where "r = Inr ()"
      "open_init_response L K c resp s = Inr (aead, ct4, keys, plaintext, c_m)"
      "ses_cid s = Some cid" "length cid = 16" "c_m \<noteq> []"
      "MakeMessage_dump L \<lparr>mm_version = 0, mm_cid = cid, mm_payload = Session_completion_request
         \<lparr>scr_c_m = c_m, scr_ct4 = ct4, scr_n_a = coin_urandom16 c\<rparr>\<rparr> = Inr out"
      "s' = s\<lparr>ses_pending_payload := None, ses_n_a := Some (coin_urandom16 c),
             ses_n_b := Some (rsp_n_b resp), ses_chosen_aead := Some aead,
             ses_session_keys := Some keys, ses_seq_a2b := 1,
             ses_sent_plaintext_for_h_m := Some plaintext,
             ses_last_received := Some der, ses_last_sent := Some out, ses_attempt_count := 0,
             ses_deadline := Some (now + cfg_retry_interval_seconds (ses_config s)),
             ses_state := EXPECT_SESSION_COMPLETION_RESPONSE,
             ses_outgoing_pdus := ses_outgoing_pdus s @ [out]\<rparr>"
proof (cases "open_init_response L K c resp s")
  case (Inl e)
  with assms show ?thesis by (intro rejected) (auto simp: handle_session_init_response_def)
next
  case (Inr x)
  then obtain aead ct4 keys plaintext c_m where
      o: "open_init_response L K c resp s = Inr (aead, ct4, keys, plaintext, c_m)"
    by (cases x) auto
  show ?thesis
  proof (cases r rule: unit_result_cases)
    case (Inl e)
    with assms o show ?thesis
      by (intro build_failed) (auto simp: handle_session_init_response_def commit_eq Let_def)
  next
    case Inr
    with assms o show ?thesis
      by (auto simp: handle_session_init_response_def commit_eq Let_def
          SessionCompletionRequest_build_def validate_c_m_def MakeMessage_build_def validate_cid_def
          CID_LEN_def split: if_splits intro!: success [OF _ o])
  qed
qed

lemma handle_session_completion_response_cases:
  assumes "handle_session_completion_response L now resp der s = (r, s')"
  obtains (raised) e where "r = Inl e" "s' = s"
  | (success) sent sm where "r = Inr ()"
      "ses_sent_plaintext_for_h_m s = Some sent" "scp_h_m resp = sha256 L sent"
      "case scp_m resp of None \<Rightarrow> sm = s
       | Some ct \<Rightarrow> \<exists>keys cid p. ses_session_keys s = Some keys \<and> ses_cid s = Some cid \<and>
           decrypt L (sk_aead_name keys) (sk_key_b2a keys) (sk_iv_b2a keys) 0 ct cid = Inr p \<and>
           sm = s\<lparr>ses_seq_b2a := 1, ses_outgoing_payloads := ses_outgoing_payloads s @ [p]\<rparr>"
      "s' = sm\<lparr>ses_last_received := Some der, ses_last_sent := None,
              ses_state := ESTABLISHED, ses_deadline := None\<rparr>"
proof (cases r rule: unit_result_cases)
  case (Inl e)
  with assms have "s' = s" by (auto simp: handle_session_completion_response_def commit_eq)
  with Inl show ?thesis by (rule raised)
next
  case Inr
  with assms obtain sent sm where "ses_sent_plaintext_for_h_m s = Some sent"
      "scp_h_m resp = sha256 L sent"
      "(case scp_m resp of None \<Rightarrow> Inr s
        | Some ct \<Rightarrow> rbind (rcatch HandshakeFailed
            (rbind (need (ses_session_keys s)) (\<lambda>keys. rbind (need (ses_cid s)) (\<lambda>cid.
               decrypt L (sk_aead_name keys) (sk_key_b2a keys) (sk_iv_b2a keys) 0 ct cid)))) (\<lambda>p.
            Inr (s\<lparr>ses_seq_b2a := 1, ses_outgoing_payloads := ses_outgoing_payloads s @ [p]\<rparr>)))
        = (Inr sm :: session result)"
      "s' = sm\<lparr>ses_last_received := Some der, ses_last_sent := None,
              ses_state := ESTABLISHED, ses_deadline := None\<rparr>"
    by (auto simp: handle_session_completion_response_def commit_eq split: if_splits)
  with Inr show ?thesis
    by (intro success) (auto split: option.splits)
qed

lemma send_established_payload_cases:
  assumes "send_established_payload L s = (r, s')"
  obtains (not_encrypted) e where "r = Inl e" "s' = s\<lparr>ses_pending_payload := None\<rparr>"
  | (not_built) e where "r = Inl e" "s' = bump_outgoing_seq (s\<lparr>ses_pending_payload := None\<rparr>)"
  | (success) keys payload cid key iv sq ct out where "r = Inr ()"
      "ses_session_keys s = Some keys" "ses_pending_payload s = Some payload"
      "ses_cid s = Some cid" "length cid = 16" "outgoing_protection s keys = (key, iv, sq)"
      "encrypt L (sk_aead_name keys) key iv sq payload cid = Inr ct"
      "MakeMessage_dump L \<lparr>mm_version = 0, mm_cid = cid,
         mm_payload = Message \<lparr>msg_seq = sq, msg_m = ct\<rparr>\<rparr> = Inr out"
      "s' = (bump_outgoing_seq (s\<lparr>ses_pending_payload := None\<rparr>))
              \<lparr>ses_outgoing_pdus := ses_outgoing_pdus s @ [out]\<rparr>"
proof (cases r rule: unit_result_cases)
  case (Inl e)
  with assms show ?thesis
    by (auto simp: send_established_payload_def commit_eq Let_def split: sum.splits prod.splits
        intro: not_encrypted not_built)
next
  case Inr
  have frame: "ses_outgoing_pdus (bump_outgoing_seq (s\<lparr>ses_pending_payload := None\<rparr>)) = ses_outgoing_pdus s"
    by (simp add: bump_outgoing_seq_def)
  from assms Inr obtain keys where keys: "ses_session_keys s = Some keys"
    by (auto simp: send_established_payload_def Let_def need_def split: option.splits)
  obtain key iv sq where p: "outgoing_protection s keys = (key, iv, sq)"
    by (cases "outgoing_protection s keys") auto
  from assms Inr keys p obtain payload cid ct out where "ses_pending_payload s = Some payload"
      "ses_cid s = Some cid" "length cid = 16"
      "encrypt L (sk_aead_name keys) key iv sq payload cid = Inr ct"
      "MakeMessage_dump L \<lparr>mm_version = 0, mm_cid = cid,
         mm_payload = Message \<lparr>msg_seq = sq, msg_m = ct\<rparr>\<rparr> = Inr out"
      "s' = (bump_outgoing_seq (s\<lparr>ses_pending_payload := None\<rparr>))
              \<lparr>ses_outgoing_pdus := ses_outgoing_pdus s @ [out]\<rparr>"
    by (auto simp: send_established_payload_def commit_eq Let_def Message_init_def
        MakeMessage_build_def validate_cid_def CID_LEN_def frame split: sum.splits if_splits)
  with Inr keys p show ?thesis by (intro success)
qed

lemma handle_established_message_cases:
  assumes "handle_established_message L inner s = (r, s')"
  obtains (raised) e where "r = Inl e" "s' = s"
  | (success) keys key iv cid plaintext where "r = Inr ()"
      "ses_session_keys s = Some keys" "incoming_protection s keys = (key, iv, msg_seq inner)"
      "ses_cid s = Some cid"
      "decrypt L (sk_aead_name keys) key iv (msg_seq inner) (msg_m inner) cid = Inr plaintext"
      "s' = (bump_incoming_seq s)
              \<lparr>ses_outgoing_payloads := ses_outgoing_payloads s @ [plaintext]\<rparr>"
proof (cases r rule: unit_result_cases)
  case (Inl e)
  with assms have "s' = s" by (auto simp: handle_established_message_def commit_eq)
  with Inl show ?thesis by (rule raised)
next
  case Inr
  have frame: "ses_outgoing_payloads (bump_incoming_seq s) = ses_outgoing_payloads s"
    by (simp add: bump_incoming_seq_def)
  from assms Inr obtain keys where keys: "ses_session_keys s = Some keys"
    by (auto simp: handle_established_message_def commit_eq)
  obtain key iv sq where p: "incoming_protection s keys = (key, iv, sq)"
    by (cases "incoming_protection s keys") auto
  from assms Inr keys p show ?thesis
    by (auto simp: handle_established_message_def commit_eq Let_def frame
        split: if_splits intro!: success [OF _ keys])
qed

lemma initiate_cases:
  assumes "initiate L K c peer now s = (r, s')"
  obtains (misuse) "r = Inl SessionError" "s' = s" "ses_role s \<noteq> INITIATOR \<or> ses_state s \<noteq> INITIAL"
  | (raised) e k pub ss where "r = Inl e" "ses_state s = INITIAL"
      "s' = s\<lparr>ses_cid := Some (coin_uuid4 c), ses_peer_key_id := Some peer,
              ses_own_ephemeral_private := k, ses_own_ephemeral_public := pub, ses_s1 := ss\<rparr>"
  | (success) peer_pk k pub s1 ct1 own aeads out where "r = Inr ()"
      "ses_role s = INITIATOR" "ses_state s = INITIAL"
      "kl_get_public_key K peer = Inr peer_pk"
      "generate_ephemeral L (cfg_kem_level (ses_config s)) (coin_generate c) = Inr (k, pub)"
      "encapsulate L peer_pk (coin_encaps1 c) = Inr (s1, ct1)"
      "ses_own_key_id s = Some own"
      "AeadAlgorithmList_build L (cfg_acceptable_aeads (ses_config s)) = Inr aeads"
      "length (coin_uuid4 c) = 16"
      "MakeMessage_dump L \<lparr>mm_version = 0, mm_cid = coin_uuid4 c, mm_payload = Session_init_request
         \<lparr>sir_ct1 = ct1, sir_key_id_b = peer, sir_pk_a_star = pub, sir_key_id_a = own,
          sir_acceptable_aeads = aeads\<rparr>\<rparr> = Inr out"
      "s' = s\<lparr>ses_cid := Some (coin_uuid4 c), ses_peer_key_id := Some peer,
             ses_own_ephemeral_private := Some k, ses_own_ephemeral_public := Some pub,
             ses_s1 := Some s1, ses_last_sent := Some out, ses_attempt_count := 0,
             ses_deadline := Some (now + cfg_retry_interval_seconds (ses_config s)),
             ses_state := EXPECT_SESSION_INIT_RESPONSE,
             ses_outgoing_pdus := ses_outgoing_pdus s @ [out]\<rparr>"
proof (cases "ses_role s \<noteq> INITIATOR \<or> ses_state s \<noteq> INITIAL")
  case True
  with assms show ?thesis by (intro misuse) (auto simp: initiate_def split: if_splits)
next
  case False
  show ?thesis
  proof (cases r rule: unit_result_cases)
    case (Inl e)
    have "\<exists>k pub ss. s' = s\<lparr>ses_cid := Some (coin_uuid4 c), ses_peer_key_id := Some peer,
        ses_own_ephemeral_private := k, ses_own_ephemeral_public := pub, ses_s1 := ss\<rparr>"
    proof -
      let ?s = "\<lambda>k pub ss. s\<lparr>ses_cid := Some (coin_uuid4 c), ses_peer_key_id := Some peer,
        ses_own_ephemeral_private := k, ses_own_ephemeral_public := pub, ses_s1 := ss\<rparr>"
      have a: "s\<lparr>ses_cid := Some (coin_uuid4 c), ses_peer_key_id := Some peer\<rparr> =
          ?s (ses_own_ephemeral_private s) (ses_own_ephemeral_public s) (ses_s1 s)"
        by simp
      have b: "s\<lparr>ses_cid := Some (coin_uuid4 c), ses_peer_key_id := Some peer,
          ses_own_ephemeral_private := k, ses_own_ephemeral_public := pub\<rparr> =
          ?s k pub (ses_s1 s)" for k pub
        by simp
      show ?thesis
        using assms Inl False
        by (auto simp: initiate_def commit_eq Let_def split: sum.splits if_splits prod.splits)
          (use a b in blast)+
    qed
    then show ?thesis using raised [OF Inl] False by blast
  next
    case Inr
    with assms False show ?thesis
      by (auto simp: initiate_def commit_eq Let_def MakeMessage_build_def validate_cid_def
          CID_LEN_def split: sum.splits if_splits prod.splits intro!: success)
  qed
qed

subsection \<open>The invariant\<close>

definition has_cid :: "session \<Rightarrow> bool" where
  "has_cid s \<longleftrightarrow> (\<exists>cid. ses_cid s = Some cid \<and> length cid = 16)"

text \<open>Nothing that a response brings is there yet.\<close>

definition no_response_yet :: "session \<Rightarrow> bool" where
  "no_response_yet s \<longleftrightarrow> ses_last_received s = None \<and> ses_peer_static_public s = None \<and>
     ses_s2 s = None \<and> ses_s3 s = None \<and> ses_s4 s = None \<and> ses_n_a s = None \<and> ses_n_b s = None \<and>
     ses_chosen_aead s = None \<and> ses_session_keys s = None \<and>
     ses_sent_plaintext_for_h_m s = None \<and> ses_seq_a2b s = 0 \<and> ses_seq_b2a s = 0"

definition awaits_init_response :: "session \<Rightarrow> bool" where
  "awaits_init_response s \<longleftrightarrow> ses_role s = INITIATOR \<and> has_cid s \<and> ses_own_key_id s \<noteq> None \<and>
     ses_own_ephemeral_private s \<noteq> None \<and> ses_s1 s \<noteq> None \<and>
     ses_last_sent s \<noteq> None \<and> ses_deadline s \<noteq> None \<and> no_response_yet s"

definition awaits_completion_request :: "session \<Rightarrow> bool" where
  "awaits_completion_request s \<longleftrightarrow> ses_role s = RESPONDER \<and> has_cid s \<and>
     ses_own_ephemeral_private s \<noteq> None \<and> ses_peer_key_id s \<noteq> None \<and>
     ses_s1 s \<noteq> None \<and> ses_s2 s \<noteq> None \<and> ses_s3 s \<noteq> None \<and> ses_n_b s \<noteq> None \<and>
     ses_chosen_aead s \<noteq> None \<and> ses_last_sent s \<noteq> None \<and> ses_deadline s \<noteq> None"

definition awaits_completion_response :: "session \<Rightarrow> bool" where
  "awaits_completion_response s \<longleftrightarrow> ses_role s = INITIATOR \<and> has_cid s \<and>
     ses_session_keys s \<noteq> None \<and> ses_sent_plaintext_for_h_m s \<noteq> None \<and>
     ses_last_sent s \<noteq> None \<and> ses_deadline s \<noteq> None \<and> ses_seq_a2b s = 1"

definition carries_traffic :: "session \<Rightarrow> bool" where
  "carries_traffic s \<longleftrightarrow> has_cid s \<and> ses_session_keys s \<noteq> None \<and> ses_deadline s = None \<and>
     1 \<le> ses_seq_a2b s"

definition session_wf :: "session \<Rightarrow> bool" where
  "session_wf s \<longleftrightarrow>
     0 \<le> ses_seq_a2b s \<and> 0 \<le> ses_seq_b2a s \<and> ses_pending_payload s \<noteq> Some [] \<and>
     0 \<le> ses_attempt_count s \<and> ses_attempt_count s \<le> max 0 (cfg_max_retries (ses_config s)) \<and>
     (case ses_state s of
        INITIAL \<Rightarrow> ses_deadline s = None \<and> ses_last_sent s = None \<and> no_response_yet s
      | EXPECT_SESSION_INIT_RESPONSE \<Rightarrow> awaits_init_response s
      | EXPECT_SESSION_COMPLETION_REQUEST \<Rightarrow> awaits_completion_request s
      | EXPECT_SESSION_COMPLETION_RESPONSE \<Rightarrow> awaits_completion_response s
      | ESTABLISHED \<Rightarrow> carries_traffic s
      | DROPPED \<Rightarrow> True)"

lemmas awaits_defs = has_cid_def no_response_yet_def awaits_init_response_def awaits_completion_request_def
  awaits_completion_response_def carries_traffic_def

lemma session_wfD:
  assumes "session_wf s"
  shows "ses_state s = INITIAL \<Longrightarrow>
      ses_deadline s = None \<and> ses_last_sent s = None \<and> no_response_yet s"
    and "ses_state s = EXPECT_SESSION_INIT_RESPONSE \<Longrightarrow> awaits_init_response s"
    and "ses_state s = EXPECT_SESSION_COMPLETION_REQUEST \<Longrightarrow> awaits_completion_request s"
    and "ses_state s = EXPECT_SESSION_COMPLETION_RESPONSE \<Longrightarrow> awaits_completion_response s"
    and "ses_state s = ESTABLISHED \<Longrightarrow> carries_traffic s"
  using assms by (auto simp: session_wf_def)

lemma session_wf_init [wf_intros]: "session_wf (Session_init role own config)"
  by (simp add: session_wf_def Session_init_def no_response_yet_def)

lemma session_wf_reset [wf_intros]: "session_wf (reset s)"
  by (simp add: reset_def session_wf_init)

lemma session_wf_queue [wf_intros]:
  "session_wf s \<Longrightarrow> session_wf (s\<lparr>ses_incoming_queue := q\<rparr>)"
  "session_wf s \<Longrightarrow> session_wf (s\<lparr>ses_outgoing_pdus := ps\<rparr>)"
  "session_wf s \<Longrightarrow> session_wf (s\<lparr>ses_outgoing_payloads := pls\<rparr>)"
  "session_wf s \<Longrightarrow> session_wf (s\<lparr>ses_pending_payload := None\<rparr>)"
  by (simp_all add: session_wf_def awaits_defs cong: session_state.case_cong)

lemma session_wf_initial_cid:
  "session_wf s \<Longrightarrow> ses_state s = INITIAL \<Longrightarrow> session_wf (s\<lparr>ses_cid := x\<rparr>)"
  by (simp add: session_wf_def no_response_yet_def)

lemma session_wf_post_pdu [wf_intros]: "session_wf s \<Longrightarrow> session_wf (post_pdu der s)"
  by (simp add: post_pdu_def session_wf_queue)

lemma session_wf_post_payload [wf_intros]: "session_wf s \<Longrightarrow> session_wf (snd (post_payload p s))"
  by (simp add: post_payload_def session_wf_def awaits_defs cong: session_state.case_cong)

lemma session_wf_get [wf_intros]:
  "session_wf s \<Longrightarrow> session_wf (snd (get_pdu s))"
  "session_wf s \<Longrightarrow> session_wf (snd (get_payload s))"
  by (auto simp: get_pdu_def get_payload_def session_wf_queue split: sum.split)

lemma session_wf_initiate [wf_intros]:
  assumes "session_wf s"
  shows "session_wf (snd (initiate L K c peer now s))"
proof -
  have "session_wf s'" if "initiate L K c peer now s = (r, s')" for r s'
    using that assms by (cases rule: initiate_cases) (auto simp: session_wf_def awaits_defs)
  then show ?thesis by (metis prod.collapse)
qed

lemma session_wf_fork:
  "session_wf s \<Longrightarrow> fork L s = Inr s' \<Longrightarrow> session_wf s'"
  by (auto simp: fork_def session_wf_def Session_init_def awaits_defs Let_def split: if_splits)

lemma session_wf_on_timeout [wf_intros]:
  "session_wf s \<Longrightarrow> timed_out now s \<Longrightarrow> session_wf (on_timeout now s)"
  by (auto simp: on_timeout_def timed_out_def session_wf_def awaits_defs Let_def
      split: option.splits session_state.splits)

lemma session_wf_init_request [wf_intros]:
  assumes "session_wf s" "ses_role s = RESPONDER"
  shows "session_wf (snd (handle_session_init_request L K c now req der s))"
proof -
  have "session_wf s'" if "handle_session_init_request L K c now req der s = (r, s')" for r s'
    using that assms
    by (cases rule: handle_session_init_request_cases) (auto simp: session_wf_def awaits_defs)
  then show ?thesis by (metis prod.collapse)
qed

lemma deliver_payload_state [simp]: "ses_state (deliver_payload p s) = ses_state s"
  by (simp add: deliver_payload_def)

lemma session_wf_deliver [wf_intros]:
  "session_wf s \<Longrightarrow> session_wf (deliver_payload p s)"
  by (simp add: deliver_payload_def session_wf_queue)

lemma session_wf_clear_replied [wf_intros]:
  "session_wf s \<Longrightarrow> ses_state s = EXPECT_SESSION_COMPLETION_REQUEST \<Longrightarrow> session_wf (clear_replied s)"
  by (simp add: clear_replied_def session_wf_def awaits_defs cong: session_state.case_cong)

lemma session_wf_completion_request [wf_intros]:
  assumes "session_wf s" "ses_state s = EXPECT_SESSION_COMPLETION_REQUEST"
  shows "session_wf (snd (handle_session_completion_request L now req der s))"
proof -
  have "session_wf s'" if "handle_session_completion_request L now req der s = (r, s')" for r s'
    using that
  proof (cases rule: handle_session_completion_request_cases)
    case (success s4 keys plaintext m cid out)
    have "session_wf (clear_replied (deliver_payload plaintext s))"
      by (intro session_wf_clear_replied session_wf_deliver assms) (simp add: assms)
    moreover have "ses_cid (clear_replied (deliver_payload plaintext s)) = Some cid"
      using success by (simp add: clear_replied_def deliver_payload_def)
    ultimately show ?thesis
      using success by (simp add: session_wf_def awaits_defs)
  qed (use assms in \<open>auto intro: session_wf_clear_replied session_wf_deliver\<close>)
  then show ?thesis by (metis prod.collapse)
qed

lemma session_wf_init_response [wf_intros]:
  assumes "session_wf s" "ses_role s = INITIATOR"
  shows "session_wf (snd (handle_session_init_response L K c now resp der s))"
proof -
  have "session_wf s'" if "handle_session_init_response L K c now resp der s = (r, s')" for r s'
    using that
  proof (cases rule: handle_session_init_response_cases)
    case (success aead ct4 keys plaintext c_m cid out)
    with assms show ?thesis by (simp add: session_wf_def awaits_defs)
  qed (use assms in \<open>auto intro: session_wf_queue\<close>)
  then show ?thesis by (metis prod.collapse)
qed

lemma session_wf_completion_response [wf_intros]:
  assumes "session_wf s" "ses_state s = EXPECT_SESSION_COMPLETION_RESPONSE"
  shows "session_wf (snd (handle_session_completion_response L now resp der s))"
proof -
  have "session_wf s'" if "handle_session_completion_response L now resp der s = (r, s')" for r s'
    using that assms
    by (cases rule: handle_session_completion_response_cases)
      (auto simp: session_wf_def awaits_defs split: option.splits)
  then show ?thesis by (metis prod.collapse)
qed

lemma session_wf_bump [wf_intros]:
  "session_wf s \<Longrightarrow> ses_state s = ESTABLISHED \<Longrightarrow> session_wf (bump_outgoing_seq s)"
  "session_wf s \<Longrightarrow> ses_state s = ESTABLISHED \<Longrightarrow> session_wf (bump_incoming_seq s)"
  by (auto simp: bump_outgoing_seq_def bump_incoming_seq_def session_wf_def awaits_defs)

lemma bump_frame [simp]:
  "ses_state (bump_outgoing_seq s) = ses_state s" "ses_state (bump_incoming_seq s) = ses_state s"
  by (simp_all add: bump_outgoing_seq_def bump_incoming_seq_def)

lemma session_wf_send [wf_intros]:
  assumes "session_wf s" "ses_state s = ESTABLISHED"
  shows "session_wf (snd (send_established_payload L s))"
proof -
  have "session_wf s'" if "send_established_payload L s = (r, s')" for r s'
    using that assms by (cases rule: send_established_payload_cases) (auto intro!: wf_intros)
  then show ?thesis by (metis prod.collapse)
qed

lemma session_wf_established_message [wf_intros]:
  assumes "session_wf s" "ses_state s = ESTABLISHED"
  shows "session_wf (snd (handle_established_message L inner s))"
proof -
  have "session_wf s'" if "handle_established_message L inner s = (r, s')" for r s'
    using that assms by (cases rule: handle_established_message_cases) (auto intro!: wf_intros)
  then show ?thesis by (metis prod.collapse)
qed

lemma session_wf_process_incoming [wf_intros]:
  assumes "session_wf s"
  shows "session_wf (snd (process_incoming L K c now der s))"
  using assms by (auto simp: process_incoming_def session_wf_initial_cid
      intro!: wf_intros split: option.split sum.split make_payload.split)

lemma session_wf_update [wf_intros]:
  assumes "session_wf s"
  shows "session_wf (snd (update_session L K c now s))"
proof (cases "ses_state s = DROPPED")
  case True
  with assms show ?thesis by (simp add: update_session_def)
next
  case False
  show ?thesis
    unfolding update_session_def Let_def if_not_P [OF False]
  proof (rule sseq_inv [where P = session_wf])
    show "session_wf (snd (case ses_incoming_queue s of [] \<Rightarrow> (Inr (), s)
        | incoming # rest \<Rightarrow> process_incoming L K c now incoming (s\<lparr>ses_incoming_queue := rest\<rparr>)))"
      using assms by (simp add: session_wf_process_incoming session_wf_queue split: list.split)
  next
    fix sa
    assume "session_wf sa"
    then have send: "session_wf (snd (if ses_state sa = ESTABLISHED \<and> ses_pending_payload sa \<noteq> None
        then send_established_payload L sa else (Inr (), sa)))"
      by (simp add: session_wf_send)
    show "session_wf (snd (sseq (if ses_state sa = ESTABLISHED \<and> ses_pending_payload sa \<noteq> None
           then send_established_payload L sa else (Inr (), sa))
         (\<lambda>_ sb. if ses_state sb = DROPPED then (Inr (SESSION_DROPPED, Infinity), sb)
            else (Inr (update_outcome now (if timed_out now sb then on_timeout now sb else sb)),
                  if timed_out now sb then on_timeout now sb else sb))))"
      by (rule sseq_inv [where P = session_wf, OF send]) (simp add: session_wf_on_timeout)
  qed
qed

subsection \<open>Reachable sessions\<close>

text \<open>
  One rule per public method that moves a session on. \<open>reset\<close> starts over and \<open>fork\<close> makes another
  session, so they are rules of reachability.
\<close>

inductive session_step :: "lib \<Rightarrow> key_lookup \<Rightarrow> session \<Rightarrow> session \<Rightarrow> bool" for L K where
  step_initiate: "session_step L K s (snd (initiate L K c peer now s))"
| step_post_pdu: "session_step L K s (post_pdu der s)"
| step_post_payload: "session_step L K s (snd (post_payload p s))"
| step_get_pdu: "session_step L K s (snd (get_pdu s))"
| step_get_payload: "session_step L K s (snd (get_payload s))"
| step_update: "session_step L K s (snd (update_session L K c now s))"

inductive session_reach :: "lib \<Rightarrow> key_lookup \<Rightarrow> session \<Rightarrow> bool" for L K where
  reach_init: "session_reach L K (Session_init role own config)"
| reach_fork: "session_reach L K s \<Longrightarrow> fork L s = Inr s' \<Longrightarrow> session_reach L K s'"
| reach_reset: "session_reach L K s \<Longrightarrow> session_reach L K (reset s)"
| reach_step: "session_reach L K s \<Longrightarrow> session_step L K s s' \<Longrightarrow> session_reach L K s'"

lemma session_step_wf: "session_step L K s s' \<Longrightarrow> session_wf s \<Longrightarrow> session_wf s'"
  by (induction rule: session_step.induct) (auto intro: wf_intros)

lemma session_reach_wf: "session_reach L K s \<Longrightarrow> session_wf s"
  by (induction rule: session_reach.induct)
    (auto intro: session_wf_init session_wf_fork session_wf_reset session_step_wf)

subsection \<open>The three phases of the crank\<close>

text \<open>
  \<open>update\<close> takes one PDU off the queue, sends a waiting payload, and handles a timeout. A relation
  between well-formed states that each phase keeps is kept by \<open>update\<close>.
\<close>

lemma update_session_rel:
  assumes refl: "\<And>s. R s s" and trans: "\<And>a b c. R a b \<Longrightarrow> R b c \<Longrightarrow> R a c"
    and queue: "\<And>s q. R s (s\<lparr>ses_incoming_queue := q\<rparr>)"
    and incoming: "\<And>s der. session_wf s \<Longrightarrow> R s (snd (process_incoming L K c now der s))"
    and send: "\<And>s. session_wf s \<Longrightarrow> ses_state s = ESTABLISHED \<Longrightarrow>
      R s (snd (send_established_payload L s))"
    and timeout: "\<And>s. session_wf s \<Longrightarrow> timed_out now s \<Longrightarrow> R s (on_timeout now s)"
    and wf: "session_wf s"
  shows "R s (snd (update_session L K c now s))"
proof (cases "ses_state s = DROPPED")
  case True
  then show ?thesis by (simp add: update_session_def refl)
next
  case False
  let ?Q = "\<lambda>x. R s x \<and> session_wf x"
  have sent: "?Q (snd (if ses_state sa = ESTABLISHED \<and> ses_pending_payload sa \<noteq> None
        then send_established_payload L sa else (Inr (), sa)))" if "?Q sa" for sa
    using that trans [of s sa] send [of sa] by (auto intro: wf_intros)
  show ?thesis
    unfolding update_session_def Let_def if_not_P [OF False]
  proof (rule sseq_inv [where P = ?Q, THEN conjunct1], goal_cases)
    case 1
    show ?case
      using trans [OF queue incoming] wf refl by (auto intro!: wf_intros split: list.split)
  next
    case (2 x sa)
    have "?Q sb \<Longrightarrow> ?Q (if timed_out now sb then on_timeout now sb else sb)" for sb
      using trans [of s sb] timeout [of sb] by (auto intro: wf_intros)
    then show ?case
      by (intro sseq_inv [where P = ?Q, OF sent [OF 2(2)]]) simp
  qed
qed

subsection \<open>The output queues\<close>

interpretation pdus: output_queue ses_outgoing_pdus poll_pdu get_pdu
  by unfold_locales (auto simp: poll_pdu_def get_pdu_def)

interpretation payloads: output_queue ses_outgoing_payloads poll_payload get_payload
  by unfold_locales (auto simp: poll_payload_def get_payload_def)

end
