(* ===== verification/SessionProps.thy ===== *)
theory SessionProps
  imports SessionInv
begin

section \<open>What a session guarantees\<close>

text \<open>
  The behaviour of a single session, over all its reachable states: the handshake only moves
  forward, a retry sends the bytes sent before, a duplicate or malformed PDU changes nothing,
  an established session accepts each sequence number once and in order and never uses a nonce
  twice, and an initiator without an answer is dropped after its retries.
\<close>

subsection \<open>The outcomes of one incoming PDU\<close>

definition resend :: "session \<Rightarrow> session" where
  "resend s = (case ses_last_sent s of
       None \<Rightarrow> s | Some sent \<Rightarrow> s\<lparr>ses_outgoing_pdus := ses_outgoing_pdus s @ [sent]\<rparr>)"

lemma process_incoming_cases:
  assumes "process_incoming L K c now der s = (r, s')"
  obtains (duplicate) "ses_last_received s = Some der" "r = Inr ()" "s' = resend s"
  | (malformed) e where "ses_last_received s \<noteq> Some der" "MakeMessage_load L der = Inl e" "s' = s"
      "r = (if is_value_error e then Inr () else Inl e)"
  | (elsewhere) msg where "ses_last_received s \<noteq> Some der" "MakeMessage_load L der = Inr msg"
      "r = Inr ()" "s' = s" "ses_cid s \<noteq> Some (mm_cid msg)"
  | (not_a_request) msg where "MakeMessage_load L der = Inr msg" "r = Inr ()" "s' = s"
      "ses_state s = INITIAL" "ses_role s = RESPONDER"
  | (unexpected) msg where "MakeMessage_load L der = Inr msg" "r = Inl UnexpectedPDU" "s' = s"
  | (request) msg req where "ses_last_received s \<noteq> Some der" "MakeMessage_load L der = Inr msg"
      "mm_payload msg = Session_init_request req" "ses_state s = INITIAL" "ses_role s = RESPONDER"
      "handle_session_init_request L K c now req der (s\<lparr>ses_cid := Some (mm_cid msg)\<rparr>) = (r, s')"
  | (response) msg resp where "ses_last_received s \<noteq> Some der" "MakeMessage_load L der = Inr msg"
      "mm_payload msg = Session_init_response resp" "ses_cid s = Some (mm_cid msg)"
      "ses_state s = EXPECT_SESSION_INIT_RESPONSE" "ses_role s = INITIATOR"
      "handle_session_init_response L K c now resp der s = (r, s')"
  | (completion_request) msg req where "ses_last_received s \<noteq> Some der" "MakeMessage_load L der = Inr msg"
      "mm_payload msg = Session_completion_request req" "ses_cid s = Some (mm_cid msg)"
      "ses_state s = EXPECT_SESSION_COMPLETION_REQUEST" "ses_role s = RESPONDER"
      "handle_session_completion_request L now req der s = (r, s')"
  | (completion_response) msg resp where "ses_last_received s \<noteq> Some der" "MakeMessage_load L der = Inr msg"
      "mm_payload msg = Session_completion_response resp" "ses_cid s = Some (mm_cid msg)"
      "ses_state s = EXPECT_SESSION_COMPLETION_RESPONSE" "ses_role s = INITIATOR"
      "handle_session_completion_response L now resp der s = (r, s')"
  | (message) msg inner where "ses_last_received s \<noteq> Some der" "MakeMessage_load L der = Inr msg"
      "mm_payload msg = Message inner" "ses_cid s = Some (mm_cid msg)" "ses_state s = ESTABLISHED"
      "handle_established_message L inner s = (r, s')"
proof (cases "ses_last_received s = Some der")
  case True
  with assms show ?thesis by (intro duplicate) (auto simp: process_incoming_def resend_def)
next
  case new: False
  show ?thesis
  proof (cases "MakeMessage_load L der")
    case (Inl e)
    with assms new show ?thesis
      by (intro malformed) (auto simp: process_incoming_def split: if_splits)
  next
    case (Inr msg)
    note load = this and c = MakeMessage_loadD(4) [OF this]
    note p = assms [unfolded process_incoming_def if_not_P [OF new] load c sum.case]
    consider (i) "ses_state s = INITIAL \<and> ses_role s = RESPONDER"
      | (other) "\<not> (ses_state s = INITIAL \<and> ses_role s = RESPONDER)" "ses_cid s \<noteq> Some (mm_cid msg)"
      | (mine) "\<not> (ses_state s = INITIAL \<and> ses_role s = RESPONDER)" "ses_cid s = Some (mm_cid msg)"
      by blast
    then show ?thesis
    proof cases
      case i
      then show ?thesis
        using p request [OF new load] not_a_request [OF load]
        by (simp split: make_payload.splits)
    next
      case other
      with p show ?thesis
        unfolding if_not_P [OF other(1)] by (intro elsewhere [OF new load]) simp_all
    next
      case mine
      note q = p [unfolded if_not_P [OF mine(1)]]
      show ?thesis
        using q mine(2) response [OF new load] completion_request [OF new load]
          completion_response [OF new load] message [OF new load] unexpected [OF load]
        by (cases "mm_payload msg") (simp_all split: if_splits)
    qed
  qed
qed

subsection \<open>The handshake moves forward\<close>

text \<open>The edges of the state diagram, per role.\<close>

inductive handshake_edge :: "role \<Rightarrow> session_state \<Rightarrow> session_state \<Rightarrow> bool" where
  edge_initiate: "handshake_edge INITIATOR INITIAL EXPECT_SESSION_INIT_RESPONSE"
| edge_response: "handshake_edge INITIATOR EXPECT_SESSION_INIT_RESPONSE EXPECT_SESSION_COMPLETION_RESPONSE"
| edge_completed: "handshake_edge INITIATOR EXPECT_SESSION_COMPLETION_RESPONSE ESTABLISHED"
| edge_request: "handshake_edge RESPONDER INITIAL EXPECT_SESSION_COMPLETION_REQUEST"
| edge_completion: "handshake_edge RESPONDER EXPECT_SESSION_COMPLETION_REQUEST ESTABLISHED"
| edge_drop: "st \<notin> {INITIAL, ESTABLISHED, DROPPED} \<Longrightarrow> handshake_edge r st DROPPED"

inductive_simps handshake_edge_from:
  "handshake_edge r INITIAL st"
  "handshake_edge r EXPECT_SESSION_INIT_RESPONSE st"
  "handshake_edge r EXPECT_SESSION_COMPLETION_REQUEST st"
  "handshake_edge r EXPECT_SESSION_COMPLETION_RESPONSE st"
  "handshake_edge r ESTABLISHED st"
  "handshake_edge r DROPPED st"

definition moves_forward :: "session \<Rightarrow> session \<Rightarrow> bool" where
  "moves_forward s s' \<longleftrightarrow> ses_role s' = ses_role s \<and> ses_config s' = ses_config s \<and>
     ses_own_key_id s' = ses_own_key_id s \<and>
     (handshake_edge (ses_role s))\<^sup>*\<^sup>* (ses_state s) (ses_state s')"

lemmas moves_forward_simps = moves_forward_def handshake_edge_from r_into_rtranclp

lemma moves_forward_refl: "moves_forward s s"
  by (simp add: moves_forward_def)

lemma moves_forward_trans: "moves_forward a b \<Longrightarrow> moves_forward b c \<Longrightarrow> moves_forward a c"
  by (auto simp: moves_forward_def)

lemma moves_forward_handlers:
  "handle_session_init_request L K c now req der s = (r, s') \<Longrightarrow> ses_role s = RESPONDER \<Longrightarrow>
     ses_state s = INITIAL \<Longrightarrow> moves_forward s s'"
  "handle_session_completion_request L now creq der s = (r, s') \<Longrightarrow> ses_role s = RESPONDER \<Longrightarrow>
     ses_state s = EXPECT_SESSION_COMPLETION_REQUEST \<Longrightarrow> moves_forward s s'"
  "handle_session_init_response L K c now resp der s = (r, s') \<Longrightarrow> ses_role s = INITIATOR \<Longrightarrow>
     ses_state s = EXPECT_SESSION_INIT_RESPONSE \<Longrightarrow> moves_forward s s'"
  "handle_session_completion_response L now cresp der s = (r, s') \<Longrightarrow> ses_role s = INITIATOR \<Longrightarrow>
     ses_state s = EXPECT_SESSION_COMPLETION_RESPONSE \<Longrightarrow> moves_forward s s'"
  "handle_established_message L inner s = (r, s') \<Longrightarrow> moves_forward s s'"
  "send_established_payload L s = (r, s') \<Longrightarrow> moves_forward s s'"
  subgoal by (erule handle_session_init_request_cases) (simp_all add: moves_forward_simps)
  subgoal by (erule handle_session_completion_request_cases)
    (auto simp: moves_forward_simps clear_replied_def deliver_payload_def)
  subgoal by (erule handle_session_init_response_cases) (simp_all add: moves_forward_simps)
  subgoal by (erule handle_session_completion_response_cases)
    (auto simp: moves_forward_simps split: option.splits)
  subgoal by (erule handle_established_message_cases)
    (simp_all add: moves_forward_simps bump_incoming_seq_def)
  subgoal by (erule send_established_payload_cases)
    (simp_all add: moves_forward_simps bump_outgoing_seq_def)
  done

lemma moves_forward_resend: "moves_forward s (resend s)"
  by (simp add: moves_forward_def resend_def split: option.split)

lemma moves_forward_process: "moves_forward s (snd (process_incoming L K c now der s))"
proof -
  have "moves_forward s s'" if "process_incoming L K c now der s = (r, s')" for r s'
    using that
  proof (cases rule: process_incoming_cases)
    case (request msg req)
    have "moves_forward (s\<lparr>ses_cid := Some (mm_cid msg)\<rparr>) s'"
      using request by (intro moves_forward_handlers(1) [OF request(6)]) simp_all
    then show ?thesis by (simp add: moves_forward_def)
  qed (auto intro: moves_forward_handlers moves_forward_refl moves_forward_resend)
  then show ?thesis by (metis prod.collapse)
qed

lemma moves_forward_timeout: "timed_out now s \<Longrightarrow> moves_forward s (on_timeout now s)"
  by (cases "ses_state s") (auto simp: on_timeout_def timed_out_def Let_def moves_forward_simps
      split: option.split)

lemma moves_forward_queues:
  "moves_forward s (s\<lparr>ses_incoming_queue := q\<rparr>)" "moves_forward s (post_pdu der s)"
  "moves_forward s (snd (post_payload p s))" "moves_forward s (snd (get_pdu s))"
  "moves_forward s (snd (get_payload s))"
  by (simp_all add: moves_forward_def post_pdu_def post_payload_def get_pdu_def get_payload_def
      split: sum.split)

lemma moves_forward_update:
  assumes "session_wf s"
  shows "moves_forward s (snd (update_session L K c now s))"
proof (rule update_session_rel [where R = moves_forward, OF _ _ _ _ _ _ assms])
  show "moves_forward a b \<Longrightarrow> moves_forward b d \<Longrightarrow> moves_forward a d" for a b d
    by (rule moves_forward_trans)
qed (simp_all add: moves_forward_refl moves_forward_queues moves_forward_process
    moves_forward_timeout moves_forward_handlers(6) [OF prod.collapse [symmetric]])

lemma moves_forward_initiate: "moves_forward s (snd (initiate L K c peer now s))"
proof -
  have "moves_forward s t" if "initiate L K c peer now s = (r, t)" for r t
    using that by (cases rule: initiate_cases) (simp_all add: moves_forward_simps)
  then show ?thesis by (metis prod.collapse)
qed

lemma moves_forward_step:
  assumes "session_step L K s s'" "session_wf s"
  shows "moves_forward s s'"
  using assms by cases (simp_all add: moves_forward_update moves_forward_initiate moves_forward_queues)

lemma edge_absorbing:
  "(handshake_edge r)\<^sup>*\<^sup>* st st' \<Longrightarrow> st \<in> {ESTABLISHED, DROPPED} \<Longrightarrow> st' = st"
  by (induction rule: rtranclp_induct) (auto simp: handshake_edge_from)

text \<open>
  C11. Every session that the constructor, \<open>fork\<close>, \<open>reset\<close> and any sequence of calls of the public
  methods can produce is well formed: each state has exactly the secrets, the correlation id, the
  deadline and the retry message it needs, counters are in range and no payload is empty.
\<close>

theorem reachable_session_wf:
  assumes "session_reach L K s"
  shows "session_wf s"
  using assms by (rule session_reach_wf)

subsection \<open>Errors change nothing that matters\<close>

text \<open>What a call that raises may leave behind, exactly.\<close>

definition left_by_error :: "lib \<Rightarrow> key_lookup \<Rightarrow> coins \<Rightarrow> make_message \<Rightarrow> session \<Rightarrow> session \<Rightarrow> bool" where
  "left_by_error L K c msg s s' \<longleftrightarrow> s' = s \<or>
     (ses_role s = RESPONDER \<and> ses_state s = INITIAL \<and> s' = s\<lparr>ses_cid := Some (mm_cid msg)\<rparr>) \<or>
     (ses_role s = INITIATOR \<and> ses_state s = EXPECT_SESSION_INIT_RESPONSE \<and>
        (\<exists>resp x. mm_payload msg = Session_init_response resp \<and> open_init_response L K c resp s = Inr x) \<and>
        s' = s\<lparr>ses_pending_payload := None\<rparr>) \<or>
     (ses_role s = RESPONDER \<and> ses_state s = EXPECT_SESSION_COMPLETION_REQUEST \<and>
        (\<exists>req s4 keys p. mm_payload msg = Session_completion_request req \<and>
           open_completion_request L req s = Inr (s4, keys, p) \<and>
           (s' = deliver_payload p s \<or> s' = clear_replied (deliver_payload p s))))"

text \<open>
  C26. A PDU that raises never moves the session. An established session is left exactly as it was, and so is every
  other one but in three cases: a new responder keeps the id of the request; an initiator whose response was
  opened and whose request could not be built has lost the waiting payload; a responder that has
  opened an authentic completion request and then could not answer it has delivered its payload and
  may have used up its own. In all of them the state, the keys, the counter of the initiator's direction,
  the duplicate filter, the retry message, the deadline and the queue of PDUs are as before, and the counter
  of the responder's direction is too, at an initiator always and at a responder unless it is that third case.
\<close>

theorem rejected_pdu_keeps_session:
  assumes "process_incoming L K c now der s = (Inl e, s')"
  shows "(ses_state s = ESTABLISHED \<longrightarrow> s' = s)
    \<and> (case MakeMessage_load L der of Inl e' \<Rightarrow> s' = s | Inr msg \<Rightarrow> left_by_error L K c msg s s')
    \<and> ses_state s' = ses_state s \<and> ses_session_keys s' = ses_session_keys s
    \<and> ses_seq_a2b s' = ses_seq_a2b s \<and> ses_last_received s' = ses_last_received s
    \<and> ses_last_sent s' = ses_last_sent s \<and> ses_deadline s' = ses_deadline s
    \<and> ses_outgoing_pdus s' = ses_outgoing_pdus s
    \<and> (ses_seq_b2a s' = ses_seq_b2a s \<or> ses_role s = RESPONDER \<and>
        ses_state s = EXPECT_SESSION_COMPLETION_REQUEST \<and> ses_pending_payload s \<noteq> None \<and> ses_seq_b2a s' = 1)"
  using assms
proof (cases rule: process_incoming_cases)
  case (request msg req)
  from request(6) show ?thesis
    by (cases rule: handle_session_init_request_cases) (use request in \<open>auto simp: left_by_error_def\<close>)
next
  case (response msg resp)
  from response(7) show ?thesis
    by (cases rule: handle_session_init_response_cases) (use response in \<open>auto simp: left_by_error_def\<close>)
next
  case (completion_request msg req)
  from completion_request(7) show ?thesis
    by (cases rule: handle_session_completion_request_cases)
      (use completion_request in \<open>auto simp: left_by_error_def clear_replied_def deliver_payload_def split: if_splits\<close>)
next
  case (completion_response msg resp)
  from completion_response(7) show ?thesis
    by (cases rule: handle_session_completion_response_cases) (use completion_response in \<open>auto simp: left_by_error_def\<close>)
next
  case (message msg inner)
  from message(6) show ?thesis
    by (cases rule: handle_established_message_cases) (use message in \<open>auto simp: left_by_error_def\<close>)
qed (auto simp: left_by_error_def)

text \<open>
  Noise is ignored: bytes that are not the canonical encoding of a message, and a message of
  another session (a correlation id that is not this one's), leave the session as it is and raise
  nothing, in every state but a fresh responder's.
\<close>

theorem noise_is_ignored:
  assumes "ses_last_received s \<noteq> Some der" "only_value_errors (ber_decode L der)"
    and "\<And>msg. MakeMessage_load L der = Inr msg \<Longrightarrow>
      ses_cid s \<noteq> Some (mm_cid msg) \<and> \<not> (ses_state s = INITIAL \<and> ses_role s = RESPONDER)"
  shows "process_incoming L K c now der s = (Inr (), s)"
proof (cases "MakeMessage_load L der")
  case (Inl e)
  then have "is_value_error e"
    using MakeMessage_load_value_error [OF assms(2)] by (auto dest: only_value_errorsD)
  with Inl assms(1) show ?thesis by (simp add: process_incoming_def)
next
  case (Inr msg)
  then show ?thesis
    using assms(1) assms(3) [OF Inr] MakeMessage_loadD(4) [OF Inr]
    by (auto simp: process_incoming_def)
qed

text \<open>
  A handshake PDU that was accepted is idempotent: delivered once more it changes nothing and
  makes the session send its own last PDU again, byte for byte (nothing after the initiator is done).
\<close>

theorem handshake_pdu_idempotent:
  assumes "process_incoming L K c now der s = (Inr (), s1)" "ses_state s1 \<noteq> ses_state s"
  shows "process_incoming L K' c' now' der s1 = (Inr (), s1\<lparr>ses_outgoing_pdus := ses_outgoing_pdus s1 @
           (case ses_last_sent s1 of None \<Rightarrow> [] | Some sent \<Rightarrow> [sent])\<rparr>)"
proof -
  have "ses_last_received s1 = Some der"
    using assms(1)
  proof (cases rule: process_incoming_cases)
    case (request msg req)
    from request(6) show ?thesis by (cases rule: handle_session_init_request_cases) auto
  next
    case (response msg resp)
    from response(7) show ?thesis by (cases rule: handle_session_init_response_cases) auto
  next
    case (completion_request msg req)
    from completion_request(7) show ?thesis by (cases rule: handle_session_completion_request_cases) auto
  next
    case (completion_response msg resp)
    from completion_response(7) show ?thesis
      by (cases rule: handle_session_completion_response_cases) auto
  next
    case (message msg inner)
    from message(6) assms(2) show ?thesis
      by (cases rule: handle_established_message_cases) auto
  qed (use assms(2) in \<open>auto simp: resend_def split: option.splits if_splits\<close>)
  then show ?thesis by (auto simp: process_incoming_def split: option.split)
qed

subsection \<open>Retries end\<close>

text \<open>
  Cranks at the given times. \<open>due\<close>: each comes at or after the deadline the one before has set.
\<close>

fun crank :: "lib \<Rightarrow> key_lookup \<Rightarrow> (coins \<times> rat) list \<Rightarrow> session \<Rightarrow> session" where
  "crank L K [] s = s"
| "crank L K ((c, now) # ts) s = crank L K ts (snd (update_session L K c now s))"

fun due :: "rat \<Rightarrow> rat \<Rightarrow> (coins \<times> rat) list \<Rightarrow> bool" where
  "due interval d [] \<longleftrightarrow> True"
| "due interval d ((c, now) # ts) \<longleftrightarrow> d \<le> now \<and> due interval (now + interval) ts"

lemma update_idle:
  assumes "ses_incoming_queue s = []" "ses_state s \<notin> {ESTABLISHED, INITIAL, DROPPED}"
    and "ses_deadline s = Some d" "d \<le> now"
  shows "snd (update_session L K c now s) = on_timeout now s"
  using assms by (simp add: update_session_def timed_out_def Let_def)

lemma crank_dropped: "ses_state s = DROPPED \<Longrightarrow> crank L K ts s = s"
  by (induction ts arbitrary: s) (auto simp: update_session_def)

lemma crank_retries:
  assumes "ses_role s = INITIATOR" "ses_state s \<notin> {ESTABLISHED, INITIAL, DROPPED}"
    and "ses_incoming_queue s = []" "ses_last_sent s = Some sent" "ses_deadline s = Some d"
    and "due (cfg_retry_interval_seconds (ses_config s)) d ts"
    and "left = nat (cfg_max_retries (ses_config s) - ses_attempt_count s)"
  shows "ses_outgoing_pdus (crank L K ts s) = ses_outgoing_pdus s @ replicate (min (length ts) left) sent
    \<and> ses_state (crank L K ts s) = (if length ts \<le> left then ses_state s else DROPPED)"
  using assms
proof (induction ts arbitrary: s d left)
  case Nil
  then show ?case by simp
next
  case (Cons t ts)
  obtain c now where t: "t = (c, now)" by (cases t)
  have up: "snd (update_session L K c now s) = on_timeout now s"
    using Cons.prems t by (intro update_idle) auto
  show ?case
  proof (cases "ses_attempt_count s \<ge> cfg_max_retries (ses_config s)")
    case True
    then have "on_timeout now s = s\<lparr>ses_state := DROPPED\<rparr>" "left = 0"
      using Cons.prems by (simp_all add: on_timeout_def)
    then show ?thesis by (simp add: t up crank_dropped)
  next
    case False
    let ?s = "s\<lparr>ses_attempt_count := ses_attempt_count s + 1,
      ses_deadline := Some (now + cfg_retry_interval_seconds (ses_config s)),
      ses_outgoing_pdus := ses_outgoing_pdus s @ [sent]\<rparr>"
    have o: "on_timeout now s = ?s"
      using Cons.prems False by (simp add: on_timeout_def)
    obtain l where l: "left = Suc l" "l = nat (cfg_max_retries (ses_config s) - (ses_attempt_count s + 1))"
      using Cons.prems(7) False by (cases left) auto
    have "ses_outgoing_pdus (crank L K ts ?s) = ses_outgoing_pdus ?s @ replicate (min (length ts) l) sent
      \<and> ses_state (crank L K ts ?s) = (if length ts \<le> l then ses_state ?s else DROPPED)"
      using Cons.prems t l(2) by (intro Cons.IH) auto
    then show ?thesis by (simp add: t up o l(1))
  qed
qed

lemma awaiting_sent:
  assumes "session_wf s" "ses_state s \<in> {EXPECT_SESSION_INIT_RESPONSE,
    EXPECT_SESSION_COMPLETION_REQUEST, EXPECT_SESSION_COMPLETION_RESPONSE}"
  obtains sent d where "ses_last_sent s = Some sent" "ses_deadline s = Some d"
  using assms by (auto simp: session_wf_def awaits_defs)

text \<open>
  C30. An unanswered initiator ends: cranked at its deadlines with no PDU coming in, a waiting
  initiator sends exactly the PDU it sent last, once per deadline, \<^verbatim>\<open>max_retries\<close> times in all, stays
  in its state until then, and is DROPPED by the next crank (the crank always returns).
\<close>

theorem initiator_retries_then_drops:
  assumes "session_reach L K s" "ses_role s = INITIATOR"
    and "ses_state s = EXPECT_SESSION_INIT_RESPONSE \<or> ses_state s = EXPECT_SESSION_COMPLETION_RESPONSE"
    and "ses_incoming_queue s = []" "ses_attempt_count s = 0"
    and "due (cfg_retry_interval_seconds (ses_config s)) (the (ses_deadline s)) ts"
  shows "ses_outgoing_pdus (crank L K ts s) = ses_outgoing_pdus s @
      replicate (min (length ts) (nat (cfg_max_retries (ses_config s)))) (the (ses_last_sent s))
    \<and> ses_state (crank L K ts s) =
      (if length ts \<le> nat (cfg_max_retries (ses_config s)) then ses_state s else DROPPED)"
proof -
  have "session_wf s" using assms(1) by (rule session_reach_wf)
  then obtain sent d where sd: "ses_last_sent s = Some sent" "ses_deadline s = Some d"
    using assms(3) by (elim awaiting_sent) auto
  have "ses_state s \<notin> {ESTABLISHED, INITIAL, DROPPED}" using assms(3) by auto
  from crank_retries [OF assms(2) this assms(4) sd, where ts = ts, OF _ refl] assms(5,6) sd
  show ?thesis by simp
qed

text \<open>
  A responder never retries: at its deadline it is dropped and sends nothing.
\<close>

theorem responder_drops_at_deadline:
  assumes "session_reach L K s" "ses_role s = RESPONDER" "ses_state s = EXPECT_SESSION_COMPLETION_REQUEST"
    and "ses_incoming_queue s = []" "the (ses_deadline s) \<le> now"
  shows "update_session L K c now s = (Inr (SESSION_DROPPED, Infinity), s\<lparr>ses_state := DROPPED\<rparr>)"
proof -
  have "session_wf s" using assms(1) by (rule session_reach_wf)
  then obtain d where "ses_deadline s = Some d"
    using assms(3) by (elim awaiting_sent) auto
  with assms show ?thesis
    by (simp add: update_session_def timed_out_def on_timeout_def update_outcome_def Let_def)
qed

subsection \<open>Established traffic\<close>

text \<open>A message accepted once is refused from then on: its replay raises and changes nothing.\<close>

theorem replay_rejected:
  assumes "process_incoming L K c now der s = (Inr (), s1)" "session_wf s"
    and "MakeMessage_load L der = Inr msg" "mm_payload msg = Message inner"
    and "ses_cid s = Some (mm_cid msg)" "ses_state s = ESTABLISHED" "ses_last_received s \<noteq> Some der"
  shows "process_incoming L K' c' now' der s1 = (Inl HandshakeFailed, s1)"
proof -
  have h: "handle_established_message L inner s = (Inr (), s1)"
    using assms(1) by (simp add: process_incoming_def assms(3-7) MakeMessage_loadD(4) [OF assms(3)])
  obtain keys key iv plaintext where k: "ses_session_keys s = Some keys"
      "incoming_protection s keys = (key, iv, msg_seq inner)"
      "s1 = (bump_incoming_seq s)\<lparr>ses_outgoing_payloads := ses_outgoing_payloads s @ [plaintext]\<rparr>"
    by (rule handle_established_message_cases [OF h]) (simp, blast)
  have f: "ses_session_keys s1 = Some keys" "ses_cid s1 = Some (mm_cid msg)" "ses_state s1 = ESTABLISHED"
      "ses_last_received s1 \<noteq> Some der"
    unfolding k(3) using k(1) assms(5-7) by (simp_all add: bump_incoming_seq_def)
  obtain e' where e: "incoming_protection s1 keys = (key, iv, e')" "e' \<noteq> msg_seq inner"
    unfolding k(3) using k(2) by (auto simp: incoming_protection_def bump_incoming_seq_def split: if_splits)
  have "handle_established_message L inner s1 = (Inl HandshakeFailed, s1)"
    using e(2) by (simp add: handle_established_message_def f(1) e(1))
  then show ?thesis
    by (simp add: process_incoming_def f assms(3,4) MakeMessage_loadD(4) [OF assms(3)])
qed

text \<open>
  Along a run the keys stay and the counters only grow. \<open>session_run\<close>: any sequence of calls.
\<close>

abbreviation session_run :: "lib \<Rightarrow> key_lookup \<Rightarrow> session \<Rightarrow> session \<Rightarrow> bool" where
  "session_run L K \<equiv> (session_step L K)\<^sup>*\<^sup>*"

definition counts_up :: "session \<Rightarrow> session \<Rightarrow> bool" where
  "counts_up s s' \<longleftrightarrow> (ses_state s = ESTABLISHED \<longrightarrow> ses_state s' = ESTABLISHED \<and>
     ses_role s' = ses_role s \<and> ses_cid s' = ses_cid s \<and>
     ses_session_keys s' = ses_session_keys s \<and>
     ses_seq_a2b s \<le> ses_seq_a2b s' \<and> ses_seq_b2a s \<le> ses_seq_b2a s')"

lemma counts_up_refl: "counts_up s s"
  by (simp add: counts_up_def)

lemma counts_up_trans: "counts_up a b \<Longrightarrow> counts_up b c \<Longrightarrow> counts_up a c"
  by (auto simp: counts_up_def)

lemma counts_up_queues:
  "counts_up s (s\<lparr>ses_incoming_queue := q\<rparr>)" "counts_up s (post_pdu der s)"
  "counts_up s (snd (post_payload p s))" "counts_up s (snd (get_pdu s))"
  "counts_up s (snd (get_payload s))" "counts_up s (resend s)"
  by (simp_all add: counts_up_def post_pdu_def post_payload_def get_pdu_def get_payload_def resend_def
      split: sum.split option.split)

lemma counts_up_send: "send_established_payload L s = (r, s') \<Longrightarrow> counts_up s s'"
  by (cases rule: send_established_payload_cases, assumption)
    (simp_all add: counts_up_def bump_outgoing_seq_def)

lemma counts_up_process: "counts_up s (snd (process_incoming L K c now der s))"
proof -
  have "counts_up s s'" if "process_incoming L K c now der s = (r, s')" for r s'
    using that
  proof (cases rule: process_incoming_cases)
    case (message msg inner)
    from message(6) show ?thesis
      by (cases rule: handle_established_message_cases)
        (simp_all add: counts_up_def bump_incoming_seq_def)
  qed (simp_all add: counts_up_queues, simp_all add: counts_up_def)
  then show ?thesis by (metis prod.collapse)
qed

lemma counts_up_update:
  assumes "session_wf s"
  shows "counts_up s (snd (update_session L K c now s))"
proof (rule update_session_rel [where R = counts_up, OF _ _ _ _ _ _ assms])
  show "counts_up a b \<Longrightarrow> counts_up b d \<Longrightarrow> counts_up a d" for a b d
    by (rule counts_up_trans)
  show "timed_out now s \<Longrightarrow> counts_up s (on_timeout now s)" for s
    by (simp add: timed_out_def counts_up_def)
qed (simp_all add: counts_up_refl counts_up_queues counts_up_process
    counts_up_send [OF prod.collapse [symmetric]])

lemma counts_up_step:
  assumes "session_step L K s s'" "session_wf s"
  shows "counts_up s s'"
  using assms
proof cases
  case (step_initiate c peer now)
  have "counts_up s t" if "initiate L K c peer now s = (r, t)" for r t
    using that by (cases rule: initiate_cases) (simp_all add: counts_up_def)
  then show ?thesis unfolding step_initiate by (metis prod.collapse)
qed (simp_all add: counts_up_update counts_up_queues)

lemma session_run_keeps:
  assumes "session_run L K s s'" "session_wf s"
  shows "counts_up s s' \<and> moves_forward s s' \<and> session_wf s'"
  using assms
proof (induction rule: rtranclp_induct)
  case (step t u)
  then show ?case
    using counts_up_step counts_up_trans moves_forward_step moves_forward_trans session_step_wf
    by blast
qed (simp add: counts_up_refl moves_forward_refl)

text \<open>
  C17. The handshake only moves forward: whatever calls are made on a reachable session, with any
  input, the role, the configuration and the own key id stay and the state follows the edges of the
  state diagram, and an established or dropped session stays so. The one way back is \<open>reset\<close>: from any
  state it gives a new session of the same role, key id and configuration, with nothing else left in it.
\<close>

theorem session_moves_forward:
  assumes "session_reach L K s" "session_run L K s s' \<or> s' = reset s"
  shows "ses_role s' = ses_role s \<and> ses_config s' = ses_config s \<and> ses_own_key_id s' = ses_own_key_id s
    \<and> (session_run L K s s' \<longrightarrow> (handshake_edge (ses_role s))\<^sup>*\<^sup>* (ses_state s) (ses_state s')
        \<and> (ses_state s = ESTABLISHED \<longrightarrow> ses_state s' = ESTABLISHED)
        \<and> (ses_state s = DROPPED \<longrightarrow> ses_state s' = DROPPED))
    \<and> (s' = reset s \<longrightarrow> s' = Session_init (ses_role s) (ses_own_key_id s) (Some (ses_config s)))"
proof -
  have run: "moves_forward s s'" if "session_run L K s s'"
    using session_run_keeps [OF that session_reach_wf [OF assms(1)]] by simp
  have "ses_role s' = ses_role s \<and> ses_config s' = ses_config s \<and> ses_own_key_id s' = ses_own_key_id s"
    using assms(2) run by (auto simp: moves_forward_def reset_def Session_init_def)
  then show ?thesis using run edge_absorbing by (auto simp: moves_forward_def reset_def)
qed



subsection \<open>Who gets established\<close>

text \<open>
  C6. A session is established only by an authentic PDU. An initiator: by a completion response with its
  correlation id whose \<open>h_m\<close> is the hash of the false-start plaintext it sent and whose reply, if any,
  decrypts under the session's own responder key. A responder: by a completion request whose
  ciphertext decrypts under the keys derived from all four shared secrets and both nonces. The keys
  of the established session are those keys.
\<close>

theorem established_only_if_authentic:
  assumes "process_incoming L K c now der s = (r, s')" "ses_state s \<noteq> ESTABLISHED"
    and "ses_state s' = ESTABLISHED"
  shows "\<exists>msg keys cid. MakeMessage_load L der = Inr msg \<and> ses_cid s = Some cid \<and> mm_cid msg = cid
    \<and> (case ses_role s of
        INITIATOR \<Rightarrow> \<exists>h_m m sent. mm_payload msg = Session_completion_response \<lparr>scp_h_m = h_m, scp_m = m\<rparr>
          \<and> ses_sent_plaintext_for_h_m s = Some sent \<and> h_m = sha256 L sent
          \<and> ses_session_keys s' = ses_session_keys s
          \<and> (m \<noteq> None \<longrightarrow> ses_session_keys s = Some keys \<and> (\<exists>p. decrypt L (sk_aead_name keys)
               (sk_key_b2a keys) (sk_iv_b2a keys) 0 (the m) cid = Inr p))
      | RESPONDER \<Rightarrow> \<exists>req s1 s2 s3 s4 n_b peer own aead p. mm_payload msg = Session_completion_request req
          \<and> ses_s1 s = Some s1 \<and> ses_s2 s = Some s2 \<and> ses_s3 s = Some s3 \<and> ses_n_b s = Some n_b
          \<and> ses_own_ephemeral_private s = Some own \<and> ses_peer_key_id s = Some peer \<and> ses_chosen_aead s = Some aead
          \<and> decapsulate L (private_bytes_raw own) (cfg_kem_level (ses_config s)) (scr_ct4 req) = Inr s4
          \<and> derive_session_keys L (scr_n_a req) n_b (KeyId_dump L peer) s1 s2 s3 s4 aead = Inr keys
          \<and> decrypt L (sk_aead_name keys) (sk_key_a2b keys) (sk_iv_a2b keys) 0 (scr_c_m req) cid = Inr p
          \<and> ses_session_keys s' = Some keys)"
  using assms(1)
proof (cases rule: process_incoming_cases)
  case (request msg req)
  from request(6) assms(2,3) show ?thesis by (cases rule: handle_session_init_request_cases) auto
next
  case (response msg resp)
  from response(7) assms(2,3) show ?thesis by (cases rule: handle_session_init_response_cases) auto
next
  case (completion_request msg req)
  from completion_request(7) show ?thesis
  proof (cases rule: handle_session_completion_request_cases)
    case (success s4 keys plaintext m cid out)
    with completion_request(2-6) show ?thesis by (auto simp: open_completion_request_eq_Inr)
  qed (use assms(2,3) in \<open>auto simp: clear_replied_def deliver_payload_def split: if_splits\<close>)
next
  case (completion_response msg resp)
  from completion_response(7) show ?thesis
  proof (cases rule: handle_session_completion_response_cases)
    case raised
    then show ?thesis using assms(2,3) by simp
  next
    case (success sent sm)
    with completion_response(2-6) show ?thesis
      by (cases resp; cases "scp_m resp") auto
  qed
qed (use assms(2,3) in \<open>auto simp: resend_def split: option.splits\<close>)

text \<open>
  C36. What the hash of the false start is worth: an initiator with nothing to send has a \<open>h_m\<close> anyone
  can compute, so a completion response made without any key establishes it (see also
  \<^verbatim>\<open>session.py\<close>, \<open>_handle_session_completion_response\<close>: only a reply ciphertext would be authenticated).
\<close>

theorem empty_false_start_forgeable:
  assumes "session_wf s" "ses_role s = INITIATOR" "ses_state s = EXPECT_SESSION_COMPLETION_RESPONSE"
    and "ses_sent_plaintext_for_h_m s = Some []" "ses_cid s = Some cid"
    and "MakeMessage_load L forged = Inr \<lparr>mm_version = 0, mm_cid = cid,
      mm_payload = Session_completion_response \<lparr>scp_h_m = sha256 L [], scp_m = None\<rparr>\<rparr>"
    and "ses_last_received s \<noteq> Some forged"
  shows "process_incoming L K c now forged s = (Inr (), s\<lparr>ses_last_received := Some forged,
    ses_last_sent := None, ses_state := ESTABLISHED, ses_deadline := None\<rparr>)"
  using assms MakeMessage_loadD(4) [OF assms(6)]
  by (simp add: process_incoming_def handle_session_completion_response_def)

subsection \<open>Forks\<close>

lemma clear_replied_state [simp]: "ses_state (clear_replied s) = ses_state s"
  by (simp add: clear_replied_def)

text \<open>A waiting initiator's private key can be rebuilt from its seed.\<close>

definition seed_rebuilds :: "lib \<Rightarrow> session \<Rightarrow> bool" where
  "seed_rebuilds L s \<longleftrightarrow> (ses_state s = EXPECT_SESSION_INIT_RESPONSE \<longrightarrow>
     (\<exists>k. ses_own_ephemeral_private s = Some k \<and>
        (cfg_kem_level (ses_config s) = 768 \<or> cfg_kem_level (ses_config s) = 1024) \<and>
        mlkem_from_seed_bytes L (cfg_kem_level (ses_config s)) (private_bytes_raw k) = Inr k))"

definition keeps_seed :: "lib \<Rightarrow> session \<Rightarrow> session \<Rightarrow> bool" where
  "keeps_seed L s s' \<longleftrightarrow> (seed_rebuilds L s \<longrightarrow> seed_rebuilds L s')"

lemma keeps_seed_leaving: "ses_state s' \<noteq> EXPECT_SESSION_INIT_RESPONSE \<Longrightarrow> keeps_seed L s s'"
  by (simp add: keeps_seed_def seed_rebuilds_def)

lemma keeps_seed_frame:
  "ses_state s' = ses_state s \<Longrightarrow> ses_config s' = ses_config s \<Longrightarrow>
   ses_own_ephemeral_private s' = ses_own_ephemeral_private s \<Longrightarrow> keeps_seed L s s'"
  by (simp add: keeps_seed_def seed_rebuilds_def)

lemma keeps_seed_process: "keeps_seed L s (snd (process_incoming L K c now der s))"
proof -
  have "keeps_seed L s s'" if "process_incoming L K c now der s = (r, s')" for r s'
    using that
  proof (cases rule: process_incoming_cases)
    case duplicate
    then show ?thesis by (intro keeps_seed_frame) (auto simp: resend_def split: option.split)
  next
    case (request msg req)
    have "moves_forward (s\<lparr>ses_cid := Some (mm_cid msg)\<rparr>) s'"
      by (rule moves_forward_handlers(1) [OF request(6)]) (use request in simp_all)
    from request(6) show ?thesis
      by (cases rule: handle_session_init_request_cases)
        (use request in \<open>auto intro!: keeps_seed_leaving\<close>)
  next
    case (response msg resp)
    from response(7) show ?thesis
      by (cases rule: handle_session_init_response_cases)
        (auto intro: keeps_seed_leaving keeps_seed_frame)
  next
    case (completion_request msg req)
    from completion_request(7) show ?thesis
      by (cases rule: handle_session_completion_request_cases)
        (use completion_request(5) in \<open>auto intro!: keeps_seed_leaving\<close>)
  next
    case (completion_response msg resp)
    from completion_response(7) show ?thesis
      by (cases rule: handle_session_completion_response_cases)
        (auto intro: keeps_seed_leaving keeps_seed_frame)
  next
    case (message msg inner)
    from message(6) show ?thesis
      by (cases rule: handle_established_message_cases)
        (use message(5) in \<open>auto intro!: keeps_seed_leaving\<close>)
  qed (auto intro: keeps_seed_frame)
  then show ?thesis by (metis prod.collapse)
qed

lemma keeps_seed_update:
  assumes "session_wf s"
  shows "keeps_seed L s (snd (update_session L K c now s))"
proof (rule update_session_rel [where R = "keeps_seed L", OF _ _ _ _ _ _ assms])
  show "keeps_seed L a b \<Longrightarrow> keeps_seed L b d \<Longrightarrow> keeps_seed L a d" for a b d
    by (simp add: keeps_seed_def)
  show "keeps_seed L s (on_timeout now s)" for s
    by (cases "ses_state (on_timeout now s) = DROPPED")
      (auto intro: keeps_seed_leaving keeps_seed_frame simp: on_timeout_def Let_def split: option.split)
  show "ses_state s = ESTABLISHED \<Longrightarrow> keeps_seed L s (snd (send_established_payload L s))" for s
    by (rule keeps_seed_leaving)
      (auto simp: send_established_payload_def Let_def commit_def split: sum.split prod.split)
  show "keeps_seed L s (s\<lparr>ses_incoming_queue := q\<rparr>)" for s q
    by (rule keeps_seed_frame) simp_all
qed (simp_all add: keeps_seed_process, simp add: keeps_seed_def)

lemma seed_rebuilds_initiate:
  assumes "mlkem_works L" "seed_rebuilds L s"
  shows "seed_rebuilds L (snd (initiate L K c peer now s))"
proof -
  have "seed_rebuilds L s'" if "initiate L K c peer now s = (r, s')" for r s'
    using that
  proof (cases rule: initiate_cases)
    case (success peer_pk k pub s1 ct1 own aeads out)
    then have lev: "cfg_kem_level (ses_config s) = 768 \<or> cfg_kem_level (ses_config s) = 1024"
      by (auto simp: generate_ephemeral_def)
    from success(5) have "mlkem_generate L (cfg_kem_level (ses_config s)) (coin_generate c) = Inr k"
      by (auto simp: generate_ephemeral_def)
    with mlkem_worksE [OF assms(1) lev] have "priv_level k = cfg_kem_level (ses_config s)" "mlkem_key_works L k"
      by (metis sum.inject(2))+
    with success lev show ?thesis by (simp add: seed_rebuilds_def mlkem_key_works_def)
  qed (use assms(2) in \<open>auto simp: seed_rebuilds_def\<close>)
  then show ?thesis by (metis prod.collapse)
qed

lemma seed_rebuilds_step:
  assumes "session_step L K s s'" "mlkem_works L" "session_wf s" "seed_rebuilds L s"
  shows "seed_rebuilds L s'"
  using assms
proof cases
  case (step_update c now)
  then show ?thesis using keeps_seed_update [OF assms(3)] assms(4) by (simp add: keeps_seed_def)
qed (auto simp: seed_rebuilds_initiate,
    auto simp: seed_rebuilds_def post_pdu_def post_payload_def get_pdu_def get_payload_def split: sum.splits)

lemma fork_eq:
  assumes "session_wf s" "seed_rebuilds L s" "ses_state s = EXPECT_SESSION_INIT_RESPONSE"
  shows "fork L s = Inr (s\<lparr>ses_incoming_queue := [], ses_outgoing_pdus := [], ses_outgoing_payloads := []\<rparr>)"
proof -
  from assms have "ses_role s = INITIATOR" "no_response_yet s"
    by (auto simp: session_wf_def awaits_init_response_def)
  moreover obtain k where "ses_own_ephemeral_private s = Some k"
      "cfg_kem_level (ses_config s) = 768 \<or> cfg_kem_level (ses_config s) = 1024"
      "mlkem_from_seed_bytes L (cfg_kem_level (ses_config s)) (private_bytes_raw k) = Inr k"
    using assms(2,3) by (auto simp: seed_rebuilds_def)
  ultimately show ?thesis
    using assms(3) by (cases s) (auto simp: fork_def Let_def Session_init_def no_response_yet_def)
qed

lemma seed_rebuilds_reach:
  assumes "mlkem_works L" "session_reach L K s"
  shows "seed_rebuilds L s"
  using assms(2)
proof (induction rule: session_reach.induct)
  case (reach_fork s s')
  then have e: "ses_state s = EXPECT_SESSION_INIT_RESPONSE"
    by (auto simp: fork_def split: if_splits)
  have "s' = s\<lparr>ses_incoming_queue := [], ses_outgoing_pdus := [], ses_outgoing_payloads := []\<rparr>"
    using fork_eq [OF session_reach_wf [OF reach_fork(1)] reach_fork(3) e] reach_fork(2) by simp
  with reach_fork(3) show ?case by (simp add: seed_rebuilds_def)
next
  case (reach_step s s')
  then show ?case using seed_rebuilds_step [OF _ assms(1)] session_reach_wf by blast
qed (simp_all add: seed_rebuilds_def Session_init_def reset_def)

text \<open>
  A fork is an exact copy: for every reachable initiator that waits for its response, over a working
  ML-KEM, \<open>fork\<close> succeeds and gives the same session with empty queues, so it answers the same PDU in
  the same way; and it leaves the forked session alone.
\<close>

theorem fork_is_exact_copy:
  assumes "mlkem_works L" "session_reach L K s" "ses_state s = EXPECT_SESSION_INIT_RESPONSE"
  shows "fork L s = Inr (s\<lparr>ses_incoming_queue := [], ses_outgoing_pdus := [], ses_outgoing_payloads := []\<rparr>)"
  using fork_eq session_reach_wf seed_rebuilds_reach assms by blast

subsection \<open>What a crank reports\<close>

lemma update_reports:
  assumes "update_session L K c now s = (Inr x, s')" "0 < cfg_retry_interval_seconds (ses_config s')"
  shows "x = update_outcome now s' \<and> (ses_state s' = DROPPED \<or> \<not> timed_out now s')"
proof -
  have t: "\<not> timed_out now (on_timeout now b) \<or> ses_state (on_timeout now b) = DROPPED"
    if "0 < cfg_retry_interval_seconds (ses_config (on_timeout now b))" for b
    using that by (auto simp: timed_out_def on_timeout_def Let_def split: option.splits if_splits)
  show ?thesis
    using assms t by (auto simp: update_session_def update_outcome_def Let_def split: sseq_splits if_splits)
qed

text \<open>
  C28. What \<open>update\<close> returns can be relied on: the reason says exactly what is to be collected (dropped, a
  payload, else a PDU, else nothing), collecting with \<open>get_payload\<close> and \<open>get_pdu\<close> then gives the whole queues
  in order and leaves nothing to poll, and the deadline to crank again at is in the future, so a caller that
  cranks at the deadlines it is given never spins.
\<close>

theorem crank_reports_output:
  assumes "session_reach L K s" "0 < cfg_retry_interval_seconds (ses_config s)"
    and "update_session L K c now s = (Inr (reason, deadline), s')"
  shows "reason = (if ses_state s' = DROPPED then SESSION_DROPPED else if poll_payload s' then PAYLOAD_READY
      else if poll_pdu s' then PDU_READY else NOTHING_READY)
    \<and> Fin now < deadline
    \<and> (\<forall>n < length (ses_outgoing_payloads s').
        fst (get_payload (((\<lambda>s. snd (get_payload s)) ^^ n) s')) = Inr (ses_outgoing_payloads s' ! n))
    \<and> (\<forall>n < length (ses_outgoing_pdus s').
        fst (get_pdu (((\<lambda>s. snd (get_pdu s)) ^^ n) s')) = Inr (ses_outgoing_pdus s' ! n))
    \<and> \<not> poll_pdu (((\<lambda>s. snd (get_pdu s)) ^^ length (ses_outgoing_pdus s')) s')"
proof -
  have wf: "session_wf s" by (rule session_reach_wf [OF assms(1)])
  have "session_wf s'" using session_wf_update [OF wf, of L K c now] assms(3) by simp
  have "moves_forward s s'" using moves_forward_update [OF wf, of L K c now] assms(3) by simp
  then have i: "0 < cfg_retry_interval_seconds (ses_config s')" using assms(2) by (simp add: moves_forward_def)
  from update_reports [OF assms(3) i]
  have r: "(reason, deadline) = update_outcome now s'" and t: "ses_state s' = DROPPED \<or> \<not> timed_out now s'"
    by simp_all
  have "Fin now < deadline"
  proof (cases "ses_state s' = DROPPED")
    case True
    then show ?thesis using r by (simp add: update_outcome_def less_ftime_def)
  next
    case False
    have "ses_deadline s' = None" if "ses_state s' = INITIAL \<or> ses_state s' = ESTABLISHED"
      using session_wfD(1,5) [OF \<open>session_wf s'\<close>] that by (auto simp: carries_traffic_def)
    then have "now < (case ses_deadline s' of Some d \<Rightarrow> d | None \<Rightarrow> now + cfg_retry_interval_seconds (ses_config s'))"
      using False t i by (auto simp: timed_out_def split: option.splits)
    then show ?thesis using False r
      by (simp add: update_outcome_def next_update_result_def less_ftime_def split: if_splits)
  qed
  moreover have "reason = (if ses_state s' = DROPPED then SESSION_DROPPED else if poll_payload s' then PAYLOAD_READY
      else if poll_pdu s' then PDU_READY else NOTHING_READY)"
    using r by (simp add: update_outcome_def next_update_result_def split: if_splits)
  ultimately show ?thesis using payloads.nth_get pdus.nth_get pdus.exhausted by blast
qed

end
