(* ===== verification/Candidate.thy ===== *)
theory Candidate
  imports Prelude
begin

section \<open>\<^verbatim>\<open>candidate.py\<close>: the bounded store of unauthenticated candidates\<close>

text \<open>
  \<open>candidate_store\<close> is a \<open>CandidateStore\<close> object: its limits, the dict from correlation id to the list
  of candidates, and the running total. Invariant \<open>store_wf\<close>: one entry per cid, the total is the sum of
  the list lengths, no list and not the total exceeds its cap, every candidate sits under its own cid
  and lives exactly the fixed TTL. Every operation keeps it (an \<open>add\<close> that raises too).
  \<open>candidate_pool\<close> is the contract the dispatcher relies on, interpreted on the store at the end.
\<close>

definition DEFAULT_MAX_CANDIDATES_PER_CID :: int where "DEFAULT_MAX_CANDIDATES_PER_CID = 3"
definition DEFAULT_MAX_TOTAL_CANDIDATES :: int where "DEFAULT_MAX_TOTAL_CANDIDATES = 1024"
definition DEFAULT_CANDIDATE_TTL_SECONDS :: rat where "DEFAULT_CANDIDATE_TTL_SECONDS = 60"

record candidate =
  cand_cid :: bytes
  cand_received_pdu :: bytes
  cand_sent_pdu :: bytes
  cand_created_at :: rat
  cand_expires_at :: rat
  cand_attempt_count :: int

definition is_expired :: "rat \<Rightarrow> candidate \<Rightarrow> bool" where
  "is_expired now c \<longleftrightarrow> now \<ge> cand_expires_at c"

definition matches_received :: "bytes \<Rightarrow> candidate \<Rightarrow> bool" where
  "matches_received pdu c \<longleftrightarrow> pdu = cand_received_pdu c"

record candidate_store =
  cs_max_per_cid :: int
  cs_max_total :: int
  cs_ttl_seconds :: rat
  cs_by_cid :: "(bytes, candidate list) dict"
  cs_total :: int

definition CandidateStore_init :: "int \<Rightarrow> int \<Rightarrow> rat \<Rightarrow> candidate_store result" where
  "CandidateStore_init max_per_cid max_total ttl_seconds =
     (if max_per_cid < 1 then Inl ValueError
      else if max_total < max_per_cid then Inl ValueError
      else Inr \<lparr>cs_max_per_cid = max_per_cid, cs_max_total = max_total,
                cs_ttl_seconds = ttl_seconds, cs_by_cid = [], cs_total = 0\<rparr>)"

subsection \<open>Queries\<close>

definition candidates_for :: "bytes \<Rightarrow> candidate_store \<Rightarrow> candidate list" where
  "candidates_for cid s = (case map_of (cs_by_cid s) cid of None \<Rightarrow> [] | Some cs \<Rightarrow> cs)"

definition match_or_none :: "bytes \<Rightarrow> bytes \<Rightarrow> candidate_store \<Rightarrow> candidate option" where
  "match_or_none cid received_pdu s = find (matches_received received_pdu) (candidates_for cid s)"

definition total_count :: "candidate_store \<Rightarrow> int" where
  "total_count s = cs_total s"

subsection \<open>Mutation\<close>

text \<open>One round of the loop of \<open>expire\<close>: the dict, the number removed, the cids left empty.\<close>

definition expire_round :: "rat \<Rightarrow> bytes \<times> candidate list \<Rightarrow>
    (bytes, candidate list) dict \<times> int \<times> bytes list \<Rightarrow> (bytes, candidate list) dict \<times> int \<times> bytes list" where
  "expire_round now = (\<lambda>(cid, candidates) (by_cid, removed_count, empty_cids).
     let surviving = filter (\<lambda>c. \<not> is_expired now c) candidates;
         removed = removed_count + (int (length candidates) - int (length surviving))
     in if surviving \<noteq> [] then (AList.update cid surviving by_cid, removed, empty_cids)
        else (by_cid, removed, empty_cids @ [cid]))"

definition expire :: "rat \<Rightarrow> candidate_store \<Rightarrow> int \<times> candidate_store" where
  "expire now s =
     (let (by_cid, removed_count, empty_cids) =
            fold (expire_round now) (cs_by_cid s) (cs_by_cid s, 0, [])
      in (removed_count, s\<lparr>cs_by_cid := fold AList.delete empty_cids by_cid,
                           cs_total := cs_total s - removed_count\<rparr>))"

definition add :: "bytes \<Rightarrow> bytes \<Rightarrow> bytes \<Rightarrow> rat \<Rightarrow> candidate_store \<Rightarrow> candidate result \<times> candidate_store" where
  "add cid received_pdu sent_pdu now s0 =
     (let s = snd (expire now s0);
          s1 = s\<lparr>cs_by_cid := setdefault cid [] (cs_by_cid s)\<rparr>;
          existing = candidates_for cid s1
      in if int (length existing) \<ge> cs_max_per_cid s1 then (Inl CandidateLimitExceeded, s1)
         else if cs_total s1 \<ge> cs_max_total s1 then (Inl CandidateLimitExceeded, s1)
         else
           let candidate = \<lparr>cand_cid = cid, cand_received_pdu = received_pdu, cand_sent_pdu = sent_pdu,
                 cand_created_at = now, cand_expires_at = now + cs_ttl_seconds s1,
                 cand_attempt_count = 0\<rparr>
           in (Inr candidate, s1\<lparr>cs_by_cid := AList.update cid (existing @ [candidate]) (cs_by_cid s1),
                                cs_total := cs_total s1 + 1\<rparr>))"

definition discard :: "bytes \<Rightarrow> candidate_store \<Rightarrow> candidate_store" where
  "discard cid s = s\<lparr>cs_by_cid := AList.delete cid (cs_by_cid s),
     cs_total := cs_total s - int (length (candidates_for cid s))\<rparr>"

definition promote :: "bytes \<Rightarrow> candidate \<Rightarrow> candidate_store \<Rightarrow> candidate_store" where
  "promote cid winner s = s\<lparr>cs_by_cid := AList.delete cid (cs_by_cid s),
     cs_total := cs_total s - int (length (candidates_for cid s))\<rparr>"

text \<open>
  The candidates are mutable objects that the dispatcher gets from \<open>candidates_for\<close> and changes in place.
\<close>

definition update_candidates :: "bytes \<Rightarrow> (candidate list \<Rightarrow> candidate list) \<Rightarrow> candidate_store \<Rightarrow> candidate_store" where
  "update_candidates cid f s = (case map_of (cs_by_cid s) cid of
       None \<Rightarrow> s | Some cs \<Rightarrow> s\<lparr>cs_by_cid := AList.update cid (f cs) (cs_by_cid s)\<rparr>)"

subsection \<open>The sweep is a filter\<close>

definition live :: "rat \<Rightarrow> candidate list \<Rightarrow> candidate list" where
  "live now = filter (\<lambda>c. \<not> is_expired now c)"

definition prune :: "rat \<Rightarrow> (bytes, candidate list) dict \<Rightarrow> (bytes, candidate list) dict" where
  "prune now d = filter (\<lambda>(_, cs). cs \<noteq> []) (map (\<lambda>(cid, cs). (cid, live now cs)) d)"

definition dict_size :: "(bytes, candidate list) dict \<Rightarrow> int" where
  "dict_size d = sum_list (map (\<lambda>(_, cs). int (length cs)) d)"

lemma dict_size_simps [simp]: "dict_size [] = 0" "dict_size ((k, cs) # d) = int (length cs) + dict_size d"
  by (simp_all add: dict_size_def)

lemma dict_size_nonneg: "0 \<le> dict_size d"
  by (induction d) auto

lemma live_le: "length (live now cs) \<le> length cs"
  by (simp add: live_def)

text \<open>
  The loop, in one go: it sets each entry that survives and collects the rest. \<open>pre\<close> is what has been
  swept already.
\<close>

lemma update_append:
  "k \<notin> fst ` set pre \<Longrightarrow> AList.update k v (pre @ d) = pre @ AList.update k v d"
  by (induction pre) auto

lemma expire_fold:
  assumes "distinct (map fst (pre @ d))"
  shows "fold (expire_round now) d (pre @ d, n, es) =
    (pre @ map (\<lambda>(cid, cs). (cid, if live now cs = [] then cs else live now cs)) d,
     n + dict_size d - dict_size (prune now d),
     es @ map fst (filter (\<lambda>(_, cs). live now cs = []) d))"
  using assms
proof (induction d arbitrary: pre n es)
  case Nil
  then show ?case by (simp add: prune_def)
next
  case (Cons kc d)
  obtain k cs where kc: "kc = (k, cs)" by (cases kc)
  have k: "k \<notin> fst ` set pre" using Cons.prems kc by auto
  let ?v = "if live now cs = [] then cs else live now cs"
  have d: "distinct (map fst ((pre @ [(k, ?v)]) @ d))" using Cons.prems kc by simp
  have round: "expire_round now (k, cs) (pre @ (k, cs) # d, n, es) =
      ((pre @ [(k, ?v)]) @ d, n + (int (length cs) - int (length (live now cs))),
       es @ (if live now cs = [] then [k] else []))"
    using k by (simp add: expire_round_def live_def [symmetric] Let_def update_append)
  show ?case
    unfolding fold_simps comp_apply kc round
    using Cons.IH [OF d, of "n + (int (length cs) - int (length (live now cs)))"
        "es @ (if live now cs = [] then [k] else [])"]
    by (auto simp: prune_def)
qed

lemma delete_filter: "fold AList.delete ks d = filter (\<lambda>(k, _). k \<notin> set ks) d"
proof (induction ks arbitrary: d)
  case (Cons k ks)
  have "AList.delete k d = filter (\<lambda>(x, _). x \<noteq> k) d"
    by (auto simp: AList.delete_eq case_prod_unfold intro!: filter_cong)
  then show ?case using Cons by (simp add: conj_commute case_prod_unfold)
qed simp

lemma expire_eq:
  assumes "distinct (map fst (cs_by_cid s))"
  shows "expire now s = (dict_size (cs_by_cid s) - dict_size (prune now (cs_by_cid s)),
     s\<lparr>cs_by_cid := prune now (cs_by_cid s),
       cs_total := cs_total s - (dict_size (cs_by_cid s) - dict_size (prune now (cs_by_cid s)))\<rparr>)"
proof -
  let ?d = "cs_by_cid s"
  have f: "fold (expire_round now) ?d (?d, 0, []) =
    (map (\<lambda>(cid, cs). (cid, if live now cs = [] then cs else live now cs)) ?d,
     dict_size ?d - dict_size (prune now ?d), map fst (filter (\<lambda>(_, cs). live now cs = []) ?d))"
    using expire_fold [of "[]" ?d now 0 "[]"] assms by simp
  have "filter (\<lambda>(k, _). k \<notin> set (map fst (filter (\<lambda>(_, cs). live now cs = []) d)))
      (map (\<lambda>(cid, cs). (cid, if live now cs = [] then cs else live now cs)) d) = prune now d"
    if "distinct (map fst d)" for d
    using that
  proof (induction d)
    case (Cons kc d)
    obtain k cs where kc: "kc = (k, cs)" by (cases kc)
    have fresh: "k' \<noteq> k" if "(k', cs') \<in> set d" for k' cs' using Cons.prems kc that by force
    have "filter (\<lambda>(x, _). x \<notin> set (map fst (filter (\<lambda>(_, cs). live now cs = []) (kc # d))))
        (map (\<lambda>(cid, cs). (cid, if live now cs = [] then cs else live now cs)) d) =
      filter (\<lambda>(x, _). x \<notin> set (map fst (filter (\<lambda>(_, cs). live now cs = []) d)))
        (map (\<lambda>(cid, cs). (cid, if live now cs = [] then cs else live now cs)) d)"
      using fresh kc by (intro filter_cong refl) force
    moreover have "k \<notin> set (map fst (filter (\<lambda>(_, cs). live now cs = []) d))"
      using fresh by force
    ultimately show ?case using Cons kc by (auto simp: prune_def)
  qed (simp add: prune_def)
  then show ?thesis
    using assms by (simp add: expire_def f delete_filter Let_def)
qed

subsection \<open>The invariant\<close>

definition entry_ok :: "candidate_store \<Rightarrow> bytes \<times> candidate list \<Rightarrow> bool" where
  "entry_ok s = (\<lambda>(cid, cs). int (length cs) \<le> cs_max_per_cid s \<and>
     list_all (\<lambda>c. cand_cid c = cid \<and> cand_expires_at c = cand_created_at c + cs_ttl_seconds s) cs)"

definition store_wf :: "candidate_store \<Rightarrow> bool" where
  "store_wf s \<longleftrightarrow> 1 \<le> cs_max_per_cid s \<and> cs_max_per_cid s \<le> cs_max_total s \<and>
     distinct (map fst (cs_by_cid s)) \<and> cs_total s = dict_size (cs_by_cid s) \<and>
     cs_total s \<le> cs_max_total s \<and> list_all (entry_ok s) (cs_by_cid s)"

lemma entry_ok_nil: "1 \<le> cs_max_per_cid s \<Longrightarrow> entry_ok s (cid, [])"
  by (simp add: entry_ok_def)

lemma store_wfD:
  assumes "store_wf s"
  shows "distinct (map fst (cs_by_cid s))" "cs_total s = dict_size (cs_by_cid s)"
    "cs_total s \<le> cs_max_total s" "list_all (entry_ok s) (cs_by_cid s)"
  using assms by (simp_all add: store_wf_def)

lemma store_wf_init: "CandidateStore_init m t ttl = Inr s \<Longrightarrow> store_wf s"
  by (auto simp: CandidateStore_init_def store_wf_def split: if_splits)

lemma prune_keys: "map fst (prune now d) = map fst (filter (\<lambda>(_, cs). live now cs \<noteq> []) d)"
  by (induction d) (auto simp: prune_def)

lemma prune_size: "dict_size (prune now d) \<le> dict_size d"
  by (induction d) (auto simp: prune_def live_le add_mono)

lemma distinct_prune: "distinct (map fst d) \<Longrightarrow> distinct (map fst (prune now d))"
  by (simp add: prune_keys distinct_map_filter)

lemma live_subset: "c \<in> set (live now cs) \<Longrightarrow> c \<in> set cs"
  by (simp add: live_def)

lemma entry_ok_live: "entry_ok s (cid, cs) \<Longrightarrow> entry_ok s (cid, live now cs)"
  using live_le [of now cs] by (auto simp: entry_ok_def list_all_iff dest: live_subset)

lemma entry_ok_cong:
  "cs_max_per_cid s' = cs_max_per_cid s \<Longrightarrow> cs_ttl_seconds s' = cs_ttl_seconds s \<Longrightarrow>
   entry_ok s' = entry_ok s"
  by (simp add: entry_ok_def)

lemma map_of_prune:
  assumes "distinct (map fst d)"
  shows "(case map_of (prune now d) cid of None \<Rightarrow> [] | Some cs \<Rightarrow> cs) =
    live now (case map_of d cid of None \<Rightarrow> [] | Some cs \<Rightarrow> cs)"
  using assms
proof (induction d)
  case (Cons kc d)
  obtain k cs where kc: "kc = (k, cs)" by (cases kc)
  have "map_of (prune now d) k = None"
    using Cons.prems kc by (force simp: map_of_eq_None_iff prune_def)
  with Cons kc show ?case by (auto simp: prune_def)
qed (simp add: prune_def live_def)

lemma expire_fields:
  assumes "store_wf s"
  shows "cs_by_cid (snd (expire now s)) = prune now (cs_by_cid s)"
    and "cs_total (snd (expire now s)) = dict_size (prune now (cs_by_cid s))"
    and "cs_max_per_cid (snd (expire now s)) = cs_max_per_cid s"
    and "cs_max_total (snd (expire now s)) = cs_max_total s"
    and "cs_ttl_seconds (snd (expire now s)) = cs_ttl_seconds s"
    and "candidates_for cid (snd (expire now s)) = live now (candidates_for cid s)"
  using assms map_of_prune [of "cs_by_cid s" now cid]
  by (auto simp: expire_eq store_wf_def candidates_for_def)

lemma store_wf_expire [wf_intros]:
  assumes "store_wf s"
  shows "store_wf (snd (expire now s))"
proof -
  have "entry_ok (snd (expire now s)) = entry_ok s"
    by (rule entry_ok_cong) (simp_all add: expire_fields [OF assms])
  moreover have "list_all (entry_ok s) (prune now (cs_by_cid s))"
    using store_wfD(4) [OF assms] by (auto simp: list_all_iff prune_def intro: entry_ok_live)
  ultimately have "list_all (entry_ok (snd (expire now s))) (prune now (cs_by_cid s))"
    by simp
  then show ?thesis
    using assms prune_size [of now "cs_by_cid s"]
    by (auto simp: store_wf_def expire_fields [OF assms] distinct_prune)
qed

lemma dict_size_delete:
  "distinct (map fst d) \<Longrightarrow> dict_size (AList.delete k d) =
     dict_size d - int (length (case map_of d k of None \<Rightarrow> [] | Some cs \<Rightarrow> cs))"
  by (induction d) (auto simp: dict_delete_absent map_of_eq_None_iff)

lemma dict_size_update:
  "distinct (map fst d) \<Longrightarrow> dict_size (AList.update k v d) =
     dict_size d - int (length (case map_of d k of None \<Rightarrow> [] | Some cs \<Rightarrow> cs)) + int (length v)"
  by (induction d) (auto simp: map_of_eq_None_iff)

lemma dict_size_setdefault [simp]: "dict_size (setdefault k [] d) = dict_size d"
  by (simp add: setdefault_def dict_size_def)

lemma set_update_subset: "set (AList.update k v d) \<subseteq> insert (k, v) (set d)"
  by (induction d) auto

lemma store_wf_discard [wf_intros]: "store_wf s \<Longrightarrow> store_wf (discard cid s)"
  using dict_size_nonneg [of "AList.delete cid (cs_by_cid s)"]
  by (auto simp: store_wf_def discard_def candidates_for_def dict_size_delete distinct_delete
      list_all_iff set_dict_delete entry_ok_def)

lemma promote_is_discard: "promote cid winner s = discard cid s"
  by (simp add: promote_def discard_def)

lemma store_wf_update_candidates [wf_intros]:
  assumes "store_wf s" "\<And>cs. length (f cs) = length cs"
    and "\<And>cs c. c \<in> set (f cs) \<Longrightarrow> \<exists>c' \<in> set cs. cand_cid c = cand_cid c' \<and>
       cand_created_at c = cand_created_at c' \<and> cand_expires_at c = cand_expires_at c'"
  shows "store_wf (update_candidates cid f s)"
proof (cases "map_of (cs_by_cid s) cid")
  case (Some cs)
  have e: "entry_ok s (cid, cs)"
    using store_wfD(4) [OF assms(1)] Some by (auto simp: list_all_iff dest: map_of_SomeD)
  then have "entry_ok s (cid, f cs)"
    using assms(2) [of cs] assms(3) [where cs = cs] by (force simp: entry_ok_def list_all_iff)
  then have "list_all (entry_ok s) (AList.update cid (f cs) (cs_by_cid s))"
    using store_wfD(4) [OF assms(1)] set_update_subset by (fastforce simp: list_all_iff)
  then show ?thesis
    using assms(1,2) Some
    by (auto simp: store_wf_def update_candidates_def dict_size_update distinct_update list_all_iff entry_ok_def)
qed (simp add: update_candidates_def assms(1))

lemma entry_ok_candidates: "store_wf s \<Longrightarrow> entry_ok s (cid, candidates_for cid s)"
  by (auto simp: store_wf_def candidates_for_def list_all_iff entry_ok_nil
      dest: map_of_SomeD split: option.split)

lemma candidates_for_discard: "candidates_for k (discard cid s) = (if k = cid then [] else candidates_for k s)"
  by (simp add: candidates_for_def discard_def)

text \<open>
  C34. The sweep, which walks the dict while assigning to it and deletes the emptied entries afterwards,
  does what a filter does: exactly the candidates whose TTL has not passed stay, in their order, no
  empty entry is left, and the total and the result count what was removed.
\<close>

theorem expire_is_filter:
  assumes "distinct (map fst (cs_by_cid s))"
  shows "expire now s = (dict_size (cs_by_cid s) - dict_size (prune now (cs_by_cid s)),
     s\<lparr>cs_by_cid := prune now (cs_by_cid s),
       cs_total := cs_total s - (dict_size (cs_by_cid s) - dict_size (prune now (cs_by_cid s)))\<rparr>)"
  using assms by (rule expire_eq)

subsection \<open>Admission\<close>

lemma add_cases:
  assumes "store_wf s" "add cid pdu sent now s = (r, s')"
  obtains (refused) "r = Inl CandidateLimitExceeded" "store_wf s'"
      "\<And>k. candidates_for k s' = live now (candidates_for k s)"
      "int (length (live now (candidates_for cid s))) \<ge> cs_max_per_cid s \<or>
       dict_size (prune now (cs_by_cid s)) \<ge> cs_max_total s"
    | (added) c where "r = Inr c" "store_wf s'"
      "c = \<lparr>cand_cid = cid, cand_received_pdu = pdu, cand_sent_pdu = sent, cand_created_at = now,
            cand_expires_at = now + cs_ttl_seconds s, cand_attempt_count = 0\<rparr>"
      "\<And>k. candidates_for k s' = live now (candidates_for k s) @ (if k = cid then [c] else [])"
      "int (length (live now (candidates_for cid s))) < cs_max_per_cid s"
      "dict_size (prune now (cs_by_cid s)) < cs_max_total s"
proof -
  let ?e = "snd (expire now s)"
  let ?s1 = "?e\<lparr>cs_by_cid := setdefault cid [] (cs_by_cid ?e)\<rparr>"
  note wf = store_wf_expire [OF assms(1), of now]
  note ef = expire_fields [OF assms(1), where now = now]
  have cf1: "candidates_for k ?s1 = live now (candidates_for k s)" for k
  proof -
    have "candidates_for k ?s1 = candidates_for k ?e"
      by (auto simp: candidates_for_def split: option.split)
    then show ?thesis using ef(6) [of k] by simp
  qed
  have "entry_ok ?s1 = entry_ok ?e" by (rule entry_ok_cong) simp_all
  moreover have "list_all (entry_ok ?e) (setdefault cid [] (cs_by_cid ?e))"
    using wf by (auto simp: setdefault_def store_wf_def entry_ok_nil)
  ultimately have wf1: "store_wf ?s1"
    using wf by (simp add: store_wf_def distinct_setdefault)
  have same: "cs_max_per_cid ?s1 = cs_max_per_cid s" "cs_max_total ?s1 = cs_max_total s"
      "cs_ttl_seconds ?s1 = cs_ttl_seconds s" "cs_total ?s1 = dict_size (prune now (cs_by_cid s))"
    using ef by simp_all
  let ?c = "\<lparr>cand_cid = cid, cand_received_pdu = pdu, cand_sent_pdu = sent, cand_created_at = now,
      cand_expires_at = now + cs_ttl_seconds s, cand_attempt_count = 0\<rparr>"
  show thesis
  proof (cases "int (length (live now (candidates_for cid s))) \<ge> cs_max_per_cid s \<or>
      dict_size (prune now (cs_by_cid s)) \<ge> cs_max_total s")
    case True
    then have "(r, s') = (Inl CandidateLimitExceeded, ?s1)"
      using assms(2) unfolding add_def Let_def cf1 same by (simp split: if_splits)
    with True wf1 cf1 show ?thesis by (intro refused) simp_all
  next
    case False
    let ?s2 = "?s1\<lparr>cs_by_cid := AList.update cid (live now (candidates_for cid s) @ [?c]) (cs_by_cid ?s1),
      cs_total := cs_total ?s1 + 1\<rparr>"
    have rs: "(r, s') = (Inr ?c, ?s2)"
      using assms(2) False unfolding add_def Let_def cf1 same by simp
    have cf2: "candidates_for k ?s2 = live now (candidates_for k s) @ (if k = cid then [?c] else [])" for k
      using cf1 [of k] by (auto simp: candidates_for_def)
    have len: "int (length (live now (candidates_for cid s))) < cs_max_per_cid s" using False by simp
    have "entry_ok ?s1 (cid, live now (candidates_for cid s))"
      using entry_ok_candidates [OF wf1, of cid] unfolding cf1 .
    then have ok: "entry_ok ?s2 (cid, live now (candidates_for cid s) @ [?c])"
      using len ef by (auto simp: entry_ok_def)
    have "dict_size (cs_by_cid ?s2) = dict_size (cs_by_cid ?s1) + 1"
      using cf1 [of cid] store_wfD(1) [OF wf1] by (simp add: dict_size_update candidates_for_def)
    moreover have "list_all (entry_ok ?s2) (cs_by_cid ?s2)"
      using ok store_wfD(4) [OF wf1] set_update_subset [of cid _ "cs_by_cid ?s1"]
      by (fastforce simp: list_all_iff entry_ok_def)
    ultimately have "store_wf ?s2"
      using wf1 False same by (auto simp: store_wf_def distinct_update)
    with rs cf2 len False show ?thesis by (intro added) simp_all
  qed
qed

text \<open>
  C33. Admission: a candidate is added exactly when, after dropping what has expired, its correlation id
  and the whole store are below their caps. It is then last in its cid's list with the fixed expiry;
  otherwise the call raises, and the store holds what it held less what had expired.
\<close>

theorem add_admits_iff_below_caps:
  assumes "store_wf s" "add cid pdu sent now s = (r, s')"
  shows "((\<exists>c. r = Inr c) \<longleftrightarrow>
        int (length (live now (candidates_for cid s))) < cs_max_per_cid s \<and>
        dict_size (prune now (cs_by_cid s)) < cs_max_total s)
    \<and> store_wf s'
    \<and> (case r of Inl e \<Rightarrow> e = CandidateLimitExceeded \<and> (\<forall>k. candidates_for k s' = live now (candidates_for k s))
        | Inr c \<Rightarrow> c = \<lparr>cand_cid = cid, cand_received_pdu = pdu, cand_sent_pdu = sent,
              cand_created_at = now, cand_expires_at = now + cs_ttl_seconds s, cand_attempt_count = 0\<rparr>
            \<and> (\<forall>k. candidates_for k s' =
                  live now (candidates_for k s) @ (if k = cid then [c] else [])))"
  using assms by (cases rule: add_cases) auto

subsection \<open>Reachable stores\<close>

inductive store_reach :: "candidate_store \<Rightarrow> bool" where
  store_init: "CandidateStore_init m t ttl = Inr s \<Longrightarrow> store_reach s"
| store_add: "store_reach s \<Longrightarrow> store_reach (snd (add cid pdu sent now s))"
| store_discard: "store_reach s \<Longrightarrow> store_reach (discard cid s)"
| store_promote: "store_reach s \<Longrightarrow> store_reach (promote cid winner s)"
| store_expire: "store_reach s \<Longrightarrow> store_reach (snd (expire now s))"

lemma store_wf_add [wf_intros]:
  assumes "store_wf s"
  shows "store_wf (snd (add cid pdu sent now s))"
proof -
  have "store_wf s'" if "add cid pdu sent now s = (r, s')" for r s'
    using assms that by (cases rule: add_cases)
  then show ?thesis by (metis prod.collapse)
qed

text \<open>
  C32. The bound holds always: in every store that any sequence of adds, discards, promotions and sweeps
  produces, the counter is the number of candidates, it never exceeds the global cap, no correlation
  id exceeds its cap, and every candidate expires exactly one TTL after it was made (no call extends it).
\<close>

theorem store_always_bounded:
  assumes "store_reach s"
  shows "total_count s = dict_size (cs_by_cid s) \<and> total_count s \<le> cs_max_total s
    \<and> (\<forall>cid. int (length (candidates_for cid s)) \<le> cs_max_per_cid s)
    \<and> (\<forall>cid. list_all (\<lambda>c. cand_cid c = cid \<and> cand_expires_at c = cand_created_at c + cs_ttl_seconds s)
        (candidates_for cid s))"
proof -
  have wf: "store_wf s"
    using assms by induction (auto intro: wf_intros store_wf_init simp: promote_is_discard)
  have "entry_ok s (cid, candidates_for cid s)" for cid
    by (rule entry_ok_candidates [OF wf])
  with wf show ?thesis by (auto simp: store_wf_def total_count_def entry_ok_def)
qed

text \<open>
  Duplicate detection is exact: a received PDU matches a candidate of its correlation id if and only
  if the very same bytes were received before, and the match is one of the stored candidates.
\<close>

theorem match_or_none_exact:
  shows "(match_or_none cid pdu s = None \<longleftrightarrow> pdu \<notin> cand_received_pdu ` set (candidates_for cid s))
    \<and> (\<forall>c. match_or_none cid pdu s = Some c \<longrightarrow>
          c \<in> set (candidates_for cid s) \<and> cand_received_pdu c = pdu)"
  by (auto simp: match_or_none_def matches_received_def find_None_iff find_Some_iff image_iff)

subsection \<open>The contract of a candidate pool\<close>

text \<open>What the dispatcher needs of its pool. \<open>size_cap\<close> bounds the number of pending correlation ids.\<close>

locale candidate_pool =
  fixes inv :: "'s \<Rightarrow> bool"
    and cands :: "bytes \<Rightarrow> 's \<Rightarrow> candidate list"
    and put :: "bytes \<Rightarrow> bytes \<Rightarrow> bytes \<Rightarrow> rat \<Rightarrow> 's \<Rightarrow> candidate result \<times> 's"
    and drop_cid :: "bytes \<Rightarrow> 's \<Rightarrow> 's"
    and sweep :: "rat \<Rightarrow> 's \<Rightarrow> int \<times> 's"
    and size_cap :: "'s \<Rightarrow> int"
  assumes inv_put: "inv s \<Longrightarrow> inv (snd (put cid pdu sent now s))"
    and inv_drop: "inv s \<Longrightarrow> inv (drop_cid cid s)"
    and inv_sweep: "inv s \<Longrightarrow> inv (snd (sweep now s))"
    and cands_drop: "inv s \<Longrightarrow> cands k (drop_cid cid s) = (if k = cid then [] else cands k s)"
    and cands_sweep: "inv s \<Longrightarrow> cands k (snd (sweep now s)) = live now (cands k s)"
    and put_ok: "inv s \<Longrightarrow> put cid pdu sent now s = (Inr c, s') \<Longrightarrow>
      cands k s' = live now (cands k s) @ (if k = cid then [c] else [])"
    and put_refused: "inv s \<Longrightarrow> put cid pdu sent now s = (Inl e, s') \<Longrightarrow>
      e = CandidateLimitExceeded \<and> cands k s' = live now (cands k s)"
    and bounded: "inv s \<Longrightarrow> distinct cids \<Longrightarrow>
      int (length (concat (map (\<lambda>cid. cands cid s) cids))) \<le> size_cap s"
    and cap_put: "inv s \<Longrightarrow> size_cap (snd (put cid pdu sent now s)) = size_cap s"
    and cap_drop: "size_cap (drop_cid cid s) = size_cap s"
    and cap_sweep: "inv s \<Longrightarrow> size_cap (snd (sweep now s)) = size_cap s"
begin

text \<open>Correlation ids that each have a candidate are at most as many as the cap.\<close>

lemma pending_bounded:
  assumes "inv s" "distinct cids" "\<And>cid. cid \<in> set cids \<Longrightarrow> cands cid s \<noteq> []"
  shows "int (length cids) \<le> size_cap s"
proof -
  have "length xs \<le> length (concat (map (\<lambda>cid. cands cid s) xs))" if "\<forall>cid \<in> set xs. cands cid s \<noteq> []" for xs
    using that
  proof (induction xs)
    case (Cons a xs)
    then have "1 \<le> length (cands a s)" by (cases "cands a s") auto
    with Cons show ?case by simp
  qed simp
  then have "length cids \<le> length (concat (map (\<lambda>cid. cands cid s) cids))"
    using assms(3) by blast
  with bounded [OF assms(1,2)] show ?thesis by linarith
qed

lemma swept_live: "inv s \<Longrightarrow> c \<in> set (cands k (snd (sweep now s))) \<Longrightarrow> now < cand_expires_at c"
  by (simp add: cands_sweep live_def is_expired_def)

lemma put_present: "inv s \<Longrightarrow> put cid pdu sent now s = (Inr c, s') \<Longrightarrow> cands cid s' \<noteq> []"
  by (simp add: put_ok)

end

lemma candidates_bounded:
  assumes "store_wf s" "distinct cids"
  shows "int (length (concat (map (\<lambda>cid. candidates_for cid s) cids))) \<le> cs_max_total s"
proof -
  have "int (length (concat (map (\<lambda>cid. case map_of d cid of None \<Rightarrow> [] | Some cs \<Rightarrow> cs) cids))) \<le> dict_size d"
    if "distinct (map fst d)" for d :: "(bytes, candidate list) dict"
    using assms(2) that
  proof (induction cids arbitrary: d)
    case (Cons k ks)
    let ?c = "\<lambda>d cid. case map_of d cid of None \<Rightarrow> [] | Some cs \<Rightarrow> cs"
    have same: "map (?c (AList.delete k d)) ks = map (?c d) ks"
      using Cons.prems(1) by (intro map_cong refl) auto
    have "int (length (concat (map (?c (AList.delete k d)) ks))) \<le> dict_size (AList.delete k d)"
      using Cons.prems by (intro Cons.IH) (auto simp: distinct_delete)
    then have "int (length (concat (map (?c d) ks))) \<le> dict_size (AList.delete k d)"
      by (simp only: same)
    with Cons.prems(2) show ?case by (simp add: dict_size_delete)
  qed (simp add: dict_size_nonneg)
  from this [OF store_wfD(1) [OF assms(1)]] store_wfD(2,3) [OF assms(1)]
  show ?thesis by (simp add: candidates_for_def)
qed

lemma add_cap: "store_wf s \<Longrightarrow> cs_max_total (snd (add cid pdu sent now s)) = cs_max_total s"
  by (simp add: add_def Let_def expire_fields)

interpretation pool: candidate_pool store_wf candidates_for add discard expire cs_max_total
proof
  show "candidates_for k s' = live now (candidates_for k s) @ (if k = cid then [c] else [])"
    if "store_wf s" "add cid pdu sent now s = (Inr c, s')" for cid pdu sent now s c s' k
    using that by (cases rule: add_cases) auto
  show "e = CandidateLimitExceeded \<and> candidates_for k s' = live now (candidates_for k s)"
    if "store_wf s" "add cid pdu sent now s = (Inl e, s')" for cid pdu sent now s e s' k
    using that by (cases rule: add_cases) auto
  show "cs_max_total (discard cid s) = cs_max_total s" for cid s
    by (simp add: discard_def)
qed (auto intro: wf_intros candidates_bounded simp: add_cap expire_fields candidates_for_discard)

end
