(* ===== verification/Dispatcher.thy ===== *)
theory Dispatcher
  imports SessionProps Candidate
begin

section \<open>\<^verbatim>\<open>dispatcher.py\<close>: arbitration between candidate handshakes\<close>

text \<open>
  \<open>dispatcher\<close> is a \<open>Dispatcher\<close> object. A \<open>Session\<close> object the code mutates through one of the dicts is
  written back to its place in the dict; an exception that is not caught leaves what had been
  mutated. The candidates, too, are objects shared with the store (\<open>update_candidates\<close>).

  The randomness of a call is \<open>rnd\<close>: the coins of the session's crank, by phase of the call,
  correlation id and position of the session in the list of that id (\<open>rnd\<close> is arbitrary, so this
  is any choice of coins).
\<close>

type_synonym rnd = "nat \<Rightarrow> bytes \<Rightarrow> nat \<Rightarrow> coins"

record dispatcher =
  dsp_config :: session_config
  dsp_candidates :: candidate_store
  dsp_established :: "(bytes, session) dict"
  dsp_responder_sessions :: "(bytes, session) dict"
  dsp_initiator_templates :: "(bytes, session) dict"
  dsp_initiator_forks :: "(bytes, session list) dict"
  dsp_outgoing_pdus :: "bytes list"
  dsp_outgoing_payloads :: "(bytes \<times> bytes) list"

definition Dispatcher_init :: "session_config option \<Rightarrow> candidate_store option \<Rightarrow> dispatcher result" where
  "Dispatcher_init config candidate_store =
     rbind (case candidate_store of
              Some store \<Rightarrow> Inr store
            | None \<Rightarrow> CandidateStore_init DEFAULT_MAX_CANDIDATES_PER_CID DEFAULT_MAX_TOTAL_CANDIDATES
                        DEFAULT_CANDIDATE_TTL_SECONDS) (\<lambda>store.
     Inr \<lparr>dsp_config = (case config of None \<Rightarrow> SessionConfig | Some c \<Rightarrow> c), dsp_candidates = store,
          dsp_established = [], dsp_responder_sessions = [], dsp_initiator_templates = [],
          dsp_initiator_forks = [], dsp_outgoing_pdus = [], dsp_outgoing_payloads = []\<rparr>)"

text \<open>\<^verbatim>\<open>except (HandshakeFailed, UnexpectedPDU)\<close>\<close>

definition caught :: "exn \<Rightarrow> bool" where
  "caught e \<longleftrightarrow> e = HandshakeFailed \<or> e = UnexpectedPDU"

subsection \<open>Bookkeeping\<close>

text \<open>The two loops of \<open>_drain\<close>: until nothing is left to poll.\<close>

function drain_pdus :: "session \<Rightarrow> bytes list \<Rightarrow> session \<times> bytes list" where
  "drain_pdus s acc =
     (if poll_pdu s then
        (case get_pdu s of
           (Inl _, s') \<Rightarrow> (s', acc)
         | (Inr pdu, s') \<Rightarrow> drain_pdus s' (acc @ [pdu]))
      else (s, acc))"
  by pat_completeness auto

termination
  by (relation "measure (\<lambda>(s, _). length (ses_outgoing_pdus s))")
    (auto simp: get_pdu_def split: sum.splits)

function drain_payloads :: "bytes \<Rightarrow> session \<Rightarrow> (bytes \<times> bytes) list \<Rightarrow> session \<times> (bytes \<times> bytes) list" where
  "drain_payloads cid s acc =
     (if poll_payload s then
        (case get_payload s of
           (Inl _, s') \<Rightarrow> (s', acc)
         | (Inr payload, s') \<Rightarrow> drain_payloads cid s' (acc @ [(cid, payload)]))
      else (s, acc))"
  by pat_completeness auto

termination
  by (relation "measure (\<lambda>(_, s, _). length (ses_outgoing_payloads s))")
    (auto simp: get_payload_def split: sum.splits)

definition drain :: "session \<Rightarrow> bytes \<Rightarrow> dispatcher \<Rightarrow> session \<times> dispatcher" where
  "drain s cid d =
     (let (s1, pdus) = drain_pdus s (dsp_outgoing_pdus d);
          (s2, payloads) = drain_payloads cid s1 (dsp_outgoing_payloads d)
      in (s2, d\<lparr>dsp_outgoing_pdus := pdus, dsp_outgoing_payloads := payloads\<rparr>))"

definition deliver :: "lib \<Rightarrow> key_lookup \<Rightarrow> coins \<Rightarrow> session \<Rightarrow> bytes \<Rightarrow> rat \<Rightarrow> bytes \<Rightarrow> dispatcher \<Rightarrow>
    unit result \<times> session \<times> dispatcher" where
  "deliver L K c s der_bytes now cid d =
     (case update_session L K c now (post_pdu der_bytes s) of
        (Inl e, s') \<Rightarrow> if caught e then (Inr (), drain s' cid d) else (Inl e, s', d)
      | (Inr _, s') \<Rightarrow> (Inr (), drain s' cid d))"

definition promote_session :: "bytes \<Rightarrow> session \<Rightarrow> dispatcher \<Rightarrow> dispatcher" where
  "promote_session cid winner d =
     d\<lparr>dsp_established := AList.update cid winner (dsp_established d),
       dsp_responder_sessions := AList.delete cid (dsp_responder_sessions d),
       dsp_initiator_forks := AList.delete cid (dsp_initiator_forks d),
       dsp_initiator_templates := AList.delete cid (dsp_initiator_templates d),
       dsp_candidates := discard cid (dsp_candidates d)\<rparr>"

definition forget_responder :: "bytes \<Rightarrow> dispatcher \<Rightarrow> dispatcher" where
  "forget_responder cid d =
     d\<lparr>dsp_responder_sessions := AList.delete cid (dsp_responder_sessions d),
       dsp_candidates := discard cid (dsp_candidates d)\<rparr>"

definition reap_responder :: "bytes \<Rightarrow> dispatcher \<Rightarrow> dispatcher" where
  "reap_responder cid d =
     (case map_of (dsp_responder_sessions d) cid of
        None \<Rightarrow> d
      | Some s \<Rightarrow>
          if ses_state s = ESTABLISHED then
            (let (s', d') = drain s cid d in promote_session cid s' d')
          else if ses_state s = DROPPED then forget_responder cid d
          else d)"

definition reconcile_expired_candidates :: "dispatcher \<Rightarrow> dispatcher" where
  "reconcile_expired_candidates d =
     (let d1 = fold (\<lambda>cid d. if candidates_for cid (dsp_candidates d) = []
                 then d\<lparr>dsp_responder_sessions := AList.delete cid (dsp_responder_sessions d)\<rparr> else d)
               (dict_keys (dsp_responder_sessions d)) d
      in fold (\<lambda>cid d. if candidates_for cid (dsp_candidates d) = [] \<and>
                   cid \<notin> set (dict_keys (dsp_established d))
               then d\<lparr>dsp_initiator_forks := AList.delete cid (dsp_initiator_forks d),
                      dsp_initiator_templates := AList.delete cid (dsp_initiator_templates d)\<rparr> else d)
           (dict_keys (dsp_initiator_forks d1)) d1)"

subsection \<open>Initiating\<close>

definition dispatcher_initiate ::
    "lib \<Rightarrow> key_lookup \<Rightarrow> coins \<Rightarrow> key_id \<Rightarrow> key_id \<Rightarrow> rat \<Rightarrow> dispatcher \<Rightarrow> bytes result \<times> dispatcher" where
  "dispatcher_initiate L K c own_key_id peer_key_id now d =
     (case initiate L K c peer_key_id now
             (Session_init INITIATOR (Some own_key_id) (Some (dsp_config d))) of
        (Inl e, _) \<Rightarrow> (Inl e, d)
      | (Inr _, primary) \<Rightarrow>
          (case ses_cid primary of
             None \<Rightarrow> (Inl TypeError, d)
           | Some cid \<Rightarrow>
               let (primary', pdus) = drain_pdus primary (dsp_outgoing_pdus d)
               in (Inr cid, d\<lparr>dsp_initiator_templates :=
                                AList.update cid primary' (dsp_initiator_templates d),
                              dsp_initiator_forks := AList.update cid [] (dsp_initiator_forks d),
                              dsp_outgoing_pdus := pdus\<rparr>)))"

subsection \<open>Routing\<close>

definition set_responder :: "bytes \<Rightarrow> session \<Rightarrow> dispatcher \<Rightarrow> dispatcher" where
  "set_responder cid s d =
     d\<lparr>dsp_responder_sessions := AList.update cid s (dsp_responder_sessions d)\<rparr>"

definition set_forks :: "bytes \<Rightarrow> session list \<Rightarrow> dispatcher \<Rightarrow> dispatcher" where
  "set_forks cid fs d = d\<lparr>dsp_initiator_forks := AList.update cid fs (dsp_initiator_forks d)\<rparr>"

definition set_established :: "bytes \<Rightarrow> session \<Rightarrow> dispatcher \<Rightarrow> dispatcher" where
  "set_established cid s d = d\<lparr>dsp_established := AList.update cid s (dsp_established d)\<rparr>"

definition forks_of :: "bytes \<Rightarrow> dispatcher \<Rightarrow> session list" where
  "forks_of cid d = (case map_of (dsp_initiator_forks d) cid of None \<Rightarrow> [] | Some fs \<Rightarrow> fs)"

text \<open>\<^verbatim>\<open>session.get_last_sent() or b""\<close>\<close>

definition last_sent_or_empty :: "session \<Rightarrow> bytes" where
  "last_sent_or_empty s = (case get_last_sent s of None \<Rightarrow> [] | Some b \<Rightarrow> b)"

definition route_session_init_request ::
    "lib \<Rightarrow> key_lookup \<Rightarrow> coins \<Rightarrow> bytes \<Rightarrow> bytes \<Rightarrow> rat \<Rightarrow> dispatcher \<Rightarrow> unit result \<times> dispatcher" where
  "route_session_init_request L K c cid der_bytes now d =
     (case map_of (dsp_responder_sessions d) cid of
        Some s \<Rightarrow>
          (case deliver L K c s der_bytes now cid d of
             (Inl e, s', d') \<Rightarrow> (Inl e, set_responder cid s' d')
           | (Inr _, s', d') \<Rightarrow> (Inr (), reap_responder cid (set_responder cid s' d')))
      | None \<Rightarrow>
          (case add cid der_bytes [] now (dsp_candidates d) of
             (Inl CandidateLimitExceeded, store) \<Rightarrow> (Inr (), d\<lparr>dsp_candidates := store\<rparr>)
           | (Inl e, store) \<Rightarrow> (Inl e, d\<lparr>dsp_candidates := store\<rparr>)
           | (Inr _, store) \<Rightarrow>
               let d1 = d\<lparr>dsp_candidates := store\<rparr>;
                   s = Session_init RESPONDER None (Some (dsp_config d1))
               in case deliver L K c s der_bytes now cid (set_responder cid s d1) of
                    (Inl e, s', d') \<Rightarrow> (Inl e, set_responder cid s' d')
                  | (Inr _, s', d') \<Rightarrow>
                      let d2 = set_responder cid s' d'
                      in if ses_state s' = INITIAL then (Inr (), forget_responder cid d2)
                         else
                           let d3 = (if ses_state s' = EXPECT_SESSION_COMPLETION_REQUEST
                                     then d2\<lparr>dsp_candidates := update_candidates cid
                                            (\<lambda>es. case es of [] \<Rightarrow> []
                                               | e # es \<Rightarrow> e\<lparr>cand_sent_pdu := last_sent_or_empty s'\<rparr> # es)
                                            (dsp_candidates d2)\<rparr>
                                     else d2)
                           in (Inr (), reap_responder cid d3)))"

text \<open>Index of the first fork whose last received PDU is this one.\<close>

fun duplicate_at :: "bytes \<Rightarrow> session list \<Rightarrow> nat option" where
  "duplicate_at der_bytes [] = None"
| "duplicate_at der_bytes (f # fs) =
     (if get_last_received f = Some der_bytes then Some 0
      else map_option Suc (duplicate_at der_bytes fs))"

definition route_session_init_response ::
    "lib \<Rightarrow> key_lookup \<Rightarrow> coins \<Rightarrow> bytes \<Rightarrow> bytes \<Rightarrow> rat \<Rightarrow> dispatcher \<Rightarrow> unit result \<times> dispatcher" where
  "route_session_init_response L K c cid der_bytes now d =
     (case map_of (dsp_initiator_templates d) cid of
        None \<Rightarrow> (Inr (), d)
      | Some template \<Rightarrow>
          (case duplicate_at der_bytes (forks_of cid d) of
             Some i \<Rightarrow>
               (case deliver L K c (forks_of cid d ! i) der_bytes now cid d of
                  (r, f', d') \<Rightarrow> (r, set_forks cid ((forks_of cid d)[i := f']) d'))
           | None \<Rightarrow>
               (case add cid der_bytes [] now (dsp_candidates d) of
                  (Inl CandidateLimitExceeded, store) \<Rightarrow> (Inr (), d\<lparr>dsp_candidates := store\<rparr>)
                | (Inl e, store) \<Rightarrow> (Inl e, d\<lparr>dsp_candidates := store\<rparr>)
                | (Inr _, store) \<Rightarrow>
                    let d1 = d\<lparr>dsp_candidates := store\<rparr>
                    in case fork L template of
                         Inl e \<Rightarrow> (Inl e, d1)
                       | Inr new_fork \<Rightarrow>
                           (case deliver L K c new_fork der_bytes now cid d1 of
                              (Inl e, f', d') \<Rightarrow> (Inl e, set_forks cid (forks_of cid d @ [f']) d')
                            | (Inr _, f', d') \<Rightarrow>
                                let d2 = set_forks cid (forks_of cid d @ [f']) d'
                                in (Inr (), d2\<lparr>dsp_candidates := update_candidates cid
                                      (map (\<lambda>e. if cand_received_pdu e = der_bytes
                                           then e\<lparr>cand_sent_pdu := last_sent_or_empty f'\<rparr> else e))
                                      (dsp_candidates d2)\<rparr>)))))"

text \<open>
  The loop of \<open>_route_to_forks\<close> over a copy of the list; \<open>before\<close> are the forks already tried, so
  \<open>before @ f' # fs\<close> is the list as mutated so far.
\<close>

fun route_to_forks_loop ::
    "lib \<Rightarrow> key_lookup \<Rightarrow> (nat \<Rightarrow> coins) \<Rightarrow> bytes \<Rightarrow> bytes \<Rightarrow> rat \<Rightarrow> session list \<Rightarrow> session list \<Rightarrow>
     dispatcher \<Rightarrow> unit result \<times> dispatcher" where
  "route_to_forks_loop L K cs cid der_bytes now before [] d = (Inr (), d)"
| "route_to_forks_loop L K cs cid der_bytes now before (f # fs) d =
     (case update_session L K (cs (length before)) now (post_pdu der_bytes f) of
        (r, f') \<Rightarrow>
          let d1 = set_forks cid (before @ f' # fs) d
          in (case r of
                Inl e \<Rightarrow> if caught e then route_to_forks_loop L K cs cid der_bytes now (before @ [f']) fs d1
                         else (Inl e, d1)
              | Inr _ \<Rightarrow>
                  if ses_state f' = ESTABLISHED then
                    (let (f'', d2) = drain f' cid d1 in (Inr (), promote_session cid f'' d2))
                  else route_to_forks_loop L K cs cid der_bytes now (before @ [f']) fs d1))"

definition route_to_forks ::
    "lib \<Rightarrow> key_lookup \<Rightarrow> (nat \<Rightarrow> coins) \<Rightarrow> bytes \<Rightarrow> bytes \<Rightarrow> rat \<Rightarrow> dispatcher \<Rightarrow> unit result \<times> dispatcher" where
  "route_to_forks L K cs cid der_bytes now d =
     route_to_forks_loop L K cs cid der_bytes now [] (forks_of cid d) d"

subsection \<open>Push in, pull out\<close>

definition dispatcher_post_pdu ::
    "lib \<Rightarrow> key_lookup \<Rightarrow> (nat \<Rightarrow> coins) \<Rightarrow> bytes \<Rightarrow> rat \<Rightarrow> dispatcher \<Rightarrow> unit result \<times> dispatcher" where
  "dispatcher_post_pdu L K cs der_bytes now d =
     (case MakeMessage_load L der_bytes of
        Inl e \<Rightarrow> if is_value_error e then (Inr (), d) else (Inl e, d)
      | Inr msg \<Rightarrow>
     (case correlation_id msg of
        Inl e \<Rightarrow> (Inl e, d)
      | Inr cid \<Rightarrow>
        (case map_of (dsp_established d) cid of
           Some s \<Rightarrow>
             (case deliver L K (cs 0) s der_bytes now cid d of
                (r, s', d') \<Rightarrow> (r, set_established cid s' d'))
         | None \<Rightarrow>
           if payload_name (mm_payload msg) = ''session_init_request''
           then route_session_init_request L K (cs 0) cid der_bytes now d
           else if payload_name (mm_payload msg) = ''session_init_response''
           then route_session_init_response L K (cs 0) cid der_bytes now d
           else
             (case map_of (dsp_responder_sessions d) cid of
                Some s \<Rightarrow>
                  (case deliver L K (cs 0) s der_bytes now cid d of
                     (Inl e, s', d') \<Rightarrow> (Inl e, set_responder cid s' d')
                   | (Inr _, s', d') \<Rightarrow> (Inr (), reap_responder cid (set_responder cid s' d')))
              | None \<Rightarrow>
                  if cid \<in> set (dict_keys (dsp_initiator_forks d))
                  then route_to_forks L K cs cid der_bytes now d
                  else (Inr (), d)))))"

definition dispatcher_post_payload :: "bytes \<Rightarrow> bytes \<Rightarrow> dispatcher \<Rightarrow> unit result \<times> dispatcher" where
  "dispatcher_post_payload cid payload d =
     (case map_of (dsp_established d) cid of
        Some s \<Rightarrow> (case post_payload payload s of (r, s') \<Rightarrow> (r, set_established cid s' d))
      | None \<Rightarrow>
     (case map_of (dsp_responder_sessions d) cid of
        Some s \<Rightarrow> (case post_payload payload s of (r, s') \<Rightarrow> (r, set_responder cid s' d))
      | None \<Rightarrow>
     (case map_of (dsp_initiator_templates d) cid of
        Some template \<Rightarrow>
          (case post_payload payload template of
             (Inl e, _) \<Rightarrow> (Inl e, d)
           | (Inr _, template') \<Rightarrow>
               let d1 = d\<lparr>dsp_initiator_templates :=
                            AList.update cid template' (dsp_initiator_templates d)\<rparr>
               in (Inr (), d1\<lparr>dsp_initiator_forks := AList.map_entry cid
                      (map (\<lambda>f. snd (post_payload payload f))) (dsp_initiator_forks d1)\<rparr>))
      | None \<Rightarrow> (Inl DispatcherError, d))))"

definition dispatcher_poll_pdu :: "dispatcher \<Rightarrow> bool" where
  "dispatcher_poll_pdu d \<longleftrightarrow> length (dsp_outgoing_pdus d) > 0"

definition dispatcher_get_pdu :: "dispatcher \<Rightarrow> bytes result \<times> dispatcher" where
  "dispatcher_get_pdu d = (case pop_front (dsp_outgoing_pdus d) of
       Inl e \<Rightarrow> (Inl e, d) | Inr (x, xs) \<Rightarrow> (Inr x, d\<lparr>dsp_outgoing_pdus := xs\<rparr>))"

definition dispatcher_poll_payload :: "dispatcher \<Rightarrow> bool" where
  "dispatcher_poll_payload d \<longleftrightarrow> length (dsp_outgoing_payloads d) > 0"

definition dispatcher_get_payload :: "dispatcher \<Rightarrow> (bytes \<times> bytes) result \<times> dispatcher" where
  "dispatcher_get_payload d = (case pop_front (dsp_outgoing_payloads d) of
       Inl e \<Rightarrow> (Inl e, d) | Inr (x, xs) \<Rightarrow> (Inr x, d\<lparr>dsp_outgoing_payloads := xs\<rparr>))"

definition close :: "bytes \<Rightarrow> dispatcher \<Rightarrow> dispatcher" where
  "close cid d = d\<lparr>dsp_established := AList.delete cid (dsp_established d)\<rparr>"

subsection \<open>The crank\<close>

fun update_established_loop ::
    "lib \<Rightarrow> key_lookup \<Rightarrow> rnd \<Rightarrow> rat \<Rightarrow> (bytes \<times> session) list \<Rightarrow> ftime \<Rightarrow> dispatcher \<Rightarrow>
     ftime result \<times> dispatcher" where
  "update_established_loop L K rnd now [] next_deadline d = (Inr next_deadline, d)"
| "update_established_loop L K rnd now ((cid, s) # rest) next_deadline d =
     (case update_session L K (rnd 0 cid 0) now s of
        (r, s') \<Rightarrow>
          let (s'', d') = drain s' cid (set_established cid s' d);
              d2 = set_established cid s'' d'
          in (case r of
                Inl e \<Rightarrow> if caught e then update_established_loop L K rnd now rest next_deadline d2
                         else (Inl e, set_established cid s' d)
              | Inr (_, deadline) \<Rightarrow>
                  update_established_loop L K rnd now rest (min next_deadline deadline) d2))"

definition update_established_sessions ::
    "lib \<Rightarrow> key_lookup \<Rightarrow> rnd \<Rightarrow> rat \<Rightarrow> ftime \<Rightarrow> dispatcher \<Rightarrow> ftime result \<times> dispatcher" where
  "update_established_sessions L K rnd now next_deadline d =
     update_established_loop L K rnd now (dsp_established d) next_deadline d"

fun update_responder_loop ::
    "lib \<Rightarrow> key_lookup \<Rightarrow> rnd \<Rightarrow> rat \<Rightarrow> bytes list \<Rightarrow> ftime \<Rightarrow> dispatcher \<Rightarrow> ftime result \<times> dispatcher" where
  "update_responder_loop L K rnd now [] next_deadline d = (Inr next_deadline, d)"
| "update_responder_loop L K rnd now (cid # cids) next_deadline d =
     (case map_of (dsp_responder_sessions d) cid of
        None \<Rightarrow> (Inl KeyError, d)
      | Some s \<Rightarrow>
          (case update_session L K (rnd 1 cid 0) now s of
             (Inl e, s') \<Rightarrow>
               if caught e then update_responder_loop L K rnd now cids next_deadline (forget_responder cid d)
               else (Inl e, set_responder cid s' d)
           | (Inr (_, deadline), s') \<Rightarrow>
               let (s'', d') = drain s' cid (set_responder cid s' d);
                   d1 = set_responder cid s'' d';
                   d2 = (if ses_state s'' = ESTABLISHED then promote_session cid s'' d1
                         else if ses_state s'' = DROPPED then forget_responder cid d1
                         else d1)
               in update_responder_loop L K rnd now cids (min next_deadline deadline) d2))"

definition update_responder_sessions ::
    "lib \<Rightarrow> key_lookup \<Rightarrow> rnd \<Rightarrow> rat \<Rightarrow> ftime \<Rightarrow> dispatcher \<Rightarrow> ftime result \<times> dispatcher" where
  "update_responder_sessions L K rnd now next_deadline d =
     update_responder_loop L K rnd now (dict_keys (dsp_responder_sessions d)) next_deadline d"

text \<open>
  The inner loop of \<open>_process_initiator_forks\<close>: the deadline, the winner and the survivors, or the
  exception that ends it, and the list of fork objects as it leaves them.
\<close>

fun crank_forks ::
    "lib \<Rightarrow> key_lookup \<Rightarrow> (nat \<Rightarrow> coins) \<Rightarrow> rat \<Rightarrow> nat \<Rightarrow> ftime \<Rightarrow> session list \<Rightarrow>
     (ftime \<times> session option \<times> session list) result \<times> session list" where
  "crank_forks L K cs now i next_deadline [] = (Inr (next_deadline, None, []), [])"
| "crank_forks L K cs now i next_deadline (f # fs) =
     (case update_session L K (cs i) now f of
        (Inl e, f') \<Rightarrow>
          if caught e then
            (case crank_forks L K cs now (Suc i) next_deadline fs of (r, fs') \<Rightarrow> (r, f' # fs'))
          else (Inl e, f' # fs)
      | (Inr (_, deadline), f') \<Rightarrow>
          if ses_state f' = ESTABLISHED then (Inr (min next_deadline deadline, Some f', []), f' # fs)
          else
            (case crank_forks L K cs now (Suc i) (min next_deadline deadline) fs of
               (Inl e, fs') \<Rightarrow> (Inl e, f' # fs')
             | (Inr (nd, winner, surviving), fs') \<Rightarrow>
                 (Inr (nd, winner, if ses_state f' \<noteq> DROPPED then f' # surviving else surviving), f' # fs')))"

fun process_initiator_forks_loop ::
    "lib \<Rightarrow> key_lookup \<Rightarrow> rnd \<Rightarrow> rat \<Rightarrow> bytes list \<Rightarrow> ftime \<Rightarrow> dispatcher \<Rightarrow> ftime result \<times> dispatcher" where
  "process_initiator_forks_loop L K rnd now [] next_deadline d = (Inr next_deadline, d)"
| "process_initiator_forks_loop L K rnd now (cid # cids) next_deadline d =
     (case map_of (dsp_initiator_forks d) cid of
        None \<Rightarrow> (Inl KeyError, d)
      | Some forks \<Rightarrow>
          (case crank_forks L K (rnd 2 cid) now 0 next_deadline forks of
             (Inl e, forks') \<Rightarrow> (Inl e, set_forks cid forks' d)
           | (Inr (nd, winner, surviving), forks') \<Rightarrow>
               let d1 = (case winner of
                     Some w \<Rightarrow> (let (w', d') = drain w cid (set_forks cid forks' d)
                                 in promote_session cid w' d')
                   | None \<Rightarrow>
                       if surviving \<noteq> [] then set_forks cid surviving d
                       else d\<lparr>dsp_initiator_forks := AList.delete cid (dsp_initiator_forks d),
                              dsp_initiator_templates := AList.delete cid (dsp_initiator_templates d),
                              dsp_candidates := discard cid (dsp_candidates d)\<rparr>)
               in process_initiator_forks_loop L K rnd now cids nd d1))"

definition process_initiator_forks ::
    "lib \<Rightarrow> key_lookup \<Rightarrow> rnd \<Rightarrow> rat \<Rightarrow> ftime \<Rightarrow> dispatcher \<Rightarrow> ftime result \<times> dispatcher" where
  "process_initiator_forks L K rnd now next_deadline d =
     process_initiator_forks_loop L K rnd now (dict_keys (dsp_initiator_forks d)) next_deadline d"

definition dispatcher_update ::
    "lib \<Rightarrow> key_lookup \<Rightarrow> rnd \<Rightarrow> rat \<Rightarrow> dispatcher \<Rightarrow> (update_result \<times> ftime) result \<times> dispatcher" where
  "dispatcher_update L K rnd now d =
     (let d0 = reconcile_expired_candidates
                 (d\<lparr>dsp_candidates := snd (expire now (dsp_candidates d))\<rparr>)
      in sseq (update_established_sessions L K rnd now Infinity d0) (\<lambda>nd1 d1.
         sseq (update_responder_sessions L K rnd now nd1 d1) (\<lambda>nd2 d2.
         sseq (process_initiator_forks L K rnd now nd2 d2) (\<lambda>nd3 d3.
           let next_deadline = (if nd3 = Infinity
                  then Fin (now + cfg_retry_interval_seconds (dsp_config d3)) else nd3)
           in (Inr (next_update_result dispatcher_poll_payload dispatcher_poll_pdu d3 next_deadline), d3)))))"

end
