(* ===== verification/DispatcherInv.thy ===== *)
theory DispatcherInv
  imports Dispatcher
begin

section \<open>The dispatcher invariant\<close>

text \<open>
  \<open>owned cid s\<close>: a session the dispatcher keeps under \<open>cid\<close> is well formed, has no PDU waiting unless it
  is dropped (every posted PDU is processed at once) and, once it has left \<open>INITIAL\<close>, carries that correlation id.
  \<open>dispatcher_wf\<close>: the dicts have one entry per id, templates and forks have the same ids, an
  established id is not pending in any role, and every session has the role and the state of the dict
  it is in. Every public method keeps it, on every path out of it.
\<close>

declare drain_pdus.simps [simp del] drain_payloads.simps [simp del]

subsection \<open>The drain loops empty the queues\<close>

lemma drain_pdus_eq:
  "drain_pdus s acc = (s\<lparr>ses_outgoing_pdus := []\<rparr>, acc @ ses_outgoing_pdus s)"
proof (induction "ses_outgoing_pdus s" arbitrary: s acc)
  case Nil
  then show ?case by (subst drain_pdus.simps) (simp add: poll_pdu_def)
next
  case (Cons x xs)
  then have "get_pdu s = (Inr x, s\<lparr>ses_outgoing_pdus := xs\<rparr>)" "poll_pdu s"
    by (simp_all add: get_pdu_def poll_pdu_def flip: Cons.hyps(2))
  with Cons.hyps(1) [of "s\<lparr>ses_outgoing_pdus := xs\<rparr>"] Cons.hyps(2) [symmetric] show ?case
    by (subst drain_pdus.simps) simp
qed

lemma drain_payloads_eq:
  "drain_payloads cid s acc =
     (s\<lparr>ses_outgoing_payloads := []\<rparr>, acc @ map (Pair cid) (ses_outgoing_payloads s))"
proof (induction "ses_outgoing_payloads s" arbitrary: s acc)
  case Nil
  then show ?case by (subst drain_payloads.simps) (simp add: poll_payload_def)
next
  case (Cons x xs)
  then have "get_payload s = (Inr x, s\<lparr>ses_outgoing_payloads := xs\<rparr>)" "poll_payload s"
    by (simp_all add: get_payload_def poll_payload_def flip: Cons.hyps(2))
  with Cons.hyps(1) [of "s\<lparr>ses_outgoing_payloads := xs\<rparr>"] Cons.hyps(2) [symmetric] show ?case
    by (subst drain_payloads.simps) simp
qed

definition drained :: "session \<Rightarrow> session" where
  "drained s = s\<lparr>ses_outgoing_pdus := [], ses_outgoing_payloads := []\<rparr>"

definition collected :: "session \<Rightarrow> bytes \<Rightarrow> dispatcher \<Rightarrow> dispatcher" where
  "collected s cid d = d\<lparr>dsp_outgoing_pdus := dsp_outgoing_pdus d @ ses_outgoing_pdus s,
     dsp_outgoing_payloads := dsp_outgoing_payloads d @ map (Pair cid) (ses_outgoing_payloads s)\<rparr>"

lemma drain_eq: "drain s cid d = (drained s, collected s cid d)"
  by (simp add: drain_def drain_pdus_eq drain_payloads_eq drained_def collected_def)

lemma drained_state [simp]:
  "ses_state (drained s) = ses_state s" "ses_role (drained s) = ses_role s"
  "ses_cid (drained s) = ses_cid s"
  by (simp_all add: drained_def)

lemma collected_fields [simp]:
  "dsp_established (collected s cid d) = dsp_established d"
  "dsp_responder_sessions (collected s cid d) = dsp_responder_sessions d"
  "dsp_initiator_templates (collected s cid d) = dsp_initiator_templates d"
  "dsp_initiator_forks (collected s cid d) = dsp_initiator_forks d"
  "dsp_candidates (collected s cid d) = dsp_candidates d"
  "dsp_config (collected s cid d) = dsp_config d"
  by (simp_all add: collected_def)

subsection \<open>Sessions the dispatcher owns\<close>

definition owned :: "bytes \<Rightarrow> session \<Rightarrow> bool" where
  "owned cid s \<longleftrightarrow> session_wf s \<and> (ses_state s \<noteq> DROPPED \<longrightarrow> ses_incoming_queue s = []) \<and>
     (ses_state s \<noteq> INITIAL \<longrightarrow> ses_cid s = Some cid)"

lemma owned_drained: "owned cid s \<Longrightarrow> owned cid (drained s)"
  by (auto simp: owned_def drained_def intro: session_wf_queue)

lemma owned_post_payload: "owned cid s \<Longrightarrow> owned cid (snd (post_payload p s))"
  using session_wf_post_payload [of s p] by (auto simp: owned_def post_payload_def split: if_splits)

text \<open>What the two later phases of the crank keep, and what processing a PDU of this id keeps.\<close>

definition same_cid :: "session \<Rightarrow> session \<Rightarrow> bool" where
  "same_cid s s' \<longleftrightarrow> ses_cid s' = ses_cid s \<and> ses_incoming_queue s' = ses_incoming_queue s"

lemma send_same_cid: "send_established_payload L s = (r, s') \<Longrightarrow> same_cid s s'"
  by (erule send_established_payload_cases) (auto simp: same_cid_def bump_outgoing_seq_def)

lemma timeout_same_cid: "same_cid s (on_timeout now s)"
  by (auto simp: same_cid_def on_timeout_def Let_def split: option.split)

lemma owned_process:
  assumes "process_incoming L K c now der s = (r, s')" "owned cid s"
    and "MakeMessage_load L der = Inr msg" "mm_cid msg = cid"
  shows "owned cid s'"
proof -
  have wf: "session_wf s'"
    using session_wf_process_incoming [of s L K c now der] assms by (simp add: owned_def)
  have "(ses_state s' \<noteq> DROPPED \<longrightarrow> ses_incoming_queue s' = []) \<and> (ses_state s' \<noteq> INITIAL \<longrightarrow> ses_cid s' = Some cid)"
    using assms(1)
  proof (cases rule: process_incoming_cases)
    case (request msg req)
    from request(6) request assms show ?thesis
      by (cases rule: handle_session_init_request_cases) (auto simp: owned_def)
  next
    case (response msg resp)
    from response(7) response assms show ?thesis
      by (cases rule: handle_session_init_response_cases) (auto simp: owned_def)
  next
    case (completion_request msg req)
    from completion_request(7) completion_request assms show ?thesis
      by (cases rule: handle_session_completion_request_cases)
        (auto simp: owned_def clear_replied_def deliver_payload_def)
  next
    case (completion_response msg resp)
    from completion_response(7) completion_response assms show ?thesis
      by (cases rule: handle_session_completion_response_cases)
        (auto simp: owned_def split: option.splits)
  next
    case (message msg inner)
    from message(6) message assms show ?thesis
      by (cases rule: handle_established_message_cases) (auto simp: owned_def bump_incoming_seq_def)
  qed (use assms(2) in \<open>auto simp: owned_def resend_def split: option.split\<close>)
  with wf show ?thesis by (simp add: owned_def)
qed

lemma owned_later_phases:
  assumes "owned cid sa"
  shows "owned cid (snd (sseq (if ses_state sa = ESTABLISHED \<and> ses_pending_payload sa \<noteq> None
         then send_established_payload L sa else (Inr (), sa)) (\<lambda>_ sb.
        if ses_state sb = DROPPED then (Inr (SESSION_DROPPED, Infinity), sb)
        else let sc = (if timed_out now sb then on_timeout now sb else sb)
             in (Inr (update_outcome now sc), sc))))"
proof (rule sseq_inv)
  show "owned cid (snd (if ses_state sa = ESTABLISHED \<and> ses_pending_payload sa \<noteq> None
         then send_established_payload L sa else (Inr (), sa)))"
    using assms session_wf_send [of sa L] send_same_cid [of L sa]
    by (cases "send_established_payload L sa") (auto simp: owned_def same_cid_def
        dest: session_wfD(5) simp: carries_traffic_def has_cid_def)
next
  fix x sb
  assume o: "owned cid sb"
  then have "owned cid (on_timeout now sb)" if "timed_out now sb" "ses_state sb \<noteq> DROPPED"
    using that timeout_same_cid [of sb now] session_wf_on_timeout [of sb now]
    by (auto simp: owned_def same_cid_def timed_out_def)
  with o show "owned cid (snd (if ses_state sb = DROPPED then (Inr (SESSION_DROPPED, Infinity), sb)
        else let sc = (if timed_out now sb then on_timeout now sb else sb)
             in (Inr (update_outcome now sc), sc)))"
    by (simp add: Let_def)
qed

lemma owned_update:
  assumes "owned cid s"
  shows "owned cid (snd (update_session L K c now s))"
  using assms owned_later_phases [OF assms, of L now]
  by (simp add: update_session_def owned_def [of cid s])

lemma owned_update_posted:
  assumes "owned cid s" "MakeMessage_load L der = Inr msg" "mm_cid msg = cid"
  shows "owned cid (snd (update_session L K c now (post_pdu der s)))"
proof (cases "ses_state s = DROPPED")
  case True
  then show ?thesis
    using assms(1) session_wf_post_pdu [of s der] by (auto simp: update_session_def post_pdu_def owned_def)
next
  case False
  have q: "ses_incoming_queue s = []" using assms(1) False by (simp add: owned_def)
  then have e: "(post_pdu der s)\<lparr>ses_incoming_queue := []\<rparr> = s"
    by (simp add: post_pdu_def)
  obtain r s' where p: "process_incoming L K c now der s = (r, s')" by fastforce
  have "owned cid s'" by (rule owned_process [OF p assms])
  then have "owned cid (snd (sseq (process_incoming L K c now der s) (\<lambda>_ sa.
        sseq (if ses_state sa = ESTABLISHED \<and> ses_pending_payload sa \<noteq> None
              then send_established_payload L sa else (Inr (), sa)) (\<lambda>_ sb.
        if ses_state sb = DROPPED then (Inr (SESSION_DROPPED, Infinity), sb)
        else let sc = (if timed_out now sb then on_timeout now sb else sb)
             in (Inr (update_outcome now sc), sc)))))"
    using owned_later_phases [of cid s'] p by (cases r) auto
  moreover have "ses_incoming_queue (post_pdu der s) = [der]" "ses_state (post_pdu der s) \<noteq> DROPPED"
    using q False by (simp_all add: post_pdu_def)
  ultimately show ?thesis
    using e by (simp add: update_session_def)
qed

subsection \<open>The invariant\<close>

definition established_ok :: "bytes \<Rightarrow> session \<Rightarrow> bool" where
  "established_ok cid s \<longleftrightarrow> owned cid s \<and> ses_state s = ESTABLISHED"

definition responder_ok :: "bytes \<Rightarrow> session \<Rightarrow> bool" where
  "responder_ok cid s \<longleftrightarrow> owned cid s \<and> ses_role s = RESPONDER"

definition template_ok :: "bytes \<Rightarrow> session \<Rightarrow> bool" where
  "template_ok cid s \<longleftrightarrow> owned cid s \<and> ses_role s = INITIATOR \<and> ses_state s = EXPECT_SESSION_INIT_RESPONSE"

definition fork_ok :: "bytes \<Rightarrow> session \<Rightarrow> bool" where
  "fork_ok cid s \<longleftrightarrow> owned cid s \<and> ses_role s = INITIATOR \<and> ses_state s \<noteq> INITIAL"

definition keys :: "('k \<times> 'v) list \<Rightarrow> 'k set" where
  "keys d = fst ` set d"

definition all_entries :: "('k \<Rightarrow> 'v \<Rightarrow> bool) \<Rightarrow> ('k \<times> 'v) list \<Rightarrow> bool" where
  "all_entries P d \<longleftrightarrow> (\<forall>(k, v) \<in> set d. P k v)"

definition dispatcher_wf :: "dispatcher \<Rightarrow> bool" where
  "dispatcher_wf d \<longleftrightarrow> store_wf (dsp_candidates d) \<and>
     distinct (map fst (dsp_established d)) \<and> distinct (map fst (dsp_responder_sessions d)) \<and>
     distinct (map fst (dsp_initiator_templates d)) \<and> distinct (map fst (dsp_initiator_forks d)) \<and>
     keys (dsp_initiator_templates d) = keys (dsp_initiator_forks d) \<and>
     (\<forall>k \<in> keys (dsp_established d). k \<notin> keys (dsp_responder_sessions d) \<and> k \<notin> keys (dsp_initiator_forks d)) \<and>
     all_entries established_ok (dsp_established d) \<and>
     all_entries responder_ok (dsp_responder_sessions d) \<and>
     all_entries template_ok (dsp_initiator_templates d) \<and>
     all_entries (\<lambda>cid fs. \<forall>f \<in> set fs. fork_ok cid f) (dsp_initiator_forks d)"

lemma keys_update [simp]: "keys (AList.update k v d) = insert k (keys d)"
  by (simp add: keys_def dom_update)

lemma keys_delete [simp]: "keys (AList.delete k d) = keys d - {k}"
  by (auto simp: keys_def set_dict_delete)

lemma map_of_keys: "map_of d k = Some v \<Longrightarrow> k \<in> keys d" "map_of d k = None \<longleftrightarrow> k \<notin> keys d"
  by (force simp: keys_def map_of_eq_None_iff dest: map_of_SomeD)+

lemma dict_keys_set [simp]: "set (dict_keys d) = keys d"
  by (simp add: dict_keys_def keys_def)

lemma dispatcher_wfD:
  assumes "dispatcher_wf d"
  shows "store_wf (dsp_candidates d)"
    and "map_of (dsp_established d) cid = Some s \<Longrightarrow> established_ok cid s"
    and "map_of (dsp_responder_sessions d) cid = Some s \<Longrightarrow> responder_ok cid s"
    and "map_of (dsp_initiator_templates d) cid = Some s \<Longrightarrow> template_ok cid s"
    and "map_of (dsp_initiator_forks d) cid = Some fs \<Longrightarrow> f \<in> set fs \<Longrightarrow> fork_ok cid f"
    and "keys (dsp_initiator_templates d) = keys (dsp_initiator_forks d)"
    and "k \<in> keys (dsp_established d) \<Longrightarrow> k \<notin> keys (dsp_responder_sessions d) \<and> k \<notin> keys (dsp_initiator_forks d)"
  using assms by (auto simp: dispatcher_wf_def all_entries_def dest!: map_of_SomeD)

lemma all_entries_update: "all_entries P d \<Longrightarrow> P cid x \<Longrightarrow> all_entries P (AList.update cid x d)"
  using set_update_subset [of cid x d] by (auto simp: all_entries_def)

lemma all_entries_delete: "all_entries P d \<Longrightarrow> all_entries P (AList.delete cid d)"
  by (auto simp: all_entries_def set_dict_delete)

lemmas wf_dict = all_entries_update all_entries_delete distinct_update distinct_delete

lemma dispatcher_wf_candidates [wf_intros]:
  "dispatcher_wf d \<Longrightarrow> store_wf store \<Longrightarrow> dispatcher_wf (d\<lparr>dsp_candidates := store\<rparr>)"
  by (simp add: dispatcher_wf_def)

lemma dispatcher_wf_outgoing [wf_intros]:
  "dispatcher_wf d \<Longrightarrow> dispatcher_wf (d\<lparr>dsp_outgoing_pdus := ps\<rparr>)"
  "dispatcher_wf d \<Longrightarrow> dispatcher_wf (d\<lparr>dsp_outgoing_payloads := pls\<rparr>)"
  "dispatcher_wf d \<Longrightarrow> dispatcher_wf (collected s cid d)"
  by (simp_all add: dispatcher_wf_def)

lemma dispatcher_wf_set_established [wf_intros]:
  "dispatcher_wf d \<Longrightarrow> established_ok cid s \<Longrightarrow> cid \<in> keys (dsp_established d) \<Longrightarrow>
   dispatcher_wf (set_established cid s d)"
  unfolding dispatcher_wf_def set_established_def
  by (auto intro!: wf_dict)

lemma dispatcher_wf_set_responder [wf_intros]:
  "dispatcher_wf d \<Longrightarrow> responder_ok cid s \<Longrightarrow> cid \<notin> keys (dsp_established d) \<Longrightarrow>
   dispatcher_wf (set_responder cid s d)"
  unfolding dispatcher_wf_def set_responder_def
  by (auto intro!: wf_dict)

lemma dispatcher_wf_set_forks [wf_intros]:
  "dispatcher_wf d \<Longrightarrow> (\<And>f. f \<in> set fs \<Longrightarrow> fork_ok cid f) \<Longrightarrow> cid \<in> keys (dsp_initiator_forks d) \<Longrightarrow>
   dispatcher_wf (set_forks cid fs d)"
  unfolding dispatcher_wf_def set_forks_def
  by (auto intro!: wf_dict)

lemma dispatcher_wf_promote [wf_intros]:
  "dispatcher_wf d \<Longrightarrow> established_ok cid w \<Longrightarrow> dispatcher_wf (promote_session cid w d)"
  unfolding dispatcher_wf_def promote_session_def
  by (auto intro!: wf_dict store_wf_discard)

lemma dispatcher_wf_forget [wf_intros]:
  "dispatcher_wf d \<Longrightarrow> dispatcher_wf (forget_responder cid d)"
  unfolding dispatcher_wf_def forget_responder_def
  by (auto intro!: wf_dict store_wf_discard)

lemma dispatcher_wf_drop_responder [wf_intros]:
  "dispatcher_wf d \<Longrightarrow>
   dispatcher_wf (d\<lparr>dsp_responder_sessions := AList.delete cid (dsp_responder_sessions d)\<rparr>)"
  unfolding dispatcher_wf_def by (auto intro!: wf_dict)

lemma dispatcher_wf_drop_initiator [wf_intros]:
  "dispatcher_wf d \<Longrightarrow>
   dispatcher_wf (d\<lparr>dsp_initiator_forks := AList.delete cid (dsp_initiator_forks d),
      dsp_initiator_templates := AList.delete cid (dsp_initiator_templates d)\<rparr>)"
  unfolding dispatcher_wf_def by (auto intro!: wf_dict)

lemma dispatcher_wf_close [wf_intros]: "dispatcher_wf d \<Longrightarrow> dispatcher_wf (close cid d)"
  unfolding dispatcher_wf_def close_def by (auto intro!: wf_dict)

subsection \<open>The crank of an owned session\<close>

lemma edge_not_initial:
  "(handshake_edge r)\<^sup>*\<^sup>* st st' \<Longrightarrow> st \<noteq> INITIAL \<Longrightarrow> st' \<noteq> INITIAL"
  by (induction rule: rtranclp_induct) (auto elim: handshake_edge.cases)

definition role_ok :: "(bytes \<Rightarrow> session \<Rightarrow> bool) \<Rightarrow> bool" where
  "role_ok P \<longleftrightarrow> (\<forall>cid s s'. P cid s \<longrightarrow> owned cid s' \<longrightarrow> moves_forward s s' \<longrightarrow> P cid s')"

lemma role_ok_all: "role_ok established_ok" "role_ok responder_ok" "role_ok fork_ok"
  using edge_absorbing edge_not_initial
  by (fastforce simp: role_ok_def established_ok_def responder_ok_def fork_ok_def moves_forward_def)+

lemma ok_owned: "established_ok cid s \<Longrightarrow> owned cid s" "responder_ok cid s \<Longrightarrow> owned cid s"
  "fork_ok cid s \<Longrightarrow> owned cid s" "template_ok cid s \<Longrightarrow> owned cid s"
  by (simp_all add: established_ok_def responder_ok_def fork_ok_def template_ok_def)

lemma role_ok_update:
  assumes "role_ok P" "P cid s" "owned cid s"
  shows "P cid (snd (update_session L K c now s))"
  using assms owned_update moves_forward_update unfolding role_ok_def owned_def by blast

lemma role_ok_update_posted:
  assumes "role_ok P" "P cid s" "owned cid s" "MakeMessage_load L der = Inr msg" "mm_cid msg = cid"
  shows "P cid (snd (update_session L K c now (post_pdu der s)))"
proof -
  have "owned cid (snd (update_session L K c now (post_pdu der s)))"
    by (rule owned_update_posted [OF assms(3-5)])
  moreover have "moves_forward s (snd (update_session L K c now (post_pdu der s)))"
    using moves_forward_trans [OF moves_forward_queues(2) moves_forward_update] assms(3)
    by (simp add: owned_def session_wf_post_pdu)
  ultimately show ?thesis using assms(1,2) unfolding role_ok_def by blast
qed

lemma moves_forward_drained: "moves_forward s (drained s)"
  by (simp add: moves_forward_def drained_def)

lemma role_ok_drained: "role_ok P \<Longrightarrow> P cid s \<Longrightarrow> owned cid s \<Longrightarrow> P cid (drained s)"
  using owned_drained [of cid s] moves_forward_drained [of s] unfolding role_ok_def by blast

lemma deliver_cases:
  assumes "deliver L K c s der now cid d = (r, s', d')"
  obtains (delivered) "r = Inr ()"
      "s' = drained (snd (update_session L K c now (post_pdu der s)))"
      "d' = collected (snd (update_session L K c now (post_pdu der s))) cid d"
  | (raised) e where "r = Inl e" "\<not> caught e"
      "s' = snd (update_session L K c now (post_pdu der s))" "d' = d"
  using assms by (auto simp: deliver_def drain_eq split: prod.splits sum.splits if_splits)

lemma deliver_ok:
  assumes "deliver L K c s der now cid d = (r, s', d')" "role_ok P" "P cid s" "owned cid s"
    and "MakeMessage_load L der = Inr msg" "mm_cid msg = cid"
  shows "P cid s' \<and> owned cid s'"
proof -
  have o: "owned cid (snd (update_session L K c now (post_pdu der s)))"
    by (rule owned_update_posted [OF assms(4-6)])
  have p: "P cid (snd (update_session L K c now (post_pdu der s)))"
    by (rule role_ok_update_posted [OF assms(2-6)])
  from assms(1) show ?thesis
    by (cases rule: deliver_cases) (use o p assms(2) in \<open>auto intro: role_ok_drained owned_drained\<close>)
qed

lemma deliver_fields:
  assumes "deliver L K c s der now cid d = (r, s', d')"
  shows "dsp_established d' = dsp_established d" "dsp_responder_sessions d' = dsp_responder_sessions d"
    "dsp_initiator_templates d' = dsp_initiator_templates d"
    "dsp_initiator_forks d' = dsp_initiator_forks d" "dsp_candidates d' = dsp_candidates d"
    "dsp_config d' = dsp_config d"
  using assms by (cases rule: deliver_cases; simp)+

lemma deliver_wf: "deliver L K c s der now cid d = (r, s', d') \<Longrightarrow> dispatcher_wf d \<Longrightarrow> dispatcher_wf d'"
  by (cases rule: deliver_cases) (auto intro: dispatcher_wf_outgoing)

subsection \<open>Every operation keeps the invariant\<close>

lemma dispatcher_wf_init:
  assumes "Dispatcher_init config store = Inr d" "\<And>st. store = Some st \<Longrightarrow> store_wf st"
  shows "dispatcher_wf d"
  using assms store_wf_init
  by (auto simp: Dispatcher_init_def dispatcher_wf_def keys_def all_entries_def split: option.splits)

lemma dispatcher_wf_reap:
  assumes "dispatcher_wf d"
  shows "dispatcher_wf (reap_responder cid d)"
proof (cases "map_of (dsp_responder_sessions d) cid")
  case (Some s)
  have "responder_ok cid s" using dispatcher_wfD(3) [OF assms Some] .
  then have "established_ok cid (drained s)" if "ses_state s = ESTABLISHED"
    using that by (simp add: established_ok_def responder_ok_def owned_drained)
  with Some assms show ?thesis
    by (auto simp: reap_responder_def drain_eq intro: wf_intros)
qed (simp add: reap_responder_def assms)

lemma dispatcher_wf_reconcile:
  assumes "dispatcher_wf d"
  shows "dispatcher_wf (reconcile_expired_candidates d)"
proof -
  have "dispatcher_wf (fold (\<lambda>cid d. if candidates_for cid (dsp_candidates d) = []
      then d\<lparr>dsp_responder_sessions := AList.delete cid (dsp_responder_sessions d)\<rparr> else d) cids d)"
    if "dispatcher_wf d" for cids d
    using that by (induction cids arbitrary: d) (auto intro: wf_intros)
  moreover have "dispatcher_wf (fold (\<lambda>cid d. if candidates_for cid (dsp_candidates d) = [] \<and>
        cid \<notin> set (dict_keys (dsp_established d))
      then d\<lparr>dsp_initiator_forks := AList.delete cid (dsp_initiator_forks d),
             dsp_initiator_templates := AList.delete cid (dsp_initiator_templates d)\<rparr> else d) cids d)"
    if "dispatcher_wf d" for cids d
    using that by (induction cids arbitrary: d) (auto intro: wf_intros)
  ultimately show ?thesis using assms by (simp add: reconcile_expired_candidates_def Let_def)
qed

lemma dispatcher_wf_initiate:
  assumes "dispatcher_wf d" "coin_uuid4 c \<notin> keys (dsp_established d)"
  shows "dispatcher_wf (snd (dispatcher_initiate L K c own peer now d))"
proof (cases "initiate L K c peer now (Session_init INITIATOR (Some own) (Some (dsp_config d)))")
  case (Pair r s)
  show ?thesis
  proof (cases r)
    case (Inl e)
    with Pair assms show ?thesis by (simp add: dispatcher_initiate_def)
  next
    case (Inr u)
    have "session_wf s"
      using session_wf_initiate [OF session_wf_init, of L K c peer now INITIATOR "Some own" "Some (dsp_config d)"]
        Pair by simp
    moreover from Pair Inr have s: "ses_cid s = Some (coin_uuid4 c)" "ses_role s = INITIATOR"
        "ses_state s = EXPECT_SESSION_INIT_RESPONSE" "ses_incoming_queue s = []"
      by (auto elim!: initiate_cases simp: Session_init_def)
    ultimately have "template_ok (coin_uuid4 c) (s\<lparr>ses_outgoing_pdus := []\<rparr>)"
      by (simp add: template_ok_def owned_def session_wf_queue)
    with Pair Inr assms s show ?thesis
      unfolding dispatcher_initiate_def
      by (auto simp: drain_pdus_eq dispatcher_wf_def intro!: wf_dict)
  qed
qed

lemma dispatcher_wf_route_request:
  assumes "dispatcher_wf d" "cid \<notin> keys (dsp_established d)"
    and msg: "MakeMessage_load L der = Inr msg" "mm_cid msg = cid"
  shows "dispatcher_wf (snd (route_session_init_request L K c cid der now d))"
proof (cases "map_of (dsp_responder_sessions d) cid")
  case (Some s)
  note r = dispatcher_wfD(3) [OF assms(1) Some]
  obtain x s' d' where dl: "deliver L K c s der now cid d = (x, s', d')"
    by (cases "deliver L K c s der now cid d")
  have "responder_ok cid s'"
    using deliver_ok [OF dl role_ok_all(2) r ok_owned(2) [OF r] msg] by simp
  then have "dispatcher_wf (set_responder cid s' d')"
    using deliver_wf [OF dl assms(1)] assms(2) deliver_fields(1) [OF dl]
    by (intro dispatcher_wf_set_responder) simp_all
  with Some dl show ?thesis
    by (auto simp: route_session_init_request_def intro: dispatcher_wf_reap split: sum.split)
next
  case None
  obtain a store where ad: "add cid der [] now (dsp_candidates d) = (a, store)" by fastforce
  have st: "store_wf store"
    using store_wf_add [OF dispatcher_wfD(1) [OF assms(1)], of cid der "[]" now] ad by simp
  then have d1: "dispatcher_wf (d\<lparr>dsp_candidates := store\<rparr>)"
    using assms(1) by (rule dispatcher_wf_candidates [rotated])
  show ?thesis
  proof (cases a)
    case (Inl e)
    then show ?thesis
      using None ad d1 by (cases e) (simp_all add: route_session_init_request_def)
  next
    case (Inr cand)
    let ?s = "Session_init RESPONDER None (Some (dsp_config d))"
    let ?d1 = "set_responder cid ?s (d\<lparr>dsp_candidates := store\<rparr>)"
    have ro: "responder_ok cid ?s"
      using session_wf_init by (simp add: responder_ok_def owned_def) (simp add: Session_init_def)
    have wf1: "dispatcher_wf ?d1"
      using d1 ro assms(2) by (intro dispatcher_wf_set_responder) simp_all
    obtain x s' d' where dl: "deliver L K c ?s der now cid ?d1 = (x, s', d')"
      by (cases "deliver L K c ?s der now cid ?d1")
    have "responder_ok cid s'"
      using deliver_ok [OF dl role_ok_all(2) ro ok_owned(2) [OF ro] msg] by simp
    then have wf2: "dispatcher_wf (set_responder cid s' d')"
      using deliver_wf [OF dl wf1] assms(2) deliver_fields(1) [OF dl]
      by (intro dispatcher_wf_set_responder) (simp_all add: set_responder_def)
    have wf3: "dispatcher_wf ((set_responder cid s' d')\<lparr>dsp_candidates := update_candidates cid
        (\<lambda>es. case es of [] \<Rightarrow> [] | e # es \<Rightarrow> e\<lparr>cand_sent_pdu := last_sent_or_empty s'\<rparr> # es)
        (dsp_candidates (set_responder cid s' d'))\<rparr>)"
      by (intro dispatcher_wf_candidates wf2 store_wf_update_candidates dispatcher_wfD(1) [OF wf2])
        (auto split: list.splits)
    show ?thesis
      using None ad Inr dl wf2 wf3
      by (auto simp: route_session_init_request_def Let_def
          intro: dispatcher_wf_reap dispatcher_wf_forget split: sum.split)
  qed
qed

lemma duplicate_at_nth:
  "duplicate_at der fs = Some i \<Longrightarrow> i < length fs \<and> get_last_received (fs ! i) = Some der"
  by (induction fs arbitrary: i) (auto split: if_splits)

lemma forks_of_ok: "dispatcher_wf d \<Longrightarrow> f \<in> set (forks_of cid d) \<Longrightarrow> fork_ok cid f"
  by (cases "map_of (dsp_initiator_forks d) cid") (auto simp: forks_of_def dest: dispatcher_wfD(5))

lemma fork_of_template:
  assumes "template_ok cid s" "fork L s = Inr s'"
  shows "fork_ok cid s'"
proof -
  have "session_wf s'" using assms session_wf_fork by (auto simp: template_ok_def owned_def)
  moreover have "ses_cid s' = ses_cid s" "ses_role s' = ses_role s" "ses_incoming_queue s' = []"
      "ses_state s' = EXPECT_SESSION_INIT_RESPONSE"
    using assms(2) by (auto simp: fork_def Let_def Session_init_def split: if_splits)
  ultimately show ?thesis using assms(1) by (simp add: fork_ok_def template_ok_def owned_def)
qed

lemma dispatcher_wf_route_response:
  assumes "dispatcher_wf d" and msg: "MakeMessage_load L der = Inr msg" "mm_cid msg = cid"
  shows "dispatcher_wf (snd (route_session_init_response L K c cid der now d))"
proof (cases "map_of (dsp_initiator_templates d) cid")
  case None
  with assms show ?thesis by (simp add: route_session_init_response_def)
next
  case (Some template)
  then have key: "cid \<in> keys (dsp_initiator_forks d)"
    using dispatcher_wfD(6) [OF assms(1)] map_of_keys(1) by metis
  show ?thesis
  proof (cases "duplicate_at der (forks_of cid d)")
    case (Some i)
    then have i: "i < length (forks_of cid d)" using duplicate_at_nth by blast
    then have f: "fork_ok cid (forks_of cid d ! i)" using forks_of_ok [OF assms(1)] by simp
    obtain x s' d' where dl: "deliver L K c (forks_of cid d ! i) der now cid d = (x, s', d')"
      by (cases "deliver L K c (forks_of cid d ! i) der now cid d")
    have "fork_ok cid s'"
      using deliver_ok [OF dl role_ok_all(3) f ok_owned(3) [OF f] msg] by simp
    moreover have "\<And>f. f \<in> set ((forks_of cid d)[i := s']) \<Longrightarrow> f = s' \<or> f \<in> set (forks_of cid d)"
      using set_update_subset_insert by fast
    ultimately have "dispatcher_wf (set_forks cid ((forks_of cid d)[i := s']) d')"
      using deliver_wf [OF dl assms(1)] key deliver_fields(4) [OF dl] forks_of_ok [OF assms(1)]
      by (intro dispatcher_wf_set_forks) auto
    with Some \<open>map_of (dsp_initiator_templates d) cid = Some template\<close> dl show ?thesis
      by (simp add: route_session_init_response_def)
  next
    case nodup: None
    obtain a store where ad: "add cid der [] now (dsp_candidates d) = (a, store)" by fastforce
    have "store_wf store"
      using store_wf_add [OF dispatcher_wfD(1) [OF assms(1)], of cid der "[]" now] ad by simp
    then have d1: "dispatcher_wf (d\<lparr>dsp_candidates := store\<rparr>)"
      using assms(1) by (rule dispatcher_wf_candidates [rotated])
    show ?thesis
    proof (cases a)
      case (Inl e)
      then show ?thesis
        using Some nodup ad d1 by (cases e) (simp_all add: route_session_init_response_def)
    next
      case (Inr cand)
      note a = this
      show ?thesis
      proof (cases "fork L template")
        case (Inl e)
        with Some nodup ad a d1 show ?thesis by (simp add: route_session_init_response_def)
      next
        case (Inr nf)
        have f: "fork_ok cid nf" by (rule fork_of_template [OF dispatcher_wfD(4) [OF assms(1) Some] Inr])
        obtain x s' d' where dl: "deliver L K c nf der now cid (d\<lparr>dsp_candidates := store\<rparr>) = (x, s', d')"
          by (cases "deliver L K c nf der now cid (d\<lparr>dsp_candidates := store\<rparr>)")
        have "fork_ok cid s'"
          using deliver_ok [OF dl role_ok_all(3) f ok_owned(3) [OF f] msg] by simp
        then have wf2: "dispatcher_wf (set_forks cid (forks_of cid d @ [s']) d')"
          using deliver_wf [OF dl d1] key deliver_fields(4) [OF dl] forks_of_ok [OF assms(1)]
          by (intro dispatcher_wf_set_forks) auto
        have wf3: "dispatcher_wf ((set_forks cid (forks_of cid d @ [s']) d')\<lparr>dsp_candidates := update_candidates cid
            (map (\<lambda>e. if cand_received_pdu e = der then e\<lparr>cand_sent_pdu := last_sent_or_empty s'\<rparr> else e))
            (dsp_candidates (set_forks cid (forks_of cid d @ [s']) d'))\<rparr>)"
          by (intro dispatcher_wf_candidates wf2 store_wf_update_candidates dispatcher_wfD(1) [OF wf2])
            (auto split: if_splits)
        show ?thesis
          using Some nodup ad a Inr dl wf2 wf3
          by (simp add: route_session_init_response_def Let_def split: sum.split)
      qed
    qed
  qed
qed

lemma dispatcher_wf_route_to_forks_loop:
  assumes "dispatcher_wf d" "cid \<in> keys (dsp_initiator_forks d)"
    and "\<And>f. f \<in> set (before @ fs) \<Longrightarrow> fork_ok cid f"
    and msg: "MakeMessage_load L der = Inr msg" "mm_cid msg = cid"
  shows "dispatcher_wf (snd (route_to_forks_loop L K cs cid der now before fs d))"
  using assms(1-3)
proof (induction fs arbitrary: before d)
  case (Cons f fs)
  let ?f = "snd (update_session L K (cs (length before)) now (post_pdu der f))"
  obtain r where u: "update_session L K (cs (length before)) now (post_pdu der f) = (r, ?f)"
    by (metis prod.collapse)
  have f: "fork_ok cid f" using Cons.prems(3) by simp
  have f': "fork_ok cid ?f"
    by (rule role_ok_update_posted [OF role_ok_all(3) f ok_owned(3) [OF f] msg])
  let ?d = "set_forks cid (before @ ?f # fs) d"
  have wf1: "dispatcher_wf ?d"
    using Cons.prems f' by (intro dispatcher_wf_set_forks) auto
  have step: "dispatcher_wf (snd (route_to_forks_loop L K cs cid der now (before @ [?f]) fs ?d))"
    using Cons.prems f' wf1 by (intro Cons.IH) (auto simp: set_forks_def)
  have won: "ses_state ?f = ESTABLISHED \<Longrightarrow>
      dispatcher_wf (promote_session cid (drained ?f) (collected ?f cid ?d))"
    using f' wf1 by (intro dispatcher_wf_promote dispatcher_wf_outgoing)
      (simp_all add: established_ok_def fork_ok_def owned_drained)
  show ?case
    by (subst route_to_forks_loop.simps, subst u)
      (use wf1 step won in \<open>auto simp: Let_def drain_eq split: sum.split\<close>)
qed simp

lemma dispatcher_wf_post_pdu:
  assumes "dispatcher_wf d"
  shows "dispatcher_wf (snd (dispatcher_post_pdu L K cs der now d))"
proof (cases "MakeMessage_load L der")
  case (Inl e)
  with assms show ?thesis by (simp add: dispatcher_post_pdu_def)
next
  case (Inr msg)
  note msg = Inr and cid = MakeMessage_loadD(4) [OF Inr]
  show ?thesis
  proof (cases "map_of (dsp_established d) (mm_cid msg)")
    case (Some s)
    note e = dispatcher_wfD(2) [OF assms Some]
    obtain x s' d' where dl: "deliver L K (cs 0) s der now (mm_cid msg) d = (x, s', d')"
      by (cases "deliver L K (cs 0) s der now (mm_cid msg) d")
    have "established_ok (mm_cid msg) s'"
      using deliver_ok [OF dl role_ok_all(1) e ok_owned(1) [OF e] msg] by simp
    then have "dispatcher_wf (set_established (mm_cid msg) s' d')"
      using deliver_wf [OF dl assms] deliver_fields(1) [OF dl] map_of_keys(1) [OF Some]
      by (intro dispatcher_wf_set_established) simp_all
    with msg cid Some dl show ?thesis by (simp add: dispatcher_post_pdu_def)
  next
    case None
    then have ne: "mm_cid msg \<notin> keys (dsp_established d)" by (simp add: map_of_keys)
    have resp: "dispatcher_wf (snd (case map_of (dsp_responder_sessions d) (mm_cid msg) of
        Some s \<Rightarrow> (case deliver L K (cs 0) s der now (mm_cid msg) d of
             (Inl e, s', d') \<Rightarrow> (Inl e, set_responder (mm_cid msg) s' d')
           | (Inr _, s', d') \<Rightarrow> (Inr (), reap_responder (mm_cid msg) (set_responder (mm_cid msg) s' d')))
      | None \<Rightarrow> if mm_cid msg \<in> set (dict_keys (dsp_initiator_forks d))
          then route_to_forks L K cs (mm_cid msg) der now d else (Inr (), d)))"
    proof (cases "map_of (dsp_responder_sessions d) (mm_cid msg)")
      case (Some s)
      note r = dispatcher_wfD(3) [OF assms Some]
      obtain x s' d' where dl: "deliver L K (cs 0) s der now (mm_cid msg) d = (x, s', d')"
        by (cases "deliver L K (cs 0) s der now (mm_cid msg) d")
      have "responder_ok (mm_cid msg) s'"
        using deliver_ok [OF dl role_ok_all(2) r ok_owned(2) [OF r] msg] by simp
      then have "dispatcher_wf (set_responder (mm_cid msg) s' d')"
        using deliver_wf [OF dl assms] ne deliver_fields(1) [OF dl]
        by (intro dispatcher_wf_set_responder) simp_all
      with Some dl show ?thesis by (auto intro: dispatcher_wf_reap split: sum.split)
    next
      case None
      then show ?thesis
        using assms forks_of_ok [OF assms] dispatcher_wf_route_to_forks_loop [OF assms _ _ msg, where before = "[]"]
        by (simp add: route_to_forks_def)
    qed
    then show ?thesis
      using msg cid None dispatcher_wf_route_request [OF assms ne msg] dispatcher_wf_route_response [OF assms msg]
      by (simp add: dispatcher_post_pdu_def)
  qed
qed

lemma moves_forward_post_payload: "post_payload p s = (r, s') \<Longrightarrow> moves_forward s s'"
  using moves_forward_queues(3) [of s p] by simp

lemma role_ok_post_payload: "role_ok P \<Longrightarrow> P cid s \<Longrightarrow> owned cid s \<Longrightarrow> P cid (snd (post_payload p s))"
  using owned_post_payload [of cid s p] moves_forward_queues(3) [of s p] unfolding role_ok_def by blast

lemma template_ok_post_payload: "template_ok cid s \<Longrightarrow> template_ok cid (snd (post_payload p s))"
  using owned_post_payload [of cid s p] by (auto simp: template_ok_def post_payload_def)

lemma keys_map_entry [simp]: "keys (AList.map_entry k f d) = keys d"
  by (induction d) (auto simp: keys_def)

lemma set_map_entry: "(k', v) \<in> set (AList.map_entry k f d) \<Longrightarrow> (k', v) \<in> set d \<or> (k' = k \<and> (\<exists>w. (k, w) \<in> set d \<and> v = f w))"
  by (induction d) (auto split: if_splits)

lemma dispatcher_wf_post_payload:
  assumes "dispatcher_wf d"
  shows "dispatcher_wf (snd (dispatcher_post_payload cid p d))"
proof -
  consider (e) s where "map_of (dsp_established d) cid = Some s"
    | (r) s where "map_of (dsp_established d) cid = None" "map_of (dsp_responder_sessions d) cid = Some s"
    | (t) s where "map_of (dsp_established d) cid = None" "map_of (dsp_responder_sessions d) cid = None"
        "map_of (dsp_initiator_templates d) cid = Some s"
    | (n) "map_of (dsp_established d) cid = None" "map_of (dsp_responder_sessions d) cid = None"
        "map_of (dsp_initiator_templates d) cid = None"
    by (cases "map_of (dsp_established d) cid"; cases "map_of (dsp_responder_sessions d) cid";
        cases "map_of (dsp_initiator_templates d) cid") auto
  then show ?thesis
  proof cases
    case e
    have "established_ok cid (snd (post_payload p s))"
      using dispatcher_wfD(2) [OF assms e] by (auto intro: role_ok_post_payload role_ok_all ok_owned)
    then have "dispatcher_wf (set_established cid (snd (post_payload p s)) d)"
      using assms map_of_keys(1) [OF e] by (intro dispatcher_wf_set_established)
    with e show ?thesis by (cases "post_payload p s") (simp add: dispatcher_post_payload_def)
  next
    case r
    have "responder_ok cid (snd (post_payload p s))"
      using dispatcher_wfD(3) [OF assms r(2)] by (auto intro: role_ok_post_payload role_ok_all ok_owned)
    then have "dispatcher_wf (set_responder cid (snd (post_payload p s)) d)"
      using assms r(1) by (intro dispatcher_wf_set_responder) (simp_all add: map_of_keys)
    with r show ?thesis by (cases "post_payload p s") (simp add: dispatcher_post_payload_def)
  next
    case t
    note tok = dispatcher_wfD(4) [OF assms t(3)]
    then have tok': "template_ok cid (snd (post_payload p s))" by (rule template_ok_post_payload)
    let ?d1 = "d\<lparr>dsp_initiator_templates := AList.update cid (snd (post_payload p s)) (dsp_initiator_templates d)\<rparr>"
    let ?fs = "AList.map_entry cid (map (\<lambda>f. snd (post_payload p f))) (dsp_initiator_forks d)"
    have "all_entries (\<lambda>cid fs. \<forall>f \<in> set fs. fork_ok cid f) (dsp_initiator_forks d)"
      using assms by (simp add: dispatcher_wf_def)
    moreover have "fork_ok k (snd (post_payload p f))" if "fork_ok k f" for k f
      using that by (auto intro: role_ok_post_payload role_ok_all ok_owned)
    ultimately have "all_entries (\<lambda>cid fs. \<forall>f \<in> set fs. fork_ok cid f) ?fs"
      unfolding all_entries_def by (fastforce dest!: set_map_entry)
    moreover have "insert cid (keys (dsp_initiator_forks d)) = keys (dsp_initiator_forks d)"
      using map_of_keys(1) [OF t(3)] dispatcher_wfD(6) [OF assms] by auto
    ultimately have "dispatcher_wf (?d1\<lparr>dsp_initiator_forks := ?fs\<rparr>)"
      using assms tok' unfolding dispatcher_wf_def
      by (auto intro!: wf_dict simp: distinct_map_entry)
    with t assms show ?thesis
      by (cases "post_payload p s") (auto simp: dispatcher_post_payload_def Let_def split: sum.split)
  next
    case n
    with assms show ?thesis by (simp add: dispatcher_post_payload_def)
  qed
qed

text \<open>The three loops of \<open>update\<close>.\<close>

lemma update_established_loop_wf:
  assumes "dispatcher_wf d" "\<And>cid s. (cid, s) \<in> set items \<Longrightarrow> established_ok cid s \<and> cid \<in> keys (dsp_established d)"
  shows "dispatcher_wf (snd (update_established_loop L K rnd now items nd d))"
  using assms
proof (induction items arbitrary: nd d)
  case (Cons it items)
  obtain cid s where it: "it = (cid, s)" by (cases it)
  let ?s = "snd (update_session L K (rnd 0 cid 0) now s)"
  obtain r where u: "update_session L K (rnd 0 cid 0) now s = (r, ?s)" by (metis prod.collapse)
  have e: "established_ok cid s" "cid \<in> keys (dsp_established d)" using Cons.prems(2) it by auto
  have e': "established_ok cid ?s"
    using e by (auto intro: role_ok_update role_ok_all ok_owned)
  have e'': "established_ok cid (drained ?s)"
    using e' by (auto intro: role_ok_drained role_ok_all ok_owned)
  have wf1: "dispatcher_wf (set_established cid ?s d)"
    by (rule dispatcher_wf_set_established [OF Cons.prems(1) e' e(2)])
  let ?d2 = "set_established cid (drained ?s) (collected ?s cid (set_established cid ?s d))"
  have wf2: "dispatcher_wf ?d2"
    by (rule dispatcher_wf_set_established [OF dispatcher_wf_outgoing(3) [OF wf1] e''])
      (simp add: set_established_def)
  have step: "dispatcher_wf (snd (update_established_loop L K rnd now items nd' ?d2))" for nd'
    using Cons.prems(2) by (intro Cons.IH [OF wf2]) (auto simp: set_established_def)
  show ?case
    unfolding it by (subst update_established_loop.simps, subst u)
      (use wf1 step in \<open>auto simp: Let_def drain_eq split: sum.split prod.split\<close>)
qed simp

lemma update_responder_loop_wf:
  assumes "dispatcher_wf d"
  shows "dispatcher_wf (snd (update_responder_loop L K rnd now cids nd d))"
  using assms
proof (induction cids arbitrary: nd d)
  case (Cons cid cids)
  show ?case
  proof (cases "map_of (dsp_responder_sessions d) cid")
    case None
    with Cons.prems show ?thesis by simp
  next
    case (Some s)
    let ?s = "snd (update_session L K (rnd 1 cid 0) now s)"
    obtain r where u: "update_session L K (rnd 1 cid 0) now s = (r, ?s)" by (metis prod.collapse)
    note ro = dispatcher_wfD(3) [OF Cons.prems Some]
    have ro': "responder_ok cid ?s"
      using ro by (auto intro: role_ok_update role_ok_all ok_owned)
    have ro'': "responder_ok cid (drained ?s)"
      using ro' by (auto intro: role_ok_drained role_ok_all ok_owned)
    have ne: "cid \<notin> keys (dsp_established d)"
      using dispatcher_wfD(7) [OF Cons.prems] map_of_keys(1) [OF Some] by blast
    have wf1: "dispatcher_wf (set_responder cid ?s d)"
      by (rule dispatcher_wf_set_responder [OF Cons.prems ro' ne])
    let ?d1 = "set_responder cid (drained ?s) (collected ?s cid (set_responder cid ?s d))"
    have wf2: "dispatcher_wf ?d1"
      by (rule dispatcher_wf_set_responder [OF dispatcher_wf_outgoing(3) [OF wf1] ro''])
        (use ne in \<open>simp add: set_responder_def\<close>)
    have "ses_state ?s = ESTABLISHED \<Longrightarrow> established_ok cid (drained ?s)"
      using ro'' by (simp add: established_ok_def responder_ok_def)
    with wf1 wf2 Some Cons.IH Cons.prems show ?thesis
      by (subst update_responder_loop.simps, simp only: Some option.case, subst u)
        (auto simp: Let_def drain_eq intro!: Cons.IH intro: wf_intros split: sum.split prod.split)
  qed
qed simp

lemma crank_forks_ok:
  assumes "\<And>f. f \<in> set fs \<Longrightarrow> fork_ok cid f" "crank_forks L K cs now i nd fs = (r, fs')"
  shows "(\<forall>f \<in> set fs'. fork_ok cid f) \<and>
    (case r of Inl e \<Rightarrow> True
     | Inr (_, winner, surviving) \<Rightarrow> (\<forall>f \<in> set surviving. fork_ok cid f) \<and>
         (case winner of None \<Rightarrow> True | Some w \<Rightarrow> established_ok cid w))"
  using assms
proof (induction fs arbitrary: i nd r fs')
  case (Cons f fs)
  let ?f = "snd (update_session L K (cs i) now f)"
  obtain x where u: "update_session L K (cs i) now f = (x, ?f)" by (metis prod.collapse)
  have f: "fork_ok cid ?f"
    using Cons.prems(1) by (auto intro: role_ok_update role_ok_all ok_owned)
  then have w: "ses_state ?f = ESTABLISHED \<Longrightarrow> established_ok cid ?f"
    by (simp add: fork_ok_def established_ok_def)
  have rest: "\<And>i nd r fs'. crank_forks L K cs now i nd fs = (r, fs') \<Longrightarrow> (\<forall>f \<in> set fs'. fork_ok cid f) \<and>
    (case r of Inl e \<Rightarrow> True
     | Inr (_, winner, surviving) \<Rightarrow> (\<forall>f \<in> set surviving. fork_ok cid f) \<and>
         (case winner of None \<Rightarrow> True | Some w \<Rightarrow> established_ok cid w))"
    using Cons.prems(1) by (intro Cons.IH) auto
  show ?case
  proof (cases x)
    case (Inl e)
    obtain r1 fs1 where c: "crank_forks L K cs now (Suc i) nd fs = (r1, fs1)" by fastforce
    show ?thesis
      using Cons.prems(2) Cons.prems(1) rest [OF c] f
      by (subst (asm) crank_forks.simps, subst (asm) u) (auto simp: Inl c split: if_splits)
  next
    case (Inr y)
    obtain res dl where y: "y = (res, dl)" by (cases y)
    obtain r1 fs1 where c: "crank_forks L K cs now (Suc i) (min nd dl) fs = (r1, fs1)" by fastforce
    show ?thesis
      using Cons.prems(2) Cons.prems(1) rest [OF c] f w
      by (subst (asm) crank_forks.simps, subst (asm) u)
        (auto simp: Inr y c split: if_splits sum.splits prod.splits)
  qed
qed simp

lemma process_initiator_forks_loop_wf:
  assumes "dispatcher_wf d"
  shows "dispatcher_wf (snd (process_initiator_forks_loop L K rnd now cids nd d))"
  using assms
proof (induction cids arbitrary: nd d)
  case (Cons cid cids)
  show ?case
  proof (cases "map_of (dsp_initiator_forks d) cid")
    case None
    with Cons.prems show ?thesis by simp
  next
    case (Some forks)
    obtain r fs' where c: "crank_forks L K (rnd 2 cid) now 0 nd forks = (r, fs')" by fastforce
    have ok: "(\<forall>f \<in> set fs'. fork_ok cid f) \<and>
      (case r of Inl e \<Rightarrow> True
       | Inr (_, winner, surviving) \<Rightarrow> (\<forall>f \<in> set surviving. fork_ok cid f) \<and>
           (case winner of None \<Rightarrow> True | Some w \<Rightarrow> established_ok cid w))"
      by (rule crank_forks_ok [OF _ c]) (rule dispatcher_wfD(5) [OF Cons.prems Some])
    note key = map_of_keys(1) [OF Some]
    have wf1: "dispatcher_wf (set_forks cid fs' d)"
      using Cons.prems ok key by (intro dispatcher_wf_set_forks) auto
    have drop: "dispatcher_wf (d\<lparr>dsp_initiator_forks := AList.delete cid (dsp_initiator_forks d),
        dsp_initiator_templates := AList.delete cid (dsp_initiator_templates d),
        dsp_candidates := discard cid (dsp_candidates d)\<rparr>)"
      using Cons.prems dispatcher_wfD(1) [OF Cons.prems] by (intro wf_intros)
    show ?thesis
      using Some c ok wf1 drop key Cons.prems
      by (auto simp: Let_def drain_eq split: sum.split option.split
          intro!: Cons.IH dispatcher_wf_promote dispatcher_wf_outgoing dispatcher_wf_set_forks
            role_ok_drained [OF role_ok_all(1)] ok_owned(1))
  qed
qed simp

lemma established_entries:
  "dispatcher_wf d \<Longrightarrow> (cid, s) \<in> set (dsp_established d) \<Longrightarrow>
   established_ok cid s \<and> cid \<in> keys (dsp_established d)"
  by (auto simp: dispatcher_wf_def all_entries_def keys_def intro: rev_image_eqI)

lemma dispatcher_wf_update:
  assumes "dispatcher_wf d"
  shows "dispatcher_wf (snd (dispatcher_update L K rnd now d))"
proof -
  let ?d0 = "reconcile_expired_candidates (d\<lparr>dsp_candidates := snd (expire now (dsp_candidates d))\<rparr>)"
  have 0: "dispatcher_wf ?d0"
    using assms dispatcher_wfD(1) [OF assms]
    by (intro dispatcher_wf_reconcile dispatcher_wf_candidates store_wf_expire)
  have 1: "dispatcher_wf (snd (update_established_sessions L K rnd now Infinity ?d0))"
    unfolding update_established_sessions_def
    by (rule update_established_loop_wf [OF 0]) (rule established_entries [OF 0])
  have 2: "dispatcher_wf (snd (update_responder_sessions L K rnd now nd d))"
    "dispatcher_wf (snd (process_initiator_forks L K rnd now nd d))" if "dispatcher_wf d" for nd d
    using that by (simp_all add: update_responder_sessions_def update_responder_loop_wf
        process_initiator_forks_def process_initiator_forks_loop_wf)
  show ?thesis
    unfolding dispatcher_update_def Let_def
  proof (rule sseq_inv [where P = dispatcher_wf, OF 1], goal_cases)
    case (1 nd1 d1)
    show ?case
    proof (rule sseq_inv [where P = dispatcher_wf, OF 2(1) [OF 1(2)]], goal_cases)
      case (1 nd2 d2)
      show ?case
        by (rule sseq_inv [where P = dispatcher_wf, OF 2(2) [OF 1(2)]]) simp
    qed
  qed
qed

subsection \<open>The output queues\<close>

interpretation dispatcher_pdus: output_queue dsp_outgoing_pdus dispatcher_poll_pdu dispatcher_get_pdu
  by unfold_locales (auto simp: dispatcher_poll_pdu_def dispatcher_get_pdu_def)

interpretation dispatcher_payloads: output_queue dsp_outgoing_payloads dispatcher_poll_payload dispatcher_get_payload
  by unfold_locales (auto simp: dispatcher_poll_payload_def dispatcher_get_payload_def)

end
