(* ===== verification/DispatcherProps.thy ===== *)
theory DispatcherProps
  imports DispatcherInv
begin

section \<open>What the dispatcher guarantees\<close>

text \<open>
  Over all reachable dispatchers: the invariant; a PDU touches only its own correlation id; a new
  response is tried on an exact copy of the untouched initiator, whatever other candidates there
  are; the number of half-open responder sessions is bounded after every crank; and what the crank
  does to an initiation that has not been answered yet.
\<close>

inductive dispatcher_step :: "lib \<Rightarrow> key_lookup \<Rightarrow> dispatcher \<Rightarrow> dispatcher \<Rightarrow> bool" for L K where
  dstep_initiate: "coin_uuid4 c \<notin> keys (dsp_established d) \<Longrightarrow>
     dispatcher_step L K d (snd (dispatcher_initiate L K c own peer now d))"
| dstep_post_pdu: "dispatcher_step L K d (snd (dispatcher_post_pdu L K cs der now d))"
| dstep_post_payload: "dispatcher_step L K d (snd (dispatcher_post_payload cid p d))"
| dstep_get_pdu: "dispatcher_step L K d (snd (dispatcher_get_pdu d))"
| dstep_get_payload: "dispatcher_step L K d (snd (dispatcher_get_payload d))"
| dstep_close: "dispatcher_step L K d (close cid d)"
| dstep_update: "dispatcher_step L K d (snd (dispatcher_update L K rnd now d))"

inductive dispatcher_reach :: "lib \<Rightarrow> key_lookup \<Rightarrow> dispatcher \<Rightarrow> bool" for L K where
  dreach_init: "Dispatcher_init config (Some store) = Inr d \<Longrightarrow> store_reach store \<Longrightarrow> dispatcher_reach L K d"
| dreach_default: "Dispatcher_init config None = Inr d \<Longrightarrow> dispatcher_reach L K d"
| dreach_step: "dispatcher_reach L K d \<Longrightarrow> dispatcher_step L K d d' \<Longrightarrow> dispatcher_reach L K d'"

lemma dispatcher_wf_get:
  "dispatcher_wf d \<Longrightarrow> dispatcher_wf (snd (dispatcher_get_pdu d))"
  "dispatcher_wf d \<Longrightarrow> dispatcher_wf (snd (dispatcher_get_payload d))"
  by (auto simp: dispatcher_get_pdu_def dispatcher_get_payload_def intro: dispatcher_wf_outgoing split: sum.split)

lemma dispatcher_step_wf: "dispatcher_step L K d d' \<Longrightarrow> dispatcher_wf d \<Longrightarrow> dispatcher_wf d'"
  by (induction rule: dispatcher_step.induct)
    (simp_all add: dispatcher_wf_initiate dispatcher_wf_post_pdu dispatcher_wf_post_payload
      dispatcher_wf_get dispatcher_wf_close dispatcher_wf_update)

lemma dispatcher_reach_wf: "dispatcher_reach L K d \<Longrightarrow> dispatcher_wf d"
proof (induction rule: dispatcher_reach.induct)
  case (dreach_init config store d)
  have "store_wf store"
    using dreach_init(2) by induction (auto intro: wf_intros store_wf_init simp: promote_is_discard)
  with dreach_init(1) show ?case by (intro dispatcher_wf_init) auto
qed (auto intro: dispatcher_wf_init dispatcher_step_wf)

text \<open>
  C12. The books are always in order: in every reachable dispatcher each dict has one entry per correlation
  id, templates and forks are kept for the same ids, an id with an established session has no pending
  session in any role, and every session has the role, the state and the correlation id that its
  place promises (uuid4 is assumed not to repeat an id that is still established).
\<close>

theorem dispatcher_invariant:
  assumes "dispatcher_reach L K d"
  shows "dispatcher_wf d
    \<and> keys (dsp_initiator_templates d) = keys (dsp_initiator_forks d)
    \<and> (\<forall>cid s. map_of (dsp_established d) cid = Some s \<longrightarrow>
         ses_state s = ESTABLISHED \<and> ses_cid s = Some cid \<and>
         cid \<notin> keys (dsp_responder_sessions d) \<and> cid \<notin> keys (dsp_initiator_templates d))
    \<and> (\<forall>cid s. map_of (dsp_initiator_templates d) cid = Some s \<longrightarrow>
         ses_role s = INITIATOR \<and> ses_state s = EXPECT_SESSION_INIT_RESPONSE \<and> ses_cid s = Some cid)"
proof -
  have wf: "dispatcher_wf d" using assms by (rule dispatcher_reach_wf)
  then show ?thesis
    using dispatcher_wfD(2,4,6,7) [OF wf] map_of_keys(1) [of "dsp_established d"]
    by (fastforce simp: established_ok_def template_ok_def owned_def)
qed

subsection \<open>A PDU touches its own correlation id only\<close>

definition only_touches :: "bytes \<Rightarrow> dispatcher \<Rightarrow> dispatcher \<Rightarrow> bool" where
  "only_touches cid d d' \<longleftrightarrow> (\<forall>k. k \<noteq> cid \<longrightarrow>
     map_of (dsp_established d') k = map_of (dsp_established d) k \<and>
     map_of (dsp_responder_sessions d') k = map_of (dsp_responder_sessions d) k \<and>
     map_of (dsp_initiator_templates d') k = map_of (dsp_initiator_templates d) k \<and>
     map_of (dsp_initiator_forks d') k = map_of (dsp_initiator_forks d) k)"

lemma only_touches_refl: "only_touches cid d d"
  by (simp add: only_touches_def)

lemma only_touches_trans: "only_touches cid a b \<Longrightarrow> only_touches cid b c \<Longrightarrow> only_touches cid a c"
  by (simp add: only_touches_def)

lemma only_touches_ops:
  "only_touches cid d (set_established cid s d)" "only_touches cid d (set_responder cid s d)"
  "only_touches cid d (set_forks cid fs d)" "only_touches cid d (promote_session cid s d)"
  "only_touches cid d (forget_responder cid d)" "only_touches cid d (collected s cid' d)"
  "only_touches cid d (d\<lparr>dsp_candidates := store\<rparr>)" "only_touches cid d (reap_responder cid d)"
  by (auto simp: only_touches_def set_established_def set_responder_def set_forks_def promote_session_def
      forget_responder_def reap_responder_def drain_eq split: option.split)

lemma only_touches_deliver:
  assumes "deliver L K c s der now cid' d = (r, s', d')"
  shows "only_touches cid d d'"
  using deliver_fields [OF assms] by (simp add: only_touches_def)

lemma only_touches_route_request:
  "only_touches cid d (snd (route_session_init_request L K c cid der now d))"
proof (cases "map_of (dsp_responder_sessions d) cid")
  case (Some s)
  obtain x s' d' where dl: "deliver L K c s der now cid d = (x, s', d')"
    by (cases "deliver L K c s der now cid d")
  have t: "only_touches cid d (set_responder cid s' d')"
    by (rule only_touches_trans [OF only_touches_deliver [OF dl] only_touches_ops(2)])
  have "only_touches cid d (reap_responder cid (set_responder cid s' d'))"
    by (rule only_touches_trans [OF t only_touches_ops(8)])
  with Some dl t show ?thesis
    by (simp add: route_session_init_request_def split: sum.split)
next
  case None
  obtain a store where ad: "add cid der [] now (dsp_candidates d) = (a, store)" by fastforce
  show ?thesis
  proof (cases a)
    case (Inl e)
    then show ?thesis
      using None ad by (cases e) (simp_all add: route_session_init_request_def only_touches_ops)
  next
    case (Inr cand)
    let ?s = "Session_init RESPONDER None (Some (dsp_config d))"
    let ?d1 = "set_responder cid ?s (d\<lparr>dsp_candidates := store\<rparr>)"
    obtain x s' d' where dl: "deliver L K c ?s der now cid ?d1 = (x, s', d')"
      by (cases "deliver L K c ?s der now cid ?d1")
    have "only_touches cid d d'"
      by (rule only_touches_trans [OF only_touches_trans [OF only_touches_ops(7) only_touches_ops(2)]
            only_touches_deliver [OF dl]])
    then have t: "only_touches cid d (set_responder cid s' d')"
      by (rule only_touches_trans) (rule only_touches_ops)
    have u: "only_touches cid d (forget_responder cid (set_responder cid s' d'))"
        "only_touches cid d (reap_responder cid (set_responder cid s' d'))"
        "only_touches cid d (reap_responder cid ((set_responder cid s' d')\<lparr>dsp_candidates := st\<rparr>))" for st
      by (rule only_touches_trans [OF t only_touches_ops(5)], rule only_touches_trans [OF t only_touches_ops(8)],
          rule only_touches_trans [OF only_touches_trans [OF t only_touches_ops(7)] only_touches_ops(8)])
    show ?thesis
      using None ad Inr dl t u by (auto simp: route_session_init_request_def Let_def split: sum.split)
  qed
qed

lemma only_touches_route_response:
  "only_touches cid d (snd (route_session_init_response L K c cid der now d))"
proof (cases "map_of (dsp_initiator_templates d) cid")
  case (Some template)
  show ?thesis
  proof (cases "duplicate_at der (forks_of cid d)")
    case dup: (Some i)
    obtain x s' d' where dl: "deliver L K c (forks_of cid d ! i) der now cid d = (x, s', d')"
      by (cases "deliver L K c (forks_of cid d ! i) der now cid d")
    show ?thesis
      using Some dup dl only_touches_trans [OF only_touches_deliver [OF dl] only_touches_ops(3)]
      by (simp add: route_session_init_response_def)
  next
    case nodup: None
    obtain a store where ad: "add cid der [] now (dsp_candidates d) = (a, store)" by fastforce
    show ?thesis
    proof (cases a)
      case (Inl e)
      then show ?thesis
        using Some nodup ad by (cases e) (simp_all add: route_session_init_response_def only_touches_ops)
    next
      case a: (Inr cand)
      show ?thesis
      proof (cases "fork L template")
        case (Inl e)
        with Some nodup ad a show ?thesis by (simp add: route_session_init_response_def only_touches_ops)
      next
        case (Inr nf)
        obtain x s' d' where dl: "deliver L K c nf der now cid (d\<lparr>dsp_candidates := store\<rparr>) = (x, s', d')"
          by (cases "deliver L K c nf der now cid (d\<lparr>dsp_candidates := store\<rparr>)")
        have t: "only_touches cid d d'"
          by (rule only_touches_trans [OF only_touches_ops(7) only_touches_deliver [OF dl]])
        have "only_touches cid d (set_forks cid fs d')"
            "only_touches cid d ((set_forks cid fs d')\<lparr>dsp_candidates := st\<rparr>)" for fs st
          by (rule only_touches_trans [OF t only_touches_ops(3)],
              rule only_touches_trans [OF only_touches_trans [OF t only_touches_ops(3)] only_touches_ops(7)])
        with Some nodup ad a Inr dl show ?thesis
          by (simp add: route_session_init_response_def Let_def split: sum.split)
      qed
    qed
  qed
qed (simp add: route_session_init_response_def only_touches_refl)

lemma only_touches_forks_loop:
  "only_touches cid d (snd (route_to_forks_loop L K cs cid der now before fs d))"
proof (induction fs arbitrary: before d)
  case (Cons f fs)
  obtain r f' where u: "update_session L K (cs (length before)) now (post_pdu der f) = (r, f')" by fastforce
  let ?d1 = "set_forks cid (before @ f' # fs) d"
  have t: "only_touches cid d ?d1" by (rule only_touches_ops)
  have "only_touches cid d (snd (route_to_forks_loop L K cs cid der now (before @ [f']) fs ?d1))"
    by (rule only_touches_trans [OF t Cons.IH])
  moreover have "only_touches cid d (promote_session cid (drained f') (collected f' cid ?d1))"
    by (rule only_touches_trans [OF only_touches_trans [OF t only_touches_ops(6)] only_touches_ops(4)])
  ultimately show ?case
    using t by (auto simp: u Let_def drain_eq split: sum.split)
qed (simp add: only_touches_refl)

lemma post_pdu_touches:
  assumes "MakeMessage_load L der = Inr msg"
  shows "only_touches (mm_cid msg) d (snd (dispatcher_post_pdu L K cs der now d))"
proof -
  let ?cid = "mm_cid msg"
  note c = MakeMessage_loadD(4) [OF assms]
  have e: "only_touches ?cid d (set_established ?cid s' d')"
    if "deliver L K (cs 0) s der now ?cid d = (x, s', d')" for s x s' d'
    by (rule only_touches_trans [OF only_touches_deliver [OF that] only_touches_ops(1)])
  have s: "only_touches ?cid d (set_responder ?cid s' d')"
    if "deliver L K (cs 0) s der now ?cid d = (x, s', d')" for s x s' d'
    by (rule only_touches_trans [OF only_touches_deliver [OF that] only_touches_ops(2)])
  have s2: "only_touches ?cid d (reap_responder ?cid (set_responder ?cid s' d'))"
    if "deliver L K (cs 0) s der now ?cid d = (x, s', d')" for s x s' d'
    by (rule only_touches_trans [OF s [OF that] only_touches_ops(8)])
  show ?thesis
    using assms c
    by (auto simp: dispatcher_post_pdu_def route_to_forks_def only_touches_route_request
        only_touches_route_response only_touches_forks_loop only_touches_refl
        intro: e s s2 split: option.split prod.split sum.split)
qed

text \<open>
  C18. Isolation: whatever a PDU contains, it changes sessions of its own correlation id only; every
  established, responder, template and fork entry of any other id is exactly as before. Bytes that are
  not a canonical message change nothing at all.
\<close>

theorem post_pdu_isolated:
  assumes "only_value_errors (ber_decode L der)"
    and "dispatcher_post_pdu L K cs der now d = (r, d')"
  shows "case MakeMessage_load L der of
      Inl e \<Rightarrow> r = Inr () \<and> d' = d
    | Inr msg \<Rightarrow> only_touches (mm_cid msg) d d'"
proof (cases "MakeMessage_load L der")
  case (Inl e)
  then show ?thesis
    using assms MakeMessage_load_value_error [OF assms(1)]
    by (auto simp: dispatcher_post_pdu_def dest: only_value_errorsD)
next
  case (Inr msg)
  with post_pdu_touches [OF Inr, of d K cs now] assms(2) show ?thesis by simp
qed

subsection \<open>The dicts of the crank\<close>

text \<open>What a crank (or a promotion) can do to the pending dicts: keep, overwrite, remove.\<close>

definition shrinks :: "dispatcher \<Rightarrow> dispatcher \<Rightarrow> bool" where
  "shrinks d d' \<longleftrightarrow> length (dsp_responder_sessions d') \<le> length (dsp_responder_sessions d) \<and>
     set (dsp_initiator_templates d') \<subseteq> set (dsp_initiator_templates d) \<and>
     cs_max_total (dsp_candidates d') = cs_max_total (dsp_candidates d)"

lemma shrinks_refl: "shrinks d d"
  by (simp add: shrinks_def)

lemma shrinks_trans: "shrinks a b \<Longrightarrow> shrinks b c \<Longrightarrow> shrinks a c"
  by (auto simp: shrinks_def)

lemma length_update_existing: "map_of d k = Some w \<Longrightarrow> length (AList.update k v d) = length d"
  by (induction d) (auto split: if_splits)

lemma shrinks_ops:
  "shrinks d (set_established cid s d)" "shrinks d (set_forks cid fs d)"
  "shrinks d (promote_session cid s d)" "shrinks d (forget_responder cid d)" "shrinks d (collected s cid d)"
  "shrinks d (d\<lparr>dsp_initiator_forks := AList.delete cid (dsp_initiator_forks d),
     dsp_initiator_templates := AList.delete cid (dsp_initiator_templates d)\<rparr>)"
  "shrinks d (d\<lparr>dsp_initiator_forks := AList.delete cid (dsp_initiator_forks d),
     dsp_initiator_templates := AList.delete cid (dsp_initiator_templates d),
     dsp_candidates := discard cid (dsp_candidates d)\<rparr>)"
  "shrinks d (d\<lparr>dsp_responder_sessions := AList.delete cid (dsp_responder_sessions d)\<rparr>)"
  by (auto simp: shrinks_def set_established_def set_forks_def promote_session_def forget_responder_def
      set_dict_delete discard_def intro: length_delete_le)

lemma shrinks_set_responder:
  "map_of (dsp_responder_sessions d) cid = Some w \<Longrightarrow> shrinks d (set_responder cid s d)"
  by (simp add: shrinks_def set_responder_def length_update_existing)

lemma shrinks_established_loop: "shrinks d (snd (update_established_loop L K rnd now items nd d))"
proof (induction items arbitrary: nd d)
  case (Cons it items)
  obtain cid s where it: "it = (cid, s)" by (cases it)
  obtain r s' where u: "update_session L K (rnd 0 cid 0) now s = (r, s')" by fastforce
  let ?d2 = "set_established cid (drained s') (collected s' cid (set_established cid s' d))"
  have "shrinks d ?d2" by (simp add: shrinks_def set_established_def)
  then have "shrinks d (snd (update_established_loop L K rnd now items nd' ?d2))" for nd'
    using Cons.IH by (rule shrinks_trans)
  then show ?case
    by (auto simp: it u Let_def drain_eq shrinks_ops split: sum.split prod.split)
qed (simp add: shrinks_refl)

lemma shrinks_responder_loop: "shrinks d (snd (update_responder_loop L K rnd now cids nd d))"
proof (induction cids arbitrary: nd d)
  case (Cons cid cids)
  show ?case
  proof (cases "map_of (dsp_responder_sessions d) cid")
    case (Some s)
    obtain r s' where u: "update_session L K (rnd 1 cid 0) now s = (r, s')" by fastforce
    have 1: "shrinks d (set_responder cid s' d)" by (rule shrinks_set_responder [OF Some])
    let ?d1 = "set_responder cid (drained s') (collected s' cid (set_responder cid s' d))"
    have "shrinks (collected s' cid (set_responder cid s' d)) ?d1"
      by (rule shrinks_set_responder [where w = s']) (simp add: set_responder_def)
    then have 2: "shrinks d ?d1"
      by (rule shrinks_trans [OF shrinks_trans [OF 1 shrinks_ops(5)]])
    have step: "shrinks d (snd (update_responder_loop L K rnd now cids nd' d'))" if "shrinks d d'" for nd' d'
      using that Cons.IH by (rule shrinks_trans)
    have "shrinks d (promote_session cid (drained s') ?d1)" "shrinks d (forget_responder cid ?d1)"
      by (rule shrinks_trans [OF 2 shrinks_ops(3)], rule shrinks_trans [OF 2 shrinks_ops(4)])
    with 1 2 step shrinks_ops(4) show ?thesis
      by (subst update_responder_loop.simps, simp only: Some option.case, subst u)
        (auto simp: Let_def drain_eq split: sum.split prod.split)
  qed (simp add: shrinks_refl)
qed (simp add: shrinks_refl)

lemma shrinks_forks_loop: "shrinks d (snd (process_initiator_forks_loop L K rnd now cids nd d))"
proof (induction cids arbitrary: nd d)
  case (Cons cid cids)
  show ?case
  proof (cases "map_of (dsp_initiator_forks d) cid")
    case (Some forks)
    obtain r fs' where c: "crank_forks L K (rnd 2 cid) now 0 nd forks = (r, fs')" by fastforce
    have step: "shrinks d (snd (process_initiator_forks_loop L K rnd now cids nd' d'))" if "shrinks d d'" for nd' d'
      using that Cons.IH by (rule shrinks_trans)
    have "shrinks d (promote_session cid (drained w) (collected w cid (set_forks cid fs' d)))" for w
      by (rule shrinks_trans [OF shrinks_trans [OF shrinks_ops(2) shrinks_ops(5)] shrinks_ops(3)])
    with Some c step show ?thesis
      by (auto simp: Let_def drain_eq shrinks_ops split: sum.split option.split)
  qed (simp add: shrinks_refl)
qed (simp add: shrinks_refl)

text \<open>Reconciliation: what stays pending has a live candidate.\<close>

lemma reconcile_responders:
  fixes f :: "bytes \<Rightarrow> dispatcher \<Rightarrow> dispatcher"
  defines "f \<equiv> \<lambda>cid d. if candidates_for cid (dsp_candidates d) = []
      then d\<lparr>dsp_responder_sessions := AList.delete cid (dsp_responder_sessions d)\<rparr> else d"
  shows "keys (dsp_responder_sessions (fold f cids d)) =
      {k \<in> keys (dsp_responder_sessions d). \<not> (k \<in> set cids \<and> candidates_for k (dsp_candidates d) = [])}
    \<and> dsp_candidates (fold f cids d) = dsp_candidates d
    \<and> dsp_initiator_templates (fold f cids d) = dsp_initiator_templates d
    \<and> dsp_initiator_forks (fold f cids d) = dsp_initiator_forks d
    \<and> dsp_established (fold f cids d) = dsp_established d"
proof (induction cids arbitrary: d)
  case (Cons c cids)
  have "fold f (c # cids) d = fold f cids (f c d)" by simp
  then show ?case
    using Cons [of "f c d"] by (auto simp: f_def)
qed simp

lemma reconcile_initiators:
  fixes f :: "bytes \<Rightarrow> dispatcher \<Rightarrow> dispatcher"
  defines "f \<equiv> \<lambda>cid d. if candidates_for cid (dsp_candidates d) = [] \<and> cid \<notin> set (dict_keys (dsp_established d))
      then d\<lparr>dsp_initiator_forks := AList.delete cid (dsp_initiator_forks d),
             dsp_initiator_templates := AList.delete cid (dsp_initiator_templates d)\<rparr> else d"
  shows "keys (dsp_initiator_templates (fold f cids d)) =
      {k \<in> keys (dsp_initiator_templates d). \<not> (k \<in> set cids \<and> candidates_for k (dsp_candidates d) = []
        \<and> k \<notin> keys (dsp_established d))}
    \<and> dsp_candidates (fold f cids d) = dsp_candidates d
    \<and> dsp_responder_sessions (fold f cids d) = dsp_responder_sessions d
    \<and> set (dsp_initiator_templates (fold f cids d)) \<subseteq> set (dsp_initiator_templates d)"
proof (induction cids arbitrary: d)
  case (Cons c cids)
  have "fold f (c # cids) d = fold f cids (f c d)" by simp
  then show ?case
    using Cons [of "f c d"] by (auto simp: f_def set_dict_delete)
qed simp

lemma reconcile_spec:
  assumes "dispatcher_wf d"
  shows "\<forall>k \<in> keys (dsp_responder_sessions (reconcile_expired_candidates d)).
      candidates_for k (dsp_candidates d) \<noteq> []"
    and "\<forall>k \<in> keys (dsp_initiator_templates (reconcile_expired_candidates d)).
      candidates_for k (dsp_candidates d) \<noteq> []"
    and "dsp_candidates (reconcile_expired_candidates d) = dsp_candidates d"
    and "set (dsp_initiator_templates (reconcile_expired_candidates d)) \<subseteq> set (dsp_initiator_templates d)"
proof -
  define d1 where "d1 = fold (\<lambda>cid d. if candidates_for cid (dsp_candidates d) = []
      then d\<lparr>dsp_responder_sessions := AList.delete cid (dsp_responder_sessions d)\<rparr> else d)
    (dict_keys (dsp_responder_sessions d)) d"
  note r = reconcile_responders [of "dict_keys (dsp_responder_sessions d)" d, folded d1_def]
  have e: "reconcile_expired_candidates d = fold (\<lambda>cid d. if candidates_for cid (dsp_candidates d) = [] \<and>
        cid \<notin> set (dict_keys (dsp_established d))
      then d\<lparr>dsp_initiator_forks := AList.delete cid (dsp_initiator_forks d),
             dsp_initiator_templates := AList.delete cid (dsp_initiator_templates d)\<rparr> else d)
    (dict_keys (dsp_initiator_forks d1)) d1"
    by (simp add: reconcile_expired_candidates_def d1_def Let_def)
  note i = reconcile_initiators [of "dict_keys (dsp_initiator_forks d1)" d1, folded e]
  show "\<forall>k \<in> keys (dsp_responder_sessions (reconcile_expired_candidates d)). candidates_for k (dsp_candidates d) \<noteq> []"
    using i r by auto
  show "\<forall>k \<in> keys (dsp_initiator_templates (reconcile_expired_candidates d)). candidates_for k (dsp_candidates d) \<noteq> []"
    using i r dispatcher_wfD(6,7) [OF assms] by auto
  show "dsp_candidates (reconcile_expired_candidates d) = dsp_candidates d"
    "set (dsp_initiator_templates (reconcile_expired_candidates d)) \<subseteq> set (dsp_initiator_templates d)"
    using i r by auto
qed

lemma update_shrinks:
  fixes d now
  defines "d0 \<equiv> reconcile_expired_candidates (d\<lparr>dsp_candidates := snd (expire now (dsp_candidates d))\<rparr>)"
  shows "shrinks d0 (snd (dispatcher_update L K rnd now d))"
  unfolding dispatcher_update_def Let_def d0_def [symmetric]
proof (rule sseq_inv [where P = "shrinks d0"], goal_cases)
  case 1
  show ?case by (simp add: update_established_sessions_def shrinks_established_loop)
next
  case (2 nd1 d1)
  show ?case
  proof (rule sseq_inv [where P = "shrinks d0"], goal_cases)
    case 1
    show ?case
      using 2(2) shrinks_responder_loop unfolding update_responder_sessions_def by (rule shrinks_trans)
  next
    case (2 nd2 d2)
    have "shrinks d0 (snd (process_initiator_forks L K rnd now nd2 d2))"
      using 2(2) shrinks_forks_loop unfolding process_initiator_forks_def by (rule shrinks_trans)
    then show ?case by (intro sseq_inv [where P = "shrinks d0"]) simp_all
  qed
qed

text \<open>
  C29. Half-open responder sessions are bounded: after a crank, whatever was posted before it and however
  the crank ends, at most \<^verbatim>\<open>max_total\<close> responder sessions are pending, since each needs a candidate that has
  not expired. (Between cranks the bound is the store's only.)
\<close>

theorem responders_bounded_after_update:
  assumes "dispatcher_reach L K d"
  shows "int (length (dsp_responder_sessions (snd (dispatcher_update L K rnd now d))))
    \<le> cs_max_total (dsp_candidates d)"
proof -
  have wf: "dispatcher_wf d" using assms by (rule dispatcher_reach_wf)
  let ?de = "d\<lparr>dsp_candidates := snd (expire now (dsp_candidates d))\<rparr>"
  let ?d0 = "reconcile_expired_candidates ?de"
  note st = dispatcher_wfD(1) [OF wf]
  have wfe: "dispatcher_wf ?de"
    using wf by (intro dispatcher_wf_candidates store_wf_expire st)
  then have wf0: "dispatcher_wf ?d0" by (rule dispatcher_wf_reconcile)
  have "int (length (dict_keys (dsp_responder_sessions ?d0))) \<le> cs_max_total (dsp_candidates ?de)"
    using reconcile_spec(1) [OF wfe] wf0 dispatcher_wfD(1) [OF wfe]
    by (intro pool.pending_bounded) (auto simp: dict_keys_def dispatcher_wf_def keys_def)
  then have "int (length (dsp_responder_sessions ?d0)) \<le> cs_max_total (dsp_candidates d)"
    by (simp add: dict_keys_def pool.cap_sweep [OF st])
  then show ?thesis
    using update_shrinks [where d = d and now = now and L = L and K = K and rnd = rnd]
    by (simp add: shrinks_def)
qed

lemma update_forgets_unanswered:
  assumes "dispatcher_wf d" "candidates_for cid (dsp_candidates d) = []"
  shows "cid \<notin> keys (dsp_initiator_templates (snd (dispatcher_update L K rnd now d)))"
proof
  let ?de = "d\<lparr>dsp_candidates := snd (expire now (dsp_candidates d))\<rparr>"
  let ?d0 = "reconcile_expired_candidates ?de"
  note st = dispatcher_wfD(1) [OF assms(1)]
  have wfe: "dispatcher_wf ?de"
    using assms(1) by (intro dispatcher_wf_candidates store_wf_expire st)
  assume "cid \<in> keys (dsp_initiator_templates (snd (dispatcher_update L K rnd now d)))"
  then have "cid \<in> keys (dsp_initiator_templates ?d0)"
    using update_shrinks [where d = d and now = now and L = L and K = K and rnd = rnd]
    by (auto simp: shrinks_def keys_def)
  then have "candidates_for cid (snd (expire now (dsp_candidates d))) \<noteq> []"
    using reconcile_spec(2) [OF wfe] by simp
  then show False
    using assms(2) by (simp add: expire_fields(6) [OF st] live_def)
qed

text \<open>
  C35. An unanswered initiation does not survive a crank: if \<open>update\<close> is called, at any time, between
  \<open>initiate\<close> and the first response, the template and the (empty) list of forks are dropped, nothing is
  retransmitted for it, and the genuine response that arrives later is ignored.
\<close>

theorem unanswered_initiation_dropped_by_update:
  assumes "dispatcher_wf d" "dispatcher_initiate L K c own peer now d = (Inr cid, d1)"
    and "coin_uuid4 c \<notin> keys (dsp_established d)" "candidates_for cid (dsp_candidates d) = []"
    and "dispatcher_update L K rnd now' d1 = (r, d2)"
  shows "cid \<in> keys (dsp_initiator_templates d1) \<and> cid \<notin> keys (dsp_initiator_templates d2)
    \<and> route_session_init_response L K c' cid der later d2 = (Inr (), d2)"
proof -
  have wf1: "dispatcher_wf d1"
    using dispatcher_wf_initiate [OF assms(1,3), of L K own peer now] assms(2) by simp
  have d1: "cid \<in> keys (dsp_initiator_templates d1)" "dsp_candidates d1 = dsp_candidates d"
    using assms(2) by (auto simp: dispatcher_initiate_def drain_pdus_eq split: prod.splits sum.splits option.splits)
  have "cid \<notin> keys (dsp_initiator_templates d2)"
    using update_forgets_unanswered [OF wf1, of cid L K rnd now'] d1(2) assms(4,5) by simp
  with d1(1) show ?thesis
    by (simp add: route_session_init_response_def map_of_keys(2) [symmetric])
qed

subsection \<open>Each response is tried on the untouched initiator\<close>

text \<open>The templates are sessions that the public methods of a session can reach.\<close>

definition templates_reach :: "lib \<Rightarrow> key_lookup \<Rightarrow> dispatcher \<Rightarrow> bool" where
  "templates_reach L K d \<longleftrightarrow> all_entries (\<lambda>_ s. session_reach L K s) (dsp_initiator_templates d)"

lemma reach_drop_pdus:
  "session_reach L K s \<Longrightarrow> session_reach L K (s\<lparr>ses_outgoing_pdus := []\<rparr>)"
proof (induction "ses_outgoing_pdus s" arbitrary: s)
  case Nil
  then have "s\<lparr>ses_outgoing_pdus := []\<rparr> = s" by (cases s) simp
  with Nil(2) show ?case by simp
next
  case (Cons x xs)
  have "session_reach L K (snd (get_pdu s))"
    using Cons.prems by (rule reach_step) (rule step_get_pdu)
  moreover have "snd (get_pdu s) = s\<lparr>ses_outgoing_pdus := xs\<rparr>"
    by (simp add: get_pdu_def flip: Cons.hyps(2))
  ultimately show ?case using Cons.hyps(1) [of "s\<lparr>ses_outgoing_pdus := xs\<rparr>"] by simp
qed

lemma templates_subset:
  "set (dsp_initiator_templates d') \<subseteq> set (dsp_initiator_templates d) \<Longrightarrow>
   templates_reach L K d \<Longrightarrow> templates_reach L K d'"
  by (auto simp: templates_reach_def all_entries_def)

lemma promote_templates:
  "set (dsp_initiator_templates (promote_session cid w d)) \<subseteq> set (dsp_initiator_templates d)"
  by (auto simp: promote_session_def set_dict_delete)

lemma reap_templates:
  "set (dsp_initiator_templates (reap_responder cid d)) \<subseteq> set (dsp_initiator_templates d)"
  by (auto simp: reap_responder_def drain_eq promote_session_def forget_responder_def set_dict_delete
      split: option.splits)

lemma set_op_templates [simp]:
  "dsp_initiator_templates (set_established cid s d) = dsp_initiator_templates d"
  "dsp_initiator_templates (set_responder cid s d) = dsp_initiator_templates d"
  "dsp_initiator_templates (set_forks cid fs d) = dsp_initiator_templates d"
  "dsp_initiator_templates (forget_responder cid d) = dsp_initiator_templates d"
  by (simp_all add: set_established_def set_responder_def set_forks_def forget_responder_def)

lemma route_request_templates:
  "set (dsp_initiator_templates (snd (route_session_init_request L K c cid der now d)))
     \<subseteq> set (dsp_initiator_templates d)"
proof (cases "map_of (dsp_responder_sessions d) cid")
  case (Some s)
  obtain x s' d' where dl: "deliver L K c s der now cid d = (x, s', d')"
    by (cases "deliver L K c s der now cid d")
  show ?thesis
    using Some dl deliver_fields(3) [OF dl] reap_templates [of cid "set_responder cid s' d'"]
    by (auto simp: route_session_init_request_def split: sum.split)
next
  case None
  obtain a store where ad: "add cid der [] now (dsp_candidates d) = (a, store)" by fastforce
  let ?s = "Session_init RESPONDER None (Some (dsp_config d))"
  let ?d1 = "set_responder cid ?s (d\<lparr>dsp_candidates := store\<rparr>)"
  obtain x s' d' where dl: "deliver L K c ?s der now cid ?d1 = (x, s', d')"
    by (cases "deliver L K c ?s der now cid ?d1")
  have r: "set (dsp_initiator_templates (reap_responder cid ((set_responder cid s' d')\<lparr>dsp_candidates := st\<rparr>)))
      \<subseteq> set (dsp_initiator_templates d)"
    "set (dsp_initiator_templates (reap_responder cid (set_responder cid s' d')))
      \<subseteq> set (dsp_initiator_templates d)" for st
    using reap_templates [of cid "(set_responder cid s' d')\<lparr>dsp_candidates := st\<rparr>"]
      reap_templates [of cid "set_responder cid s' d'"] deliver_fields(3) [OF dl] by simp_all
  show ?thesis
  proof (cases a)
    case (Inl e)
    with None ad show ?thesis by (cases e) (simp_all add: route_session_init_request_def)
  next
    case (Inr cand)
    with None ad dl r deliver_fields(3) [OF dl] show ?thesis
      by (simp add: route_session_init_request_def Let_def split: sum.split)
  qed
qed

lemma route_response_templates:
  "dsp_initiator_templates (snd (route_session_init_response L K c cid der now d)) = dsp_initiator_templates d"
proof (cases "map_of (dsp_initiator_templates d) cid")
  case (Some template)
  obtain a store where ad: "add cid der [] now (dsp_candidates d) = (a, store)" by fastforce
  have dl: "dsp_initiator_templates d' = dsp_initiator_templates d0"
    if "deliver L K c s der now cid d0 = (x, s', d')" for s x s' d' d0
    by (rule deliver_fields(3) [OF that])
  show ?thesis
  proof (cases a)
    case (Inl e)
    with Some ad show ?thesis
      by (cases e) (auto simp: route_session_init_response_def dest: dl split: option.split prod.split)
  next
    case (Inr cand)
    with Some ad show ?thesis
      by (auto simp: route_session_init_response_def Let_def dest!: dl
          split: option.split prod.split sum.split)
  qed
qed (simp add: route_session_init_response_def)

lemma route_forks_templates:
  "set (dsp_initiator_templates (snd (route_to_forks_loop L K cs cid der now before fs d)))
     \<subseteq> set (dsp_initiator_templates d)"
proof (induction fs arbitrary: before d)
  case (Cons f fs)
  obtain r f' where u: "update_session L K (cs (length before)) now (post_pdu der f) = (r, f')" by fastforce
  let ?d1 = "set_forks cid (before @ f' # fs) d"
  show ?case
    using Cons [of "before @ [f']" ?d1] promote_templates [of cid "drained f'" "collected f' cid ?d1"]
    by (auto simp: u Let_def drain_eq split: sum.split)
qed simp

lemma post_pdu_templates:
  "set (dsp_initiator_templates (snd (dispatcher_post_pdu L K cs der now d)))
     \<subseteq> set (dsp_initiator_templates d)"
proof (cases "MakeMessage_load L der")
  case (Inr msg)
  note c = MakeMessage_loadD(4) [OF Inr]
  have dl: "dsp_initiator_templates d' = dsp_initiator_templates d"
    if "deliver L K (cs 0) s der now cid d = (x, s', d')" for cid s x s' d'
    by (rule deliver_fields(3) [OF that])
  have rp: "set (dsp_initiator_templates (reap_responder cid (set_responder cid s' d')))
      \<subseteq> set (dsp_initiator_templates d)"
    if "deliver L K (cs 0) s der now cid d = (x, s', d')" for cid s x s' d'
    using reap_templates [of cid "set_responder cid s' d'"] dl [OF that] by simp
  show ?thesis
    using Inr c route_request_templates [of L K "cs 0" "mm_cid msg" der now d]
      route_forks_templates [of L K cs "mm_cid msg" der now "[]" "forks_of (mm_cid msg) d" d]
    by (simp add: dispatcher_post_pdu_def route_to_forks_def route_response_templates dl rp
        split: option.split prod.split sum.split)
qed (simp add: dispatcher_post_pdu_def)

lemma templates_reach_step:
  assumes "dispatcher_step L K d d'" "templates_reach L K d" "dispatcher_wf d"
  shows "templates_reach L K d'"
  using assms(1)
proof cases
  case (dstep_initiate c own peer now)
  let ?s0 = "Session_init INITIATOR (Some own) (Some (dsp_config d))"
  have r: "session_reach L K (snd (initiate L K c peer now ?s0))"
    by (rule reach_step [OF reach_init step_initiate])
  obtain x s where i: "initiate L K c peer now ?s0 = (x, s)" by fastforce
  have "session_reach L K (s\<lparr>ses_outgoing_pdus := []\<rparr>)"
    using reach_drop_pdus r i by fastforce
  then have "templates_reach L K (d\<lparr>dsp_initiator_templates :=
      AList.update k (s\<lparr>ses_outgoing_pdus := []\<rparr>) (dsp_initiator_templates d)\<rparr>)" for k
    using assms(2) by (auto simp: templates_reach_def intro!: all_entries_update)
  then show ?thesis
    using assms(2) unfolding dstep_initiate dispatcher_initiate_def i
    by (auto simp: drain_pdus_eq templates_reach_def split: sum.split option.split)
next
  case (dstep_post_payload cid p)
  have "session_reach L K (snd (post_payload p s))"
    if "map_of (dsp_initiator_templates d) cid = Some s" for s
    using that assms(2) reach_step [OF _ step_post_payload]
    by (auto simp: templates_reach_def all_entries_def dest!: map_of_SomeD)
  then show ?thesis
    using assms(2) unfolding dstep_post_payload dispatcher_post_payload_def
    by (auto simp: templates_reach_def Let_def split: option.split prod.split sum.split
        intro!: all_entries_update)
next
  case (dstep_update rnd now)
  have "set (dsp_initiator_templates (snd (dispatcher_update L K rnd now d))) \<subseteq>
      set (dsp_initiator_templates (reconcile_expired_candidates
        (d\<lparr>dsp_candidates := snd (expire now (dsp_candidates d))\<rparr>)))"
    using update_shrinks [where d = d and now = now and L = L and K = K and rnd = rnd]
    by (simp add: shrinks_def)
  moreover have "dispatcher_wf (d\<lparr>dsp_candidates := snd (expire now (dsp_candidates d))\<rparr>)"
    by (intro dispatcher_wf_candidates assms(3) store_wf_expire dispatcher_wfD(1) [OF assms(3)])
  from reconcile_spec(4) [OF this] have "set (dsp_initiator_templates (reconcile_expired_candidates
      (d\<lparr>dsp_candidates := snd (expire now (dsp_candidates d))\<rparr>))) \<subseteq> set (dsp_initiator_templates d)"
    by simp
  ultimately have "set (dsp_initiator_templates (snd (dispatcher_update L K rnd now d))) \<subseteq>
      set (dsp_initiator_templates d)"
    by (rule subset_trans)
  then show ?thesis
    unfolding dstep_update using assms(2) by (rule templates_subset)
next
  case dstep_post_pdu
  then show ?thesis using templates_subset [OF post_pdu_templates assms(2)] by simp
qed (use assms(2) in \<open>auto simp: templates_reach_def dispatcher_get_pdu_def dispatcher_get_payload_def
    close_def split: sum.split\<close>)

lemma templates_reach: "dispatcher_reach L K d \<Longrightarrow> templates_reach L K d"
proof (induction rule: dispatcher_reach.induct)
  case (dreach_step d d')
  then show ?case using templates_reach_step dispatcher_reach_wf by blast
qed (auto simp: Dispatcher_init_def templates_reach_def all_entries_def)

text \<open>
  C19. Forged responses cannot disturb the genuine one: when a response arrives that was not tried yet
  and the caps admit it, it is processed by a fresh exact copy of the initiator as it was before any
  response, whatever other candidates have done; the copy joins the list behind them, and the
  template and every other fork stay as they are.
\<close>

theorem response_tried_on_exact_copy:
  assumes "mlkem_works L" "dispatcher_reach L K d" "map_of (dsp_initiator_templates d) cid = Some t"
    and "duplicate_at der (forks_of cid d) = None" "add cid der [] now (dsp_candidates d) = (Inr cand, store)"
    and "route_session_init_response L K c cid der now d = (r, d')"
    and "u = snd (update_session L K c now (post_pdu der
           (t\<lparr>ses_incoming_queue := [], ses_outgoing_pdus := [], ses_outgoing_payloads := []\<rparr>)))"
  shows "(\<exists>f. forks_of cid d' = forks_of cid d @ [f] \<and> (f = u \<or> f = drained u))
    \<and> dsp_initiator_templates d' = dsp_initiator_templates d"
proof -
  let ?f = "t\<lparr>ses_incoming_queue := [], ses_outgoing_pdus := [], ses_outgoing_payloads := []\<rparr>"
  have "template_ok cid t" "session_reach L K t"
    using dispatcher_wfD(4) [OF dispatcher_reach_wf [OF assms(2)] assms(3)] templates_reach [OF assms(2)] assms(3)
    by (auto simp: templates_reach_def all_entries_def dest: map_of_SomeD)
  then have f: "fork L t = Inr ?f"
    using fork_eq [OF session_reach_wf seed_rebuilds_reach [OF assms(1)]] by (simp add: template_ok_def)
  let ?d1 = "d\<lparr>dsp_candidates := store\<rparr>"
  obtain x s' d2 where dl: "deliver L K c ?f der now cid ?d1 = (x, s', d2)"
    by (cases "deliver L K c ?f der now cid ?d1")
  have s': "s' = u \<or> s' = drained u"
    using dl assms(7) by (cases rule: deliver_cases) auto
  have "forks_of cid (set_forks cid (forks_of cid d @ [s']) d2) = forks_of cid d @ [s']"
    by (simp add: forks_of_def set_forks_def)
  moreover have "forks_of cid (e\<lparr>dsp_candidates := st\<rparr>) = forks_of cid e" for e st
    by (simp add: forks_of_def)
  ultimately have "forks_of cid d' = forks_of cid d @ [s']"
    using assms(3-6) f dl by (auto simp: route_session_init_response_def Let_def split: sum.splits)
  with s' show ?thesis
    using route_response_templates [of L K c cid der now d] assms(6) by auto
qed

subsection \<open>Promotion, and a request that fails\<close>

text \<open>An id is either not established or has no candidate left.\<close>

definition settled :: "bytes \<Rightarrow> dispatcher \<Rightarrow> bool" where
  "settled cid d \<longleftrightarrow> (cid \<in> keys (dsp_established d) \<longrightarrow> candidates_for cid (dsp_candidates d) = [])"

lemma settled_promote: "settled cid (promote_session cid w d)"
  by (simp add: settled_def promote_session_def candidates_for_discard)

lemma settled_not_established: "cid \<notin> keys (dsp_established d) \<Longrightarrow> settled cid d"
  by (simp add: settled_def)

lemma settled_reap: "cid \<notin> keys (dsp_established d) \<Longrightarrow> settled cid (reap_responder cid d)"
  by (auto simp: reap_responder_def drain_eq forget_responder_def settled_promote
      intro: settled_not_established split: option.split)

lemma set_op_established [simp]:
  "dsp_established (set_responder cid s d) = dsp_established d"
  "dsp_established (set_forks cid fs d) = dsp_established d"
  "dsp_established (forget_responder cid d) = dsp_established d"
  by (simp_all add: set_responder_def set_forks_def forget_responder_def)

lemma settled_delivered:
  assumes "deliver L K c s der now cid d = (x, s', d')" "cid \<notin> keys (dsp_established d)"
  shows "settled cid (set_responder cid s' d')" "settled cid (reap_responder cid (set_responder cid s' d'))"
    "settled cid (reap_responder cid ((set_responder cid s' d')\<lparr>dsp_candidates := st\<rparr>))"
    "settled cid (forget_responder cid (set_responder cid s' d'))"
    "settled cid (set_forks cid fs d')" "settled cid ((set_forks cid fs d')\<lparr>dsp_candidates := st\<rparr>)"
proof -
  have e: "cid \<notin> keys (dsp_established d')" using deliver_fields(1) [OF assms(1)] assms(2) by simp
  show "settled cid (reap_responder cid (set_responder cid s' d'))"
      "settled cid (reap_responder cid ((set_responder cid s' d')\<lparr>dsp_candidates := st\<rparr>))"
    using e by (simp_all add: settled_reap)
  show "settled cid (set_responder cid s' d')" "settled cid (forget_responder cid (set_responder cid s' d'))"
    "settled cid (set_forks cid fs d')" "settled cid ((set_forks cid fs d')\<lparr>dsp_candidates := st\<rparr>)"
    using e by (simp_all add: settled_not_established)
qed

lemma settled_route_request:
  assumes "cid \<notin> keys (dsp_established d)"
  shows "settled cid (snd (route_session_init_request L K c cid der now d))"
proof (cases "map_of (dsp_responder_sessions d) cid")
  case (Some s)
  obtain x s' d' where dl: "deliver L K c s der now cid d = (x, s', d')"
    by (cases "deliver L K c s der now cid d")
  show ?thesis
    using Some dl settled_delivered [OF dl assms]
    by (simp add: route_session_init_request_def split: sum.split)
next
  case None
  obtain a store where ad: "add cid der [] now (dsp_candidates d) = (a, store)" by fastforce
  let ?s = "Session_init RESPONDER None (Some (dsp_config d))"
  let ?d1 = "set_responder cid ?s (d\<lparr>dsp_candidates := store\<rparr>)"
  obtain x s' d' where dl: "deliver L K c ?s der now cid ?d1 = (x, s', d')"
    by (cases "deliver L K c ?s der now cid ?d1")
  have e: "cid \<notin> keys (dsp_established ?d1)" using assms by simp
  show ?thesis
  proof (cases a)
    case (Inl e)
    with None ad assms show ?thesis
      by (cases e) (simp_all add: route_session_init_request_def settled_not_established)
  next
    case (Inr cand)
    with None ad dl settled_delivered [OF dl e] show ?thesis
      by (simp add: route_session_init_request_def Let_def split: sum.split)
  qed
qed

lemma settled_route_response:
  assumes "cid \<notin> keys (dsp_established d)"
  shows "settled cid (snd (route_session_init_response L K c cid der now d))"
proof (cases "map_of (dsp_initiator_templates d) cid")
  case (Some template)
  obtain a store where ad: "add cid der [] now (dsp_candidates d) = (a, store)" by fastforce
  have e: "cid \<notin> keys (dsp_established (d\<lparr>dsp_candidates := store\<rparr>))" using assms by simp
  show ?thesis
  proof (cases "duplicate_at der (forks_of cid d)")
    case dup: (Some i)
    obtain x s' d' where dl: "deliver L K c (forks_of cid d ! i) der now cid d = (x, s', d')"
      by (cases "deliver L K c (forks_of cid d ! i) der now cid d")
    show ?thesis
      using Some dup dl settled_delivered(5) [OF dl assms] by (simp add: route_session_init_response_def)
  next
    case nodup: None
    show ?thesis
    proof (cases a)
      case (Inl e)
      with Some nodup ad assms show ?thesis
        by (cases e) (simp_all add: route_session_init_response_def settled_not_established)
    next
      case a: (Inr cand)
      show ?thesis
      proof (cases "fork L template")
        case (Inl x)
        with Some nodup ad a assms show ?thesis
          by (simp add: route_session_init_response_def settled_not_established)
      next
        case (Inr nf)
        obtain x s' d' where dl: "deliver L K c nf der now cid (d\<lparr>dsp_candidates := store\<rparr>) = (x, s', d')"
          by (cases "deliver L K c nf der now cid (d\<lparr>dsp_candidates := store\<rparr>)")
        with Some nodup ad a Inr settled_delivered [OF dl e] show ?thesis
          by (simp add: route_session_init_response_def Let_def split: sum.split)
      qed
    qed
  qed
qed (simp add: route_session_init_response_def assms settled_not_established)

lemma settled_route_to_forks:
  "cid \<notin> keys (dsp_established d) \<Longrightarrow> settled cid (snd (route_to_forks_loop L K cs cid der now before fs d))"
proof (induction fs arbitrary: before d)
  case (Cons f fs)
  obtain r f' where u: "update_session L K (cs (length before)) now (post_pdu der f) = (r, f')" by fastforce
  have "settled cid (snd (route_to_forks_loop L K cs cid der now (before @ [f']) fs (set_forks cid (before @ f' # fs) d)))"
    using Cons.prems by (intro Cons.IH) simp
  then show ?case
    using Cons.prems by (auto simp: u Let_def drain_eq settled_promote intro: settled_not_established split: sum.split)
qed (simp add: settled_not_established)

text \<open>
  C22. Promotion is immediate and total: the PDU that gives a correlation id an established session also
  removes the responder session, the template, all forks and all candidates of that id.
\<close>

theorem promotion_discards_siblings:
  assumes "dispatcher_reach L K d" "MakeMessage_load L der = Inr msg"
    and "mm_cid msg \<notin> keys (dsp_established d)" "dispatcher_post_pdu L K cs der now d = (r, d')"
    and "mm_cid msg \<in> keys (dsp_established d')"
  shows "mm_cid msg \<notin> keys (dsp_responder_sessions d') \<and> mm_cid msg \<notin> keys (dsp_initiator_templates d')
    \<and> mm_cid msg \<notin> keys (dsp_initiator_forks d') \<and> candidates_for (mm_cid msg) (dsp_candidates d') = []"
proof -
  let ?cid = "mm_cid msg"
  have "dispatcher_wf d'"
    using dispatcher_wf_post_pdu [OF dispatcher_reach_wf [OF assms(1)], of L K cs der now] assms(4) by simp
  then have "?cid \<notin> keys (dsp_responder_sessions d') \<and> ?cid \<notin> keys (dsp_initiator_templates d')
      \<and> ?cid \<notin> keys (dsp_initiator_forks d')"
    using assms(5) dispatcher_wfD(6,7) by blast
  moreover have "settled ?cid d'"
  proof -
    have none: "map_of (dsp_established d) ?cid = None" using assms(3) by (simp add: map_of_keys)
    have "settled ?cid (snd (dispatcher_post_pdu L K cs der now d))"
    proof (cases "map_of (dsp_responder_sessions d) ?cid")
      case (Some s)
      obtain x s' d' where dl: "deliver L K (cs 0) s der now ?cid d = (x, s', d')"
        by (cases "deliver L K (cs 0) s der now ?cid d")
      show ?thesis
        using assms(2,3) none Some dl MakeMessage_loadD(4) [OF assms(2)] settled_delivered [OF dl assms(3)]
        by (simp add: dispatcher_post_pdu_def settled_route_request settled_route_response split: sum.split)
    next
      case None
      then show ?thesis
        using assms(2,3) none MakeMessage_loadD(4) [OF assms(2)]
        by (simp add: dispatcher_post_pdu_def route_to_forks_def settled_route_request settled_route_response
            settled_route_to_forks settled_not_established)
    qed
    with assms(4) show ?thesis by simp
  qed
  ultimately show ?thesis using assms(5) by (simp add: settled_def)
qed

text \<open>
  A session init request that fails ends the initiation with the same correlation id: the request names a
  key that is not there, so its responder session is removed at once, and with it every candidate of the
  id, the initiator's own ones too; the next crank then drops the initiator.
\<close>

theorem rejected_request_ends_initiation:
  assumes "dispatcher_wf d" "MakeMessage_load L der = Inr msg" "mm_payload msg = Session_init_request req"
    and "mm_cid msg \<notin> keys (dsp_established d)" "mm_cid msg \<notin> keys (dsp_responder_sessions d)"
    and "kl_get_private_key K (sir_key_id_b req) = Inl e"
    and "add (mm_cid msg) der [] now (dsp_candidates d) = (Inr cand, store)"
    and "dispatcher_post_pdu L K cs der now d = (r, d1)" "dispatcher_update L K rnd now' d1 = (r', d2)"
  shows "r = Inr () \<and> candidates_for (mm_cid msg) (dsp_candidates d1) = []
    \<and> mm_cid msg \<notin> keys (dsp_initiator_templates d2)"
proof -
  let ?cid = "mm_cid msg"
  let ?s = "Session_init RESPONDER None (Some (dsp_config d))"
  have p: "process_incoming L K (cs 0) now der ((post_pdu der ?s)\<lparr>ses_incoming_queue := []\<rparr>) =
      (Inl HandshakeFailed, ?s\<lparr>ses_cid := Some ?cid\<rparr>)"
    using assms(2,3,6) MakeMessage_loadD(4) [OF assms(2)]
    by (simp add: process_incoming_def post_pdu_def Session_init_def handle_session_init_request_def)
  have "ses_incoming_queue (post_pdu der ?s) = [der]" "ses_state (post_pdu der ?s) \<noteq> DROPPED"
    by (simp_all add: post_pdu_def Session_init_def)
  with p have u: "update_session L K (cs 0) now (post_pdu der ?s) = (Inl HandshakeFailed, ?s\<lparr>ses_cid := Some ?cid\<rparr>)"
    by (simp add: update_session_def)
  have none: "map_of (dsp_established d) ?cid = None" "map_of (dsp_responder_sessions d) ?cid = None"
    using assms(4,5) by (simp_all add: map_of_keys)
  have "drained (?s\<lparr>ses_cid := Some ?cid\<rparr>) = ?s\<lparr>ses_cid := Some ?cid\<rparr>"
    by (simp add: drained_def Session_init_def)
  then have "(r, d1) = (Inr (), forget_responder ?cid (set_responder ?cid (?s\<lparr>ses_cid := Some ?cid\<rparr>)
      (collected (?s\<lparr>ses_cid := Some ?cid\<rparr>) ?cid (set_responder ?cid ?s (d\<lparr>dsp_candidates := store\<rparr>)))))"
    using assms(2,3,7,8) none MakeMessage_loadD(4) [OF assms(2)] u
    by (simp add: dispatcher_post_pdu_def route_session_init_request_def deliver_def
        caught_def drain_eq Let_def)
       (simp add: Session_init_def)
  then have r: "r = Inr ()" and c: "candidates_for ?cid (dsp_candidates d1) = []"
    by (simp_all add: forget_responder_def candidates_for_discard)
  have "dispatcher_wf d1"
    using dispatcher_wf_post_pdu [OF assms(1), of L K cs der now] assms(8) by simp
  with r c show ?thesis
    using update_forgets_unanswered [of d1 ?cid L K rnd now'] assms(9) by simp
qed

end
