(* ===== verification/Handshake.thy ===== *)
theory Handshake
  imports SessionProps
begin

section \<open>Two sessions: the handshake and the traffic after it\<close>

text \<open>
  The two-party view, on public methods only: PDUs are taken from one session with \<open>get_pdu\<close> and
  given to the other with \<open>post_pdu\<close>. \<open>peers\<close> is what the handshake establishes and every message
  keeps; it is the abstract contract of an established pair (two reliable, ordered, independent
  channels), and \<open>converse\<close> is shown to refine it.
\<close>

text \<open>The algorithm identifiers of the tables are object identifiers for \<^verbatim>\<open>asn1crypto\<close>.\<close>

definition standard_oids_ok :: "lib \<Rightarrow> bool" where
  "standard_oids_ok L \<longleftrightarrow> list_all (\<lambda>(_, oid). valid_oid L oid) MLKEM_OIDS \<and>
     list_all (\<lambda>(_, oid). valid_oid L oid) AEAD_OIDS"

lemma standard_oids_okD:
  assumes "standard_oids_ok L"
  shows "map_of MLKEM_OIDS l = Some oid \<Longrightarrow> valid_oid L oid"
    and "map_of AEAD_OIDS aead = Some oid' \<Longrightarrow> valid_oid L oid'"
  using assms by (auto simp: standard_oids_ok_def list_all_iff dest: map_of_SomeD)

definition libs_work :: "lib \<Rightarrow> bool" where
  "libs_work L \<longleftrightarrow> asn1_works L \<and> standard_oids_ok L \<and> mlkem_works L \<and> aead_works L \<and> hkdf_works L"

lemma libs_workD:
  assumes "libs_work L"
  shows "asn1_works L" "standard_oids_ok L" "mlkem_works L" "aead_works L" "hkdf_works L"
  using assms by (simp_all add: libs_work_def)

text \<open>A message that was built loads as itself.\<close>

lemma built_message_loads:
  assumes "asn1_works L" "length cid = 16" "asn1_valid L (make_payload_value p)"
    and "validate_payload p = Inr ()"
  obtains out where "MakeMessage_dump L \<lparr>mm_version = 0, mm_cid = cid, mm_payload = p\<rparr> = Inr out"
    and "MakeMessage_load L out = Inr \<lparr>mm_version = 0, mm_cid = cid, mm_payload = p\<rparr>"
proof -
  let ?m = "\<lparr>mm_version = 0, mm_cid = cid, mm_payload = p\<rparr>"
  have d: "MakeMessage_dump L ?m = Inr (der_encode L (make_message_value ?m))"
    using assms(4) by (simp add: MakeMessage_dump_def)
  moreover have "asn1_valid L (make_message_value ?m)"
    using assms(3) by (simp add: make_message_value_def)
  ultimately show thesis
    using that MakeMessage_load_dump [OF assms(1) _ d] assms(2) by simp
qed

subsection \<open>Established pairs\<close>

definition working_keys :: "session_keys \<Rightarrow> bool" where
  "working_keys keys \<longleftrightarrow> map_of AEAD_OIDS (sk_aead_name keys) \<noteq> None \<and>
     length (sk_key_a2b keys) = 32 \<and> length (sk_iv_a2b keys) = 12 \<and>
     length (sk_key_b2a keys) = 32 \<and> length (sk_iv_b2a keys) = 12"

text \<open>The duplicate filter holds a handshake message.\<close>

definition filters_handshake :: "lib \<Rightarrow> session \<Rightarrow> bool" where
  "filters_handshake L s \<longleftrightarrow> (\<forall>b msg inner. ses_last_received s = Some b \<longrightarrow>
     MakeMessage_load L b = Inr msg \<longrightarrow> mm_payload msg \<noteq> Message inner)"

text \<open>What is sent again in answer to a duplicate is a handshake message.\<close>

definition repeats_handshake :: "lib \<Rightarrow> session \<Rightarrow> bool" where
  "repeats_handshake L s \<longleftrightarrow> (\<forall>b msg inner. ses_last_sent s = Some b \<longrightarrow>
     MakeMessage_load L b = Inr msg \<longrightarrow> mm_payload msg \<noteq> Message inner)"

definition talking :: "lib \<Rightarrow> session \<Rightarrow> bool" where
  "talking L s \<longleftrightarrow> session_wf s \<and> ses_state s = ESTABLISHED \<and> ses_incoming_queue s = [] \<and>
     ses_outgoing_pdus s = [] \<and> ses_pending_payload s = None \<and> filters_handshake L s \<and>
     repeats_handshake L s"

definition peers :: "lib \<Rightarrow> session \<Rightarrow> session \<Rightarrow> bool" where
  "peers L a b \<longleftrightarrow> talking L a \<and> talking L b \<and> ses_role a \<noteq> ses_role b \<and> ses_cid a = ses_cid b \<and>
     ses_session_keys a = ses_session_keys b \<and> ses_seq_a2b a = ses_seq_a2b b \<and>
     ses_seq_b2a a = ses_seq_b2a b \<and>
     (case ses_session_keys a of None \<Rightarrow> False | Some keys \<Rightarrow> working_keys keys)"

lemma peers_sym: "peers L a b \<longleftrightarrow> peers L b a"
  by (auto simp: peers_def split: option.splits)

text \<open>One payload through the public methods: post, crank, carry the PDU over, crank.\<close>

definition convey :: "lib \<Rightarrow> key_lookup \<Rightarrow> key_lookup \<Rightarrow> coins \<Rightarrow> rat \<Rightarrow> bytes \<Rightarrow> session \<times> session \<Rightarrow>
    session \<times> session" where
  "convey L K K' c now p = (\<lambda>(s, r).
     let s1 = snd (post_payload p s);
         s2 = snd (update_session L K c now s1)
     in case get_pdu s2 of
          (Inl _, s3) \<Rightarrow> (s3, r)
        | (Inr der, s3) \<Rightarrow> (s3, snd (update_session L K' c now (post_pdu der r))))"

lemma outgoing_working:
  assumes "working_keys keys" "outgoing_protection s keys = (key, iv, i)"
  shows "length key = 32 \<and> length iv = 12"
  using assms by (auto simp: working_keys_def outgoing_protection_def split: if_splits)

lemma send_works:
  assumes libs: "asn1_works L" "aead_works L" and "session_wf s" "ses_state s = ESTABLISHED"
    and "ses_session_keys s = Some keys" "working_keys keys" "ses_cid s = Some cid"
    and "outgoing_protection s keys = (key, iv, i)" "i < 256 ^ 12"
    and "ses_pending_payload s = Some p" "length p < 2 ^ 31"
  obtains ct out where "send_established_payload L s = (Inr (),
        (bump_outgoing_seq (s\<lparr>ses_pending_payload := None\<rparr>))\<lparr>ses_outgoing_pdus := ses_outgoing_pdus s @ [out]\<rparr>)"
    and "MakeMessage_load L out = Inr \<lparr>mm_version = 0, mm_cid = cid,
        mm_payload = Message \<lparr>msg_seq = i, msg_m = ct\<rparr>\<rparr>"
    and "decrypt L (sk_aead_name keys) key iv i ct cid = Inr p"
proof -
  have cid: "length cid = 16" and i: "0 \<le> i"
    using assms(3,4,7,8) by (auto simp: session_wf_def awaits_defs outgoing_protection_def split: if_splits)
  obtain oid where "map_of AEAD_OIDS (sk_aead_name keys) = Some oid"
    using assms(6) by (auto simp: working_keys_def)
  from encrypt_works [OF libs(2) this] outgoing_working [OF assms(6,8)] i assms(9,11)
  obtain ct where ct: "encrypt L (sk_aead_name keys) key iv i p cid = Inr ct"
      "decrypt L (sk_aead_name keys) key iv i ct cid = Inr p"
    by blast
  obtain out where out: "MakeMessage_dump L \<lparr>mm_version = 0, mm_cid = cid,
        mm_payload = Message \<lparr>msg_seq = i, msg_m = ct\<rparr>\<rparr> = Inr out"
      "MakeMessage_load L out = Inr \<lparr>mm_version = 0, mm_cid = cid,
        mm_payload = Message \<lparr>msg_seq = i, msg_m = ct\<rparr>\<rparr>"
    by (rule built_message_loads [OF libs(1) cid, where p = "Message \<lparr>msg_seq = i, msg_m = ct\<rparr>"])
      (simp_all add: message_fields_def)
  have "send_established_payload L s = (Inr (),
        (bump_outgoing_seq (s\<lparr>ses_pending_payload := None\<rparr>))\<lparr>ses_outgoing_pdus := ses_outgoing_pdus s @ [out]\<rparr>)"
    using assms ct out cid
    by (simp add: send_established_payload_def Message_init_def MakeMessage_build_def validate_cid_def
        CID_LEN_def bump_outgoing_seq_def)
  with out(2) ct(2) show thesis using that by blast
qed

text \<open>The crank of an established session: nothing, one PDU in, or one payload out.\<close>

lemma update_talking:
  assumes "talking L s"
  shows "update_session L K c now s = (Inr (update_outcome now s), s)"
  using assms by (simp add: talking_def update_session_def timed_out_def Let_def)

lemma update_incoming:
  assumes "ses_state r \<noteq> DROPPED" "ses_incoming_queue r = [der]"
    and "process_incoming L K c now der (r\<lparr>ses_incoming_queue := []\<rparr>) = (Inr (), r')"
    and "ses_state r' \<noteq> DROPPED" "\<not> (ses_state r' = ESTABLISHED \<and> ses_pending_payload r' \<noteq> None)"
    and "\<not> timed_out now r'"
  shows "update_session L K c now r = (Inr (update_outcome now r'), r')"
  using assms by (auto simp: update_session_def Let_def)

lemma receive_process:
  assumes "talking L r" "ses_session_keys r = Some keys" "ses_cid r = Some cid"
    and "incoming_protection r keys = (key, iv, i)"
    and "MakeMessage_load L out = Inr \<lparr>mm_version = 0, mm_cid = cid,
        mm_payload = Message \<lparr>msg_seq = i, msg_m = ct\<rparr>\<rparr>"
    and "decrypt L (sk_aead_name keys) key iv i ct cid = Inr p"
  shows "process_incoming L K c now out r =
    (Inr (), (bump_incoming_seq r)\<lparr>ses_outgoing_payloads := ses_outgoing_payloads r @ [p]\<rparr>)"
proof -
  have r: "ses_state r = ESTABLISHED" "ses_last_received r \<noteq> Some out"
    using assms(1,5) by (auto simp: talking_def filters_handshake_def repeats_handshake_def)
  have h: "handle_established_message L \<lparr>msg_seq = i, msg_m = ct\<rparr> r =
      (Inr (), (bump_incoming_seq r)\<lparr>ses_outgoing_payloads := ses_outgoing_payloads r @ [p]\<rparr>)"
    using assms by (simp add: handle_established_message_def bump_incoming_seq_def)
  have c: "correlation_id \<lparr>mm_version = 0, mm_cid = cid,
        mm_payload = Message \<lparr>msg_seq = i, msg_m = ct\<rparr>\<rparr> = Inr cid"
    using MakeMessage_loadD(4) [OF assms(5)] by simp
  show ?thesis using r assms(3,5) h c by (simp add: process_incoming_def)
qed

lemma receive_works:
  assumes "talking L r" "ses_session_keys r = Some keys" "ses_cid r = Some cid"
    and "incoming_protection r keys = (key, iv, i)"
    and "MakeMessage_load L out = Inr \<lparr>mm_version = 0, mm_cid = cid,
        mm_payload = Message \<lparr>msg_seq = i, msg_m = ct\<rparr>\<rparr>"
    and "decrypt L (sk_aead_name keys) key iv i ct cid = Inr p"
  defines "r' \<equiv> (bump_incoming_seq r)\<lparr>ses_outgoing_payloads := ses_outgoing_payloads r @ [p]\<rparr>"
  shows "update_session L K c now (post_pdu out r) = (Inr (update_outcome now r'), r')"
  unfolding r'_def
proof (rule update_incoming [where der = out])
  have r: "ses_state r = ESTABLISHED" "ses_incoming_queue r = []"
    using assms(1) by (auto simp: talking_def)
  then show "ses_state (post_pdu out r) \<noteq> DROPPED" "ses_incoming_queue (post_pdu out r) = [out]"
    by (simp_all add: post_pdu_def)
  have q: "(post_pdu out r)\<lparr>ses_incoming_queue := []\<rparr> = r"
    using r by (simp add: post_pdu_def)
  show "process_incoming L K c now out ((post_pdu out r)\<lparr>ses_incoming_queue := []\<rparr>) =
      (Inr (), (bump_incoming_seq r)\<lparr>ses_outgoing_payloads := ses_outgoing_payloads r @ [p]\<rparr>)"
    unfolding q by (rule receive_process [OF assms(1-6)])
qed (use assms(1) in \<open>auto simp: talking_def timed_out_def bump_incoming_seq_def\<close>)

lemma talking_bump:
  assumes "talking L s"
  shows "talking L (bump_outgoing_seq s)" "talking L ((bump_incoming_seq s)\<lparr>ses_outgoing_payloads := ps\<rparr>)"
proof -
  have "session_wf (bump_outgoing_seq s)" "session_wf ((bump_incoming_seq s)\<lparr>ses_outgoing_payloads := ps\<rparr>)"
    using assms by (auto simp: talking_def intro: wf_intros)
  then show "talking L (bump_outgoing_seq s)"
      "talking L ((bump_incoming_seq s)\<lparr>ses_outgoing_payloads := ps\<rparr>)"
    using assms by (auto simp: talking_def bump_outgoing_seq_def bump_incoming_seq_def
        filters_handshake_def repeats_handshake_def)
qed

definition outgoing_count :: "session \<Rightarrow> int" where
  "outgoing_count s = (if ses_role s = INITIATOR then ses_seq_a2b s else ses_seq_b2a s)"

definition incoming_count :: "session \<Rightarrow> int" where
  "incoming_count s = (if ses_role s = INITIATOR then ses_seq_b2a s else ses_seq_a2b s)"

lemma payload_leaves:
  assumes libs: "asn1_works L" "aead_works L" and st: "talking L s"
    and k: "ses_session_keys s = Some keys" "working_keys keys" "ses_cid s = Some cid"
    and o: "outgoing_protection s keys = (key, iv, i)" "i < 256 ^ 12" and p: "p \<noteq> []" "length p < 2 ^ 31"
  obtains ct out where
      "\<And>K c now. update_session L K c now (s\<lparr>ses_pending_payload := Some p\<rparr>) =
        (Inr (update_outcome now ((bump_outgoing_seq s)\<lparr>ses_outgoing_pdus := [out]\<rparr>)),
         (bump_outgoing_seq s)\<lparr>ses_outgoing_pdus := [out]\<rparr>)"
    and "MakeMessage_load L out = Inr \<lparr>mm_version = 0, mm_cid = cid, mm_payload = Message \<lparr>msg_seq = i, msg_m = ct\<rparr>\<rparr>"
    and "decrypt L (sk_aead_name keys) key iv i ct cid = Inr p"
proof -
  note st = st [unfolded talking_def]
  let ?s = "s\<lparr>ses_pending_payload := Some p\<rparr>"
  have wf: "session_wf ?s"
    using session_wf_post_payload [of s p] st p(1) by (simp add: post_payload_def)
  have o': "outgoing_protection ?s keys = (key, iv, i)"
    using o(1) by (auto simp: outgoing_protection_def split: if_splits)
  obtain ct out where send: "send_established_payload L ?s = (Inr (),
        (bump_outgoing_seq (?s\<lparr>ses_pending_payload := None\<rparr>))\<lparr>ses_outgoing_pdus := ses_outgoing_pdus ?s @ [out]\<rparr>)"
      "MakeMessage_load L out = Inr \<lparr>mm_version = 0, mm_cid = cid,
        mm_payload = Message \<lparr>msg_seq = i, msg_m = ct\<rparr>\<rparr>"
      "decrypt L (sk_aead_name keys) key iv i ct cid = Inr p"
    by (rule send_works [OF libs wf _ _ k(2) _ o' o(2), where p = p and cid = cid])
      (use st k p in simp_all)
  have same: "?s\<lparr>ses_pending_payload := None\<rparr> = s" using st by simp
  have "update_session L K c now ?s =
        (Inr (update_outcome now ((bump_outgoing_seq s)\<lparr>ses_outgoing_pdus := [out]\<rparr>)),
         (bump_outgoing_seq s)\<lparr>ses_outgoing_pdus := [out]\<rparr>)" for K c now
    using st send(1) same by (simp add: update_session_def timed_out_def Let_def)
  then show thesis using that send(2,3) by simp
qed

text \<open>What the peer's keys and counters make of it.\<close>

lemma peers_protection:
  assumes "peers L s r"
  obtains keys cid key iv i where "talking L s" "talking L r" "ses_session_keys s = Some keys" "ses_session_keys r = Some keys"
    and "working_keys keys" "ses_cid s = Some cid" "ses_cid r = Some cid"
    and "outgoing_protection s keys = (key, iv, i)" "incoming_protection r keys = (key, iv, i)" "i = outgoing_count s"
proof -
  from assms obtain keys where k: "talking L s" "talking L r" "ses_role s \<noteq> ses_role r"
      "ses_session_keys s = Some keys" "ses_session_keys r = Some keys" "working_keys keys"
      "ses_cid r = ses_cid s" "ses_seq_a2b s = ses_seq_a2b r" "ses_seq_b2a s = ses_seq_b2a r"
    by (auto simp: peers_def split: option.splits)
  then obtain cid where cid: "ses_cid s = Some cid" by (auto simp: talking_def session_wf_def awaits_defs)
  obtain key iv i where o: "outgoing_protection s keys = (key, iv, i)"
    by (cases "outgoing_protection s keys") auto
  have "incoming_protection r keys = (key, iv, i)"
    using o k by (cases "ses_role r"; cases "ses_role s")
      (auto simp: outgoing_protection_def incoming_protection_def)
  moreover have "i = outgoing_count s"
    using o by (auto simp: outgoing_protection_def outgoing_count_def split: if_splits)
  ultimately show thesis using that k cid o by simp
qed

lemma payload_crosses:
  assumes libs: "asn1_works L" "aead_works L" and "peers L s r" "ses_cid r = Some cid"
    and "p \<noteq> []" "length p < 2 ^ 31" "outgoing_count s < 256 ^ 12"
  obtains out msg where
      "\<And>K c now. update_session L K c now (s\<lparr>ses_pending_payload := Some p\<rparr>) =
        (Inr (update_outcome now ((bump_outgoing_seq s)\<lparr>ses_outgoing_pdus := [out]\<rparr>)),
         (bump_outgoing_seq s)\<lparr>ses_outgoing_pdus := [out]\<rparr>)"
    and "MakeMessage_load L out = Inr msg" "mm_cid msg = cid"
    and "\<And>K c now. update_session L K c now (post_pdu out r) =
        (Inr (update_outcome now ((bump_incoming_seq r)\<lparr>ses_outgoing_payloads := ses_outgoing_payloads r @ [p]\<rparr>)),
         (bump_incoming_seq r)\<lparr>ses_outgoing_payloads := ses_outgoing_payloads r @ [p]\<rparr>)"
proof -
  obtain keys cid' key iv i where k: "talking L s" "talking L r" "ses_session_keys s = Some keys" "ses_session_keys r = Some keys"
      "working_keys keys" "ses_cid s = Some cid'" "ses_cid r = Some cid'"
      "outgoing_protection s keys = (key, iv, i)" "incoming_protection r keys = (key, iv, i)" "i = outgoing_count s"
    by (rule peers_protection [OF assms(3)])
  have cid: "cid' = cid" using k(7) assms(4) by simp
  obtain ct out where send: "\<And>K c now. update_session L K c now (s\<lparr>ses_pending_payload := Some p\<rparr>) =
        (Inr (update_outcome now ((bump_outgoing_seq s)\<lparr>ses_outgoing_pdus := [out]\<rparr>)),
         (bump_outgoing_seq s)\<lparr>ses_outgoing_pdus := [out]\<rparr>)"
      "MakeMessage_load L out = Inr \<lparr>mm_version = 0, mm_cid = cid, mm_payload = Message \<lparr>msg_seq = i, msg_m = ct\<rparr>\<rparr>"
      "decrypt L (sk_aead_name keys) key iv i ct cid = Inr p"
    by (rule payload_leaves [OF libs k(1,3,5,6,8) _ assms(5,6)]) (use k(10) assms(7) cid in auto)
  show thesis
    using that [OF send(1,2)] receive_works [OF k(2,4) assms(4) k(9) send(2,3)] by simp
qed

lemma convey_works:
  assumes libs: "asn1_works L" "aead_works L" and "peers L s r"
    and "p \<noteq> []" "length p < 2 ^ 31" "outgoing_count s < 256 ^ 12"
  shows "convey L K K' c now p (s, r) = (bump_outgoing_seq s,
      (bump_incoming_seq r)\<lparr>ses_outgoing_payloads := ses_outgoing_payloads r @ [p]\<rparr>)"
proof -
  have r: "session_wf r" "ses_state r = ESTABLISHED" and s: "ses_outgoing_pdus s = []"
    using assms(3) by (simp_all add: peers_def talking_def)
  then obtain cid where cid: "ses_cid r = Some cid" by (auto simp: session_wf_def awaits_defs)
  have emptied: "(bump_outgoing_seq s)\<lparr>ses_outgoing_pdus := []\<rparr> = bump_outgoing_seq s"
    using s by (simp add: bump_outgoing_seq_def)
  show ?thesis
    by (rule payload_crosses [OF libs assms(3) cid assms(4-6)])
      (use assms(4) in \<open>simp add: convey_def post_payload_def get_pdu_def emptied\<close>)
qed

lemma convey_peers:
  assumes "peers L s r"
  shows "peers L (bump_outgoing_seq s) ((bump_incoming_seq r)\<lparr>ses_outgoing_payloads := ps\<rparr>)"
proof -
  have t: "talking L (bump_outgoing_seq s)" "talking L ((bump_incoming_seq r)\<lparr>ses_outgoing_payloads := ps\<rparr>)"
    using assms talking_bump by (auto simp: peers_def)
  then show ?thesis
    using assms by (cases "ses_role s"; cases "ses_role r")
      (simp_all add: peers_def bump_outgoing_seq_def bump_incoming_seq_def)
qed

text \<open>
  A conversation: each entry is who speaks (\<open>True\<close>: the first of the pair) and what is said.
\<close>

fun converse :: "lib \<Rightarrow> key_lookup \<Rightarrow> key_lookup \<Rightarrow> coins \<Rightarrow> rat \<Rightarrow> (bool \<times> bytes) list \<Rightarrow>
    session \<times> session \<Rightarrow> session \<times> session" where
  "converse L K K' c now [] ab = ab"
| "converse L K K' c now ((True, p) # ms) (a, b) = converse L K K' c now ms (convey L K K' c now p (a, b))"
| "converse L K K' c now ((False, p) # ms) (a, b) =
     converse L K K' c now ms (prod.swap (convey L K' K c now p (b, a)))"

definition said :: "bool \<Rightarrow> (bool \<times> bytes) list \<Rightarrow> bytes list" where
  "said who ms = map snd (filter (\<lambda>m. fst m = who) ms)"

lemma said_simps [simp]:
  "said who [] = []" "said who ((w, p) # ms) = (if w = who then p # said who ms else said who ms)"
  by (simp_all add: said_def)

lemma bump_counts [simp]:
  "outgoing_count (bump_outgoing_seq s) = outgoing_count s + 1"
  "incoming_count (bump_outgoing_seq s) = incoming_count s"
  "outgoing_count ((bump_incoming_seq s)\<lparr>ses_outgoing_payloads := ps\<rparr>) = outgoing_count s"
  "ses_outgoing_payloads (bump_outgoing_seq s) = ses_outgoing_payloads s"
  by (simp_all add: outgoing_count_def incoming_count_def bump_outgoing_seq_def bump_incoming_seq_def)

text \<open>
  Two established peers are two reliable ordered channels: whatever they say, in whatever order
  they speak, each receives exactly what the other said, in order and nothing else, and they are
  peers again (the counters have 96 bits, and a payload must be shorter than 2^31 bytes).
\<close>

theorem conversation_delivered:
  assumes "asn1_works L" "aead_works L" "peers L a b"
    and "list_all (\<lambda>(_, p). p \<noteq> [] \<and> length p < 2 ^ 31) ms"
    and "outgoing_count a + int (length ms) \<le> 256 ^ 12"
    and "outgoing_count b + int (length ms) \<le> 256 ^ 12"
    and "converse L K K' c now ms (a, b) = (a', b')"
  shows "ses_outgoing_payloads b' = ses_outgoing_payloads b @ said True ms
    \<and> ses_outgoing_payloads a' = ses_outgoing_payloads a @ said False ms \<and> peers L a' b'"
  using assms
proof (induction ms arbitrary: a b)
  case Nil
  then show ?case by simp
next
  case (Cons m ms)
  note libs = Cons.prems(1,2)
  obtain w p where m: "m = (w, p)" by (cases m)
  show ?case
  proof (cases w)
    case True
    have "convey L K K' c now p (a, b) = (bump_outgoing_seq a,
        (bump_incoming_seq b)\<lparr>ses_outgoing_payloads := ses_outgoing_payloads b @ [p]\<rparr>)"
      by (rule convey_works [OF libs Cons.prems(3)]) (use Cons.prems m in auto)
    with Cons.IH [OF libs convey_peers [OF Cons.prems(3)]] show ?thesis
      using Cons.prems m True by simp
  next
    case False
    have ba: "peers L b a" using Cons.prems(3) by (simp add: peers_sym)
    have "convey L K' K c now p (b, a) = (bump_outgoing_seq b,
        (bump_incoming_seq a)\<lparr>ses_outgoing_payloads := ses_outgoing_payloads a @ [p]\<rparr>)"
      by (rule convey_works [OF libs ba]) (use Cons.prems m in auto)
    with Cons.IH [OF libs convey_peers [OF ba, THEN peers_sym [THEN iffD1]]] show ?thesis
      using Cons.prems m False by simp
  qed
qed

subsection \<open>The handshake, message by message\<close>

lemma wire_valid:
  assumes "standard_oids_ok L"
  shows "kem_ciphertext_ok l ct \<Longrightarrow> alg_parameters (ct_algorithm ct) = None \<Longrightarrow>
      asn1_valid L (kem_ciphertext_value ct)"
    and "key_pair L k pk \<Longrightarrow> alg_parameters (pk_algorithm pk) = None \<Longrightarrow>
      asn1_valid L (kem_public_key_value pk)"
  using standard_oids_okD(1) [OF assms]
  by (auto simp: kem_ciphertext_ok_def key_pair_def kem_ciphertext_value_def kem_public_key_value_def
      alg_value_def)

lemma rmap_checked: "list_all P xs \<Longrightarrow> rmap (\<lambda>x. if P x then Inr x else Inl e) xs = Inr xs"
  by (induction xs) simp_all

lemma AeadAlgorithmList_build_known:
  assumes "standard_oids_ok L" "names \<noteq> []" "set names \<subseteq> dom (map_of AEAD_OIDS)"
  obtains oids where "AeadAlgorithmList_build L names = Inr oids" "list_all (valid_oid L) oids"
    and "\<And>name oid. map_of AEAD_OIDS name = Some oid \<Longrightarrow> oid \<in> set oids \<longleftrightarrow> name \<in> set names"
proof -
  let ?r = "\<lambda>x. case map_of AEAD_OIDS x of None \<Rightarrow> x | Some oid \<Rightarrow> oid"
  let ?oids = "map ?r names"
  have v: "list_all (valid_oid L) ?oids"
    using assms(3) standard_oids_okD(2) [OF assms(1)] by (fastforce simp: list_all_iff)
  then have "rmap (\<lambda>x. if valid_oid L x then Inr x else Inl ValueError) ?oids = Inr ?oids"
    by (rule rmap_checked)
  then have "AeadAlgorithmList_build L names = Inr ?oids"
    using assms(2) by (simp add: AeadAlgorithmList_build_def Let_def)
  moreover have "oid \<in> set ?oids \<longleftrightarrow> name \<in> set names" if "map_of AEAD_OIDS name = Some oid" for name oid
  proof
    assume "oid \<in> set ?oids"
    then obtain n where n: "n \<in> set names" "oid = ?r n" by auto
    then have "map_of AEAD_OIDS n = Some oid" using assms(3) by auto
    then have "n = name" using that by (metis aead_name_iff option.inject)
    with n show "name \<in> set names" by simp
  qed (use that in force)
  ultimately show thesis using that v by blast
qed

lemma select_aead_common:
  assumes "set names \<subseteq> dom (map_of AEAD_OIDS)" "n \<in> set names" "map_of AEAD_OIDS n = Some d" "d \<in> set requested"
  obtains name oid where "select_aead requested names = Inr (Some name)" "name \<in> set names"
    and "map_of AEAD_OIDS name = Some oid" "oid \<in> set requested"
  using assms
proof (induction names arbitrary: thesis)
  case Nil
  then show ?case by simp
next
  case (Cons x xs)
  obtain o1 where o1: "map_of AEAD_OIDS x = Some o1" using Cons.prems(2) by auto
  show ?case
  proof (cases "o1 \<in> set requested")
    case True
    then show ?thesis using o1 by (intro Cons.prems(1) [of x o1]) auto
  next
    case False
    then have "n \<in> set xs" using o1 Cons.prems(3-5) by auto
    then show ?thesis
      using Cons.IH [of thesis] Cons.prems o1 False by auto
  qed
qed

text \<open>What the initiator's PDU carries and what it keeps for itself.\<close>

lemma initiate_works:
  assumes libs: "libs_work L" and "ses_role a = INITIATOR" "ses_state a = INITIAL"
    and "ses_own_key_id a = Some idA" "cfg_kem_level (ses_config a) = l" "l = 768 \<or> l = 1024"
    and "kl_get_public_key K idB = Inr pkB" "key_pair L skB pkB"
    and "asn1_valid L (key_id_value idA)" "asn1_valid L (key_id_value idB)"
    and "cfg_acceptable_aeads (ses_config a) \<noteq> []"
    and "set (cfg_acceptable_aeads (ses_config a)) \<subseteq> dom (map_of AEAD_OIDS)"
    and "length (coin_uuid4 c) = 16"
  obtains ka pka s1 ct1 oids out where
      "initiate L K c idB now a = (Inr (), a\<lparr>ses_cid := Some (coin_uuid4 c),
        ses_peer_key_id := Some idB, ses_own_ephemeral_private := Some ka,
        ses_own_ephemeral_public := Some pka, ses_s1 := Some s1, ses_last_sent := Some out,
        ses_attempt_count := 0,
        ses_deadline := Some (now + cfg_retry_interval_seconds (ses_config a)),
        ses_state := EXPECT_SESSION_INIT_RESPONSE,
        ses_outgoing_pdus := ses_outgoing_pdus a @ [out]\<rparr>)"
      "MakeMessage_load L out = Inr \<lparr>mm_version = 0, mm_cid = coin_uuid4 c,
        mm_payload = Session_init_request \<lparr>sir_ct1 = ct1, sir_key_id_b = idB, sir_pk_a_star = pka,
          sir_key_id_a = idA, sir_acceptable_aeads = oids\<rparr>\<rparr>"
      "key_pair L ka pka" "priv_level ka = l"
      "decapsulate L (private_bytes_raw skB) (priv_level skB) ct1 = Inr s1"
      "\<And>name oid. map_of AEAD_OIDS name = Some oid \<Longrightarrow>
        oid \<in> set oids \<longleftrightarrow> name \<in> set (cfg_acceptable_aeads (ses_config a))"
proof -
  note L = libs_workD [OF libs]
  obtain ka pka where k: "generate_ephemeral L l (coin_generate c) = Inr (ka, pka)"
      "key_pair L ka pka" "priv_level ka = l" "alg_parameters (pk_algorithm pka) = None"
    by (rule generate_ephemeral_works [OF L(3) assms(6)])
  obtain s1 ct1 where e: "encapsulate L pkB (coin_encaps1 c) = Inr (s1, ct1)"
      "decapsulate L (private_bytes_raw skB) (priv_level skB) ct1 = Inr s1"
      "kem_ciphertext_ok (priv_level skB) ct1" "alg_parameters (ct_algorithm ct1) = None"
    by (rule encapsulate_works [OF assms(8)])
  obtain oids where o: "AeadAlgorithmList_build L (cfg_acceptable_aeads (ses_config a)) = Inr oids"
      "list_all (valid_oid L) oids"
      "\<And>name oid. map_of AEAD_OIDS name = Some oid \<Longrightarrow>
        oid \<in> set oids \<longleftrightarrow> name \<in> set (cfg_acceptable_aeads (ses_config a))"
    by (rule AeadAlgorithmList_build_known [OF L(2) assms(11,12)]) blast
  let ?p = "Session_init_request \<lparr>sir_ct1 = ct1, sir_key_id_b = idB, sir_pk_a_star = pka,
          sir_key_id_a = idA, sir_acceptable_aeads = oids\<rparr>"
  have "asn1_valid L (make_payload_value ?p)"
    using wire_valid(1) [OF L(2) e(3,4)] wire_valid(2) [OF L(2) k(2,4)] assms(9,10) o(2)
    by (simp add: session_init_request_fields_def list_all_iff)
  then obtain out where out: "MakeMessage_dump L \<lparr>mm_version = 0, mm_cid = coin_uuid4 c, mm_payload = ?p\<rparr> = Inr out"
      "MakeMessage_load L out = Inr \<lparr>mm_version = 0, mm_cid = coin_uuid4 c, mm_payload = ?p\<rparr>"
    by (rule built_message_loads [OF L(1) assms(13), where p = ?p]) simp_all
  have "initiate L K c idB now a = (Inr (), a\<lparr>ses_cid := Some (coin_uuid4 c),
        ses_peer_key_id := Some idB, ses_own_ephemeral_private := Some ka,
        ses_own_ephemeral_public := Some pka, ses_s1 := Some s1, ses_last_sent := Some out,
        ses_attempt_count := 0,
        ses_deadline := Some (now + cfg_retry_interval_seconds (ses_config a)),
        ses_state := EXPECT_SESSION_INIT_RESPONSE,
        ses_outgoing_pdus := ses_outgoing_pdus a @ [out]\<rparr>)"
    using assms(2-5,7,13) k(1) e(1) o(1) out(1)
    by (simp add: initiate_def Let_def MakeMessage_build_def validate_cid_def CID_LEN_def)
  then show thesis by (rule that) (use out k e o in auto)
qed

lemma respond_works:
  assumes libs: "libs_work L" and "ses_cid b = Some cid" "length cid = 16"
    and "kl_get_private_key K (sir_key_id_b req) = Inr (private_bytes_raw skB)"
    and "kl_get_public_key K (sir_key_id_a req) = Inr pkA" "key_pair L skA pkA"
    and "key_pair L ka (sir_pk_a_star req)" "priv_level skB = priv_level ka"
    and "decapsulate L (private_bytes_raw skB) (priv_level skB) (sir_ct1 req) = Inr s1"
    and "set (cfg_acceptable_aeads (ses_config b)) \<subseteq> dom (map_of AEAD_OIDS)"
    and "n \<in> set (cfg_acceptable_aeads (ses_config b))" "map_of AEAD_OIDS n = Some d"
    and "d \<in> set (sir_acceptable_aeads req)"
  obtains kb pkb s2 ct2 s3 ct3 aead oid out where
      "handle_session_init_request L K c now req der b = (Inr (),
        b\<lparr>ses_own_ephemeral_private := Some kb, ses_own_ephemeral_public := Some pkb,
          ses_peer_static_public := Some pkA, ses_peer_key_id := Some (sir_key_id_a req),
          ses_s1 := Some s1, ses_s2 := Some s2, ses_s3 := Some s3,
          ses_n_b := Some (coin_urandom16 c), ses_chosen_aead := Some aead,
          ses_last_received := Some der, ses_last_sent := Some out, ses_attempt_count := 0,
          ses_deadline := Some (now + cfg_ttl_seconds (ses_config b)),
          ses_state := EXPECT_SESSION_COMPLETION_REQUEST,
          ses_outgoing_pdus := ses_outgoing_pdus b @ [out]\<rparr>)"
      "MakeMessage_load L out = Inr \<lparr>mm_version = 0, mm_cid = cid,
        mm_payload = Session_init_response \<lparr>rsp_pk_b_star = pkb, rsp_ct2 = ct2, rsp_ct3 = ct3,
          rsp_n_b = coin_urandom16 c, rsp_chosen_aead = oid\<rparr>\<rparr>"
      "key_pair L kb pkb" "priv_level kb = priv_level ka"
      "decapsulate L (private_bytes_raw ka) (priv_level ka) ct2 = Inr s2"
      "decapsulate L (private_bytes_raw skA) (priv_level skA) ct3 = Inr s3"
      "map_of AEAD_OIDS aead = Some oid" "oid \<in> set (sir_acceptable_aeads req)"
proof -
  note L = libs_workD [OF libs]
  have lev: "level_of (sir_pk_a_star req) = Inr (priv_level ka)" "priv_level ka = 768 \<or> priv_level ka = 1024"
    using assms(7) by (simp_all add: key_pair_level) (simp add: key_pair_def)
  obtain kb pkb where k: "generate_ephemeral L (priv_level ka) (coin_generate c) = Inr (kb, pkb)"
      "key_pair L kb pkb" "priv_level kb = priv_level ka" "alg_parameters (pk_algorithm pkb) = None"
    by (rule generate_ephemeral_works [OF L(3) lev(2)])
  obtain s2 ct2 where e2: "encapsulate L (sir_pk_a_star req) (coin_encaps1 c) = Inr (s2, ct2)"
      "decapsulate L (private_bytes_raw ka) (priv_level ka) ct2 = Inr s2"
      "kem_ciphertext_ok (priv_level ka) ct2" "alg_parameters (ct_algorithm ct2) = None"
    by (rule encapsulate_works [OF assms(7)])
  obtain s3 ct3 where e3: "encapsulate L pkA (coin_encaps2 c) = Inr (s3, ct3)"
      "decapsulate L (private_bytes_raw skA) (priv_level skA) ct3 = Inr s3"
      "kem_ciphertext_ok (priv_level skA) ct3" "alg_parameters (ct_algorithm ct3) = None"
    by (rule encapsulate_works [OF assms(6)])
  obtain aead oid where s: "select_aead (sir_acceptable_aeads req) (cfg_acceptable_aeads (ses_config b)) = Inr (Some aead)"
      "map_of AEAD_OIDS aead = Some oid" "oid \<in> set (sir_acceptable_aeads req)"
    by (rule select_aead_common [OF assms(10-13)])
  let ?p = "Session_init_response \<lparr>rsp_pk_b_star = pkb, rsp_ct2 = ct2, rsp_ct3 = ct3,
          rsp_n_b = coin_urandom16 c, rsp_chosen_aead = oid\<rparr>"
  have "asn1_valid L (make_payload_value ?p)"
    using wire_valid(1) [OF L(2) e2(3,4)] wire_valid(1) [OF L(2) e3(3,4)] wire_valid(2) [OF L(2) k(2,4)]
      standard_oids_okD(2) [OF L(2) s(2)]
    by (simp add: session_init_response_fields_def)
  then obtain out where out: "MakeMessage_dump L \<lparr>mm_version = 0, mm_cid = cid, mm_payload = ?p\<rparr> = Inr out"
      "MakeMessage_load L out = Inr \<lparr>mm_version = 0, mm_cid = cid, mm_payload = ?p\<rparr>"
    by (rule built_message_loads [OF L(1) assms(3), where p = ?p]) simp_all
  show thesis
    by (rule that [where kb = kb and pkb = pkb and ?s2.0 = s2 and ?ct2.0 = ct2 and ?s3.0 = s3 and ?ct3.0 = ct3 and
      aead = aead and oid = oid and out = out])
      (use assms lev k e2 e3 s out in \<open>simp_all add: handle_session_init_request_def Let_def
         MakeMessage_build_def validate_cid_def CID_LEN_def\<close>)
qed

lemma complete_works:
  assumes libs: "libs_work L" and "ses_cid a = Some cid" "length cid = 16"
    and "ses_own_key_id a = Some idA" "kl_get_private_key K idA = Inr (private_bytes_raw skA)"
    and "ses_own_ephemeral_private a = Some ka" "cfg_kem_level (ses_config a) = priv_level ka"
    and "priv_level skA = priv_level ka" "ses_s1 a = Some s1"
    and "decapsulate L (private_bytes_raw ka) (priv_level ka) (rsp_ct2 resp) = Inr s2"
    and "decapsulate L (private_bytes_raw skA) (priv_level skA) (rsp_ct3 resp) = Inr s3"
    and "key_pair L kb (rsp_pk_b_star resp)" "map_of AEAD_OIDS aead = Some (rsp_chosen_aead resp)"
    and "aead \<in> set (cfg_acceptable_aeads (ses_config a))"
    and "plaintext = (case ses_pending_payload a of None \<Rightarrow> [] | Some p \<Rightarrow> p)" "length plaintext < 2 ^ 31"
  obtains keys s4 ct4 c_m out where
      "handle_session_init_response L K c now resp der a = (Inr (),
        a\<lparr>ses_pending_payload := None, ses_n_a := Some (coin_urandom16 c),
          ses_n_b := Some (rsp_n_b resp), ses_chosen_aead := Some aead,
          ses_session_keys := Some keys, ses_seq_a2b := 1,
          ses_sent_plaintext_for_h_m := Some plaintext,
          ses_last_received := Some der, ses_last_sent := Some out, ses_attempt_count := 0,
          ses_deadline := Some (now + cfg_retry_interval_seconds (ses_config a)),
          ses_state := EXPECT_SESSION_COMPLETION_RESPONSE,
          ses_outgoing_pdus := ses_outgoing_pdus a @ [out]\<rparr>)"
      "MakeMessage_load L out = Inr \<lparr>mm_version = 0, mm_cid = cid,
        mm_payload = Session_completion_request \<lparr>scr_c_m = c_m, scr_ct4 = ct4,
          scr_n_a = coin_urandom16 c\<rparr>\<rparr>"
      "derive_session_keys L (coin_urandom16 c) (rsp_n_b resp) (KeyId_dump L idA) s1 s2 s3 s4 aead = Inr keys"
      "working_keys keys" "decapsulate L (private_bytes_raw kb) (priv_level kb) ct4 = Inr s4"
      "decrypt L (sk_aead_name keys) (sk_key_a2b keys) (sk_iv_a2b keys) 0 c_m cid = Inr plaintext"
proof -
  note L = libs_workD [OF libs]
  obtain s4 ct4 where e: "encapsulate L (rsp_pk_b_star resp) (coin_encaps1 c) = Inr (s4, ct4)"
      "decapsulate L (private_bytes_raw kb) (priv_level kb) ct4 = Inr s4"
      "kem_ciphertext_ok (priv_level kb) ct4" "alg_parameters (ct_algorithm ct4) = None"
    by (rule encapsulate_works [OF assms(12)])
  obtain keys where k:
      "derive_session_keys L (coin_urandom16 c) (rsp_n_b resp) (KeyId_dump L idA) s1 s2 s3 s4 aead = Inr keys"
      "sk_aead_name keys = aead" "length (sk_key_a2b keys) = 32" "length (sk_iv_a2b keys) = 12"
      "length (sk_key_b2a keys) = 32" "length (sk_iv_b2a keys) = 12"
    by (rule derive_session_keys_works [OF L(5) assms(13)])
  obtain c_m where m: "encrypt L aead (sk_key_a2b keys) (sk_iv_a2b keys) 0 plaintext cid = Inr c_m"
      "c_m \<noteq> []" "decrypt L aead (sk_key_a2b keys) (sk_iv_a2b keys) 0 c_m cid = Inr plaintext"
    by (rule encrypt_works [OF L(4) assms(13) k(3,4) _ _ assms(16), where i = 0 and ad = cid]) simp_all
  have name: "aead_name (rsp_chosen_aead resp) = Some aead"
    using assms(13) by (simp add: aead_name_iff)
  let ?r = "\<lparr>scr_c_m = c_m, scr_ct4 = ct4, scr_n_a = coin_urandom16 c\<rparr>"
  have "asn1_valid L (make_payload_value (Session_completion_request ?r))"
    using wire_valid(1) [OF L(2) e(3,4)] by (simp add: session_completion_request_fields_def)
  moreover have v: "validate_c_m ?r = Inr ()"
    using m(2) by (simp add: validate_c_m_def)
  ultimately obtain out where out:
      "MakeMessage_dump L \<lparr>mm_version = 0, mm_cid = cid, mm_payload = Session_completion_request ?r\<rparr> = Inr out"
      "MakeMessage_load L out = Inr \<lparr>mm_version = 0, mm_cid = cid, mm_payload = Session_completion_request ?r\<rparr>"
    using built_message_loads [OF L(1) assms(3), where p = "Session_completion_request ?r"] by auto
  have op: "open_init_response L K c resp a = Inr (aead, ct4, keys, plaintext, c_m)"
    unfolding open_init_response_eq_Inr using assms e k m name by auto
  show thesis
    by (rule that [where keys = keys and ?s4.0 = s4 and ?ct4.0 = ct4 and c_m = c_m and out = out])
      (use assms op e k m v out in \<open>simp_all add: handle_session_init_response_def Let_def working_keys_def
         SessionCompletionRequest_build_def MakeMessage_build_def validate_cid_def CID_LEN_def\<close>)
qed

lemma finish_works:
  assumes libs: "libs_work L" and "ses_cid b = Some cid" "length cid = 16"
    and "ses_own_ephemeral_private b = Some kb" "cfg_kem_level (ses_config b) = priv_level kb"
    and "ses_n_b b = Some n_b" "ses_peer_key_id b = Some idA"
    and "ses_s1 b = Some s1" "ses_s2 b = Some s2" "ses_s3 b = Some s3" "ses_chosen_aead b = Some aead"
    and "decapsulate L (private_bytes_raw kb) (priv_level kb) (scr_ct4 req) = Inr s4"
    and "derive_session_keys L (scr_n_a req) n_b (KeyId_dump L idA) s1 s2 s3 s4 aead = Inr keys"
    and "working_keys keys"
    and "decrypt L (sk_aead_name keys) (sk_key_a2b keys) (sk_iv_a2b keys) 0 (scr_c_m req) cid = Inr plaintext"
    and "\<And>p. ses_pending_payload b = Some p \<Longrightarrow> length p < 2 ^ 31"
  obtains m out where
      "handle_session_completion_request L now req der b = (Inr (),
        (clear_replied (deliver_payload plaintext b))
         \<lparr>ses_n_a := Some (scr_n_a req), ses_s4 := Some s4, ses_session_keys := Some keys,
          ses_seq_a2b := 1, ses_last_received := Some der, ses_last_sent := Some out,
          ses_state := ESTABLISHED, ses_deadline := None,
          ses_outgoing_pdus := ses_outgoing_pdus b @ [out]\<rparr>)"
      "MakeMessage_load L out = Inr \<lparr>mm_version = 0, mm_cid = cid,
        mm_payload = Session_completion_response \<lparr>scp_h_m = sha256 L plaintext, scp_m = m\<rparr>\<rparr>"
      "case ses_pending_payload b of None \<Rightarrow> m = None
       | Some p \<Rightarrow> \<exists>ct. m = Some ct \<and>
           decrypt L (sk_aead_name keys) (sk_key_b2a keys) (sk_iv_b2a keys) 0 ct cid = Inr p"
proof -
  note L = libs_workD [OF libs]
  have op: "open_completion_request L req b = Inr (s4, keys, plaintext)"
    unfolding open_completion_request_eq_Inr using assms by auto
  obtain oid where oid: "map_of AEAD_OIDS (sk_aead_name keys) = Some oid"
    using assms(14) by (auto simp: working_keys_def)
  have "\<exists>m. case ses_pending_payload b of None \<Rightarrow> m = None
       | Some p \<Rightarrow> \<exists>ct. m = Some ct \<and>
           encrypt L (sk_aead_name keys) (sk_key_b2a keys) (sk_iv_b2a keys) 0 p cid = Inr ct \<and>
           decrypt L (sk_aead_name keys) (sk_key_b2a keys) (sk_iv_b2a keys) 0 ct cid = Inr p"
  proof (cases "ses_pending_payload b")
    case (Some p)
    have "length p < 2 ^ 31" using assms(16) Some .
    then obtain ct where "encrypt L (sk_aead_name keys) (sk_key_b2a keys) (sk_iv_b2a keys) 0 p cid = Inr ct"
        "decrypt L (sk_aead_name keys) (sk_key_b2a keys) (sk_iv_b2a keys) 0 ct cid = Inr p"
      using encrypt_works [OF L(4) oid, of "sk_key_b2a keys" "sk_iv_b2a keys" 0 p cid] assms(14)
      by (auto simp: working_keys_def)
    with Some show ?thesis by auto
  qed simp
  then obtain m where m: "case ses_pending_payload b of None \<Rightarrow> m = None
       | Some p \<Rightarrow> \<exists>ct. m = Some ct \<and>
           encrypt L (sk_aead_name keys) (sk_key_b2a keys) (sk_iv_b2a keys) 0 p cid = Inr ct \<and>
           decrypt L (sk_aead_name keys) (sk_key_b2a keys) (sk_iv_b2a keys) 0 ct cid = Inr p"
    by blast
  let ?p = "Session_completion_response \<lparr>scp_h_m = sha256 L plaintext, scp_m = m\<rparr>"
  obtain out where out: "MakeMessage_dump L \<lparr>mm_version = 0, mm_cid = cid, mm_payload = ?p\<rparr> = Inr out"
      "MakeMessage_load L out = Inr \<lparr>mm_version = 0, mm_cid = cid, mm_payload = ?p\<rparr>"
    by (rule built_message_loads [OF L(1) assms(3), where p = ?p])
      (cases m; simp add: session_completion_response_fields_def)+
  have rep: "reply_to_completion_request L keys (deliver_payload plaintext b) =
      (Inr m, clear_replied (deliver_payload plaintext b))"
    using m assms(2) by (cases "ses_pending_payload b")
      (auto simp: reply_to_completion_request_def clear_replied_def deliver_payload_def)
  have frame: "ses_cid (clear_replied (deliver_payload plaintext b)) = Some cid"
      "ses_outgoing_pdus (clear_replied (deliver_payload plaintext b)) = ses_outgoing_pdus b"
    using assms(2) by (simp_all add: clear_replied_def deliver_payload_def)
  have "handle_session_completion_request L now req der b = (Inr (),
        (clear_replied (deliver_payload plaintext b))
         \<lparr>ses_n_a := Some (scr_n_a req), ses_s4 := Some s4, ses_session_keys := Some keys,
          ses_seq_a2b := 1, ses_last_received := Some der, ses_last_sent := Some out,
          ses_state := ESTABLISHED, ses_deadline := None,
          ses_outgoing_pdus := ses_outgoing_pdus b @ [out]\<rparr>)"
    using out(1) assms(3) unfolding handle_session_completion_request_def op deliver_payload_def [symmetric]
    by (simp add: rep frame MakeMessage_build_def validate_cid_def CID_LEN_def Let_def)
  then show thesis by (rule that [OF _ out(2)]) (use m in \<open>auto split: option.splits\<close>)
qed

lemma accept_completion_works:
  assumes "ses_sent_plaintext_for_h_m a = Some plaintext" "scp_h_m resp = sha256 L plaintext"
    and "ses_session_keys a = Some keys" "ses_cid a = Some cid"
    and "case reply of None \<Rightarrow> scp_m resp = None
       | Some p \<Rightarrow> \<exists>ct. scp_m resp = Some ct \<and>
           decrypt L (sk_aead_name keys) (sk_key_b2a keys) (sk_iv_b2a keys) 0 ct cid = Inr p"
  shows "handle_session_completion_response L now resp der a = (Inr (),
      (case reply of None \<Rightarrow> a
       | Some p \<Rightarrow> a\<lparr>ses_seq_b2a := 1, ses_outgoing_payloads := ses_outgoing_payloads a @ [p]\<rparr>)
      \<lparr>ses_last_received := Some der, ses_last_sent := None, ses_state := ESTABLISHED,
       ses_deadline := None\<rparr>)"
  using assms by (cases reply) (auto simp: handle_session_completion_response_def)

subsection \<open>The whole handshake\<close>

definition pass_pdu :: "session \<times> session \<Rightarrow> session \<times> session" where
  "pass_pdu = (\<lambda>(s, r). case get_pdu s of
     (Inl _, s') \<Rightarrow> (s', r) | (Inr der, s') \<Rightarrow> (s', post_pdu der r))"

text \<open>The request and its response, then the completion request and its response.\<close>

definition first_flight :: "lib \<Rightarrow> key_lookup \<Rightarrow> key_lookup \<Rightarrow> key_id \<Rightarrow> coins \<Rightarrow> coins \<Rightarrow>
    (nat \<Rightarrow> rat) \<Rightarrow> session \<times> session \<Rightarrow> session \<times> session" where
  "first_flight L KA KB idB ca cb t = (\<lambda>(a0, b0).
     let a1 = snd (initiate L KA ca idB (t 0) a0);
         (a2, b1) = pass_pdu (a1, b0);
         b2 = snd (update_session L KB cb (t 1) b1);
         (b3, a3) = pass_pdu (b2, a2)
     in (a3, b3))"

definition second_flight :: "lib \<Rightarrow> key_lookup \<Rightarrow> key_lookup \<Rightarrow> coins \<Rightarrow> coins \<Rightarrow>
    (nat \<Rightarrow> rat) \<Rightarrow> session \<times> session \<Rightarrow> session \<times> session" where
  "second_flight L KA KB ca cb t = (\<lambda>(a0, b0).
     let a1 = snd (update_session L KA ca (t 2) a0);
         (a2, b1) = pass_pdu (a1, b0);
         b2 = snd (update_session L KB cb (t 3) b1);
         (b3, a3) = pass_pdu (b2, a2);
         a4 = snd (update_session L KA ca (t 4) a3)
     in (a4, b3))"

definition handshake :: "lib \<Rightarrow> key_lookup \<Rightarrow> key_lookup \<Rightarrow> key_id \<Rightarrow> coins \<times> coins \<times> coins \<Rightarrow>
    (nat \<Rightarrow> rat) \<Rightarrow> session \<times> session \<Rightarrow> session \<times> session" where
  "handshake L KA KB idB = (\<lambda>(ca, cb, ca') t ab.
     second_flight L KA KB ca' cb t (first_flight L KA KB idB ca cb t ab))"

text \<open>
  What the two sides need: fresh sessions whose queues are empty, both configured for the level of
  both static keys, an algorithm in common, and the key directories holding the matching keys.
\<close>

definition holds_key :: "lib \<Rightarrow> int \<Rightarrow> key_lookup \<Rightarrow> key_lookup \<Rightarrow> key_id \<Rightarrow> mlkem_private \<Rightarrow> kem_public_key \<Rightarrow> bool" where
  "holds_key L level own peer kid k pk \<longleftrightarrow> key_pair L k pk \<and> priv_level k = level \<and>
     asn1_valid L (key_id_value kid) \<and> kl_get_private_key own kid = Inr (private_bytes_raw k) \<and>
     kl_get_public_key peer kid = Inr pk"

definition fresh_session :: "int \<Rightarrow> session \<Rightarrow> bool" where
  "fresh_session level s \<longleftrightarrow> session_wf s \<and> ses_state s = INITIAL \<and> ses_incoming_queue s = [] \<and>
     ses_outgoing_pdus s = [] \<and> cfg_kem_level (ses_config s) = level \<and>
     set (cfg_acceptable_aeads (ses_config s)) \<subseteq> dom (map_of AEAD_OIDS) \<and>
     0 < cfg_retry_interval_seconds (ses_config s) \<and> 0 < cfg_ttl_seconds (ses_config s) \<and>
     (case ses_pending_payload s of None \<Rightarrow> True | Some p \<Rightarrow> length p < 2 ^ 31)"

definition handshake_ready :: "lib \<Rightarrow> key_lookup \<Rightarrow> key_lookup \<Rightarrow> key_id \<Rightarrow> key_id \<Rightarrow> session \<Rightarrow> session \<Rightarrow> bool" where
  "handshake_ready L KA KB idA idB a b \<longleftrightarrow>
     (\<exists>level skA pkA skB pkB. (level = 768 \<or> level = 1024) \<and>
        holds_key L level KA KB idA skA pkA \<and> holds_key L level KB KA idB skB pkB \<and>
        fresh_session level a \<and> fresh_session level b) \<and>
     ses_role a = INITIATOR \<and> ses_own_key_id a = Some idA \<and> ses_role b = RESPONDER \<and>
     set (cfg_acceptable_aeads (ses_config a)) \<inter> set (cfg_acceptable_aeads (ses_config b)) \<noteq> {}"

lemma update_posted:
  assumes "ses_state r \<noteq> DROPPED" "ses_incoming_queue r = []"
    and "process_incoming L K c now der r = (Inr (), r')"
    and "ses_state r' \<noteq> DROPPED" "\<not> (ses_state r' = ESTABLISHED \<and> ses_pending_payload r' \<noteq> None)"
    and "\<not> timed_out now r'"
  shows "update_session L K c now (post_pdu der r) = (Inr (update_outcome now r'), r')"
proof (rule update_incoming)
  have "(post_pdu der r)\<lparr>ses_incoming_queue := []\<rparr> = r"
    using assms(2) by (simp add: post_pdu_def)
  with assms(3) show "process_incoming L K c now der ((post_pdu der r)\<lparr>ses_incoming_queue := []\<rparr>) = (Inr (), r')"
    by simp
qed (use assms in \<open>auto simp: post_pdu_def\<close>)

lemma process_expected:
  assumes "MakeMessage_load L der = Inr msg" "ses_last_received s \<noteq> Some der"
  shows "ses_state s = INITIAL \<Longrightarrow> ses_role s = RESPONDER \<Longrightarrow> mm_payload msg = Session_init_request q \<Longrightarrow>
      process_incoming L K c now der s =
        handle_session_init_request L K c now q der (s\<lparr>ses_cid := Some (mm_cid msg)\<rparr>)"
    and "ses_state s = EXPECT_SESSION_INIT_RESPONSE \<Longrightarrow> ses_role s = INITIATOR \<Longrightarrow>
      ses_cid s = Some (mm_cid msg) \<Longrightarrow> mm_payload msg = Session_init_response p \<Longrightarrow>
      process_incoming L K c now der s = handle_session_init_response L K c now p der s"
    and "ses_state s = EXPECT_SESSION_COMPLETION_REQUEST \<Longrightarrow> ses_role s = RESPONDER \<Longrightarrow>
      ses_cid s = Some (mm_cid msg) \<Longrightarrow> mm_payload msg = Session_completion_request cq \<Longrightarrow>
      process_incoming L K c now der s = handle_session_completion_request L now cq der s"
    and "ses_state s = EXPECT_SESSION_COMPLETION_RESPONSE \<Longrightarrow> ses_role s = INITIATOR \<Longrightarrow>
      ses_cid s = Some (mm_cid msg) \<Longrightarrow> mm_payload msg = Session_completion_response cp \<Longrightarrow>
      process_incoming L K c now der s = handle_session_completion_response L now cp der s"
  using assms MakeMessage_loadD(4) [OF assms(1)] by (simp_all add: process_incoming_def)

lemma cranked_wf:
  assumes "session_wf s" "update_session L K c now (post_pdu der s) = (x, s'\<lparr>ses_outgoing_pdus := ps\<rparr>)"
    and "ses_outgoing_pdus s' = []"
  shows "session_wf s'"
proof -
  have "session_wf (s'\<lparr>ses_outgoing_pdus := ps\<rparr>)"
    using session_wf_update [OF session_wf_post_pdu [OF assms(1)], of L K c now der] assms(2) by simp
  from session_wf_queue(2) [OF this, of "[]"] have "session_wf (s'\<lparr>ses_outgoing_pdus := []\<rparr>)" by simp
  moreover have "s'\<lparr>ses_outgoing_pdus := []\<rparr> = s'" using assms(3) by simp
  ultimately show ?thesis by simp
qed

lemma pass_pdu_wf: "session_wf a \<Longrightarrow> session_wf b \<Longrightarrow>
    session_wf (fst (pass_pdu (a, b))) \<and> session_wf (snd (pass_pdu (a, b)))"
  using session_wf_get(1) [of a]
  by (auto simp: pass_pdu_def intro: session_wf_post_pdu split: prod.split sum.split)

lemma flight_wf:
  assumes "session_wf a" "session_wf b"
  shows "session_wf (fst (first_flight L KA KB idB ca cb t (a, b))) \<and>
      session_wf (snd (first_flight L KA KB idB ca cb t (a, b)))"
    and "session_wf (fst (second_flight L KA KB ca cb t (a, b))) \<and>
      session_wf (snd (second_flight L KA KB ca cb t (a, b)))"
  using assms pass_pdu_wf
  by (simp_all add: first_flight_def second_flight_def Let_def split_beta session_wf_initiate session_wf_update)

lemma pass_pdu_one:
  "ses_outgoing_pdus s = [out] \<Longrightarrow>
     pass_pdu (s, r) = (s\<lparr>ses_outgoing_pdus := []\<rparr>, post_pdu out r)"
  by (simp add: pass_pdu_def get_pdu_def)

text \<open>
  What is in flight at each step. \<open>offered\<close>: the request, which the responder has not seen;
  \<open>halfway\<close>: the response, the two sides hold the same three secrets; \<open>closing\<close>: the completion
  request, the initiator holds the keys and the responder can derive them; \<open>confirming\<close>: the
  completion response, the responder is established.
\<close>

definition initiator_halfway :: "lib \<Rightarrow> key_lookup \<Rightarrow> key_id \<Rightarrow> bytes \<Rightarrow> mlkem_private \<Rightarrow> bytes \<Rightarrow> session \<Rightarrow> bool" where
  "initiator_halfway L KA idA cid ka s1 a \<longleftrightarrow> ses_role a = INITIATOR \<and>
     ses_state a = EXPECT_SESSION_INIT_RESPONSE \<and> ses_cid a = Some cid \<and> ses_own_key_id a = Some idA \<and>
     ses_own_ephemeral_private a = Some ka \<and> cfg_kem_level (ses_config a) = priv_level ka \<and>
     ses_s1 a = Some s1 \<and> ses_last_received a = None \<and> ses_incoming_queue a = [] \<and>
     ses_outgoing_pdus a = [] \<and> ses_seq_b2a a = 0 \<and> 0 < cfg_retry_interval_seconds (ses_config a) \<and>
     (case ses_pending_payload a of None \<Rightarrow> True | Some p \<Rightarrow> length p < 2 ^ 31)"

definition responder_halfway :: "lib \<Rightarrow> key_id \<Rightarrow> bytes \<Rightarrow> mlkem_private \<Rightarrow> bytes \<Rightarrow> bytes \<Rightarrow> bytes \<Rightarrow> bytes \<Rightarrow>
    string \<Rightarrow> session \<Rightarrow> bool" where
  "responder_halfway L idA cid kb s1 s2 s3 n_b aead b \<longleftrightarrow> ses_role b = RESPONDER \<and>
     ses_state b = EXPECT_SESSION_COMPLETION_REQUEST \<and> ses_cid b = Some cid \<and>
     ses_own_ephemeral_private b = Some kb \<and> cfg_kem_level (ses_config b) = priv_level kb \<and>
     ses_peer_key_id b = Some idA \<and> ses_s1 b = Some s1 \<and> ses_s2 b = Some s2 \<and> ses_s3 b = Some s3 \<and>
     ses_n_b b = Some n_b \<and> ses_chosen_aead b = Some aead \<and>
     ses_incoming_queue b = [] \<and> ses_outgoing_pdus b = [] \<and> ses_seq_b2a b = 0 \<and>
     (\<forall>der msg r. ses_last_received b = Some der \<longrightarrow> MakeMessage_load L der = Inr msg \<longrightarrow>
        mm_payload msg \<noteq> Session_completion_request r) \<and>
     (case ses_pending_payload b of None \<Rightarrow> True | Some p \<Rightarrow> length p < 2 ^ 31)"

definition offered :: "lib \<Rightarrow> key_lookup \<Rightarrow> key_lookup \<Rightarrow> key_id \<Rightarrow> bytes \<Rightarrow> session \<Rightarrow> bytes \<Rightarrow> session \<Rightarrow> bool" where
  "offered L KA KB idA cid a out b \<longleftrightarrow> length cid = 16 \<and>
     (\<exists>ka skA pkA skB s1 req. initiator_halfway L KA idA cid ka s1 a \<and>
        fresh_session (priv_level ka) b \<and> ses_role b = RESPONDER \<and>
        MakeMessage_load L out = Inr \<lparr>mm_version = 0, mm_cid = cid, mm_payload = Session_init_request req\<rparr> \<and>
        sir_key_id_a req = idA \<and> key_pair L ka (sir_pk_a_star req) \<and>
        holds_key L (priv_level ka) KA KB idA skA pkA \<and>
        kl_get_private_key KB (sir_key_id_b req) = Inr (private_bytes_raw skB) \<and> priv_level skB = priv_level ka \<and>
        decapsulate L (private_bytes_raw skB) (priv_level skB) (sir_ct1 req) = Inr s1 \<and>
        (\<forall>name oid. map_of AEAD_OIDS name = Some oid \<longrightarrow>
           (oid \<in> set (sir_acceptable_aeads req) \<longleftrightarrow> name \<in> set (cfg_acceptable_aeads (ses_config a)))) \<and>
        set (cfg_acceptable_aeads (ses_config a)) \<inter> set (cfg_acceptable_aeads (ses_config b)) \<noteq> {})"

definition halfway :: "lib \<Rightarrow> key_lookup \<Rightarrow> key_id \<Rightarrow> bytes \<Rightarrow> session \<Rightarrow> bytes \<Rightarrow> session \<Rightarrow> bool" where
  "halfway L KA idA cid a out b \<longleftrightarrow> length cid = 16 \<and>
     (\<exists>ka skA kb resp s1 s2 s3 aead.
        initiator_halfway L KA idA cid ka s1 a \<and>
        responder_halfway L idA cid kb s1 s2 s3 (rsp_n_b resp) aead b \<and>
        MakeMessage_load L out = Inr \<lparr>mm_version = 0, mm_cid = cid, mm_payload = Session_init_response resp\<rparr> \<and>
        key_pair L kb (rsp_pk_b_star resp) \<and> priv_level skA = priv_level ka \<and>
        kl_get_private_key KA idA = Inr (private_bytes_raw skA) \<and>
        decapsulate L (private_bytes_raw ka) (priv_level ka) (rsp_ct2 resp) = Inr s2 \<and>
        decapsulate L (private_bytes_raw skA) (priv_level skA) (rsp_ct3 resp) = Inr s3 \<and>
        map_of AEAD_OIDS aead = Some (rsp_chosen_aead resp) \<and>
        aead \<in> set (cfg_acceptable_aeads (ses_config a)))"

text \<open>An initiator that waits for the completion response to what it sent under its keys.\<close>

definition initiator_closing :: "lib \<Rightarrow> bytes \<Rightarrow> session_keys \<Rightarrow> bytes \<Rightarrow> session \<Rightarrow> bool" where
  "initiator_closing L cid keys plaintext a \<longleftrightarrow> ses_role a = INITIATOR \<and>
     ses_state a = EXPECT_SESSION_COMPLETION_RESPONSE \<and> ses_cid a = Some cid \<and>
     ses_session_keys a = Some keys \<and> ses_sent_plaintext_for_h_m a = Some plaintext \<and>
     ses_incoming_queue a = [] \<and> ses_outgoing_pdus a = [] \<and> ses_pending_payload a = None \<and>
     ses_seq_a2b a = 1 \<and> ses_seq_b2a a = 0 \<and>
     (\<forall>der msg r. ses_last_received a = Some der \<longrightarrow> MakeMessage_load L der = Inr msg \<longrightarrow>
        mm_payload msg \<noteq> Session_completion_response r)"

definition closing :: "lib \<Rightarrow> bytes \<Rightarrow> bytes \<Rightarrow> session \<Rightarrow> bytes \<Rightarrow> session \<Rightarrow> bool" where
  "closing L cid plaintext a out b \<longleftrightarrow> length cid = 16 \<and>
     (\<exists>keys idA kb s1 s2 s3 s4 n_b aead req.
        initiator_closing L cid keys plaintext a \<and> responder_halfway L idA cid kb s1 s2 s3 n_b aead b \<and>
        MakeMessage_load L out = Inr \<lparr>mm_version = 0, mm_cid = cid, mm_payload = Session_completion_request req\<rparr> \<and>
        decapsulate L (private_bytes_raw kb) (priv_level kb) (scr_ct4 req) = Inr s4 \<and>
        derive_session_keys L (scr_n_a req) n_b (KeyId_dump L idA) s1 s2 s3 s4 aead = Inr keys \<and>
        working_keys keys \<and>
        decrypt L (sk_aead_name keys) (sk_key_a2b keys) (sk_iv_a2b keys) 0 (scr_c_m req) cid = Inr plaintext)"

definition confirming :: "lib \<Rightarrow> bytes \<Rightarrow> bytes option \<Rightarrow> session \<Rightarrow> bytes \<Rightarrow> session \<Rightarrow> bool" where
  "confirming L cid reply a out b \<longleftrightarrow>
     (\<exists>keys plaintext m. initiator_closing L cid keys plaintext a \<and> talking L b \<and>
        ses_role b = RESPONDER \<and> ses_cid b = Some cid \<and> ses_session_keys b = Some keys \<and> working_keys keys \<and>
        ses_seq_a2b b = 1 \<and> ses_seq_b2a b = (if reply = None then 0 else 1) \<and>
        MakeMessage_load L out = Inr \<lparr>mm_version = 0, mm_cid = cid, mm_payload =
          Session_completion_response \<lparr>scp_h_m = sha256 L plaintext, scp_m = m\<rparr>\<rparr> \<and>
        (case reply of None \<Rightarrow> m = None
         | Some p \<Rightarrow> \<exists>ct. m = Some ct \<and>
             decrypt L (sk_aead_name keys) (sk_key_b2a keys) (sk_iv_b2a keys) 0 ct cid = Inr p))"

text \<open>What the retries rest on: the PDU that is sent again, and the answer a duplicate gets.\<close>

definition awaiting :: "rat \<Rightarrow> bytes \<Rightarrow> session \<Rightarrow> bool" where
  "awaiting now out a \<longleftrightarrow> ses_last_sent a = Some out \<and> ses_attempt_count a = 0 \<and>
     ses_deadline a = Some (now + cfg_retry_interval_seconds (ses_config a))"

definition answered :: "bytes \<Rightarrow> bytes \<Rightarrow> session \<Rightarrow> bool" where
  "answered out out' b \<longleftrightarrow> ses_last_received b = Some out \<and> ses_last_sent b = Some out'"

lemma initiator_offers:
  assumes libs: "libs_work L" and ready: "handshake_ready L KA KB idA idB a b"
    and uuid: "length (coin_uuid4 ca) = 16"
  obtains a' out where "initiate L KA ca idB now a = (Inr (), a'\<lparr>ses_outgoing_pdus := [out]\<rparr>)"
    and "offered L KA KB idA (coin_uuid4 ca) a' out b"
    and "ses_outgoing_payloads a' = ses_outgoing_payloads a" "ses_pending_payload a' = ses_pending_payload a"
    and "ses_config a' = ses_config a" "awaiting now out a'"
proof -
  from ready obtain l skA pkA skB pkB where l: "l = 768 \<or> l = 1024"
    and hA: "holds_key L l KA KB idA skA pkA" and hB: "holds_key L l KB KA idB skB pkB"
    and fa: "fresh_session l a" and fb: "fresh_session l b"
    and ra: "ses_role a = INITIATOR" "ses_own_key_id a = Some idA" and rb: "ses_role b = RESPONDER"
    and com: "set (cfg_acceptable_aeads (ses_config a)) \<inter> set (cfg_acceptable_aeads (ses_config b)) \<noteq> {}"
    unfolding handshake_ready_def by blast
  note A = hA [unfolded holds_key_def] and B = hB [unfolded holds_key_def]
  note fa' = fa [unfolded fresh_session_def] and fb' = fb [unfolded fresh_session_def]
  have ia: "ses_last_received a = None" "ses_seq_b2a a = 0"
    using fa' by (auto simp: session_wf_def no_response_yet_def)
  let ?cid = "coin_uuid4 ca"
  obtain ka pka s1 ct1 oids out where
      i: "initiate L KA ca idB now a = (Inr (), a\<lparr>ses_cid := Some ?cid,
        ses_peer_key_id := Some idB, ses_own_ephemeral_private := Some ka,
        ses_own_ephemeral_public := Some pka, ses_s1 := Some s1, ses_last_sent := Some out,
        ses_attempt_count := 0, ses_deadline := Some (now + cfg_retry_interval_seconds (ses_config a)),
        ses_state := EXPECT_SESSION_INIT_RESPONSE, ses_outgoing_pdus := ses_outgoing_pdus a @ [out]\<rparr>)"
    and m: "MakeMessage_load L out = Inr \<lparr>mm_version = 0, mm_cid = ?cid,
        mm_payload = Session_init_request \<lparr>sir_ct1 = ct1, sir_key_id_b = idB, sir_pk_a_star = pka,
          sir_key_id_a = idA, sir_acceptable_aeads = oids\<rparr>\<rparr>"
    and ka: "key_pair L ka pka" "priv_level ka = l"
    and d1: "decapsulate L (private_bytes_raw skB) (priv_level skB) ct1 = Inr s1"
    and oids: "\<And>name oid. map_of AEAD_OIDS name = Some oid \<Longrightarrow>
        oid \<in> set oids \<longleftrightarrow> name \<in> set (cfg_acceptable_aeads (ses_config a))"
    by (rule initiate_works [OF libs ra(1) _ ra(2) _ l, where K = KA and idB = idB and c = ca and
        now = now and pkB = pkB and skB = skB])
      (use A B fa' com uuid in auto)
  let ?a = "(snd (initiate L KA ca idB now a))\<lparr>ses_outgoing_pdus := []\<rparr>"
  have ha: "initiator_halfway L KA idA ?cid ka s1 ?a"
    using i ra fa' ka(2) ia by (simp add: initiator_halfway_def)
  have "offered L KA KB idA ?cid ?a out b"
    unfolding offered_def
  proof (intro conjI exI)
    show "initiator_halfway L KA idA ?cid ka s1 ?a" by (rule ha)
    show "holds_key L (priv_level ka) KA KB idA skA pkA" using hA ka(2) by simp
    show "decapsulate L (private_bytes_raw skB) (priv_level skB) (sir_ct1 \<lparr>sir_ct1 = ct1, sir_key_id_b = idB,
        sir_pk_a_star = pka, sir_key_id_a = idA, sir_acceptable_aeads = oids\<rparr>) = Inr s1"
      using d1 by simp
  qed (use uuid m ka fb rb B oids com i in simp_all)
  then show thesis by (intro that [of out ?a]) (use i fa' in \<open>simp_all add: awaiting_def\<close>)
qed

lemma responder_answers:
  assumes libs: "libs_work L" and offer: "offered L KA KB idA cid a out b"
  obtains b' out' where "update_session L KB cb now (post_pdu out b) =
      (Inr (update_outcome now (b'\<lparr>ses_outgoing_pdus := [out']\<rparr>)), b'\<lparr>ses_outgoing_pdus := [out']\<rparr>)"
    and "halfway L KA idA cid a out' b'"
    and "ses_outgoing_payloads b' = ses_outgoing_payloads b" "ses_pending_payload b' = ses_pending_payload b"
    and "answered out out' b'" "ses_deadline b' = Some (now + cfg_ttl_seconds (ses_config b))"
proof -
  from offer obtain ka skA pkA skB s1 req where cid: "length cid = 16"
    and ha: "initiator_halfway L KA idA cid ka s1 a"
    and fb: "fresh_session (priv_level ka) b" and rb: "ses_role b = RESPONDER"
    and m: "MakeMessage_load L out = Inr \<lparr>mm_version = 0, mm_cid = cid, mm_payload = Session_init_request req\<rparr>"
    and req: "sir_key_id_a req = idA" "key_pair L ka (sir_pk_a_star req)"
    and hA: "holds_key L (priv_level ka) KA KB idA skA pkA"
    and skB: "kl_get_private_key KB (sir_key_id_b req) = Inr (private_bytes_raw skB)" "priv_level skB = priv_level ka"
    and d1: "decapsulate L (private_bytes_raw skB) (priv_level skB) (sir_ct1 req) = Inr s1"
    and oids: "\<And>name oid. map_of AEAD_OIDS name = Some oid \<Longrightarrow>
       oid \<in> set (sir_acceptable_aeads req) \<longleftrightarrow> name \<in> set (cfg_acceptable_aeads (ses_config a))"
    and com: "set (cfg_acceptable_aeads (ses_config a)) \<inter> set (cfg_acceptable_aeads (ses_config b)) \<noteq> {}"
    unfolding offered_def by blast
  note A = hA [unfolded holds_key_def] and fb' = fb [unfolded fresh_session_def]
  have ib: "ses_last_received b = None" "ses_seq_b2a b = 0"
    using fb' by (auto simp: session_wf_def no_response_yet_def)
  from com obtain n d where n: "n \<in> set (cfg_acceptable_aeads (ses_config a))"
      "n \<in> set (cfg_acceptable_aeads (ses_config b))" "map_of AEAD_OIDS n = Some d"
    using fb' by blast
  let ?b = "b\<lparr>ses_cid := Some cid\<rparr>"
  obtain kb pkb s2 ct2 s3 ct3 aead oid out' where
      r: "handle_session_init_request L KB cb now req out ?b = (Inr (),
        ?b\<lparr>ses_own_ephemeral_private := Some kb, ses_own_ephemeral_public := Some pkb,
          ses_peer_static_public := Some pkA, ses_peer_key_id := Some (sir_key_id_a req),
          ses_s1 := Some s1, ses_s2 := Some s2, ses_s3 := Some s3,
          ses_n_b := Some (coin_urandom16 cb), ses_chosen_aead := Some aead,
          ses_last_received := Some out, ses_last_sent := Some out', ses_attempt_count := 0,
          ses_deadline := Some (now + cfg_ttl_seconds (ses_config ?b)),
          ses_state := EXPECT_SESSION_COMPLETION_REQUEST,
          ses_outgoing_pdus := ses_outgoing_pdus ?b @ [out']\<rparr>)"
    and m2: "MakeMessage_load L out' = Inr \<lparr>mm_version = 0, mm_cid = cid,
        mm_payload = Session_init_response \<lparr>rsp_pk_b_star = pkb, rsp_ct2 = ct2, rsp_ct3 = ct3,
          rsp_n_b = coin_urandom16 cb, rsp_chosen_aead = oid\<rparr>\<rparr>"
    and kb: "key_pair L kb pkb" "priv_level kb = priv_level ka"
    and d2: "decapsulate L (private_bytes_raw ka) (priv_level ka) ct2 = Inr s2"
    and d3: "decapsulate L (private_bytes_raw skA) (priv_level skA) ct3 = Inr s3"
    and aead: "map_of AEAD_OIDS aead = Some oid" "oid \<in> set (sir_acceptable_aeads req)"
    by (rule respond_works [OF libs _ cid, where b = ?b and K = KB and req = req and skB = skB and
        pkA = pkA and skA = skA and ka = ka and ?s1.0 = s1 and n = n and d = d and c = cb and
        now = now and der = out])
      (use A req skB d1 fb' n oids in auto)
  let ?b2 = "snd (update_session L KB cb now (post_pdu out b))"
  let ?b3 = "?b2\<lparr>ses_outgoing_pdus := []\<rparr>"
  have u: "update_session L KB cb now (post_pdu out b) =
      (Inr (update_outcome now (snd (handle_session_init_request L KB cb now req out ?b))),
       snd (handle_session_init_request L KB cb now req out ?b))"
    by (rule update_posted) (use process_expected(1) [OF m, of b] r fb' rb ib in
        \<open>auto simp: timed_out_def\<close>)
  have hb: "responder_halfway L idA cid kb s1 s2 s3 (coin_urandom16 cb) aead ?b3"
    using u r rb fb' req(1) kb(2) m ib by (simp add: responder_halfway_def)
  have "halfway L KA idA cid a out' ?b3"
    unfolding halfway_def
  proof (intro conjI exI)
    show "initiator_halfway L KA idA cid ka s1 a" by (rule ha)
    show "responder_halfway L idA cid kb s1 s2 s3 (rsp_n_b \<lparr>rsp_pk_b_star = pkb, rsp_ct2 = ct2,
        rsp_ct3 = ct3, rsp_n_b = coin_urandom16 cb, rsp_chosen_aead = oid\<rparr>) aead ?b3"
      using hb by simp
    show "decapsulate L (private_bytes_raw skA) (priv_level skA) (rsp_ct3 \<lparr>rsp_pk_b_star = pkb, rsp_ct2 = ct2,
        rsp_ct3 = ct3, rsp_n_b = coin_urandom16 cb, rsp_chosen_aead = oid\<rparr>) = Inr s3"
      using d3 by simp
  qed (use cid m2 kb A d2 aead oids in simp_all)
  then show thesis by (intro that [of out' ?b3]) (use u r fb' in \<open>simp_all add: answered_def\<close>)
qed

lemma first_flight_works:
  assumes libs: "libs_work L" and ready: "handshake_ready L KA KB idA idB a b"
    and uuid: "length (coin_uuid4 ca) = 16"
  obtains a' out b' where "first_flight L KA KB idB ca cb t (a, b) = (post_pdu out a', b')"
    and "halfway L KA idA (coin_uuid4 ca) a' out b'"
    and "ses_outgoing_payloads a' = ses_outgoing_payloads a" "ses_pending_payload a' = ses_pending_payload a"
    and "ses_outgoing_payloads b' = ses_outgoing_payloads b" "ses_pending_payload b' = ses_pending_payload b"
proof -
  obtain a' out where i: "initiate L KA ca idB (t 0) a = (Inr (), a'\<lparr>ses_outgoing_pdus := [out]\<rparr>)"
      "offered L KA KB idA (coin_uuid4 ca) a' out b"
      "ses_outgoing_payloads a' = ses_outgoing_payloads a" "ses_pending_payload a' = ses_pending_payload a"
    by (rule initiator_offers [OF assms])
  obtain b' out' where r: "update_session L KB cb (t 1) (post_pdu out b) =
      (Inr (update_outcome (t 1) (b'\<lparr>ses_outgoing_pdus := [out']\<rparr>)), b'\<lparr>ses_outgoing_pdus := [out']\<rparr>)"
      "halfway L KA idA (coin_uuid4 ca) a' out' b'"
      "ses_outgoing_payloads b' = ses_outgoing_payloads b" "ses_pending_payload b' = ses_pending_payload b"
    by (rule responder_answers [OF libs i(2)])
  have e: "a'\<lparr>ses_outgoing_pdus := []\<rparr> = a'" "b'\<lparr>ses_outgoing_pdus := []\<rparr> = b'"
    using r(2) by (auto simp: halfway_def initiator_halfway_def responder_halfway_def)
  have "pass_pdu (a'\<lparr>ses_outgoing_pdus := [out]\<rparr>, b) = (a', post_pdu out b)"
    using pass_pdu_one [of "a'\<lparr>ses_outgoing_pdus := [out]\<rparr>" out b] e by simp
  moreover have "pass_pdu (b'\<lparr>ses_outgoing_pdus := [out']\<rparr>, a') = (b', post_pdu out' a')"
    using pass_pdu_one [of "b'\<lparr>ses_outgoing_pdus := [out']\<rparr>" out' a'] e by simp
  ultimately have "first_flight L KA KB idB ca cb t (a, b) = (post_pdu out' a', b')"
    by (simp add: first_flight_def Let_def i(1) r(1) del: One_nat_def)
  then show thesis using that r(2-4) i(3,4) by simp
qed

lemma initiator_completes:
  assumes libs: "libs_work L" and half: "halfway L KA idA cid a out b"
    and plain: "plaintext = (case ses_pending_payload a of None \<Rightarrow> [] | Some p \<Rightarrow> p)"
  obtains a' out' where "update_session L KA c now (post_pdu out a) =
      (Inr (update_outcome now (a'\<lparr>ses_outgoing_pdus := [out']\<rparr>)), a'\<lparr>ses_outgoing_pdus := [out']\<rparr>)"
    and "closing L cid plaintext a' out' b" "ses_outgoing_payloads a' = ses_outgoing_payloads a"
    and "ses_last_received a' = Some out" "ses_config a' = ses_config a" "awaiting now out' a'"
proof -
  from half obtain ka skA kb resp s1 s2 s3 aead where cid: "length cid = 16"
    and ha: "initiator_halfway L KA idA cid ka s1 a"
    and hb: "responder_halfway L idA cid kb s1 s2 s3 (rsp_n_b resp) aead b"
    and m2: "MakeMessage_load L out = Inr \<lparr>mm_version = 0, mm_cid = cid, mm_payload = Session_init_response resp\<rparr>"
    and kb: "key_pair L kb (rsp_pk_b_star resp)" and lev: "priv_level skA = priv_level ka"
    and own: "kl_get_private_key KA idA = Inr (private_bytes_raw skA)"
    and d2: "decapsulate L (private_bytes_raw ka) (priv_level ka) (rsp_ct2 resp) = Inr s2"
    and d3: "decapsulate L (private_bytes_raw skA) (priv_level skA) (rsp_ct3 resp) = Inr s3"
    and aead: "map_of AEAD_OIDS aead = Some (rsp_chosen_aead resp)"
      "aead \<in> set (cfg_acceptable_aeads (ses_config a))"
    unfolding halfway_def by blast
  note ha' = ha [unfolded initiator_halfway_def]
  have short: "length plaintext < 2 ^ 31"
    using ha' by (auto simp: plain split: option.splits)
  obtain keys s4 ct4 c_m out' where
      r: "handle_session_init_response L KA c now resp out a = (Inr (),
        a\<lparr>ses_pending_payload := None, ses_n_a := Some (coin_urandom16 c),
          ses_n_b := Some (rsp_n_b resp), ses_chosen_aead := Some aead,
          ses_session_keys := Some keys, ses_seq_a2b := 1,
          ses_sent_plaintext_for_h_m := Some plaintext,
          ses_last_received := Some out, ses_last_sent := Some out', ses_attempt_count := 0,
          ses_deadline := Some (now + cfg_retry_interval_seconds (ses_config a)),
          ses_state := EXPECT_SESSION_COMPLETION_RESPONSE,
          ses_outgoing_pdus := ses_outgoing_pdus a @ [out']\<rparr>)"
    and m3: "MakeMessage_load L out' = Inr \<lparr>mm_version = 0, mm_cid = cid,
        mm_payload = Session_completion_request \<lparr>scr_c_m = c_m, scr_ct4 = ct4,
          scr_n_a = coin_urandom16 c\<rparr>\<rparr>"
    and keys: "derive_session_keys L (coin_urandom16 c) (rsp_n_b resp) (KeyId_dump L idA) s1 s2 s3 s4 aead = Inr keys"
      "working_keys keys"
    and d4: "decapsulate L (private_bytes_raw kb) (priv_level kb) ct4 = Inr s4"
    and dm: "decrypt L (sk_aead_name keys) (sk_key_a2b keys) (sk_iv_a2b keys) 0 c_m cid = Inr plaintext"
    by (rule complete_works [OF libs _ cid _ own _ _ lev _ d2 d3 kb aead plain short,
        where der = out and c = c and now = now and ?s1.0 = s1]) (use ha' in auto)
  let ?q = "\<lparr>scr_c_m = c_m, scr_ct4 = ct4, scr_n_a = coin_urandom16 c\<rparr>"
  let ?a1 = "snd (handle_session_init_response L KA c now resp out a)"
  have u: "update_session L KA c now (post_pdu out a) = (Inr (update_outcome now ?a1), ?a1)"
    by (rule update_posted) (use process_expected(2) [OF m2, of a] r ha' in
        \<open>auto simp: timed_out_def\<close>)
  let ?a2 = "?a1\<lparr>ses_outgoing_pdus := []\<rparr>"
  have ic: "initiator_closing L cid keys plaintext ?a2"
    using r ha' m2 by (simp add: initiator_closing_def)
  have "closing L cid plaintext ?a2 out' b"
    unfolding closing_def
  proof (intro conjI exI)
    show "initiator_closing L cid keys plaintext ?a2" by (rule ic)
    show "responder_halfway L idA cid kb s1 s2 s3 (rsp_n_b resp) aead b" by (rule hb)
    show "decapsulate L (private_bytes_raw kb) (priv_level kb) (scr_ct4 ?q) = Inr s4" using d4 by simp
  qed (use cid m3 keys dm in simp_all)
  then show thesis by (intro that [of out' ?a2]) (use u r ha' in \<open>simp_all add: awaiting_def\<close>)
qed

lemma responder_finishes:
  assumes libs: "libs_work L" and clo: "closing L cid plaintext a out b" and wf: "session_wf b"
  obtains b' out' where "update_session L KB c now (post_pdu out b) =
      (Inr (update_outcome now (b'\<lparr>ses_outgoing_pdus := [out']\<rparr>)), b'\<lparr>ses_outgoing_pdus := [out']\<rparr>)"
    and "confirming L cid (ses_pending_payload b) a out' b'"
    and "ses_outgoing_payloads b' = ses_outgoing_payloads b @ (if plaintext = [] then [] else [plaintext])"
    and "answered out out' b'"
proof -
  from clo obtain keys idA kb s1 s2 s3 s4 n_b aead req where cid: "length cid = 16"
    and ia: "initiator_closing L cid keys plaintext a"
    and hb: "responder_halfway L idA cid kb s1 s2 s3 n_b aead b"
    and m: "MakeMessage_load L out = Inr \<lparr>mm_version = 0, mm_cid = cid, mm_payload = Session_completion_request req\<rparr>"
    and d4: "decapsulate L (private_bytes_raw kb) (priv_level kb) (scr_ct4 req) = Inr s4"
    and keys: "derive_session_keys L (scr_n_a req) n_b (KeyId_dump L idA) s1 s2 s3 s4 aead = Inr keys"
      "working_keys keys"
    and dm: "decrypt L (sk_aead_name keys) (sk_key_a2b keys) (sk_iv_a2b keys) 0 (scr_c_m req) cid = Inr plaintext"
    unfolding closing_def by blast
  note hb' = hb [unfolded responder_halfway_def]
  obtain r out' where
      f: "handle_session_completion_request L now req out b = (Inr (),
        (clear_replied (deliver_payload plaintext b))
         \<lparr>ses_n_a := Some (scr_n_a req), ses_s4 := Some s4, ses_session_keys := Some keys,
          ses_seq_a2b := 1, ses_last_received := Some out, ses_last_sent := Some out',
          ses_state := ESTABLISHED, ses_deadline := None,
          ses_outgoing_pdus := ses_outgoing_pdus b @ [out']\<rparr>)"
    and m4: "MakeMessage_load L out' = Inr \<lparr>mm_version = 0, mm_cid = cid,
        mm_payload = Session_completion_response \<lparr>scp_h_m = sha256 L plaintext, scp_m = r\<rparr>\<rparr>"
    and reply: "case ses_pending_payload b of None \<Rightarrow> r = None
       | Some p \<Rightarrow> \<exists>ct. r = Some ct \<and>
           decrypt L (sk_aead_name keys) (sk_key_b2a keys) (sk_iv_b2a keys) 0 ct cid = Inr p"
    by (rule finish_works [OF libs _ cid, where b = b and req = req and kb = kb and n_b = n_b and
        idA = idA and ?s1.0 = s1 and ?s2.0 = s2 and ?s3.0 = s3 and ?s4.0 = s4 and aead = aead and
        keys = keys and plaintext = plaintext and now = now and der = out])
      (use hb' keys d4 dm in auto)
  let ?b1 = "snd (handle_session_completion_request L now req out b)"
  have "ses_last_received b \<noteq> Some out" using hb' m by auto
  then have "process_incoming L KB c now out b = handle_session_completion_request L now req out b"
    using process_expected(3) [OF m] hb' by simp
  then have u: "update_session L KB c now (post_pdu out b) = (Inr (update_outcome now ?b1), ?b1)"
    by (intro update_posted) (use f hb' in
        \<open>auto simp: timed_out_def clear_replied_def deliver_payload_def\<close>)
  let ?b2 = "?b1\<lparr>ses_outgoing_pdus := []\<rparr>"
  have "session_wf ?b1"
    using session_wf_update [OF session_wf_post_pdu [OF wf], of L KB c now out] u by simp
  then have "session_wf ?b2" by (rule session_wf_queue)
  then have t: "talking L ?b2"
    using f hb' m m4 by (simp add: talking_def filters_handshake_def repeats_handshake_def clear_replied_def deliver_payload_def)
  have "confirming L cid (ses_pending_payload b) a out' ?b2"
    unfolding confirming_def
  proof (intro conjI exI)
    show "initiator_closing L cid keys plaintext a" by (rule ia)
    show "talking L ?b2" by (rule t)
  qed (use f hb' keys m4 reply in \<open>simp_all add: clear_replied_def deliver_payload_def\<close>)
  then show thesis
    by (intro that [of out' ?b2])
      (use u f hb' in \<open>simp_all add: clear_replied_def deliver_payload_def answered_def\<close>)
qed

lemma initiator_finishes:
  assumes conf: "confirming L cid reply a out b" and wf: "session_wf a"
  obtains a' where "update_session L K c now (post_pdu out a) = (Inr (update_outcome now a'), a')"
    and "peers L a' b" "ses_cid a' = Some cid" "ses_seq_a2b a' = 1" "ses_seq_b2a a' = (if reply = None then 0 else 1)"
    and "ses_outgoing_payloads a' = ses_outgoing_payloads a @ (case reply of None \<Rightarrow> [] | Some p \<Rightarrow> [p])"
proof -
  from conf obtain keys plaintext m where ia: "initiator_closing L cid keys plaintext a"
    and b: "talking L b" "ses_role b = RESPONDER" "ses_cid b = Some cid" "ses_session_keys b = Some keys"
      "working_keys keys" "ses_seq_a2b b = 1" "ses_seq_b2a b = (if reply = None then 0 else 1)"
    and load: "MakeMessage_load L out = Inr \<lparr>mm_version = 0, mm_cid = cid, mm_payload =
          Session_completion_response \<lparr>scp_h_m = sha256 L plaintext, scp_m = m\<rparr>\<rparr>"
    and reply: "case reply of None \<Rightarrow> m = None
         | Some p \<Rightarrow> \<exists>ct. m = Some ct \<and>
             decrypt L (sk_aead_name keys) (sk_key_b2a keys) (sk_iv_b2a keys) 0 ct cid = Inr p"
    unfolding confirming_def by blast
  note ia' = ia [unfolded initiator_closing_def]
  let ?a = "(case reply of None \<Rightarrow> a
       | Some p \<Rightarrow> a\<lparr>ses_seq_b2a := 1, ses_outgoing_payloads := ses_outgoing_payloads a @ [p]\<rparr>)
      \<lparr>ses_last_received := Some out, ses_last_sent := None, ses_state := ESTABLISHED,
       ses_deadline := None\<rparr>"
  have "handle_session_completion_response L now \<lparr>scp_h_m = sha256 L plaintext, scp_m = m\<rparr> out a = (Inr (), ?a)"
    by (rule accept_completion_works) (use ia' reply in \<open>auto split: option.splits\<close>)
  moreover have "ses_last_received a \<noteq> Some out" using ia' load by auto
  ultimately have "process_incoming L K c now out a = (Inr (), ?a)"
    using process_expected(4) [OF load, of a] ia' by simp
  then have u: "update_session L K c now (post_pdu out a) = (Inr (update_outcome now ?a), ?a)"
    by (rule update_posted [rotated 2]) (use ia' in \<open>auto simp: timed_out_def split: option.split\<close>)
  have "session_wf ?a"
    using session_wf_update [OF session_wf_post_pdu [OF wf], of L K c now out] u by simp
  then have "talking L ?a"
    using ia' load by (cases reply) (simp_all add: talking_def filters_handshake_def repeats_handshake_def)
  then have "peers L ?a b" using ia' b by (cases reply) (simp_all add: peers_def)
  then show thesis by (intro that [OF u]) (use ia' in \<open>auto split: option.split\<close>)
qed

lemma second_flight_works:
  assumes libs: "libs_work L" and half: "halfway L KA idA cid a out b"
    and wf: "session_wf a" "session_wf b"
    and run: "second_flight L KA KB ca cb t (post_pdu out a, b) = (a', b')"
  shows "peers L a' b' \<and> ses_cid a' = Some cid
    \<and> ses_outgoing_payloads b' = ses_outgoing_payloads b @
        (case ses_pending_payload a of None \<Rightarrow> [] | Some p \<Rightarrow> [p])
    \<and> ses_outgoing_payloads a' = ses_outgoing_payloads a @
        (case ses_pending_payload b of None \<Rightarrow> [] | Some p \<Rightarrow> [p])
    \<and> ses_seq_a2b a' = 1 \<and> ses_seq_b2a a' = (if ses_pending_payload b = None then 0 else 1)"
proof -
  define plaintext where "plaintext = (case ses_pending_payload a of None \<Rightarrow> [] | Some p \<Rightarrow> p)"
  obtain a1 out1 where c: "update_session L KA ca (t 2) (post_pdu out a) =
      (Inr (update_outcome (t 2) (a1\<lparr>ses_outgoing_pdus := [out1]\<rparr>)), a1\<lparr>ses_outgoing_pdus := [out1]\<rparr>)"
      "closing L cid plaintext a1 out1 b" "ses_outgoing_payloads a1 = ses_outgoing_payloads a"
    by (rule initiator_completes [OF libs half plaintext_def])
  obtain b1 out2 where f: "update_session L KB cb (t 3) (post_pdu out1 b) =
      (Inr (update_outcome (t 3) (b1\<lparr>ses_outgoing_pdus := [out2]\<rparr>)), b1\<lparr>ses_outgoing_pdus := [out2]\<rparr>)"
      "confirming L cid (ses_pending_payload b) a1 out2 b1"
      "ses_outgoing_payloads b1 = ses_outgoing_payloads b @ (if plaintext = [] then [] else [plaintext])"
    by (rule responder_finishes [OF libs c(2) wf(2)])
  have e: "a1\<lparr>ses_outgoing_pdus := []\<rparr> = a1" "b1\<lparr>ses_outgoing_pdus := []\<rparr> = b1"
    using f(2) by (auto simp: confirming_def initiator_closing_def talking_def)
  have "session_wf (a1\<lparr>ses_outgoing_pdus := [out1]\<rparr>)"
    using session_wf_update [OF session_wf_post_pdu [OF wf(1)], of L KA ca "t 2" out] c(1) by simp
  then have "session_wf a1" using session_wf_queue(2) [of "a1\<lparr>ses_outgoing_pdus := [out1]\<rparr>" "[]"] e by simp
  then obtain a2 where g: "update_session L KA ca (t 4) (post_pdu out2 a1) = (Inr (update_outcome (t 4) a2), a2)"
      "peers L a2 b1" "ses_cid a2 = Some cid" "ses_seq_a2b a2 = 1"
      "ses_seq_b2a a2 = (if ses_pending_payload b = None then 0 else 1)"
      "ses_outgoing_payloads a2 = ses_outgoing_payloads a1 @ (case ses_pending_payload b of None \<Rightarrow> [] | Some p \<Rightarrow> [p])"
    by (rule initiator_finishes [OF f(2)])
  have "pass_pdu (a1\<lparr>ses_outgoing_pdus := [out1]\<rparr>, b) = (a1, post_pdu out1 b)"
      "pass_pdu (b1\<lparr>ses_outgoing_pdus := [out2]\<rparr>, a1) = (b1, post_pdu out2 a1)"
    using pass_pdu_one [of "a1\<lparr>ses_outgoing_pdus := [out1]\<rparr>" out1 b]
      pass_pdu_one [of "b1\<lparr>ses_outgoing_pdus := [out2]\<rparr>" out2 a1] e by simp_all
  then have "a' = a2" "b' = b1"
    using run by (simp_all add: second_flight_def Let_def c(1) f(1) g(1))
  moreover have "ses_pending_payload a \<noteq> Some []" using wf(1) by (simp add: session_wf_def)
  ultimately show ?thesis
    using c(3) f(3) g by (auto simp: plaintext_def split: option.splits)
qed

lemma handshake_peers:
  assumes "libs_work L" "handshake_ready L KA KB idA idB a b" "length (coin_uuid4 ca) = 16"
    and "handshake L KA KB idB (ca, cb, ca') t (a, b) = (a', b')"
  shows "peers L a' b' \<and> ses_cid a' = Some (coin_uuid4 ca)
    \<and> ses_outgoing_payloads b' = ses_outgoing_payloads b @
        (case ses_pending_payload a of None \<Rightarrow> [] | Some p \<Rightarrow> [p])
    \<and> ses_outgoing_payloads a' = ses_outgoing_payloads a @
        (case ses_pending_payload b of None \<Rightarrow> [] | Some p \<Rightarrow> [p])
    \<and> ses_seq_a2b a' = 1 \<and> ses_seq_b2a a' = (if ses_pending_payload b = None then 0 else 1)"
proof -
  obtain ah out bh where h: "first_flight L KA KB idB ca cb t (a, b) = (post_pdu out ah, bh)"
      "halfway L KA idA (coin_uuid4 ca) ah out bh"
      "ses_outgoing_payloads ah = ses_outgoing_payloads a" "ses_pending_payload ah = ses_pending_payload a"
      "ses_outgoing_payloads bh = ses_outgoing_payloads b" "ses_pending_payload bh = ses_pending_payload b"
    by (rule first_flight_works [OF assms(1-3), where t = t and cb = cb])
  have "session_wf a" "session_wf b"
    using assms(2) by (auto simp: handshake_ready_def fresh_session_def)
  then have "session_wf (post_pdu out ah)" "session_wf bh"
    using flight_wf(1) [of a b L KA KB idB ca cb t] h(1) by simp_all
  then have "session_wf ah" "session_wf bh"
    by (simp_all add: post_pdu_def session_wf_def awaits_defs cong: session_state.case_cong)
  with second_flight_works [OF assms(1) h(2), of KB ca' cb t a' b'] assms(4) h(1,3-6)
  show ?thesis by (simp add: handshake_def)
qed

text \<open>The flights are sequences of calls, so they stay within the reachable sessions.\<close>

lemma pass_pdu_reach:
  assumes "session_reach L K a" "session_reach L K' b"
  shows "session_reach L K (fst (pass_pdu (a, b))) \<and> session_reach L K' (snd (pass_pdu (a, b)))"
proof -
  have "session_reach L K (snd (get_pdu a))" by (rule reach_step [OF assms(1) step_get_pdu])
  moreover have "session_reach L K' (post_pdu der b)" for der by (rule reach_step [OF assms(2) step_post_pdu])
  ultimately show ?thesis using assms(2) by (auto simp: pass_pdu_def split: prod.split sum.split)
qed

lemma first_flight_reach:
  assumes "session_reach L KA a" "session_reach L KB b"
  shows "session_reach L KA (fst (first_flight L KA KB idB ca cb t (a, b))) \<and>
    session_reach L KB (snd (first_flight L KA KB idB ca cb t (a, b)))"
proof -
  have 1: "session_reach L KA (snd (initiate L KA ca idB (t 0) a))"
    by (rule reach_step [OF assms(1) step_initiate])
  note 2 = pass_pdu_reach [OF 1 assms(2)]
  have 3: "session_reach L KB (snd (update_session L KB cb (t 1)
      (snd (pass_pdu (snd (initiate L KA ca idB (t 0) a), b)))))"
    by (rule reach_step [OF conjunct2 [OF 2] step_update])
  from pass_pdu_reach [OF 3 conjunct1 [OF 2]] show ?thesis
    by (simp add: first_flight_def Let_def split_beta del: One_nat_def)
qed

text \<open>
  The undisturbed handshake: two fresh sessions that hold each other's static keys and agree on a
  level and an algorithm, run over a working KEM, AEAD, KDF and codec, end as established peers: same
  session keys, same correlation id, counters in step; and each has received exactly the payload the
  other had waiting (the initiator's in the false start, the responder's in the last PDU).
\<close>

theorem handshake_establishes_peers:
  assumes "libs_work L" "handshake_ready L KA KB idA idB a b" "length (coin_uuid4 ca) = 16"
    and "handshake L KA KB idB (ca, cb, ca') t (a, b) = (a', b')"
  shows "peers L a' b' \<and> ses_cid a' = Some (coin_uuid4 ca)
    \<and> ses_outgoing_payloads b' = ses_outgoing_payloads b @
        (case ses_pending_payload a of None \<Rightarrow> [] | Some p \<Rightarrow> [p])
    \<and> ses_outgoing_payloads a' = ses_outgoing_payloads a @
        (case ses_pending_payload b of None \<Rightarrow> [] | Some p \<Rightarrow> [p])
    \<and> ses_seq_a2b a' = 1 \<and> ses_seq_b2a a' = (if ses_pending_payload b = None then 0 else 1)"
  by (rule handshake_peers [OF assms])

end
