(* ===== verification/DispatcherHandshake.thy ===== *)
theory DispatcherHandshake
  imports DispatcherProps Handshake
begin

section \<open>Two dispatchers: a conversation end to end\<close>

text \<open>
  What one dispatcher knows of a correlation id is its \<open>view\<close>. Each kind of PDU moves the view of its
  own id as the session it reaches moves; chained with the steps of theory Handshake this takes two
  dispatchers, busy with any other conversations, from \<open>initiate\<close> to established peers.
\<close>

subsection \<open>The view of a correlation id\<close>

type_synonym view = "session option \<times> session option \<times> session option \<times> session list option"

definition view :: "bytes \<Rightarrow> dispatcher \<Rightarrow> view" where
  "view cid d = (map_of (dsp_established d) cid, map_of (dsp_responder_sessions d) cid,
     map_of (dsp_initiator_templates d) cid, map_of (dsp_initiator_forks d) cid)"

lemma only_touches_view: "only_touches cid d d' \<longleftrightarrow> (\<forall>k. k \<noteq> cid \<longrightarrow> view k d' = view k d)"
  by (auto simp: only_touches_def view_def)

lemma viewD:
  assumes "view cid d = (e, r, t, fs)"
  shows "map_of (dsp_established d) cid = e" "map_of (dsp_responder_sessions d) cid = r"
    "map_of (dsp_initiator_templates d) cid = t" "map_of (dsp_initiator_forks d) cid = fs"
    "forks_of cid d = (case fs of None \<Rightarrow> [] | Some xs \<Rightarrow> xs)"
  using assms by (simp_all add: view_def forks_of_def split: option.split)

lemma view_ops [simp]:
  "view cid (set_responder cid s d) = (map_of (dsp_established d) cid, Some s,
     map_of (dsp_initiator_templates d) cid, map_of (dsp_initiator_forks d) cid)"
  "view cid (set_forks cid xs d) = (map_of (dsp_established d) cid, map_of (dsp_responder_sessions d) cid,
     map_of (dsp_initiator_templates d) cid, Some xs)"
  "view cid (promote_session cid s d) = (Some s, None, None, None)"
  "view cid (d\<lparr>dsp_candidates := store\<rparr>) = view cid d"
  "view cid (d\<lparr>dsp_outgoing_pdus := ps\<rparr>) = view cid d"
  "view cid (collected s k d) = view cid d"
  by (simp_all add: view_def set_responder_def set_forks_def promote_session_def)

lemma out_ops [simp]:
  "dsp_initiator_forks (set_responder cid s d) = dsp_initiator_forks d"
  "dsp_responder_sessions (set_forks cid fs d) = dsp_responder_sessions d"
  "dsp_outgoing_pdus (set_responder cid s d) = dsp_outgoing_pdus d"
  "dsp_outgoing_payloads (set_responder cid s d) = dsp_outgoing_payloads d"
  "dsp_outgoing_pdus (set_forks cid fs d) = dsp_outgoing_pdus d"
  "dsp_outgoing_payloads (set_forks cid fs d) = dsp_outgoing_payloads d"
  "dsp_outgoing_pdus (promote_session cid s d) = dsp_outgoing_pdus d"
  "dsp_outgoing_payloads (promote_session cid s d) = dsp_outgoing_payloads d"
  "dsp_outgoing_pdus (collected s cid d) = dsp_outgoing_pdus d @ ses_outgoing_pdus s"
  "dsp_outgoing_payloads (collected s cid d) = dsp_outgoing_payloads d @ map (Pair cid) (ses_outgoing_payloads s)"
  by (simp_all add: set_responder_def set_forks_def promote_session_def collected_def)

lemma drained_fields [simp]:
  "ses_outgoing_pdus (drained s) = []" "ses_outgoing_payloads (drained s) = []" "drained (drained s) = drained s"
  by (simp_all add: drained_def)

lemma collected_drained [simp]: "collected (drained s) cid d = d"
  by (simp add: collected_def)

text \<open>A step of one conversation: the view moves, this is sent, this is delivered, the rest stays.\<close>

definition moves :: "bytes \<Rightarrow> view \<Rightarrow> bytes list \<Rightarrow> bytes list \<Rightarrow> dispatcher \<Rightarrow> dispatcher \<Rightarrow> bool" where
  "moves cid v pdus payloads d d' \<longleftrightarrow> view cid d' = v \<and> only_touches cid d d' \<and>
     dsp_outgoing_pdus d' = dsp_outgoing_pdus d @ pdus \<and>
     dsp_outgoing_payloads d' = dsp_outgoing_payloads d @ map (Pair cid) payloads"

lemma moves_initiate:
  assumes "initiate L K c peer now (Session_init INITIATOR (Some own) (Some (dsp_config d))) = (Inr (), s)"
    and "ses_cid s = Some cid" "view cid d = (None, None, None, None)"
  shows "moves cid (None, None, Some (s\<lparr>ses_outgoing_pdus := []\<rparr>), Some []) (ses_outgoing_pdus s) [] d
      (snd (dispatcher_initiate L K c own peer now d))"
    and "dsp_candidates (snd (dispatcher_initiate L K c own peer now d)) = dsp_candidates d"
  using assms by (simp_all add: dispatcher_initiate_def drain_pdus_eq moves_def view_def only_touches_def)

lemma moves_post_payload_initiator:
  assumes "view cid d = (None, None, Some t, Some fs)" "p \<noteq> []"
  shows "moves cid (None, None, Some (t\<lparr>ses_pending_payload := Some p\<rparr>),
      Some (map (\<lambda>f. f\<lparr>ses_pending_payload := Some p\<rparr>) fs)) [] [] d (snd (dispatcher_post_payload cid p d))"
    and "dsp_candidates (snd (dispatcher_post_payload cid p d)) = dsp_candidates d"
  using viewD [OF assms(1)] assms(2)
  by (simp_all add: dispatcher_post_payload_def post_payload_def Let_def moves_def view_def only_touches_def
      map_of_map_entry)

lemma moves_post_payload_responder:
  assumes "view cid d = (None, Some s, t, fs)" "p \<noteq> []"
  shows "moves cid (None, Some (s\<lparr>ses_pending_payload := Some p\<rparr>), t, fs) [] [] d
      (snd (dispatcher_post_payload cid p d))"
  using viewD [OF assms(1)] assms(2)
  by (simp add: dispatcher_post_payload_def post_payload_def moves_def view_def set_responder_def only_touches_def)

subsection \<open>PDUs that move the view\<close>

lemma payload_kind:
  "payload_name (Session_init_request q) = ''session_init_request''"
  "payload_name (Session_init_response p) = ''session_init_response''"
  "payload_name (Session_completion_request cq) \<notin> {''session_init_request'', ''session_init_response''}"
  "payload_name (Session_completion_response cp) \<notin> {''session_init_request'', ''session_init_response''}"
  by simp_all

lemma moves_post_pdu:
  assumes "MakeMessage_load L der = Inr msg" "view (mm_cid msg) d' = v"
    and "dispatcher_post_pdu L K cs der now d = (r, d')"
    and "dsp_outgoing_pdus d' = dsp_outgoing_pdus d @ pdus"
    and "dsp_outgoing_payloads d' = dsp_outgoing_payloads d @ map (Pair (mm_cid msg)) payloads"
  shows "moves (mm_cid msg) v pdus payloads d d'"
  using assms post_pdu_touches [OF assms(1), of d K cs now] by (simp add: moves_def)

lemma moves_request:
  assumes msg: "MakeMessage_load L der = Inr msg" "mm_payload msg = Session_init_request q"
    and v: "view (mm_cid msg) d = (None, None, t, fs)"
    and add: "add (mm_cid msg) der [] now (dsp_candidates d) = (Inr cand, store)"
    and u: "update_session L K (cs 0) now (post_pdu der (Session_init RESPONDER None (Some (dsp_config d)))) = (Inr x, s)"
    and st: "ses_state s = EXPECT_SESSION_COMPLETION_REQUEST"
  shows "moves (mm_cid msg) (None, Some (drained s), t, fs) (ses_outgoing_pdus s) (ses_outgoing_payloads s)
      d (snd (dispatcher_post_pdu L K cs der now d))"
proof -
  let ?cid = "mm_cid msg"
  let ?s0 = "Session_init RESPONDER None (Some (dsp_config d))"
  let ?d2 = "set_responder ?cid (drained s) (collected s ?cid (set_responder ?cid ?s0 (d\<lparr>dsp_candidates := store\<rparr>)))"
  have "deliver L K (cs 0) ?s0 der now ?cid (set_responder ?cid ?s0 (d\<lparr>dsp_candidates := store\<rparr>)) =
      (Inr (), drained s, collected s ?cid (set_responder ?cid ?s0 (d\<lparr>dsp_candidates := store\<rparr>)))"
    by (simp add: deliver_def u drain_eq)
  moreover have "reap_responder ?cid (?d2\<lparr>dsp_candidates := st'\<rparr>) = ?d2\<lparr>dsp_candidates := st'\<rparr>" for st'
    using st by (simp add: reap_responder_def set_responder_def)
  ultimately have "\<exists>st'. dispatcher_post_pdu L K cs der now d = (Inr (), ?d2\<lparr>dsp_candidates := st'\<rparr>)"
    using viewD [OF v] msg MakeMessage_loadD(4) [OF msg(1)] add st
    by (simp add: dispatcher_post_pdu_def route_session_init_request_def Let_def) blast
  then obtain st' where p: "dispatcher_post_pdu L K cs der now d = (Inr (), ?d2\<lparr>dsp_candidates := st'\<rparr>)" by blast
  have "moves ?cid (None, Some (drained s), t, fs) (ses_outgoing_pdus s) (ses_outgoing_payloads s)
      d (?d2\<lparr>dsp_candidates := st'\<rparr>)"
    by (rule moves_post_pdu [OF msg(1) _ p]) (use viewD [OF v] in simp_all)
  with p show ?thesis by simp
qed

lemma moves_response:
  assumes msg: "MakeMessage_load L der = Inr msg" "mm_payload msg = Session_init_response p"
    and v: "view (mm_cid msg) d = (None, r, Some t, Some fs)" and dup: "duplicate_at der fs = None"
    and add: "add (mm_cid msg) der [] now (dsp_candidates d) = (Inr cand, store)"
    and f: "fork L t = Inr f" "update_session L K (cs 0) now (post_pdu der f) = (Inr x, f')"
  shows "moves (mm_cid msg) (None, r, Some t, Some (fs @ [drained f'])) (ses_outgoing_pdus f') (ses_outgoing_payloads f')
      d (snd (dispatcher_post_pdu L K cs der now d))"
proof -
  let ?cid = "mm_cid msg"
  let ?d2 = "set_forks ?cid (fs @ [drained f']) (collected f' ?cid (d\<lparr>dsp_candidates := store\<rparr>))"
  have "deliver L K (cs 0) f der now ?cid (d\<lparr>dsp_candidates := store\<rparr>) =
      (Inr (), drained f', collected f' ?cid (d\<lparr>dsp_candidates := store\<rparr>))"
    by (simp add: deliver_def f(2) drain_eq)
  then have "\<exists>st'. dispatcher_post_pdu L K cs der now d = (Inr (), ?d2\<lparr>dsp_candidates := st'\<rparr>)"
    using viewD [OF v] msg MakeMessage_loadD(4) [OF msg(1)] add dup f(1)
    by (simp add: dispatcher_post_pdu_def route_session_init_response_def Let_def) blast
  then obtain st' where p: "dispatcher_post_pdu L K cs der now d = (Inr (), ?d2\<lparr>dsp_candidates := st'\<rparr>)" by blast
  have "moves ?cid (None, r, Some t, Some (fs @ [drained f'])) (ses_outgoing_pdus f') (ses_outgoing_payloads f')
      d (?d2\<lparr>dsp_candidates := st'\<rparr>)"
    by (rule moves_post_pdu [OF msg(1) _ p]) (use viewD [OF v] in simp_all)
  with p show ?thesis by simp
qed

lemma moves_completion_request:
  assumes msg: "MakeMessage_load L der = Inr msg" "mm_payload msg = Session_completion_request q"
    and v: "view (mm_cid msg) d = (None, Some s, t, fs)"
    and u: "update_session L K (cs 0) now (post_pdu der s) = (Inr x, s')" "ses_state s' = ESTABLISHED"
  shows "moves (mm_cid msg) (Some (drained s'), None, None, None) (ses_outgoing_pdus s') (ses_outgoing_payloads s')
      d (snd (dispatcher_post_pdu L K cs der now d))"
proof -
  let ?cid = "mm_cid msg"
  let ?d1 = "set_responder ?cid (drained s') (collected s' ?cid d)"
  have "deliver L K (cs 0) s der now ?cid d = (Inr (), drained s', collected s' ?cid d)"
    by (simp add: deliver_def u drain_eq)
  moreover have "reap_responder ?cid ?d1 = promote_session ?cid (drained s') ?d1"
    using u(2) by (simp add: reap_responder_def set_responder_def drain_eq)
  ultimately have p: "dispatcher_post_pdu L K cs der now d = (Inr (), promote_session ?cid (drained s') ?d1)"
    using viewD [OF v] msg MakeMessage_loadD(4) [OF msg(1)]
    by (simp add: dispatcher_post_pdu_def)
  have "moves ?cid (Some (drained s'), None, None, None) (ses_outgoing_pdus s') (ses_outgoing_payloads s')
      d (promote_session ?cid (drained s') ?d1)"
    by (rule moves_post_pdu [OF msg(1) _ p]) simp_all
  with p show ?thesis by simp
qed

text \<open>The forks are asked in order; the first that is established by the PDU is promoted.\<close>

definition refuses :: "lib \<Rightarrow> key_lookup \<Rightarrow> coins \<Rightarrow> rat \<Rightarrow> bytes \<Rightarrow> session \<Rightarrow> bool" where
  "refuses L K c now der f \<longleftrightarrow> (case update_session L K c now (post_pdu der f) of
      (Inl e, _) \<Rightarrow> caught e | (Inr _, f') \<Rightarrow> ses_state f' \<noteq> ESTABLISHED)"

lemma forks_loop_first:
  assumes "\<And>i. i < length pre \<Longrightarrow> refuses L K (cs (length before + i)) now der (pre ! i)"
    and "update_session L K (cs (length before + length pre)) now (post_pdu der f) = (Inr x, f')"
    and "ses_state f' = ESTABLISHED"
  shows "\<exists>fs. route_to_forks_loop L K cs cid der now before (pre @ f # post) d =
    (Inr (), promote_session cid (drained f') (collected f' cid (set_forks cid fs d)))"
  using assms
proof (induction pre arbitrary: before d)
  case Nil
  then show ?case by (auto simp: drain_eq)
next
  case (Cons g pre)
  obtain r g' where g: "update_session L K (cs (length before)) now (post_pdu der g) = (r, g')" by fastforce
  have no: "case r of Inl e \<Rightarrow> caught e | Inr _ \<Rightarrow> ses_state g' \<noteq> ESTABLISHED"
    using Cons.prems(1) [of 0] g by (simp add: refuses_def split: sum.splits)
  have again: "set_forks cid xs (set_forks cid ys d) = set_forks cid xs d" for xs ys
    by (simp add: set_forks_def)
  obtain fs where "route_to_forks_loop L K cs cid der now (before @ [g']) (pre @ f # post)
      (set_forks cid (before @ g' # pre @ f # post) d) = (Inr (),
        promote_session cid (drained f') (collected f' cid (set_forks cid fs d)))"
    using Cons.IH [of "before @ [g']" "set_forks cid (before @ g' # pre @ f # post) d"]
      Cons.prems(1) [of "Suc _"] Cons.prems(2,3) again by auto
  then show ?case
    using g no by (auto split: sum.splits)
qed

lemma moves_completion_response:
  assumes msg: "MakeMessage_load L der = Inr msg" "mm_payload msg = Session_completion_response p"
    and v: "view (mm_cid msg) d = (None, None, t, Some (pre @ f # post))"
    and pre: "\<And>i. i < length pre \<Longrightarrow> refuses L K (cs i) now der (pre ! i)"
    and u: "update_session L K (cs (length pre)) now (post_pdu der f) = (Inr x, f')" "ses_state f' = ESTABLISHED"
  shows "moves (mm_cid msg) (Some (drained f'), None, None, None) (ses_outgoing_pdus f') (ses_outgoing_payloads f')
      d (snd (dispatcher_post_pdu L K cs der now d))"
proof -
  let ?cid = "mm_cid msg"
  obtain fs where l: "route_to_forks_loop L K cs ?cid der now [] (pre @ f # post) d =
      (Inr (), promote_session ?cid (drained f') (collected f' ?cid (set_forks ?cid fs d)))"
    using forks_loop_first [of pre L K cs "[]" now der f x f' ?cid post d] pre u by auto
  have "?cid \<in> keys (dsp_initiator_forks d)" using viewD(4) [OF v] by (rule map_of_keys(1))
  then have p: "dispatcher_post_pdu L K cs der now d =
      (Inr (), promote_session ?cid (drained f') (collected f' ?cid (set_forks ?cid fs d)))"
    using viewD [OF v] msg MakeMessage_loadD(4) [OF msg(1)] l
    by (simp add: dispatcher_post_pdu_def route_to_forks_def)
  have "moves ?cid (Some (drained f'), None, None, None) (ses_outgoing_pdus f') (ses_outgoing_payloads f')
      d (promote_session ?cid (drained f') (collected f' ?cid (set_forks ?cid fs d)))"
    by (rule moves_post_pdu [OF msg(1) _ p]) simp_all
  with p show ?thesis by simp
qed

subsection \<open>The run\<close>

text \<open>One PDU goes from one dispatcher to the other; a payload may be posted before it is needed.\<close>

definition hand_pdu :: "lib \<Rightarrow> key_lookup \<Rightarrow> coins \<Rightarrow> rat \<Rightarrow> dispatcher \<times> dispatcher \<Rightarrow> dispatcher \<times> dispatcher" where
  "hand_pdu L K c now = (\<lambda>(s, r). case dispatcher_get_pdu s of
     (Inl _, s') \<Rightarrow> (s', r) | (Inr der, s') \<Rightarrow> (s', snd (dispatcher_post_pdu L K (\<lambda>_. c) der now r)))"

definition queue_payload :: "bytes \<Rightarrow> bytes option \<Rightarrow> dispatcher \<Rightarrow> dispatcher" where
  "queue_payload cid p d = (case p of None \<Rightarrow> d | Some b \<Rightarrow> snd (dispatcher_post_payload cid b d))"

definition dispatcher_handshake :: "lib \<Rightarrow> key_lookup \<Rightarrow> key_lookup \<Rightarrow> key_id \<Rightarrow> key_id \<Rightarrow> (nat \<Rightarrow> coins) \<Rightarrow>
    (nat \<Rightarrow> rat) \<Rightarrow> bytes option \<Rightarrow> bytes option \<Rightarrow> dispatcher \<times> dispatcher \<Rightarrow> dispatcher \<times> dispatcher" where
  "dispatcher_handshake L KA KB idA idB c t p q = (\<lambda>(A0, B0).
     let cid = coin_uuid4 (c 0);
         A1 = queue_payload cid p (snd (dispatcher_initiate L KA (c 0) idA idB (t 0) A0));
         (A2, B1) = hand_pdu L KB (c 1) (t 1) (A1, B0);
         B2 = queue_payload cid q B1;
         (B3, A3) = hand_pdu L KA (c 2) (t 2) (B2, A2);
         (A4, B4) = hand_pdu L KB (c 3) (t 3) (A3, B3);
         (B5, A5) = hand_pdu L KA (c 4) (t 4) (B4, A4)
     in (A5, B5))"

text \<open>The correlation id is new to the dispatcher, which has room for a candidate and nothing left to send.\<close>

definition has_room :: "bytes \<Rightarrow> dispatcher \<Rightarrow> bool" where
  "has_room cid d \<longleftrightarrow> view cid d = (None, None, None, None) \<and> dsp_outgoing_pdus d = [] \<and>
     store_wf (dsp_candidates d) \<and> candidates_for cid (dsp_candidates d) = [] \<and>
     0 < cs_max_per_cid (dsp_candidates d) \<and> total_count (dsp_candidates d) < cs_max_total (dsp_candidates d)"

lemma add_admitted:
  assumes "store_wf s" "candidates_for cid s = []" "0 < cs_max_per_cid s" "total_count s < cs_max_total s"
  shows "\<exists>c s'. add cid pdu sent now s = (Inr c, s')"
proof -
  obtain r s' where a: "add cid pdu sent now s = (r, s')" by fastforce
  from assms(1) a show ?thesis
  proof (cases rule: add_cases)
    case refused
    have "dict_size (prune now (cs_by_cid s)) < cs_max_total s"
      using prune_size [of now "cs_by_cid s"] assms(4) store_wfD(2) [OF assms(1)] by (simp add: total_count_def)
    with refused(4) assms(2,3) show ?thesis by (simp add: live_def)
  qed (use a in simp)
qed

lemma hand_pdu_one:
  assumes "dsp_outgoing_pdus s = [der]"
  shows "hand_pdu L K c now (s, r) = (s\<lparr>dsp_outgoing_pdus := []\<rparr>, snd (dispatcher_post_pdu L K (\<lambda>_. c) der now r))"
  using assms by (simp add: hand_pdu_def dispatcher_get_pdu_def)

lemma offered_pending:
  assumes "offered L KA KB idA cid a out b" "length p < 2 ^ 31"
  shows "offered L KA KB idA cid (a\<lparr>ses_pending_payload := Some p\<rparr>) out b"
proof -
  have "initiator_halfway L KA idA cid ka s1 (a\<lparr>ses_pending_payload := Some p\<rparr>)"
    if "initiator_halfway L KA idA cid ka s1 a" for ka s1
    using that assms(2) by (simp add: initiator_halfway_def)
  with assms(1) show ?thesis unfolding offered_def by fastforce
qed

lemma halfway_pending:
  assumes "halfway L KA idA cid a out b" "length p < 2 ^ 31"
  shows "halfway L KA idA cid a out (b\<lparr>ses_pending_payload := Some p\<rparr>)"
proof -
  have "responder_halfway L idA cid kb s1 s2 s3 n_b aead (b\<lparr>ses_pending_payload := Some p\<rparr>)"
    if "responder_halfway L idA cid kb s1 s2 s3 n_b aead b" for kb s1 s2 s3 n_b aead
    using that assms(2) by (simp add: responder_halfway_def)
  with assms(1) show ?thesis unfolding halfway_def by fastforce
qed

text \<open>What a dispatcher has come to from \<open>d0\<close> in this conversation, once its PDUs are collected.\<close>

definition progress :: "bytes \<Rightarrow> view \<Rightarrow> bytes list \<Rightarrow> dispatcher \<Rightarrow> dispatcher \<Rightarrow> bool" where
  "progress cid v payloads d0 d \<longleftrightarrow> view cid d = v \<and> only_touches cid d0 d \<and> dsp_outgoing_pdus d = [] \<and>
     dsp_outgoing_payloads d = dsp_outgoing_payloads d0 @ map (Pair cid) payloads"

lemma progress_step:
  assumes "progress cid v qs d0 d" "moves cid v' [out] pls d d'"
  shows "hand_pdu L K c now (d', r) = (d'\<lparr>dsp_outgoing_pdus := []\<rparr>, snd (dispatcher_post_pdu L K (\<lambda>_. c) out now r))"
    and "progress cid v' (qs @ pls) d0 (d'\<lparr>dsp_outgoing_pdus := []\<rparr>)"
  using assms by (auto simp: progress_def moves_def hand_pdu_one only_touches_def)

lemma progress_last:
  assumes "progress cid v qs d0 d" "moves cid v' [] pls d d'"
  shows "progress cid v' (qs @ pls) d0 d'"
  using assms by (auto simp: progress_def moves_def only_touches_def)

lemma moves_trans:
  "moves cid v ps qs d d1 \<Longrightarrow> moves cid v' ps' qs' d1 d2 \<Longrightarrow> moves cid v' (ps @ ps') (qs @ qs') d d2"
  by (auto simp: moves_def only_touches_def)

abbreviation new_initiator :: "key_id \<Rightarrow> dispatcher \<Rightarrow> session" where
  "new_initiator own d \<equiv> Session_init INITIATOR (Some own) (Some (dsp_config d))"

abbreviation new_responder :: "dispatcher \<Rightarrow> session" where
  "new_responder d \<equiv> Session_init RESPONDER None (Some (dsp_config d))"

definition short_payload :: "bytes option \<Rightarrow> bool" where
  "short_payload p \<longleftrightarrow> (case p of None \<Rightarrow> True | Some b \<Rightarrow> b \<noteq> [] \<and> length b < 2 ^ 31)"

lemma peers_emptied: "peers L a b \<Longrightarrow> peers L (a\<lparr>ses_outgoing_payloads := []\<rparr>) b"
  by (auto simp: peers_def talking_def filters_handshake_def repeats_handshake_def intro: session_wf_queue)

lemma peers_drained:
  assumes "peers L a b"
  shows "peers L (drained a) b" "peers L (drained a) (b\<lparr>ses_outgoing_payloads := []\<rparr>)"
proof -
  have "drained a = a\<lparr>ses_outgoing_payloads := []\<rparr>"
    using assms by (simp add: drained_def peers_def talking_def)
  with peers_emptied [OF assms] show "peers L (drained a) b" by simp
  then show "peers L (drained a) (b\<lparr>ses_outgoing_payloads := []\<rparr>)"
    using peers_emptied peers_sym by blast
qed

lemma dispatcher_offers:
  assumes libs: "libs_work L" and ready: "handshake_ready L KA KB idA idB (new_initiator idA A) (new_responder B)"
    and cid: "cid = coin_uuid4 ca" and uuid: "length cid = 16"
    and room: "has_room cid A" and p: "short_payload p"
  obtains a out A' where "A' = queue_payload cid p (snd (dispatcher_initiate L KA ca idA idB now A))"
    and "moves cid (None, None, Some a, Some []) [out] [] A A'" "dsp_candidates A' = dsp_candidates A"
    and "offered L KA KB idA cid a out (new_responder B)" "session_reach L KA a"
    and "ses_outgoing_payloads a = []" "ses_pending_payload a = p"
proof -
  obtain a1 out where i: "initiate L KA ca idB now (new_initiator idA A) = (Inr (), a1\<lparr>ses_outgoing_pdus := [out]\<rparr>)"
      "offered L KA KB idA cid a1 out (new_responder B)"
      "ses_outgoing_payloads a1 = ses_outgoing_payloads (new_initiator idA A)" "ses_pending_payload a1 = ses_pending_payload (new_initiator idA A)"
    by (rule initiator_offers [OF libs ready uuid [unfolded cid], folded cid])
  have e: "a1\<lparr>ses_outgoing_pdus := []\<rparr> = a1" and c1: "ses_cid a1 = Some cid"
    using i(2) by (auto simp: offered_def initiator_halfway_def)
  have "session_reach L KA (snd (initiate L KA ca idB now (new_initiator idA A)))"
    by (rule reach_step [OF reach_init step_initiate])
  then have r1: "session_reach L KA a1"
    using reach_drop_pdus [of L KA "a1\<lparr>ses_outgoing_pdus := [out]\<rparr>"] i(1) e by simp
  have v0: "view cid A = (None, None, None, None)" using room by (simp add: has_room_def)
  let ?A1 = "snd (dispatcher_initiate L KA ca idA idB now A)"
  have m1: "moves cid (None, None, Some a1, Some []) [out] [] A ?A1" "dsp_candidates ?A1 = dsp_candidates A"
    using moves_initiate [OF i(1) _ v0] c1 e by simp_all
  show thesis
  proof (cases p)
    case None
    then show ?thesis
      using that [of ?A1 a1 out] m1 i r1 by (simp add: queue_payload_def Session_init_def)
  next
    case (Some b)
    let ?a = "a1\<lparr>ses_pending_payload := Some b\<rparr>"
    have b: "b \<noteq> []" "length b < 2 ^ 31" using p Some by (simp_all add: short_payload_def)
    have "view cid ?A1 = (None, None, Some a1, Some [])" using m1(1) by (simp add: moves_def)
    note m2 = moves_post_payload_initiator [OF this b(1)]
    have "session_reach L KA (snd (post_payload b a1))" by (rule reach_step [OF r1 step_post_payload])
    then have "session_reach L KA ?a" using b(1) by (simp add: post_payload_def)
    then show ?thesis
      using that [of "snd (dispatcher_post_payload cid b ?A1)" ?a out] moves_trans [OF m1(1) m2(1)] m1(2) m2(2) i
        offered_pending [OF i(2) b(2)] Some
      by (simp add: queue_payload_def Session_init_def)
  qed
qed

lemma dispatcher_answers:
  assumes libs: "libs_work L" and offer: "offered L KA KB idA cid a out (new_responder B)"
    and room: "has_room cid B" and q: "short_payload q"
  obtains b out' B' where
      "B' = queue_payload cid q (snd (dispatcher_post_pdu L KB (\<lambda>_. c) out now B))"
    and "moves cid (None, Some b, None, None) [out'] [] B B'"
    and "halfway L KA idA cid a out' b" "ses_outgoing_payloads b = []" "ses_pending_payload b = q" "session_wf b"
proof -
  obtain b1 out' where r: "update_session L KB c now (post_pdu out (new_responder B)) =
      (Inr (update_outcome now (b1\<lparr>ses_outgoing_pdus := [out']\<rparr>)), b1\<lparr>ses_outgoing_pdus := [out']\<rparr>)"
      "halfway L KA idA cid a out' b1"
      "ses_outgoing_payloads b1 = ses_outgoing_payloads (new_responder B)" "ses_pending_payload b1 = ses_pending_payload (new_responder B)"
    by (rule responder_answers [OF libs offer])
  have none: "ses_outgoing_payloads (new_responder B) = []" "ses_pending_payload (new_responder B) = None"
    by (simp_all add: Session_init_def)
  have e: "drained (b1\<lparr>ses_outgoing_pdus := [out']\<rparr>) = b1" and st: "ses_state b1 = EXPECT_SESSION_COMPLETION_REQUEST"
    using r(2,3) none by (auto simp: halfway_def responder_halfway_def drained_def)
  have wf1: "session_wf b1"
    by (rule cranked_wf [OF session_wf_init r(1)]) (use r(2) in \<open>auto simp: halfway_def responder_halfway_def\<close>)
  obtain req where m: "MakeMessage_load L out = Inr \<lparr>mm_version = 0, mm_cid = cid, mm_payload = Session_init_request req\<rparr>"
    using offer by (auto simp: offered_def)
  have v0: "view cid B = (None, None, None, None)" using room by (simp add: has_room_def)
  obtain cand store where ad: "add cid out [] now (dsp_candidates B) = (Inr cand, store)"
    using add_admitted [of "dsp_candidates B" cid out "[]" now] room by (auto simp: has_room_def)
  let ?B1 = "snd (dispatcher_post_pdu L KB (\<lambda>_. c) out now B)"
  have m1: "moves cid (None, Some b1, None, None) [out'] [] B ?B1"
    using moves_request [OF m, where d = B and cs = "\<lambda>_. c" and K = KB and now = now] v0 ad r(1) st e r(3) none
    by simp
  show thesis
  proof (cases q)
    case None
    then show ?thesis using that [of ?B1 b1 out'] m1 r none wf1 by (simp add: queue_payload_def)
  next
    case (Some p)
    let ?b = "b1\<lparr>ses_pending_payload := Some p\<rparr>"
    have p: "p \<noteq> []" "length p < 2 ^ 31" using q Some by (simp_all add: short_payload_def)
    have "view cid ?B1 = (None, Some b1, None, None)" using m1 by (simp add: moves_def)
    note m2 = moves_post_payload_responder [OF this p(1)]
    have "session_wf ?b" using session_wf_post_payload [OF wf1, of p] p(1) by (simp add: post_payload_def)
    then show ?thesis
      using that [of "snd (dispatcher_post_payload cid p ?B1)" ?b out'] moves_trans [OF m1 m2] r none
        halfway_pending [OF r(2) p(2)] Some
      by (simp add: queue_payload_def)
  qed
qed

lemma dispatcher_completes:
  assumes libs: "libs_work L" and half: "halfway L K idA cid a out b" and reach: "session_reach L K a"
    and none: "ses_outgoing_payloads a = []" and v: "view cid d = (None, None, Some a, Some [])"
    and ad: "\<exists>cand store. add cid out [] now (dsp_candidates d) = (Inr cand, store)"
  obtains a' out' where "closing L cid (case ses_pending_payload a of None \<Rightarrow> [] | Some m \<Rightarrow> m) a' out' b"
    and "session_wf a'" "ses_outgoing_payloads a' = []"
    and "moves cid (None, None, Some a, Some [a']) [out'] [] d (snd (dispatcher_post_pdu L K (\<lambda>_. c) out now d))"
proof -
  obtain a' out' where u: "update_session L K c now (post_pdu out a) =
      (Inr (update_outcome now (a'\<lparr>ses_outgoing_pdus := [out']\<rparr>)), a'\<lparr>ses_outgoing_pdus := [out']\<rparr>)"
      "closing L cid (case ses_pending_payload a of None \<Rightarrow> [] | Some m \<Rightarrow> m) a' out' b"
      "ses_outgoing_payloads a' = ses_outgoing_payloads a"
    by (rule initiator_completes [OF libs half refl])
  obtain resp where m: "MakeMessage_load L out =
      Inr \<lparr>mm_version = 0, mm_cid = cid, mm_payload = Session_init_response resp\<rparr>"
    using half by (auto simp: halfway_def)
  have h: "ses_state a = EXPECT_SESSION_INIT_RESPONSE" "ses_incoming_queue a = []" "ses_outgoing_pdus a = []"
    using half by (auto simp: halfway_def initiator_halfway_def)
  have f: "fork L a = Inr a"
    using fork_eq [OF session_reach_wf [OF reach] seed_rebuilds_reach [OF libs_workD(3) [OF libs] reach] h(1)]
      h none by simp
  have e: "ses_outgoing_pdus a' = []" using u(2) by (auto simp: closing_def initiator_closing_def)
  then have d: "drained (a'\<lparr>ses_outgoing_pdus := [out']\<rparr>) = a'"
    using u(3) none by (simp add: drained_def)
  have "moves cid (None, None, Some a, Some [a']) [out'] [] d (snd (dispatcher_post_pdu L K (\<lambda>_. c) out now d))"
    using ad moves_response [OF m _ _ _ _ f, where p = resp and d = d and K = K and now = now and cs = "\<lambda>_. c" and
        x = "update_outcome now (a'\<lparr>ses_outgoing_pdus := [out']\<rparr>)" and f' = "a'\<lparr>ses_outgoing_pdus := [out']\<rparr>" and
        r = None and fs = "[]"] v u(1,3) d none
    by fastforce
  with u(2,3) none cranked_wf [OF session_reach_wf [OF reach] u(1) e] show thesis by (intro that) simp_all
qed

lemma dispatcher_finishes:
  assumes libs: "libs_work L" and clo: "closing L cid plaintext a out b" and wf: "session_wf b"
    and none: "ses_outgoing_payloads b = []" and v: "view cid d = (None, Some b, t, fs)"
  obtains b' out' where "confirming L cid (ses_pending_payload b) a out' b'"
    and "moves cid (Some (b'\<lparr>ses_outgoing_payloads := []\<rparr>), None, None, None) [out']
      (if plaintext = [] then [] else [plaintext]) d (snd (dispatcher_post_pdu L K (\<lambda>_. c) out now d))"
proof -
  obtain b' out' where u: "update_session L K c now (post_pdu out b) =
      (Inr (update_outcome now (b'\<lparr>ses_outgoing_pdus := [out']\<rparr>)), b'\<lparr>ses_outgoing_pdus := [out']\<rparr>)"
      "confirming L cid (ses_pending_payload b) a out' b'"
      "ses_outgoing_payloads b' = ses_outgoing_payloads b @ (if plaintext = [] then [] else [plaintext])"
    by (rule responder_finishes [OF libs clo wf])
  obtain req where m: "MakeMessage_load L out =
      Inr \<lparr>mm_version = 0, mm_cid = cid, mm_payload = Session_completion_request req\<rparr>"
    using clo by (auto simp: closing_def)
  have d: "drained (b'\<lparr>ses_outgoing_pdus := [out']\<rparr>) = b'\<lparr>ses_outgoing_payloads := []\<rparr>" "ses_state b' = ESTABLISHED"
    using u(2) by (auto simp: drained_def confirming_def talking_def)
  show thesis
    using that [OF u(2)] moves_completion_request [OF m _ _ u(1), where d = d and t = t and fs = fs] v u(3) d none
    by simp
qed

lemma dispatcher_confirmed:
  assumes conf: "confirming L cid reply a out b" and wf: "session_wf a"
    and none: "ses_outgoing_payloads a = []" and v: "view cid d = (None, None, t, Some [a])"
  obtains a' where "peers L a' b"
    and "moves cid (Some (drained a'), None, None, None) [] (case reply of None \<Rightarrow> [] | Some m \<Rightarrow> [m])
      d (snd (dispatcher_post_pdu L K (\<lambda>_. c) out now d))"
proof -
  obtain a' where u: "update_session L K c now (post_pdu out a) = (Inr (update_outcome now a'), a')"
      "peers L a' b" "ses_outgoing_payloads a' = ses_outgoing_payloads a @ (case reply of None \<Rightarrow> [] | Some m \<Rightarrow> [m])"
    by (rule initiator_finishes [OF conf wf])
  obtain h where m: "MakeMessage_load L out =
      Inr \<lparr>mm_version = 0, mm_cid = cid, mm_payload = Session_completion_response h\<rparr>"
    using conf by (auto simp: confirming_def)
  have e: "ses_state a' = ESTABLISHED" "ses_outgoing_pdus a' = []" using u(2) by (simp_all add: peers_def talking_def)
  show thesis
    using that [OF u(2)] moves_completion_response [OF m, where p = h and d = d and K = K and now = now and
        cs = "\<lambda>_. c" and f = a and x = "update_outcome now a'" and f' = a' and pre = "[]" and post = "[]" and t = t]
      v u(1,3) e none
    by simp
qed

lemma dispatcher_handshake_works:
  assumes libs: "libs_work L"
    and ready: "handshake_ready L KA KB idA idB (new_initiator idA A) (new_responder B)"
    and uuid: "length (coin_uuid4 (c 0)) = 16"
    and room: "has_room (coin_uuid4 (c 0)) A" "has_room (coin_uuid4 (c 0)) B"
    and pq: "short_payload p" "short_payload q"
    and run: "dispatcher_handshake L KA KB idA idB c t p q (A, B) = (A', B')"
  shows "(\<exists>a b. view (coin_uuid4 (c 0)) A' = (Some a, None, None, None) \<and>
        view (coin_uuid4 (c 0)) B' = (Some b, None, None, None) \<and> peers L a b \<and>
        outgoing_count a \<le> 1 \<and> outgoing_count b \<le> 1 \<and>
        ses_outgoing_payloads a = [] \<and> ses_outgoing_payloads b = [])
    \<and> dsp_outgoing_payloads B' = dsp_outgoing_payloads B @
        (case p of None \<Rightarrow> [] | Some m \<Rightarrow> [(coin_uuid4 (c 0), m)])
    \<and> dsp_outgoing_payloads A' = dsp_outgoing_payloads A @
        (case q of None \<Rightarrow> [] | Some m \<Rightarrow> [(coin_uuid4 (c 0), m)])
    \<and> dsp_outgoing_pdus A' = [] \<and> dsp_outgoing_pdus B' = []
    \<and> only_touches (coin_uuid4 (c 0)) A A' \<and> only_touches (coin_uuid4 (c 0)) B B'"
proof -
  define cid where "cid = coin_uuid4 (c 0)"
  note room = room [folded cid_def] and uuid = uuid [folded cid_def]
  obtain a out1 A1 where A1: "A1 = queue_payload cid p (snd (dispatcher_initiate L KA (c 0) idA idB (t 0) A))"
      "moves cid (None, None, Some a, Some []) [out1] [] A A1" "dsp_candidates A1 = dsp_candidates A"
      "offered L KA KB idA cid a out1 (new_responder B)" "session_reach L KA a"
      "ses_outgoing_payloads a = []" "ses_pending_payload a = p"
    by (rule dispatcher_offers [OF libs ready cid_def uuid room(1) pq(1)])
  have start: "progress cid (None, None, None, None) [] A A" "progress cid (None, None, None, None) [] B B"
    using room by (simp_all add: progress_def has_room_def only_touches_refl)
  note s1 = progress_step [OF start(1) A1(2)]
  obtain b out2 B2 where B2: "B2 = queue_payload cid q (snd (dispatcher_post_pdu L KB (\<lambda>_. c 1) out1 (t 1) B))"
      "moves cid (None, Some b, None, None) [out2] [] B B2"
      "halfway L KA idA cid a out2 b" "ses_outgoing_payloads b = []" "ses_pending_payload b = q" "session_wf b"
    by (rule dispatcher_answers [OF libs A1(4) room(2) pq(2)])
  note s2 = progress_step [OF start(2) B2(2)]
  let ?A2 = "A1\<lparr>dsp_outgoing_pdus := []\<rparr>" and ?B3 = "B2\<lparr>dsp_outgoing_pdus := []\<rparr>"
  let ?plaintext = "case ses_pending_payload a of None \<Rightarrow> [] | Some m \<Rightarrow> m"
  have v: "view cid ?A2 = (None, None, Some a, Some [])" "view cid ?B3 = (None, Some b, None, None)"
    using s1(2) s2(2) by (simp_all add: progress_def)
  have ad: "\<exists>cand store. add cid out2 [] (t 2) (dsp_candidates ?A2) = (Inr cand, store)"
    using add_admitted [of "dsp_candidates A" cid out2 "[]" "t 2"] room(1) A1(3) by (auto simp: has_room_def)
  obtain a1 out3 where a1: "closing L cid ?plaintext a1 out3 b" "session_wf a1" "ses_outgoing_payloads a1 = []"
      "moves cid (None, None, Some a, Some [a1]) [out3] [] ?A2 (snd (dispatcher_post_pdu L KA (\<lambda>_. c 2) out2 (t 2) ?A2))"
    by (rule dispatcher_completes [OF libs B2(3) A1(5,6) v(1) ad])
  note s3 = progress_step [OF s1(2) a1(4)]
  obtain b1 out4 where b1: "confirming L cid (ses_pending_payload b) a1 out4 b1"
      "moves cid (Some (b1\<lparr>ses_outgoing_payloads := []\<rparr>), None, None, None) [out4]
        (if ?plaintext = [] then [] else [?plaintext]) ?B3 (snd (dispatcher_post_pdu L KB (\<lambda>_. c 3) out3 (t 3) ?B3))"
    by (rule dispatcher_finishes [OF libs a1(1) B2(6,4) v(2)])
  note s4 = progress_step [OF s2(2) b1(2)]
  let ?A4 = "(snd (dispatcher_post_pdu L KA (\<lambda>_. c 2) out2 (t 2) ?A2))\<lparr>dsp_outgoing_pdus := []\<rparr>"
  have v4: "view cid ?A4 = (None, None, Some a, Some [a1])" using s3(2) by (simp add: progress_def)
  obtain a2 where a2: "peers L a2 b1"
      "moves cid (Some (drained a2), None, None, None) [] (case ses_pending_payload b of None \<Rightarrow> [] | Some m \<Rightarrow> [m])
        ?A4 (snd (dispatcher_post_pdu L KA (\<lambda>_. c 4) out4 (t 4) ?A4))"
    by (rule dispatcher_confirmed [OF b1(1) a1(2,3) v4])
  note s5 = progress_last [OF s3(2) a2(2)]
  have "A' = snd (dispatcher_post_pdu L KA (\<lambda>_. c 4) out4 (t 4) ?A4)"
    "B' = (snd (dispatcher_post_pdu L KB (\<lambda>_. c 3) out3 (t 3) ?B3))\<lparr>dsp_outgoing_pdus := []\<rparr>"
    using run s1(1) s2(1) s3(1) s4(1) A1(1) B2(1)
    by (simp_all add: dispatcher_handshake_def Let_def cid_def [symmetric] del: One_nat_def)
  moreover have "outgoing_count (drained a2) \<le> 1" "outgoing_count (b1\<lparr>ses_outgoing_payloads := []\<rparr>) \<le> 1"
    using b1(1) a2(1) by (auto simp: confirming_def peers_def outgoing_count_def drained_def)
  moreover have "?plaintext = [] \<longleftrightarrow> p = None" using pq(1) A1(7) by (auto simp: short_payload_def split: option.splits)
  ultimately show ?thesis
    using s4(2) s5 A1(7) B2(5) peers_drained(2) [OF a2(1)] by (auto simp: progress_def cid_def split: option.splits)
qed

text \<open>
  C8. Two dispatchers complete a handshake: if the keys, the configurations and the room for one
  candidate are there, the PDUs each of them queues, posted to the other, end with the correlation id
  established on both sides and peers, no pending session of that id left, a waiting payload of
  either side delivered to the other under the id, and every other conversation untouched.
\<close>

theorem dispatchers_establish_peers:
  assumes libs: "libs_work L"
    and ready: "handshake_ready L KA KB idA idB (new_initiator idA A) (new_responder B)"
    and uuid: "length (coin_uuid4 (c 0)) = 16"
    and room: "has_room (coin_uuid4 (c 0)) A" "has_room (coin_uuid4 (c 0)) B"
    and pq: "short_payload p" "short_payload q"
    and run: "dispatcher_handshake L KA KB idA idB c t p q (A, B) = (A', B')"
  shows "(\<exists>a b. view (coin_uuid4 (c 0)) A' = (Some a, None, None, None) \<and>
        view (coin_uuid4 (c 0)) B' = (Some b, None, None, None) \<and> peers L a b)
    \<and> dsp_outgoing_payloads B' = dsp_outgoing_payloads B @
        (case p of None \<Rightarrow> [] | Some m \<Rightarrow> [(coin_uuid4 (c 0), m)])
    \<and> dsp_outgoing_payloads A' = dsp_outgoing_payloads A @
        (case q of None \<Rightarrow> [] | Some m \<Rightarrow> [(coin_uuid4 (c 0), m)])
    \<and> dsp_outgoing_pdus A' = [] \<and> dsp_outgoing_pdus B' = []
    \<and> only_touches (coin_uuid4 (c 0)) A A' \<and> only_touches (coin_uuid4 (c 0)) B B'"
  using dispatcher_handshake_works [OF assms] by blast

end
