(* ===== verification/ForgedResponse.thy ===== *)
theory ForgedResponse
  imports DispatcherHandshake
begin

section \<open>Forged responses: which fork the completion response establishes\<close>

text \<open>
  Anyone can answer a session init request without a private key, so an initiator may wait for
  the completion response with several forks, one for each answer, in the order they came. The responder
  finishes the handshake with one of them. Its completion response holds the hash of the false-start
  payload, the same for every fork, and the encrypted reply only if there is one: with a reply the
  genuine fork is found wherever it stands, without one the first fork wins.
\<close>

lemma update_refused:
  assumes "ses_incoming_queue f = []" "ses_state f \<noteq> DROPPED" "process_incoming L K c now der f = (Inl e, f')" "caught e"
  shows "refuses L K c now der f"
proof -
  have "(post_pdu der f)\<lparr>ses_incoming_queue := []\<rparr> = f" using assms(1) by (simp add: post_pdu_def)
  moreover have "ses_incoming_queue (post_pdu der f) = [der]" "ses_state (post_pdu der f) \<noteq> DROPPED"
    using assms(1,2) by (simp_all add: post_pdu_def)
  ultimately show ?thesis using assms(3,4) by (simp add: refuses_def update_session_def)
qed

lemma update_ignored:
  assumes "ses_incoming_queue f = []" "ses_state f \<notin> {DROPPED, ESTABLISHED}"
    and "process_incoming L K c now der f = (Inr (), f')" "ses_state f' = ses_state f"
  shows "refuses L K c now der f"
proof -
  have "(post_pdu der f)\<lparr>ses_incoming_queue := []\<rparr> = f" using assms(1) by (simp add: post_pdu_def)
  moreover have "ses_incoming_queue (post_pdu der f) = [der]" "ses_state (post_pdu der f) \<noteq> DROPPED"
    using assms(1,2) by (simp_all add: post_pdu_def)
  moreover have "ses_state (on_timeout now f') \<noteq> ESTABLISHED"
    using assms(2,4) by (auto simp: on_timeout_def Let_def split: option.split)
  ultimately show ?thesis using assms by (auto simp: refuses_def update_session_def Let_def)
qed

lemma refuses_undecryptable:
  assumes fork: "fork_ok cid f" "ses_state f \<noteq> ESTABLISHED"
    and msg: "MakeMessage_load L der = Inr msg" "mm_cid msg = cid" "mm_payload msg = Session_completion_response h"
    and m: "scp_m h = Some ct"
    and bad: "\<And>keys. ses_session_keys f = Some keys \<Longrightarrow>
      \<exists>e. decrypt L (sk_aead_name keys) (sk_key_b2a keys) (sk_iv_b2a keys) 0 ct cid = Inl e"
  shows "refuses L K c now der f"
proof (cases "ses_state f = DROPPED")
  case True
  then show ?thesis by (simp add: refuses_def update_session_def post_pdu_def)
next
  case False
  have f: "session_wf f" "ses_incoming_queue f = []" "ses_cid f = Some cid" "ses_role f = INITIATOR"
      "ses_state f \<noteq> INITIAL"
    using fork False by (auto simp: fork_ok_def owned_def)
  note c = MakeMessage_loadD(4) [OF msg(1)]
  show ?thesis
  proof (cases "ses_last_received f = Some der")
    case True
    then show ?thesis
      using f False fork(2)
      by (intro update_ignored [where f' = "resend f"]) (auto simp: process_incoming_def resend_def split: option.split)
  next
    case new: False
    show ?thesis
    proof (cases "ses_state f = EXPECT_SESSION_COMPLETION_RESPONSE")
      case True
      then obtain keys p where k: "ses_session_keys f = Some keys" "ses_sent_plaintext_for_h_m f = Some p"
        using f(1) by (auto simp: session_wf_def awaits_completion_response_def)
      then obtain e where "decrypt L (sk_aead_name keys) (sk_key_b2a keys) (sk_iv_b2a keys) 0 ct cid = Inl e"
        using bad by blast
      then have "handle_session_completion_response L now h der f = (Inl HandshakeFailed, f)"
        using k m f(3) by (simp add: handle_session_completion_response_def commit_def)
      then show ?thesis
        using process_expected(4) [OF msg(1) new True f(4) _ msg(3)] f msg(2) False
        by (intro update_refused [where e = HandshakeFailed and f' = f]) (simp_all add: caught_def)
    next
      case other: False
      have "process_incoming L K c now der f = (Inl UnexpectedPDU, f)"
        using new other False fork(2) f c msg
        by (cases "ses_state f") (auto simp: process_incoming_def)
      then show ?thesis using f(2) False
        by (intro update_refused [where e = UnexpectedPDU and f' = f]) (simp_all add: caught_def)
    qed
  qed
qed

text \<open>
  C20. A reply finds the genuine fork: when the responder's completion response carries a reply, the fork
  that answers the responder is established and its peer, the reply is delivered, and all other
  forks are gone, however many forged ones stand before it, as long as the reply does not decrypt under
  their keys.
\<close>

theorem reply_finds_genuine_fork:
  assumes "dispatcher_wf d" and conf: "confirming L cid (Some p) g der b"
    and v: "view cid d = (None, None, Some t, Some (pre @ g # post))"
    and open_forks: "\<forall>f \<in> set pre. ses_state f \<noteq> ESTABLISHED"
    and auth: "\<forall>f \<in> set pre. \<forall>keys msg h ct. ses_session_keys f = Some keys \<longrightarrow> MakeMessage_load L der = Inr msg \<longrightarrow>
        mm_payload msg = Session_completion_response h \<longrightarrow> scp_m h = Some ct \<longrightarrow>
        (\<exists>e. decrypt L (sk_aead_name keys) (sk_key_b2a keys) (sk_iv_b2a keys) 0 ct cid = Inl e)"
    and post: "dispatcher_post_pdu L K cs der now d = (r, d')"
  shows "\<exists>a. view cid d' = (Some a, None, None, None) \<and> peers L a b \<and>
      dsp_outgoing_payloads d' = dsp_outgoing_payloads d @ map (Pair cid) (ses_outgoing_payloads g @ [p])"
proof -
  obtain h where m: "MakeMessage_load L der = Inr \<lparr>mm_version = 0, mm_cid = cid,
      mm_payload = Session_completion_response h\<rparr>" and ct: "scp_m h \<noteq> None"
    using conf by (auto simp: confirming_def)
  have ok: "fork_ok cid f" if "f \<in> set (pre @ g # post)" for f
    using dispatcher_wfD(5) [OF assms(1) viewD(4) [OF v] that] .
  have refuse: "refuses L K (cs i) now der (pre ! i)" if "i < length pre" for i
  proof -
    from ct obtain c where c: "scp_m h = Some c" by blast
    have i: "pre ! i \<in> set pre" using that by simp
    show ?thesis
      by (rule refuses_undecryptable [OF _ _ m _ _ c]) (use i ok open_forks auth m c in \<open>auto\<close>)
  qed
  have "session_wf g" using ok [of g] by (simp add: fork_ok_def owned_def)
  then obtain a where a: "update_session L K (cs (length pre)) now (post_pdu der g) = (Inr (update_outcome now a), a)"
      "peers L a b" "ses_outgoing_payloads a = ses_outgoing_payloads g @ [p]"
    by (rule initiator_finishes [OF conf]) simp
  have "ses_state a = ESTABLISHED" using a(2) by (simp add: peers_def talking_def)
  from moves_completion_response [OF m, where d = d and f' = a and x = "update_outcome now a" and
      pre = pre and f = g and post = post and t = "Some t" and p = h and cs = cs and K = K and now = now]
  have "moves cid (Some (drained a), None, None, None) (ses_outgoing_pdus a) (ses_outgoing_payloads a) d d'"
    using v refuse a(1) \<open>ses_state a = ESTABLISHED\<close> post by simp
  moreover have "peers L (drained a) b" by (rule peers_drained(1) [OF a(2)])
  ultimately show ?thesis using a(3) by (auto simp: moves_def)
qed

text \<open>
  C21. Without a reply the first fork wins: the responder's own completion response then carries the hash
  of the false-start payload only, so if a fork made for a forged response stands before the genuine
  one (both sent the same payload), that fork is established under its own keys, the genuine fork is
  discarded, and the two sides are no peers.
\<close>

theorem forged_fork_wins_without_reply:
  assumes "dispatcher_wf d" and conf: "confirming L cid None g der b"
    and v: "view cid d = (None, None, Some t, Some (f # fs))" and "g \<in> set fs"
    and f: "ses_state f = EXPECT_SESSION_COMPLETION_RESPONSE" "ses_last_received f \<noteq> Some der"
      "ses_pending_payload f = None" "ses_sent_plaintext_for_h_m f = ses_sent_plaintext_for_h_m g"
    and post: "dispatcher_post_pdu L K cs der now d = (r, d')"
  shows "\<exists>a. view cid d' = (Some a, None, None, None) \<and> ses_session_keys a = ses_session_keys f
    \<and> (peers L a b \<longrightarrow> ses_session_keys f = ses_session_keys g)"
proof -
  obtain keys p where g: "initiator_closing L cid keys p g" and kb: "ses_session_keys b = Some keys"
    and m: "MakeMessage_load L der = Inr \<lparr>mm_version = 0, mm_cid = cid,
      mm_payload = Session_completion_response \<lparr>scp_h_m = sha256 L p, scp_m = None\<rparr>\<rparr>"
    using conf by (auto simp: confirming_def)
  have "fork_ok cid f" using dispatcher_wfD(5) [OF assms(1) viewD(4) [OF v]] by simp
  then have o: "ses_role f = INITIATOR" "ses_cid f = Some cid" "ses_incoming_queue f = []"
    using f(1) by (simp_all add: fork_ok_def owned_def)
  have p: "ses_sent_plaintext_for_h_m f = Some p" using g f(4) by (simp add: initiator_closing_def)
  let ?f = "f\<lparr>ses_last_received := Some der, ses_last_sent := None, ses_state := ESTABLISHED, ses_deadline := None\<rparr>"
  have "process_incoming L K (cs 0) now der f = (Inr (), ?f)"
    using process_expected(4) [OF m f(2,1)] o p by (simp add: handle_session_completion_response_def commit_def)
  then have u: "update_session L K (cs 0) now (post_pdu der f) = (Inr (update_outcome now ?f), ?f)"
    by (rule update_posted [rotated 2]) (use o f in \<open>auto simp: timed_out_def\<close>)
  have "moves cid (Some (drained ?f), None, None, None) (ses_outgoing_pdus ?f) (ses_outgoing_payloads ?f) d d'"
    using moves_completion_response [OF m, where d = d and f' = ?f and x = "update_outcome now ?f" and
      pre = "[]" and f = f and post = fs and t = "Some t" and cs = cs and K = K and now = now] v u post by simp
  then show ?thesis
    using g kb by (auto simp: moves_def peers_def drained_def initiator_closing_def)
qed

end
