(* ===== verification/Simulation.thy ===== *)
theory Simulation
  imports Prelude
begin

section \<open>Runs and forward simulation\<close>

text \<open>
  \<open>run step es\<close>: the states a labelled step relation joins by the calls \<open>es\<close>. The locale
  \<open>forward_simulation\<close> is the contract of a refinement: each concrete step, from a state with the invariant,
  keeps the invariant and is an abstract step under the abstraction.
\<close>

inductive run :: "('e \<Rightarrow> 's \<Rightarrow> 's \<Rightarrow> bool) \<Rightarrow> 'e list \<Rightarrow> 's \<Rightarrow> 's \<Rightarrow> bool" for step where
  run_none: "run step [] s s"
| run_first: "step e s t \<Longrightarrow> run step es t u \<Longrightarrow> run step (e # es) s u"

locale forward_simulation =
  fixes cstep :: "'e \<Rightarrow> 'c \<Rightarrow> 'c \<Rightarrow> bool" and astep :: "'e \<Rightarrow> 'a \<Rightarrow> 'a \<Rightarrow> bool"
    and abstraction :: "'c \<Rightarrow> 'a" and inv :: "'c \<Rightarrow> bool"
  assumes keeps_inv: "cstep e c d \<Longrightarrow> inv c \<Longrightarrow> inv d"
    and simulates: "cstep e c d \<Longrightarrow> inv c \<Longrightarrow> astep e (abstraction c) (abstraction d)"
begin

lemma run_simulates: "run cstep es c d \<Longrightarrow> inv c \<Longrightarrow> run astep es (abstraction c) (abstraction d)"
  by (induction rule: run.induct) (auto intro: run.intros simulates dest: keeps_inv)

end

end
