(* ===== verification/DispatcherPhases.thy ===== *)
theory DispatcherPhases
  imports DispatcherHandshake Simulation "HOL-Library.Sublist"
begin

section \<open>The dispatcher as a family of independent conversations\<close>

text \<open>
  The abstract specification of the dispatcher: each correlation id is in a phase, and a call
  moves the phase of its own id only, by few rules (the crank may drop anything pending).
  \<open>Open r i c\<close>: a responder session is pending (\<open>r\<close>), an initiation is pending (\<open>i\<close>), and one of its
  forks has been confirmed (\<open>c\<close>): its handshake is complete, but the call that completed it raised
  before the fork could be promoted. \<open>Done\<close>: a session is established. Every public method is a step
  of this specification for every id, on every path out of it, whether it returns or raises.
\<close>

subsection \<open>The specification\<close>

datatype phase = Open bool bool bool | Done

datatype event = Initiate bytes | Pdu bytes string | Close bytes | Crank | Local

inductive phase_step :: "bytes \<Rightarrow> event \<Rightarrow> phase \<Rightarrow> phase \<Rightarrow> bool" for cid where
  phase_stay: "phase_step cid e p p"
| phase_initiate: "phase_step cid (Initiate cid) (Open r i c) (Open r True False)"
| phase_request: "phase_step cid (Pdu cid ''session_init_request'') (Open False i c) (Open True i c)"
| phase_respond: "n = ''session_completion_request'' \<Longrightarrow> phase_step cid (Pdu cid n) (Open True i c) Done"
| phase_complete: "n = ''session_completion_response'' \<Longrightarrow> phase_step cid (Pdu cid n) (Open False True c) Done"
| phase_unpromoted: "n = ''session_completion_response'' \<Longrightarrow>
    phase_step cid (Pdu cid n) (Open False True False) (Open False True True)"
| phase_promote: "phase_step cid (Pdu cid n) (Open False i True) Done"
| phase_drop: "phase_step cid (Pdu cid n) (Open True i c) (Open False i c)"
| phase_crank: "(r' \<longrightarrow> r) \<Longrightarrow> (i' \<longrightarrow> i) \<Longrightarrow> (c' \<longrightarrow> c) \<Longrightarrow> phase_step cid Crank (Open r i c) (Open r' i' c')"
| phase_crank_promote: "phase_step cid Crank (Open r i True) Done"
| phase_close: "phase_step cid (Close cid) Done (Open False False False)"

inductive_simps phase_step_into_Done: "phase_step cid e p Done"
inductive_cases phase_crankE: "phase_step cid Crank p q"
inductive_cases phase_pduE: "phase_step cid (Pdu cid n) p q"

lemma phase_crank_trans: "phase_step cid Crank p q \<Longrightarrow> phase_step cid Crank q r \<Longrightarrow> phase_step cid Crank p r"
  by (elim phase_crankE) (auto intro: phase_step.intros)

lemma phase_fork_then:
  assumes "phase_step cid (Pdu cid n) (Open False True c') p" "c \<longrightarrow> c'" "c' \<longrightarrow> c \<or> n = ''session_completion_response''"
  shows "phase_step cid (Pdu cid n) (Open False True c) p"
proof (cases "c' = c")
  case False
  then have "c'" "\<not> c" "n = ''session_completion_response''" using assms(2,3) by blast+
  with assms(1) show ?thesis
    by (auto elim!: phase_pduE intro: phase_stay phase_complete phase_unpromoted)
qed (use assms(1) in simp)

subsection \<open>The dispatcher's steps, labelled\<close>

definition confirmed :: "bytes \<Rightarrow> dispatcher \<Rightarrow> bool" where
  "confirmed cid d \<longleftrightarrow> (\<exists>f \<in> set (forks_of cid d). ses_state f = ESTABLISHED)"

definition phase_of :: "bytes \<Rightarrow> dispatcher \<Rightarrow> phase" where
  "phase_of cid d = (if cid \<in> keys (dsp_established d) then Done
     else Open (cid \<in> keys (dsp_responder_sessions d)) (cid \<in> keys (dsp_initiator_templates d)) (confirmed cid d))"

lemma confirmed_same: "dsp_initiator_forks d' = dsp_initiator_forks d \<Longrightarrow> confirmed cid d' = confirmed cid d"
  by (simp add: confirmed_def forks_of_def)

lemma confirmed_set_forks [simp]: "confirmed cid (set_forks cid fs d) \<longleftrightarrow> (\<exists>f \<in> set fs. ses_state f = ESTABLISHED)"
  by (simp add: confirmed_def forks_of_def set_forks_def)

lemma confirmed_ops [simp]:
  "confirmed k (set_established cid s d) = confirmed k d" "confirmed k (set_responder cid s d) = confirmed k d"
  "confirmed k (forget_responder cid d) = confirmed k d" "confirmed k (collected s cid d) = confirmed k d"
  "confirmed k (d\<lparr>dsp_candidates := store\<rparr>) = confirmed k d"
  "k \<noteq> cid \<Longrightarrow> confirmed k (set_forks cid fs d) = confirmed k d"
  by (simp_all add: confirmed_def forks_of_def set_established_def set_responder_def set_forks_def forget_responder_def)

lemma confirmed_deleted:
  "dsp_initiator_forks d' = AList.delete cid (dsp_initiator_forks d) \<Longrightarrow> confirmed k d' \<Longrightarrow> k \<noteq> cid \<and> confirmed k d"
  by (auto simp: confirmed_def forks_of_def delete_conv' split: if_splits)

inductive dispatcher_event :: "lib \<Rightarrow> key_lookup \<Rightarrow> event \<Rightarrow> dispatcher \<Rightarrow> dispatcher \<Rightarrow> bool" for L K where
  event_initiate: "coin_uuid4 c \<notin> keys (dsp_established d) \<Longrightarrow>
     dispatcher_event L K (Initiate (coin_uuid4 c)) d (snd (dispatcher_initiate L K c own peer now d))"
| event_pdu: "MakeMessage_load L der = Inr msg \<Longrightarrow>
     dispatcher_event L K (Pdu (mm_cid msg) (payload_name (mm_payload msg))) d
       (snd (dispatcher_post_pdu L K cs der now d))"
| event_noise: "MakeMessage_load L der = Inl e \<Longrightarrow>
     dispatcher_event L K Local d (snd (dispatcher_post_pdu L K cs der now d))"
| event_post_payload: "dispatcher_event L K Local d (snd (dispatcher_post_payload cid p d))"
| event_get_pdu: "dispatcher_event L K Local d (snd (dispatcher_get_pdu d))"
| event_get_payload: "dispatcher_event L K Local d (snd (dispatcher_get_payload d))"
| event_close: "dispatcher_event L K (Close cid) d (close cid d)"
| event_update: "dispatcher_event L K Crank d (snd (dispatcher_update L K rnd now d))"

lemma event_is_step: "dispatcher_event L K e d d' \<Longrightarrow> dispatcher_step L K d d'"
  by (induction rule: dispatcher_event.induct) (auto intro: dispatcher_step.intros)

subsection \<open>What makes a session established\<close>

lemma process_incoming_established:
  assumes "process_incoming L K c now der s = (r, s')" "ses_state s \<noteq> ESTABLISHED" "ses_state s' = ESTABLISHED"
    and "MakeMessage_load L der = Inr msg"
  shows "(payload_name (mm_payload msg) = ''session_completion_request'' \<and> ses_role s = RESPONDER) \<or>
    (payload_name (mm_payload msg) = ''session_completion_response'' \<and> ses_role s = INITIATOR)"
  using assms(1)
proof (cases rule: process_incoming_cases)
  case (request msg req)
  from request(6) show ?thesis
    by (cases rule: handle_session_init_request_cases) (use request assms in auto)
next
  case (response msg resp)
  from response(7) show ?thesis
    by (cases rule: handle_session_init_response_cases) (use response assms in auto)
qed (use assms in \<open>auto simp: resend_def split: option.splits\<close>)

lemma later_phases_established:
  "ses_state sa \<noteq> ESTABLISHED \<Longrightarrow> ses_state (snd (sseq (if ses_state sa = ESTABLISHED \<and> ses_pending_payload sa \<noteq> None
         then send_established_payload L sa else (Inr (), sa)) (\<lambda>_ sb.
        if ses_state sb = DROPPED then (Inr (SESSION_DROPPED, Infinity), sb)
        else let sc = (if timed_out now sb then on_timeout now sb else sb)
             in (Inr (update_outcome now sc), sc)))) \<noteq> ESTABLISHED"
  by (auto simp: on_timeout_def Let_def split: option.split)

lemma posted_established:
  assumes "owned cid s" "ses_state s \<noteq> ESTABLISHED" "MakeMessage_load L der = Inr msg"
    and "ses_state (snd (update_session L K c now (post_pdu der s))) = ESTABLISHED"
  shows "(payload_name (mm_payload msg) = ''session_completion_request'' \<and> ses_role s = RESPONDER) \<or>
    (payload_name (mm_payload msg) = ''session_completion_response'' \<and> ses_role s = INITIATOR)"
proof (cases "ses_state s = DROPPED")
  case True
  with assms(4) show ?thesis by (simp add: update_session_def post_pdu_def)
next
  case False
  then have q: "ses_incoming_queue s = []" using assms(1) by (simp add: owned_def)
  then have e: "(post_pdu der s)\<lparr>ses_incoming_queue := []\<rparr> = s" by (simp add: post_pdu_def)
  have p: "ses_incoming_queue (post_pdu der s) = [der]" "ses_state (post_pdu der s) \<noteq> DROPPED"
    using q False by (simp_all add: post_pdu_def)
  obtain r s' where i: "process_incoming L K c now der s = (r, s')" by fastforce
  have "ses_state s' = ESTABLISHED"
  proof (rule ccontr)
    assume "ses_state s' \<noteq> ESTABLISHED"
    with later_phases_established [OF this, of L now] assms(4) p e i show False
      by (cases r) (simp_all add: update_session_def)
  qed
  from process_incoming_established [OF i assms(2) this assms(3)] show ?thesis .
qed

lemma cranked_established:
  assumes "owned cid s" "ses_state s \<noteq> ESTABLISHED"
  shows "ses_state (snd (update_session L K c now s)) \<noteq> ESTABLISHED"
  using assms later_phases_established [OF assms(2), of L now]
  by (cases "ses_state s = DROPPED") (auto simp: update_session_def owned_def)

lemma reply_steps_state [simp]:
  "ses_state (deliver_payload p s) = ses_state s" "ses_state (clear_replied s) = ses_state s"
  "ses_pending_payload (clear_replied s) = None"
  by (simp_all add: deliver_payload_def clear_replied_def)

text \<open>
  A responder is established by the last thing its call does that can raise: its reply has taken the
  payload that was waiting. (An initiator may still have one to send.)
\<close>

lemma responder_raise_not_established:
  assumes "owned cid s" "ses_role s = RESPONDER" "ses_state s \<noteq> ESTABLISHED"
    and "update_session L K c now (post_pdu der s) = (Inl e, s')"
  shows "ses_state s' \<noteq> ESTABLISHED"
proof (cases "ses_state s = DROPPED")
  case True
  with assms(4) show ?thesis by (auto simp: update_session_def post_pdu_def)
next
  case False
  then have q: "ses_incoming_queue s = []" using assms(1) by (simp add: owned_def)
  then have u: "(post_pdu der s)\<lparr>ses_incoming_queue := []\<rparr> = s" by (simp add: post_pdu_def)
  have p: "ses_incoming_queue (post_pdu der s) = [der]" "ses_state (post_pdu der s) \<noteq> DROPPED"
    using q False by (simp_all add: post_pdu_def)
  obtain r sa where i: "process_incoming L K c now der s = (r, sa)" by fastforce
  have est: "\<exists>y. r = Inr y \<and> ses_pending_payload sa = None" if "ses_state sa = ESTABLISHED"
    using i
  proof (cases rule: process_incoming_cases)
    case (request msg req)
    from request(6) show ?thesis by (cases rule: handle_session_init_request_cases) (use that assms(3) in auto)
  next
    case (completion_request msg req)
    from completion_request(7) show ?thesis
      by (cases rule: handle_session_completion_request_cases)
        (use that assms(3) in auto)
  qed (use that assms(2,3) in \<open>auto simp: resend_def split: option.splits\<close>)
  show ?thesis
  proof (cases "ses_state sa = ESTABLISHED")
    case True
    with est u p i assms(4) show ?thesis by (auto simp: update_session_def Let_def split: if_splits)
  next
    case False
    with later_phases_established [OF this, of L now] assms(4) u p i show ?thesis
      by (cases r) (simp_all add: update_session_def)
  qed
qed

lemma deliver_raise_not_established:
  assumes "deliver L K c s der now cid d = (Inl e, s', d')"
    and "responder_ok cid s" "ses_state s \<noteq> ESTABLISHED"
  shows "ses_state s' \<noteq> ESTABLISHED"
proof -
  have "update_session L K c now (post_pdu der s) = (Inl e, s')"
    using assms(1) by (auto simp: deliver_def drain_eq split: prod.splits sum.splits if_splits)
  with responder_raise_not_established show ?thesis using assms(2,3) by (auto simp: responder_ok_def)
qed

text \<open>A fork stays established, and only a completion response can establish it.\<close>

lemma fork_posted:
  assumes "fork_ok cid f" "MakeMessage_load L der = Inr msg" "mm_cid msg = cid"
    and "update_session L K c now (post_pdu der f) = (r, f')"
  shows "fork_ok cid f'" "ses_state f = ESTABLISHED \<Longrightarrow> ses_state f' = ESTABLISHED"
    "ses_state f' = ESTABLISHED \<Longrightarrow>
       ses_state f = ESTABLISHED \<or> payload_name (mm_payload msg) = ''session_completion_response''"
proof -
  have f': "f' = snd (update_session L K c now (post_pdu der f))" using assms(4) by simp
  note o = ok_owned(3) [OF assms(1)]
  show "fork_ok cid f'" unfolding f' by (rule role_ok_update_posted [OF role_ok_all(3) assms(1) o assms(2,3)])
  show "ses_state f' = ESTABLISHED" if "ses_state f = ESTABLISHED"
  proof -
    have "established_ok cid f" using that o by (simp add: established_ok_def)
    then have "established_ok cid f'"
      unfolding f' by (rule role_ok_update_posted [OF role_ok_all(1) _ o assms(2,3)])
    then show ?thesis by (simp add: established_ok_def)
  qed
  show "ses_state f = ESTABLISHED \<or> payload_name (mm_payload msg) = ''session_completion_response''"
    if "ses_state f' = ESTABLISHED"
    using posted_established [OF o _ assms(2), of K c now] assms(1) that f' by (auto simp: fork_ok_def)
qed

lemma fork_delivered:
  assumes "deliver L K c f der now cid d = (r, f', d')" "fork_ok cid f" "MakeMessage_load L der = Inr msg" "mm_cid msg = cid"
    and "payload_name (mm_payload msg) \<noteq> ''session_completion_response''"
  shows "ses_state f' = ESTABLISHED \<longleftrightarrow> ses_state f = ESTABLISHED"
proof -
  obtain x f1 where u: "update_session L K c now (post_pdu der f) = (x, f1)" by fastforce
  have "ses_state f' = ses_state f1" using assms(1) by (cases rule: deliver_cases) (simp_all add: u)
  with fork_posted(2,3) [OF assms(2-4) u] assms(5) show ?thesis by auto
qed

subsection \<open>No pending responder session is established\<close>

definition unconfirmed :: "dispatcher \<Rightarrow> bool" where
  "unconfirmed d \<longleftrightarrow> all_entries (\<lambda>_ s. ses_state s \<noteq> ESTABLISHED) (dsp_responder_sessions d)"

lemma unconfirmedD: "unconfirmed d \<Longrightarrow> map_of (dsp_responder_sessions d) cid = Some s \<Longrightarrow> ses_state s \<noteq> ESTABLISHED"
  by (auto simp: unconfirmed_def all_entries_def dest!: map_of_SomeD)

lemma unconfirmed_ops:
  "unconfirmed d \<Longrightarrow> unconfirmed (set_established cid s d)"
  "unconfirmed d \<Longrightarrow> ses_state s \<noteq> ESTABLISHED \<Longrightarrow> unconfirmed (set_responder cid s d)"
  "unconfirmed d \<Longrightarrow> unconfirmed (set_forks cid fs d)"
  "unconfirmed d \<Longrightarrow> unconfirmed (promote_session cid s d)"
  "unconfirmed d \<Longrightarrow> unconfirmed (forget_responder cid d)"
  "unconfirmed d \<Longrightarrow> unconfirmed (collected s cid d)"
  "unconfirmed d \<Longrightarrow> unconfirmed (d\<lparr>dsp_candidates := store\<rparr>)"
  by (auto simp: unconfirmed_def set_established_def set_responder_def set_forks_def promote_session_def
      forget_responder_def intro!: all_entries_update all_entries_delete)

text \<open>What a call does to the phase of one id, and that it keeps the pending responder sessions unconfirmed.\<close>

definition follows :: "bytes \<Rightarrow> event \<Rightarrow> dispatcher \<Rightarrow> dispatcher \<Rightarrow> bool" where
  "follows cid e d d' \<longleftrightarrow> phase_step cid e (phase_of cid d) (phase_of cid d') \<and> unconfirmed d'"

lemma follows_kept:
  assumes "unconfirmed d'" "keys (dsp_established d') = keys (dsp_established d)"
    and "keys (dsp_responder_sessions d') = keys (dsp_responder_sessions d)"
    and "keys (dsp_initiator_templates d') = keys (dsp_initiator_templates d)"
    and "confirmed cid d' = confirmed cid d"
  shows "follows cid e d d'"
  using assms by (simp add: follows_def phase_of_def phase_stay)

lemma follows_same:
  assumes "unconfirmed d'" "keys (dsp_established d') = keys (dsp_established d)"
    and "keys (dsp_responder_sessions d') = keys (dsp_responder_sessions d)"
    and "keys (dsp_initiator_templates d') = keys (dsp_initiator_templates d)"
    and "dsp_initiator_forks d' = dsp_initiator_forks d"
  shows "follows cid e d d'"
  using assms by (intro follows_kept confirmed_same)

lemma in_keys_map_of: "k \<in> keys d \<longleftrightarrow> map_of d k \<noteq> None"
  using map_of_keys(2) [of d k] by argo

lemma phase_only_touched: "only_touches k d d' \<Longrightarrow> cid \<noteq> k \<Longrightarrow> phase_of cid d' = phase_of cid d"
  by (simp add: only_touches_def phase_of_def confirmed_def forks_of_def in_keys_map_of)

subsection \<open>A PDU\<close>

lemma key_ops [simp]:
  "keys (dsp_established (set_established cid s d)) = insert cid (keys (dsp_established d))"
  "keys (dsp_responder_sessions (set_responder cid s d)) = insert cid (keys (dsp_responder_sessions d))"
  "dsp_responder_sessions (set_established cid s d) = dsp_responder_sessions d"
  "dsp_initiator_forks (set_established cid s d) = dsp_initiator_forks d"
  "keys (dsp_initiator_forks (set_forks cid fs d)) = insert cid (keys (dsp_initiator_forks d))"
  "keys (dsp_established (promote_session cid s d)) = insert cid (keys (dsp_established d))"
  "keys (dsp_responder_sessions (promote_session cid s d)) = keys (dsp_responder_sessions d) - {cid}"
  "keys (dsp_initiator_templates (promote_session cid s d)) = keys (dsp_initiator_templates d) - {cid}"
  "keys (dsp_responder_sessions (forget_responder cid d)) = keys (dsp_responder_sessions d) - {cid}"
  "dsp_initiator_forks (set_responder cid s d) = dsp_initiator_forks d"
  "dsp_initiator_forks (forget_responder cid d) = dsp_initiator_forks d"
  "dsp_established (set_forks cid fs d) = dsp_established d"
  "dsp_responder_sessions (set_forks cid fs d) = dsp_responder_sessions d"
  "dsp_initiator_templates (set_forks cid fs d) = dsp_initiator_templates d"
  by (simp_all add: set_established_def set_responder_def set_forks_def promote_session_def forget_responder_def)

lemma deliver_session:
  assumes "deliver L K c s der now cid d = (r, s', d')"
  shows "ses_state s' = ses_state (snd (update_session L K c now (post_pdu der s)))" "unconfirmed d \<Longrightarrow> unconfirmed d'"
    "confirmed k d' = confirmed k d"
  using assms by (cases rule: deliver_cases; simp add: unconfirmed_ops)+

lemma reap_phase:
  assumes "unconfirmed d" "ses_state s \<noteq> ESTABLISHED \<or> n = ''session_completion_request''"
    and "phase_of cid d0 = Open True i c" "phase_of cid d = Open True i c"
  shows "follows cid (Pdu cid n) d0 (reap_responder cid (set_responder cid s d))"
proof -
  have k: "cid \<notin> keys (dsp_established d)" "cid \<in> keys (dsp_initiator_templates d) \<longleftrightarrow> i"
      "confirmed cid d = c"
    using assms(4) by (auto simp: phase_of_def split: if_splits)
  have s: "map_of (dsp_responder_sessions (set_responder cid s d)) cid = Some s" by (simp add: set_responder_def)
  consider (est) "ses_state s = ESTABLISHED" | (drop) "ses_state s = DROPPED"
    | (keep) "ses_state s \<notin> {ESTABLISHED, DROPPED}" by blast
  then show ?thesis
  proof cases
    case est
    have "unconfirmed (promote_session cid (drained s) (collected s cid (set_responder cid s d)))"
    proof -
      have "promote_session cid (drained s) (collected s cid (set_responder cid s d)) =
          promote_session cid (drained s) (collected s cid d)"
        by (simp add: promote_session_def set_responder_def collected_def delete_update_same)
      then show ?thesis using assms(1) by (simp add: unconfirmed_ops)
    qed
    with est assms s k show ?thesis
      by (simp add: reap_responder_def drain_eq follows_def phase_of_def [of _ "promote_session _ _ _"] phase_respond)
  next
    case drop
    have "unconfirmed (forget_responder cid (set_responder cid s d))"
      using assms(1) drop by (intro unconfirmed_ops) simp_all
    with drop assms s k show ?thesis
      by (simp add: reap_responder_def follows_def phase_of_def [of _ "forget_responder _ _"] phase_drop)
  next
    case keep
    have "unconfirmed (set_responder cid s d)" using assms(1) keep by (intro unconfirmed_ops) simp_all
    with keep assms s k show ?thesis
      by (simp add: reap_responder_def follows_def phase_of_def [of _ "set_responder _ _ _"] phase_stay)
  qed
qed

lemma follows_request:
  assumes wf: "dispatcher_wf d" "unconfirmed d" and ne: "cid \<notin> keys (dsp_established d)"
    and msg: "MakeMessage_load L der = Inr msg" "mm_cid msg = cid" "payload_name (mm_payload msg) = ''session_init_request''"
  shows "follows cid (Pdu cid ''session_init_request'') d (snd (route_session_init_request L K c cid der now d))"
proof (cases "map_of (dsp_responder_sessions d) cid")
  case (Some s)
  obtain x s' d' where dl: "deliver L K c s der now cid d = (x, s', d')"
    by (cases "deliver L K c s der now cid d")
  have o: "owned cid s" "ses_state s \<noteq> ESTABLISHED"
    using dispatcher_wfD(3) [OF wf(1) Some] unconfirmedD [OF wf(2) Some] by (simp_all add: ok_owned)
  have n: "ses_state s' \<noteq> ESTABLISHED"
    using posted_established [OF o msg(1), of K c now] msg(3) deliver_session(1) [OF dl] by auto
  have p: "phase_of cid d = Open True (cid \<in> keys (dsp_initiator_templates d)) (confirmed cid d)"
      "phase_of cid d' = Open True (cid \<in> keys (dsp_initiator_templates d)) (confirmed cid d)"
    using ne map_of_keys(1) [OF Some] deliver_fields [OF dl] deliver_session(3) [OF dl] by (simp_all add: phase_of_def)
  have u: "unconfirmed d'" using deliver_session(2) [OF dl] wf(2) by simp
  have e: "follows cid (Pdu cid ''session_init_request'') d (set_responder cid s' d')"
    using u n ne map_of_keys(1) [OF Some] deliver_fields [OF dl]
    by (intro follows_same unconfirmed_ops) auto
  show ?thesis
    using Some dl e reap_phase [OF u _ p, of s' "''session_init_request''"] n
    by (simp add: route_session_init_request_def split: sum.split)
next
  case None
  obtain a store where ad: "add cid der [] now (dsp_candidates d) = (a, store)" by fastforce
  show ?thesis
  proof (cases a)
    case (Inl e)
    then show ?thesis
      using None ad wf(2)
      by (cases e) (simp_all add: route_session_init_request_def follows_same unconfirmed_ops)
  next
    case (Inr cand)
    let ?s = "Session_init RESPONDER None (Some (dsp_config d))"
    let ?d1 = "set_responder cid ?s (d\<lparr>dsp_candidates := store\<rparr>)"
    obtain x s' d' where dl: "deliver L K c ?s der now cid ?d1 = (x, s', d')"
      by (cases "deliver L K c ?s der now cid ?d1")
    have o: "owned cid ?s" "ses_state ?s \<noteq> ESTABLISHED"
      using session_wf_init by (simp_all add: owned_def) (simp_all add: Session_init_def)
    have n: "ses_state s' \<noteq> ESTABLISHED"
      using posted_established [OF o msg(1), of K c now] msg(3) deliver_session(1) [OF dl] by auto
    have u: "unconfirmed d'"
      using deliver_session(2) [OF dl] wf(2) o(2) by (simp add: unconfirmed_ops)
    have u1: "unconfirmed (set_responder cid s' d')" using u n by (rule unconfirmed_ops(2))
    let ?i = "cid \<in> keys (dsp_initiator_templates d)"
    have p: "phase_of cid d = Open False ?i (confirmed cid d)" using ne None by (simp add: phase_of_def map_of_keys(2))
    have still_open: "cid \<notin> keys (dsp_established d')" "cid \<in> keys (dsp_initiator_templates d') \<longleftrightarrow> ?i"
        "confirmed cid d' = confirmed cid d"
      using ne deliver_fields [OF dl] deliver_session(3) [OF dl] by simp_all
    have req: "follows cid (Pdu cid ''session_init_request'') d e"
      if "unconfirmed e" "cid \<notin> keys (dsp_established e)" "cid \<in> keys (dsp_initiator_templates e) \<longleftrightarrow> ?i"
        "confirmed cid e = confirmed cid d" for e
      using that p by (cases "cid \<in> keys (dsp_responder_sessions e)")
        (simp_all add: follows_def phase_of_def [of _ e] phase_request phase_stay)
    have reap: "follows cid (Pdu cid ''session_init_request'') d (reap_responder cid e)"
      if "e = set_responder cid s' d' \<or> e = (set_responder cid s' d')\<lparr>dsp_candidates := st\<rparr>" for e st
    proof (rule req)
      have "unconfirmed e" using that u1 by (auto simp: unconfirmed_ops)
      then show "unconfirmed (reap_responder cid e)"
        by (auto simp: reap_responder_def drain_eq unconfirmed_ops split: option.split)
      have "map_of (dsp_responder_sessions e) cid = Some s'" using that by (auto simp: set_responder_def)
      then have "reap_responder cid e = e \<or> reap_responder cid e = forget_responder cid e"
        using n by (simp add: reap_responder_def)
      then show "cid \<notin> keys (dsp_established (reap_responder cid e))"
          "cid \<in> keys (dsp_initiator_templates (reap_responder cid e)) \<longleftrightarrow> ?i"
          "confirmed cid (reap_responder cid e) = confirmed cid d"
        using that still_open by auto
    qed
    have "follows cid (Pdu cid ''session_init_request'') d (set_responder cid s' d')"
        "follows cid (Pdu cid ''session_init_request'') d (forget_responder cid (set_responder cid s' d'))"
      using u1 still_open by (auto intro: req unconfirmed_ops(5))
    then show ?thesis
      using None ad Inr dl reap [OF disjI1 [OF refl]] reap [OF disjI2 [OF refl]]
      by (simp add: route_session_init_request_def Let_def split: sum.split)
  qed
qed

lemma ex_list_update:
  "i < length xs \<Longrightarrow> P y = P (xs ! i) \<Longrightarrow> (\<exists>x \<in> set (xs[i := y]). P x) \<longleftrightarrow> (\<exists>x \<in> set xs. P x)"
  by (simp add: set_conv_nth Bex_def) (metis nth_list_update)

lemma follows_response:
  assumes wf: "dispatcher_wf d" "unconfirmed d"
    and msg: "MakeMessage_load L der = Inr msg" "mm_cid msg = cid" "payload_name (mm_payload msg) = ''session_init_response''"
  shows "follows cid e d (snd (route_session_init_response L K c cid der now d))"
proof (cases "map_of (dsp_initiator_templates d) cid")
  case None
  with wf(2) show ?thesis by (simp add: route_session_init_response_def follows_same)
next
  case (Some template)
  have n: "ses_state s' = ESTABLISHED \<longleftrightarrow> ses_state s = ESTABLISHED"
    if "deliver L K c s der now cid d0 = (x, s', d')" "fork_ok cid s" for s x s' d0 d'
    using fork_delivered [OF that msg(1,2)] msg(3) by simp
  have kept: "follows cid e d e'"
    if "deliver L K c s der now cid d0 = (x, s', d')" "d0 = d \<or> d0 = d\<lparr>dsp_candidates := st\<rparr>"
      "e' = set_forks cid fs d' \<or> e' = (set_forks cid fs d')\<lparr>dsp_candidates := st'\<rparr>"
      "(\<exists>f \<in> set fs. ses_state f = ESTABLISHED) \<longleftrightarrow> confirmed cid d"
    for s x s' d0 d' fs e' st st'
  proof (rule follows_kept)
    have "unconfirmed d'" using deliver_session(2) [OF that(1)] wf(2) that(2) by (auto intro: unconfirmed_ops)
    then show "unconfirmed e'" using that(3) by (auto intro: unconfirmed_ops)
  qed (use that deliver_fields [OF that(1)] in auto)
  show ?thesis
  proof (cases "duplicate_at der (forks_of cid d)")
    case dup: (Some i)
    then have f: "i < length (forks_of cid d)" using duplicate_at_nth by blast
    obtain x s' d' where dl: "deliver L K c (forks_of cid d ! i) der now cid d = (x, s', d')"
      by (cases "deliver L K c (forks_of cid d ! i) der now cid d")
    have "(\<exists>g \<in> set ((forks_of cid d)[i := s']). ses_state g = ESTABLISHED) \<longleftrightarrow> confirmed cid d"
      unfolding confirmed_def using n [OF dl] forks_of_ok [OF wf(1) nth_mem [OF f]] f by (intro ex_list_update) auto
    from kept [OF dl _ _ this] show ?thesis using Some dup dl by (simp add: route_session_init_response_def)
  next
    case nodup: None
    obtain a store where ad: "add cid der [] now (dsp_candidates d) = (a, store)" by fastforce
    let ?d1 = "d\<lparr>dsp_candidates := store\<rparr>"
    have same: "follows cid e d ?d1" using wf(2) by (intro follows_same unconfirmed_ops) simp_all
    show ?thesis
    proof (cases a)
      case (Inl x)
      with Some nodup ad same show ?thesis by (cases x) (simp_all add: route_session_init_response_def)
    next
      case a: (Inr cand)
      show ?thesis
      proof (cases "fork L template")
        case (Inl x)
        with Some nodup ad a same show ?thesis by (simp add: route_session_init_response_def)
      next
        case (Inr nf)
        obtain x s' d' where dl: "deliver L K c nf der now cid ?d1 = (x, s', d')"
          by (cases "deliver L K c nf der now cid ?d1")
        have "ses_state nf \<noteq> ESTABLISHED" using Inr by (auto simp: fork_def Let_def split: if_splits)
        then have "(\<exists>f \<in> set (forks_of cid d @ [s']). ses_state f = ESTABLISHED) \<longleftrightarrow> confirmed cid d"
          using n [OF dl] fork_of_template [OF dispatcher_wfD(4) [OF wf(1) Some] Inr] by (auto simp: confirmed_def)
        note k = kept [OF dl disjI2 [OF refl] _ this]
        show ?thesis
          using k [OF disjI1 [OF refl]] k [OF disjI2 [OF refl]] Some nodup ad a Inr dl
          by (simp add: route_session_init_response_def Let_def split: sum.split)
      qed
    qed
  qed
qed

text \<open>Completions and messages, whatever the loop over the forks comes to.\<close>

lemma follows_forks_loop:
  assumes msg: "MakeMessage_load L der = Inr msg" "mm_cid msg = cid"
    and "\<And>f. f \<in> set (before @ fs) \<Longrightarrow> fork_ok cid f" "forks_of cid d = before @ fs"
    and "unconfirmed d" "phase_of cid d = Open False True (confirmed cid d)"
    and "route_to_forks_loop L K cs cid der now before fs d = (r, d')"
  shows "follows cid (Pdu cid (payload_name (mm_payload msg))) d d'"
  using assms(3-)
proof (induction fs arbitrary: before d)
  case Nil
  then show ?case by (simp add: follows_same)
next
  case (Cons f fs)
  let ?e = "Pdu cid (payload_name (mm_payload msg))"
  obtain x f1 where u: "update_session L K (cs (length before)) now (post_pdu der f) = (x, f1)" by fastforce
  have f: "fork_ok cid f" using Cons.prems(1) by simp
  note f1 = fork_posted [OF f msg u]
  let ?d = "set_forks cid (before @ f1 # fs) d"
  have p: "phase_of cid ?d = Open False True (confirmed cid ?d)"
    using Cons.prems(4) by (auto simp: phase_of_def set_forks_def split: if_splits)
  have un: "unconfirmed ?d" using Cons.prems(3) by (rule unconfirmed_ops)
  have "confirmed cid d \<longrightarrow> confirmed cid ?d"
      "confirmed cid ?d \<longrightarrow> confirmed cid d \<or> payload_name (mm_payload msg) = ''session_completion_response''"
    using f1(2,3) Cons.prems(2) by (auto simp: confirmed_def [of cid d])
  then have via: "follows cid ?e d e'" if "follows cid ?e ?d e'" for e'
    using that phase_fork_then unfolding follows_def p Cons.prems(4) by blast
  have rest: "follows cid ?e d d'"
    if "route_to_forks_loop L K cs cid der now (before @ [f1]) fs ?d = (r, d')"
  proof -
    have "forks_of cid ?d = (before @ [f1]) @ fs" by (simp add: forks_of_def set_forks_def)
    then show ?thesis
      using that Cons.prems(1) f1(1) p un by (intro via Cons.IH [of "before @ [f1]" ?d]) auto
  qed
  have stop: "follows cid ?e d ?d" by (rule via) (simp add: follows_same un)
  show ?case
  proof (cases x)
    case (Inl e)
    show ?thesis
    proof (cases "caught e")
      case True
      with Cons.prems(5) show ?thesis by (intro rest) (simp add: u Inl)
    next
      case False
      with Cons.prems(5) stop show ?thesis by (simp add: u Inl)
    qed
  next
    case (Inr y)
    show ?thesis
    proof (cases "ses_state f1 = ESTABLISHED")
      case True
      have d': "d' = promote_session cid (drained f1) (collected f1 cid ?d)"
        using Cons.prems(5) True by (simp add: u Inr Let_def drain_eq)
      have "unconfirmed d'" unfolding d' by (intro unconfirmed_ops Cons.prems(3))
      moreover have "phase_of cid d' = Done" by (simp add: d' phase_of_def)
      moreover have "confirmed cid ?d" using True by simp
      ultimately show ?thesis by (intro via) (simp add: follows_def p phase_promote)
    next
      case False
      with Cons.prems(5) show ?thesis by (intro rest) (simp add: u Inr)
    qed
  qed
qed

lemma follows_post_pdu:
  assumes wf: "dispatcher_wf d" "unconfirmed d"
    and msg: "MakeMessage_load L der = Inr msg" and post: "dispatcher_post_pdu L K cs der now d = (r, d')"
  shows "follows (mm_cid msg) (Pdu (mm_cid msg) (payload_name (mm_payload msg))) d d'"
proof (cases "map_of (dsp_established d) (mm_cid msg)")
  case (Some s)
  obtain x s' d1 where dl: "deliver L K (cs 0) s der now (mm_cid msg) d = (x, s', d1)"
    by (cases "deliver L K (cs 0) s der now (mm_cid msg) d")
  have "follows (mm_cid msg) (Pdu (mm_cid msg) (payload_name (mm_payload msg))) d (set_established (mm_cid msg) s' d1)"
    using deliver_session(2) [OF dl wf(2)] deliver_fields [OF dl] map_of_keys(1) [OF Some]
    by (intro follows_same unconfirmed_ops) (auto simp: set_established_def)
  with post msg MakeMessage_loadD(4) [OF msg] Some dl show ?thesis by (simp add: dispatcher_post_pdu_def)
next
  case None
  then have ne: "mm_cid msg \<notin> keys (dsp_established d)" by (simp add: map_of_keys)
  note routed = post msg MakeMessage_loadD(4) [OF msg] None
  consider (request) "payload_name (mm_payload msg) = ''session_init_request''"
    | (response) "payload_name (mm_payload msg) = ''session_init_response''"
    | (other) "payload_name (mm_payload msg) \<noteq> ''session_init_request''"
        "payload_name (mm_payload msg) \<noteq> ''session_init_response''" by blast
  then show ?thesis
  proof cases
    case request
    from follows_request [OF wf ne msg refl request, of K "cs 0" now] routed request show ?thesis
      by (simp add: dispatcher_post_pdu_def)
  next
    case response
    from follows_response [OF wf msg refl response, of _ K "cs 0" now] routed response show ?thesis
      by (simp add: dispatcher_post_pdu_def)
  next
    case other
    show ?thesis
    proof (cases "map_of (dsp_responder_sessions d) (mm_cid msg)")
      case (Some s)
      obtain x s' d1 where dl: "deliver L K (cs 0) s der now (mm_cid msg) d = (x, s', d1)"
        by (cases "deliver L K (cs 0) s der now (mm_cid msg) d")
      note ok = dispatcher_wfD(3) [OF wf(1) Some] and un = unconfirmedD [OF wf(2) Some]
      show ?thesis
      proof (cases x)
        case (Inl e)
        have "d' = set_responder (mm_cid msg) s' d1"
          using routed other Some dl Inl by (simp add: dispatcher_post_pdu_def)
        moreover have "unconfirmed (set_responder (mm_cid msg) s' d1)"
          using deliver_session(2) [OF dl wf(2)] deliver_raise_not_established [OF dl [unfolded Inl] ok un]
          by (rule unconfirmed_ops)
        ultimately show ?thesis
          using deliver_fields [OF dl] map_of_keys(1) [OF Some] by (intro follows_same) auto
      next
        case (Inr y)
        have d': "d' = reap_responder (mm_cid msg) (set_responder (mm_cid msg) s' d1)"
          using routed other Some dl Inr by (simp add: dispatcher_post_pdu_def)
        have "ses_state s' \<noteq> ESTABLISHED \<or> payload_name (mm_payload msg) = ''session_completion_request''"
          using posted_established [OF ok_owned(2) [OF ok] un msg, of K "cs 0" now]
            deliver_session(1) [OF dl] ok by (auto simp: responder_ok_def)
        moreover have "phase_of (mm_cid msg) e = Open True (mm_cid msg \<in> keys (dsp_initiator_templates d)) (confirmed (mm_cid msg) d)"
          if "e = d \<or> e = d1" for e
          using that ne map_of_keys(1) [OF Some] deliver_fields [OF dl] deliver_session(3) [OF dl]
          by (auto simp: phase_of_def)
        ultimately show ?thesis unfolding d' by (intro reap_phase deliver_session(2) [OF dl wf(2)]) auto
      qed
    next
      case none: None
      show ?thesis
      proof (cases "mm_cid msg \<in> keys (dsp_initiator_forks d)")
        case True
        have "phase_of (mm_cid msg) d = Open False True (confirmed (mm_cid msg) d)"
          using ne none True dispatcher_wfD(6) [OF wf(1)] by (simp add: phase_of_def map_of_keys)
        moreover have "route_to_forks_loop L K cs (mm_cid msg) der now [] (forks_of (mm_cid msg) d) d = (r, d')"
          using routed other none True by (simp add: dispatcher_post_pdu_def route_to_forks_def)
        ultimately show ?thesis
          using forks_of_ok [OF wf(1)] wf(2) by (intro follows_forks_loop [OF msg refl, of "[]"]) auto
      next
        case False
        with routed other none have "d' = d" by (simp add: dispatcher_post_pdu_def)
        with wf(2) show ?thesis by (simp add: follows_same)
      qed
    qed
  qed
qed

subsection \<open>The crank\<close>

text \<open>
  What the crank does to every id: an established session stays, a pending one stays pending or goes,
  and a confirmed fork is promoted.
\<close>

definition cranks :: "dispatcher \<Rightarrow> dispatcher \<Rightarrow> bool" where
  "cranks d d' \<longleftrightarrow> dispatcher_wf d' \<and> unconfirmed d' \<and> (\<forall>cid. phase_step cid Crank (phase_of cid d) (phase_of cid d'))"

lemma cranks_trans: "cranks a b \<Longrightarrow> cranks b c \<Longrightarrow> cranks a c"
  unfolding cranks_def using phase_crank_trans by blast

lemma cranks_follows: "cranks d d' \<Longrightarrow> follows cid Crank d d'"
  by (simp add: cranks_def follows_def)

lemma cranks_pending:
  assumes "dispatcher_wf d'" "unconfirmed d'" "keys (dsp_established d') = keys (dsp_established d)"
    and "keys (dsp_responder_sessions d') \<subseteq> keys (dsp_responder_sessions d)"
    and "keys (dsp_initiator_templates d') \<subseteq> keys (dsp_initiator_templates d)"
    and "\<And>cid. confirmed cid d' \<Longrightarrow> confirmed cid d"
  shows "cranks d d'"
  using assms by (auto simp: cranks_def phase_of_def phase_stay intro!: phase_crank)

lemma cranks_refl: "cranks d d \<longleftrightarrow> dispatcher_wf d \<and> unconfirmed d"
  by (simp add: cranks_def phase_stay)

lemma cranks_target: "cranks d d' \<Longrightarrow> cranks d' d'"
  by (simp add: cranks_def phase_stay)

lemma cranks_sseq:
  assumes "cranks d (snd m)" "\<And>x d'. m = (Inr x, d') \<Longrightarrow> cranks d' (snd (k x d'))"
  shows "cranks d (snd (sseq m k))"
  using assms cranks_trans by (cases m; cases "fst m") auto

lemma cranks_established:
  assumes "dispatcher_wf d" "unconfirmed d"
  shows "cranks d (snd (update_established_sessions L K rnd now nd d))"
proof -
  have "unconfirmed (snd (update_established_loop L K rnd now items nd d)) \<and>
      keys (dsp_established (snd (update_established_loop L K rnd now items nd d))) = keys (dsp_established d) \<and>
      dsp_responder_sessions (snd (update_established_loop L K rnd now items nd d)) = dsp_responder_sessions d \<and>
      dsp_initiator_templates (snd (update_established_loop L K rnd now items nd d)) = dsp_initiator_templates d \<and>
      dsp_initiator_forks (snd (update_established_loop L K rnd now items nd d)) = dsp_initiator_forks d"
    if "unconfirmed d" "fst ` set items \<subseteq> keys (dsp_established d)" for items nd d
    using that
  proof (induction items arbitrary: nd d)
    case (Cons it items)
    obtain cid s where it: "it = (cid, s)" by (cases it)
    obtain r s' where u: "update_session L K (rnd 0 cid 0) now s = (r, s')" by fastforce
    let ?d = "set_established cid (drained s') (collected s' cid (set_established cid s' d))"
    have k: "insert cid (keys (dsp_established d)) = keys (dsp_established d)" using Cons.prems(2) it by auto
    have d: "unconfirmed ?d" "keys (dsp_established ?d) = keys (dsp_established d)"
        "dsp_responder_sessions ?d = dsp_responder_sessions d" "dsp_initiator_templates ?d = dsp_initiator_templates d"
        "unconfirmed (set_established cid s' d)" "keys (dsp_established (set_established cid s' d)) = keys (dsp_established d)"
        "dsp_initiator_templates (set_established cid s' d) = dsp_initiator_templates d"
        "dsp_initiator_forks ?d = dsp_initiator_forks d"
      using Cons.prems(1) k by (simp_all add: unconfirmed_ops)
    note step = Cons.IH [of ?d, unfolded d(2-4,8)]
    show ?case
      unfolding it using step d Cons.prems(2) u
      by (cases r) (simp_all add: Let_def drain_eq split: prod.split)
  qed simp
  from this [of d "dsp_established d" nd] assms(2)
  have "unconfirmed (snd (update_established_sessions L K rnd now nd d)) \<and>
      keys (dsp_established (snd (update_established_sessions L K rnd now nd d))) = keys (dsp_established d) \<and>
      dsp_responder_sessions (snd (update_established_sessions L K rnd now nd d)) = dsp_responder_sessions d \<and>
      dsp_initiator_templates (snd (update_established_sessions L K rnd now nd d)) = dsp_initiator_templates d \<and>
      dsp_initiator_forks (snd (update_established_sessions L K rnd now nd d)) = dsp_initiator_forks d"
    by (simp add: update_established_sessions_def keys_def)
  moreover have "dispatcher_wf (snd (update_established_sessions L K rnd now nd d))"
    unfolding update_established_sessions_def
    by (rule update_established_loop_wf [OF assms(1)]) (rule established_entries [OF assms(1)])
  ultimately show ?thesis by (intro cranks_pending) (simp_all add: confirmed_def forks_of_def)
qed

text \<open>The other two loops, one id at a time.\<close>

lemma responder_loop_split:
  "update_responder_loop L K rnd now (cid # cids) nd d =
   sseq (update_responder_loop L K rnd now [cid] nd d) (update_responder_loop L K rnd now cids)"
  by (auto simp: Let_def split: option.split sum.split prod.split)

lemma forks_loop_split:
  "process_initiator_forks_loop L K rnd now (cid # cids) nd d =
   sseq (process_initiator_forks_loop L K rnd now [cid] nd d) (process_initiator_forks_loop L K rnd now cids)"
  by (auto simp: Let_def split: option.split sum.split prod.split)

lemma cranks_responder:
  assumes "dispatcher_wf d" "unconfirmed d"
  shows "cranks d (snd (update_responder_loop L K rnd now [cid] nd d))"
proof (cases "map_of (dsp_responder_sessions d) cid")
  case None
  with assms show ?thesis by (simp add: cranks_refl)
next
  case (Some s)
  obtain r s' where u: "update_session L K (rnd 1 cid 0) now s = (r, s')" by fastforce
  have n: "ses_state s' \<noteq> ESTABLISHED"
    using cranked_established [OF ok_owned(2) [OF dispatcher_wfD(3) [OF assms(1) Some]] unconfirmedD [OF assms(2) Some], of L K "rnd 1 cid 0" now] u
    by simp
  have u': "unconfirmed (set_responder cid s' d)"
      "unconfirmed (set_responder cid (drained s') (collected s' cid (set_responder cid s' d)))"
    using n assms(2) by (simp_all add: unconfirmed_ops)
  have k: "cid \<in> keys (dsp_responder_sessions d)" by (rule map_of_keys(1) [OF Some])
  let ?e = "snd (update_responder_loop L K rnd now [cid] nd d)"
  let ?d = "set_responder cid (drained s') (collected s' cid (set_responder cid s' d))"
  have wf: "dispatcher_wf ?e" by (rule update_responder_loop_wf [OF assms(1)])
  have e: "?e = forget_responder cid d \<or> ?e = set_responder cid s' d \<or> ?e = forget_responder cid ?d \<or> ?e = ?d"
    using Some u n by (cases r) (auto simp: Let_def drain_eq)
  have un: "unconfirmed ?e"
    using e u' assms(2) by (elim disjE) (simp_all add: unconfirmed_ops)
  have "cranks d e'" if e': "e' = forget_responder cid d \<or> e' = set_responder cid s' d \<or> e' = forget_responder cid ?d \<or> e' = ?d"
      and "dispatcher_wf e'" "unconfirmed e'" for e'
  proof (rule cranks_pending [OF that(2,3)])
    have f: "dsp_established (set_responder cid x g) = dsp_established g"
        "dsp_initiator_templates (set_responder cid x g) = dsp_initiator_templates g"
        "dsp_established (forget_responder cid g) = dsp_established g"
        "dsp_initiator_templates (forget_responder cid g) = dsp_initiator_templates g" for x g
      by (simp_all add: set_responder_def forget_responder_def)
    show "keys (dsp_established e') = keys (dsp_established d)"
      "keys (dsp_responder_sessions e') \<subseteq> keys (dsp_responder_sessions d)"
      "keys (dsp_initiator_templates e') \<subseteq> keys (dsp_initiator_templates d)"
      "confirmed c e' \<Longrightarrow> confirmed c d" for c
      using e' k by (elim disjE; simp add: f insert_absorb)+
  qed
  from this [OF e wf un] show ?thesis .
qed

lemma crank_forks_confirmed:
  assumes "crank_forks L K cs now i nd fs = (r, fs')" "\<forall>f \<in> set fs. fork_ok cid f"
  shows "(\<exists>f \<in> set fs'. ses_state f = ESTABLISHED) \<Longrightarrow> \<exists>f \<in> set fs. ses_state f = ESTABLISHED"
    and "r = Inr (nd', Some w, sv) \<Longrightarrow> \<exists>f \<in> set fs. ses_state f = ESTABLISHED"
    and "r = Inr (nd', w', sv) \<Longrightarrow> f \<in> set sv \<Longrightarrow> ses_state f \<noteq> ESTABLISHED"
proof -
  have "((\<exists>f \<in> set fs'. ses_state f = ESTABLISHED) \<longrightarrow> (\<exists>f \<in> set fs. ses_state f = ESTABLISHED)) \<and>
    (\<forall>nd' w sv. r = Inr (nd', w, sv) \<longrightarrow> (w \<noteq> None \<longrightarrow> (\<exists>f \<in> set fs. ses_state f = ESTABLISHED)) \<and>
       (\<forall>f \<in> set sv. ses_state f \<noteq> ESTABLISHED))"
    using assms
  proof (induction fs arbitrary: i nd r fs')
    case (Cons f fs)
    obtain x f1 where u: "update_session L K (cs i) now f = (x, f1)" by fastforce
    have n: "ses_state f = ESTABLISHED" if "ses_state f1 = ESTABLISHED"
      using cranked_established [of cid f L K "cs i" now] Cons.prems(2) u that by (auto simp: ok_owned)
    have rest: "((\<exists>f \<in> set fs1. ses_state f = ESTABLISHED) \<longrightarrow> (\<exists>f \<in> set fs. ses_state f = ESTABLISHED)) \<and>
      (\<forall>nd' w sv. r1 = Inr (nd', w, sv) \<longrightarrow> (w \<noteq> None \<longrightarrow> (\<exists>f \<in> set fs. ses_state f = ESTABLISHED)) \<and>
         (\<forall>f \<in> set sv. ses_state f \<noteq> ESTABLISHED))"
      if "crank_forks L K cs now (Suc i) nd1 fs = (r1, fs1)" for nd1 r1 fs1
      by (rule Cons.IH [OF that]) (use Cons.prems(2) in simp)
    obtain ra fa where a: "crank_forks L K cs now (Suc i) nd fs = (ra, fa)" by fastforce
    show ?case
    proof (cases x)
      case (Inl e)
      with Cons.prems(1) u n a rest [OF a] show ?thesis by (auto split: if_splits)
    next
      case (Inr y)
      obtain q dl where y: "y = (q, dl)" by (cases y)
      obtain rb fb where b: "crank_forks L K cs now (Suc i) (min nd dl) fs = (rb, fb)" by fastforce
      show ?thesis
        using Cons.prems(1) u n rest [OF b] Inr y b by (cases rb) (auto split: if_splits)
    qed
  qed simp
  then show "(\<exists>f \<in> set fs'. ses_state f = ESTABLISHED) \<Longrightarrow> \<exists>f \<in> set fs. ses_state f = ESTABLISHED"
    and "r = Inr (nd', Some w, sv) \<Longrightarrow> \<exists>f \<in> set fs. ses_state f = ESTABLISHED"
    and "r = Inr (nd', w', sv) \<Longrightarrow> f \<in> set sv \<Longrightarrow> ses_state f \<noteq> ESTABLISHED" by auto
qed

lemma cranks_promoted:
  assumes "dispatcher_wf (promote_session cid w d')" "unconfirmed d" "only_touches cid d (promote_session cid w d')"
    and "confirmed cid d" "dsp_responder_sessions d' = dsp_responder_sessions d"
  shows "cranks d (promote_session cid w d')"
proof -
  have "unconfirmed (promote_session cid w d')"
    using assms(2,5) by (auto simp: unconfirmed_def promote_session_def intro: all_entries_delete)
  moreover have "phase_of cid (promote_session cid w d') = Done" by (simp add: phase_of_def)
  moreover have "phase_step cid Crank (phase_of cid d) Done"
    using assms(4) by (simp add: phase_of_def phase_stay phase_crank_promote)
  moreover have "phase_of k (promote_session cid w d') = phase_of k d" if "k \<noteq> cid" for k
    using phase_only_touched [OF assms(3) that] .
  ultimately show ?thesis
    unfolding cranks_def using assms(1) phase_stay by metis
qed

lemma cranks_forks:
  assumes "dispatcher_wf d" "unconfirmed d"
  shows "cranks d (snd (process_initiator_forks_loop L K rnd now [cid] nd d))"
proof (cases "map_of (dsp_initiator_forks d) cid")
  case None
  with assms show ?thesis by (simp add: cranks_refl)
next
  case (Some fs)
  obtain r fs' where c: "crank_forks L K (rnd 2 cid) now 0 nd fs = (r, fs')" by fastforce
  let ?e = "snd (process_initiator_forks_loop L K rnd now [cid] nd d)"
  have wf: "dispatcher_wf ?e" by (rule process_initiator_forks_loop_wf [OF assms(1)])
  have fs: "confirmed cid d \<longleftrightarrow> (\<exists>f \<in> set fs. ses_state f = ESTABLISHED)"
    using Some by (simp add: confirmed_def forks_of_def)
  have "\<forall>f \<in> set fs. fork_ok cid f" using dispatcher_wfD(5) [OF assms(1) Some] by blast
  note n = crank_forks_confirmed [OF c this]
  have set: "cranks d (set_forks cid fs1 d)"
    if "dispatcher_wf (set_forks cid fs1 d)" "(\<exists>f \<in> set fs1. ses_state f = ESTABLISHED) \<longrightarrow> confirmed cid d" for fs1
  proof (rule cranks_pending [OF that(1) unconfirmed_ops(3) [OF assms(2)]])
    show "confirmed k d" if "confirmed k (set_forks cid fs1 d)" for k
      using that \<open>_ \<longrightarrow> confirmed cid d\<close> by (cases "k = cid") auto
  qed simp_all
  show ?thesis
  proof (cases r)
    case (Inl e)
    then have "?e = set_forks cid fs' d" using Some c by simp
    with set [of fs'] wf n(1) fs show ?thesis by auto
  next
    case (Inr y)
    then obtain nd' w sv where y: "r = Inr (nd', w, sv)" by (cases y) auto
    show ?thesis
    proof (cases w)
      case (Some x)
      have e: "?e = promote_session cid (drained x) (collected x cid (set_forks cid fs' d))"
        using \<open>map_of (dsp_initiator_forks d) cid = Some fs\<close> c y Some by (simp add: Let_def drain_eq)
      have "only_touches cid d ?e"
        unfolding e
        by (rule only_touches_trans [OF only_touches_trans [OF only_touches_ops(3,6)] only_touches_ops(4)])
      then show ?thesis
        using wf assms(2) n(2) [OF y [unfolded Some]] fs unfolding e by (intro cranks_promoted) simp_all
    next
      case None
      show ?thesis
      proof (cases "sv = []")
        case True
        then have e: "?e = d\<lparr>dsp_initiator_forks := AList.delete cid (dsp_initiator_forks d),
            dsp_initiator_templates := AList.delete cid (dsp_initiator_templates d),
            dsp_candidates := discard cid (dsp_candidates d)\<rparr>"
          using Some c y None by simp
        show ?thesis
          using wf assms(2) unfolding e
          by (intro cranks_pending) (auto simp: unconfirmed_def dest: confirmed_deleted [rotated])
      next
        case False
        then have "?e = set_forks cid sv d" using Some c y None by simp
        with set [of sv] wf n(3) [OF y] show ?thesis by auto
      qed
    qed
  qed
qed

lemma cranks_loop:
  assumes "\<And>nd d. cranks d d \<Longrightarrow> cranks d (snd (f nd d))" "\<And>nd d. cranks d d \<Longrightarrow> cranks d (snd (g nd d))"
    and "cranks d d"
  shows "cranks d (snd (sseq (f nd d) g))"
proof (rule cranks_sseq)
  show c: "cranks d (snd (f nd d))" using assms(1,3) .
  show "cranks d' (snd (g x d'))" if "f nd d = (Inr x, d')" for x d'
    using cranks_target [OF c] that by (intro assms(2)) simp
qed

lemma cranks_loops:
  assumes "cranks d d"
  shows "cranks d (snd (update_responder_loop L K rnd now cids nd d))"
    and "cranks d (snd (process_initiator_forks_loop L K rnd now cids nd d))"
proof -
  show "cranks d (snd (update_responder_loop L K rnd now cids nd d))"
    using assms
  proof (induction cids arbitrary: nd d)
    case (Cons cid cids)
    then show ?case
      by (subst responder_loop_split) (rule cranks_loop, auto simp only: cranks_refl intro: cranks_responder)
  qed simp
  show "cranks d (snd (process_initiator_forks_loop L K rnd now cids nd d))"
    using assms
  proof (induction cids arbitrary: nd d)
    case (Cons cid cids)
    then show ?case
      by (subst forks_loop_split) (rule cranks_loop, auto simp only: cranks_refl intro: cranks_forks)
  qed simp
qed

lemma cranks_dropped:
  assumes "cranks d d"
  shows "cranks d (d\<lparr>dsp_responder_sessions := AList.delete cid (dsp_responder_sessions d)\<rparr>)"
    and "cranks d (d\<lparr>dsp_initiator_forks := AList.delete cid (dsp_initiator_forks d),
      dsp_initiator_templates := AList.delete cid (dsp_initiator_templates d)\<rparr>)"
  using assms unfolding cranks_refl
  by (auto intro!: cranks_pending dest: confirmed_deleted [rotated] confirmed_same [THEN iffD1, rotated]
      simp: unconfirmed_def intro: all_entries_delete wf_intros)

lemma cranks_fold:
  assumes "\<And>cid d. cranks d d \<Longrightarrow> cranks d (f cid d)" "cranks d d"
  shows "cranks d (fold f cids d)"
  using assms(2)
proof (induction cids arbitrary: d)
  case (Cons cid cids)
  from assms(1) [OF Cons.prems, of cid] have 1: "cranks d (f cid d)" .
  then have "cranks (f cid d) (f cid d)" by (rule cranks_target)
  from cranks_trans [OF 1 Cons.IH [OF this]] show ?case by simp
qed simp

lemma cranks_reconcile:
  assumes "cranks d d"
  shows "cranks d (reconcile_expired_candidates d)"
proof -
  let ?r = "fold (\<lambda>cid d. if candidates_for cid (dsp_candidates d) = []
      then d\<lparr>dsp_responder_sessions := AList.delete cid (dsp_responder_sessions d)\<rparr> else d)
      (dict_keys (dsp_responder_sessions d)) d"
  have 1: "cranks d ?r" by (rule cranks_fold [OF _ assms]) (simp add: cranks_dropped)
  then have "cranks ?r ?r" by (rule cranks_target)
  then have "cranks ?r (fold (\<lambda>cid d. if candidates_for cid (dsp_candidates d) = [] \<and>
        cid \<notin> set (dict_keys (dsp_established d))
      then d\<lparr>dsp_initiator_forks := AList.delete cid (dsp_initiator_forks d),
             dsp_initiator_templates := AList.delete cid (dsp_initiator_templates d)\<rparr> else d)
      (dict_keys (dsp_initiator_forks ?r)) ?r)"
    by (rule cranks_fold [rotated]) (simp add: cranks_dropped)
  from cranks_trans [OF 1 this] show ?thesis by (simp add: reconcile_expired_candidates_def Let_def)
qed

lemma cranks_update:
  assumes "dispatcher_wf d" "unconfirmed d"
  shows "cranks d (snd (dispatcher_update L K rnd now d))"
proof -
  let ?d = "d\<lparr>dsp_candidates := snd (expire now (dsp_candidates d))\<rparr>"
  have 0: "cranks d ?d"
    using assms by (intro cranks_pending)
      (simp_all add: unconfirmed_ops dispatcher_wf_candidates store_wf_expire dispatcher_wfD(1))
  then have "cranks ?d ?d" by (rule cranks_target)
  note 1 = cranks_trans [OF 0 cranks_reconcile [OF this]]
  have rs: "cranks e (snd (update_responder_sessions L K rnd now nd e))"
      "cranks e (snd (process_initiator_forks L K rnd now nd e))" if "cranks e e" for nd e
    using that by (simp_all add: update_responder_sessions_def process_initiator_forks_def cranks_loops)
  show ?thesis
    unfolding dispatcher_update_def Let_def
  proof (rule cranks_trans [OF 1 cranks_sseq], goal_cases)
    case 1
    from cranks_target [OF \<open>cranks d (reconcile_expired_candidates ?d)\<close>] show ?case
      unfolding cranks_refl by (intro cranks_established) simp_all
  next
    case (2 nd1 d1)
    have e: "cranks d0 d1" if "cranks d0 d0" "update_established_sessions L K rnd now nd d0 = (Inr nd1, d1)" for d0 nd
      using cranks_established [of d0 L K rnd now nd] that by (simp add: cranks_refl)
    have "cranks d1 d1"
      using cranks_target [OF e [OF cranks_target [OF 1] 2]] .
    then show ?case
    proof (intro cranks_sseq, goal_cases)
      case 1
      then show ?case by (rule rs)
    next
      case (2 nd2 d2)
      have "cranks d2 d2" using cranks_target [OF rs(1) [OF 2(1), of nd1]] 2(2) by simp
      then show ?case by (rule rs)
    next
      case (3 nd2 d2 nd3 d3)
      have "cranks d2 d2" using cranks_target [OF rs(1) [OF 3(1), of nd1]] 3(2) by simp
      from cranks_target [OF rs(2) [OF this, of nd2]] 3(3) show ?case by simp
    qed
  qed
qed

subsection \<open>Every call is a step of the specification\<close>

lemma follows_initiate:
  assumes "unconfirmed d" "coin_uuid4 c \<notin> keys (dsp_established d)"
  shows "follows cid (Initiate (coin_uuid4 c)) d (snd (dispatcher_initiate L K c own peer now d))"
proof (cases "initiate L K c peer now (Session_init INITIATOR (Some own) (Some (dsp_config d)))")
  case (Pair r s)
  show ?thesis
  proof (cases r)
    case (Inl e)
    with Pair assms show ?thesis by (simp add: dispatcher_initiate_def follows_same)
  next
    case (Inr u)
    then have s: "ses_cid s = Some (coin_uuid4 c)" using Pair by (auto elim!: initiate_cases)
    let ?d = "snd (dispatcher_initiate L K c own peer now d)"
    have d: "dsp_established ?d = dsp_established d" "dsp_responder_sessions ?d = dsp_responder_sessions d"
        "keys (dsp_initiator_templates ?d) = insert (coin_uuid4 c) (keys (dsp_initiator_templates d))"
        "dsp_initiator_forks ?d = AList.update (coin_uuid4 c) [] (dsp_initiator_forks d)"
      using Pair Inr s by (simp_all add: dispatcher_initiate_def drain_pdus_eq)
    have "unconfirmed ?d" using assms(1) d by (simp add: unconfirmed_def)
    then show ?thesis
      using d assms(2) by (cases "cid = coin_uuid4 c")
        (auto simp: follows_def phase_of_def [of _ ?d] phase_of_def [of _ d] confirmed_def forks_of_def
          phase_initiate phase_stay)
  qed
qed

lemma post_payload_state: "post_payload p s = (r, s') \<Longrightarrow> ses_state s' = ses_state s"
  by (auto simp: post_payload_def split: if_splits)

lemma unconfirmed_post_payload:
  assumes "unconfirmed d"
  shows "unconfirmed (snd (dispatcher_post_payload k p d))"
proof -
  have r: "unconfirmed (set_responder k s' d)"
    if "map_of (dsp_responder_sessions d) k = Some s" "post_payload p s = (x, s')" for s s' x
    using unconfirmedD [OF assms that(1)] post_payload_state [OF that(2)] assms by (simp add: unconfirmed_ops)
  show ?thesis
    using assms r
    by (auto simp: dispatcher_post_payload_def Let_def unconfirmed_ops split: option.split sum.split prod.split)
      (simp add: unconfirmed_def)
qed

lemma confirmed_map_entry:
  assumes "dsp_initiator_forks d' = AList.map_entry k (map g) (dsp_initiator_forks d)"
    "\<And>f. ses_state (g f) = ses_state f"
  shows "confirmed cid d' = confirmed cid d"
  using assms(2) by (auto simp: confirmed_def forks_of_def assms(1) map_of_map_entry split: option.split)

lemma follows_post_payload:
  assumes "unconfirmed d"
  shows "follows cid e d (snd (dispatcher_post_payload k p d))"
  using unconfirmed_post_payload [OF assms]
proof (rule follows_kept)
  have "ses_state (snd (post_payload p f)) = ses_state f" for f using post_payload_state [OF prod.collapse [symmetric]] .
  then show "confirmed cid (snd (dispatcher_post_payload k p d)) = confirmed cid d"
    by (auto simp: dispatcher_post_payload_def Let_def confirmed_map_entry split: option.split sum.split prod.split
        intro!: confirmed_map_entry)
qed (auto simp: dispatcher_post_payload_def Let_def set_established_def set_responder_def map_of_keys(1)
    split: option.split sum.split prod.split)

lemma close_fields [simp]:
  "keys (dsp_established (close k d)) = keys (dsp_established d) - {k}"
  "dsp_responder_sessions (close k d) = dsp_responder_sessions d"
  "dsp_initiator_templates (close k d) = dsp_initiator_templates d"
  "confirmed cid (close k d) = confirmed cid d" "unconfirmed (close k d) = unconfirmed d"
  by (simp_all add: close_def confirmed_def forks_of_def unconfirmed_def)

lemma follows_event:
  assumes wf: "dispatcher_wf d" "unconfirmed d" and "dispatcher_event L K e d d'"
  shows "follows cid e d d'"
  using assms(3)
proof (cases rule: dispatcher_event.cases)
  case (event_pdu der msg cs now)
  have f: "follows (mm_cid msg) e d d'"
    using follows_post_pdu [OF wf event_pdu(3), of K cs now _ d'] event_pdu by (metis prod.collapse)
  have "only_touches (mm_cid msg) d d'" using post_pdu_touches [OF event_pdu(3)] event_pdu(2) by simp
  with f show ?thesis
    using phase_only_touched by (cases "cid = mm_cid msg") (auto simp: follows_def phase_stay)
next
  case (event_update rnd now)
  then show ?thesis using cranks_follows [OF cranks_update [OF wf]] by simp
next
  case (event_close k)
  have "\<not> confirmed k d" if "k \<in> keys (dsp_established d)"
    using dispatcher_wfD(7) [OF wf(1) that] by (simp add: confirmed_def forks_of_def in_keys_map_of)
  with event_close wf(2) dispatcher_wfD(6) [OF wf(1)] dispatcher_wfD(7) [OF wf(1), of k] show ?thesis
    by (cases "k \<in> keys (dsp_established d)"; cases "cid = k")
      (simp_all add: follows_def phase_of_def [of _ d] phase_of_def [of _ "close k d"] phase_stay phase_close)
qed (use wf in \<open>auto intro: follows_initiate follows_post_payload follows_same
    simp: dispatcher_post_pdu_def dispatcher_get_pdu_def dispatcher_get_payload_def unconfirmed_def split: sum.split\<close>)

lemma event_keeps_wf: "dispatcher_event L K e d d' \<Longrightarrow> dispatcher_wf d \<Longrightarrow> dispatcher_wf d'"
  by (rule dispatcher_step_wf [OF event_is_step])

interpretation phases: forward_simulation "dispatcher_event L K" "phase_step cid" "phase_of cid"
    "\<lambda>d. dispatcher_wf d \<and> unconfirmed d" for L K cid
  by unfold_locales (use follows_event event_keeps_wf in \<open>fastforce simp: follows_def\<close>)+

lemma new_dispatcher_phases:
  assumes "Dispatcher_init config store = Inr d"
  shows "phase_of cid d = Open False False False" "unconfirmed d"
  using assms
  by (auto simp: Dispatcher_init_def phase_of_def confirmed_def forks_of_def unconfirmed_def all_entries_def keys_def
      split: option.splits)

lemma new_dispatcher_run:
  assumes "Dispatcher_init config None = Inr d0" "run (dispatcher_event L K) es d0 d"
  shows "run (phase_step cid) es (Open False False False) (phase_of cid d)"
proof -
  have "dispatcher_wf d0" by (rule dispatcher_wf_init [OF assms(1)]) simp
  with new_dispatcher_phases(2) [OF assms(1)] have "dispatcher_wf d0 \<and> unconfirmed d0" by blast
  from phases.run_simulates [OF assms(2) this] show ?thesis
    unfolding new_dispatcher_phases(1) [OF assms(1)] .
qed

text \<open>
  C9. Trace refinement: whatever calls a client makes on a new dispatcher, and whatever PDUs the network hands
  it, whether the calls return or raise, each correlation id goes through a run of the phase specification,
  driven by the events of that id and the crank alone.
\<close>

theorem dispatcher_refines_phases:
  assumes "Dispatcher_init config None = Inr d0" "run (dispatcher_event L K) es d0 d"
  shows "run (phase_step cid) es (Open False False False) (phase_of cid d)"
  by (rule new_dispatcher_run [OF assms])

lemma subseq_pair_Cons: "subseq [a, b] (e # es) \<longleftrightarrow> subseq [a, b] es \<or> (e = a \<and> b \<in> set es)"
  by (cases "e = a") (auto simp: subseq_singleton_left dest: subseq_Cons')

fun finishing :: "bytes \<Rightarrow> phase \<Rightarrow> event list \<Rightarrow> bool" where
  "finishing cid Done es = True"
| "finishing cid (Open r i c) es \<longleftrightarrow> c \<or>
    (r \<and> Pdu cid ''session_completion_request'' \<in> set es) \<or>
    (i \<and> Pdu cid ''session_completion_response'' \<in> set es) \<or>
    subseq [Pdu cid ''session_init_request'', Pdu cid ''session_completion_request''] es \<or>
    subseq [Initiate cid, Pdu cid ''session_completion_response''] es"

lemma finishing_step: "phase_step cid e p q \<Longrightarrow> finishing cid q es \<Longrightarrow> finishing cid p (e # es)"
proof (induction rule: phase_step.induct)
  case (phase_stay e p)
  then show ?case by (cases p) (auto simp only: finishing.simps subseq_pair_Cons list.set insert_iff)
qed (auto simp only: finishing.simps subseq_pair_Cons list.set insert_iff)

lemma phase_run_to_Done: "run (phase_step cid) es p q \<Longrightarrow> q = Done \<Longrightarrow> finishing cid p es"
  by (induction rule: run.induct) (simp_all add: finishing_step)

text \<open>
  C10. Sessions are established by a completed handshake only: from a new dispatcher, through calls that may
  also raise, an id is established only if its init request was followed by its completion request, or its
  initiation by its completion response.
\<close>

theorem established_only_by_completion:
  assumes "Dispatcher_init config None = Inr d0" "run (dispatcher_event L K) es d0 d"
    and "cid \<in> keys (dsp_established d)"
  shows "subseq [Pdu cid ''session_init_request'', Pdu cid ''session_completion_request''] es \<or>
    subseq [Initiate cid, Pdu cid ''session_completion_response''] es"
proof -
  have "phase_of cid d = Done" using assms(3) by (simp add: phase_of_def)
  with new_dispatcher_run [OF assms(1,2), of cid] have "run (phase_step cid) es (Open False False False) Done" by simp
  from phase_run_to_Done [OF this refl] show ?thesis by simp
qed

text \<open>
  A responder session under an initiator's id keeps the completion response from the initiation.
\<close>

theorem pending_responder_blocks_initiation:
  assumes "dispatcher_wf d" "unconfirmed d"
    and "dispatcher_event L K (Pdu cid ''session_completion_response'') d d'"
    and "cid \<in> keys (dsp_responder_sessions d)"
  shows "cid \<notin> keys (dsp_established d')"
proof -
  have "phase_of cid d = Open True (cid \<in> keys (dsp_initiator_templates d)) (confirmed cid d)"
    using dispatcher_wfD(7) [OF assms(1), of cid] assms(4) by (auto simp: phase_of_def)
  with phases.simulates [OF assms(3), of cid] assms(1,2) show ?thesis
    by (auto simp: phase_of_def [of cid d'] phase_step_into_Done split: if_splits)
qed

end
