(* ===== verification/SessionTyping.thy ===== *)
theory SessionTyping
  imports SessionProps
begin

section \<open>No field of a session is used before it is set\<close>

text \<open>
  \<open>need\<close> raises \<open>AttributeError\<close> where the code would dereference an attribute that is still \<open>None\<close>.
  \<open>no_attr\<close> says a call does not end that way; each function of the session layer gets one lemma,
  and the invariant \<open>session_wf\<close> discharges the \<open>need\<close>s of the handlers.
\<close>

text \<open>The libraries and the key lookup raise exceptions of their own only.\<close>

definition no_attr :: "'a result \<Rightarrow> bool" where
  "no_attr r \<longleftrightarrow> r \<noteq> Inl AttributeError"

definition libs_raise_own :: "lib \<Rightarrow> key_lookup \<Rightarrow> bool" where
  "libs_raise_own L K \<longleftrightarrow>
     (\<forall>b. no_attr (ber_decode L b)) \<and>
     (\<forall>l c. no_attr (mlkem_generate L l c)) \<and> (\<forall>l b. no_attr (mlkem_from_seed_bytes L l b)) \<and>
     (\<forall>l p c. no_attr (mlkem_encapsulate L l p c)) \<and> (\<forall>k b. no_attr (mlkem_decapsulate L k b)) \<and>
     (\<forall>cls k n p a. no_attr (aead_encrypt L cls k n p a)) \<and>
     (\<forall>cls k n p a. no_attr (aead_decrypt L cls k n p a)) \<and>
     (\<forall>n s i k. no_attr (hkdf_sha256 L n s i k)) \<and>
     (\<forall>k. no_attr (kl_get_public_key K k)) \<and> (\<forall>k. no_attr (kl_get_private_key K k))"

lemma no_attr_simps [simp]: "no_attr (Inr x)" "no_attr (Inl e) \<longleftrightarrow> e \<noteq> AttributeError"
  by (simp_all add: no_attr_def)

lemma no_attr_rbind: "no_attr r \<Longrightarrow> (\<And>x. r = Inr x \<Longrightarrow> no_attr (f x)) \<Longrightarrow> no_attr (rbind r f)"
  by (cases r) auto

lemma no_attr_rcatch: "e \<noteq> AttributeError \<Longrightarrow> no_attr (rcatch e r)"
  by (cases r) auto

lemma no_attr_value_errors: "only_value_errors r \<Longrightarrow> no_attr r"
  by (cases r) auto

lemma no_attr_need: "x \<noteq> None \<Longrightarrow> no_attr (need x)"
  by auto

lemma no_attr_lookup: "no_attr (lookup_or_KeyError x)"
  by (cases x) auto

lemma no_attr_prod: "(\<And>a b. p = (a, b) \<Longrightarrow> no_attr (f a b)) \<Longrightarrow> no_attr (case p of (a, b) \<Rightarrow> f a b)"
  by (cases p) auto

lemmas no_attr_intros = no_attr_rbind no_attr_rcatch no_attr_need no_attr_lookup no_attr_prod

lemma no_attr_build:
  "no_attr (KemPublicKey_validate_length k)" "no_attr (KemCiphertext_validate_length ct)"
  "no_attr (MakeMessage_build cid p v)" "no_attr (MakeMessage_dump L msg)"
  "no_attr (SessionCompletionRequest_build cm ct n)" "no_attr (Message_init (Some i) (Some b))"
  by (auto simp: KemPublicKey_validate_length_def KemCiphertext_validate_length_def
      MakeMessage_build_def validate_cid_def MakeMessage_dump_def SessionCompletionRequest_build_def
      validate_c_m_def Message_init_def Let_def
      intro!: no_attr_intros no_attr_value_errors [OF validate_payload_value_error]
      split: option.split)

lemma no_attr_crypto:
  assumes "libs_raise_own L K"
  shows "no_attr (level_of pk)" "no_attr (generate_ephemeral L level c)" "no_attr (encapsulate L pk c)"
    and "no_attr (decapsulate L seed level ct)" "no_attr (derive_session_keys L n_a n_b f s1 s2 s3 s4 aead)"
    and "no_attr (encrypt L aead key iv sq p ad)" "no_attr (decrypt L aead key iv sq p ad)"
    and "no_attr (kl_get_public_key K kid)" "no_attr (kl_get_private_key K kid)"
proof -
  note own = assms [unfolded libs_raise_own_def]
  show lev: "no_attr (level_of pk)" for pk by (simp add: level_of_def split: option.split)
  have cls: "no_attr (mlkem_class l)" for l by (simp add: mlkem_class_def)
  have pk: "no_attr (KemPublicKey_build b (Some l) None)" for b l
    by (auto simp: KemPublicKey_build_def Let_def intro!: no_attr_intros no_attr_build)
  have ct: "no_attr (KemCiphertext_build b l)" for b l
    by (auto simp: KemCiphertext_build_def Let_def intro!: no_attr_intros no_attr_build split: option.split)
  show "no_attr (generate_ephemeral L level c)"
    unfolding generate_ephemeral_def using own cls pk by (auto intro!: no_attr_rbind)
  show "no_attr (encapsulate L pk c)"
    unfolding encapsulate_def using own cls lev ct by (auto intro!: no_attr_rbind no_attr_prod)
  show "no_attr (decapsulate L seed level ct)"
    unfolding decapsulate_def using own cls by (auto intro!: no_attr_rbind)
  show "no_attr (derive_session_keys L n_a n_b f s1 s2 s3 s4 aead)"
    unfolding derive_session_keys_def Let_def using own
    by (auto intro!: no_attr_rbind split: option.split)
  have n: "no_attr (nonce_for_seq iv sq)" "no_attr (aead_cipher aead)" for iv sq aead
    by (auto simp: nonce_for_seq_def int_to_bytes_def aead_cipher_def intro!: no_attr_rbind)
  show "no_attr (encrypt L aead key iv sq p ad)" "no_attr (decrypt L aead key iv sq p ad)"
    unfolding encrypt_def decrypt_def using own n by (auto intro!: no_attr_rbind)
  show "no_attr (kl_get_public_key K kid)" "no_attr (kl_get_private_key K kid)"
    using own by simp_all
qed

lemma no_attr_commit: "no_attr r \<Longrightarrow> no_attr (fst (commit s r))"
  by (cases r) auto

lemma no_attr_select: "no_attr (select_aead requested names)"
  by (induction names) (auto intro!: no_attr_rbind no_attr_lookup)

lemma no_attr_handlers:
  assumes own: "libs_raise_own L K"
  shows "ses_cid s \<noteq> None \<Longrightarrow> no_attr (fst (handle_session_init_request L K c now req der s))"
    and "awaits_completion_request s \<Longrightarrow> no_attr (fst (handle_session_completion_request L now creq der s))"
    and "awaits_init_response s \<Longrightarrow> no_attr (fst (handle_session_init_response L K c now resp der s))"
    and "awaits_completion_response s \<Longrightarrow> no_attr (fst (handle_session_completion_response L now cresp der s))"
    and "carries_traffic s \<Longrightarrow> no_attr (fst (handle_established_message L inner s))"
    and "carries_traffic s \<Longrightarrow> ses_pending_payload s \<noteq> None \<Longrightarrow> no_attr (fst (send_established_payload L s))"
proof -
  note crypto = no_attr_crypto [OF own]
  show "no_attr (fst (handle_session_init_request L K c now req der s))" if a: "ses_cid s \<noteq> None"
    unfolding handle_session_init_request_def Let_def using a crypto
    by (intro no_attr_commit no_attr_intros no_attr_select no_attr_build)
      (auto split: option.split)
  show "no_attr (fst (handle_session_completion_request L now creq der s))" if a: "awaits_completion_request s"
  proof -
    have op: "no_attr (open_completion_request L creq s)"
      unfolding open_completion_request_def using a crypto
      by (intro no_attr_intros) (auto simp: awaits_defs)
    obtain cid where cid: "ses_cid s = Some cid" using a by (auto simp: awaits_defs)
    show ?thesis
    proof (cases "open_completion_request L creq s")
      case (Inl e)
      with op show ?thesis by (simp add: handle_session_completion_request_def)
    next
      case (Inr x)
      obtain s4 keys plaintext where x: "x = (s4, keys, plaintext)" by (cases x)
      have rep: "no_attr (fst (reply_to_completion_request L keys (deliver_payload plaintext s)))"
        using crypto(6) cid by (auto simp: reply_to_completion_request_def no_attr_def deliver_payload_def
            split: option.split sum.split)
      have r: "snd (reply_to_completion_request L keys (deliver_payload plaintext s)) \<in>
          {deliver_payload plaintext s, clear_replied (deliver_payload plaintext s)}"
        by (auto simp: reply_to_completion_request_def clear_replied_def split: option.split sum.split)
      then have "ses_cid (snd (reply_to_completion_request L keys (deliver_payload plaintext s))) = Some cid"
        using cid by (auto simp: deliver_payload_def clear_replied_def)
      then show ?thesis
        using Inr x rep unfolding handle_session_completion_request_def deliver_payload_def [symmetric]
        by (auto intro!: no_attr_commit no_attr_rbind no_attr_build split: sseq_split)
    qed
  qed
  show "no_attr (fst (handle_session_init_response L K c now resp der s))" if a: "awaits_init_response s"
  proof -
    have op: "no_attr (open_init_response L K c resp s)"
      unfolding open_init_response_def Let_def using a crypto
      by (intro no_attr_intros) (auto simp: awaits_defs split: option.split)
    obtain cid where "ses_cid s = Some cid" using a by (auto simp: awaits_defs)
    with op show ?thesis
      unfolding handle_session_init_response_def Let_def
      by (auto intro!: no_attr_commit no_attr_rbind no_attr_build split: sum.split)
  qed
  show "no_attr (fst (handle_session_completion_response L now cresp der s))" if a: "awaits_completion_response s"
    unfolding handle_session_completion_response_def using a
    by (auto simp: awaits_defs intro!: no_attr_commit no_attr_rbind no_attr_rcatch split: option.split)
  show "no_attr (fst (handle_established_message L inner s))" if a: "carries_traffic s"
    unfolding handle_established_message_def Let_def using a crypto(7)
    by (auto simp: awaits_defs intro!: no_attr_commit no_attr_rbind no_attr_prod)
  show "no_attr (fst (send_established_payload L s))" if a: "carries_traffic s" "ses_pending_payload s \<noteq> None"
  proof -
    obtain keys key iv sq payload cid where k: "ses_session_keys s = Some keys"
        "outgoing_protection s keys = (key, iv, sq)" "ses_pending_payload s = Some payload" "ses_cid s = Some cid"
      using a by (cases "outgoing_protection s (the (ses_session_keys s))") (auto simp: awaits_defs)
    have "no_attr (encrypt L (sk_aead_name keys) key iv sq payload cid)" by (rule crypto(6))
    then show ?thesis
      by (cases "encrypt L (sk_aead_name keys) key iv sq payload cid")
        (auto simp: send_established_payload_def Let_def k intro!: no_attr_commit no_attr_rbind no_attr_build)
  qed
qed

lemma no_attr_process:
  assumes own: "libs_raise_own L K" and wf: "session_wf s"
  shows "no_attr (fst (process_incoming L K c now der s))"
proof -
  have load: "no_attr (MakeMessage_load L der)"
    using own unfolding MakeMessage_load_def libs_raise_own_def require_der_def
    by (auto intro!: no_attr_rbind no_attr_build no_attr_value_errors [OF make_message_of_value_error]
        simp: validate_cid_def)
  have "no_attr r" if p: "process_incoming L K c now der s = (r, s')" for r s'
    using p
  proof (cases rule: process_incoming_cases)
    case (malformed e)
    then show ?thesis using load by auto
  next
    case (request msg req)
    then show ?thesis using no_attr_handlers(1) [OF own, of "s\<lparr>ses_cid := Some (mm_cid msg)\<rparr>" c now req der] by simp
  next
    case (response msg resp)
    then show ?thesis using no_attr_handlers(3) [OF own session_wfD(2) [OF wf]] by (metis fst_conv)
  next
    case (completion_request msg req)
    then show ?thesis using no_attr_handlers(2) [OF own session_wfD(3) [OF wf]] by (metis fst_conv)
  next
    case (completion_response msg resp)
    then show ?thesis using no_attr_handlers(4) [OF own session_wfD(4) [OF wf]] by (metis fst_conv)
  next
    case (message msg inner)
    then show ?thesis using no_attr_handlers(5) [OF own session_wfD(5) [OF wf]] by (metis fst_conv)
  qed simp_all
  then show ?thesis by (metis prod.collapse)
qed

lemma no_attr_sseq:
  "no_attr (fst m) \<Longrightarrow> (\<And>x s. m = (Inr x, s) \<Longrightarrow> no_attr (fst (f x s))) \<Longrightarrow> no_attr (fst (sseq m f))"
  by (auto split: sseq_split)

text \<open>
  C27. No attribute is used while it is still \<open>None\<close>: as long as the libraries and the key lookup raise
  only exceptions of their own, \<open>update\<close> of a reachable session never raises \<open>AttributeError\<close>, whatever
  PDU it processes.
\<close>

theorem update_never_uses_unset_field:
  assumes "libs_raise_own L K" "session_reach L K s"
  shows "fst (update_session L K c now s) \<noteq> Inl AttributeError"
proof -
  have wf: "session_wf s" using assms(2) by (rule session_reach_wf)
  let ?first = "case ses_incoming_queue s of [] \<Rightarrow> (Inr (), s)
    | incoming # rest \<Rightarrow> process_incoming L K c now incoming (s\<lparr>ses_incoming_queue := rest\<rparr>)"
  have 1: "no_attr (fst ?first)"
    using no_attr_process [OF assms(1) session_wf_queue(1) [OF wf]] by (simp split: list.split)
  have 2: "session_wf (snd ?first)"
    using wf by (simp add: session_wf_process_incoming session_wf_queue split: list.split)
  have "no_attr (fst (update_session L K c now s))"
  proof (cases "ses_state s = DROPPED")
    case False
    have send: "no_attr (fst (if ses_state sa = ESTABLISHED \<and> ses_pending_payload sa \<noteq> None
        then send_established_payload L sa else (Inr (), sa)))" if "session_wf sa" for sa
      using no_attr_handlers(6) [OF assms(1)] session_wfD(5) [OF that] by simp
    show ?thesis
      unfolding update_session_def if_not_P [OF False] Let_def
    proof (rule no_attr_sseq [OF 1])
      fix x sa assume "?first = (Inr x, sa)"
      with 2 have "session_wf sa" by simp
      then show "no_attr (fst (sseq (if ses_state sa = ESTABLISHED \<and> ses_pending_payload sa \<noteq> None
           then send_established_payload L sa else (Inr (), sa))
         (\<lambda>_ sb. if ses_state sb = DROPPED then (Inr (SESSION_DROPPED, Infinity), sb)
            else (Inr (update_outcome now (if timed_out now sb then on_timeout now sb else sb)),
                  if timed_out now sb then on_timeout now sb else sb))))"
        by (intro no_attr_sseq [OF send]) simp_all
    qed
  qed (simp add: update_session_def)
  then show ?thesis by (simp add: no_attr_def)
qed

end
