(* ===== verification/Example.thy ===== *)
theory Example
  imports Handshake SessionTyping
begin

section \<open>A small instance of the third-party code\<close>

text \<open>
  \<open>toy\<close> is a concrete \<open>lib\<close> that meets every hypothesis of the development, so that the theorems can
  be applied: a self-delimiting prefix code for ASN.1 values, a KEM without secrecy but with the lengths
  of FIPS 203, checksums for hashes and tags. It shows the hypotheses can hold together; it is not a
  model of the real packages, and nothing but the witnesses uses it.
\<close>

subsection \<open>A codec\<close>

definition toy_nat :: "nat \<Rightarrow> bytes" where
  "toy_nat n = replicate n 1 @ [0]"

fun toy_read_nat :: "bytes \<Rightarrow> (nat \<times> bytes) option" where
  "toy_read_nat [] = None"
| "toy_read_nat (b # bs) =
     (if b = 0 then Some (0, bs) else map_option (\<lambda>(n, r). (Suc n, r)) (toy_read_nat bs))"

lemma toy_read_nat: "toy_read_nat (toy_nat n @ r) = Some (n, r)"
  by (induction n) (simp_all add: toy_nat_def)

definition toy_bytes :: "bytes \<Rightarrow> bytes" where
  "toy_bytes b = toy_nat (length b) @ b"

definition toy_read_bytes :: "bytes \<Rightarrow> (bytes \<times> bytes) option" where
  "toy_read_bytes bs = (case toy_read_nat bs of None \<Rightarrow> None
     | Some (n, r) \<Rightarrow> if length r < n then None else Some (take n r, drop n r))"

lemma toy_read_bytes: "toy_read_bytes (toy_bytes b @ r) = Some (b, r)"
  by (simp add: toy_bytes_def toy_read_bytes_def toy_read_nat)

definition toy_chars :: "string \<Rightarrow> bytes" where
  "toy_chars s = map (\<lambda>c. word_of_nat (of_char c)) s"

definition toy_read_chars :: "bytes \<Rightarrow> string" where
  "toy_read_chars b = map (\<lambda>w. char_of (unat w)) b"

lemma toy_char: "char_of (unat (word_of_nat (of_char c) :: byte)) = c"
proof -
  have "of_char c < (256 :: nat)"
    using of_char_mod_256 [of c, where 'a = nat] mod_less_divisor [of 256 "of_char c"] by simp
  then show ?thesis by (simp add: unat_of_nat take_bit_nat_def)
qed

lemma toy_read_chars: "toy_read_chars (toy_chars s) = s"
  by (induction s) (simp_all add: toy_read_chars_def toy_chars_def toy_char)

fun toy_encode :: "asn1 \<Rightarrow> bytes" where
  "toy_encode (AInt i) = 0 # (if i < 0 then 1 else 0) # toy_nat (nat \<bar>i\<bar>)"
| "toy_encode (AOctets b) = 1 # toy_bytes b"
| "toy_encode (AOid s) = 2 # toy_bytes (toy_chars s)"
| "toy_encode ANull = [3]"
| "toy_encode (ASeq ts) = 4 # toy_nat (length ts) @ concat (map toy_encode ts)"
| "toy_encode (ACtxP n b) = 5 # toy_nat n @ toy_bytes b"
| "toy_encode (ACtxC n ts) = 6 # toy_nat n @ toy_nat (length ts) @ concat (map toy_encode ts)"
| "toy_encode (AOther n b) = 7 # toy_nat n @ toy_bytes b"

primrec toy_read_many :: "(bytes \<Rightarrow> (asn1 \<times> bytes) option) \<Rightarrow> nat \<Rightarrow> bytes \<Rightarrow> (asn1 list \<times> bytes) option" where
  "toy_read_many p 0 bs = Some ([], bs)"
| "toy_read_many p (Suc n) bs = (case p bs of None \<Rightarrow> None
     | Some (t, r) \<Rightarrow> map_option (\<lambda>(ts, r'). (t # ts, r')) (toy_read_many p n r))"

fun toy_read :: "nat \<Rightarrow> bytes \<Rightarrow> (asn1 \<times> bytes) option" where
  "toy_read 0 bs = None"
| "toy_read (Suc k) [] = None"
| "toy_read (Suc k) (t # bs) =
     (if t = 0 then (case bs of [] \<Rightarrow> None
        | s # r \<Rightarrow> map_option (\<lambda>(n, r'). (AInt (if s = 1 then - int n else int n), r')) (toy_read_nat r))
      else if t = 1 then map_option (\<lambda>(b, r). (AOctets b, r)) (toy_read_bytes bs)
      else if t = 2 then map_option (\<lambda>(b, r). (AOid (toy_read_chars b), r)) (toy_read_bytes bs)
      else if t = 3 then Some (ANull, bs)
      else if t = 4 then (case toy_read_nat bs of None \<Rightarrow> None
        | Some (n, r) \<Rightarrow> map_option (\<lambda>(ts, r'). (ASeq ts, r')) (toy_read_many (toy_read k) n r))
      else if t = 5 then (case toy_read_nat bs of None \<Rightarrow> None
        | Some (n, r) \<Rightarrow> map_option (\<lambda>(b, r'). (ACtxP n b, r')) (toy_read_bytes r))
      else if t = 6 then (case toy_read_nat bs of None \<Rightarrow> None
        | Some (m, r) \<Rightarrow> (case toy_read_nat r of None \<Rightarrow> None
          | Some (n, r') \<Rightarrow> map_option (\<lambda>(ts, r''). (ACtxC m ts, r'')) (toy_read_many (toy_read k) n r')))
      else None)"

fun toy_depth :: "asn1 \<Rightarrow> nat" where
  "toy_depth (ASeq ts) = Suc (sum_list (map toy_depth ts))"
| "toy_depth (ACtxC _ ts) = Suc (sum_list (map toy_depth ts))"
| "toy_depth _ = 1"

lemma toy_depth_le: "toy_depth t \<le> length (toy_encode t)"
proof (induction t)
  case (ASeq ts)
  then have "sum_list (map toy_depth ts) \<le> length (concat (map toy_encode ts))"
    by (induction ts) (auto simp: add_mono)
  then show ?case by simp
next
  case (ACtxC n ts)
  then have "sum_list (map toy_depth ts) \<le> length (concat (map toy_encode ts))"
    by (induction ts) (auto simp: add_mono)
  then show ?case by simp
qed simp_all

lemma toy_read_many:
  assumes "\<And>t r. t \<in> set ts \<Longrightarrow> p (toy_encode t @ r) = Some (t, r)"
  shows "toy_read_many p (length ts) (concat (map toy_encode ts) @ r) = Some (ts, r)"
  using assms by (induction ts) auto

lemma toy_read_encode:
  "asn1_valid L t \<Longrightarrow> toy_depth t \<le> k \<Longrightarrow> toy_read k (toy_encode t @ r) = Some (t, r)"
proof (induction t arbitrary: k r)
  case (ASeq ts)
  then obtain k' where k: "k = Suc k'" by (cases k) auto
  have "toy_read k' (toy_encode t @ r) = Some (t, r)" if "t \<in> set ts" for t r
    using that ASeq.prems k member_le_sum_list [of "toy_depth t" "map toy_depth ts"]
    by (intro ASeq.IH) (auto simp: list_all_iff)
  then show ?case by (simp add: k toy_read_nat toy_read_many)
next
  case (ACtxC n ts)
  then obtain k' where k: "k = Suc k'" by (cases k) auto
  have "toy_read k' (toy_encode t @ r) = Some (t, r)" if "t \<in> set ts" for t r
    using that ACtxC.prems k member_le_sum_list [of "toy_depth t" "map toy_depth ts"]
    by (intro ACtxC.IH) (auto simp: list_all_iff)
  then show ?case by (simp add: k toy_read_nat toy_read_many)
next
  case (AInt i)
  then obtain k' where k: "k = Suc k'" by (cases k) auto
  then show ?case by (simp add: toy_read_nat)
next
  case (AOctets b)
  then obtain k' where k: "k = Suc k'" by (cases k) auto
  then show ?case by (simp add: toy_read_bytes)
next
  case (AOid s)
  then obtain k' where k: "k = Suc k'" by (cases k) auto
  then show ?case by (simp add: toy_read_bytes toy_read_chars)
next
  case ANull
  then obtain k' where k: "k = Suc k'" by (cases k) auto
  then show ?case by simp
next
  case (ACtxP n b)
  then obtain k' where k: "k = Suc k'" by (cases k) auto
  then show ?case by (simp add: toy_read_nat toy_read_bytes)
next
  case (AOther n b)
  then show ?case by simp
qed

definition toy_decode :: "bytes \<Rightarrow> asn1 result" where
  "toy_decode b = (case toy_read (length b) b of Some (t, []) \<Rightarrow> Inr t | _ \<Rightarrow> Inl ValueError)"

lemma toy_decode_encode: "asn1_valid L t \<Longrightarrow> toy_decode (toy_encode t) = Inr t"
  using toy_read_encode [OF _ toy_depth_le, of L t "[]"] by (simp add: toy_decode_def)

subsection \<open>The instance\<close>

definition toy_pad :: "nat \<Rightarrow> bytes \<Rightarrow> bytes" where
  "toy_pad n b = take n (b @ replicate n 0)"

definition toy_tag :: "bytes \<Rightarrow> bytes \<Rightarrow> bytes \<Rightarrow> bytes \<Rightarrow> byte" where
  "toy_tag key nonce ad pt =
     sum_list key + 3 * sum_list nonce + 5 * sum_list ad + 7 * sum_list pt"

definition toy :: lib where
  "toy = \<lparr>ber_decode = toy_decode, der_encode = toy_encode, valid_oid = (\<lambda>s. s \<noteq> []),
     digest_algorithm = (\<lambda>name. if name = [] then Inl ValueError
        else Inr \<lparr>alg_algorithm = name, alg_parameters = None\<rparr>),
     hash_new = (\<lambda>name b. Inr (toy_chars name @ b)),
     sha256 = (\<lambda>b. [sum_list b]),
     hmac_sha256 = (\<lambda>k b. [sum_list (take 1 k) + 3 * sum_list b]),
     mlkem_generate = (\<lambda>level c. Inr (MlkemPrivate level c)),
     mlkem_from_seed_bytes = (\<lambda>level b. Inr (MlkemPrivate level b)),
     mlkem_public_bytes = (\<lambda>k. toy_pad (fips203_pk_len (priv_level k)) (private_bytes_raw k)),
     mlkem_encapsulate = (\<lambda>level pk c.
        Inr (take 32 (toy_pad (fips203_ct_len level) c), toy_pad (fips203_ct_len level) c)),
     mlkem_decapsulate = (\<lambda>k ct. Inr (take 32 ct)),
     aead_generate_key = (\<lambda>cls c. Inr (toy_pad 32 c)),
     aead_encrypt = (\<lambda>cls key nonce pt ad. Inr (toy_tag key nonce ad pt # pt)),
     aead_decrypt = (\<lambda>cls key nonce ct ad. case ct of
        [] \<Rightarrow> Inl InvalidTag
      | t # pt \<Rightarrow> if t = toy_tag key nonce ad pt then Inr pt else Inl InvalidTag),
     hkdf_sha256 = (\<lambda>n salt info ikm. Inr (replicate (nat n) (sum_list (salt @ info @ take 1 ikm)))),
     pbkdf2_sha256 = (\<lambda>n salt iterations p. Inr (replicate (nat n) (sum_list (salt @ p)))),
     aes_key_wrap_with_padding = (\<lambda>k b. Inr (sum_list k # b)),
     aes_key_unwrap_with_padding = (\<lambda>k b. case b of
        [] \<Rightarrow> Inl InvalidUnwrap | t # r \<Rightarrow> if t = sum_list k then Inr r else Inl InvalidUnwrap)\<rparr>"

lemma length_toy_pad [simp]: "length (toy_pad n b) = n"
  by (simp add: toy_pad_def)

lemma toy_asn1_works: "asn1_works toy"
  using toy_decode_encode by (simp add: asn1_works_def toy_def)

lemma toy_key_works: "mlkem_key_works toy k"
  by (cases k) (simp add: mlkem_key_works_def toy_def)

lemma toy_mlkem_works: "mlkem_works toy"
  using toy_key_works by (simp add: mlkem_works_def) (simp add: toy_def)

lemma toy_aead_works: "aead_works toy"
  by (simp add: aead_works_def toy_def)

lemma toy_hkdf_works: "hkdf_works toy"
  by (simp add: hkdf_works_def toy_def)

lemma toy_oids: "standard_oids_ok toy"
  by (simp add: standard_oids_ok_def toy_def MLKEM_OIDS_def AEAD_OIDS_def)

lemma toy_libs_work: "libs_work toy"
  by (simp add: libs_work_def toy_asn1_works toy_oids toy_mlkem_works toy_aead_works toy_hkdf_works)

lemma toy_decode_value_error: "only_value_errors (ber_decode toy b)"
  by (simp add: toy_def toy_decode_def only_value_errors_def split: option.split prod.split list.split)

end
