(* ===== verification/NonceUse.thy ===== *)
theory NonceUse
  imports SessionProps
begin

section \<open>What a session encrypts, and under which nonce\<close>

text \<open>
  The PDUs a session puts into its queue over its whole life, read as messages: every ciphertext in
  them is an output of the AEAD under the session's own sending key, and no two different messages
  have a ciphertext under the same nonce. The log of the messages sent (\<open>sealing\<close>) is a ghost: the
  session keeps a counter and the last PDU only.
\<close>

subsection \<open>Ciphertexts in messages\<close>

fun ciphertext_of :: "make_payload \<Rightarrow> bytes option" where
  "ciphertext_of (Session_completion_request req) = Some (scr_c_m req)"
| "ciphertext_of (Session_completion_response resp) = scp_m resp"
| "ciphertext_of (Message inner) = Some (msg_m inner)"
| "ciphertext_of _ = None"

text \<open>The sequence number of a payload: the handshake uses 0, a message carries its own.\<close>

fun seal_seq :: "make_payload \<Rightarrow> int" where
  "seal_seq (Message inner) = msg_seq inner"
| "seal_seq _ = 0"

definition sending_key :: "role \<Rightarrow> session_keys \<Rightarrow> bytes" where
  "sending_key r keys = (case r of INITIATOR \<Rightarrow> sk_key_a2b keys | RESPONDER \<Rightarrow> sk_key_b2a keys)"

definition sending_iv :: "role \<Rightarrow> session_keys \<Rightarrow> bytes" where
  "sending_iv r keys = (case r of INITIATOR \<Rightarrow> sk_iv_a2b keys | RESPONDER \<Rightarrow> sk_iv_b2a keys)"

definition sending_seq :: "session \<Rightarrow> int" where
  "sending_seq s = (case ses_role s of INITIATOR \<Rightarrow> ses_seq_a2b s | RESPONDER \<Rightarrow> ses_seq_b2a s)"

lemma outgoing_protection_eq:
  "outgoing_protection s keys = (sending_key (ses_role s) keys, sending_iv (ses_role s) keys, sending_seq s)"
  by (cases "ses_role s") (simp_all add: outgoing_protection_def sending_key_def sending_iv_def sending_seq_def)

text \<open>The ciphertext of \<open>m\<close> is the AEAD's output for some plaintext under the nonce \<open>n\<close>.\<close>

definition sealed_under :: "lib \<Rightarrow> role \<Rightarrow> session_keys \<Rightarrow> make_message \<Rightarrow> bytes \<Rightarrow> bool" where
  "sealed_under L r keys m n \<longleftrightarrow> (\<exists>cls p ct. ciphertext_of (mm_payload m) = Some ct \<and>
     aead_cipher (sk_aead_name keys) = Inr cls \<and> aead_encrypt L cls (sending_key r keys) n p (mm_cid m) = Inr ct)"

definition seals_messages :: "make_message set \<Rightarrow> make_message set" where
  "seals_messages M = {m \<in> M. ciphertext_of (mm_payload m) \<noteq> None}"

lemma seals_messages_insert:
  "seals_messages (insert m M) = (if ciphertext_of (mm_payload m) = None then seals_messages M else insert m (seals_messages M))"
  by (auto simp: seals_messages_def)

lemma encrypt_sealed:
  assumes "encrypt L (sk_aead_name keys) (sending_key r keys) (sending_iv r keys) sq p (mm_cid m) = Inr ct"
    and "ciphertext_of (mm_payload m) = Some ct"
  obtains n where "nonce_for_seq (sending_iv r keys) sq = Inr n" "sealed_under L r keys m n"
  using assms by (auto simp: encrypt_def sealed_under_def)

subsection \<open>The log of what was sent\<close>

text \<open>
  \<open>M\<close>: the messages the session has sent. Each ciphertext is under the session's keys with a sequence
  number the counter has passed, no number twice; before there are keys nothing is encrypted; what
  is kept for a retry has been sent.
\<close>

definition sealing :: "lib \<Rightarrow> make_message set \<Rightarrow> session \<Rightarrow> bool" where
  "sealing L M s \<longleftrightarrow>
     (\<forall>m \<in> seals_messages M. \<exists>keys n. ses_session_keys s = Some keys \<and> seal_seq (mm_payload m) < sending_seq s \<and>
        nonce_for_seq (sending_iv (ses_role s) keys) (seal_seq (mm_payload m)) = Inr n \<and>
        sealed_under L (ses_role s) keys m n) \<and>
     inj_on (\<lambda>m. seal_seq (mm_payload m)) (seals_messages M) \<and>
     (ses_state s \<in> {INITIAL, EXPECT_SESSION_INIT_RESPONSE, EXPECT_SESSION_COMPLETION_REQUEST} \<longrightarrow> seals_messages M = {}) \<and>
     (\<forall>sent. ses_last_sent s = Some sent \<longrightarrow> (\<exists>m \<in> M. MakeMessage_dump L m = Inr sent))"

text \<open>A call queues the encodings of some messages and keeps the log right.\<close>

definition logs :: "lib \<Rightarrow> session \<Rightarrow> session \<Rightarrow> bool" where
  "logs L s s' \<longleftrightarrow> (\<forall>M. sealing L M s \<longrightarrow> (\<exists>ms ders. ses_outgoing_pdus s' = ses_outgoing_pdus s @ ders \<and>
     map (MakeMessage_dump L) ms = map Inr ders \<and> sealing L (M \<union> set ms) s'))"

lemma logsI:
  assumes "\<And>M. sealing L M s \<Longrightarrow> sealing L (M \<union> set ms) s'" "ses_outgoing_pdus s' = ses_outgoing_pdus s @ ders"
    and "map (MakeMessage_dump L) ms = map Inr ders"
  shows "logs L s s'"
  using assms unfolding logs_def by blast

lemma logs_silent: "(\<And>M. sealing L M s \<Longrightarrow> sealing L M s') \<Longrightarrow> ses_outgoing_pdus s' = ses_outgoing_pdus s \<Longrightarrow> logs L s s'"
  by (rule logsI [of L s "[]" s' "[]"]) simp_all

lemma logs_one:
  "(\<And>M. sealing L M s \<Longrightarrow> sealing L (insert m M) s') \<Longrightarrow> ses_outgoing_pdus s' = ses_outgoing_pdus s @ [out] \<Longrightarrow>
   MakeMessage_dump L m = Inr out \<Longrightarrow> logs L s s'"
  by (rule logsI [of L s "[m]" s' "[out]"]) simp_all

lemma logs_refl: "logs L s s"
  by (rule logs_silent) simp_all

lemma logs_trans:
  assumes "logs L a b" "logs L b c"
  shows "logs L a c"
  unfolding logs_def
proof (intro allI impI)
  fix M assume "sealing L M a"
  with assms(1) obtain ms ders where 1: "ses_outgoing_pdus b = ses_outgoing_pdus a @ ders"
      "map (MakeMessage_dump L) ms = map Inr ders" "sealing L (M \<union> set ms) b"
    unfolding logs_def by blast
  with assms(2) obtain ms' ders' where "ses_outgoing_pdus c = ses_outgoing_pdus b @ ders'"
      "map (MakeMessage_dump L) ms' = map Inr ders'" "sealing L (M \<union> set ms \<union> set ms') c"
    unfolding logs_def by blast
  with 1 show "\<exists>ms ders. ses_outgoing_pdus c = ses_outgoing_pdus a @ ders \<and>
      map (MakeMessage_dump L) ms = map Inr ders \<and> sealing L (M \<union> set ms) c"
    by (intro exI [of _ "ms @ ms'"] exI [of _ "ders @ ders'"]) (simp add: Un_assoc)
qed

lemma sealing_frame:
  assumes "sealing L M s" "ses_session_keys s' = ses_session_keys s" "ses_role s' = ses_role s"
    and "sending_seq s \<le> sending_seq s'" "ses_last_sent s' = None \<or> ses_last_sent s' = ses_last_sent s"
    and "ses_state s' \<in> {INITIAL, EXPECT_SESSION_INIT_RESPONSE, EXPECT_SESSION_COMPLETION_REQUEST} \<Longrightarrow> ses_state s' = ses_state s"
  shows "sealing L M s'"
  using assms unfolding sealing_def by (fastforce intro: less_le_trans)

lemma sending_seq_cong:
  "ses_role s' = ses_role s \<Longrightarrow> ses_seq_a2b s' = ses_seq_a2b s \<Longrightarrow> ses_seq_b2a s' = ses_seq_b2a s \<Longrightarrow>
   sending_seq s' = sending_seq s"
  by (cases "ses_role s") (simp_all add: sending_seq_def)

lemma sealing_same:
  assumes "ses_session_keys s' = ses_session_keys s" "ses_role s' = ses_role s" "ses_state s' = ses_state s"
    and "ses_seq_a2b s' = ses_seq_a2b s" "ses_seq_b2a s' = ses_seq_b2a s" "ses_last_sent s' = ses_last_sent s"
  shows "sealing L M s' = sealing L M s"
  by (simp add: sealing_def sending_seq_cong [OF assms(2,4,5)] assms)

lemma logs_same:
  assumes "ses_session_keys s' = ses_session_keys s" "ses_role s' = ses_role s" "ses_state s' = ses_state s"
    and "ses_seq_a2b s' = ses_seq_a2b s" "ses_seq_b2a s' = ses_seq_b2a s" "ses_last_sent s' = ses_last_sent s"
    and "ses_outgoing_pdus s' = ses_outgoing_pdus s"
  shows "logs L s s'"
  by (rule logs_silent) (simp_all add: sealing_same [OF assms(1-6)] assms(7))

lemma resend_logs:
  assumes "ses_last_sent s = Some sent"
    and "ses_outgoing_pdus s' = ses_outgoing_pdus s @ [sent]" "\<And>M. sealing L M s \<Longrightarrow> sealing L M s'"
  shows "logs L s s'"
  unfolding logs_def
proof (intro allI impI)
  fix M assume M: "sealing L M s"
  then obtain m where "m \<in> M" "MakeMessage_dump L m = Inr sent" using assms(1) by (auto simp: sealing_def)
  with M assms(2,3) show "\<exists>ms ders. ses_outgoing_pdus s' = ses_outgoing_pdus s @ ders \<and>
      map (MakeMessage_dump L) ms = map Inr ders \<and> sealing L (M \<union> set ms) s'"
    by (intro exI [of _ "[m]"] exI [of _ "[sent]"]) (simp add: insert_absorb)
qed

text \<open>A message of the handshake without a ciphertext, and the first ciphertext of a session.\<close>

lemma sealing_plain:
  assumes "sealing L M s" "ciphertext_of (mm_payload m) = None" "MakeMessage_dump L m = Inr out" "ses_last_sent s' = Some out"
    and "seals_messages M = {}"
  shows "sealing L (insert m M) s'"
  using assms by (auto simp: sealing_def seals_messages_insert)

lemma sealing_first:
  assumes "seals_messages M = {}" "MakeMessage_dump L m = Inr out" "ses_last_sent s' = Some out"
    and "ses_session_keys s' = Some keys" "ses_state s' \<in> {EXPECT_SESSION_COMPLETION_RESPONSE, ESTABLISHED}"
    and "encrypt L (sk_aead_name keys) (sending_key (ses_role s') keys) (sending_iv (ses_role s') keys)
      (seal_seq (mm_payload m)) p (mm_cid m) = Inr ct"
    and "ciphertext_of (mm_payload m) = Some ct" "seal_seq (mm_payload m) < sending_seq s'"
  shows "sealing L (insert m M) s'"
proof -
  obtain n where "nonce_for_seq (sending_iv (ses_role s') keys) (seal_seq (mm_payload m)) = Inr n"
      "sealed_under L (ses_role s') keys m n"
    by (rule encrypt_sealed [OF assms(6,7)])
  with assms show ?thesis by (auto simp: sealing_def seals_messages_insert)
qed

subsection \<open>Every call keeps the log\<close>

lemma logs_initiate: "logs L s (snd (initiate L K c peer now s))"
proof -
  have "logs L s t" if "initiate L K c peer now s = (r, t)" for r t
    using that
  proof (cases rule: initiate_cases)
    case misuse
    then show ?thesis by (simp add: logs_refl)
  next
    case (raised e k pub ss)
    then show ?thesis by (intro logs_same) simp_all
  next
    case (success peer_pk k pub s1 ct1 own aeads out)
    show ?thesis
      by (rule logs_one [OF _ _ success(10)], rule sealing_plain [OF _ _ success(10)])
        (use success in \<open>auto simp: sealing_def\<close>)
  qed
  then show ?thesis by (metis prod.collapse)
qed

lemma logs_init_request:
  assumes "handle_session_init_request L K c now req der s = (r, s')" "ses_state s = INITIAL"
  shows "logs L s s'"
  using assms(1)
proof (cases rule: handle_session_init_request_cases)
  case raised
  then show ?thesis by (simp add: logs_refl)
next
  case (success own_static peer level k pub s1 s2 ct2 s3 ct3 aead oid cid out)
  show ?thesis
    by (rule logs_one [OF _ _ success(13)], rule sealing_plain [OF _ _ success(13)])
      (use success assms(2) in \<open>auto simp: sealing_def\<close>)
qed

lemma logs_init_response:
  assumes "handle_session_init_response L K c now resp der s = (r, s')" "ses_state s = EXPECT_SESSION_INIT_RESPONSE"
    and "ses_role s = INITIATOR"
  shows "logs L s s'"
  using assms(1)
proof (cases rule: handle_session_init_response_cases)
  case rejected
  then show ?thesis by (simp add: logs_refl)
next
  case build_failed
  then show ?thesis by (intro logs_same) simp_all
next
  case (success aead ct4 keys plaintext c_m cid out)
  then have e: "encrypt L (sk_aead_name keys) (sk_key_a2b keys) (sk_iv_a2b keys) 0 plaintext cid = Inr c_m"
    by (auto simp: open_init_response_eq_Inr)
  show ?thesis
  proof (rule logs_one [OF _ _ success(6)])
    fix M assume "sealing L M s"
    then have "seals_messages M = {}" using assms(2) by (simp add: sealing_def)
    from sealing_first [OF this success(6), where s' = s' and keys = keys and p = plaintext and ct = c_m] e success assms(3)
    show "sealing L (insert \<lparr>mm_version = 0, mm_cid = cid, mm_payload = Session_completion_request
         \<lparr>scr_c_m = c_m, scr_ct4 = ct4, scr_n_a = coin_urandom16 c\<rparr>\<rparr> M) s'"
      by (simp add: sending_key_def sending_iv_def sending_seq_def)
  qed (use success in simp)
qed

lemma logs_completion_request:
  assumes "handle_session_completion_request L now req der s = (r, s')" "ses_state s = EXPECT_SESSION_COMPLETION_REQUEST"
    and "ses_role s = RESPONDER"
  shows "logs L s s'"
  using assms(1)
proof (cases rule: handle_session_completion_request_cases)
  case rejected
  then show ?thesis by (simp add: logs_refl)
next
  case (reply_failed e s4 keys plaintext)
  then show ?thesis
    using assms(2) by (intro logs_silent) (auto simp: sealing_def deliver_payload_def clear_replied_def split: if_splits)
next
  case (success s4 keys plaintext m cid out)
  let ?m = "\<lparr>mm_version = 0, mm_cid = cid, mm_payload = Session_completion_response
         \<lparr>scp_h_m = sha256 L plaintext, scp_m = m\<rparr>\<rparr>"
  have s': "ses_last_sent s' = Some out" "ses_session_keys s' = Some keys" "ses_state s' = ESTABLISHED"
      "ses_role s' = RESPONDER" "ses_pending_payload s \<noteq> None \<Longrightarrow> ses_seq_b2a s' = 1"
    unfolding success(7) using assms(3) by (auto simp: clear_replied_def deliver_payload_def)
  show ?thesis
  proof (rule logs_one [OF _ _ success(6)])
    fix M assume M: "sealing L M s"
    then have none: "seals_messages M = {}" using assms(2) by (simp add: sealing_def)
    show "sealing L (insert ?m M) s'"
    proof (cases "ses_pending_payload s")
      case None
      with success(5) have "ciphertext_of (mm_payload ?m) = None" by simp
      from sealing_plain [OF M this success(6) s'(1) none] show ?thesis .
    next
      case (Some p)
      with success(5) obtain ct where "m = Some ct"
          "encrypt L (sk_aead_name keys) (sk_key_b2a keys) (sk_iv_b2a keys) 0 p cid = Inr ct"
        by auto
      with sealing_first [OF none success(6), where s' = s' and keys = keys and p = p and ct = ct] s' Some
      show ?thesis by (simp add: sending_key_def sending_iv_def sending_seq_def)
    qed
  qed (use success(7) in simp)
qed

lemma logs_completion_response:
  assumes "handle_session_completion_response L now resp der s = (r, s')" "ses_role s = INITIATOR"
  shows "logs L s s'"
  using assms(1)
proof (cases rule: handle_session_completion_response_cases)
  case raised
  then show ?thesis by (simp add: logs_refl)
next
  case (success sent sm)
  have "ses_outgoing_pdus s' = ses_outgoing_pdus s" "ses_session_keys s' = ses_session_keys s"
      "ses_role s' = ses_role s" "sending_seq s' = sending_seq s" "ses_last_sent s' = None" "ses_state s' = ESTABLISHED"
    using success(4,5) assms(2) by (auto simp: sending_seq_def split: option.splits)
  then show ?thesis by (intro logs_silent) (auto intro: sealing_frame)
qed

lemma logs_established_message: "handle_established_message L inner s = (r, s') \<Longrightarrow> logs L s s'"
proof (erule handle_established_message_cases)
  fix keys key iv cid plaintext
  assume "s' = (bump_incoming_seq s)\<lparr>ses_outgoing_payloads := ses_outgoing_payloads s @ [plaintext]\<rparr>"
  then have "ses_session_keys s' = ses_session_keys s" "ses_role s' = ses_role s" "ses_state s' = ses_state s"
      "sending_seq s' = sending_seq s" "ses_last_sent s' = ses_last_sent s" "ses_outgoing_pdus s' = ses_outgoing_pdus s"
    by (cases "ses_role s"; simp add: bump_incoming_seq_def sending_seq_def)+
  then show "logs L s s'" by (intro logs_silent) (auto intro: sealing_frame)
qed (simp add: logs_refl)

lemma bump_outgoing_frame:
  "ses_session_keys (bump_outgoing_seq s) = ses_session_keys s" "ses_role (bump_outgoing_seq s) = ses_role s"
  "sending_seq (bump_outgoing_seq s) = sending_seq s + 1" "ses_last_sent (bump_outgoing_seq s) = ses_last_sent s"
  "ses_outgoing_pdus (bump_outgoing_seq s) = ses_outgoing_pdus s"
  by (cases "ses_role s"; simp add: bump_outgoing_seq_def sending_seq_def)+

lemma sealing_next:
  assumes "sealing L M s" "ses_session_keys s = Some keys" "ses_state s' = ESTABLISHED"
    and "ses_session_keys s' = ses_session_keys s" "ses_role s' = ses_role s" "ses_last_sent s' = ses_last_sent s"
    and "seal_seq (mm_payload m) = sending_seq s" "sending_seq s' = sending_seq s + 1"
    and "nonce_for_seq (sending_iv (ses_role s) keys) (sending_seq s) = Inr n" "sealed_under L (ses_role s) keys m n"
  shows "sealing L (insert m M) s'"
proof -
  have old: "\<exists>keys n. ses_session_keys s = Some keys \<and> seal_seq (mm_payload x) < sending_seq s \<and>
        nonce_for_seq (sending_iv (ses_role s) keys) (seal_seq (mm_payload x)) = Inr n \<and>
        sealed_under L (ses_role s) keys x n" if "x \<in> seals_messages M" for x
    using assms(1) that unfolding sealing_def by blast
  have c: "ciphertext_of (mm_payload m) \<noteq> None" using assms(10) by (auto simp: sealed_under_def)
  have inj: "inj_on (\<lambda>m. seal_seq (mm_payload m)) (insert m (seals_messages M))"
    using assms(1,7) old by (fastforce simp: sealing_def inj_on_insert)
  have "\<exists>keys n. ses_session_keys s' = Some keys \<and> seal_seq (mm_payload x) < sending_seq s' \<and>
        nonce_for_seq (sending_iv (ses_role s') keys) (seal_seq (mm_payload x)) = Inr n \<and>
        sealed_under L (ses_role s') keys x n" if "x \<in> insert m (seals_messages M)" for x
  proof (cases "x = m")
    case True
    with assms show ?thesis by (intro exI [of _ keys] exI [of _ n]) simp
  next
    case False
    with that old [of x] show ?thesis unfolding assms(4,5,8) by force
  qed
  moreover have "\<forall>sent. ses_last_sent s' = Some sent \<longrightarrow> (\<exists>m \<in> insert m M. MakeMessage_dump L m = Inr sent)"
    using assms(1,6) by (auto simp: sealing_def)
  ultimately show ?thesis
    using inj c assms(3) unfolding sealing_def seals_messages_insert by simp
qed

lemma logs_send:
  assumes "send_established_payload L s = (r, s')" "ses_state s = ESTABLISHED"
  shows "logs L s s'"
proof -
  let ?s = "s\<lparr>ses_pending_payload := None\<rparr>"
  have q: "sending_seq ?s = sending_seq s" by (rule sending_seq_cong) simp_all
  show ?thesis
    using assms(1)
  proof (cases rule: send_established_payload_cases)
    case (not_encrypted e)
    then show ?thesis by (intro logs_same) simp_all
  next
    case (not_built e)
    then have s': "s' = bump_outgoing_seq ?s" by simp
    have "sealing L M s'" if "sealing L M s" for M
      unfolding s' by (rule sealing_frame [OF that]) (simp_all add: bump_outgoing_frame q)
    moreover have "ses_outgoing_pdus s' = ses_outgoing_pdus s"
      unfolding s' bump_outgoing_frame by simp
    ultimately show ?thesis by (rule logs_silent)
  next
    case (success keys payload cid key iv sq ct out)
    let ?m = "\<lparr>mm_version = 0, mm_cid = cid, mm_payload = Message \<lparr>msg_seq = sq, msg_m = ct\<rparr>\<rparr>"
    have p: "key = sending_key (ses_role s) keys" "iv = sending_iv (ses_role s) keys" "sq = sending_seq s"
      using success(6) by (simp_all add: outgoing_protection_eq)
    have s': "ses_session_keys s' = ses_session_keys s" "ses_role s' = ses_role s" "ses_last_sent s' = ses_last_sent s"
        "ses_state s' = ESTABLISHED" "sending_seq s' = sending_seq s + 1" "ses_outgoing_pdus s' = ses_outgoing_pdus s @ [out]"
      using assms(2) bump_outgoing_frame [of ?s] q sending_seq_cong [of s' "bump_outgoing_seq ?s"]
      by (simp_all add: success(9))
    obtain n where n: "nonce_for_seq (sending_iv (ses_role s) keys) sq = Inr n" "sealed_under L (ses_role s) keys ?m n"
      by (rule encrypt_sealed [where m = ?m and ct = ct and L = L and keys = keys and r = "ses_role s" and sq = sq and p = payload])
        (use success(7) p in simp_all)
    have "sealing L (insert ?m M) s'" if "sealing L M s" for M
      by (rule sealing_next [OF that success(2) s'(4,1,2,3)]) (use n p(3) s'(5) in simp_all)
    then show ?thesis by (rule logs_one [OF _ s'(6) success(8)])
  qed
qed

lemma logs_resend: "logs L s (resend s)"
proof (cases "ses_last_sent s")
  case None
  then show ?thesis by (simp add: resend_def logs_refl)
next
  case (Some sent)
  have "sealing L M (resend s)" if "sealing L M s" for M
    by (rule iffD2 [OF sealing_same that]) (simp_all add: resend_def Some)
  then show ?thesis by (intro resend_logs [OF Some]) (simp_all add: resend_def Some)
qed

lemma logs_timeout: "logs L s (on_timeout now s)"
proof -
  let ?r = "s\<lparr>ses_attempt_count := ses_attempt_count s + 1,
      ses_deadline := Some (now + cfg_retry_interval_seconds (ses_config s))\<rparr>"
  have q: "sending_seq (s\<lparr>ses_state := DROPPED\<rparr>) = sending_seq s" by (rule sending_seq_cong) simp_all
  have "logs L s (s\<lparr>ses_state := DROPPED\<rparr>)"
    by (rule logs_silent, erule sealing_frame) (simp_all add: q)
  moreover have "logs L s ?r" by (rule logs_same) simp_all
  moreover from this have "logs L s (resend ?r)" by (blast intro: logs_trans logs_resend)
  ultimately show ?thesis by (auto simp: on_timeout_def resend_def Let_def split: option.splits)
qed

lemma logs_process: "logs L s (snd (process_incoming L K c now der s))"
proof -
  have "logs L s s'" if "process_incoming L K c now der s = (r, s')" for r s'
    using that
  proof (cases rule: process_incoming_cases)
    case (request msg req)
    have "logs L s (s\<lparr>ses_cid := Some (mm_cid msg)\<rparr>)"
      by (rule logs_same) simp_all
    moreover have "logs L (s\<lparr>ses_cid := Some (mm_cid msg)\<rparr>) s'"
      using request by (intro logs_init_request [OF request(6)]) simp
    ultimately show ?thesis by (rule logs_trans)
  qed (auto intro: logs_refl logs_resend logs_init_response logs_completion_request logs_completion_response
      logs_established_message)
  then show ?thesis by (metis prod.collapse)
qed

lemma logs_queue: "logs L s (s\<lparr>ses_incoming_queue := q\<rparr>)"
  by (rule logs_same) simp_all

lemma logs_update:
  assumes "session_wf s"
  shows "logs L s (snd (update_session L K c now s))"
  by (rule update_session_rel [where R = "logs L", OF _ _ _ _ _ _ assms])
    (simp_all add: logs_refl logs_queue logs_process logs_timeout logs_send [OF prod.collapse [symmetric]],
     erule (1) logs_trans)

subsection \<open>The PDUs of a run\<close>

text \<open>What a call has put at the end of the queue (\<open>get_pdu\<close> takes from the front).\<close>

definition queued :: "session \<Rightarrow> session \<Rightarrow> bytes list" where
  "queued s s' = drop (length (ses_outgoing_pdus s)) (ses_outgoing_pdus s')"

text \<open>Any calls on a session, with the PDUs they queue.\<close>

inductive session_sends :: "lib \<Rightarrow> key_lookup \<Rightarrow> session \<Rightarrow> bytes list \<Rightarrow> session \<Rightarrow> bool" for L K s where
  sends_none: "session_sends L K s [] s"
| sends_step: "session_sends L K s ders t \<Longrightarrow> session_step L K t u \<Longrightarrow> session_sends L K s (ders @ queued t u) u"

lemma session_run_sends: "session_run L K s t \<Longrightarrow> \<exists>ders. session_sends L K s ders t"
  by (induction rule: rtranclp_induct) (blast intro: session_sends.intros)+

lemma sealing_outputs:
  "sealing L M (s\<lparr>ses_outgoing_pdus := x\<rparr>) = sealing L M s" "sealing L M (s\<lparr>ses_outgoing_payloads := y\<rparr>) = sealing L M s"
  by (rule sealing_same; simp)+

lemma step_logged:
  assumes "session_step L K s s'" "session_wf s" "sealing L M s"
  obtains (log) ms where "map (MakeMessage_dump L) ms = map Inr (queued s s')" "sealing L (M \<union> set ms) s'"
proof -
  have logged: thesis if "logs L s s'"
  proof -
    obtain ms ders where l: "ses_outgoing_pdus s' = ses_outgoing_pdus s @ ders"
        "map (MakeMessage_dump L) ms = map Inr ders" "sealing L (M \<union> set ms) s'"
      using \<open>logs L s s'\<close> assms(3) unfolding logs_def by (elim allE impE exE conjE)
    then have "queued s s' = ders" by (simp add: queued_def)
    with l(2) have "map (MakeMessage_dump L) ms = map Inr (queued s s')" by simp
    from log [OF this l(3)] show thesis .
  qed
  have silent: thesis if "queued s s' = []" "sealing L M s'"
    by (rule log [of "[]"]) (use that in simp_all)
  show thesis
    using assms(1)
  proof cases
    case step_get_pdu
    then show ?thesis
      using assms(3) by (cases "ses_outgoing_pdus s") (auto intro!: silent simp: queued_def get_pdu_def sealing_outputs)
  next
    case step_get_payload
    then show ?thesis
      using assms(3) by (intro silent) (auto simp: queued_def get_payload_def sealing_outputs split: sum.split)
  next
    case (step_post_payload p)
    then show ?thesis
      using assms(3) by (intro silent) (auto simp: queued_def post_payload_def intro: iffD2 [OF sealing_same])
  next
    case (step_post_pdu der)
    then show ?thesis using logs_queue by (intro logged) (simp add: post_pdu_def)
  qed (use assms(2) in \<open>auto intro: logged logs_initiate logs_update\<close>)
qed

lemma run_logged:
  assumes "session_sends L K s ders t" "session_wf s" "sealing L M s"
  shows "session_wf t \<and> (\<exists>ms. map (MakeMessage_dump L) ms = map Inr ders \<and> sealing L (M \<union> set ms) t)"
  using assms(1)
proof (induction rule: session_sends.induct)
  case sends_none
  then show ?case using assms(2,3) by (intro conjI exI [of _ "[]"]) simp_all
next
  case (sends_step ders t u)
  then obtain ms where ms: "map (MakeMessage_dump L) ms = map Inr ders" "sealing L (M \<union> set ms) t" by blast
  obtain ms' where "map (MakeMessage_dump L) ms' = map Inr (queued t u)" "sealing L ((M \<union> set ms) \<union> set ms') u"
    using sends_step ms(2) by (blast elim: step_logged)
  with ms(1) sends_step session_step_wf show ?case
    by (intro conjI exI [of _ "ms @ ms'"]) (auto simp: Un_assoc)
qed

lemma sealing_new: "sealing L {} (Session_init role own config)"
  by (simp add: sealing_def seals_messages_def Session_init_def)

lemma sealing_fork: "fork L s = Inr s' \<Longrightarrow> sealing L M s \<Longrightarrow> sealing L M s'"
  by (auto simp: fork_def Let_def Session_init_def sealing_def split: if_splits)

lemma reach_sealing: "session_reach L K s \<Longrightarrow> \<exists>M. sealing L M s"
proof (induction rule: session_reach.induct)
  case (reach_step s s')
  then obtain M where "sealing L M s" by blast
  then show ?case using step_logged [OF reach_step(2) session_reach_wf [OF reach_step(1)]] by metis
qed (auto simp: reset_def intro: sealing_new sealing_fork)

text \<open>
  C5. No nonce is used for two messages. Take any reachable session, new, reset, forked or in the middle of its
  life, and any calls of its public methods but \<open>reset\<close> (which starts over, without keys), in any order, with any
  PDUs and exceptions: the PDUs it queues encode messages in which every ciphertext (the false start, the
  reply in the completion response, each message) is an output of the AEAD under the session's own sending key and a nonce
  made of its own sending IV and the number of the message (0 in the handshake), and messages that differ
  have different nonces. (A retry sends the same PDU again and encrypts nothing.)
\<close>

theorem nonce_never_reused:
  assumes "session_reach L K s0" "session_sends L K s0 ders s"
  shows "\<exists>ms nonce. map (MakeMessage_dump L) ms = map Inr ders
    \<and> (\<forall>m \<in> set ms. \<forall>ct. ciphertext_of (mm_payload m) = Some ct \<longrightarrow>
        (\<exists>keys cls p. ses_session_keys s = Some keys \<and> aead_cipher (sk_aead_name keys) = Inr cls
          \<and> nonce_for_seq (case ses_role s of INITIATOR \<Rightarrow> sk_iv_a2b keys | RESPONDER \<Rightarrow> sk_iv_b2a keys)
              (seal_seq (mm_payload m)) = Inr (nonce m)
          \<and> aead_encrypt L cls (case ses_role s of INITIATOR \<Rightarrow> sk_key_a2b keys | RESPONDER \<Rightarrow> sk_key_b2a keys)
              (nonce m) p (mm_cid m) = Inr ct))
    \<and> inj_on nonce {m \<in> set ms. ciphertext_of (mm_payload m) \<noteq> None}"
proof -
  obtain M where "sealing L M s0" using reach_sealing [OF assms(1)] by blast
  from run_logged [OF assms(2) session_reach_wf [OF assms(1)] this] obtain ms where
    ms: "map (MakeMessage_dump L) ms = map Inr ders" "sealing L (M \<union> set ms) s" by blast
  let ?S = "seals_messages (M \<union> set ms)"
  have "\<exists>n. \<exists>keys. ses_session_keys s = Some keys \<and>
      nonce_for_seq (sending_iv (ses_role s) keys) (seal_seq (mm_payload m)) = Inr n \<and>
      sealed_under L (ses_role s) keys m n" if "m \<in> ?S" for m
    using that ms(2) unfolding sealing_def by blast
  then obtain nonce where nonce: "\<exists>keys. ses_session_keys s = Some keys \<and>
      nonce_for_seq (sending_iv (ses_role s) keys) (seal_seq (mm_payload m)) = Inr (nonce m) \<and>
      sealed_under L (ses_role s) keys m (nonce m)" if "m \<in> ?S" for m
    by metis
  have "inj_on nonce ?S"
  proof (rule inj_onI)
    fix m m' assume m: "m \<in> ?S" "m' \<in> ?S" "nonce m = nonce m'"
    then have "seal_seq (mm_payload m) = seal_seq (mm_payload m')"
      using nonce [OF m(1)] nonce [OF m(2)] nonce_for_seq_inj by fastforce
    with m(1,2) ms(2) show "m = m'" by (auto simp: sealing_def dest: inj_onD)
  qed
  then have "inj_on nonce {m \<in> set ms. ciphertext_of (mm_payload m) \<noteq> None}"
    by (rule inj_on_subset) (auto simp: seals_messages_def)
  with ms(1) nonce show ?thesis
    by (intro exI [of _ ms] exI [of _ nonce])
      (fastforce simp: sealed_under_def seals_messages_def sending_key_def sending_iv_def)
qed

end
