(* ===== verification/SessionWitness.thy ===== *)
theory SessionWitness
  imports Example NonceUse
begin

section \<open>The session theorems at a concrete exchange\<close>

text \<open>
  Two sessions over \<open>toy\<close>: the initiator \<open>toy_a0\<close> with nothing to send and the responder \<open>toy_b0\<close> with
  one payload waiting. \<open>toy_waiting\<close> is the initiator after \<open>initiate\<close>, \<open>toy_first\<close> the pair after the
  first flight, \<open>toy_completing\<close> the initiator that waits for the last PDU, \<open>toy_pair\<close> the
  established pair. Each theorem about sessions that has a hypothesis is applied at one of them.
\<close>

definition toy_kid :: "byte \<Rightarrow> key_id" where
  "toy_kid n = \<lparr>kid_hash_algorithm = \<lparr>alg_algorithm = ''sha256'', alg_parameters = None\<rparr>, kid_key_hash = [n]\<rparr>"

definition toy_private :: "key_id \<Rightarrow> mlkem_private" where
  "toy_private k = MlkemPrivate 768 (kid_key_hash k)"

definition toy_public :: "key_id \<Rightarrow> kem_public_key" where
  "toy_public k = \<lparr>pk_algorithm = kem_alg ''2.16.840.1.101.3.4.4.2'',
     pk_public_key = mlkem_public_bytes toy (toy_private k)\<rparr>"

definition toy_lookup :: key_lookup where
  "toy_lookup = \<lparr>kl_get_public_key = (\<lambda>k. Inr (toy_public k)), kl_get_private_key = (\<lambda>k. Inr (kid_key_hash k))\<rparr>"

definition toy_coins :: "byte \<Rightarrow> coins" where
  "toy_coins n = \<lparr>coin_uuid4 = replicate 16 n, coin_generate = [n], coin_encaps1 = [n], coin_encaps2 = [n],
     coin_urandom16 = replicate 16 n\<rparr>"

definition toy_a0 :: session where
  "toy_a0 = Session_init INITIATOR (Some (toy_kid 1)) None"

definition toy_b0 :: session where
  "toy_b0 = snd (post_payload [42] (Session_init RESPONDER None None))"

definition toy_waiting :: session where
  "toy_waiting = snd (initiate toy toy_lookup (toy_coins 1) (toy_kid 2) 0 toy_a0)"

definition toy_first :: "session \<times> session" where
  "toy_first = first_flight toy toy_lookup toy_lookup (toy_kid 2) (toy_coins 1) (toy_coins 2) of_nat (toy_a0, toy_b0)"

definition toy_completing :: session where
  "toy_completing = snd (update_session toy toy_lookup (toy_coins 3) 2 (fst toy_first))"

definition toy_pair :: "session \<times> session" where
  "toy_pair = handshake toy toy_lookup toy_lookup (toy_kid 2) (toy_coins 1, toy_coins 2, toy_coins 3) of_nat
     (toy_a0, toy_b0)"

subsection \<open>The exchange\<close>

lemma toy_key_pair: "key_pair toy (toy_private k) (toy_public k)"
  by (simp add: key_pair_def toy_key_works toy_public_def toy_private_def MLKEM_OIDS_def kem_alg_def)

lemma toy_kid_valid: "asn1_valid toy (key_id_value (toy_kid n))"
  by (simp add: key_id_value_def alg_value_def toy_kid_def toy_def)

lemma toy_holds: "holds_key toy 768 toy_lookup toy_lookup (toy_kid n) (toy_private (toy_kid n)) (toy_public (toy_kid n))"
  by (simp add: holds_key_def toy_key_pair toy_kid_valid toy_lookup_def) (simp add: toy_private_def)

lemma toy_fresh: "fresh_session 768 toy_a0" "fresh_session 768 toy_b0"
  by (auto simp: fresh_session_def toy_a0_def toy_b0_def post_payload_def Session_init_def SessionConfig_def
      AEAD_OIDS_def session_wf_def no_response_yet_def)

lemma toy_ready: "handshake_ready toy toy_lookup toy_lookup (toy_kid 1) (toy_kid 2) toy_a0 toy_b0"
  unfolding handshake_ready_def
  using toy_holds [of 1] toy_holds [of 2] toy_fresh
  by (fastforce simp: toy_a0_def toy_b0_def post_payload_def Session_init_def SessionConfig_def)

lemma toy_uuid: "length (coin_uuid4 (toy_coins n)) = 16"
  by (simp add: toy_coins_def)

lemma toy_reach0: "session_reach L K toy_a0" "session_reach L K toy_b0"
  using reach_init reach_step [OF reach_init step_post_payload] by (simp_all add: toy_a0_def toy_b0_def)

lemma toy_waiting_reach: "session_reach toy toy_lookup toy_waiting"
  unfolding toy_waiting_def by (rule reach_step [OF toy_reach0(1) step_initiate])

lemma toy_first_reach:
  "session_reach toy toy_lookup (fst toy_first)" "session_reach toy toy_lookup (snd toy_first)"
  unfolding toy_first_def using first_flight_reach [OF toy_reach0] by auto

lemma toy_completing_reach: "session_reach toy toy_lookup toy_completing"
  unfolding toy_completing_def by (rule reach_step [OF toy_first_reach(1) step_update])

lemma toy_waiting_facts:
  obtains out ct1 pka oids where
    "initiate toy toy_lookup (toy_coins 1) (toy_kid 2) 0 toy_a0 = (Inr (), toy_waiting)"
    "ses_outgoing_pdus toy_waiting = [out]" "ses_last_sent toy_waiting = Some out"
    "MakeMessage_load toy out = Inr \<lparr>mm_version = 0, mm_cid = replicate 16 1,
        mm_payload = Session_init_request \<lparr>sir_ct1 = ct1, sir_key_id_b = toy_kid 2, sir_pk_a_star = pka,
          sir_key_id_a = toy_kid 1, sir_acceptable_aeads = oids\<rparr>\<rparr>"
    "ses_role toy_waiting = INITIATOR" "ses_state toy_waiting = EXPECT_SESSION_INIT_RESPONSE"
    "ses_cid toy_waiting = Some (replicate 16 1)" "ses_last_received toy_waiting = None"
    "ses_incoming_queue toy_waiting = []" "ses_attempt_count toy_waiting = 0" "ses_deadline toy_waiting = Some 5"
    "ses_config toy_waiting = SessionConfig" "ses_outgoing_payloads toy_waiting = []"
proof -
  obtain ka pka s1 ct1 oids out where
      i: "initiate toy toy_lookup (toy_coins 1) (toy_kid 2) 0 toy_a0 = (Inr (), toy_a0\<lparr>
        ses_cid := Some (coin_uuid4 (toy_coins 1)),
        ses_peer_key_id := Some (toy_kid 2), ses_own_ephemeral_private := Some ka,
        ses_own_ephemeral_public := Some pka, ses_s1 := Some s1, ses_last_sent := Some out,
        ses_attempt_count := 0, ses_deadline := Some (0 + cfg_retry_interval_seconds (ses_config toy_a0)),
        ses_state := EXPECT_SESSION_INIT_RESPONSE, ses_outgoing_pdus := ses_outgoing_pdus toy_a0 @ [out]\<rparr>)"
      "MakeMessage_load toy out = Inr \<lparr>mm_version = 0, mm_cid = coin_uuid4 (toy_coins 1),
        mm_payload = Session_init_request \<lparr>sir_ct1 = ct1, sir_key_id_b = toy_kid 2, sir_pk_a_star = pka,
          sir_key_id_a = toy_kid 1, sir_acceptable_aeads = oids\<rparr>\<rparr>"
    by (rule initiate_works [OF toy_libs_work _ _ _ _ _ _ toy_key_pair [of "toy_kid 2"] toy_kid_valid toy_kid_valid,
        where a = toy_a0 and l = 768 and K = toy_lookup and c = "toy_coins 1" and now = 0])
      (auto simp: toy_a0_def Session_init_def SessionConfig_def AEAD_OIDS_def toy_lookup_def toy_uuid)
  have w: "toy_waiting = snd (initiate toy toy_lookup (toy_coins 1) (toy_kid 2) 0 toy_a0)"
    by (rule toy_waiting_def)
  note f = w [unfolded i(1) snd_conv]
  have u: "coin_uuid4 (toy_coins 1) = replicate 16 1" by (simp add: toy_coins_def)
  show thesis
  proof (rule that [of out ct1 pka oids])
    show "initiate toy toy_lookup (toy_coins 1) (toy_kid 2) 0 toy_a0 = (Inr (), toy_waiting)"
      unfolding w using i(1) by simp
    show "MakeMessage_load toy out = Inr \<lparr>mm_version = 0, mm_cid = replicate 16 1,
        mm_payload = Session_init_request \<lparr>sir_ct1 = ct1, sir_key_id_b = toy_kid 2, sir_pk_a_star = pka,
          sir_key_id_a = toy_kid 1, sir_acceptable_aeads = oids\<rparr>\<rparr>"
      using i(2) unfolding u .
  qed (simp_all add: f u, simp_all add: toy_a0_def Session_init_def SessionConfig_def)
qed

lemma toy_first_facts:
  obtains a out b where "toy_first = (post_pdu out a, b)"
    and "halfway toy toy_lookup (toy_kid 1) (replicate 16 1) a out b"
    and "ses_pending_payload a = None"
proof -
  have u: "coin_uuid4 (toy_coins 1) = replicate 16 1" by (simp add: toy_coins_def)
  obtain a out b where "first_flight toy toy_lookup toy_lookup (toy_kid 2) (toy_coins 1) (toy_coins 2) of_nat
        (toy_a0, toy_b0) = (post_pdu out a, b)"
      "halfway toy toy_lookup (toy_kid 1) (coin_uuid4 (toy_coins 1)) a out b"
      "ses_pending_payload a = ses_pending_payload toy_a0"
    by (rule first_flight_works [OF toy_libs_work toy_ready toy_uuid, where cb = "toy_coins 2" and t = of_nat])
  then show thesis
    by (intro that) (simp_all add: toy_first_def u toy_a0_def Session_init_def)
qed

lemma toy_responding_facts:
  "ses_role (snd toy_first) = RESPONDER" "ses_state (snd toy_first) = EXPECT_SESSION_COMPLETION_REQUEST"
  "ses_incoming_queue (snd toy_first) = []"
proof -
  obtain a out b where f: "toy_first = (post_pdu out a, b)"
      "halfway toy toy_lookup (toy_kid 1) (replicate 16 1) a out b"
    by (rule toy_first_facts)
  from f(2) show "ses_role (snd toy_first) = RESPONDER"
      "ses_state (snd toy_first) = EXPECT_SESSION_COMPLETION_REQUEST" "ses_incoming_queue (snd toy_first) = []"
    unfolding f(1) by (auto simp: halfway_def responder_halfway_def)
qed

lemma toy_completing_facts:
  obtains out resp where "MakeMessage_load toy out = Inr \<lparr>mm_version = 0, mm_cid = replicate 16 1,
      mm_payload = Session_init_response resp\<rparr>"
    and "ses_last_received toy_completing = Some out" "ses_role toy_completing = INITIATOR"
    and "ses_state toy_completing = EXPECT_SESSION_COMPLETION_RESPONSE"
    and "ses_cid toy_completing = Some (replicate 16 1)"
    and "ses_sent_plaintext_for_h_m toy_completing = Some []"
    and "ses_incoming_queue toy_completing = []" "ses_pending_payload toy_completing = None"
    and "\<exists>x. update_session toy toy_lookup (toy_coins 3) 2 (fst toy_first) = (Inr x, toy_completing)"
proof -
  obtain a out b where first: "toy_first = (post_pdu out a, b)"
    and half: "halfway toy toy_lookup (toy_kid 1) (replicate 16 1) a out b"
    and none: "ses_pending_payload a = None"
    by (rule toy_first_facts)
  obtain resp where m: "MakeMessage_load toy out = Inr \<lparr>mm_version = 0, mm_cid = replicate 16 1,
      mm_payload = Session_init_response resp\<rparr>"
    using half unfolding halfway_def by blast
  obtain a' out' where u: "update_session toy toy_lookup (toy_coins 3) 2 (post_pdu out a) =
      (Inr (update_outcome 2 (a'\<lparr>ses_outgoing_pdus := [out']\<rparr>)), a'\<lparr>ses_outgoing_pdus := [out']\<rparr>)"
      "closing toy (replicate 16 1) [] a' out' b" "ses_last_received a' = Some out"
    by (rule initiator_completes [OF toy_libs_work half, where plaintext = "[]"]) (use none in auto)
  have t: "toy_completing = a'\<lparr>ses_outgoing_pdus := [out']\<rparr>"
    by (simp add: toy_completing_def first u(1))
  have w: "\<exists>x. update_session toy toy_lookup (toy_coins 3) 2 (fst toy_first) = (Inr x, toy_completing)"
    by (simp add: t first u(1))
  show thesis
    by (rule that [OF m _ _ _ _ _ _ _ w])
      (use u(2,3) in \<open>auto simp: t closing_def initiator_closing_def\<close>)
qed

lemma toy_pair_peers: "peers toy (fst toy_pair) (snd toy_pair)"
  using handshake_peers [OF toy_libs_work toy_ready toy_uuid [of 1], of "toy_coins 2" "toy_coins 3" of_nat
      "fst toy_pair" "snd toy_pair"]
  by (simp add: toy_pair_def)

lemma run_calls:
  "session_run L K x a \<Longrightarrow> session_run L K x (snd (update_session L K c now a))"
  "session_run L K x a \<Longrightarrow> session_run L K x (snd (initiate L K c peer now a))"
  "session_run L K x a \<Longrightarrow> session_run L K x (fst (pass_pdu (a, b)))"
  "session_run L K x b \<Longrightarrow> session_run L K x (snd (pass_pdu (a, b)))"
proof -
  note step = rtranclp.rtrancl_into_rtrancl [of "session_step L K" x]
  show "session_run L K x a \<Longrightarrow> session_run L K x (snd (update_session L K c now a))"
      "session_run L K x a \<Longrightarrow> session_run L K x (snd (initiate L K c peer now a))"
    by (auto intro: step session_step.intros)
  show "session_run L K x (fst (pass_pdu (a, b)))" if "session_run L K x a"
    using step [OF that step_get_pdu] by (auto simp: pass_pdu_def split: prod.split sum.split)
  show "session_run L K x (snd (pass_pdu (a, b)))" if "session_run L K x b"
    using that step [OF that step_post_pdu] by (auto simp: pass_pdu_def split: prod.split sum.split)
qed

lemma toy_pair_run:
  "session_run toy toy_lookup toy_a0 (fst toy_pair)" "session_run toy toy_lookup toy_b0 (snd toy_pair)"
  unfolding toy_pair_def handshake_def first_flight_def second_flight_def Let_def split_beta fst_conv snd_conv prod.collapse
  by (intro run_calls rtranclp.rtrancl_refl)+




subsection \<open>Reachability and forward moves\<close>

theorem reachable_session_wf_witness:
  "session_wf toy_completing"
  by (rule reachable_session_wf [OF toy_completing_reach])

theorem session_moves_forward_witness:
  "ses_role (snd (update_session toy toy_lookup (toy_coins 3) 9 toy_waiting)) = ses_role toy_waiting
   \<and> (handshake_edge (ses_role toy_waiting))\<^sup>*\<^sup>* (ses_state toy_waiting)
       (ses_state (snd (update_session toy toy_lookup (toy_coins 3) 9 toy_waiting)))"
  using session_moves_forward [OF toy_waiting_reach
      disjI1 [OF r_into_rtranclp [of "session_step toy toy_lookup", OF step_update [of toy toy_lookup toy_waiting "toy_coins 3" 9]]]]
    step_update [of toy toy_lookup toy_waiting "toy_coins 3" 9]
  by (simp add: r_into_rtranclp)

theorem update_never_uses_unset_field_witness:
  "fst (update_session toy toy_lookup (toy_coins 3) 9 toy_waiting) \<noteq> Inl AttributeError"
proof (rule update_never_uses_unset_field [OF _ toy_waiting_reach])
  show "libs_raise_own toy toy_lookup"
    using toy_decode_value_error
    by (simp add: libs_raise_own_def no_attr_value_errors) (simp add: toy_def toy_lookup_def split: list.split)
qed

subsection \<open>Rejected, ignored and repeated PDUs\<close>

text \<open>The initiator's own request, sent back to it.\<close>

lemma toy_reflected:
  "process_incoming toy K c now (the (ses_last_sent toy_waiting)) toy_waiting = (Inl UnexpectedPDU, toy_waiting)"
proof -
  obtain out ct1 pka oids where f: "ses_last_sent toy_waiting = Some out"
    "MakeMessage_load toy out = Inr \<lparr>mm_version = 0, mm_cid = replicate 16 1,
        mm_payload = Session_init_request \<lparr>sir_ct1 = ct1, sir_key_id_b = toy_kid 2, sir_pk_a_star = pka,
          sir_key_id_a = toy_kid 1, sir_acceptable_aeads = oids\<rparr>\<rparr>"
    "ses_role toy_waiting = INITIATOR" "ses_state toy_waiting = EXPECT_SESSION_INIT_RESPONSE"
    "ses_cid toy_waiting = Some (replicate 16 1)" "ses_last_received toy_waiting = None"
    by (rule toy_waiting_facts)
  then show ?thesis using MakeMessage_loadD(4) [OF f(2)] by (simp add: process_incoming_def)
qed

theorem rejected_pdu_keeps_session_witness:
  "ses_state (snd (process_incoming toy toy_lookup (toy_coins 3) 1 (the (ses_last_sent toy_waiting)) toy_waiting))
     = ses_state toy_waiting
   \<and> ses_seq_b2a (snd (process_incoming toy toy_lookup (toy_coins 3) 1 (the (ses_last_sent toy_waiting)) toy_waiting))
     = ses_seq_b2a toy_waiting"
  using rejected_pdu_keeps_session [OF toy_reflected [of toy_lookup "toy_coins 3" 1]] by (simp add: toy_reflected)

theorem noise_is_ignored_witness:
  "process_incoming toy toy_lookup (toy_coins 3) 1 [] toy_waiting = (Inr (), toy_waiting)"
proof (rule noise_is_ignored [OF _ toy_decode_value_error])
  obtain out where "ses_last_received toy_waiting = None"
    by (rule toy_waiting_facts)
  then show "ses_last_received toy_waiting \<noteq> Some []" by simp
  show "ses_cid toy_waiting \<noteq> Some (mm_cid msg) \<and> \<not> (ses_state toy_waiting = INITIAL \<and> ses_role toy_waiting = RESPONDER)"
    if "MakeMessage_load toy [] = Inr msg" for msg
    using that by (simp add: MakeMessage_load_def) (simp add: toy_def toy_decode_def)
qed

text \<open>A completion response anyone can make: the hash of nothing.\<close>

definition toy_forged_message :: make_message where
  "toy_forged_message = \<lparr>mm_version = 0, mm_cid = replicate 16 1,
     mm_payload = Session_completion_response \<lparr>scp_h_m = sha256 toy [], scp_m = None\<rparr>\<rparr>"

definition toy_forged :: bytes where
  "toy_forged = der_encode toy (make_message_value toy_forged_message)"

lemma toy_forged_loads: "MakeMessage_load toy toy_forged = Inr toy_forged_message"
  by (rule MakeMessage_load_dump [OF toy_asn1_works])
    (simp_all add: toy_forged_message_def toy_forged_def MakeMessage_dump_def make_message_value_def
      session_completion_response_fields_def)

lemma toy_forged_new: "ses_last_received toy_completing \<noteq> Some toy_forged"
proof -
  obtain out resp where "MakeMessage_load toy out = Inr \<lparr>mm_version = 0, mm_cid = replicate 16 1,
      mm_payload = Session_init_response resp\<rparr>" "ses_last_received toy_completing = Some out"
    by (rule toy_completing_facts)
  then show ?thesis using toy_forged_loads by (auto simp: toy_forged_message_def)
qed

lemma toy_completing_state:
  "ses_role toy_completing = INITIATOR" "ses_state toy_completing = EXPECT_SESSION_COMPLETION_RESPONSE"
  "ses_cid toy_completing = Some (replicate 16 1)" "ses_sent_plaintext_for_h_m toy_completing = Some []"
  "ses_incoming_queue toy_completing = []" "ses_pending_payload toy_completing = None"
  "\<exists>x. update_session toy toy_lookup (toy_coins 3) 2 (fst toy_first) = (Inr x, toy_completing)"
  by (rule toy_completing_facts, assumption)+

lemma toy_forged_accepted:
  "process_incoming toy K c now toy_forged toy_completing = (Inr (), toy_completing\<lparr>
     ses_last_received := Some toy_forged, ses_last_sent := None, ses_state := ESTABLISHED, ses_deadline := None\<rparr>)"
  using process_expected(4) [OF toy_forged_loads toy_forged_new] toy_completing_state
  by (simp add: toy_forged_message_def handle_session_completion_response_def)

theorem empty_false_start_forgeable_witness:
  "process_incoming toy toy_lookup (toy_coins 4) 3 toy_forged toy_completing = (Inr (), toy_completing\<lparr>
     ses_last_received := Some toy_forged, ses_last_sent := None, ses_state := ESTABLISHED, ses_deadline := None\<rparr>)"
  by (rule empty_false_start_forgeable [OF session_reach_wf [OF toy_completing_reach] toy_completing_state(1,2,4,3)
      toy_forged_loads [unfolded toy_forged_message_def] toy_forged_new])

theorem handshake_pdu_idempotent_witness:
  "process_incoming toy toy_lookup (toy_coins 5) 4 toy_forged
     (snd (process_incoming toy toy_lookup (toy_coins 4) 3 toy_forged toy_completing)) =
   (Inr (), snd (process_incoming toy toy_lookup (toy_coins 4) 3 toy_forged toy_completing))"
  using handshake_pdu_idempotent [OF toy_forged_accepted [of toy_lookup "toy_coins 4" 3],
      of toy_lookup "toy_coins 5" 4]
  by (simp add: toy_forged_accepted toy_completing_state)

theorem established_only_if_authentic_witness:
  "\<exists>h_m m. mm_payload toy_forged_message = Session_completion_response \<lparr>scp_h_m = h_m, scp_m = m\<rparr>
     \<and> h_m = sha256 toy []"
proof -
  have "ses_state toy_completing \<noteq> ESTABLISHED" by (simp add: toy_completing_state)
  from established_only_if_authentic [OF toy_forged_accepted [of toy_lookup "toy_coins 4" 3] this]
  show ?thesis by (auto simp: toy_completing_state toy_forged_loads)
qed

subsection \<open>Deadlines and forks\<close>

theorem initiator_retries_then_drops_witness:
  "ses_outgoing_pdus (crank toy toy_lookup [(toy_coins 1, 5), (toy_coins 1, 10), (toy_coins 1, 17)] toy_waiting)
     = ses_outgoing_pdus toy_waiting @ [the (ses_last_sent toy_waiting), the (ses_last_sent toy_waiting)]
   \<and> ses_state (crank toy toy_lookup [(toy_coins 1, 5), (toy_coins 1, 10), (toy_coins 1, 17)] toy_waiting) = DROPPED"
proof -
  obtain out where f: "ses_role toy_waiting = INITIATOR" "ses_state toy_waiting = EXPECT_SESSION_INIT_RESPONSE"
    "ses_incoming_queue toy_waiting = []" "ses_attempt_count toy_waiting = 0" "ses_deadline toy_waiting = Some 5"
    "ses_config toy_waiting = SessionConfig"
    by (rule toy_waiting_facts)
  have "due (cfg_retry_interval_seconds (ses_config toy_waiting)) (the (ses_deadline toy_waiting))
      [(toy_coins 1, 5), (toy_coins 1, 10), (toy_coins 1, 17)]"
    by (simp add: f SessionConfig_def)
  from initiator_retries_then_drops [OF toy_waiting_reach f(1) disjI1 [OF f(2)] f(3,4) this]
  show ?thesis by (simp add: f SessionConfig_def numeral_2_eq_2)
qed

theorem responder_drops_at_deadline_witness:
  "update_session toy toy_lookup (toy_coins 9) (the (ses_deadline (snd toy_first))) (snd toy_first) =
     (Inr (SESSION_DROPPED, Infinity), (snd toy_first)\<lparr>ses_state := DROPPED\<rparr>)"
  by (rule responder_drops_at_deadline [OF toy_first_reach(2) toy_responding_facts order_refl])

theorem fork_is_exact_copy_witness:
  "fork toy toy_waiting =
     Inr (toy_waiting\<lparr>ses_incoming_queue := [], ses_outgoing_pdus := [], ses_outgoing_payloads := []\<rparr>)"
proof (rule fork_is_exact_copy [OF toy_mlkem_works toy_waiting_reach])
  show "ses_state toy_waiting = EXPECT_SESSION_INIT_RESPONSE" by (rule toy_waiting_facts)
qed

subsection \<open>The established pair\<close>

theorem handshake_establishes_peers_witness:
  "peers toy (fst toy_pair) (snd toy_pair) \<and> ses_outgoing_payloads (fst toy_pair) = [[42]]
   \<and> ses_seq_a2b (fst toy_pair) = 1 \<and> ses_seq_b2a (fst toy_pair) = 1"
  using handshake_establishes_peers [OF toy_libs_work toy_ready toy_uuid [of 1], of "toy_coins 2" "toy_coins 3"
      of_nat "fst toy_pair" "snd toy_pair"]
  by (simp add: toy_pair_def) (simp add: toy_a0_def toy_b0_def post_payload_def Session_init_def)

lemma toy_pair_facts:
  obtains keys where "ses_session_keys (fst toy_pair) = Some keys" "ses_session_keys (snd toy_pair) = Some keys"
    and "working_keys keys" "ses_cid (fst toy_pair) = Some (replicate 16 1)" "ses_cid (snd toy_pair) = Some (replicate 16 1)"
    and "talking toy (fst toy_pair)" "talking toy (snd toy_pair)"
    and "ses_role (fst toy_pair) \<noteq> ses_role (snd toy_pair)"
    and "ses_seq_a2b (fst toy_pair) = 1" "ses_seq_b2a (fst toy_pair) = 1"
    and "ses_seq_a2b (snd toy_pair) = 1" "ses_seq_b2a (snd toy_pair) = 1"
proof -
  have "coin_uuid4 (toy_coins 1) = replicate 16 1" by (simp add: toy_coins_def)
  then have "ses_cid (fst toy_pair) = Some (replicate 16 1)" "ses_seq_a2b (fst toy_pair) = 1"
      "ses_seq_b2a (fst toy_pair) = 1"
    using handshake_peers [OF toy_libs_work toy_ready toy_uuid [of 1], of "toy_coins 2" "toy_coins 3"
        of_nat "fst toy_pair" "snd toy_pair"]
    by (simp_all add: toy_pair_def) (simp add: toy_b0_def post_payload_def Session_init_def)
  moreover obtain keys where "ses_session_keys (fst toy_pair) = Some keys" "working_keys keys"
    using toy_pair_peers by (auto simp: peers_def split: option.splits)
  moreover note p = toy_pair_peers [unfolded peers_def]
  ultimately show thesis
    by (intro that [of keys]) (use p in simp_all)
qed

theorem conversation_delivered_witness:
  "ses_outgoing_payloads (snd (converse toy toy_lookup toy_lookup (toy_coins 4) 9
       [(True, [1]), (False, [2]), (True, [3])] toy_pair)) = ses_outgoing_payloads (snd toy_pair) @ [[1], [3]]"
proof -
  let ?ms = "[(True, [1]), (False, [2]), (True, [3])] :: (bool \<times> bytes) list"
  let ?r = "converse toy toy_lookup toy_lookup (toy_coins 4) 9 ?ms toy_pair"
  obtain keys where c: "ses_seq_a2b (fst toy_pair) = 1" "ses_seq_b2a (fst toy_pair) = 1"
      "ses_seq_a2b (snd toy_pair) = 1" "ses_seq_b2a (snd toy_pair) = 1"
    by (rule toy_pair_facts)
  have "outgoing_count (fst toy_pair) + int (length ?ms) \<le> 256 ^ 12"
      "outgoing_count (snd toy_pair) + int (length ?ms) \<le> 256 ^ 12"
    by (simp_all add: outgoing_count_def c)
  from conversation_delivered [OF toy_asn1_works toy_aead_works toy_pair_peers _ this, of toy_lookup toy_lookup
      "toy_coins 4" 9 "fst ?r" "snd ?r"]
  show ?thesis by simp
qed

lemma toy_wf_pair: "session_wf (fst toy_pair)" "ses_state (fst toy_pair) = ESTABLISHED"
    "session_wf (snd toy_pair)" "ses_state (snd toy_pair) = ESTABLISHED"
  using toy_pair_peers by (simp_all add: peers_def talking_def)

text \<open>The initiator with a payload to send, and what it sends.\<close>

definition toy_sender :: session where
  "toy_sender = (fst toy_pair)\<lparr>ses_pending_payload := Some [7]\<rparr>"

definition toy_sent :: session where
  "toy_sent = snd (send_established_payload toy toy_sender)"

lemma toy_sends:
  obtains keys key iv ct where "outgoing_protection toy_sender keys = (key, iv, 1)"
    and "outgoing_protection (fst toy_pair) keys = (key, iv, 1)"
    and "ses_session_keys toy_sender = Some keys" "working_keys keys" "session_wf toy_sender"
    and "ses_state toy_sender = ESTABLISHED" "length iv = 12"
    and "send_established_payload toy toy_sender = (Inr (), toy_sent)"
    and "toy_sent = (bump_outgoing_seq (toy_sender\<lparr>ses_pending_payload := None\<rparr>))
      \<lparr>ses_outgoing_pdus := ses_outgoing_pdus toy_sent\<rparr>"
    and "MakeMessage_load toy (last (ses_outgoing_pdus toy_sent)) = Inr \<lparr>mm_version = 0, mm_cid = replicate 16 1,
        mm_payload = Message \<lparr>msg_seq = 1, msg_m = ct\<rparr>\<rparr>"
    and "decrypt toy (sk_aead_name keys) key iv 1 ct (replicate 16 1) = Inr [7]"
proof -
  obtain keys where k: "ses_session_keys (fst toy_pair) = Some keys" "working_keys keys"
      "ses_cid (fst toy_pair) = Some (replicate 16 1)" "talking toy (fst toy_pair)"
      "ses_seq_a2b (fst toy_pair) = 1" "ses_seq_b2a (fst toy_pair) = 1"
    by (rule toy_pair_facts)
  obtain key iv n where p: "outgoing_protection toy_sender keys = (key, iv, n)"
    by (cases "outgoing_protection toy_sender keys")
  then have n: "n = 1" and p': "outgoing_protection (fst toy_pair) keys = (key, iv, n)"
    using k by (auto simp: outgoing_protection_def toy_sender_def split: if_splits)
  have wf: "session_wf toy_sender"
    using session_wf_post_payload [OF toy_wf_pair(1), of "[7]"] by (simp add: post_payload_def toy_sender_def)
  obtain ct out where s: "send_established_payload toy toy_sender = (Inr (),
        (bump_outgoing_seq (toy_sender\<lparr>ses_pending_payload := None\<rparr>))
        \<lparr>ses_outgoing_pdus := ses_outgoing_pdus toy_sender @ [out]\<rparr>)"
      "MakeMessage_load toy out = Inr \<lparr>mm_version = 0, mm_cid = replicate 16 1,
        mm_payload = Message \<lparr>msg_seq = n, msg_m = ct\<rparr>\<rparr>"
      "decrypt toy (sk_aead_name keys) key iv n ct (replicate 16 1) = Inr [7]"
    by (rule send_works [OF toy_asn1_works toy_aead_works wf _ _ k(2) _ p, where cid = "replicate 16 1" and p = "[7]"])
      (use k toy_wf_pair n in \<open>simp_all add: toy_sender_def\<close>)
  have ts: "toy_sent = (bump_outgoing_seq (toy_sender\<lparr>ses_pending_payload := None\<rparr>))
        \<lparr>ses_outgoing_pdus := ses_outgoing_pdus toy_sender @ [out]\<rparr>"
    by (simp add: toy_sent_def s(1))
  show thesis
  proof (rule that [of keys key iv ct])
    show "send_established_payload toy toy_sender = (Inr (), toy_sent)" using s(1) by (simp add: ts)
  qed (use p p' n k wf s outgoing_working [OF k(2) p] toy_wf_pair in \<open>simp_all add: ts, simp_all add: toy_sender_def\<close>)
qed



theorem replay_rejected_witness:
  "process_incoming toy toy_lookup (toy_coins 5) 9 (last (ses_outgoing_pdus toy_sent))
     (snd (process_incoming toy toy_lookup (toy_coins 4) 8 (last (ses_outgoing_pdus toy_sent)) (snd toy_pair))) =
   (Inl HandshakeFailed,
     snd (process_incoming toy toy_lookup (toy_coins 4) 8 (last (ses_outgoing_pdus toy_sent)) (snd toy_pair)))"
proof -
  let ?der = "last (ses_outgoing_pdus toy_sent)" and ?r = "snd toy_pair"
  obtain keys where k: "ses_session_keys (fst toy_pair) = Some keys" "ses_session_keys (snd toy_pair) = Some keys"
      "ses_cid ?r = Some (replicate 16 1)" "talking toy ?r" "ses_role (fst toy_pair) \<noteq> ses_role ?r"
      "ses_seq_a2b (fst toy_pair) = 1" "ses_seq_b2a (fst toy_pair) = 1"
      "ses_seq_a2b ?r = 1" "ses_seq_b2a ?r = 1"
    by (rule toy_pair_facts)
  obtain keys' key iv ct where s: "outgoing_protection (fst toy_pair) keys' = (key, iv, 1)"
      "ses_session_keys toy_sender = Some keys'"
      "MakeMessage_load toy ?der = Inr \<lparr>mm_version = 0, mm_cid = replicate 16 1,
        mm_payload = Message \<lparr>msg_seq = 1, msg_m = ct\<rparr>\<rparr>"
      "decrypt toy (sk_aead_name keys') key iv 1 ct (replicate 16 1) = Inr [7]"
    by (rule toy_sends)
  have same: "keys' = keys" using s(2) k(1) by (simp add: toy_sender_def)
  have inc: "incoming_protection ?r keys = (key, iv, 1)"
    using s(1) k(5-9) same by (cases "ses_role ?r"; cases "ses_role (fst toy_pair)")
      (auto simp: outgoing_protection_def incoming_protection_def)
  note ok = receive_process [OF k(4,2,3) inc s(3) s(4) [unfolded same], of toy_lookup "toy_coins 4" 8]
  have "ses_last_received ?r \<noteq> Some ?der"
    using k(4) s(3) by (auto simp: talking_def filters_handshake_def repeats_handshake_def)
  then show ?thesis
    using replay_rejected [OF ok toy_wf_pair(3) s(3) _ _ toy_wf_pair(4), of "\<lparr>msg_seq = 1, msg_m = ct\<rparr>" toy_lookup
        "toy_coins 5" 9] k(3) ok
    by simp
qed

theorem nonce_never_reused_witness:
  "\<exists>ders ms (nonce :: make_message \<Rightarrow> bytes). session_sends toy toy_lookup toy_a0 ders (fst toy_pair)
    \<and> map (MakeMessage_dump toy) ms = map Inr ders
    \<and> inj_on nonce {m \<in> set ms. ciphertext_of (mm_payload m) \<noteq> None}"
proof -
  obtain ders where d: "session_sends toy toy_lookup toy_a0 ders (fst toy_pair)"
    using session_run_sends [OF toy_pair_run(1)] by blast
  have "session_reach toy toy_lookup toy_a0" unfolding toy_a0_def by (rule reach_init)
  from nonce_never_reused [OF this d] d show ?thesis by blast
qed

subsection \<open>The wire format and the nonces\<close>

lemma toy_message_valid: "asn1_valid toy (make_message_value toy_forged_message)"
  by (simp add: toy_forged_message_def make_message_value_def session_completion_response_fields_def)

theorem message_loads_iff_dumped_witness:
  "MakeMessage_load toy toy_forged = Inr toy_forged_message"
  using message_loads_iff_dumped [OF toy_asn1_works toy_message_valid, of toy_forged]
  by (simp add: toy_forged_def MakeMessage_dump_def toy_forged_message_def CID_LEN_def)

theorem explicit_default_refused_witness:
  "\<exists>e. MakeMessage_load toy (der_encode toy (ASeq [AInt 0, AOctets (replicate 16 1),
     make_payload_value (mm_payload toy_forged_message)])) = Inl e"
proof -
  let ?p = "mm_payload toy_forged_message"
  have v: "asn1_valid toy (make_payload_value ?p)"
    using toy_message_valid by (simp add: make_message_value_def)
  then have "ber_decode toy (der_encode toy (ASeq [AInt 0, AOctets (replicate 16 1), make_payload_value ?p])) =
      Inr (ASeq [AInt 0, AOctets (replicate 16 1), make_payload_value ?p])"
    by (simp add: asn1_worksD [OF toy_asn1_works])
  from explicit_default_refused [OF this toy_asn1_works v] show ?thesis by blast
qed

theorem key_id_binds_key_witness:
  "\<exists>kid. KeyId_build toy (toy_public (toy_kid 1)) ''sha256'' = Inr kid
    \<and> hash_new toy ''sha256'' (KemPublicKey_dump toy (toy_public (toy_kid 1))) = Inr (kid_key_hash kid)"
proof -
  have v: "asn1_valid toy (kem_public_key_value (toy_public (toy_kid 1)))"
    by (rule wire_valid(2) [OF toy_oids toy_key_pair]) (simp add: toy_public_def kem_alg_def)
  obtain kid where k: "KeyId_build toy (toy_public (toy_kid 1)) ''sha256'' = Inr kid"
    by (simp add: KeyId_build_def toy_def)
  from key_id_binds_key [OF toy_asn1_works v v k k] k show ?thesis by auto
qed

theorem nonces_never_wrap_witness:
  "nonce_for_seq [1, 2] 65536 = Inl OverflowError"
  using nonces_never_wrap [of 65536 "[1, 2]"] by (auto split: sum.splits)

theorem crank_reports_output_witness:
  "update_session toy toy_lookup (toy_coins 3) 2 toy_waiting = (Inr (PDU_READY, Fin 5), toy_waiting)
   \<and> Fin 2 < Fin 5 \<and> \<not> poll_pdu (snd (get_pdu toy_waiting))"
proof -
  obtain out where w: "ses_outgoing_pdus toy_waiting = [out]" "ses_state toy_waiting = EXPECT_SESSION_INIT_RESPONSE"
      "ses_incoming_queue toy_waiting = []" "ses_deadline toy_waiting = Some 5"
      "ses_config toy_waiting = SessionConfig" "ses_outgoing_payloads toy_waiting = []"
    by (rule toy_waiting_facts) simp
  have u: "update_session toy toy_lookup (toy_coins 3) 2 toy_waiting = (Inr (PDU_READY, Fin 5), toy_waiting)"
    by (simp add: update_session_def timed_out_def update_outcome_def next_update_result_def poll_payload_def
        poll_pdu_def w)
  have "0 < cfg_retry_interval_seconds (ses_config toy_waiting)" by (simp add: w SessionConfig_def)
  from crank_reports_output [OF toy_waiting_reach this u] show ?thesis using u w(1) by simp
qed

end
