(* ===== verification/DispatcherWitness.thy ===== *)
theory DispatcherWitness
  imports DispatcherProps SessionWitness
begin

section \<open>The store and dispatcher theorems at concrete input\<close>

text \<open>
  A store with one candidate, and a dispatcher over \<open>toy\<close>: \<open>toy_d0\<close> is new, \<open>toy_d1\<close> has initiated with
  the coins of \<open>toy_waiting\<close>, \<open>toy_d2\<close> has been given the responder's answer. Each theorem about the
  store or the dispatcher that has a hypothesis is applied at one of them.
\<close>

subsection \<open>The candidate store\<close>

definition toy_store0 :: candidate_store where
  "toy_store0 = \<lparr>cs_max_per_cid = 3, cs_max_total = 1024, cs_ttl_seconds = 60, cs_by_cid = [], cs_total = 0\<rparr>"

definition toy_store :: candidate_store where
  "toy_store = snd (add [1] [10] [] 0 toy_store0)"

lemma toy_store_eq:
  "toy_store = \<lparr>cs_max_per_cid = 3, cs_max_total = 1024, cs_ttl_seconds = 60,
     cs_by_cid = [([1], [\<lparr>cand_cid = [1], cand_received_pdu = [10], cand_sent_pdu = [], cand_created_at = 0,
       cand_expires_at = 60, cand_attempt_count = 0\<rparr>])], cs_total = 1\<rparr>"
  by (simp add: toy_store_def toy_store0_def add_def expire_def setdefault_def candidates_for_def Let_def)

lemma toy_store_reach: "store_reach toy_store0" "store_reach toy_store"
proof -
  show 1: "store_reach toy_store0"
    by (rule store_init [where m = 3 and t = 1024 and ttl = 60]) (simp add: CandidateStore_init_def toy_store0_def)
  show "store_reach toy_store" unfolding toy_store_def by (rule store_add [OF 1])
qed

lemma toy_store_wf: "store_wf toy_store"
  by (simp add: toy_store_eq store_wf_def entry_ok_def)

theorem expire_is_filter_witness:
  "cs_by_cid (snd (expire 70 toy_store)) = [] \<and> fst (expire 70 toy_store) = 1"
proof -
  have "distinct (map fst (cs_by_cid toy_store))" by (simp add: toy_store_eq)
  from expire_is_filter [OF this, of 70] show ?thesis
    by (simp add: toy_store_eq prune_def live_def is_expired_def)
qed

theorem add_admits_iff_below_caps_witness:
  "candidates_for [2] (snd (add [2] [11] [] 1 toy_store)) =
     [\<lparr>cand_cid = [2], cand_received_pdu = [11], cand_sent_pdu = [], cand_created_at = 1,
       cand_expires_at = 61, cand_attempt_count = 0\<rparr>]"
proof -
  obtain r s' where a: "add [2] [11] [] 1 toy_store = (r, s')" by (cases "add [2] [11] [] 1 toy_store")
  from add_admits_iff_below_caps [OF toy_store_wf a] a show ?thesis
    by (cases r) (auto simp: toy_store_eq prune_def live_def is_expired_def candidates_for_def)
qed

theorem store_always_bounded_witness:
  "total_count toy_store = 1 \<and> total_count toy_store \<le> cs_max_total toy_store"
  using store_always_bounded [OF toy_store_reach(2)] by (simp add: toy_store_eq)

theorem match_or_none_exact_witness:
  "match_or_none [1] [11] toy_store = None"
  using match_or_none_exact [of "[1]" "[11]" toy_store] by (simp add: toy_store_eq candidates_for_def)

subsection \<open>A dispatcher that initiates\<close>

definition toy_d0 :: dispatcher where
  "toy_d0 = \<lparr>dsp_config = SessionConfig, dsp_candidates = toy_store0, dsp_established = [],
     dsp_responder_sessions = [], dsp_initiator_templates = [], dsp_initiator_forks = [],
     dsp_outgoing_pdus = [], dsp_outgoing_payloads = []\<rparr>"

definition toy_d1 :: dispatcher where
  "toy_d1 = snd (dispatcher_initiate toy toy_lookup (toy_coins 1) (toy_kid 1) (toy_kid 2) 0 toy_d0)"

definition toy_template :: session where
  "toy_template = toy_waiting\<lparr>ses_outgoing_pdus := []\<rparr>"

abbreviation toy_cid :: bytes where
  "toy_cid \<equiv> replicate 16 1"

lemma toy_d0_reach: "dispatcher_reach L K toy_d0"
  by (rule dreach_default [where config = None])
    (simp add: Dispatcher_init_def toy_d0_def CandidateStore_init_def toy_store0_def
      DEFAULT_MAX_CANDIDATES_PER_CID_def DEFAULT_MAX_TOTAL_CANDIDATES_def DEFAULT_CANDIDATE_TTL_SECONDS_def)

lemma toy_cid_fresh: "coin_uuid4 (toy_coins n) \<notin> keys (dsp_established toy_d0)"
  by (simp add: toy_d0_def keys_def)

lemma toy_d1_eq:
  "dispatcher_initiate toy toy_lookup (toy_coins 1) (toy_kid 1) (toy_kid 2) 0 toy_d0 = (Inr toy_cid, toy_d1)"
  "toy_d1 = toy_d0\<lparr>dsp_initiator_templates := [(toy_cid, toy_template)],
     dsp_initiator_forks := [(toy_cid, [])], dsp_outgoing_pdus := ses_outgoing_pdus toy_waiting\<rparr>"
proof -
  have i: "initiate toy toy_lookup (toy_coins 1) (toy_kid 2) 0
      (Session_init INITIATOR (Some (toy_kid 1)) (Some (dsp_config toy_d0))) = (Inr (), toy_waiting)"
  proof -
    have "Session_init INITIATOR (Some (toy_kid 1)) (Some (dsp_config toy_d0)) = toy_a0"
      by (simp add: toy_d0_def toy_a0_def Session_init_def)
    moreover have "initiate toy toy_lookup (toy_coins 1) (toy_kid 2) 0 toy_a0 = (Inr (), toy_waiting)"
      by (rule toy_waiting_facts)
    ultimately show ?thesis by simp
  qed
  obtain out where w: "ses_outgoing_pdus toy_waiting = [out]" "ses_cid toy_waiting = Some toy_cid"
    by (rule toy_waiting_facts)
  have "drain_pdus toy_waiting [] = (toy_template, [out])"
    by (simp add: drain_pdus_eq w toy_template_def)
  then have d: "dispatcher_initiate toy toy_lookup (toy_coins 1) (toy_kid 1) (toy_kid 2) 0 toy_d0 =
      (Inr toy_cid, toy_d0\<lparr>dsp_initiator_templates := [(toy_cid, toy_template)],
     dsp_initiator_forks := [(toy_cid, [])], dsp_outgoing_pdus := ses_outgoing_pdus toy_waiting\<rparr>)"
    unfolding dispatcher_initiate_def i by (simp add: w toy_d0_def)
  show "toy_d1 = toy_d0\<lparr>dsp_initiator_templates := [(toy_cid, toy_template)],
     dsp_initiator_forks := [(toy_cid, [])], dsp_outgoing_pdus := ses_outgoing_pdus toy_waiting\<rparr>"
    by (simp add: toy_d1_def d)
  with d show "dispatcher_initiate toy toy_lookup (toy_coins 1) (toy_kid 1) (toy_kid 2) 0 toy_d0 = (Inr toy_cid, toy_d1)"
    by simp
qed

lemma toy_d1_reach: "dispatcher_reach toy toy_lookup toy_d1"
  unfolding toy_d1_def by (rule dreach_step [OF toy_d0_reach dstep_initiate [OF toy_cid_fresh]])

theorem dispatcher_invariant_witness:
  "dispatcher_wf toy_d1 \<and> keys (dsp_initiator_templates toy_d1) = keys (dsp_initiator_forks toy_d1)"
  using dispatcher_invariant [OF toy_d1_reach] by blast

theorem responders_bounded_after_update_witness:
  "int (length (dsp_responder_sessions (snd (dispatcher_update toy toy_lookup (\<lambda>_ _ _. toy_coins 3) 1 toy_d1)))) \<le> 1024"
  using responders_bounded_after_update [OF toy_d1_reach, of "\<lambda>_ _ _. toy_coins 3" 1]
  by (simp add: toy_d1_eq toy_d0_def toy_store0_def)

theorem unanswered_initiation_dropped_by_update_witness:
  "toy_cid \<notin> keys (dsp_initiator_templates (snd (dispatcher_update toy toy_lookup (\<lambda>_ _ _. toy_coins 3) 1 toy_d1)))"
proof -
  have "candidates_for toy_cid (dsp_candidates toy_d0) = []"
    by (simp add: toy_d0_def toy_store0_def candidates_for_def)
  from unanswered_initiation_dropped_by_update [OF dispatcher_reach_wf [OF toy_d0_reach] toy_d1_eq(1) toy_cid_fresh this
      prod.collapse [symmetric]]
  show ?thesis by blast
qed

subsection \<open>PDUs for the initiation\<close>

abbreviation toy_request :: bytes where
  "toy_request \<equiv> the (ses_last_sent toy_waiting)"

lemma toy_request_loads:
  obtains msg req where "MakeMessage_load toy toy_request = Inr msg" "mm_cid msg = toy_cid"
    and "mm_payload msg = Session_init_request req" "sir_key_id_b req = toy_kid 2"
proof -
  obtain out ct1 pka oids where f: "ses_last_sent toy_waiting = Some out"
    "MakeMessage_load toy out = Inr \<lparr>mm_version = 0, mm_cid = toy_cid,
        mm_payload = Session_init_request \<lparr>sir_ct1 = ct1, sir_key_id_b = toy_kid 2, sir_pk_a_star = pka,
          sir_key_id_a = toy_kid 1, sir_acceptable_aeads = oids\<rparr>\<rparr>"
    by (rule toy_waiting_facts)
  show thesis
    by (rule that [of "\<lparr>mm_version = 0, mm_cid = toy_cid,
        mm_payload = Session_init_request \<lparr>sir_ct1 = ct1, sir_key_id_b = toy_kid 2, sir_pk_a_star = pka,
          sir_key_id_a = toy_kid 1, sir_acceptable_aeads = oids\<rparr>\<rparr>" "\<lparr>sir_ct1 = ct1, sir_key_id_b = toy_kid 2,
          sir_pk_a_star = pka, sir_key_id_a = toy_kid 1, sir_acceptable_aeads = oids\<rparr>"])
      (use f in simp_all)
qed

lemma toy_add: "\<exists>cand store. add toy_cid der [] now (dsp_candidates toy_d1) = (Inr cand, store)"
  by (simp add: toy_d1_eq toy_d0_def toy_store0_def add_def expire_def setdefault_def candidates_for_def Let_def)

theorem post_pdu_isolated_witness:
  "only_touches toy_cid toy_d1 (snd (dispatcher_post_pdu toy toy_lookup (\<lambda>_. toy_coins 3) toy_request 1 toy_d1))"
proof -
  obtain msg where m: "MakeMessage_load toy toy_request = Inr msg" "mm_cid msg = toy_cid"
    by (rule toy_request_loads)
  from post_pdu_isolated [OF toy_decode_value_error prod.collapse [symmetric], where der = toy_request
      and K = toy_lookup and cs = "\<lambda>_. toy_coins 3" and now = 1 and d = toy_d1] m
  show ?thesis by simp
qed

theorem response_tried_on_exact_copy_witness:
  "dsp_initiator_templates (snd (route_session_init_response toy toy_lookup (toy_coins 3) toy_cid [9] 1 toy_d1))
     = dsp_initiator_templates toy_d1"
proof -
  have f: "map_of (dsp_initiator_templates toy_d1) toy_cid = Some toy_template"
      "duplicate_at [9] (forks_of toy_cid toy_d1) = None"
    by (simp_all add: toy_d1_eq toy_d0_def forks_of_def)
  obtain cand store where "add toy_cid [9] [] 1 (dsp_candidates toy_d1) = (Inr cand, store)"
    using toy_add by blast
  from response_tried_on_exact_copy [OF toy_mlkem_works toy_d1_reach f this prod.collapse [symmetric] refl]
  show ?thesis by blast
qed

theorem rejected_request_ends_initiation_witness:
  "toy_cid \<notin> keys (dsp_initiator_templates (snd (dispatcher_update toy
     (toy_lookup\<lparr>kl_get_private_key := (\<lambda>_. Inl KeyNotFound)\<rparr>) (\<lambda>_ _ _. toy_coins 3) 2
     (snd (dispatcher_post_pdu toy (toy_lookup\<lparr>kl_get_private_key := (\<lambda>_. Inl KeyNotFound)\<rparr>)
        (\<lambda>_. toy_coins 3) toy_request 1 toy_d1)))))"
proof -
  let ?K = "toy_lookup\<lparr>kl_get_private_key := (\<lambda>_. Inl KeyNotFound)\<rparr>"
  obtain msg req where m: "MakeMessage_load toy toy_request = Inr msg" "mm_cid msg = toy_cid"
      "mm_payload msg = Session_init_request req"
    by (rule toy_request_loads)
  have e: "mm_cid msg \<notin> keys (dsp_established toy_d1)" "mm_cid msg \<notin> keys (dsp_responder_sessions toy_d1)"
    by (simp_all add: toy_d1_eq toy_d0_def keys_def)
  have k: "kl_get_private_key ?K (sir_key_id_b req) = Inl KeyNotFound" by simp
  obtain cand store where a: "add (mm_cid msg) toy_request [] 1 (dsp_candidates toy_d1) = (Inr cand, store)"
    using toy_add m(2) by metis
  from rejected_request_ends_initiation [OF dispatcher_reach_wf [OF toy_d1_reach] m(1,3) e k a
      prod.collapse [symmetric] prod.collapse [symmetric]] m(2)
  show ?thesis by simp
qed

subsection \<open>The response and the last PDU\<close>

definition toy_response :: bytes where
  "toy_response = hd (ses_incoming_queue (fst toy_first))"

definition toy_d2 :: dispatcher where
  "toy_d2 = snd (dispatcher_post_pdu toy toy_lookup (\<lambda>_. toy_coins 3) toy_response 2 toy_d1)"

lemma toy_first_template: "fst toy_first = post_pdu toy_response toy_template"
proof -
  obtain out where w: "ses_outgoing_pdus toy_waiting = [out]" "ses_incoming_queue toy_waiting = []"
    by (rule toy_waiting_facts)
  have p: "pass_pdu (toy_waiting, toy_b0) = (toy_template, post_pdu out toy_b0)"
    using pass_pdu_one [OF w(1)] by (simp add: toy_template_def)
  let ?b2 = "snd (update_session toy toy_lookup (toy_coins 2) 1 (post_pdu out toy_b0))"
  have f: "fst toy_first = snd (pass_pdu (?b2, toy_template))"
    unfolding toy_first_def first_flight_def by (simp add: toy_waiting_def [symmetric] p split_beta Let_def)
  have q: "ses_incoming_queue toy_template = []" by (simp add: toy_template_def w)
  obtain a out' b where h: "toy_first = (post_pdu out' a, b)" by (rule toy_first_facts)
  have "ses_incoming_queue (fst toy_first) \<noteq> []" unfolding h fst_conv by (simp add: post_pdu_def)
  then show ?thesis
    using q by (auto simp: f toy_response_def pass_pdu_def post_pdu_def split: prod.splits sum.splits)
qed

lemma toy_response_facts:
  obtains resp where "MakeMessage_load toy toy_response = Inr \<lparr>mm_version = 0, mm_cid = toy_cid,
      mm_payload = Session_init_response resp\<rparr>"
proof -
  obtain a out b where h: "toy_first = (post_pdu out a, b)"
      "halfway toy toy_lookup (toy_kid 1) toy_cid a out b"
    by (rule toy_first_facts)
  then have "toy_response = out"
    unfolding toy_response_def h(1) fst_conv by (auto simp: post_pdu_def halfway_def initiator_halfway_def)
  with h(2) show thesis using that by (auto simp: halfway_def)
qed

lemma toy_fork: "fork toy toy_template = Inr toy_template"
proof -
  obtain out where w: "ses_incoming_queue toy_waiting = []" "ses_outgoing_payloads toy_waiting = []"
      "ses_state toy_waiting = EXPECT_SESSION_INIT_RESPONSE" "ses_outgoing_pdus toy_waiting = [out]"
    by (rule toy_waiting_facts)
  have r: "session_reach toy toy_lookup toy_template"
    using reach_step [OF toy_waiting_reach step_get_pdu] by (simp add: get_pdu_def toy_template_def w)
  have st: "ses_state toy_template = EXPECT_SESSION_INIT_RESPONSE" by (simp add: toy_template_def w)
  have "fork toy toy_template =
      Inr (toy_template\<lparr>ses_incoming_queue := [], ses_outgoing_pdus := [], ses_outgoing_payloads := []\<rparr>)"
    by (rule fork_eq [OF session_reach_wf [OF r] seed_rebuilds_reach [OF toy_mlkem_works r] st])
  then show ?thesis by (simp add: toy_template_def w)
qed

lemma toy_deliver_response:
  "deliver toy toy_lookup (toy_coins 3) toy_template toy_response 2 toy_cid d =
    (Inr (), drained toy_completing, collected toy_completing toy_cid d)"
proof -
  obtain x where "update_session toy toy_lookup (toy_coins 3) 2 (post_pdu toy_response toy_template) = (Inr x, toy_completing)"
    using toy_completing_state(7) by (auto simp: toy_first_template)
  then show ?thesis by (simp add: deliver_def drain_eq)
qed

lemma toy_d2_forks:
  "dsp_initiator_forks toy_d2 = [(toy_cid, [drained toy_completing])]" "dsp_established toy_d2 = []"
  "dsp_responder_sessions toy_d2 = []"
  "dispatcher_post_pdu toy toy_lookup (\<lambda>_. toy_coins 3) toy_response 2 toy_d1 = (Inr (), toy_d2)"
proof -
  obtain resp where m: "MakeMessage_load toy toy_response = Inr \<lparr>mm_version = 0, mm_cid = toy_cid,
      mm_payload = Session_init_response resp\<rparr>"
    by (rule toy_response_facts)
  obtain cand store where a: "add toy_cid toy_response [] 2 (dsp_candidates toy_d1) = (Inr cand, store)"
    using toy_add by blast
  have p: "dispatcher_post_pdu toy toy_lookup (\<lambda>_. toy_coins 3) toy_response 2 toy_d1 =
      route_session_init_response toy toy_lookup (toy_coins 3) toy_cid toy_response 2 toy_d1"
    using MakeMessage_loadD(4) [OF m] by (simp add: dispatcher_post_pdu_def m toy_d1_eq toy_d0_def)
  then have d: "toy_d2 = snd (route_session_init_response toy toy_lookup (toy_coins 3) toy_cid toy_response 2 toy_d1)"
    by (simp add: toy_d2_def)
  have t: "map_of (dsp_initiator_templates toy_d1) toy_cid = Some toy_template" "forks_of toy_cid toy_d1 = []"
    "dsp_initiator_forks toy_d1 = [(toy_cid, [])]" "dsp_established toy_d1 = []" "dsp_responder_sessions toy_d1 = []"
    by (simp_all add: toy_d1_eq toy_d0_def forks_of_def)
  show "dsp_initiator_forks toy_d2 = [(toy_cid, [drained toy_completing])]" "dsp_established toy_d2 = []"
      "dsp_responder_sessions toy_d2 = []"
    by (simp_all add: d route_session_init_response_def t a toy_fork toy_deliver_response set_forks_def Let_def)
  have "fst (dispatcher_post_pdu toy toy_lookup (\<lambda>_. toy_coins 3) toy_response 2 toy_d1) = Inr ()"
    by (simp add: p route_session_init_response_def t a toy_fork toy_deliver_response Let_def)
  then show "dispatcher_post_pdu toy toy_lookup (\<lambda>_. toy_coins 3) toy_response 2 toy_d1 = (Inr (), toy_d2)"
    by (simp add: toy_d2_def prod_eq_iff)
qed

definition toy_d3 :: dispatcher where
  "toy_d3 = snd (dispatcher_post_pdu toy toy_lookup (\<lambda>_. toy_coins 3) toy_forged 3 toy_d2)"

lemma toy_forged_routed:
  "mm_cid toy_forged_message = toy_cid" "payload_name (mm_payload toy_forged_message) = ''session_completion_response''"
  "dispatcher_post_pdu toy toy_lookup (\<lambda>_. toy_coins 3) toy_forged 3 toy_d2 = (Inr (), toy_d3)"
  "toy_cid \<in> keys (dsp_established toy_d3)"
proof -
  let ?p = "dispatcher_post_pdu toy toy_lookup (\<lambda>_. toy_coins 3) toy_forged 3 toy_d2"
  let ?f = "drained toy_completing"
  show cid: "mm_cid toy_forged_message = toy_cid" "payload_name (mm_payload toy_forged_message) = ''session_completion_response''"
    by (simp_all add: toy_forged_message_def)
  have "?p = route_to_forks toy toy_lookup (\<lambda>_. toy_coins 3) toy_cid toy_forged 3 toy_d2"
    using MakeMessage_loadD(4) [OF toy_forged_loads]
    by (simp add: dispatcher_post_pdu_def toy_forged_loads cid toy_d2_forks keys_def)
  moreover have "\<exists>x f'. update_session toy toy_lookup (toy_coins 3) 3 (post_pdu toy_forged ?f) = (Inr x, f') \<and>
      ses_state f' = ESTABLISHED"
  proof -
    have "process_incoming toy toy_lookup (toy_coins 3) 3 toy_forged ?f = (Inr (), ?f\<lparr>
       ses_last_received := Some toy_forged, ses_last_sent := None, ses_state := ESTABLISHED, ses_deadline := None\<rparr>)"
      using process_expected(4) [OF toy_forged_loads, of ?f] toy_forged_new toy_completing_state
      by (simp add: drained_def toy_forged_message_def handle_session_completion_response_def)
    from update_posted [OF _ _ this] toy_completing_state show ?thesis
      by (simp add: drained_def timed_out_def)
  qed
  ultimately have "fst ?p = Inr ()" "toy_cid \<in> keys (dsp_established (snd ?p))"
    by (auto simp: route_to_forks_def forks_of_def toy_d2_forks set_forks_def drain_eq promote_session_def keys_def)
  then show "?p = (Inr (), toy_d3)" "toy_cid \<in> keys (dsp_established toy_d3)"
    by (simp_all add: toy_d3_def prod_eq_iff)
qed

theorem promotion_discards_siblings_witness: "toy_cid \<notin> keys (dsp_initiator_templates toy_d3)"
proof -
  have reach: "dispatcher_reach toy toy_lookup toy_d2"
    unfolding toy_d2_def by (rule dreach_step [OF toy_d1_reach dstep_post_pdu])
  have new: "mm_cid toy_forged_message \<notin> keys (dsp_established toy_d2)"
    by (simp add: toy_d2_forks keys_def)
  from promotion_discards_siblings [OF reach toy_forged_loads new toy_forged_routed(3)] toy_forged_routed
  show ?thesis by simp
qed

end
