(* ===== verification/ConversationWitness.thy ===== *)
theory ConversationWitness
  imports ForgedResponse DispatcherPhases DispatcherWitness
begin

section \<open>The two-dispatcher theorems at concrete input\<close>

text \<open>
  Two new dispatchers over \<open>toy\<close> run the handshake; the three calls from \<open>toy_d0\<close> to \<open>toy_d3\<close> are a run of
  the phase specification. For the forged responses: a genuine exchange gives
  the fork and the responder's last PDU, and a fork with another key stands before it.
\<close>

lemma toy_d0_room: "has_room cid toy_d0"
  by (simp add: has_room_def view_def toy_d0_def toy_store0_def candidates_for_def total_count_def
      store_wf_def)

lemma toy_new:
  "new_initiator (toy_kid 1) toy_d0 = toy_a0" "new_responder toy_d0 = Session_init RESPONDER None None"
  by (simp_all add: toy_d0_def toy_a0_def Session_init_def)

definition toy_responder :: "bytes option \<Rightarrow> session" where
  "toy_responder q = (Session_init RESPONDER None None)\<lparr>ses_pending_payload := q\<rparr>"

lemma toy_responder_ready:
  assumes "short_payload q"
  shows "handshake_ready toy toy_lookup toy_lookup (toy_kid 1) (toy_kid 2) toy_a0 (toy_responder q)"
proof -
  have "fresh_session 768 (toy_responder q)"
    using assms by (auto simp: fresh_session_def toy_responder_def Session_init_def SessionConfig_def short_payload_def
        AEAD_OIDS_def session_wf_def no_response_yet_def split: option.splits)
  then show ?thesis
    unfolding handshake_ready_def using toy_holds [of 1] toy_holds [of 2] toy_fresh(1)
    by (fastforce simp: toy_a0_def toy_responder_def Session_init_def SessionConfig_def)
qed

abbreviation toy_run :: "dispatcher \<times> dispatcher" where
  "toy_run \<equiv> dispatcher_handshake toy toy_lookup toy_lookup (toy_kid 1) (toy_kid 2) (\<lambda>n. toy_coins (of_nat n + 1)) of_nat
     (Some [7]) (Some [42]) (toy_d0, toy_d0)"

theorem dispatchers_establish_peers_witness:
  "(\<exists>a b. map_of (dsp_established (fst toy_run)) toy_cid = Some a \<and>
        map_of (dsp_established (snd toy_run)) toy_cid = Some b \<and> peers toy a b)
    \<and> dsp_outgoing_payloads (snd toy_run) = [(toy_cid, [7])] \<and> dsp_outgoing_payloads (fst toy_run) = [(toy_cid, [42])]"
proof -
  have r: "handshake_ready toy toy_lookup toy_lookup (toy_kid 1) (toy_kid 2) (new_initiator (toy_kid 1) toy_d0) (new_responder toy_d0)"
    using toy_responder_ready [of None] unfolding toy_new by (simp add: short_payload_def toy_responder_def Session_init_def)
  have u: "coin_uuid4 (toy_coins (of_nat 0 + 1)) = toy_cid" by (simp add: toy_coins_def)
  obtain A' B' where run: "toy_run = (A', B')" by fastforce
  from dispatchers_establish_peers [OF toy_libs_work r toy_uuid toy_d0_room toy_d0_room _ _ run]
  have "(\<exists>a b. view toy_cid A' = (Some a, None, None, None) \<and> view toy_cid B' = (Some b, None, None, None) \<and> peers toy a b)
      \<and> dsp_outgoing_payloads B' = [(toy_cid, [7])] \<and> dsp_outgoing_payloads A' = [(toy_cid, [42])]"
    unfolding u by (simp add: short_payload_def toy_d0_def)
  then show ?thesis unfolding run by (auto simp: view_def)
qed

text \<open>A genuine exchange up to the last PDU.\<close>

lemma toy_exchange:
  assumes "short_payload q"
  obtains a g out b where "template_ok toy_cid a" "fork_ok toy_cid g" "confirming toy toy_cid q g out b"
proof -
  have u: "coin_uuid4 (toy_coins 1) = toy_cid" by (simp add: toy_coins_def)
  obtain a out1 where i: "initiate toy toy_lookup (toy_coins 1) (toy_kid 2) 0 toy_a0 = (Inr (), a\<lparr>ses_outgoing_pdus := [out1]\<rparr>)"
      "offered toy toy_lookup toy_lookup (toy_kid 1) toy_cid a out1 (toy_responder q)"
    by (rule initiator_offers [OF toy_libs_work toy_responder_ready [OF assms] toy_uuid [of 1], where now = 0, unfolded u])
  obtain b1 out2 where r: "update_session toy toy_lookup (toy_coins 2) 1 (post_pdu out1 (toy_responder q)) =
      (Inr (update_outcome 1 (b1\<lparr>ses_outgoing_pdus := [out2]\<rparr>)), b1\<lparr>ses_outgoing_pdus := [out2]\<rparr>)"
      "halfway toy toy_lookup (toy_kid 1) toy_cid a out2 b1" "ses_pending_payload b1 = ses_pending_payload (toy_responder q)"
    by (rule responder_answers [OF toy_libs_work i(2)])
  obtain g out3 where c: "update_session toy toy_lookup (toy_coins 3) 2 (post_pdu out2 a) =
      (Inr (update_outcome 2 (g\<lparr>ses_outgoing_pdus := [out3]\<rparr>)), g\<lparr>ses_outgoing_pdus := [out3]\<rparr>)"
      "closing toy toy_cid (case ses_pending_payload a of None \<Rightarrow> [] | Some m \<Rightarrow> m) g out3 b1"
    by (rule initiator_completes [OF toy_libs_work r(2) refl])
  have a: "initiator_halfway toy toy_lookup (toy_kid 1) toy_cid ka s1 a \<Longrightarrow> ses_outgoing_pdus a = []" for ka s1
    by (simp add: initiator_halfway_def)
  have wa: "session_wf a"
  proof -
    have "session_wf (a\<lparr>ses_outgoing_pdus := [out1]\<rparr>)"
      using session_wf_initiate [OF session_wf_init, of toy toy_lookup "toy_coins 1" "toy_kid 2" 0 INITIATOR "Some (toy_kid 1)" None]
        i(1) by (simp add: toy_a0_def)
    from session_wf_queue(2) [OF this, of "[]"] have "session_wf (a\<lparr>ses_outgoing_pdus := []\<rparr>)" by simp
    moreover have "a\<lparr>ses_outgoing_pdus := []\<rparr> = a" using r(2) a by (auto simp: halfway_def)
    ultimately show ?thesis by simp
  qed
  have wb: "session_wf (toy_responder q)"
    using assms by (auto simp: toy_responder_def Session_init_def session_wf_def no_response_yet_def
        short_payload_def SessionConfig_def split: option.splits)
  have wb1: "session_wf b1"
    by (rule cranked_wf [OF wb r(1)]) (use r(2) in \<open>auto simp: halfway_def responder_halfway_def\<close>)
  have wg: "session_wf g"
    by (rule cranked_wf [OF wa c(1)]) (use c(2) in \<open>auto simp: closing_def initiator_closing_def\<close>)
  obtain b out where f: "confirming toy toy_cid (ses_pending_payload b1) g out b"
    by (rule responder_finishes [OF toy_libs_work c(2) wb1])
  have "template_ok toy_cid a"
    using r(2) wa by (auto simp: template_ok_def owned_def halfway_def initiator_halfway_def)
  moreover have "fork_ok toy_cid g"
    using c(2) wg by (auto simp: fork_ok_def owned_def closing_def initiator_closing_def)
  moreover have "ses_pending_payload b1 = q" using r(3) by (simp add: toy_responder_def)
  ultimately show thesis using that f by simp
qed

text \<open>The initiator's dispatcher while two responses race.\<close>

definition toy_race :: "session \<Rightarrow> session \<Rightarrow> session \<Rightarrow> dispatcher" where
  "toy_race a f g = toy_d0\<lparr>dsp_initiator_templates := [(toy_cid, a)], dsp_initiator_forks := [(toy_cid, [f, g])]\<rparr>"

lemma toy_race_wf:
  assumes "template_ok toy_cid a" "fork_ok toy_cid f" "fork_ok toy_cid g"
  shows "dispatcher_wf (toy_race a f g)"
  using assms by (auto simp: toy_race_def dispatcher_wf_def toy_d0_def toy_store0_def store_wf_def keys_def all_entries_def)

lemma toy_race_view: "view toy_cid (toy_race a f g) = (None, None, Some a, Some [f, g])"
  by (simp add: toy_race_def view_def toy_d0_def)

definition toy_rekeyed :: "session \<Rightarrow> session" where
  "toy_rekeyed g = g\<lparr>ses_session_keys := map_option (\<lambda>keys. keys\<lparr>sk_key_b2a := (hd (sk_key_b2a keys) + 1) # tl (sk_key_b2a keys)\<rparr>)
     (ses_session_keys g)\<rparr>"

lemma toy_wrong_key:
  assumes "decrypt toy name key iv i ct ad = Inr p" "sum_list key' \<noteq> sum_list key"
  shows "decrypt toy name key' iv i ct ad = Inl InvalidTag"
proof -
  obtain cls where c: "aead_cipher name = Inr cls" using assms(1) by (cases "aead_cipher name") (simp_all add: decrypt_def)
  obtain nonce where n: "nonce_for_seq iv i = Inr nonce"
    using assms(1) c by (cases "nonce_for_seq iv i") (simp_all add: decrypt_def)
  show ?thesis
    using assms by (cases ct) (auto simp: decrypt_def c n toy_def toy_tag_def split: if_splits)
qed

lemma toy_rekeyed_fails:
  assumes "confirming toy cid (Some p) g der b" "ses_session_keys (toy_rekeyed g) = Some kk"
    and "MakeMessage_load toy der = Inr msg" "mm_payload msg = Session_completion_response h" "scp_m h = Some ct"
  shows "decrypt toy (sk_aead_name kk) (sk_key_b2a kk) (sk_iv_b2a kk) 0 ct cid = Inl InvalidTag"
proof -
  from assms(1,3-5) obtain k where k: "ses_session_keys g = Some k" "working_keys k"
      "decrypt toy (sk_aead_name k) (sk_key_b2a k) (sk_iv_b2a k) 0 ct cid = Inr p"
    by (auto simp: confirming_def initiator_closing_def)
  then obtain x xs where x: "sk_key_b2a k = x # xs" by (cases "sk_key_b2a k") (auto simp: working_keys_def)
  have kk: "kk = k\<lparr>sk_key_b2a := (x + 1) # xs\<rparr>" using assms(2) k(1) x by (simp add: toy_rekeyed_def)
  show ?thesis
    unfolding kk using toy_wrong_key [OF k(3), of "(x + 1) # xs"] by (simp add: x)
qed

lemma toy_rekeyed_fork: "fork_ok cid g \<Longrightarrow> fork_ok cid (toy_rekeyed g)"
  by (auto simp: fork_ok_def owned_def toy_rekeyed_def session_wf_def awaits_defs cong: session_state.case_cong)

theorem reply_finds_genuine_fork_witness:
  "\<exists>a f g der b. dsp_outgoing_payloads (snd (dispatcher_post_pdu toy toy_lookup (\<lambda>_. toy_coins 3) der 4 (toy_race a f g)))
     = map (Pair toy_cid) (ses_outgoing_payloads g @ [[42]]) \<and> confirming toy toy_cid (Some [42]) g der b"
proof -
  obtain a g der b where x: "template_ok toy_cid a" "fork_ok toy_cid g" "confirming toy toy_cid (Some [42]) g der b"
    by (rule toy_exchange [of "Some [42]"]) (simp add: short_payload_def)
  let ?f = "toy_rekeyed g"
  have wf: "dispatcher_wf (toy_race a ?f g)" by (rule toy_race_wf [OF x(1) toy_rekeyed_fork [OF x(2)] x(2)])
  have v: "view toy_cid (toy_race a ?f g) = (None, None, Some a, Some ([?f] @ g # []))" by (simp add: toy_race_view)
  have "ses_state ?f \<noteq> ESTABLISHED" using x(3) by (auto simp: toy_rekeyed_def confirming_def initiator_closing_def)
  then have "\<forall>f \<in> set [?f]. ses_state f \<noteq> ESTABLISHED" by simp
  from reply_finds_genuine_fork [OF wf x(3) v this _ prod.collapse [symmetric], where K = toy_lookup and
      cs = "\<lambda>_. toy_coins 3" and now = 4] toy_rekeyed_fails [OF x(3)]
  have "dsp_outgoing_payloads (snd (dispatcher_post_pdu toy toy_lookup (\<lambda>_. toy_coins 3) der 4 (toy_race a ?f g)))
     = map (Pair toy_cid) (ses_outgoing_payloads g @ [[42]])"
    by (auto simp: toy_race_def toy_d0_def)
  with x(3) show ?thesis by blast
qed

theorem forged_fork_wins_without_reply_witness:
  "\<exists>a f g der b w. confirming toy toy_cid None g der b \<and> ses_session_keys f \<noteq> ses_session_keys g \<and>
     view toy_cid (snd (dispatcher_post_pdu toy toy_lookup (\<lambda>_. toy_coins 3) der 4 (toy_race a f g))) = (Some w, None, None, None) \<and>
     ses_session_keys w = ses_session_keys f \<and> \<not> peers toy w b"
proof -
  obtain a g der b where x: "template_ok toy_cid a" "fork_ok toy_cid g" "confirming toy toy_cid None g der b"
    by (rule toy_exchange [of None]) (simp add: short_payload_def)
  let ?f = "toy_rekeyed g"
  have wf: "dispatcher_wf (toy_race a ?f g)" by (rule toy_race_wf [OF x(1) toy_rekeyed_fork [OF x(2)] x(2)])
  have v: "view toy_cid (toy_race a ?f g) = (None, None, Some a, Some (?f # [g]))" by (simp add: toy_race_view)
  have f: "ses_state ?f = EXPECT_SESSION_COMPLETION_RESPONSE" "ses_last_received ?f \<noteq> Some der"
      "ses_pending_payload ?f = None" "ses_sent_plaintext_for_h_m ?f = ses_sent_plaintext_for_h_m g"
    using x(3) by (auto simp: toy_rekeyed_def confirming_def initiator_closing_def)
  have k: "ses_session_keys ?f \<noteq> ses_session_keys g"
  proof -
    obtain k where k: "ses_session_keys g = Some k" "working_keys k"
      using x(3) by (auto simp: confirming_def initiator_closing_def)
    then obtain y ys where y: "sk_key_b2a k = y # ys" by (cases "sk_key_b2a k") (auto simp: working_keys_def)
    have "sk_key_b2a (k\<lparr>sk_key_b2a := (y + 1) # ys\<rparr>) \<noteq> sk_key_b2a k" by (simp add: y)
    then have "k\<lparr>sk_key_b2a := (y + 1) # ys\<rparr> \<noteq> k" by metis
    then show ?thesis using k(1) by (simp add: toy_rekeyed_def y)
  qed
  from forged_fork_wins_without_reply [OF wf x(3) v _ f prod.collapse [symmetric], where K = toy_lookup and
      cs = "\<lambda>_. toy_coins 3" and now = 4] k x(3)
  show ?thesis by fastforce
qed

subsection \<open>A run of phases\<close>

lemma toy_d0_new: "Dispatcher_init None None = Inr toy_d0"
  by (simp add: Dispatcher_init_def toy_d0_def CandidateStore_init_def toy_store0_def
      DEFAULT_MAX_CANDIDATES_PER_CID_def DEFAULT_MAX_TOTAL_CANDIDATES_def DEFAULT_CANDIDATE_TTL_SECONDS_def)

abbreviation toy_events :: "event list" where
  "toy_events \<equiv> [Initiate toy_cid, Pdu toy_cid ''session_init_response'', Pdu toy_cid ''session_completion_response'']"

lemma toy_events_run: "run (dispatcher_event toy toy_lookup) toy_events toy_d0 toy_d3"
proof -
  have u: "coin_uuid4 (toy_coins 1) = toy_cid" by (simp add: toy_coins_def)
  have 1: "dispatcher_event toy toy_lookup (Initiate toy_cid) toy_d0 toy_d1"
    using event_initiate [OF toy_cid_fresh [of 1], of toy toy_lookup "toy_kid 1" "toy_kid 2" 0] unfolding u toy_d1_def .
  obtain resp where m: "MakeMessage_load toy toy_response = Inr \<lparr>mm_version = 0, mm_cid = toy_cid,
      mm_payload = Session_init_response resp\<rparr>"
    by (rule toy_response_facts)
  have 2: "dispatcher_event toy toy_lookup (Pdu toy_cid ''session_init_response'') toy_d1 toy_d2"
    using event_pdu [OF m, of toy_lookup toy_d1 "\<lambda>_. toy_coins 3" 2] by (simp add: toy_d2_def)
  have 3: "dispatcher_event toy toy_lookup (Pdu toy_cid ''session_completion_response'') toy_d2 toy_d3"
    using event_pdu [OF toy_forged_loads, of toy_lookup toy_d2 "\<lambda>_. toy_coins 3" 3] by (simp add: toy_d3_def toy_forged_message_def)
  from 1 2 3 show ?thesis by (blast intro: run.intros)
qed

theorem dispatcher_refines_phases_witness:
  "run (phase_step toy_cid) toy_events (Open False False False) Done \<and>
   run (phase_step [2]) toy_events (Open False False False) (phase_of [2] toy_d3)"
  using dispatcher_refines_phases [OF toy_d0_new toy_events_run] toy_forged_routed(4)
  by (metis phase_of_def)

theorem established_only_by_completion_witness:
  "subseq [Initiate toy_cid, Pdu toy_cid ''session_completion_response''] toy_events"
  using established_only_by_completion [OF toy_d0_new toy_events_run toy_forged_routed(4)] by simp

end
