(* ===== verification/LossyHandshake.thy ===== *)
theory LossyHandshake
  imports Handshake
begin

section \<open>The handshake over a network that loses PDUs\<close>

text \<open>
  The initiator resends its last PDU at each deadline, the responder answers a PDU it has already answered
  with the same bytes. Here the two are driven in rounds: the PDU of the initiator arrives or is lost, the
  responder is cranked, its answer arrives or is lost, the initiator is cranked. As long as each half of
  the handshake loses no more rounds than there are retries, and the responder does not reach its
  time to live, the handshake ends as if nothing had been lost.
\<close>

subsection \<open>Rounds\<close>

record round =
  rnd_coins :: "coins \<times> coins"
  rnd_now :: rat
  rnd_there :: bool
  rnd_back :: bool

text \<open>The next PDU of the first session arrives at the second, or is lost.\<close>

definition cross :: "bool \<Rightarrow> session \<times> session \<Rightarrow> session \<times> session" where
  "cross arrives = (\<lambda>(s, r). case get_pdu s of
     (Inl _, s') \<Rightarrow> (s', r) | (Inr der, s') \<Rightarrow> (s', if arrives then post_pdu der r else r))"

definition play_round :: "lib \<Rightarrow> key_lookup \<Rightarrow> key_lookup \<Rightarrow> round \<Rightarrow> session \<times> session \<Rightarrow> session \<times> session" where
  "play_round L KA KB x = (\<lambda>ab.
     let (a1, b1) = cross (rnd_there x) ab;
         b2 = snd (update_session L KB (snd (rnd_coins x)) (rnd_now x) b1);
         (b3, a2) = cross (rnd_back x) (b2, a1);
         a3 = snd (update_session L KA (fst (rnd_coins x)) (rnd_now x) a2)
     in (a3, b3))"

definition lossy_handshake :: "lib \<Rightarrow> key_lookup \<Rightarrow> key_lookup \<Rightarrow> key_id \<Rightarrow> coins \<Rightarrow> rat \<Rightarrow> round list \<Rightarrow>
    session \<times> session \<Rightarrow> session \<times> session" where
  "lossy_handshake L KA KB idB c t rs = (\<lambda>(a, b).
     fold (play_round L KA KB) rs (snd (initiate L KA c idB t a), b))"

abbreviation delivered :: "round \<Rightarrow> bool" where
  "delivered x \<equiv> rnd_there x \<and> rnd_back x"

text \<open>Each round is played when the initiator is due, counted from the last time it sent something.\<close>

fun paced :: "rat \<Rightarrow> rat \<Rightarrow> round list \<Rightarrow> bool" where
  "paced interval deadline [] \<longleftrightarrow> True"
| "paced interval deadline (x # xs) \<longleftrightarrow> deadline \<le> rnd_now x \<and> paced interval (rnd_now x + interval) xs"

text \<open>All rounds fall in a window that is shorter than the responder's time to live.\<close>

definition in_window :: "rat \<Rightarrow> rat \<Rightarrow> round list \<Rightarrow> bool" where
  "in_window start ttl xs \<longleftrightarrow> list_all (\<lambda>x. start \<le> rnd_now x \<and> rnd_now x < start + ttl) xs"

subsection \<open>One crank of each side\<close>

text \<open>An initiator that has sent \<open>out\<close> \<open>n\<close> times without an answer.\<close>

definition resending :: "int \<Rightarrow> rat \<Rightarrow> bytes \<Rightarrow> session \<Rightarrow> bool" where
  "resending n deadline out a \<longleftrightarrow> ses_last_sent a = Some out \<and> ses_attempt_count a = n \<and>
     ses_deadline a = Some deadline \<and> ses_role a = INITIATOR \<and> ses_incoming_queue a = [] \<and> ses_outgoing_pdus a = [] \<and>
     ses_state a \<in> {EXPECT_SESSION_INIT_RESPONSE, EXPECT_SESSION_COMPLETION_RESPONSE}"

definition retried :: "rat \<Rightarrow> session \<Rightarrow> session" where
  "retried now a = a\<lparr>ses_attempt_count := ses_attempt_count a + 1,
     ses_deadline := Some (now + cfg_retry_interval_seconds (ses_config a))\<rparr>"

lemma update_resends:
  assumes "resending n deadline out a" "n < cfg_max_retries (ses_config a)" "deadline \<le> now"
  shows "snd (update_session L K c now a) = (retried now a)\<lparr>ses_outgoing_pdus := [out]\<rparr>"
    and "resending (n + 1) (now + cfg_retry_interval_seconds (ses_config a)) out (retried now a)"
proof -
  have a: "ses_incoming_queue a = []" "ses_state a \<notin> {ESTABLISHED, INITIAL, DROPPED}" "ses_deadline a = Some deadline"
    using assms(1) by (auto simp: resending_def)
  show "snd (update_session L K c now a) = (retried now a)\<lparr>ses_outgoing_pdus := [out]\<rparr>"
    unfolding update_idle [OF a assms(3)] using assms(1,2) by (simp add: on_timeout_def resending_def retried_def Let_def)
  show "resending (n + 1) (now + cfg_retry_interval_seconds (ses_config a)) out (retried now a)"
    using assms(1) by (auto simp: resending_def retried_def)
qed

text \<open>A session that is not due and has nothing to do.\<close>

lemma update_rests:
  assumes "ses_incoming_queue b = []" "ses_state b \<noteq> DROPPED" "\<not> (ses_state b = ESTABLISHED \<and> ses_pending_payload b \<noteq> None)"
    and "\<not> timed_out now b"
  shows "snd (update_session L K c now b) = b"
  using assms by (auto simp: update_session_def Let_def)

text \<open>A PDU that was answered is answered again.\<close>

lemma update_repeats:
  assumes "answered out out' b" "ses_incoming_queue b = []" "ses_outgoing_pdus b = []" "ses_state b \<noteq> DROPPED"
    and "\<not> (ses_state b = ESTABLISHED \<and> ses_pending_payload b \<noteq> None)" "\<not> timed_out now b"
  shows "snd (update_session L K c now (post_pdu out b)) = b\<lparr>ses_outgoing_pdus := [out']\<rparr>"
proof -
  have "process_incoming L K c now out b = (Inr (), b\<lparr>ses_outgoing_pdus := [out']\<rparr>)"
    using assms(1,3) by (simp add: process_incoming_def answered_def)
  then have "update_session L K c now (post_pdu out b) =
      (Inr (update_outcome now (b\<lparr>ses_outgoing_pdus := [out']\<rparr>)), b\<lparr>ses_outgoing_pdus := [out']\<rparr>)"
    by (intro update_posted) (use assms(2,4-6) in \<open>auto simp: timed_out_def\<close>)
  then show ?thesis by simp
qed

lemma cross_one:
  assumes "ses_outgoing_pdus s = []"
  shows "cross arrives (s\<lparr>ses_outgoing_pdus := [out]\<rparr>, r) = (s, if arrives then post_pdu out r else r)"
  using assms by (simp add: cross_def get_pdu_def)

lemma cross_none:
  assumes "ses_outgoing_pdus s = []"
  shows "cross arrives (s, r) = (s, r)"
  using assms by (simp add: cross_def get_pdu_def)

subsection \<open>Losing rounds\<close>

text \<open>
  A responder that keeps answering \<open>out\<close>: it starts as \<open>b0\<close>, and once it has answered with \<open>out'\<close> it is
  in a state that satisfies \<open>done out'\<close>.
\<close>

definition ready :: "session \<Rightarrow> (bytes \<Rightarrow> session \<Rightarrow> bool) \<Rightarrow> session \<Rightarrow> bool" where
  "ready b0 done b \<longleftrightarrow> b = b0 \<or> (\<exists>out'. done out' b)"

definition keeps_answering :: "lib \<Rightarrow> key_lookup \<Rightarrow> rat \<Rightarrow> rat \<Rightarrow> bytes \<Rightarrow> session \<Rightarrow> (bytes \<Rightarrow> session \<Rightarrow> bool) \<Rightarrow> bool" where
  "keeps_answering L K start ttl out b0 done \<longleftrightarrow>
     (\<forall>b c now. ready b0 done b \<longrightarrow> start \<le> now \<longrightarrow> now < start + ttl \<longrightarrow>
        snd (update_session L K c now b) = b \<and> ses_outgoing_pdus b = [] \<and>
        (\<exists>b' out'. snd (update_session L K c now (post_pdu out b)) = b'\<lparr>ses_outgoing_pdus := [out']\<rparr> \<and>
           ses_outgoing_pdus b' = [] \<and> done out' b'))"

lemma keeps_answeringE:
  assumes "keeps_answering L K start ttl out b0 done" "ready b0 done b" "start \<le> now" "now < start + ttl"
  obtains b' out' where "snd (update_session L K c now b) = b" "ses_outgoing_pdus b = []"
    and "snd (update_session L K c now (post_pdu out b)) = b'\<lparr>ses_outgoing_pdus := [out']\<rparr>"
    and "ses_outgoing_pdus b' = []" "done out' b'"
  using assms unfolding keeps_answering_def by blast

lemma lost_round:
  assumes keeps: "keeps_answering L KB start ttl out b0 done" and b: "ready b0 done b"
    and x: "\<not> delivered x" "start \<le> rnd_now x" "rnd_now x < start + ttl"
    and a: "resending n deadline out a" "n < cfg_max_retries (ses_config a)" "deadline \<le> rnd_now x"
  shows "\<exists>b'. play_round L KA KB x (a\<lparr>ses_outgoing_pdus := [out]\<rparr>, b) =
      ((retried (rnd_now x) a)\<lparr>ses_outgoing_pdus := [out]\<rparr>, b') \<and> ready b0 done b'"
proof -
  obtain b' out' where b': "snd (update_session L KB (snd (rnd_coins x)) (rnd_now x) b) = b" "ses_outgoing_pdus b = []"
      "snd (update_session L KB (snd (rnd_coins x)) (rnd_now x) (post_pdu out b)) = b'\<lparr>ses_outgoing_pdus := [out']\<rparr>"
      "ses_outgoing_pdus b' = []" "done out' b'"
    by (rule keeps_answeringE [OF keeps b x(2,3)])
  have e: "ses_outgoing_pdus a = []" using a(1) by (simp add: resending_def)
  note up = update_resends(1) [OF a, of L KA "fst (rnd_coins x)"]
  note cr = cross_one [OF e] cross_one [OF b'(4)] cross_none [OF b'(2)]
  show ?thesis
  proof (cases "rnd_there x")
    case True
    then have "play_round L KA KB x (a\<lparr>ses_outgoing_pdus := [out]\<rparr>, b) =
        ((retried (rnd_now x) a)\<lparr>ses_outgoing_pdus := [out]\<rparr>, b')"
      using x(1) by (simp only: play_round_def cr b'(3) up Let_def prod.case simp_thms if_True if_False)
    then show ?thesis using b'(5) by (auto simp: ready_def)
  next
    case False
    then have "play_round L KA KB x (a\<lparr>ses_outgoing_pdus := [out]\<rparr>, b) =
        ((retried (rnd_now x) a)\<lparr>ses_outgoing_pdus := [out]\<rparr>, b)"
      by (simp only: play_round_def cr b'(1) up Let_def prod.case simp_thms if_True if_False)
    then show ?thesis using b by blast
  qed
qed

lemma lost_rounds:
  assumes keeps: "keeps_answering L KB start ttl out b0 done" and "ready b0 done b"
    and "list_all (\<lambda>x. \<not> delivered x) xs" "in_window start ttl xs"
    and "resending n deadline out a" "n + int (length xs) \<le> cfg_max_retries (ses_config a)"
    and "paced (cfg_retry_interval_seconds (ses_config a)) deadline (xs @ ys)"
  shows "\<exists>n' d' b'. fold (play_round L KA KB) xs (a\<lparr>ses_outgoing_pdus := [out]\<rparr>, b) =
      (a\<lparr>ses_attempt_count := n', ses_deadline := Some d', ses_outgoing_pdus := [out]\<rparr>, b') \<and>
    ready b0 done b' \<and> paced (cfg_retry_interval_seconds (ses_config a)) d' ys"
  using assms(2-)
proof (induction xs arbitrary: n deadline a b)
  case Nil
  have "a\<lparr>ses_attempt_count := n, ses_deadline := Some deadline, ses_outgoing_pdus := [out]\<rparr> =
      a\<lparr>ses_outgoing_pdus := [out]\<rparr>"
    using Nil.prems(4) by (simp add: resending_def)
  then show ?case
    using Nil.prems(1,6) by (intro exI [of _ n] exI [of _ deadline] exI [of _ b]) simp
next
  case (Cons x xs)
  have x: "\<not> delivered x" "start \<le> rnd_now x" "rnd_now x < start + ttl" "n < cfg_max_retries (ses_config a)"
      "deadline \<le> rnd_now x"
    using Cons.prems by (simp_all add: in_window_def)
  obtain b1 where b1: "play_round L KA KB x (a\<lparr>ses_outgoing_pdus := [out]\<rparr>, b) =
      ((retried (rnd_now x) a)\<lparr>ses_outgoing_pdus := [out]\<rparr>, b1)" "ready b0 done b1"
    using lost_round [OF keeps Cons.prems(1) x(1-3) Cons.prems(4) x(4,5)] by blast
  have c: "ses_config (retried (rnd_now x) a) = ses_config a" by (simp add: retried_def)
  note r = update_resends(2) [OF Cons.prems(4) x(4,5)]
  have "list_all (\<lambda>x. \<not> delivered x) xs" "in_window start ttl xs"
      "n + 1 + int (length xs) \<le> cfg_max_retries (ses_config (retried (rnd_now x) a))"
      "paced (cfg_retry_interval_seconds (ses_config (retried (rnd_now x) a)))
        (rnd_now x + cfg_retry_interval_seconds (ses_config a)) (xs @ ys)"
    using Cons.prems(2,3,5,6) by (simp_all add: c in_window_def)
  from Cons.IH [OF b1(2) this(1,2) r this(3,4)] obtain n' d' b' where "fold (play_round L KA KB) xs ((retried (rnd_now x) a)\<lparr>ses_outgoing_pdus := [out]\<rparr>, b1) =
      ((retried (rnd_now x) a)\<lparr>ses_attempt_count := n', ses_deadline := Some d', ses_outgoing_pdus := [out]\<rparr>, b')"
      "ready b0 done b'" "paced (cfg_retry_interval_seconds (ses_config a)) d' ys"
    unfolding c by blast
  then show ?case by (simp add: b1(1) retried_def) blast
qed

lemma delivered_round:
  assumes keeps: "keeps_answering L KB start ttl out b0 done" and b: "ready b0 done b"
    and x: "delivered x" "start \<le> rnd_now x" "rnd_now x < start + ttl" and e: "ses_outgoing_pdus a = []"
  obtains b' out' where "done out' b'"
    and "play_round L KA KB x (a\<lparr>ses_outgoing_pdus := [out]\<rparr>, b) =
      (snd (update_session L KA (fst (rnd_coins x)) (rnd_now x) (post_pdu out' a)), b')"
proof -
  obtain b' out' where b': "snd (update_session L KB (snd (rnd_coins x)) (rnd_now x) (post_pdu out b)) = b'\<lparr>ses_outgoing_pdus := [out']\<rparr>"
      "ses_outgoing_pdus b' = []" "done out' b'"
    by (rule keeps_answeringE [OF keeps b x(2,3)])
  have "play_round L KA KB x (a\<lparr>ses_outgoing_pdus := [out]\<rparr>, b) =
      (snd (update_session L KA (fst (rnd_coins x)) (rnd_now x) (post_pdu out' a)), b')"
    using x(1) by (simp only: play_round_def cross_one [OF e] cross_one [OF b'(2)] b'(1) Let_def prod.case simp_thms if_True)
  with b'(3) show thesis by (rule that)
qed

subsection \<open>The two halves of the handshake\<close>

definition has_answered_request :: "lib \<Rightarrow> key_lookup \<Rightarrow> key_id \<Rightarrow> bytes \<Rightarrow> session \<Rightarrow> bytes \<Rightarrow> rat \<Rightarrow> session \<Rightarrow> bytes \<Rightarrow> session \<Rightarrow> bool" where
  "has_answered_request L KA idA cid a out limit b0 out' b \<longleftrightarrow> halfway L KA idA cid a out' b \<and> answered out out' b \<and>
     session_wf b \<and> (case ses_deadline b of None \<Rightarrow> False | Some d \<Rightarrow> limit \<le> d) \<and>
     ses_outgoing_payloads b = ses_outgoing_payloads b0 \<and> ses_pending_payload b = ses_pending_payload b0"

definition has_confirmed :: "lib \<Rightarrow> bytes \<Rightarrow> bytes \<Rightarrow> session \<Rightarrow> bytes \<Rightarrow> session \<Rightarrow> bytes \<Rightarrow> session \<Rightarrow> bool" where
  "has_confirmed L cid plaintext a out b1 out' b \<longleftrightarrow> confirming L cid (ses_pending_payload b1) a out' b \<and>
     answered out out' b \<and>
     ses_outgoing_payloads b = ses_outgoing_payloads b1 @ (if plaintext = [] then [] else [plaintext])"

lemma answers_request:
  assumes libs: "libs_work L" and offer: "offered L KA KB idA cid a out b0" and ttl: "ttl = cfg_ttl_seconds (ses_config b0)"
  shows "keeps_answering L KB start ttl out b0 (has_answered_request L KA idA cid a out (start + ttl) b0)"
  unfolding keeps_answering_def
proof (intro allI impI)
  fix b c now
  assume r: "ready b0 (has_answered_request L KA idA cid a out (start + ttl) b0) b" and t: "start \<le> now" "now < start + ttl"
  let ?goal = "snd (update_session L KB c now b) = b \<and> ses_outgoing_pdus b = [] \<and>
    (\<exists>b' out'. snd (update_session L KB c now (post_pdu out b)) = b'\<lparr>ses_outgoing_pdus := [out']\<rparr> \<and>
       ses_outgoing_pdus b' = [] \<and> has_answered_request L KA idA cid a out (start + ttl) b0 out' b')"
  from r consider "b = b0" | out' where "has_answered_request L KA idA cid a out (start + ttl) b0 out' b"
    by (auto simp: ready_def)
  then show ?goal
  proof cases
    case 1
    have f: "ses_state b0 = INITIAL" "ses_incoming_queue b0 = []" "ses_outgoing_pdus b0 = []" "session_wf b0"
      using offer by (auto simp: offered_def fresh_session_def)
    obtain b' out' where u: "update_session L KB c now (post_pdu out b0) =
        (Inr (update_outcome now (b'\<lparr>ses_outgoing_pdus := [out']\<rparr>)), b'\<lparr>ses_outgoing_pdus := [out']\<rparr>)"
        "halfway L KA idA cid a out' b'"
        "ses_outgoing_payloads b' = ses_outgoing_payloads b0" "ses_pending_payload b' = ses_pending_payload b0"
        "answered out out' b'" "ses_deadline b' = Some (now + cfg_ttl_seconds (ses_config b0))"
      by (rule responder_answers [OF libs offer])
    have e: "ses_outgoing_pdus b' = []" using u(2) by (auto simp: halfway_def responder_halfway_def)
    have "session_wf b'" by (rule cranked_wf [OF f(4) u(1) e])
    then have "has_answered_request L KA idA cid a out (start + ttl) b0 out' b'"
      using u(2-6) t(1) ttl by (simp add: has_answered_request_def)
    moreover have "snd (update_session L KB c now b0) = b0" by (rule update_rests) (use f in \<open>simp_all add: timed_out_def\<close>)
    ultimately show ?thesis unfolding 1 using u(1) e f(3) by fastforce
  next
    case (2 out')
    have b: "ses_state b = EXPECT_SESSION_COMPLETION_REQUEST" "ses_incoming_queue b = []" "ses_outgoing_pdus b = []"
        "answered out out' b"
      using 2 by (auto simp: has_answered_request_def halfway_def responder_halfway_def)
    have n: "\<not> timed_out now b" using 2 t(2) by (auto simp: has_answered_request_def timed_out_def split: option.splits)
    have "snd (update_session L KB c now b) = b" by (rule update_rests) (use b n in simp_all)
    moreover have "snd (update_session L KB c now (post_pdu out b)) = b\<lparr>ses_outgoing_pdus := [out']\<rparr>"
      by (rule update_repeats [OF b(4,2,3)]) (use b n in simp_all)
    ultimately show ?thesis using 2 b(3) by blast
  qed
qed

lemma answers_completion:
  assumes libs: "libs_work L" and clo: "closing L cid plaintext a out b1" and wf: "session_wf b1"
    and deadline: "ses_deadline b1 = Some d" "start + ttl \<le> d"
  shows "keeps_answering L KB start ttl out b1 (has_confirmed L cid plaintext a out b1)"
  unfolding keeps_answering_def
proof (intro allI impI)
  fix b c now
  assume r: "ready b1 (has_confirmed L cid plaintext a out b1) b" and t: "start \<le> now" "now < start + ttl"
  let ?goal = "snd (update_session L KB c now b) = b \<and> ses_outgoing_pdus b = [] \<and>
    (\<exists>b' out'. snd (update_session L KB c now (post_pdu out b)) = b'\<lparr>ses_outgoing_pdus := [out']\<rparr> \<and>
       ses_outgoing_pdus b' = [] \<and> has_confirmed L cid plaintext a out b1 out' b')"
  from r consider "b = b1" | out' where "has_confirmed L cid plaintext a out b1 out' b"
    by (auto simp: ready_def)
  then show ?goal
  proof cases
    case 1
    have f: "ses_state b1 = EXPECT_SESSION_COMPLETION_REQUEST" "ses_incoming_queue b1 = []" "ses_outgoing_pdus b1 = []"
      using clo by (auto simp: closing_def responder_halfway_def)
    have n: "\<not> timed_out now b1" using deadline t(2) by (simp add: timed_out_def)
    obtain b' out' where u: "update_session L KB c now (post_pdu out b1) =
        (Inr (update_outcome now (b'\<lparr>ses_outgoing_pdus := [out']\<rparr>)), b'\<lparr>ses_outgoing_pdus := [out']\<rparr>)"
        "confirming L cid (ses_pending_payload b1) a out' b'"
        "ses_outgoing_payloads b' = ses_outgoing_payloads b1 @ (if plaintext = [] then [] else [plaintext])"
        "answered out out' b'"
      by (rule responder_finishes [OF libs clo wf])
    have e: "ses_outgoing_pdus b' = []" using u(2) by (auto simp: confirming_def talking_def)
    have "has_confirmed L cid plaintext a out b1 out' b'" using u(2-4) by (simp add: has_confirmed_def)
    moreover have "snd (update_session L KB c now b1) = b1" by (rule update_rests) (use f n in simp_all)
    ultimately show ?thesis unfolding 1 using u(1) e f(3) by fastforce
  next
    case (2 out')
    have b: "ses_state b = ESTABLISHED" "ses_incoming_queue b = []" "ses_outgoing_pdus b = []"
        "ses_pending_payload b = None" "answered out out' b"
      using 2 by (auto simp: has_confirmed_def confirming_def talking_def)
    have n: "\<not> timed_out now b" using b(1) by (simp add: timed_out_def)
    have "snd (update_session L KB c now b) = b" by (rule update_rests) (use b n in simp_all)
    moreover have "snd (update_session L KB c now (post_pdu out b)) = b\<lparr>ses_outgoing_pdus := [out']\<rparr>"
      by (rule update_repeats [OF b(5,2,3)]) (use b n in simp_all)
    ultimately show ?thesis using 2 b(3) by blast
  qed
qed

text \<open>Neither the number of attempts nor the deadline matters to the peer.\<close>

lemma retry_frame:
  "halfway L KA idA cid a out b \<Longrightarrow> halfway L KA idA cid (a\<lparr>ses_attempt_count := n, ses_deadline := d\<rparr>) out b"
  "confirming L cid reply a out b \<Longrightarrow> confirming L cid reply (a\<lparr>ses_attempt_count := n, ses_deadline := d\<rparr>) out b"
  by (simp_all add: halfway_def initiator_halfway_def confirming_def initiator_closing_def)

lemma cross_wf: "session_wf a \<Longrightarrow> session_wf b \<Longrightarrow> session_wf (fst (cross x (a, b))) \<and> session_wf (snd (cross x (a, b)))"
  using session_wf_get(1) [of a]
  by (auto simp: cross_def intro: session_wf_post_pdu split: prod.split sum.split)

lemma play_round_wf:
  assumes "session_wf a" "session_wf b" "play_round L KA KB x (a, b) = (a', b')"
  shows "session_wf a' \<and> session_wf b'"
proof -
  obtain a1 b1 where 1: "cross (rnd_there x) (a, b) = (a1, b1)" by fastforce
  let ?b2 = "snd (update_session L KB (snd (rnd_coins x)) (rnd_now x) b1)"
  obtain b3 a2 where 2: "cross (rnd_back x) (?b2, a1) = (b3, a2)" by fastforce
  have "session_wf a1" "session_wf ?b2"
    using cross_wf [OF assms(1,2), of "rnd_there x"] 1 by (simp_all add: session_wf_update)
  then show ?thesis
    using cross_wf [of ?b2 a1 "rnd_back x"] 2 assms(3) 1 session_wf_update
    by (auto simp: play_round_def)
qed

lemma rounds_wf:
  "session_wf a \<Longrightarrow> session_wf b \<Longrightarrow> fold (play_round L KA KB) xs (a, b) = (a', b') \<Longrightarrow> session_wf a' \<and> session_wf b'"
proof (induction xs arbitrary: a b)
  case (Cons x xs)
  obtain a1 b1 where 1: "play_round L KA KB x (a, b) = (a1, b1)" by fastforce
  with Cons.IH [of a1 b1] play_round_wf [OF Cons.prems(1,2) 1] Cons.prems(3) show ?case by simp
qed simp

text \<open>
  Rounds of which only the last is delivered: the responder has answered, the initiator takes its answer
  as it was when it first sent \<open>out\<close>, but for its attempts and its deadline.
\<close>

lemma rounds_until_delivered:
  assumes keeps: "keeps_answering L KB start ttl out b0 done"
    and lost: "list_all (\<lambda>x. \<not> delivered x) lost" and ok: "delivered ok"
    and window: "in_window start ttl (lost @ [ok])"
    and a: "resending 0 deadline out a" "int (length lost) \<le> cfg_max_retries (ses_config a)"
    and paced: "paced (cfg_retry_interval_seconds (ses_config a)) deadline (lost @ ok # rest)"
    and wf: "session_wf (a\<lparr>ses_outgoing_pdus := [out]\<rparr>)" "session_wf b0"
  obtains n d b' out' where "done out' b'"
    and "session_wf (a\<lparr>ses_attempt_count := n, ses_deadline := Some d\<rparr>)"
    and "paced (cfg_retry_interval_seconds (ses_config a)) (rnd_now ok + cfg_retry_interval_seconds (ses_config a)) rest"
    and "fold (play_round L KA KB) (lost @ [ok]) (a\<lparr>ses_outgoing_pdus := [out]\<rparr>, b0) =
      (snd (update_session L KA (fst (rnd_coins ok)) (rnd_now ok)
        (post_pdu out' (a\<lparr>ses_attempt_count := n, ses_deadline := Some d\<rparr>))), b')"
proof -
  have r: "ready b0 done b0" by (simp add: ready_def)
  have w: "in_window start ttl lost" and t: "start \<le> rnd_now ok" "rnd_now ok < start + ttl"
    using window by (simp_all add: in_window_def)
  obtain n d b1 where f: "fold (play_round L KA KB) lost (a\<lparr>ses_outgoing_pdus := [out]\<rparr>, b0) =
      (a\<lparr>ses_attempt_count := n, ses_deadline := Some d, ses_outgoing_pdus := [out]\<rparr>, b1)" "ready b0 done b1"
      "paced (cfg_retry_interval_seconds (ses_config a)) d (ok # rest)"
    using lost_rounds [OF keeps r lost w a(1) _ paced, where KA = KA] a(2) by (simp del: paced.simps) blast
  let ?a = "a\<lparr>ses_attempt_count := n, ses_deadline := Some d\<rparr>"
  have e: "ses_outgoing_pdus ?a = []" using a(1) by (simp add: resending_def)
  have "session_wf (?a\<lparr>ses_outgoing_pdus := [out]\<rparr>)"
    using rounds_wf [OF wf f(1)] by simp
  from session_wf_queue(2) [OF this, of "[]"] have "session_wf (?a\<lparr>ses_outgoing_pdus := []\<rparr>)" by simp
  moreover have "?a\<lparr>ses_outgoing_pdus := []\<rparr> = ?a" using e by simp
  ultimately have wa: "session_wf ?a" by simp
  obtain b' out' where "done out' b'"
      "play_round L KA KB ok (?a\<lparr>ses_outgoing_pdus := [out]\<rparr>, b1) =
        (snd (update_session L KA (fst (rnd_coins ok)) (rnd_now ok) (post_pdu out' ?a)), b')"
    by (rule delivered_round [OF keeps f(2) ok t e])
  then show thesis using that [of out' b' d n] wa f(1,3) by simp
qed

lemma closing_halfway:
  "closing L cid plaintext a out b \<Longrightarrow> ses_role a = INITIATOR \<and> ses_state a = EXPECT_SESSION_COMPLETION_RESPONSE \<and>
     ses_incoming_queue a = [] \<and> ses_outgoing_pdus a = []"
  by (auto simp: closing_def initiator_closing_def)

lemma first_half:
  assumes libs: "libs_work L" and offer: "offered L KA KB idA cid a out b0"
    and a: "awaiting t out a" "session_wf (a\<lparr>ses_outgoing_pdus := [out]\<rparr>)"
    and lost: "list_all (\<lambda>x. \<not> delivered x) lost" "delivered ok" "int (length lost) \<le> cfg_max_retries (ses_config a)"
    and window: "in_window start (cfg_ttl_seconds (ses_config b0)) (lost @ [ok])"
    and paced: "paced (cfg_retry_interval_seconds (ses_config a)) (t + cfg_retry_interval_seconds (ses_config a)) (lost @ ok # rest)"
  obtains a2 out2 b1 d where "fold (play_round L KA KB) (lost @ [ok]) (a\<lparr>ses_outgoing_pdus := [out]\<rparr>, b0) =
      (a2\<lparr>ses_outgoing_pdus := [out2]\<rparr>, b1)"
    and "closing L cid (case ses_pending_payload a of None \<Rightarrow> [] | Some p \<Rightarrow> p) a2 out2 b1"
    and "ses_outgoing_payloads a2 = ses_outgoing_payloads a" "ses_config a2 = ses_config a"
    and "awaiting (rnd_now ok) out2 a2" "session_wf (a2\<lparr>ses_outgoing_pdus := [out2]\<rparr>)"
    and "session_wf b1" "ses_deadline b1 = Some d" "start + cfg_ttl_seconds (ses_config b0) \<le> d"
    and "ses_outgoing_payloads b1 = ses_outgoing_payloads b0" "ses_pending_payload b1 = ses_pending_payload b0"
    and "paced (cfg_retry_interval_seconds (ses_config a)) (rnd_now ok + cfg_retry_interval_seconds (ses_config a)) rest"
proof -
  let ?limit = "start + cfg_ttl_seconds (ses_config b0)"
  have r: "resending 0 (t + cfg_retry_interval_seconds (ses_config a)) out a"
    using a(1) offer by (auto simp: resending_def awaiting_def offered_def initiator_halfway_def)
  have wf: "session_wf b0" using offer by (auto simp: offered_def fresh_session_def)
  obtain n d b1 out1 where h: "has_answered_request L KA idA cid a out ?limit b0 out1 b1"
      "session_wf (a\<lparr>ses_attempt_count := n, ses_deadline := Some d\<rparr>)"
      "paced (cfg_retry_interval_seconds (ses_config a)) (rnd_now ok + cfg_retry_interval_seconds (ses_config a)) rest"
      "fold (play_round L KA KB) (lost @ [ok]) (a\<lparr>ses_outgoing_pdus := [out]\<rparr>, b0) =
        (snd (update_session L KA (fst (rnd_coins ok)) (rnd_now ok)
          (post_pdu out1 (a\<lparr>ses_attempt_count := n, ses_deadline := Some d\<rparr>))), b1)"
    by (rule rounds_until_delivered [OF answers_request [OF libs offer refl] lost(1,2) window r lost(3) paced a(2) wf,
        where KA = KA])
  let ?a = "a\<lparr>ses_attempt_count := n, ses_deadline := Some d\<rparr>"
  have half: "halfway L KA idA cid ?a out1 b1"
    using h(1) retry_frame(1) by (simp add: has_answered_request_def)
  have plain: "(case ses_pending_payload a of None \<Rightarrow> [] | Some p \<Rightarrow> p) = (case ses_pending_payload ?a of None \<Rightarrow> [] | Some p \<Rightarrow> p)"
    by simp
  obtain a2 out2 where u: "update_session L KA (fst (rnd_coins ok)) (rnd_now ok) (post_pdu out1 ?a) =
      (Inr (update_outcome (rnd_now ok) (a2\<lparr>ses_outgoing_pdus := [out2]\<rparr>)), a2\<lparr>ses_outgoing_pdus := [out2]\<rparr>)"
      "closing L cid (case ses_pending_payload a of None \<Rightarrow> [] | Some p \<Rightarrow> p) a2 out2 b1"
      "ses_outgoing_payloads a2 = ses_outgoing_payloads ?a" "ses_config a2 = ses_config ?a" "awaiting (rnd_now ok) out2 a2"
    by (rule initiator_completes [OF libs half plain, where c = "fst (rnd_coins ok)" and now = "rnd_now ok"])
  have "session_wf (a2\<lparr>ses_outgoing_pdus := [out2]\<rparr>)"
    using session_wf_update [OF session_wf_post_pdu [OF h(2)], of L KA "fst (rnd_coins ok)" "rnd_now ok" out1] u(1) by simp
  with h u show thesis
    by (auto simp: has_answered_request_def intro: that split: option.splits)
qed

lemma second_half:
  assumes libs: "libs_work L" and clo: "closing L cid plaintext a out b1"
    and a: "awaiting t out a" "session_wf (a\<lparr>ses_outgoing_pdus := [out]\<rparr>)"
    and b: "session_wf b1" "ses_deadline b1 = Some d" "start + ttl \<le> d"
    and lost: "list_all (\<lambda>x. \<not> delivered x) lost" "delivered ok" "int (length lost) \<le> cfg_max_retries (ses_config a)"
    and window: "in_window start ttl (lost @ [ok])"
    and paced: "paced (cfg_retry_interval_seconds (ses_config a)) (t + cfg_retry_interval_seconds (ses_config a)) (lost @ [ok])"
  obtains a' b' where "fold (play_round L KA KB) (lost @ [ok]) (a\<lparr>ses_outgoing_pdus := [out]\<rparr>, b1) = (a', b')"
    and "peers L a' b'" "ses_cid a' = Some cid" "ses_seq_a2b a' = 1"
    and "ses_seq_b2a a' = (if ses_pending_payload b1 = None then 0 else 1)"
    and "ses_outgoing_payloads a' = ses_outgoing_payloads a @ (case ses_pending_payload b1 of None \<Rightarrow> [] | Some p \<Rightarrow> [p])"
    and "ses_outgoing_payloads b' = ses_outgoing_payloads b1 @ (if plaintext = [] then [] else [plaintext])"
proof -
  have r: "resending 0 (t + cfg_retry_interval_seconds (ses_config a)) out a"
    using a(1) closing_halfway [OF clo] by (auto simp: resending_def awaiting_def)
  obtain n d' b' out' where h: "has_confirmed L cid plaintext a out b1 out' b'"
      "session_wf (a\<lparr>ses_attempt_count := n, ses_deadline := Some d'\<rparr>)"
      "fold (play_round L KA KB) (lost @ [ok]) (a\<lparr>ses_outgoing_pdus := [out]\<rparr>, b1) =
        (snd (update_session L KA (fst (rnd_coins ok)) (rnd_now ok)
          (post_pdu out' (a\<lparr>ses_attempt_count := n, ses_deadline := Some d'\<rparr>))), b')"
    by (rule rounds_until_delivered [OF answers_completion [OF libs clo b] lost(1,2) window r lost(3) paced a(2) b(1),
        where KA = KA])
  let ?a = "a\<lparr>ses_attempt_count := n, ses_deadline := Some d'\<rparr>"
  have "confirming L cid (ses_pending_payload b1) ?a out' b'"
    using h(1) retry_frame(2) by (simp add: has_confirmed_def)
  then obtain a' where u: "update_session L KA (fst (rnd_coins ok)) (rnd_now ok) (post_pdu out' ?a) =
      (Inr (update_outcome (rnd_now ok) a'), a')"
      "peers L a' b'" "ses_cid a' = Some cid" "ses_seq_a2b a' = 1" "ses_seq_b2a a' = (if ses_pending_payload b1 = None then 0 else 1)"
      "ses_outgoing_payloads a' = ses_outgoing_payloads ?a @ (case ses_pending_payload b1 of None \<Rightarrow> [] | Some p \<Rightarrow> [p])"
    by (rule initiator_finishes [OF _ h(2), where c = "fst (rnd_coins ok)" and now = "rnd_now ok"])
  then show thesis using that [of a' b'] h(1,3) by (simp add: has_confirmed_def)
qed

text \<open>
  C1. The handshake works, also over a network that loses PDUs: two fresh sessions that hold each other's
  static keys and agree on a level and an algorithm, run over a working KEM, AEAD, KDF and codec, end as
  established peers (same session keys, same correlation id, counters in step), each with exactly the
  payload the other had waiting, if in each half of the handshake no more rounds than \<open>max_retries\<close> lose a
  PDU before one is delivered, the initiator is cranked at or after its deadlines, and all of it takes less
  than the responder's time to live. A round that loses nothing is the undisturbed handshake.
\<close>

theorem handshake_survives_loss:
  assumes "libs_work L" "handshake_ready L KA KB idA idB a b" "length (coin_uuid4 c) = 16"
    and "list_all (\<lambda>x. \<not> delivered x) (lost1 @ lost2)" "delivered ok1" "delivered ok2"
    and "int (length lost1) \<le> cfg_max_retries (ses_config a)" "int (length lost2) \<le> cfg_max_retries (ses_config a)"
    and "paced (cfg_retry_interval_seconds (ses_config a)) (t + cfg_retry_interval_seconds (ses_config a))
      (lost1 @ ok1 # lost2 @ [ok2])"
    and "in_window start (cfg_ttl_seconds (ses_config b)) (lost1 @ ok1 # lost2 @ [ok2])"
    and "lossy_handshake L KA KB idB c t (lost1 @ ok1 # lost2 @ [ok2]) (a, b) = (a', b')"
  shows "peers L a' b' \<and> ses_cid a' = Some (coin_uuid4 c)
    \<and> ses_outgoing_payloads b' = ses_outgoing_payloads b @
        (case ses_pending_payload a of None \<Rightarrow> [] | Some p \<Rightarrow> [p])
    \<and> ses_outgoing_payloads a' = ses_outgoing_payloads a @
        (case ses_pending_payload b of None \<Rightarrow> [] | Some p \<Rightarrow> [p])
    \<and> ses_seq_a2b a' = 1 \<and> ses_seq_b2a a' = (if ses_pending_payload b = None then 0 else 1)"
proof -
  let ?cid = "coin_uuid4 c" and ?plaintext = "case ses_pending_payload a of None \<Rightarrow> [] | Some p \<Rightarrow> p"
  have lost: "list_all (\<lambda>x. \<not> delivered x) lost1" "list_all (\<lambda>x. \<not> delivered x) lost2"
    using assms(4) by simp_all
  have window: "in_window start (cfg_ttl_seconds (ses_config b)) (lost1 @ [ok1])"
      "in_window start (cfg_ttl_seconds (ses_config b)) (lost2 @ [ok2])"
    using assms(10) by (simp_all add: in_window_def)
  have wa: "session_wf a" using assms(2) by (auto simp: handshake_ready_def fresh_session_def)
  obtain a1 out where i: "initiate L KA c idB t a = (Inr (), a1\<lparr>ses_outgoing_pdus := [out]\<rparr>)"
      "offered L KA KB idA ?cid a1 out b" "ses_outgoing_payloads a1 = ses_outgoing_payloads a"
      "ses_pending_payload a1 = ses_pending_payload a" "ses_config a1 = ses_config a" "awaiting t out a1"
    by (rule initiator_offers [OF assms(1-3)])
  have w1: "session_wf (a1\<lparr>ses_outgoing_pdus := [out]\<rparr>)"
    using session_wf_initiate [OF wa, of L KA c idB t] i(1) by simp
  obtain a2 out2 b1 d where h: "fold (play_round L KA KB) (lost1 @ [ok1]) (a1\<lparr>ses_outgoing_pdus := [out]\<rparr>, b) =
      (a2\<lparr>ses_outgoing_pdus := [out2]\<rparr>, b1)" "closing L ?cid ?plaintext a2 out2 b1"
      "ses_outgoing_payloads a2 = ses_outgoing_payloads a1" "ses_config a2 = ses_config a"
      "awaiting (rnd_now ok1) out2 a2" "session_wf (a2\<lparr>ses_outgoing_pdus := [out2]\<rparr>)"
      "session_wf b1" "ses_deadline b1 = Some d" "start + cfg_ttl_seconds (ses_config b) \<le> d"
      "ses_outgoing_payloads b1 = ses_outgoing_payloads b" "ses_pending_payload b1 = ses_pending_payload b"
      "paced (cfg_retry_interval_seconds (ses_config a)) (rnd_now ok1 + cfg_retry_interval_seconds (ses_config a)) (lost2 @ [ok2])"
    by (rule first_half [OF assms(1) i(2,6) w1 lost(1) assms(5) _ window(1), unfolded i(4,5), OF assms(7,9)])
  obtain a3 b3 where g: "fold (play_round L KA KB) (lost2 @ [ok2]) (a2\<lparr>ses_outgoing_pdus := [out2]\<rparr>, b1) = (a3, b3)"
      "peers L a3 b3" "ses_cid a3 = Some ?cid" "ses_seq_a2b a3 = 1"
      "ses_seq_b2a a3 = (if ses_pending_payload b1 = None then 0 else 1)"
      "ses_outgoing_payloads a3 = ses_outgoing_payloads a2 @ (case ses_pending_payload b1 of None \<Rightarrow> [] | Some p \<Rightarrow> [p])"
      "ses_outgoing_payloads b3 = ses_outgoing_payloads b1 @ (if ?plaintext = [] then [] else [?plaintext])"
    by (rule second_half [OF assms(1) h(2,5-9) lost(2) assms(6) _ window(2), unfolded h(4), OF assms(8) h(12)])
  have "(a', b') = (a3, b3)"
    using assms(11) h(1) g(1) i(1) by (simp add: lossy_handshake_def fold_append)
  moreover have "ses_pending_payload a \<noteq> Some []" using wa by (simp add: session_wf_def)
  ultimately show ?thesis
    using g(2-7) h(3,10,11) i(3) by (auto split: option.splits)
qed

end
