(* ===== verification/SecureChannel.thy ===== *)
theory SecureChannel
  imports Handshake
begin

section \<open>Established sessions over a network nobody trusts\<close>

text \<open>
  Two established peers and a network that does what it likes: it reads every PDU they send and gives each
  of them any bytes, any number of times and in any order. If it cannot forge a message, that is if a message
  that decrypts under the keys of the session carries a sequence number and a ciphertext the peer has sent,
  then what each side hands out is a prefix of what the other has said: nothing is invented, repeated,
  reordered or skipped, and only the end of the stream can be missing.
\<close>

subsection \<open>The network\<close>

text \<open>What one side does: it says something, or the network gives it some bytes.\<close>

datatype act = Say bytes | Get bytes

text \<open>The call and a crank; whatever the session has to send, the network takes.\<close>

definition perform :: "lib \<Rightarrow> key_lookup \<Rightarrow> coins \<Rightarrow> rat \<Rightarrow> act \<Rightarrow> session \<Rightarrow> session \<times> bytes list" where
  "perform L K c now x s =
     (let s' = snd (update_session L K c now (case x of Say p \<Rightarrow> snd (post_payload p s) | Get der \<Rightarrow> post_pdu der s))
      in (s'\<lparr>ses_outgoing_pdus := []\<rparr>, ses_outgoing_pdus s'))"

record channel =
  chn_a :: session
  chn_b :: session
  chn_from_a :: "bytes list"
  chn_from_b :: "bytes list"

text \<open>An event: whether the first side acts, what it does, its coins and the time.\<close>

type_synonym channel_event = "bool \<times> act \<times> coins \<times> rat"

fun channel_step :: "lib \<Rightarrow> key_lookup \<Rightarrow> key_lookup \<Rightarrow> channel_event \<Rightarrow> channel \<Rightarrow> channel" where
  "channel_step L KA KB (who, x, c, now) ch =
     (if who then
        (case perform L KA c now x (chn_a ch) of (a, pdus) \<Rightarrow> ch\<lparr>chn_a := a, chn_from_a := chn_from_a ch @ pdus\<rparr>)
      else
        (case perform L KB c now x (chn_b ch) of (b, pdus) \<Rightarrow> ch\<lparr>chn_b := b, chn_from_b := chn_from_b ch @ pdus\<rparr>))"

text \<open>What is said in a run.\<close>

fun spoken :: "bool \<Rightarrow> channel_event list \<Rightarrow> bytes list" where
  "spoken who [] = []"
| "spoken who ((w, Say p, _) # es) = (if w = who then p # spoken who es else spoken who es)"
| "spoken who ((_, Get _, _) # es) = spoken who es"

text \<open>
  No forgery: a message that opens under the receiver's keys, with the sequence number it carries, has
  been sent by the peer, number and ciphertext.
\<close>

definition carries :: "lib \<Rightarrow> bytes \<Rightarrow> message \<Rightarrow> bool" where
  "carries L der inner \<longleftrightarrow> (\<exists>msg. MakeMessage_load L der = Inr msg \<and> mm_payload msg = Message inner)"

definition opens :: "lib \<Rightarrow> session \<Rightarrow> message \<Rightarrow> bool" where
  "opens L r inner \<longleftrightarrow> (\<exists>keys key iv n cid p. ses_session_keys r = Some keys \<and> ses_cid r = Some cid \<and>
     incoming_protection r keys = (key, iv, n) \<and>
     decrypt L (sk_aead_name keys) key iv (msg_seq inner) (msg_m inner) cid = Inr p)"

definition genuine :: "lib \<Rightarrow> session \<Rightarrow> bytes list \<Rightarrow> act \<Rightarrow> bool" where
  "genuine L r from_peer x \<longleftrightarrow> (case x of Say _ \<Rightarrow> True
     | Get der \<Rightarrow> (\<forall>inner. carries L der inner \<longrightarrow> opens L r inner \<longrightarrow> (\<exists>sent \<in> set from_peer. carries L sent inner)))"

fun unforged :: "lib \<Rightarrow> key_lookup \<Rightarrow> key_lookup \<Rightarrow> channel_event list \<Rightarrow> channel \<Rightarrow> bool" where
  "unforged L KA KB [] ch \<longleftrightarrow> True"
| "unforged L KA KB ((who, x, c, now) # es) ch \<longleftrightarrow>
     (if who then genuine L (chn_a ch) (chn_from_b ch) x else genuine L (chn_b ch) (chn_from_a ch) x) \<and>
     unforged L KA KB es (channel_step L KA KB (who, x, c, now) ch)"

subsection \<open>What one act does to an established session\<close>

lemma get_cases:
  assumes "talking L s" "snd (update_session L K c now (post_pdu der s)) = s'"
  obtains (unchanged) "s' = s"
  | (repeated) sent where "ses_last_sent s = Some sent" "s' = s\<lparr>ses_outgoing_pdus := [sent]\<rparr>"
  | (accepted) inner keys key iv cid p where "carries L der inner" "ses_session_keys s = Some keys"
      "ses_cid s = Some cid" "incoming_protection s keys = (key, iv, msg_seq inner)"
      "decrypt L (sk_aead_name keys) key iv (msg_seq inner) (msg_m inner) cid = Inr p"
      "s' = (bump_incoming_seq s)\<lparr>ses_outgoing_payloads := ses_outgoing_payloads s @ [p]\<rparr>"
proof -
  have st: "ses_state s = ESTABLISHED" "ses_incoming_queue s = []" "ses_outgoing_pdus s = []" "ses_pending_payload s = None"
    using assms(1) by (simp_all add: talking_def)
  have q: "s\<lparr>ses_incoming_queue := []\<rparr> = s" using st(2) by simp
  obtain r s1 where p: "process_incoming L K c now der s = (r, s1)" by fastforce
  have out: "s' = s1" if "ses_state s1 = ESTABLISHED" "ses_pending_payload s1 = None"
    using assms(2) that st q p by (cases r) (auto simp: update_session_def post_pdu_def timed_out_def Let_def)
  have "s' = s \<or> (\<exists>sent. ses_last_sent s = Some sent \<and> s' = s\<lparr>ses_outgoing_pdus := [sent]\<rparr>) \<or>
    (\<exists>inner keys key iv cid p. carries L der inner \<and> ses_session_keys s = Some keys \<and> ses_cid s = Some cid \<and>
      incoming_protection s keys = (key, iv, msg_seq inner) \<and>
      decrypt L (sk_aead_name keys) key iv (msg_seq inner) (msg_m inner) cid = Inr p \<and>
      s' = (bump_incoming_seq s)\<lparr>ses_outgoing_payloads := ses_outgoing_payloads s @ [p]\<rparr>)"
    using p
  proof (cases rule: process_incoming_cases)
    case duplicate
    then show ?thesis using out st by (cases "ses_last_sent s") (auto simp: resend_def)
  next
    case (message msg inner)
    from message(6) show ?thesis
    proof (cases rule: handle_established_message_cases)
      case (success keys key iv cid plaintext)
      have "s' = s1" by (rule out) (use success(6) st in \<open>simp_all add: bump_incoming_seq_def\<close>)
      then show ?thesis using success message(2,3) by (auto simp: carries_def)
    qed (use out st in auto)
  qed (use out st in auto)
  then show thesis using unchanged repeated accepted by blast
qed

subsection \<open>One direction\<close>

text \<open>
  A sender \<open>s\<close> that has said \<open>ps\<close> since its counter was \<open>n\<close>, the PDUs \<open>out\<close> it has sent since, and a receiver
  \<open>r\<close> that has handed out a prefix of \<open>ps\<close> after \<open>old\<close>.
\<close>

definition said_in :: "lib \<Rightarrow> session_keys \<Rightarrow> bytes \<Rightarrow> bytes \<Rightarrow> bytes \<Rightarrow> int \<Rightarrow> bytes list \<Rightarrow> bytes \<Rightarrow> bool" where
  "said_in L keys cid key iv n ps der \<longleftrightarrow> (\<forall>inner. carries L der inner \<longrightarrow>
     (\<exists>j < length ps. msg_seq inner = n + int j \<and>
        decrypt L (sk_aead_name keys) key iv (msg_seq inner) (msg_m inner) cid = Inr (ps ! j)))"

definition direction :: "lib \<Rightarrow> session_keys \<Rightarrow> bytes \<Rightarrow> bytes \<Rightarrow> bytes \<Rightarrow> int \<Rightarrow> bytes list \<Rightarrow>
    session \<Rightarrow> bytes list \<Rightarrow> session \<Rightarrow> bytes list \<Rightarrow> bool" where
  "direction L keys cid key iv n old s out r ps \<longleftrightarrow>
     talking L s \<and> talking L r \<and> ses_session_keys s = Some keys \<and> ses_session_keys r = Some keys \<and>
     ses_cid s = Some cid \<and> ses_cid r = Some cid \<and> working_keys keys \<and>
     outgoing_protection s keys = (key, iv, n + int (length ps)) \<and>
     list_all (said_in L keys cid key iv n ps) out \<and>
     (\<exists>k \<le> length ps. incoming_protection r keys = (key, iv, n + int k) \<and> ses_outgoing_payloads r = old @ take k ps)"

lemma said_in_more:
  assumes "said_in L keys cid key iv n ps der"
  shows "said_in L keys cid key iv n (ps @ [p]) der"
  unfolding said_in_def
proof (intro allI impI)
  fix inner
  assume "carries L der inner"
  then obtain j where "j < length ps" "msg_seq inner = n + int j"
      "decrypt L (sk_aead_name keys) key iv (msg_seq inner) (msg_m inner) cid = Inr (ps ! j)"
    using assms by (auto simp: said_in_def)
  then show "\<exists>j < length (ps @ [p]). msg_seq inner = n + int j \<and>
      decrypt L (sk_aead_name keys) key iv (msg_seq inner) (msg_m inner) cid = Inr ((ps @ [p]) ! j)"
    by (intro exI [of _ j]) (simp add: nth_append)
qed

text \<open>The other direction does not matter to a session's own keys and counters.\<close>

lemma bump_frames [simp]:
  "outgoing_protection (bump_incoming_seq s) keys = outgoing_protection s keys"
  "incoming_protection (bump_outgoing_seq s) keys = incoming_protection s keys"
  "outgoing_protection (s\<lparr>ses_outgoing_payloads := ps\<rparr>) keys = outgoing_protection s keys"
  "incoming_protection (s\<lparr>ses_outgoing_payloads := ps\<rparr>) keys = incoming_protection s keys"
  "outgoing_protection (s\<lparr>ses_outgoing_pdus := qs\<rparr>) keys = outgoing_protection s keys"
  "incoming_protection (s\<lparr>ses_outgoing_pdus := qs\<rparr>) keys = incoming_protection s keys"
  "ses_session_keys (bump_incoming_seq s) = ses_session_keys s" "ses_session_keys (bump_outgoing_seq s) = ses_session_keys s"
  "ses_cid (bump_incoming_seq s) = ses_cid s" "ses_cid (bump_outgoing_seq s) = ses_cid s"
  "ses_last_sent (bump_incoming_seq s) = ses_last_sent s" "ses_last_sent (bump_outgoing_seq s) = ses_last_sent s"
  by (auto simp: outgoing_protection_def incoming_protection_def bump_incoming_seq_def bump_outgoing_seq_def)

lemma bump_protection:
  "outgoing_protection s keys = (key, iv, i) \<Longrightarrow> outgoing_protection (bump_outgoing_seq s) keys = (key, iv, i + 1)"
  "incoming_protection s keys = (key, iv, i) \<Longrightarrow> incoming_protection (bump_incoming_seq s) keys = (key, iv, i + 1)"
  by (auto simp: outgoing_protection_def incoming_protection_def bump_incoming_seq_def bump_outgoing_seq_def split: if_splits)

lemma talking_emptied: "talking L s \<Longrightarrow> s\<lparr>ses_outgoing_pdus := []\<rparr> = s"
  by (simp add: talking_def)

text \<open>A session that was given some bytes: what it sends, and what becomes of it.\<close>

lemma perform_get:
  assumes "talking L s" "perform L K c now (Get der) s = (s', qs)"
  obtains (same) "s' = s" "qs = [] \<or> (\<exists>b. ses_last_sent s = Some b \<and> qs = [b])"
  | (accepted) inner keys key iv cid p where "carries L der inner" "ses_session_keys s = Some keys"
      "ses_cid s = Some cid" "incoming_protection s keys = (key, iv, msg_seq inner)"
      "decrypt L (sk_aead_name keys) key iv (msg_seq inner) (msg_m inner) cid = Inr p" "qs = []"
      "s' = (bump_incoming_seq s)\<lparr>ses_outgoing_payloads := ses_outgoing_payloads s @ [p]\<rparr>"
proof -
  have e: "ses_outgoing_pdus s = []" using assms(1) by (simp add: talking_def)
  define t where "t = snd (update_session L K c now (post_pdu der s))"
  have s': "s' = t\<lparr>ses_outgoing_pdus := []\<rparr>" "qs = ses_outgoing_pdus t"
    using assms(2) by (simp_all add: perform_def t_def Let_def)
  from assms(1) t_def [symmetric] show thesis
  proof (cases rule: get_cases)
    case unchanged
    then show ?thesis using same s' e by simp
  next
    case (repeated sent)
    then show ?thesis using same s' e by simp
  next
    case (accepted inner keys key iv cid p)
    have "ses_outgoing_pdus t = []" using accepted(6) e by (simp add: bump_incoming_seq_def)
    moreover from this have "t\<lparr>ses_outgoing_pdus := []\<rparr> = t" by simp
    ultimately show ?thesis using that(2) [OF accepted(1-5)] s' accepted(6) by simp
  qed
qed

lemma perform_say:
  assumes libs: "asn1_works L" "aead_works L" and s: "talking L s" "ses_session_keys s = Some keys" "working_keys keys"
      "ses_cid s = Some cid" "outgoing_protection s keys = (key, iv, i)" "i < 256 ^ 12"
    and p: "p \<noteq> []" "length p < 2 ^ 31" and run: "perform L K c now (Say p) s = (s', qs)"
  obtains ct out where "s' = bump_outgoing_seq s" "qs = [out]"
    and "MakeMessage_load L out = Inr \<lparr>mm_version = 0, mm_cid = cid, mm_payload = Message \<lparr>msg_seq = i, msg_m = ct\<rparr>\<rparr>"
    and "decrypt L (sk_aead_name keys) key iv i ct cid = Inr p"
proof -
  obtain ct out where m: "\<And>K c now. update_session L K c now (s\<lparr>ses_pending_payload := Some p\<rparr>) =
        (Inr (update_outcome now ((bump_outgoing_seq s)\<lparr>ses_outgoing_pdus := [out]\<rparr>)),
         (bump_outgoing_seq s)\<lparr>ses_outgoing_pdus := [out]\<rparr>)"
      "MakeMessage_load L out = Inr \<lparr>mm_version = 0, mm_cid = cid, mm_payload = Message \<lparr>msg_seq = i, msg_m = ct\<rparr>\<rparr>"
      "decrypt L (sk_aead_name keys) key iv i ct cid = Inr p"
    by (rule payload_leaves [OF libs s p]) blast
  have "(bump_outgoing_seq s)\<lparr>ses_outgoing_pdus := []\<rparr> = bump_outgoing_seq s"
    using talking_emptied [OF talking_bump(1) [OF s(1)]] .
  then show thesis
    using that [OF _ _ m(2,3)] run m(1) p(1) by (simp add: perform_def post_payload_def Let_def)
qed

lemma direction_sender:
  assumes libs: "asn1_works L" "aead_works L" and dir: "direction L keys cid key iv n old s out r ps"
    and run: "perform L K c now x s = (s', qs)"
    and p: "case x of Get _ \<Rightarrow> True | Say p \<Rightarrow> p \<noteq> [] \<and> length p < 2 ^ 31 \<and> n + int (length ps) < 256 ^ 12"
  shows "direction L keys cid key iv n old s' (out @ qs) r (ps @ (case x of Get _ \<Rightarrow> [] | Say p \<Rightarrow> [p]))"
proof (cases x)
  case (Get der)
  note d = dir [unfolded direction_def]
  have t: "talking L s" and h: "repeats_handshake L s" using d by (simp_all add: talking_def)
  from t run [unfolded Get] show ?thesis
  proof (cases rule: perform_get)
    case same
    then have "list_all (said_in L keys cid key iv n ps) qs"
      using h by (auto simp: repeats_handshake_def said_in_def carries_def)
    then show ?thesis using d same(1) Get by (simp add: direction_def)
  next
    case (accepted inner keys' key' iv' cid' p)
    have "talking L s'" unfolding accepted(7) by (rule talking_bump(2) [OF t])
    then show ?thesis
      using d accepted(6,7) Get by (simp add: direction_def)
  qed
next
  case (Say p)
  note d = dir [unfolded direction_def]
  have o: "outgoing_protection s keys = (key, iv, n + int (length ps))" "n + int (length ps) < 256 ^ 12"
    using d p Say by simp_all
  obtain ct sent where m: "s' = bump_outgoing_seq s" "qs = [sent]"
      "MakeMessage_load L sent = Inr \<lparr>mm_version = 0, mm_cid = cid,
        mm_payload = Message \<lparr>msg_seq = n + int (length ps), msg_m = ct\<rparr>\<rparr>"
      "decrypt L (sk_aead_name keys) key iv (n + int (length ps)) ct cid = Inr p"
    by (rule perform_say [OF libs _ _ _ _ o _ _ run [unfolded Say]]) (use d p Say in auto)
  have "said_in L keys cid key iv n (ps @ [p]) sent"
    using m(3,4) by (auto simp: said_in_def carries_def nth_append)
  moreover have "list_all (said_in L keys cid key iv n (ps @ [p])) out"
    using d said_in_more by (auto simp: list_all_iff)
  moreover have "talking L s'" unfolding m(1) using d by (simp add: talking_bump)
  moreover have "outgoing_protection s' keys = (key, iv, n + int (length (ps @ [p])))"
    unfolding m(1) using bump_protection(1) [OF o(1)] by simp
  moreover have "\<exists>k \<le> length (ps @ [p]). incoming_protection r keys = (key, iv, n + int k) \<and>
      ses_outgoing_payloads r = old @ take k (ps @ [p])"
  proof -
    obtain k where "k \<le> length ps" "incoming_protection r keys = (key, iv, n + int k)"
        "ses_outgoing_payloads r = old @ take k ps"
      using d by blast
    then show ?thesis by (intro exI [of _ k]) simp
  qed
  ultimately show ?thesis
    using d m(1,2) Say by (simp add: direction_def)
qed

lemma direction_receiver:
  assumes libs: "asn1_works L" "aead_works L" and dir: "direction L keys cid key iv n old s out r ps"
    and run: "perform L K c now x r = (r', qs)" and gen: "genuine L r out x"
    and p: "case x of Get _ \<Rightarrow> True | Say p \<Rightarrow> p \<noteq> [] \<and> length p < 2 ^ 31 \<and>
      snd (snd (outgoing_protection r keys)) < 256 ^ 12"
  shows "direction L keys cid key iv n old s out r' ps"
proof (cases x)
  case (Say p)
  note d = dir [unfolded direction_def]
  obtain key' iv' i where o: "outgoing_protection r keys = (key', iv', i)" by (cases "outgoing_protection r keys") auto
  obtain ct sent where "r' = bump_outgoing_seq r"
    by (rule perform_say [OF libs _ _ _ _ o _ _ _ run [unfolded Say]]) (use d p o Say in auto)
  then show ?thesis using d by (simp add: direction_def talking_bump)
next
  case (Get der)
  note d = dir [unfolded direction_def]
  have t: "talking L r" using d by simp
  from t run [unfolded Get] show ?thesis
  proof (cases rule: perform_get)
    case same
    then show ?thesis using dir by simp
  next
    case (accepted inner keys' key' iv' cid' p)
    obtain k where k: "k \<le> length ps" "incoming_protection r keys = (key, iv, n + int k)"
        "ses_outgoing_payloads r = old @ take k ps"
      using d by blast
    have e: "keys' = keys" "cid' = cid" "key' = key" "iv' = iv" "msg_seq inner = n + int k"
      using accepted(2-4) d k(2) by auto
    have "opens L r inner" using accepted(2-5) by (auto simp: opens_def)
    with gen Get accepted(1) obtain sent where sent: "sent \<in> set out" "carries L sent inner" by (auto simp: genuine_def)
    have "said_in L keys cid key iv n ps sent" using d sent(1) by (simp add: list_all_iff)
    with sent(2) obtain j where j: "j < length ps" "msg_seq inner = n + int j"
        "decrypt L (sk_aead_name keys) key iv (msg_seq inner) (msg_m inner) cid = Inr (ps ! j)"
      unfolding said_in_def by blast
    then have "j = k" "p = ps ! k" using e accepted(5) by auto
    then have "old @ take (Suc k) ps = ses_outgoing_payloads r @ [p]"
      using k(3) j(1) by (simp add: take_Suc_conv_app_nth)
    moreover have "incoming_protection r' keys = (key, iv, n + int (Suc k))"
      unfolding accepted(7) using bump_protection(2) [OF k(2)] by (simp add: add.assoc)
    moreover have "talking L r'" unfolding accepted(7) by (rule talking_bump(2) [OF t])
    ultimately show ?thesis
      using d accepted(7) j(1) \<open>j = k\<close>
      by (auto simp: direction_def intro!: exI [of _ "Suc k"])
  qed
qed

subsection \<open>Both directions\<close>

fun channel_event_ok :: "channel_event \<Rightarrow> bool" where
  "channel_event_ok (_, Say p, _) \<longleftrightarrow> p \<noteq> [] \<and> length p < 2 ^ 31"
| "channel_event_ok (_, Get _, _) \<longleftrightarrow> True"

text \<open>The state of a channel: two directions, and room in the counters for \<open>m\<close> more payloads.\<close>

definition channel_ok :: "lib \<Rightarrow> session_keys \<Rightarrow> bytes \<Rightarrow> (bytes \<times> bytes \<times> int \<times> bytes list) \<Rightarrow> (bytes \<times> bytes \<times> int \<times> bytes list) \<Rightarrow>
    channel \<Rightarrow> bytes list \<Rightarrow> bytes list \<Rightarrow> int \<Rightarrow> bool" where
  "channel_ok L keys cid = (\<lambda>(ka, va, na, olda) (kb, vb, nb, oldb) ch ps qs m.
     direction L keys cid ka va na olda (chn_a ch) (chn_from_a ch) (chn_b ch) ps \<and>
     direction L keys cid kb vb nb oldb (chn_b ch) (chn_from_b ch) (chn_a ch) qs \<and>
     na + int (length ps) + m \<le> 256 ^ 12 \<and> nb + int (length qs) + m \<le> 256 ^ 12)"

lemma channel_step_ok:
  assumes libs: "asn1_works L" "aead_works L"
    and ok: "channel_ok L keys cid A B ch ps qs (m + 1)" "0 \<le> m" and e: "channel_event_ok (who, x, c, now)"
    and gen: "if who then genuine L (chn_a ch) (chn_from_b ch) x else genuine L (chn_b ch) (chn_from_a ch) x"
  shows "channel_ok L keys cid A B (channel_step L KA KB (who, x, c, now) ch)
    (ps @ spoken True [(who, x, c, now)]) (qs @ spoken False [(who, x, c, now)]) m"
proof -
  obtain ka va na olda where A: "A = (ka, va, na, olda)" by (cases A)
  obtain kb vb nb oldb where B: "B = (kb, vb, nb, oldb)" by (cases B)
  have d: "direction L keys cid ka va na olda (chn_a ch) (chn_from_a ch) (chn_b ch) ps"
      "direction L keys cid kb vb nb oldb (chn_b ch) (chn_from_b ch) (chn_a ch) qs"
      "na + int (length ps) + (m + 1) \<le> 256 ^ 12" "nb + int (length qs) + (m + 1) \<le> 256 ^ 12"
    using ok(1) by (simp_all add: channel_ok_def A B)
  have o: "snd (snd (outgoing_protection (chn_a ch) keys)) = na + int (length ps)"
      "snd (snd (outgoing_protection (chn_b ch) keys)) = nb + int (length qs)"
    using d(1,2) by (simp_all add: direction_def)
  show ?thesis
  proof (cases who)
    case True
    obtain a' sent where run: "perform L KA c now x (chn_a ch) = (a', sent)" by fastforce
    have "direction L keys cid ka va na olda a' (chn_from_a ch @ sent) (chn_b ch)
        (ps @ (case x of Get _ \<Rightarrow> [] | Say p \<Rightarrow> [p]))"
      by (rule direction_sender [OF libs d(1) run]) (use e d(3) ok(2) in \<open>cases x; simp\<close>)
    moreover have "direction L keys cid kb vb nb oldb (chn_b ch) (chn_from_b ch) a' qs"
      by (rule direction_receiver [OF libs d(2) run gen [simplified True if_True]]) (use e d(3) ok(2) o True in \<open>cases x; simp\<close>)
    moreover have "channel_step L KA KB (who, x, c, now) ch =
        ch\<lparr>chn_a := a', chn_from_a := chn_from_a ch @ sent\<rparr>"
      using run by (simp add: True)
    ultimately show ?thesis
      using d(3,4) ok(2) by (cases x) (simp_all add: channel_ok_def A B True)
  next
    case False
    obtain b' sent where run: "perform L KB c now x (chn_b ch) = (b', sent)" by fastforce
    have "direction L keys cid kb vb nb oldb b' (chn_from_b ch @ sent) (chn_a ch)
        (qs @ (case x of Get _ \<Rightarrow> [] | Say p \<Rightarrow> [p]))"
      by (rule direction_sender [OF libs d(2) run]) (use e d(4) ok(2) in \<open>cases x; simp\<close>)
    moreover have "direction L keys cid ka va na olda (chn_a ch) (chn_from_a ch) b' ps"
      by (rule direction_receiver [OF libs d(1) run gen [simplified False if_False]]) (use e d(4) ok(2) o False in \<open>cases x; simp\<close>)
    moreover have "channel_step L KA KB (who, x, c, now) ch =
        ch\<lparr>chn_b := b', chn_from_b := chn_from_b ch @ sent\<rparr>"
      using run by (simp add: False)
    ultimately show ?thesis
      using d(3,4) ok(2) by (cases x) (simp_all add: channel_ok_def A B False)
  qed
qed

lemma spoken_Cons: "spoken who (e # es) = spoken who [e] @ spoken who es"
  by (cases "(who, e # es)" rule: spoken.cases) auto

lemma channel_run_ok:
  assumes libs: "asn1_works L" "aead_works L"
    and "channel_ok L keys cid A B ch ps qs (int (length es))" "list_all channel_event_ok es" "unforged L KA KB es ch"
  shows "channel_ok L keys cid A B (fold (channel_step L KA KB) es ch) (ps @ spoken True es) (qs @ spoken False es) 0"
  using assms(3-)
proof (induction es arbitrary: ch ps qs)
  case (Cons e es)
  obtain who x c now where e: "e = (who, x, c, now)" by (cases e)
  have "channel_ok L keys cid A B (channel_step L KA KB e ch) (ps @ spoken True [e]) (qs @ spoken False [e]) (int (length es))"
    unfolding e by (rule channel_step_ok [OF libs]) (use Cons.prems e in \<open>auto simp: add.commute\<close>)
  from Cons.IH [OF this] Cons.prems(2,3) e
  have "channel_ok L keys cid A B (fold (channel_step L KA KB) es (channel_step L KA KB e ch))
      (ps @ spoken True [e] @ spoken True es) (qs @ spoken False [e] @ spoken False es) 0"
    by simp
  then show ?case by (subst (1 2) spoken_Cons) simp
qed simp

text \<open>
  C2. Over a network that may lose, repeat, reorder and invent PDUs but cannot forge a message, two established
  peers are a pair of secure ordered channels: whatever they say and whatever bytes they are given, each
  has handed out a prefix of what the other has said, its counter tells how long a prefix, and both are
  still ready to talk.
\<close>

theorem channel_delivers_prefix:
  assumes "asn1_works L" "aead_works L" "peers L a b"
    and "list_all channel_event_ok es"
    and "outgoing_count a + int (length es) \<le> 256 ^ 12" "outgoing_count b + int (length es) \<le> 256 ^ 12"
    and "unforged L KA KB es \<lparr>chn_a = a, chn_b = b, chn_from_a = [], chn_from_b = []\<rparr>"
    and "fold (channel_step L KA KB) es \<lparr>chn_a = a, chn_b = b, chn_from_a = [], chn_from_b = []\<rparr> = ch"
  shows "(\<exists>k \<le> length (spoken True es). incoming_count (chn_b ch) = incoming_count b + int k \<and>
        ses_outgoing_payloads (chn_b ch) = ses_outgoing_payloads b @ take k (spoken True es))
    \<and> (\<exists>k \<le> length (spoken False es). incoming_count (chn_a ch) = incoming_count a + int k \<and>
        ses_outgoing_payloads (chn_a ch) = ses_outgoing_payloads a @ take k (spoken False es))
    \<and> talking L (chn_a ch) \<and> talking L (chn_b ch)"
proof -
  let ?ch = "\<lparr>chn_a = a, chn_b = b, chn_from_a = [], chn_from_b = []\<rparr>"
  have ba: "peers L b a" using assms(3) by (simp add: peers_sym)
  obtain keys cid ka va na where A: "talking L a" "talking L b" "ses_session_keys a = Some keys" "ses_session_keys b = Some keys"
      "working_keys keys" "ses_cid a = Some cid" "ses_cid b = Some cid"
      "outgoing_protection a keys = (ka, va, na)" "incoming_protection b keys = (ka, va, na)" "na = outgoing_count a"
    by (rule peers_protection [OF assms(3)])
  obtain keys' cid' kb vb nb where B: "ses_session_keys b = Some keys'"
      "outgoing_protection b keys' = (kb, vb, nb)" "incoming_protection a keys' = (kb, vb, nb)" "nb = outgoing_count b"
    by (rule peers_protection [OF ba])
  have k: "keys' = keys" using A(4) B(1) by simp
  have "channel_ok L keys cid (ka, va, na, ses_outgoing_payloads b) (kb, vb, nb, ses_outgoing_payloads a) ?ch [] []
      (int (length es))"
    using A B k assms(5,6) by (simp add: channel_ok_def direction_def)
  from channel_run_ok [OF assms(1,2) this assms(4,7)] assms(8)
  have d: "direction L keys cid ka va na (ses_outgoing_payloads b) (chn_a ch) (chn_from_a ch) (chn_b ch) (spoken True es)"
      "direction L keys cid kb vb nb (ses_outgoing_payloads a) (chn_b ch) (chn_from_b ch) (chn_a ch) (spoken False es)"
    by (simp_all add: channel_ok_def)
  have c: "snd (snd (incoming_protection s keys)) = incoming_count s" for s
    by (simp add: incoming_protection_def incoming_count_def)
  have "incoming_count b = na" "incoming_count a = nb" using c [of b] c [of a] A(9) B(3) k by simp_all
  then show ?thesis
    using d c [of "chn_a ch"] c [of "chn_b ch"] unfolding direction_def by (metis snd_conv)
qed

end
