(* ===== verification/DispatcherConversation.thy ===== *)
theory DispatcherConversation
  imports DispatcherHandshake
begin

section \<open>Two dispatchers: established conversations\<close>

text \<open>
  After the handshakes. Two dispatchers that share any number of correlation ids are a family of reliable
  ordered channels: a payload that is posted under an id, cranked out and carried over is delivered under
  the same id, and the order of all that is said is the order of what is delivered.
\<close>

subsection \<open>The crank of a quiet dispatcher\<close>

text \<open>Established sessions only, all of them idle under their own id, and nothing left to send.\<close>

definition idle :: "lib \<Rightarrow> bytes \<Rightarrow> session \<Rightarrow> bool" where
  "idle L cid s \<longleftrightarrow> talking L s \<and> ses_outgoing_payloads s = [] \<and> ses_cid s = Some cid"

definition quiet :: "lib \<Rightarrow> dispatcher \<Rightarrow> bool" where
  "quiet L d \<longleftrightarrow> dsp_responder_sessions d = [] \<and> dsp_initiator_templates d = [] \<and> dsp_initiator_forks d = [] \<and>
     dsp_outgoing_pdus d = [] \<and> distinct (map fst (dsp_established d)) \<and>
     list_all (\<lambda>(cid, s). idle L cid s) (dsp_established d)"

lemma idle_drained [simp]:
  assumes "idle L cid s"
  shows "drained s = s" "collected s k d = d"
proof -
  have "ses_outgoing_pdus s = []" "ses_outgoing_payloads s = []"
    using assms by (simp_all add: idle_def talking_def)
  then show "drained s = s" "collected s k d = d" by (simp_all add: drained_def collected_def)
qed

lemma idle_update: "idle L cid s \<Longrightarrow> update_session L K c now s = (Inr (update_outcome now s), s)"
  by (simp add: idle_def update_talking)

lemma set_established_same [simp]: "map_of (dsp_established d) cid = Some s \<Longrightarrow> set_established cid s d = d"
  by (simp add: set_established_def AList.update_triv)

lemma set_established_twice [simp]: "set_established cid s (set_established cid s' d) = set_established cid s d"
  by (simp add: set_established_def)

lemma set_established_collected [simp]:
  "set_established cid x (collected s k (set_established cid y d)) = collected s k (set_established cid x d)"
  by (simp add: set_established_def collected_def)

lemma established_loop_idle:
  assumes "list_all (\<lambda>(cid, s). idle L cid s \<and> map_of (dsp_established d) cid = Some s) items"
  shows "\<exists>nd'. update_established_loop L K rnd now items nd d = (Inr nd', d)"
  using assms
proof (induction items arbitrary: nd)
  case (Cons item items)
  then show ?case by (cases item) (auto simp: idle_update drain_eq Let_def split: prod.split)
qed simp

lemma established_loop_sends:
  assumes "distinct (map fst (pre @ (cid, s) # post))"
    and "dsp_established d = pre @ (cid, s) # post"
    and "list_all (\<lambda>(cid, s). idle L cid s) (pre @ post)"
    and "\<And>K c now. update_session L K c now s = (Inr (update_outcome now s'), s')"
  shows "\<exists>nd'. update_established_loop L K rnd now (pre @ (cid, s) # post) nd d =
    (Inr nd', collected s' cid (set_established cid (drained s') d))"
  using assms
proof -
  let ?d = "collected s' cid (set_established cid (drained s') d)"
  have m: "map_of (dsp_established d) k = Some t \<and> k \<noteq> cid" if "(k, t) \<in> set (pre @ post)" for k t
    using that assms(1,2) by (auto simp: image_iff map_of_eq_Some_iff simp del: map_of_append map_of.simps)
  have post: "list_all (\<lambda>(k, t). idle L k t \<and> map_of (dsp_established ?d) k = Some t) post"
    using assms(3) m by (fastforce simp: list_all_iff collected_def set_established_def)
  have pre: "list_all (\<lambda>(k, t). idle L k t \<and> map_of (dsp_established d) k = Some t) pre"
    using assms(3) m by (fastforce simp: list_all_iff)
  have own: "\<exists>nd'. update_established_loop L K rnd now ((cid, s) # post) nd d = (Inr nd', ?d)" for nd
    using established_loop_idle [OF post] assms(4)
    by (simp add: drain_eq Let_def split: prod.split)
  from pre show ?thesis
  proof (induction pre arbitrary: nd)
    case (Cons item pre)
    then show ?case by (cases item) (auto simp: idle_update drain_eq Let_def split: prod.split)
  qed (use own in simp)
qed

lemma quietD:
  assumes "quiet L d"
  shows "dsp_responder_sessions d = []" "dsp_initiator_templates d = []" "dsp_initiator_forks d = []"
    "dsp_outgoing_pdus d = []" "distinct (map fst (dsp_established d))"
    "map_of (dsp_established d) cid = Some s \<Longrightarrow> idle L cid s"
  using assms map_of_SomeD [of "dsp_established d" cid s] by (auto simp: quiet_def list_all_iff)

lemma reconcile_quiet:
  "dsp_responder_sessions d = [] \<Longrightarrow> dsp_initiator_forks d = [] \<Longrightarrow> reconcile_expired_candidates d = d"
  by (simp add: reconcile_expired_candidates_def dict_keys_def)

text \<open>A payload waits in one session: the crank queues the PDU that session makes of it.\<close>

lemma update_quiet_sends:
  fixes K rnd now
  assumes "quiet L d" "map_of (dsp_established d) cid = Some s"
    and "\<And>K c now. update_session L K c now s1 = (Inr (update_outcome now s'), s')"
  defines "d2 \<equiv> snd (dispatcher_update L K rnd now (set_established cid s1 d))"
  shows "dsp_established d2 = AList.update cid (drained s') (dsp_established d)"
    and "dsp_outgoing_pdus d2 = ses_outgoing_pdus s'"
    and "dsp_outgoing_payloads d2 = dsp_outgoing_payloads d @ map (Pair cid) (ses_outgoing_payloads s')"
    and "dsp_responder_sessions d2 = []" "dsp_initiator_templates d2 = []" "dsp_initiator_forks d2 = []"
proof -
  obtain pre post where e: "dsp_established d = pre @ (cid, s) # post"
    using assms(2) by (meson map_of_SomeD split_list)
  note q = quietD [OF assms(1)]
  have "cid \<notin> fst ` set pre" using q(5) e by auto
  then have u: "AList.update cid x (dsp_established d) = pre @ (cid, x) # post" for x
    unfolding e by (induction pre) auto
  let ?d0 = "(set_established cid s1 d)\<lparr>dsp_candidates := snd (expire now (dsp_candidates d))\<rparr>"
  have d0: "dsp_established ?d0 = pre @ (cid, s1) # post" by (simp add: set_established_def u)
  have "\<exists>nd. update_established_loop L K rnd now (pre @ (cid, s1) # post) Infinity ?d0 =
      (Inr nd, collected s' cid (set_established cid (drained s') ?d0))"
    by (rule established_loop_sends [OF _ d0 _ assms(3)]) (use assms(1) e q(5) in \<open>auto simp: quiet_def\<close>)
  then obtain nd where loop: "update_established_sessions L K rnd now Infinity ?d0 =
      (Inr nd, collected s' cid (set_established cid (drained s') ?d0))"
    using d0 by (auto simp: update_established_sessions_def)
  have "dsp_responder_sessions ?d0 = []" "dsp_initiator_forks ?d0 = []" "dsp_initiator_templates ?d0 = []"
    using q by (simp_all add: set_established_def)
  then have "d2 = collected s' cid (set_established cid (drained s') ?d0)"
    using loop q by (simp add: d2_def dispatcher_update_def reconcile_quiet Let_def set_established_def
        update_responder_sessions_def process_initiator_forks_def dict_keys_def collected_def)
  then show "dsp_established d2 = AList.update cid (drained s') (dsp_established d)"
    and "dsp_outgoing_pdus d2 = ses_outgoing_pdus s'"
    and "dsp_outgoing_payloads d2 = dsp_outgoing_payloads d @ map (Pair cid) (ses_outgoing_payloads s')"
    and "dsp_responder_sessions d2 = []" "dsp_initiator_templates d2 = []" "dsp_initiator_forks d2 = []"
    using q by (simp_all add: collected_def set_established_def)
qed

text \<open>The PDU reaches an established session of the other dispatcher.\<close>

lemma post_pdu_established:
  assumes "MakeMessage_load L der = Inr msg" "map_of (dsp_established d) (mm_cid msg) = Some r"
    and "update_session L K (cs 0) now (post_pdu der r) = (Inr x, r')"
  shows "snd (dispatcher_post_pdu L K cs der now d) =
    set_established (mm_cid msg) (drained r') (collected r' (mm_cid msg) d)"
  using assms MakeMessage_loadD(4) [OF assms(1)] by (simp add: dispatcher_post_pdu_def deliver_def drain_eq)

subsection \<open>The conversation\<close>

text \<open>All PDUs of one dispatcher go to the other.\<close>

function carry_pdus :: "lib \<Rightarrow> key_lookup \<Rightarrow> coins \<Rightarrow> rat \<Rightarrow> dispatcher \<Rightarrow> dispatcher \<Rightarrow> dispatcher \<times> dispatcher" where
  "carry_pdus L K c now s r =
     (if dispatcher_poll_pdu s then
        (case hand_pdu L K c now (s, r) of (s', r') \<Rightarrow> carry_pdus L K c now s' r')
      else (s, r))"
  by pat_completeness auto

termination
  by (relation "measure (\<lambda>(_, _, _, _, s, _). length (dsp_outgoing_pdus s))")
    (auto simp: hand_pdu_def dispatcher_get_pdu_def dispatcher_poll_pdu_def neq_Nil_conv)

declare carry_pdus.simps [simp del]

text \<open>A payload is posted under an id, cranked out and carried over.\<close>

definition say :: "lib \<Rightarrow> key_lookup \<Rightarrow> key_lookup \<Rightarrow> rnd \<Rightarrow> rat \<Rightarrow> bytes \<Rightarrow> bytes \<Rightarrow>
    dispatcher \<times> dispatcher \<Rightarrow> dispatcher \<times> dispatcher" where
  "say L K K' rnd now cid p = (\<lambda>(s, r).
     let s1 = snd (dispatcher_post_payload cid p s);
         s2 = snd (dispatcher_update L K rnd now s1)
     in carry_pdus L K' (rnd 3 cid 0) now s2 r)"

text \<open>
  A turn: whether the first dispatcher speaks, under which id, and what. The coins and the time of each
  turn are those of its place in the conversation.
\<close>

type_synonym turn = "bool \<times> bytes \<times> bytes"

fun converse_dispatchers :: "lib \<Rightarrow> key_lookup \<Rightarrow> key_lookup \<Rightarrow> (nat \<Rightarrow> rnd) \<Rightarrow> (nat \<Rightarrow> rat) \<Rightarrow> turn list \<Rightarrow>
    dispatcher \<times> dispatcher \<Rightarrow> dispatcher \<times> dispatcher" where
  "converse_dispatchers L KA KB rnd t [] AB = AB"
| "converse_dispatchers L KA KB rnd t ((who, cid, p) # ts) (A, B) =
     converse_dispatchers L KA KB (\<lambda>n. rnd (Suc n)) (\<lambda>n. t (Suc n)) ts
       (if who then say L KA KB (rnd 0) (t 0) cid p (A, B)
        else prod.swap (say L KB KA (rnd 0) (t 0) cid p (B, A)))"

definition told :: "bool \<Rightarrow> turn list \<Rightarrow> (bytes \<times> bytes) list" where
  "told who ts = map snd (filter (\<lambda>t. fst t = who) ts)"

lemma told_simps [simp]:
  "told who [] = []"
  "told who ((w, cid, p) # ts) = (if w = who then (cid, p) # told who ts else told who ts)"
  by (simp_all add: told_def)

text \<open>Two dispatchers that share the ids \<open>C\<close>: peers under each, with room in the counters for \<open>n\<close> payloads.\<close>

definition peers_under :: "lib \<Rightarrow> int \<Rightarrow> bytes \<Rightarrow> dispatcher \<Rightarrow> dispatcher \<Rightarrow> bool" where
  "peers_under L n cid A B \<longleftrightarrow> (\<exists>a b. map_of (dsp_established A) cid = Some a \<and>
     map_of (dsp_established B) cid = Some b \<and> peers L a b \<and>
     outgoing_count a + n \<le> 256 ^ 12 \<and> outgoing_count b + n \<le> 256 ^ 12)"

definition linked :: "lib \<Rightarrow> bytes set \<Rightarrow> int \<Rightarrow> dispatcher \<Rightarrow> dispatcher \<Rightarrow> bool" where
  "linked L C n A B \<longleftrightarrow> quiet L A \<and> quiet L B \<and> (\<forall>cid \<in> C. peers_under L n cid A B)"

definition turn_ok :: "bytes set \<Rightarrow> turn \<Rightarrow> bool" where
  "turn_ok C = (\<lambda>(_, cid, p). cid \<in> C \<and> p \<noteq> [] \<and> length p < 2 ^ 31)"

lemma linked_sym: "linked L C n A B \<longleftrightarrow> linked L C n B A"
  unfolding linked_def peers_under_def by (metis peers_sym)

lemma carry_one:
  assumes "dsp_outgoing_pdus s = [out]"
  shows "carry_pdus L K c now s r = (s\<lparr>dsp_outgoing_pdus := []\<rparr>, snd (dispatcher_post_pdu L K (\<lambda>_. c) out now r))"
  using assms carry_pdus.simps [of L K c now s r]
    carry_pdus.simps [of L K c now "s\<lparr>dsp_outgoing_pdus := []\<rparr>"]
  by (simp add: hand_pdu_one dispatcher_poll_pdu_def)

lemma quiet_update:
  assumes "quiet L d" "idle L cid s" "dsp_established d' = AList.update cid s (dsp_established d)"
    and "dsp_responder_sessions d' = []" "dsp_initiator_templates d' = []" "dsp_initiator_forks d' = []"
    and "dsp_outgoing_pdus d' = []"
  shows "quiet L d'"
  using assms set_update_subset [of cid s "dsp_established d"]
  by (fastforce simp: quiet_def list_all_iff distinct_update)

lemma say_works:
  assumes libs: "asn1_works L" "aead_works L" and linked: "linked L C (n + 1) A B" and "0 \<le> n"
    and cid: "cid \<in> C" and p: "p \<noteq> []" "length p < 2 ^ 31"
  obtains A' B' where "say L KA KB rnd now cid p (A, B) = (A', B')" and "linked L C n A' B'"
    and "dsp_outgoing_payloads A' = dsp_outgoing_payloads A"
    and "dsp_outgoing_payloads B' = dsp_outgoing_payloads B @ [(cid, p)]"
proof -
  from linked cid obtain a b where ab: "map_of (dsp_established A) cid = Some a"
      "map_of (dsp_established B) cid = Some b" "peers L a b" "outgoing_count a + (n + 1) \<le> 256 ^ 12"
      "outgoing_count b + (n + 1) \<le> 256 ^ 12"
    by (auto simp: linked_def peers_under_def)
  have q: "quiet L A" "quiet L B" using linked by (simp_all add: linked_def)
  have i: "idle L cid a" "idle L cid b" using quietD(6) q ab(1,2) by blast+
  then have cb: "ses_cid b = Some cid" and pb: "ses_outgoing_payloads b = []" by (simp_all add: idle_def)
  have count: "outgoing_count a < 256 ^ 12" using ab(4) assms(4) by simp
  let ?a1 = "a\<lparr>ses_pending_payload := Some p\<rparr>" and ?b = "(bump_incoming_seq b)\<lparr>ses_outgoing_payloads := [p]\<rparr>"
  obtain out msg where m:
      "\<And>K c now. update_session L K c now ?a1 =
        (Inr (update_outcome now ((bump_outgoing_seq a)\<lparr>ses_outgoing_pdus := [out]\<rparr>)),
         (bump_outgoing_seq a)\<lparr>ses_outgoing_pdus := [out]\<rparr>)"
      "MakeMessage_load L out = Inr msg" "mm_cid msg = cid"
      "\<And>K c now. update_session L K c now (post_pdu out b) = (Inr (update_outcome now ?b), ?b)"
    using payload_crosses [OF libs ab(3) cb p count] unfolding pb by (simp only: append_Nil) blast
  have posted: "snd (dispatcher_post_payload cid p A) = set_established cid ?a1 A"
    using ab(1) p(1) by (simp add: dispatcher_post_payload_def post_payload_def)
  let ?A2 = "snd (dispatcher_update L KA rnd now (set_established cid ?a1 A))"
  note A2 = update_quiet_sends [OF q(1) ab(1) m(1), where K = KA and rnd = rnd and now = now]
  let ?a = "bump_outgoing_seq a" and ?b' = "(bump_incoming_seq b)\<lparr>ses_outgoing_payloads := []\<rparr>"
  have pe: "peers L ?a ?b'" using convey_peers [OF ab(3)] .
  have bare: "ses_outgoing_payloads a = []" "ses_outgoing_pdus a = []" "ses_outgoing_pdus b = []" "ses_cid a = Some cid"
    using i by (simp_all add: idle_def talking_def)
  have dr: "drained (?a\<lparr>ses_outgoing_pdus := [out]\<rparr>) = ?a" "drained ?b = ?b'"
    using bare by (simp_all add: drained_def bump_outgoing_seq_def bump_incoming_seq_def)
  have i': "idle L cid ?a" "idle L cid ?b'"
    using pe bare cb by (simp_all add: idle_def peers_def bump_outgoing_seq_def bump_incoming_seq_def)
  let ?A' = "?A2\<lparr>dsp_outgoing_pdus := []\<rparr>" and ?B' = "set_established cid ?b' (collected ?b cid B)"
  have run: "say L KA KB rnd now cid p (A, B) = (?A', ?B')"
    using carry_one [of ?A2 out L KB "rnd 3 cid 0" now B] A2(2)
      post_pdu_established [OF m(2), of B b KB] ab(2) m(3,4) dr(2)
    by (simp add: say_def Let_def posted)
  have est: "dsp_established ?A' = AList.update cid ?a (dsp_established A)"
      "dsp_established ?B' = AList.update cid ?b' (dsp_established B)"
    using A2(1) dr(1) by (simp_all add: set_established_def collected_def)
  have "quiet L ?A'" by (rule quiet_update [OF q(1) i'(1) est(1)]) (use A2(4-6) in simp_all)
  moreover have "quiet L ?B'"
    by (rule quiet_update [OF q(2) i'(2) est(2)])
      (use quietD [OF q(2)] bare in \<open>simp_all add: set_established_def collected_def bump_incoming_seq_def\<close>)
  moreover have "peers_under L n k ?A' ?B'" if "k \<in> C" for k
  proof (cases "k = cid")
    case True
    then show ?thesis
      unfolding peers_under_def est using pe ab(4,5) by (simp add: AList.update_conv')
  next
    case False
    have "peers_under L (n + 1) k A B" using linked that by (simp add: linked_def)
    then show ?thesis
      unfolding peers_under_def est using False by (fastforce simp: AList.update_conv')
  qed
  ultimately have "linked L C n ?A' ?B'" by (simp add: linked_def)
  moreover have "dsp_outgoing_payloads ?A' = dsp_outgoing_payloads A"
    using A2(3) bare by (simp add: bump_outgoing_seq_def)
  ultimately show thesis
    using that [OF run] by (simp add: set_established_def collected_def)
qed

lemma carried:
  assumes "asn1_works L" "aead_works L" "linked L C (int (length ts)) A B"
    and "list_all (turn_ok C) ts"
    and "converse_dispatchers L KA KB rnd t ts (A, B) = (A', B')"
  shows "dsp_outgoing_payloads B' = dsp_outgoing_payloads B @ told True ts
    \<and> dsp_outgoing_payloads A' = dsp_outgoing_payloads A @ told False ts
    \<and> linked L C 0 A' B'"
  using assms
proof (induction ts arbitrary: A B rnd t)
  case Nil
  then show ?case by simp
next
  case (Cons turn ts)
  note libs = Cons.prems(1,2)
  obtain who cid p where turn: "turn = (who, cid, p)" by (cases turn)
  have p: "cid \<in> C" "p \<noteq> []" "length p < 2 ^ 31" and rest: "list_all (turn_ok C) ts"
    using Cons.prems(4) by (simp_all add: turn turn_ok_def)
  have linked: "linked L C (int (length ts) + 1) A B" using Cons.prems(3) by (simp add: add.commute)
  show ?case
  proof (cases who)
    case True
    obtain A1 B1 where "say L KA KB (rnd 0) (t 0) cid p (A, B) = (A1, B1)" "linked L C (int (length ts)) A1 B1"
        "dsp_outgoing_payloads A1 = dsp_outgoing_payloads A" "dsp_outgoing_payloads B1 = dsp_outgoing_payloads B @ [(cid, p)]"
      by (rule say_works [OF libs linked _ p]) simp
    with Cons.IH [OF libs _ rest] Cons.prems(5) show ?thesis by (simp add: turn True)
  next
    case False
    obtain B1 A1 where "say L KB KA (rnd 0) (t 0) cid p (B, A) = (B1, A1)" "linked L C (int (length ts)) B1 A1"
        "dsp_outgoing_payloads B1 = dsp_outgoing_payloads B" "dsp_outgoing_payloads A1 = dsp_outgoing_payloads A @ [(cid, p)]"
      by (rule say_works [OF libs linked [unfolded linked_sym [of L C _ A]] _ p]) simp
    with Cons.IH [OF libs _ rest, of A1 B1] Cons.prems(5) linked_sym show ?thesis by (simp add: turn False)
  qed
qed

subsection \<open>From the handshake to the conversation\<close>

lemma hand_pdu_wf:
  assumes "dispatcher_wf s" "dispatcher_wf r" "hand_pdu L K c now (s, r) = (s', r')"
  shows "dispatcher_wf s'" "dispatcher_wf r'"
  using assms dispatcher_wf_get(1) [OF assms(1)] dispatcher_wf_post_pdu [OF assms(2)]
  by (auto simp: hand_pdu_def split: prod.splits sum.splits)

lemma queue_payload_wf: "dispatcher_wf d \<Longrightarrow> dispatcher_wf (queue_payload cid p d)"
  by (simp add: queue_payload_def dispatcher_wf_post_payload split: option.split)

lemma dispatcher_handshake_wf:
  assumes "dispatcher_wf A" "dispatcher_wf B" "coin_uuid4 (c 0) \<notin> keys (dsp_established A)"
    and "dispatcher_handshake L KA KB idA idB c t p q (A, B) = (A', B')"
  shows "dispatcher_wf A'" "dispatcher_wf B'"
proof -
  let ?cid = "coin_uuid4 (c 0)"
  define A1 where "A1 = queue_payload ?cid p (snd (dispatcher_initiate L KA (c 0) idA idB (t 0) A))"
  have w1: "dispatcher_wf A1"
    unfolding A1_def by (rule queue_payload_wf [OF dispatcher_wf_initiate [OF assms(1,3)]])
  obtain A2 B1 where 1: "hand_pdu L KB (c 1) (t 1) (A1, B) = (A2, B1)" by fastforce
  note w2 = hand_pdu_wf [OF w1 assms(2) 1]
  obtain B3 A3 where 2: "hand_pdu L KA (c 2) (t 2) (queue_payload ?cid q B1, A2) = (B3, A3)" by fastforce
  note w3 = hand_pdu_wf [OF queue_payload_wf [OF w2(2)] w2(1) 2]
  obtain A4 B4 where 3: "hand_pdu L KB (c 3) (t 3) (A3, B3) = (A4, B4)" by fastforce
  note w4 = hand_pdu_wf [OF w3(2,1) 3]
  obtain B5 A5 where 4: "hand_pdu L KA (c 4) (t 4) (B4, A4) = (B5, A5)" by fastforce
  note w5 = hand_pdu_wf [OF w4(2,1) 4]
  have "A' = A5" "B' = B5"
    using assms(4) 1 2 3 4 by (simp_all add: dispatcher_handshake_def Let_def A1_def [symmetric] del: One_nat_def)
  with w5 show "dispatcher_wf A'" "dispatcher_wf B'" by simp_all
qed

lemma no_entries: "(\<And>k. map_of d k = None) \<Longrightarrow> d = []"
  by (metis map_of_eq_empty_iff)

lemma quiet_iff_view:
  assumes "dispatcher_wf d" "dsp_outgoing_pdus d = []"
    and "\<And>cid. \<exists>e. view cid d = (e, None, None, None) \<and> (\<forall>s. e = Some s \<longrightarrow> idle L cid s)"
  shows "quiet L d"
proof -
  have "map_of (dsp_responder_sessions d) k = None" "map_of (dsp_initiator_templates d) k = None"
      "map_of (dsp_initiator_forks d) k = None"
      "map_of (dsp_established d) k = Some s \<Longrightarrow> idle L k s" for k s
    using assms(3) [of k] by (auto simp: view_def)
  moreover have "distinct (map fst (dsp_established d))" using assms(1) by (simp add: dispatcher_wf_def)
  ultimately show ?thesis
    using assms(2) by (auto simp: quiet_def list_all_iff no_entries)
qed

lemma quiet_view:
  assumes "quiet L d"
  shows "\<exists>e. view cid d = (e, None, None, None) \<and> (\<forall>s. e = Some s \<longrightarrow> idle L cid s)"
  using quietD [OF assms] by (simp add: view_def)

lemma handshake_links:
  assumes libs: "libs_work L"
    and ready: "handshake_ready L KA KB idA idB (new_initiator idA A) (new_responder B)"
    and uuid: "cid = coin_uuid4 (c 0)" "length cid = 16"
    and room: "has_room cid A" "has_room cid B"
    and pq: "short_payload p" "short_payload q"
    and run: "dispatcher_handshake L KA KB idA idB c t p q (A, B) = (A', B')"
    and wf: "dispatcher_wf A" "dispatcher_wf B"
    and linked: "linked L C n A B" "n + 1 \<le> 256 ^ 12"
  shows "linked L (insert cid C) n A' B'"
    and "dsp_outgoing_payloads B' = dsp_outgoing_payloads B @ (case p of None \<Rightarrow> [] | Some m \<Rightarrow> [(cid, m)])"
    and "dsp_outgoing_payloads A' = dsp_outgoing_payloads A @ (case q of None \<Rightarrow> [] | Some m \<Rightarrow> [(cid, m)])"
proof -
  from dispatcher_handshake_works [OF libs ready uuid(2) [unfolded uuid(1)] room [unfolded uuid(1)] pq run]
  obtain a b where v: "view cid A' = (Some a, None, None, None)" "view cid B' = (Some b, None, None, None)"
      "peers L a b" "outgoing_count a \<le> 1" "outgoing_count b \<le> 1"
      "ses_outgoing_payloads a = []" "ses_outgoing_payloads b = []"
    and out: "dsp_outgoing_payloads B' = dsp_outgoing_payloads B @ (case p of None \<Rightarrow> [] | Some m \<Rightarrow> [(cid, m)])"
      "dsp_outgoing_payloads A' = dsp_outgoing_payloads A @ (case q of None \<Rightarrow> [] | Some m \<Rightarrow> [(cid, m)])"
      "dsp_outgoing_pdus A' = []" "dsp_outgoing_pdus B' = []" "only_touches cid A A'" "only_touches cid B B'"
    by (fold uuid(1)) blast
  show "dsp_outgoing_payloads B' = dsp_outgoing_payloads B @ (case p of None \<Rightarrow> [] | Some m \<Rightarrow> [(cid, m)])"
    and "dsp_outgoing_payloads A' = dsp_outgoing_payloads A @ (case q of None \<Rightarrow> [] | Some m \<Rightarrow> [(cid, m)])"
    using out by simp_all
  have "cid \<notin> keys (dsp_established A)" using room(1) by (simp add: has_room_def view_def keys_def map_of_eq_None_iff)
  then have wf': "dispatcher_wf A'" "dispatcher_wf B'"
    using dispatcher_handshake_wf [OF wf _ run] uuid(1) by simp_all
  have ab: "idle L cid a" "idle L cid b"
    using v dispatcher_wfD(2) [OF wf'(1), of cid a] dispatcher_wfD(2) [OF wf'(2), of cid b]
    by (auto simp: idle_def peers_def view_def established_ok_def owned_def talking_def)
  have other: "view k A' = view k A" "view k B' = view k B" if "k \<noteq> cid" for k
    using out(5,6) that by (simp_all add: only_touches_view)
  have q: "quiet L A" "quiet L B" using linked(1) by (simp_all add: linked_def)
  have "quiet L A'"
  proof (rule quiet_iff_view [OF wf'(1) out(3)])
    show "\<exists>e. view k A' = (e, None, None, None) \<and> (\<forall>s. e = Some s \<longrightarrow> idle L k s)" for k
      using quiet_view [OF q(1), of k] v(1) ab(1) other(1) [of k] by (cases "k = cid") auto
  qed
  moreover have "quiet L B'"
  proof (rule quiet_iff_view [OF wf'(2) out(4)])
    show "\<exists>e. view k B' = (e, None, None, None) \<and> (\<forall>s. e = Some s \<longrightarrow> idle L k s)" for k
      using quiet_view [OF q(2), of k] v(2) ab(2) other(2) [of k] by (cases "k = cid") auto
  qed
  moreover have "peers_under L n k A' B'" if "k \<in> insert cid C" for k
  proof (cases "k = cid")
    case True
    then show ?thesis using v linked(2) by (simp add: peers_under_def view_def)
  next
    case False
    then have "peers_under L n k A B" using linked(1) that by (simp add: linked_def)
    then show ?thesis using other [OF False] by (simp add: peers_under_def view_def)
  qed
  ultimately show "linked L (insert cid C) n A' B'" by (simp add: linked_def)
qed

lemma new_dispatcher:
  assumes "Dispatcher_init config None = Inr d"
  shows "has_room cid d" "quiet L d" "dispatcher_wf d" "dsp_outgoing_payloads d = []"
proof -
  show "dispatcher_wf d" using dispatcher_reach_wf [OF dreach_default [OF assms]] .
  then have "store_wf (dsp_candidates d)" by (rule dispatcher_wfD(1))
  with assms show "has_room cid d" "quiet L d" "dsp_outgoing_payloads d = []"
    by (auto simp: Dispatcher_init_def CandidateStore_init_def has_room_def quiet_def view_def candidates_for_def
        total_count_def DEFAULT_MAX_CANDIDATES_PER_CID_def DEFAULT_MAX_TOTAL_CANDIDATES_def split: if_splits)
qed

text \<open>
  C4. From nothing to a conversation: two new dispatchers that complete a handshake carry whatever is said
  afterwards; all that each ever hands out is the payload the other had waiting at the handshake, then
  everything the other said, in order, under the correlation id of the handshake.
\<close>

theorem new_dispatchers_converse:
  assumes "libs_work L" "Dispatcher_init cA None = Inr A" "Dispatcher_init cB None = Inr B"
    and "handshake_ready L KA KB idA idB (new_initiator idA A) (new_responder B)"
    and "cid = coin_uuid4 (c 0)" "length cid = 16" "short_payload p" "short_payload q"
    and "dispatcher_handshake L KA KB idA idB c t p q (A, B) = (A1, B1)"
    and "list_all (turn_ok {cid}) ts" "int (length ts) < 256 ^ 12"
    and "converse_dispatchers L KA KB rnd t' ts (A1, B1) = (A2, B2)"
  shows "dsp_outgoing_payloads B2 = (case p of None \<Rightarrow> [] | Some m \<Rightarrow> [(cid, m)]) @ told True ts
    \<and> dsp_outgoing_payloads A2 = (case q of None \<Rightarrow> [] | Some m \<Rightarrow> [(cid, m)]) @ told False ts
    \<and> linked L {cid} 0 A2 B2"
proof -
  note A = new_dispatcher [OF assms(2)] and B = new_dispatcher [OF assms(3)]
  have "linked L {} (int (length ts)) A B" using A(2) B(2) by (simp add: linked_def)
  note l = handshake_links [OF assms(1,4-6) A(1) B(1) assms(7,8,9) A(3) B(3) this]
  have lib: "asn1_works L" "aead_works L" using libs_workD(1,4) [OF assms(1)] .
  have "linked L {cid} (int (length ts)) A1 B1" using l(1) assms(11) by simp
  from carried [OF lib this assms(10,12)] l(2,3) A(4) B(4) assms(11) show ?thesis by simp
qed

text \<open>
  C7. Two dispatchers that are peers under some correlation ids carry any conversation held under them:
  each hands out exactly what was posted to the other, under the id it was posted under and in the order it
  was said, and they are peers under all the ids again (a payload must be shorter than 2^31 bytes and the
  counters have 96 bits).
\<close>

theorem dispatchers_carry_conversation:
  assumes "asn1_works L" "aead_works L" "linked L C (int (length ts)) A B"
    and "list_all (turn_ok C) ts"
    and "converse_dispatchers L KA KB rnd t ts (A, B) = (A', B')"
  shows "dsp_outgoing_payloads B' = dsp_outgoing_payloads B @ told True ts
    \<and> dsp_outgoing_payloads A' = dsp_outgoing_payloads A @ told False ts
    \<and> linked L C 0 A' B'"
  by (rule carried [OF assms])

end
