(* ===== verification/ChannelWitness.thy ===== *)
theory ChannelWitness
  imports ConversationWitness LossyHandshake SecureChannel DispatcherConversation
begin

section \<open>Losses, conversations and a hostile network at concrete input\<close>

text \<open>
  The handshake of \<open>toy\<close> with three lost rounds; two new dispatchers that shake hands and then talk; the
  established pair of \<open>toy\<close> over a network that invents, repeats and loses PDUs.
\<close>

subsection \<open>A handshake that loses PDUs\<close>

definition toy_round :: "rat \<Rightarrow> bool \<Rightarrow> bool \<Rightarrow> round" where
  "toy_round now there back = \<lparr>rnd_coins = (toy_coins 3, toy_coins 2), rnd_now = now, rnd_there = there, rnd_back = back\<rparr>"

abbreviation toy_losses :: "round list" where
  "toy_losses \<equiv> [toy_round 5 False True, toy_round 10 True False] @ toy_round 15 True True #
     [toy_round 20 True False] @ [toy_round 25 True True]"

theorem handshake_survives_loss_witness:
  "peers toy (fst (lossy_handshake toy toy_lookup toy_lookup (toy_kid 2) (toy_coins 1) 0 toy_losses (toy_a0, toy_b0)))
      (snd (lossy_handshake toy toy_lookup toy_lookup (toy_kid 2) (toy_coins 1) 0 toy_losses (toy_a0, toy_b0)))
   \<and> ses_outgoing_payloads (fst (lossy_handshake toy toy_lookup toy_lookup (toy_kid 2) (toy_coins 1) 0 toy_losses
       (toy_a0, toy_b0))) = [[42]]"
proof -
  let ?r = "lossy_handshake toy toy_lookup toy_lookup (toy_kid 2) (toy_coins 1) 0 toy_losses (toy_a0, toy_b0)"
  have c: "ses_config toy_a0 = SessionConfig" "ses_config toy_b0 = SessionConfig"
      "ses_outgoing_payloads toy_a0 = []" "ses_pending_payload toy_b0 = Some [42]"
    by (simp_all add: toy_a0_def toy_b0_def post_payload_def Session_init_def)
  have w: "in_window 0 (cfg_ttl_seconds (ses_config toy_b0)) toy_losses"
      "paced (cfg_retry_interval_seconds (ses_config toy_a0)) (0 + cfg_retry_interval_seconds (ses_config toy_a0)) toy_losses"
    by (simp_all add: c in_window_def toy_round_def SessionConfig_def)
  have "cfg_max_retries (ses_config toy_a0) = 2" by (simp add: c SessionConfig_def)
  from handshake_survives_loss [OF toy_libs_work toy_ready toy_uuid [of 1] _ _ _ _ _ w(2,1) prod.collapse [symmetric]] this
  show ?thesis by (simp add: toy_round_def c)
qed

subsection \<open>Two dispatchers in conversation\<close>

abbreviation toy_turns :: "turn list" where
  "toy_turns \<equiv> [(True, toy_cid, [1]), (False, toy_cid, [2]), (True, toy_cid, [3])]"

abbreviation toy_talk :: "dispatcher \<times> dispatcher" where
  "toy_talk \<equiv> converse_dispatchers toy toy_lookup toy_lookup (\<lambda>n a b c. toy_coins (of_nat n)) (\<lambda>n. of_nat n + 10) toy_turns toy_run"

lemma toy_new_ready:
  "handshake_ready toy toy_lookup toy_lookup (toy_kid 1) (toy_kid 2) (new_initiator (toy_kid 1) toy_d0) (new_responder toy_d0)"
  using toy_responder_ready [of None] unfolding toy_new by (simp add: short_payload_def toy_responder_def Session_init_def)

lemma toy_first_cid: "toy_cid = coin_uuid4 (toy_coins (of_nat 0 + 1))" "length toy_cid = 16"
  by (simp_all add: toy_coins_def)

lemma toy_payloads: "short_payload (Some [7])" "short_payload (Some [42])"
  by (simp_all add: short_payload_def)

theorem new_dispatchers_converse_witness:
  "dsp_outgoing_payloads (snd toy_talk) = [(toy_cid, [7]), (toy_cid, [1]), (toy_cid, [3])]
   \<and> dsp_outgoing_payloads (fst toy_talk) = [(toy_cid, [42]), (toy_cid, [2])]"
proof -
  obtain A1 B1 where run: "toy_run = (A1, B1)" by fastforce
  obtain A2 B2 where talk: "toy_talk = (A2, B2)" by fastforce
  have ts: "list_all (turn_ok {toy_cid}) toy_turns" "int (length toy_turns) < 256 ^ 12" by (simp_all add: turn_ok_def)
  from new_dispatchers_converse [where c = "\<lambda>n. toy_coins (of_nat n + 1)",
      OF toy_libs_work toy_d0_new toy_d0_new toy_new_ready toy_first_cid toy_payloads run ts talk [unfolded run]]
  show ?thesis unfolding talk by simp
qed

theorem dispatchers_carry_conversation_witness:
  "dsp_outgoing_payloads (snd toy_talk) = dsp_outgoing_payloads (snd toy_run) @ [(toy_cid, [1]), (toy_cid, [3])]
   \<and> dsp_outgoing_payloads (fst toy_talk) = dsp_outgoing_payloads (fst toy_run) @ [(toy_cid, [2])]"
proof -
  obtain A1 B1 where run: "toy_run = (A1, B1)" by fastforce
  obtain A2 B2 where talk: "toy_talk = (A2, B2)" by fastforce
  note new = new_dispatcher [OF toy_d0_new]
  have "linked toy {} 3 toy_d0 toy_d0" using new(2) by (simp add: linked_def)
  then have l: "linked toy {toy_cid} (int (length toy_turns)) A1 B1"
    using handshake_links(1) [where c = "\<lambda>n. toy_coins (of_nat n + 1)",
        OF toy_libs_work toy_new_ready toy_first_cid new(1,1) toy_payloads run new(3,3)] by simp
  have ts: "list_all (turn_ok {toy_cid}) toy_turns" by (simp add: turn_ok_def)
  from dispatchers_carry_conversation [OF toy_asn1_works toy_aead_works l ts talk [unfolded run]]
  show ?thesis unfolding talk [unfolded run] run by simp
qed

subsection \<open>A hostile network\<close>

abbreviation toy_channel :: channel where
  "toy_channel \<equiv> \<lparr>chn_a = fst toy_pair, chn_b = snd toy_pair, chn_from_a = [], chn_from_b = []\<rparr>"

definition toy_said :: channel where
  "toy_said = channel_step toy toy_lookup toy_lookup (True, Say [7], toy_coins 4, 5) toy_channel"

definition toy_heard :: bytes where
  "toy_heard = hd (chn_from_a toy_said)"

text \<open>Noise, the message, the message again; what is said after that is lost.\<close>

abbreviation toy_traffic :: "channel_event list" where
  "toy_traffic \<equiv> [(True, Say [7], toy_coins 4, 5), (False, Get [], toy_coins 5, 6), (False, Get toy_heard, toy_coins 5, 7),
     (False, Get toy_heard, toy_coins 5, 8), (True, Say [8], toy_coins 4, 9)]"

lemma toy_heard_sent: "chn_from_a toy_said = [toy_heard]"
proof -
  obtain keys where k: "ses_session_keys (fst toy_pair) = Some keys" "ses_session_keys (snd toy_pair) = Some keys"
      "working_keys keys" "ses_cid (fst toy_pair) = Some (replicate 16 1)" "ses_cid (snd toy_pair) = Some (replicate 16 1)"
      "talking toy (fst toy_pair)" "talking toy (snd toy_pair)" "ses_seq_a2b (fst toy_pair) = 1" "ses_seq_b2a (fst toy_pair) = 1"
    by (rule toy_pair_facts)
  obtain key iv i where o: "outgoing_protection (fst toy_pair) keys = (key, iv, i)"
    by (cases "outgoing_protection (fst toy_pair) keys") auto
  have i: "i < 256 ^ 12" using o k(8,9) by (auto simp: outgoing_protection_def split: if_splits)
  obtain a' qs where p: "perform toy toy_lookup (toy_coins 4) 5 (Say [7]) (fst toy_pair) = (a', qs)" by fastforce
  obtain out where "qs = [out]"
    by (rule perform_say [OF toy_asn1_works toy_aead_works k(6,1,3,4) o i _ _ p]) simp_all
  then show ?thesis using p by (simp add: toy_said_def toy_heard_def)
qed

lemma channel_keeps_sent: "chn_from_a (channel_step L KA KB (False, x, c, now) ch) = chn_from_a ch"
  by (simp split: prod.split)

theorem channel_delivers_prefix_witness:
  "\<exists>k \<le> 2. ses_outgoing_payloads (chn_b (fold (channel_step toy toy_lookup toy_lookup) toy_traffic toy_channel)) =
     ses_outgoing_payloads (snd toy_pair) @ take k [[7], [8]]"
proof -
  have noise: "\<not> carries toy [] inner" for inner
    by (simp add: carries_def MakeMessage_load_def toy_def toy_decode_def)
  have u: "unforged toy toy_lookup toy_lookup toy_traffic toy_channel"
    using noise by (simp add: toy_said_def [symmetric] channel_keeps_sent toy_heard_sent genuine_def del: channel_step.simps)
  obtain keys where c: "ses_seq_a2b (fst toy_pair) = 1" "ses_seq_b2a (fst toy_pair) = 1"
      "ses_seq_a2b (snd toy_pair) = 1" "ses_seq_b2a (snd toy_pair) = 1"
    by (rule toy_pair_facts)
  have n: "outgoing_count (fst toy_pair) + int (length toy_traffic) \<le> 256 ^ 12"
      "outgoing_count (snd toy_pair) + int (length toy_traffic) \<le> 256 ^ 12"
    by (simp_all add: outgoing_count_def c)
  have ok: "list_all channel_event_ok toy_traffic" by simp
  obtain ch where run: "fold (channel_step toy toy_lookup toy_lookup) toy_traffic toy_channel = ch" by blast
  have sp: "spoken True toy_traffic = [[7], [8]]" "length [[7], [8 :: byte]] = 2" by simp_all
  from channel_delivers_prefix [OF toy_asn1_works toy_aead_works toy_pair_peers ok n u run, THEN conjunct1, unfolded sp]
  obtain k where "k \<le> 2" "ses_outgoing_payloads (chn_b ch) = ses_outgoing_payloads (snd toy_pair) @ take k [[7], [8]]"
    by (elim exE conjE) (rule that)
  then show ?thesis unfolding run by (intro exI [of _ k] conjI)
qed

end
