(* ===== verification/Keystore.thy ===== *)
theory Keystore
  imports Session
begin

section \<open>\<^verbatim>\<open>keystore.py\<close>: the key directory\<close>

text \<open>
  A key directory is a set of small files; every method is a function of the files before the call, what
  the call gets from the operating system (\<open>os_env\<close>: random bytes, the name of a temporary file, where an
  I/O error strikes if one does) and its arguments, and returns the result with the files after it. Paths
  are relative to the directory. \<open>key_directory\<close> is the Python object, whose state is the master key.

  Files are dicts from path to contents and mode; a path is not resolved further, so two different
  strings are two different files. Of the zeroing of buffers only \<open>close\<close> is visible here: all other
  buffers are local to one call.
\<close>

subsection \<open>Constants\<close>

definition MASTER_KEY_LEN :: int where "MASTER_KEY_LEN = 32"
definition KEK_LEN :: int where "KEK_LEN = 32"
definition MAC_KEY_LEN :: int where "MAC_KEY_LEN = 32"
definition DEFAULT_PBKDF2_ITERATIONS :: int where "DEFAULT_PBKDF2_ITERATIONS = 600000"

definition DOMAIN_KEK :: bytes where "DOMAIN_KEK = ascii ''kem-make-keystore-kek-v1''"
definition DOMAIN_CHECK :: bytes where "DOMAIN_CHECK = ascii ''kem-make-keystore-check-v1''"
definition CHECK_VALUE :: bytes where "CHECK_VALUE = ascii ''kem-make-keystore-checkvalue-v1''"
definition DOMAIN_PUBLIC_KEY_MAC :: bytes where
  "DOMAIN_PUBLIC_KEY_MAC = ascii ''kem-make-keystore-pubkey-mac-v1''"
definition DOMAIN_ALT_INDEX_MAC :: bytes where
  "DOMAIN_ALT_INDEX_MAC = ascii ''kem-make-keystore-altindex-mac-v1''"

definition WRAP_ALGORITHM_OID :: oid where "WRAP_ALGORITHM_OID = ''2.16.840.1.101.3.4.1.48''"

subsection \<open>Strings\<close>

text \<open>\<^verbatim>\<open>bytes.hex()\<close> and \<^verbatim>\<open>bytes.fromhex()\<close> (which skips whitespace between bytes).\<close>

definition hex_digit :: "nat \<Rightarrow> char" where
  "hex_digit n = ''0123456789abcdef'' ! n"

definition hex :: "bytes \<Rightarrow> string" where
  "hex bs = concat (map (\<lambda>b. [hex_digit (unat b div 16), hex_digit (unat b mod 16)]) bs)"

definition digit_value :: "char \<Rightarrow> nat option" where
  "digit_value c = (let n = of_char c in
     if 48 \<le> n \<and> n \<le> 57 then Some (n - 48)
     else if 97 \<le> n \<and> n \<le> 102 then Some (n - 87)
     else if 65 \<le> n \<and> n \<le> 70 then Some (n - 55)
     else None)"

definition is_space :: "char \<Rightarrow> bool" where
  "is_space c \<longleftrightarrow> (of_char c :: nat) \<in> {9, 10, 11, 12, 13, 32}"

fun fromhex :: "string \<Rightarrow> bytes result" where
  "fromhex [] = Inr []"
| "fromhex [c] = (if is_space c then Inr [] else Inl ValueError)"
| "fromhex (c # d # r) =
     (if is_space c then fromhex (d # r)
      else (case (digit_value c, digit_value d) of
              (Some h, Some l) \<Rightarrow> rbind (fromhex r) (\<lambda>bs. Inr (word_of_nat (16 * h + l) # bs))
            | _ \<Rightarrow> Inl ValueError))"

text \<open>\<^verbatim>\<open>bytes.decode("ascii")\<close>.\<close>

definition decode_ascii :: "bytes \<Rightarrow> string result" where
  "decode_ascii bs = (if list_all (\<lambda>b. b < 128) bs then Inr (map (\<lambda>b. char_of (unat b)) bs) else Inl ValueError)"

text \<open>A passphrase is bytes or a Python string (code points), which is encoded in UTF-8.\<close>

datatype passphrase = PassBytes bytes | PassStr "nat list"

definition utf8_char :: "nat \<Rightarrow> bytes result" where
  "utf8_char n =
     (if n < 128 then Inr [word_of_nat n]
      else if n < 2048 then Inr [word_of_nat (192 + n div 64), word_of_nat (128 + n mod 64)]
      else if 55296 \<le> n \<and> n < 57344 then Inl ValueError
      else if n < 65536 then
        Inr [word_of_nat (224 + n div 4096), word_of_nat (128 + n div 64 mod 64), word_of_nat (128 + n mod 64)]
      else Inr [word_of_nat (240 + n div 262144), word_of_nat (128 + n div 4096 mod 64),
                word_of_nat (128 + n div 64 mod 64), word_of_nat (128 + n mod 64)])"

fun passphrase_bytes :: "passphrase \<Rightarrow> bytes result" where
  "passphrase_bytes (PassBytes b) = Inr b"
| "passphrase_bytes (PassStr cs) = rbind (rmap utf8_char cs) (\<lambda>bs. Inr (concat bs))"

subsection \<open>Files\<close>

record stored_file =
  file_data :: bytes
  file_mode :: int

record filesystem =
  fs_files :: "(string, stored_file) dict"
  fs_dirs :: "(string, int) dict"

definition file_exists :: "string \<Rightarrow> filesystem \<Rightarrow> bool" where
  "file_exists p fs \<longleftrightarrow> map_of (fs_files fs) p \<noteq> None"

definition read_bytes :: "string \<Rightarrow> filesystem \<Rightarrow> bytes result" where
  "read_bytes p fs = (case map_of (fs_files fs) p of None \<Rightarrow> Inl OSError | Some f \<Rightarrow> Inr (file_data f))"

definition put_file :: "string \<Rightarrow> stored_file \<Rightarrow> filesystem \<Rightarrow> filesystem" where
  "put_file p f fs = fs\<lparr>fs_files := AList.update p f (fs_files fs)\<rparr>"

definition unlink :: "string \<Rightarrow> filesystem \<Rightarrow> filesystem" where
  "unlink p fs = fs\<lparr>fs_files := AList.delete p (fs_files fs)\<rparr>"

text \<open>\<^verbatim>\<open>mkdir(exist_ok=True)\<close> and \<^verbatim>\<open>oschmod.set_mode\<close> of a directory.\<close>

definition make_dir :: "string \<Rightarrow> int \<Rightarrow> filesystem \<Rightarrow> filesystem" where
  "make_dir p mode fs = fs\<lparr>fs_dirs := AList.update p mode (fs_dirs fs)\<rparr>"

record os_env =
  env_salt :: bytes
  env_tmp :: string
  env_fault :: "nat option"

text \<open>\<^verbatim>\<open>path.parent\<close>, with its slash.\<close>

definition parent_dir :: "string \<Rightarrow> string" where
  "parent_dir p = rev (dropWhile (\<lambda>c. c \<noteq> CHR ''/'') (rev p))"

definition tmp_path :: "os_env \<Rightarrow> string \<Rightarrow> string" where
  "tmp_path env p = parent_dir p @ ''.tmp-'' @ env_tmp env @ ''.part''"

text \<open>
  \<open>atomic_write\<close>: the temporary file is made (mode 0600), written, given its mode and renamed. \<open>env_fault\<close>
  is the operation that raises, if one does: 0 is \<^verbatim>\<open>mkstemp\<close>, which is outside the \<^verbatim>\<open>try\<close> block; after
  the others the temporary file is removed again (theory KeystoreCrash also covers a removal that fails).
\<close>

definition atomic_write :: "os_env \<Rightarrow> string \<Rightarrow> bytes \<Rightarrow> int \<Rightarrow> filesystem \<Rightarrow> unit result \<times> filesystem" where
  "atomic_write env path data mode fs =
     (let tmp = tmp_path env path
      in if env_fault env = Some 0 \<or> file_exists tmp fs then (Inl OSError, fs)
         else
           let fs1 = put_file tmp \<lparr>file_data = [], file_mode = 384\<rparr> fs
           in if env_fault env = Some 1 then (Inl OSError, unlink tmp fs1)
              else
                let fs2 = put_file tmp \<lparr>file_data = data, file_mode = 384\<rparr> fs1
                in if env_fault env = Some 2 then (Inl OSError, unlink tmp fs2)
                   else
                     let fs3 = put_file tmp \<lparr>file_data = data, file_mode = mode\<rparr> fs2
                     in if env_fault env = Some 3 then (Inl OSError, unlink tmp fs3)
                        else (Inr (), put_file path \<lparr>file_data = data, file_mode = mode\<rparr> (unlink tmp fs3)))"

subsection \<open>Key derivation\<close>

definition zero :: "bytes \<Rightarrow> bytes" where
  "zero buf = replicate (length buf) 0"

definition key_hash_equal :: "bytes \<Rightarrow> bytes \<Rightarrow> bool" where
  "key_hash_equal a b \<longleftrightarrow> a = b"

definition derive_master_key :: "lib \<Rightarrow> passphrase \<Rightarrow> bytes \<Rightarrow> int \<Rightarrow> bytes result" where
  "derive_master_key L passphrase salt iterations =
     rbind (passphrase_bytes passphrase) (\<lambda>p. pbkdf2_sha256 L MASTER_KEY_LEN salt iterations p)"

definition derive_kek :: "lib \<Rightarrow> bytes \<Rightarrow> bytes \<Rightarrow> bytes \<Rightarrow> bytes result" where
  "derive_kek L master_key salt key_identity =
     hkdf_sha256 L KEK_LEN salt (DOMAIN_KEK @ key_identity) master_key"

definition derive_public_key_mac_key :: "lib \<Rightarrow> bytes \<Rightarrow> bytes \<Rightarrow> string \<Rightarrow> bytes result" where
  "derive_public_key_mac_key L master_key salt hex_id =
     hkdf_sha256 L MAC_KEY_LEN salt (DOMAIN_PUBLIC_KEY_MAC @ ascii hex_id) master_key"

definition derive_alt_index_mac_key :: "lib \<Rightarrow> bytes \<Rightarrow> bytes \<Rightarrow> bytes result" where
  "derive_alt_index_mac_key L master_key salt =
     hkdf_sha256 L MAC_KEY_LEN salt DOMAIN_ALT_INDEX_MAC master_key"

definition derive_check_tag :: "lib \<Rightarrow> bytes \<Rightarrow> bytes \<Rightarrow> bytes result" where
  "derive_check_tag L master_key header_salt =
     rbind (hkdf_sha256 L 32 header_salt DOMAIN_CHECK master_key) (\<lambda>check_key.
       Inr (hmac_sha256 L check_key CHECK_VALUE))"

definition digest_oid :: "lib \<Rightarrow> string \<Rightarrow> oid result" where
  "digest_oid L name = rbind (digest_algorithm L name) (\<lambda>alg. Inr (alg_algorithm alg))"

subsection \<open>On-disk records\<close>

record keystore_header =
  kh_version :: int
  kh_kdf_salt :: bytes
  kh_kdf_iterations :: int
  kh_verification_tag :: bytes

definition keystore_header_value :: "keystore_header \<Rightarrow> asn1" where
  "keystore_header_value h = ASeq
     ((if kh_version h = 0 then [] else [AInt (kh_version h)]) @
      [AOctets (kh_kdf_salt h), AInt (kh_kdf_iterations h), AOctets (kh_verification_tag h)])"

definition keystore_header_of :: "asn1 \<Rightarrow> keystore_header result" where
  "keystore_header_of t = rbind (as_seq t) (\<lambda>fs. case fs of
       [s, i, v] \<Rightarrow> rbind (as_octets s) (\<lambda>salt. rbind (as_int i) (\<lambda>iterations. rbind (as_octets v) (\<lambda>tag.
         Inr \<lparr>kh_version = 0, kh_kdf_salt = salt, kh_kdf_iterations = iterations, kh_verification_tag = tag\<rparr>)))
     | [n, s, i, v] \<Rightarrow> rbind (as_int n) (\<lambda>version. rbind (as_octets s) (\<lambda>salt. rbind (as_int i) (\<lambda>iterations.
         rbind (as_octets v) (\<lambda>tag.
         Inr \<lparr>kh_version = version, kh_kdf_salt = salt, kh_kdf_iterations = iterations,
              kh_verification_tag = tag\<rparr>))))
     | _ \<Rightarrow> Inl ValueError)"

text \<open>The \<open>load\<close> every record class has: decode, apply the fields, require canonical DER.\<close>

definition canonical :: "lib \<Rightarrow> (asn1 \<Rightarrow> 'a result) \<Rightarrow> ('a \<Rightarrow> asn1) \<Rightarrow> bytes \<Rightarrow> 'a result" where
  "canonical L of_value value encoded_data =
     rbind (ber_decode L encoded_data) (\<lambda>t.
     rbind (of_value t) (\<lambda>obj.
     rbind (require_der (\<lambda>x. Inr (der_encode L (value x))) encoded_data obj) (\<lambda>_. Inr obj)))"

definition KeystoreHeader_load :: "lib \<Rightarrow> bytes \<Rightarrow> keystore_header result" where
  "KeystoreHeader_load L = canonical L keystore_header_of keystore_header_value"

record public_key_entry_data =
  ped_public_key :: kem_public_key
  ped_key_ids :: "key_id list"

definition public_key_entry_data_value :: "public_key_entry_data \<Rightarrow> asn1" where
  "public_key_entry_data_value d =
     ASeq [kem_public_key_value (ped_public_key d), ASeq (map key_id_value (ped_key_ids d))]"

definition public_key_entry_data_of :: "asn1 \<Rightarrow> public_key_entry_data result" where
  "public_key_entry_data_of t = rbind (as_seq t) (\<lambda>fs. case fs of
       [k, l] \<Rightarrow> rbind (kem_public_key_of k) (\<lambda>pk. rbind (as_seq l) (\<lambda>ts.
         rbind (rmap key_id_of ts) (\<lambda>ids. Inr \<lparr>ped_public_key = pk, ped_key_ids = ids\<rparr>)))
     | _ \<Rightarrow> Inl ValueError)"

record stored_public_key_entry =
  spe_data :: public_key_entry_data
  spe_mac_salt :: bytes
  spe_mac_tag :: bytes

definition stored_public_key_entry_value :: "stored_public_key_entry \<Rightarrow> asn1" where
  "stored_public_key_entry_value e =
     ASeq [public_key_entry_data_value (spe_data e), AOctets (spe_mac_salt e), AOctets (spe_mac_tag e)]"

definition stored_public_key_entry_of :: "asn1 \<Rightarrow> stored_public_key_entry result" where
  "stored_public_key_entry_of t = rbind (as_seq t) (\<lambda>fs. case fs of
       [d, s, g] \<Rightarrow> rbind (public_key_entry_data_of d) (\<lambda>dat. rbind (as_octets s) (\<lambda>salt.
         rbind (as_octets g) (\<lambda>tag. Inr \<lparr>spe_data = dat, spe_mac_salt = salt, spe_mac_tag = tag\<rparr>)))
     | _ \<Rightarrow> Inl ValueError)"

definition StoredPublicKeyEntry_load :: "lib \<Rightarrow> bytes \<Rightarrow> stored_public_key_entry result" where
  "StoredPublicKeyEntry_load L = canonical L stored_public_key_entry_of stored_public_key_entry_value"

record stored_private_key_entry =
  sve_key_id :: key_id
  sve_kek_salt :: bytes
  sve_wrap_algorithm :: oid
  sve_wrapped_key :: bytes

definition stored_private_key_entry_value :: "stored_private_key_entry \<Rightarrow> asn1" where
  "stored_private_key_entry_value e =
     ASeq [key_id_value (sve_key_id e), AOctets (sve_kek_salt e), AOid (sve_wrap_algorithm e),
           AOctets (sve_wrapped_key e)]"

definition stored_private_key_entry_of :: "asn1 \<Rightarrow> stored_private_key_entry result" where
  "stored_private_key_entry_of t = rbind (as_seq t) (\<lambda>fs. case fs of
       [k, s, d, w] \<Rightarrow> rbind (key_id_of k) (\<lambda>kid. rbind (as_octets s) (\<lambda>salt. rbind (as_oid d) (\<lambda>alg.
         rbind (as_octets w) (\<lambda>wrapped.
         Inr \<lparr>sve_key_id = kid, sve_kek_salt = salt, sve_wrap_algorithm = alg, sve_wrapped_key = wrapped\<rparr>))))
     | _ \<Rightarrow> Inl ValueError)"

definition StoredPrivateKeyEntry_load :: "lib \<Rightarrow> bytes \<Rightarrow> stored_private_key_entry result" where
  "StoredPrivateKeyEntry_load L = canonical L stored_private_key_entry_of stored_private_key_entry_value"

record alt_index_entry =
  aie_key_id :: key_id
  aie_primary_hex :: bytes

definition alt_index_entry_value :: "alt_index_entry \<Rightarrow> asn1" where
  "alt_index_entry_value e = ASeq [key_id_value (aie_key_id e), AOctets (aie_primary_hex e)]"

definition alt_index_entry_of :: "asn1 \<Rightarrow> alt_index_entry result" where
  "alt_index_entry_of t = rbind (as_seq t) (\<lambda>fs. case fs of
       [k, p] \<Rightarrow> rbind (key_id_of k) (\<lambda>kid. rbind (as_octets p) (\<lambda>primary_hex.
         Inr \<lparr>aie_key_id = kid, aie_primary_hex = primary_hex\<rparr>))
     | _ \<Rightarrow> Inl ValueError)"

definition AltIndexEntry_load :: "lib \<Rightarrow> bytes \<Rightarrow> alt_index_entry result" where
  "AltIndexEntry_load L = canonical L alt_index_entry_of alt_index_entry_value"

definition alt_index_value :: "alt_index_entry list \<Rightarrow> asn1" where
  "alt_index_value es = ASeq (map alt_index_entry_value es)"

record alt_index_file =
  aif_entries :: "alt_index_entry list"
  aif_mac_salt :: bytes
  aif_mac_tag :: bytes

definition alt_index_file_value :: "alt_index_file \<Rightarrow> asn1" where
  "alt_index_file_value f =
     ASeq [alt_index_value (aif_entries f), AOctets (aif_mac_salt f), AOctets (aif_mac_tag f)]"

definition alt_index_file_of :: "asn1 \<Rightarrow> alt_index_file result" where
  "alt_index_file_of t = rbind (as_seq t) (\<lambda>fs. case fs of
       [l, s, g] \<Rightarrow> rbind (as_seq l) (\<lambda>ts. rbind (rmap alt_index_entry_of ts) (\<lambda>es.
         rbind (as_octets s) (\<lambda>salt. rbind (as_octets g) (\<lambda>tag.
         Inr \<lparr>aif_entries = es, aif_mac_salt = salt, aif_mac_tag = tag\<rparr>))))
     | _ \<Rightarrow> Inl ValueError)"

definition AltIndexFile_load :: "lib \<Rightarrow> bytes \<Rightarrow> alt_index_file result" where
  "AltIndexFile_load L = canonical L alt_index_file_of alt_index_file_value"

subsection \<open>Lifecycle\<close>

record key_directory =
  kd_master_key :: bytes

definition HEADER_PATH :: string where "HEADER_PATH = ''header.der''"

definition is_empty_dir :: "filesystem \<Rightarrow> bool" where
  "is_empty_dir fs \<longleftrightarrow> fs_files fs = [] \<and> list_all (\<lambda>(p, _). p = []) (fs_dirs fs)"

definition create :: "lib \<Rightarrow> os_env \<Rightarrow> passphrase \<Rightarrow> int \<Rightarrow> filesystem \<Rightarrow> key_directory result \<times> filesystem" where
  "create L env passphrase iterations fs =
     (if \<not> is_empty_dir fs then (Inl KeyDirectoryError, fs)
      else
        let fs1 = make_dir ''private'' 448 (make_dir ''public'' 448 (make_dir [] 448 fs));
            kdf_salt = env_salt env
        in case rbind (derive_master_key L passphrase kdf_salt iterations) (\<lambda>master_key.
                rbind (derive_check_tag L master_key kdf_salt) (\<lambda>check_tag.
                Inr (master_key, \<lparr>kh_version = 0, kh_kdf_salt = kdf_salt, kh_kdf_iterations = iterations,
                                  kh_verification_tag = check_tag\<rparr>))) of
             Inl e \<Rightarrow> (Inl e, fs1)
           | Inr (master_key, header) \<Rightarrow>
               sseq (atomic_write env HEADER_PATH (der_encode L (keystore_header_value header)) 384 fs1) (\<lambda>_ fs2.
                 (Inr \<lparr>kd_master_key = master_key\<rparr>, fs2)))"

definition open_directory :: "lib \<Rightarrow> passphrase \<Rightarrow> filesystem \<Rightarrow> key_directory result" where
  "open_directory L passphrase fs =
     (if \<not> file_exists HEADER_PATH fs then Inl KeyDirectoryError
      else
        rbind (read_bytes HEADER_PATH fs) (\<lambda>b.
        rbind (KeystoreHeader_load L b) (\<lambda>header.
        rbind (derive_master_key L passphrase (kh_kdf_salt header) (kh_kdf_iterations header)) (\<lambda>master_key.
        rbind (derive_check_tag L master_key (kh_kdf_salt header)) (\<lambda>actual_tag.
        if actual_tag \<noteq> kh_verification_tag header then Inl WrongPassphrase
        else Inr \<lparr>kd_master_key = master_key\<rparr>)))))"

definition close_directory :: "key_directory \<Rightarrow> key_directory" where
  "close_directory K = K\<lparr>kd_master_key := zero (kd_master_key K)\<rparr>"

subsection \<open>Paths and ids\<close>

definition public_path :: "string \<Rightarrow> string" where
  "public_path hex_id = ''public/'' @ hex_id @ ''.der''"

definition private_path :: "string \<Rightarrow> string" where
  "private_path hex_id = ''private/'' @ hex_id @ ''.der''"

definition ALT_INDEX_PATH :: string where "ALT_INDEX_PATH = ''alt_index.der''"

definition hex_of :: "key_id \<Rightarrow> string" where
  "hex_of key_id = hex (kid_key_hash key_id)"

definition primary_key_id :: "lib \<Rightarrow> kem_public_key \<Rightarrow> key_id result" where
  "primary_key_id L public_key = KeyId_build L public_key ''sha256''"

text \<open>The condition of the \<^verbatim>\<open>any(...)\<close> over the ids of an entry.\<close>

definition same_key_id :: "key_id \<Rightarrow> key_id \<Rightarrow> bool" where
  "same_key_id key_id kid \<longleftrightarrow>
     alg_algorithm (kid_hash_algorithm kid) = alg_algorithm (kid_hash_algorithm key_id) \<and>
     key_hash_equal (kid_key_hash kid) (kid_key_hash key_id)"

subsection \<open>Public key integrity\<close>

definition mac_public_key_data ::
    "lib \<Rightarrow> key_directory \<Rightarrow> public_key_entry_data \<Rightarrow> bytes \<Rightarrow> string \<Rightarrow> bytes result" where
  "mac_public_key_data L K data salt hex_id =
     rbind (derive_public_key_mac_key L (kd_master_key K) salt hex_id) (\<lambda>mac_key.
       Inr (hmac_sha256 L mac_key (der_encode L (public_key_entry_data_value data))))"

definition build_stored_public_key_entry ::
    "lib \<Rightarrow> key_directory \<Rightarrow> os_env \<Rightarrow> public_key_entry_data \<Rightarrow> string \<Rightarrow> stored_public_key_entry result" where
  "build_stored_public_key_entry L K env data hex_id =
     rbind (mac_public_key_data L K data (env_salt env) hex_id) (\<lambda>tag.
       Inr \<lparr>spe_data = data, spe_mac_salt = env_salt env, spe_mac_tag = tag\<rparr>)"

definition verify_and_get_data ::
    "lib \<Rightarrow> key_directory \<Rightarrow> stored_public_key_entry \<Rightarrow> string \<Rightarrow> public_key_entry_data result" where
  "verify_and_get_data L K stored hex_id =
     rbind (mac_public_key_data L K (spe_data stored) (spe_mac_salt stored) hex_id) (\<lambda>expected_tag.
       if spe_mac_tag stored \<noteq> expected_tag then Inl PublicKeyIntegrityError
       else Inr (spe_data stored))"

text \<open>Read, load and verify the entry of one file name.\<close>

definition load_verified :: "lib \<Rightarrow> key_directory \<Rightarrow> string \<Rightarrow> filesystem \<Rightarrow> public_key_entry_data result" where
  "load_verified L K hex_id fs =
     rbind (read_bytes (public_path hex_id) fs) (\<lambda>b.
     rbind (StoredPublicKeyEntry_load L b) (\<lambda>stored.
     verify_and_get_data L K stored hex_id))"

subsection \<open>The alternate index\<close>

definition mac_alt_index :: "lib \<Rightarrow> key_directory \<Rightarrow> alt_index_entry list \<Rightarrow> bytes \<Rightarrow> bytes result" where
  "mac_alt_index L K entries salt =
     rbind (derive_alt_index_mac_key L (kd_master_key K) salt) (\<lambda>mac_key.
       Inr (hmac_sha256 L mac_key (der_encode L (alt_index_value entries))))"

definition load_alt_index :: "lib \<Rightarrow> key_directory \<Rightarrow> filesystem \<Rightarrow> alt_index_entry list result" where
  "load_alt_index L K fs =
     (if \<not> file_exists ALT_INDEX_PATH fs then Inr []
      else
        rbind (read_bytes ALT_INDEX_PATH fs) (\<lambda>b.
        rbind (AltIndexFile_load L b) (\<lambda>file_obj.
        rbind (mac_alt_index L K (aif_entries file_obj) (aif_mac_salt file_obj)) (\<lambda>expected_tag.
        if aif_mac_tag file_obj \<noteq> expected_tag then Inl AltIndexIntegrityError
        else Inr (aif_entries file_obj)))))"

fun alt_index_find :: "key_id \<Rightarrow> alt_index_entry list \<Rightarrow> string option result" where
  "alt_index_find key_id [] = Inr None"
| "alt_index_find key_id (e # es) =
     (if same_key_id key_id (aie_key_id e)
      then rbind (decode_ascii (aie_primary_hex e)) (\<lambda>primary_hex. Inr (Some primary_hex))
      else alt_index_find key_id es)"

definition alt_index_lookup :: "lib \<Rightarrow> key_directory \<Rightarrow> key_id \<Rightarrow> filesystem \<Rightarrow> string option result" where
  "alt_index_lookup L K key_id fs = rbind (load_alt_index L K fs) (alt_index_find key_id)"

definition alt_index_add ::
    "lib \<Rightarrow> key_directory \<Rightarrow> os_env \<Rightarrow> key_id \<Rightarrow> string \<Rightarrow> filesystem \<Rightarrow> unit result \<times> filesystem" where
  "alt_index_add L K env key_id primary_hex fs =
     (case rbind (load_alt_index L K fs) (\<lambda>existing.
           let new_entries = existing @ [\<lparr>aie_key_id = key_id, aie_primary_hex = ascii primary_hex\<rparr>];
               salt = env_salt env
           in rbind (mac_alt_index L K new_entries salt) (\<lambda>tag.
              Inr \<lparr>aif_entries = new_entries, aif_mac_salt = salt, aif_mac_tag = tag\<rparr>)) of
        Inl e \<Rightarrow> (Inl e, fs)
      | Inr file_obj \<Rightarrow> atomic_write env ALT_INDEX_PATH (der_encode L (alt_index_file_value file_obj)) 384 fs)"

subsection \<open>Public keys\<close>

datatype public_key_arg = WireKey kem_public_key | Mlkem768Public bytes | Mlkem1024Public bytes

fun to_wire_key :: "public_key_arg \<Rightarrow> kem_public_key result" where
  "to_wire_key (WireKey k) = Inr k"
| "to_wire_key (Mlkem768Public b) = KemPublicKey_build b (Some 768) None"
| "to_wire_key (Mlkem1024Public b) = KemPublicKey_build b (Some 1024) None"

definition add_public_key ::
    "lib \<Rightarrow> key_directory \<Rightarrow> os_env \<Rightarrow> public_key_arg \<Rightarrow> filesystem \<Rightarrow> key_id result \<times> filesystem" where
  "add_public_key L K env public_key fs =
     (case rbind (to_wire_key public_key) (\<lambda>wire.
           rbind (primary_key_id L wire) (\<lambda>primary.
           if file_exists (public_path (hex_of primary)) fs then Inl DuplicateKey
           else
             rbind (build_stored_public_key_entry L K env
                      \<lparr>ped_public_key = wire, ped_key_ids = [primary]\<rparr> (hex_of primary)) (\<lambda>entry.
             Inr (primary, entry)))) of
        Inl e \<Rightarrow> (Inl e, fs)
      | Inr (primary, entry) \<Rightarrow>
          sseq (atomic_write env (public_path (hex_of primary))
                  (der_encode L (stored_public_key_entry_value entry)) 420 fs) (\<lambda>_ fs'. (Inr primary, fs')))"

definition load_public_entry_by_key_id ::
    "lib \<Rightarrow> key_directory \<Rightarrow> key_id \<Rightarrow> filesystem \<Rightarrow> public_key_entry_data result" where
  "load_public_entry_by_key_id L K key_id fs =
     (let hex_id = hex_of key_id
      in rbind (if file_exists (public_path hex_id) fs
                then rbind (load_verified L K hex_id fs) (\<lambda>data.
                  Inr (if list_ex (same_key_id key_id) (ped_key_ids data) then Some data else None))
                else Inr None) (\<lambda>direct.
         case direct of
           Some data \<Rightarrow> Inr data
         | None \<Rightarrow>
             rbind (alt_index_lookup L K key_id fs) (\<lambda>found.
             case found of
               None \<Rightarrow> Inl KeyNotFound
             | Some primary_hex \<Rightarrow>
                 if file_exists (public_path primary_hex) fs
                 then rbind (load_verified L K primary_hex fs) (\<lambda>data.
                   if list_ex (same_key_id key_id) (ped_key_ids data) then Inr data else Inl KeyNotFound)
                 else Inl KeyNotFound)))"

definition get_public_key :: "lib \<Rightarrow> key_directory \<Rightarrow> key_id \<Rightarrow> filesystem \<Rightarrow> kem_public_key result" where
  "get_public_key L K key_id fs =
     rbind (load_public_entry_by_key_id L K key_id fs) (\<lambda>data. Inr (ped_public_key data))"

text \<open>\<open>key_id_for\<close> takes a key or one of its ids.\<close>

datatype key_or_id = ByKeyId key_id | ByKey kem_public_key

fun cached_key_id :: "lib \<Rightarrow> string \<Rightarrow> key_id list \<Rightarrow> key_id option result" where
  "cached_key_id L digest [] = Inr None"
| "cached_key_id L digest (kid # kids) =
     rbind (digest_oid L digest) (\<lambda>oid.
       if alg_algorithm (kid_hash_algorithm kid) = oid then Inr (Some kid) else cached_key_id L digest kids)"

definition key_id_for ::
    "lib \<Rightarrow> key_directory \<Rightarrow> os_env \<Rightarrow> os_env \<Rightarrow> key_or_id \<Rightarrow> string \<Rightarrow> filesystem \<Rightarrow> key_id result \<times> filesystem" where
  "key_id_for L K env env' arg digest fs =
     (case rbind (case arg of
             ByKeyId key_id \<Rightarrow> load_public_entry_by_key_id L K key_id fs
           | ByKey public_key \<Rightarrow>
               rbind (primary_key_id L public_key) (\<lambda>key_id. load_public_entry_by_key_id L K key_id fs)) (\<lambda>data.
           rbind (cached_key_id L digest (ped_key_ids data)) (\<lambda>cached. Inr (data, cached))) of
        Inl e \<Rightarrow> (Inl e, fs)
      | Inr (data, Some kid) \<Rightarrow> (Inr kid, fs)
      | Inr (data, None) \<Rightarrow>
          (case rbind (KeyId_build L (ped_public_key data) digest) (\<lambda>new_kid.
                let data' = data\<lparr>ped_key_ids := ped_key_ids data @ [new_kid]\<rparr>;
                    primary_hex = hex_of (hd (ped_key_ids data'))
                in rbind (build_stored_public_key_entry L K env data' primary_hex) (\<lambda>entry.
                   Inr (new_kid, primary_hex, entry))) of
             Inl e \<Rightarrow> (Inl e, fs)
           | Inr (new_kid, primary_hex, entry) \<Rightarrow>
               sseq (atomic_write env (public_path primary_hex)
                       (der_encode L (stored_public_key_entry_value entry)) 420 fs) (\<lambda>_ fs1.
               sseq (alt_index_add L K env' new_kid primary_hex fs1) (\<lambda>_ fs2.
               (Inr new_kid, fs2)))))"

subsection \<open>Private keys\<close>

definition add_private_key ::
    "lib \<Rightarrow> key_directory \<Rightarrow> os_env \<Rightarrow> kem_public_key \<Rightarrow> bytes \<Rightarrow> filesystem \<Rightarrow> key_id result \<times> filesystem" where
  "add_private_key L K env public_key private_key_bytes fs =
     (case rbind (primary_key_id L public_key) (\<lambda>primary.
           if \<not> file_exists (public_path (hex_of primary)) fs then Inl PrivateKeyRequiresPublicKey
           else if file_exists (private_path (hex_of primary)) fs then Inl DuplicateKey
           else
             rbind (derive_kek L (kd_master_key K) (env_salt env) (KeyId_dump L primary)) (\<lambda>kek.
             rbind (aes_key_wrap_with_padding L kek private_key_bytes) (\<lambda>wrapped_key.
             Inr (primary, \<lparr>sve_key_id = primary, sve_kek_salt = env_salt env,
                            sve_wrap_algorithm = WRAP_ALGORITHM_OID, sve_wrapped_key = wrapped_key\<rparr>)))) of
        Inl e \<Rightarrow> (Inl e, fs)
      | Inr (primary, entry) \<Rightarrow>
          sseq (atomic_write env (private_path (hex_of primary))
                  (der_encode L (stored_private_key_entry_value entry)) 384 fs) (\<lambda>_ fs'. (Inr primary, fs')))"

text \<open>The hex of the primary id under which a private key is filed.\<close>

definition primary_hex_of :: "lib \<Rightarrow> key_directory \<Rightarrow> key_id \<Rightarrow> filesystem \<Rightarrow> string result" where
  "primary_hex_of L K key_id fs =
     rbind (digest_oid L ''sha256'') (\<lambda>sha256_oid.
       if alg_algorithm (kid_hash_algorithm key_id) \<noteq> sha256_oid
       then rbind (load_public_entry_by_key_id L K key_id fs) (\<lambda>entry.
              case ped_key_ids entry of [] \<Rightarrow> Inl IndexError | kid # _ \<Rightarrow> Inr (hex_of kid))
       else Inr (hex_of key_id))"

definition get_private_key :: "lib \<Rightarrow> key_directory \<Rightarrow> key_id \<Rightarrow> filesystem \<Rightarrow> bytes result" where
  "get_private_key L K key_id fs =
     rbind (primary_hex_of L K key_id fs) (\<lambda>hex_id.
     if \<not> file_exists (private_path hex_id) fs then Inl KeyNotFound
     else
       rbind (read_bytes (private_path hex_id) fs) (\<lambda>b.
       rbind (StoredPrivateKeyEntry_load L b) (\<lambda>stored.
       rbind (digest_oid L ''sha256'') (\<lambda>sha256_oid.
       rbind (if alg_algorithm (kid_hash_algorithm (sve_key_id stored)) \<noteq> sha256_oid
              then Inl PrivateKeyUnwrapFailed
              else rbind (fromhex hex_id) (\<lambda>expected.
                     if \<not> key_hash_equal (kid_key_hash (sve_key_id stored)) expected
                     then Inl PrivateKeyUnwrapFailed else Inr ())) (\<lambda>_.
       rbind (derive_kek L (kd_master_key K) (sve_kek_salt stored) (KeyId_dump L (sve_key_id stored))) (\<lambda>kek.
       case aes_key_unwrap_with_padding L kek (sve_wrapped_key stored) of
         Inl e \<Rightarrow> Inl (if e = InvalidUnwrap then PrivateKeyUnwrapFailed else e)
       | Inr plaintext \<Rightarrow> Inr plaintext))))))"

text \<open>A key directory as the key lookup of a session.\<close>

definition directory_lookup :: "lib \<Rightarrow> key_directory \<Rightarrow> filesystem \<Rightarrow> key_lookup" where
  "directory_lookup L K fs =
     \<lparr>kl_get_public_key = (\<lambda>key_id. get_public_key L K key_id fs),
      kl_get_private_key = (\<lambda>key_id. get_private_key L K key_id fs)\<rparr>"

end
