(* ===== verification/KeystoreInv.thy ===== *)
theory KeystoreInv
  imports Keystore
begin

section \<open>The key directory: round trips, files, invariant\<close>

text \<open>
  The lemmas under the properties of the key directory: hexadecimal names and the record formats round
  trip, \<open>atomic_write\<close> changes one file or nothing, each read depends on one file only, and
  \<open>directory_wf\<close>, what the files of a directory promise, is kept by every operation whether or not an I/O
  error strikes. \<open>mac_protected\<close> is the contract both MAC-protected files share.
\<close>

subsection \<open>Hexadecimal names\<close>

lemma digit_value_hex_digit: "n < 16 \<Longrightarrow> digit_value (hex_digit n) = Some n \<and> \<not> is_space (hex_digit n)
    \<and> of_char (hex_digit n) < (128 :: nat)"
proof -
  have "\<forall>n < 16. digit_value (hex_digit n) = Some n \<and> \<not> is_space (hex_digit n) \<and> of_char (hex_digit n) < (128 :: nat)"
    by code_simp
  then show "n < 16 \<Longrightarrow> ?thesis" by blast
qed

lemma byte_nibbles: "unat (b :: byte) div 16 < 16" "unat b mod 16 < 16"
  "word_of_nat (16 * (unat b div 16) + unat b mod 16) = b"
proof -
  have "unat b < 256" by (rule order.strict_trans2 [OF unsigned_less]) simp
  then show "unat b div 16 < 16" by (simp add: less_mult_imp_div_less)
qed simp_all

lemma fromhex_hex: "fromhex (hex bs) = Inr bs"
proof (induction bs)
  case Nil
  then show ?case by (simp add: hex_def)
next
  case (Cons b bs)
  then show ?case
    using digit_value_hex_digit [OF byte_nibbles(1) [of b]] digit_value_hex_digit [OF byte_nibbles(2) [of b]]
    by (simp add: hex_def byte_nibbles(3) del: of_nat_add of_nat_mult)
qed

lemma hex_inj [simp]: "hex a = hex b \<longleftrightarrow> a = b"
  by (metis fromhex_hex sum.inject(2))

lemma decode_ascii_hex: "decode_ascii (ascii (hex bs)) = Inr (hex bs)"
proof -
  have c: "(of_char c :: byte) < 128 \<and> char_of (unat (of_char c :: byte)) = c" if "of_char c < (128 :: nat)" for c
  proof -
    have e: "(of_char c :: byte) = word_of_nat (of_char c)"
      by (simp only: of_nat_of_char)
    have "of_char c mod 256 = (of_char c :: nat)" using that by (intro mod_less) simp
    then have "unat (of_char c :: byte) = of_char c"
      unfolding e by (simp only: unat_of_nat) simp
    then show ?thesis using that by (simp add: word_less_nat_alt)
  qed
  have "of_char c < (128 :: nat)" if "c \<in> set (hex bs)" for c
    using that digit_value_hex_digit byte_nibbles(1,2) by (auto simp: hex_def)
  then show ?thesis
    using c by (auto simp: decode_ascii_def ascii_def list_all_iff intro!: map_idI)
qed

subsection \<open>Paths\<close>

lemma path_simps [simp]:
  "public_path a = public_path b \<longleftrightarrow> a = b" "private_path a = private_path b \<longleftrightarrow> a = b"
  "public_path a \<noteq> private_path b" "private_path b \<noteq> public_path a"
  "public_path a \<noteq> HEADER_PATH" "private_path a \<noteq> HEADER_PATH" "ALT_INDEX_PATH \<noteq> HEADER_PATH"
  "public_path a \<noteq> ALT_INDEX_PATH" "private_path a \<noteq> ALT_INDEX_PATH"
  "HEADER_PATH \<noteq> public_path a" "HEADER_PATH \<noteq> private_path a" "HEADER_PATH \<noteq> ALT_INDEX_PATH"
  "ALT_INDEX_PATH \<noteq> public_path a" "ALT_INDEX_PATH \<noteq> private_path a"
  by (auto simp: public_path_def private_path_def HEADER_PATH_def ALT_INDEX_PATH_def)

subsection \<open>Record formats\<close>

lemma rmap_map [simp]: "(\<And>x. f (g x) = Inr x) \<Longrightarrow> rmap f (map g xs) = Inr xs"
  by (induction xs) simp_all

lemma keystore_of_value [simp]:
  "keystore_header_of (keystore_header_value h) = Inr h"
  "public_key_entry_data_of (public_key_entry_data_value d) = Inr d"
  "stored_private_key_entry_of (stored_private_key_entry_value v) = Inr v"
  "alt_index_entry_of (alt_index_entry_value a) = Inr a"
  by (simp_all add: keystore_header_of_def keystore_header_value_def public_key_entry_data_of_def
      public_key_entry_data_value_def stored_private_key_entry_of_def stored_private_key_entry_value_def
      alt_index_entry_of_def alt_index_entry_value_def)

lemma keystore_of_value2 [simp]:
  "stored_public_key_entry_of (stored_public_key_entry_value e) = Inr e"
  "alt_index_file_of (alt_index_file_value f) = Inr f"
  by (simp_all add: stored_public_key_entry_of_def stored_public_key_entry_value_def
      alt_index_file_of_def alt_index_file_value_def alt_index_value_def)

lemma canonical_eq_Inr: "canonical L of_value value b = Inr x \<Longrightarrow> der_encode L (value x) = b"
  by (auto simp: canonical_def)

lemma canonical_dump:
  assumes "asn1_works L" "asn1_valid L (value x)" "of_value (value x) = Inr x"
  shows "canonical L of_value value (der_encode L (value x)) = Inr x"
  using assms by (simp add: canonical_def asn1_worksD)

interpretation keystore_header: canonical_load "KeystoreHeader_load L"
    "\<lambda>x. Inr (der_encode L (keystore_header_value x))" for L
  by unfold_locales (simp add: KeystoreHeader_load_def canonical_eq_Inr)

interpretation public_key_entry: canonical_load "StoredPublicKeyEntry_load L"
    "\<lambda>x. Inr (der_encode L (stored_public_key_entry_value x))" for L
  by unfold_locales (simp add: StoredPublicKeyEntry_load_def canonical_eq_Inr)

interpretation private_key_entry: canonical_load "StoredPrivateKeyEntry_load L"
    "\<lambda>x. Inr (der_encode L (stored_private_key_entry_value x))" for L
  by unfold_locales (simp add: StoredPrivateKeyEntry_load_def canonical_eq_Inr)

interpretation alt_index_entry: canonical_load "AltIndexEntry_load L"
    "\<lambda>x. Inr (der_encode L (alt_index_entry_value x))" for L
  by unfold_locales (simp add: AltIndexEntry_load_def canonical_eq_Inr)

interpretation alt_index: canonical_load "AltIndexFile_load L"
    "\<lambda>x. Inr (der_encode L (alt_index_file_value x))" for L
  by unfold_locales (simp add: AltIndexFile_load_def canonical_eq_Inr)

subsection \<open>Files\<close>

abbreviation files :: "filesystem \<Rightarrow> string \<Rightarrow> stored_file option" where
  "files fs \<equiv> map_of (fs_files fs)"

lemma files_simps [simp]:
  "files (put_file p f fs) = (files fs)(p \<mapsto> f)" "files (unlink p fs) = (files fs)(p := None)"
  "files (make_dir p mode fs) = files fs"
  by (simp_all add: put_file_def unlink_def make_dir_def)

text \<open>\<open>atomic_write\<close> writes the whole file with its mode, or raises and leaves every file as it was.\<close>

lemma atomic_write_cases:
  assumes "atomic_write env path data mode fs = (r, fs')"
  obtains (failed) "r = Inl OSError" "files fs' = files fs"
  | (written) "r = Inr ()" "files fs' = (files fs)(path \<mapsto> \<lparr>file_data = data, file_mode = mode\<rparr>)"
proof (cases "env_fault env = Some 0 \<or> file_exists (tmp_path env path) fs")
  case True
  then show thesis using assms failed by (simp add: atomic_write_def)
next
  case False
  then have same: "(files fs)(tmp_path env path := None) = files fs"
    by (simp add: file_exists_def fun_upd_idem)
  show thesis
  proof (cases "env_fault env = Some 1 \<or> env_fault env = Some 2 \<or> env_fault env = Some 3")
    case True
    with False same show thesis using assms failed by (auto simp: atomic_write_def Let_def)
  next
    case F: False
    with False assms have "r = Inr ()" and e: "fs' = put_file path \<lparr>file_data = data, file_mode = mode\<rparr>
        (unlink (tmp_path env path) (put_file (tmp_path env path) \<lparr>file_data = data, file_mode = mode\<rparr>
        (put_file (tmp_path env path) \<lparr>file_data = data, file_mode = 384\<rparr>
        (put_file (tmp_path env path) \<lparr>file_data = [], file_mode = 384\<rparr> fs))))"
      by (auto simp: atomic_write_def Let_def)
    then show thesis using same by (intro written) (simp_all only: files_simps fun_upd_upd)
  qed
qed

lemma read_bytes_files: "files fs p = Some f \<Longrightarrow> read_bytes p fs = Inr (file_data f)"
  by (simp add: read_bytes_def)

text \<open>What a read depends on.\<close>

lemma load_verified_cong:
  "files fs' (public_path h) = files fs (public_path h) \<Longrightarrow> load_verified L K h fs' = load_verified L K h fs"
  by (simp add: load_verified_def read_bytes_def)

lemma load_alt_index_cong:
  "files fs' ALT_INDEX_PATH = files fs ALT_INDEX_PATH \<Longrightarrow> load_alt_index L K fs' = load_alt_index L K fs"
  by (simp add: load_alt_index_def read_bytes_def file_exists_def)

lemma load_public_entry_cong:
  assumes "\<And>h. files fs' (public_path h) = files fs (public_path h)"
    and "files fs' ALT_INDEX_PATH = files fs ALT_INDEX_PATH"
  shows "load_public_entry_by_key_id L K kid fs' = load_public_entry_by_key_id L K kid fs"
proof -
  have v: "load_verified L K h fs' = load_verified L K h fs" for h
    by (rule load_verified_cong [OF assms(1)])
  have e: "file_exists (public_path h) fs' = file_exists (public_path h) fs" for h
    by (simp add: file_exists_def assms(1))
  have a: "alt_index_lookup L K kid fs' = alt_index_lookup L K kid fs"
    by (simp add: alt_index_lookup_def load_alt_index_cong [OF assms(2)])
  show ?thesis by (simp only: load_public_entry_by_key_id_def v e a)
qed

subsection \<open>Libraries and well-formed entries\<close>

text \<open>
  What the code relies on: the codec works, the digest algorithms and the wrap OID are values the codec
  takes, and unwrapping gives back what was wrapped (RFC 5649).
\<close>

definition keystore_libs :: "lib \<Rightarrow> bool" where
  "keystore_libs L \<longleftrightarrow> asn1_works L \<and> valid_oid L WRAP_ALGORITHM_OID \<and>
     (\<forall>name alg. digest_algorithm L name = Inr alg \<longrightarrow> asn1_valid L (alg_value alg)) \<and>
     (\<forall>kek b w. aes_key_wrap_with_padding L kek b = Inr w \<longrightarrow> aes_key_unwrap_with_padding L kek w = Inr b)"

lemma keystore_libsD:
  assumes "keystore_libs L"
  shows "asn1_works L" "valid_oid L WRAP_ALGORITHM_OID"
    "digest_algorithm L name = Inr alg \<Longrightarrow> asn1_valid L (alg_value alg)"
    "aes_key_wrap_with_padding L kek b = Inr w \<Longrightarrow> aes_key_unwrap_with_padding L kek w = Inr b"
  using assms by (auto simp: keystore_libs_def)

abbreviation id_oid :: "key_id \<Rightarrow> oid" where
  "id_oid k \<equiv> alg_algorithm (kid_hash_algorithm k)"

text \<open>
  What an entry filed under a name must hold: ids of its own key under pairwise different digests, the
  first of them the SHA-256 id that names the file.
\<close>

definition entry_ok :: "lib \<Rightarrow> string \<Rightarrow> public_key_entry_data \<Rightarrow> bool" where
  "entry_ok L h d \<longleftrightarrow> asn1_valid L (public_key_entry_data_value d) \<and>
     distinct (map id_oid (ped_key_ids d)) \<and>
     (\<exists>p ks. ped_key_ids d = p # ks \<and> primary_key_id L (ped_public_key d) = Inr p \<and> h = hex_of p) \<and>
     (\<forall>k \<in> set (ped_key_ids d). \<exists>digest. KeyId_build L (ped_public_key d) digest = Inr k)"

definition public_wf :: "lib \<Rightarrow> key_directory \<Rightarrow> filesystem \<Rightarrow> bool" where
  "public_wf L K fs \<longleftrightarrow> (\<forall>h f. files fs (public_path h) = Some f \<longrightarrow>
     file_mode f = 420 \<and> (\<exists>d. load_verified L K h fs = Inr d \<and> entry_ok L h d))"

definition index_entry_ok :: "lib \<Rightarrow> key_directory \<Rightarrow> filesystem \<Rightarrow> alt_index_entry \<Rightarrow> bool" where
  "index_entry_ok L K fs e \<longleftrightarrow> (\<exists>h d. decode_ascii (aie_primary_hex e) = Inr h \<and>
     load_verified L K h fs = Inr d \<and> aie_key_id e \<in> set (ped_key_ids d))"

definition index_wf :: "lib \<Rightarrow> key_directory \<Rightarrow> filesystem \<Rightarrow> bool" where
  "index_wf L K fs \<longleftrightarrow> (\<forall>f. files fs ALT_INDEX_PATH = Some f \<longrightarrow> file_mode f = 384) \<and>
     (\<exists>es. load_alt_index L K fs = Inr es \<and> asn1_valid L (alt_index_value es) \<and>
       (\<forall>e \<in> set es. index_entry_ok L K fs e))"

definition sha256_id :: "lib \<Rightarrow> key_id \<Rightarrow> bool" where
  "sha256_id L k \<longleftrightarrow> digest_oid L ''sha256'' = Inr (id_oid k)"

definition private_wf :: "lib \<Rightarrow> key_directory \<Rightarrow> filesystem \<Rightarrow> bool" where
  "private_wf L K fs \<longleftrightarrow> (\<forall>h f. files fs (private_path h) = Some f \<longrightarrow>
     file_mode f = 384 \<and> file_exists (public_path h) fs \<and>
     (\<exists>p b. h = hex_of p \<and> sha256_id L p \<and> get_private_key L K p fs = Inr b))"

definition directory_wf :: "lib \<Rightarrow> key_directory \<Rightarrow> filesystem \<Rightarrow> bool" where
  "directory_wf L K fs \<longleftrightarrow> public_wf L K fs \<and> index_wf L K fs \<and> private_wf L K fs"

lemma directory_wfD:
  assumes "directory_wf L K fs" shows "public_wf L K fs" "index_wf L K fs" "private_wf L K fs"
  using assms by (simp_all add: directory_wf_def)

text \<open>How a directory may change: entries gain ids, the index grows, private keys and header stay.\<close>

definition extends :: "lib \<Rightarrow> key_directory \<Rightarrow> filesystem \<Rightarrow> filesystem \<Rightarrow> bool" where
  "extends L K fs fs' \<longleftrightarrow>
     (\<forall>h d. load_verified L K h fs = Inr d \<longrightarrow> (\<exists>ks. load_verified L K h fs' =
        Inr (d\<lparr>ped_key_ids := ped_key_ids d @ ks\<rparr>))) \<and>
     (\<forall>es. load_alt_index L K fs = Inr es \<longrightarrow> (\<exists>es'. load_alt_index L K fs' = Inr (es @ es'))) \<and>
     (\<forall>h f. files fs (private_path h) = Some f \<longrightarrow> files fs' (private_path h) = Some f) \<and>
     files fs' HEADER_PATH = files fs HEADER_PATH"

lemma extendsD:
  assumes "extends L K fs fs'"
  shows "load_verified L K h fs = Inr d \<Longrightarrow>
      \<exists>ks. load_verified L K h fs' = Inr (d\<lparr>ped_key_ids := ped_key_ids d @ ks\<rparr>)"
    "load_alt_index L K fs = Inr es \<Longrightarrow> \<exists>es'. load_alt_index L K fs' = Inr (es @ es')"
    "files fs (private_path h) = Some f \<Longrightarrow> files fs' (private_path h) = Some f"
    "files fs' HEADER_PATH = files fs HEADER_PATH"
  using assms by (auto simp: extends_def)

lemma same_ids [simp]: "d\<lparr>ped_key_ids := ped_key_ids d\<rparr> = d"
  by simp

lemma extends_same_files:
  assumes "files fs' = files fs" shows "extends L K fs fs'"
  unfolding extends_def
proof (intro conjI allI impI)
  fix h d assume d: "load_verified L K h fs = Inr d"
  have "load_verified L K h fs' = Inr (d\<lparr>ped_key_ids := ped_key_ids d @ []\<rparr>)"
    using d load_verified_cong [of fs' h fs] assms by simp
  then show "\<exists>ks. load_verified L K h fs' = Inr (d\<lparr>ped_key_ids := ped_key_ids d @ ks\<rparr>)" ..
next
  fix es assume e: "load_alt_index L K fs = Inr es"
  have "load_alt_index L K fs' = Inr (es @ [])" using e load_alt_index_cong [of fs' fs] assms by simp
  then show "\<exists>es'. load_alt_index L K fs' = Inr (es @ es')" ..
qed (use assms in simp_all)

lemma extends_refl: "extends L K fs fs"
  by (rule extends_same_files) (rule refl)

lemma extends_trans:
  assumes a: "extends L K f1 f2" and b: "extends L K f2 f3"
  shows "extends L K f1 f3"
  unfolding extends_def
proof (intro conjI allI impI)
  fix h d assume "load_verified L K h f1 = Inr d"
  then obtain ks where "load_verified L K h f2 = Inr (d\<lparr>ped_key_ids := ped_key_ids d @ ks\<rparr>)"
    using extendsD(1) [OF a] by blast
  from extendsD(1) [OF b this] obtain ks'
    where "load_verified L K h f3 = Inr (d\<lparr>ped_key_ids := ped_key_ids d @ (ks @ ks')\<rparr>)" by auto
  then show "\<exists>ks. load_verified L K h f3 = Inr (d\<lparr>ped_key_ids := ped_key_ids d @ ks\<rparr>)" ..
next
  fix es assume "load_alt_index L K f1 = Inr es"
  then obtain es' where "load_alt_index L K f2 = Inr (es @ es')" using extendsD(2) [OF a] by blast
  from extendsD(2) [OF b this] show "\<exists>es'. load_alt_index L K f3 = Inr (es @ es')" by auto
qed (use extendsD(3,4) [OF a] extendsD(3,4) [OF b] in auto)

text \<open>Index entries stay good when the directory is extended.\<close>

lemma index_entry_ok_extends:
  assumes "extends L K fs fs'" "index_entry_ok L K fs e" shows "index_entry_ok L K fs' e"
proof -
  obtain h d where h: "decode_ascii (aie_primary_hex e) = Inr h" and d: "load_verified L K h fs = Inr d"
    and k: "aie_key_id e \<in> set (ped_key_ids d)"
    using assms(2) by (auto simp: index_entry_ok_def)
  obtain ks where "load_verified L K h fs' = Inr (d\<lparr>ped_key_ids := ped_key_ids d @ ks\<rparr>)"
    using extendsD(1) [OF assms(1) d] by blast
  with h k show ?thesis by (auto simp: index_entry_ok_def)
qed

text \<open>A private key looked up by its SHA-256 id depends on its own file only.\<close>

lemma primary_hex_of_sha256 [simp]: "sha256_id L k \<Longrightarrow> primary_hex_of L K k fs = Inr (hex_of k)"
  by (simp add: sha256_id_def primary_hex_of_def)

lemma get_private_key_cong:
  assumes "sha256_id L k" "files fs' (private_path (hex_of k)) = files fs (private_path (hex_of k))"
  shows "get_private_key L K k fs' = get_private_key L K k fs"
  using assms by (simp add: get_private_key_def file_exists_def read_bytes_def)

subsection \<open>One write at a time\<close>

lemma StoredPublicKeyEntry_load_dump:
  "asn1_works L \<Longrightarrow> asn1_valid L (stored_public_key_entry_value e) \<Longrightarrow>
    StoredPublicKeyEntry_load L (der_encode L (stored_public_key_entry_value e)) = Inr e"
  by (simp add: StoredPublicKeyEntry_load_def canonical_dump)

lemma StoredPrivateKeyEntry_load_dump:
  "asn1_works L \<Longrightarrow> asn1_valid L (stored_private_key_entry_value e) \<Longrightarrow>
    StoredPrivateKeyEntry_load L (der_encode L (stored_private_key_entry_value e)) = Inr e"
  by (simp add: StoredPrivateKeyEntry_load_def canonical_dump)

lemma AltIndexFile_load_dump:
  "asn1_works L \<Longrightarrow> asn1_valid L (alt_index_file_value e) \<Longrightarrow>
    AltIndexFile_load L (der_encode L (alt_index_file_value e)) = Inr e"
  by (simp add: AltIndexFile_load_def canonical_dump)

lemma load_verified_written:
  assumes "keystore_libs L" "build_stored_public_key_entry L K env d h = Inr e"
    and "asn1_valid L (public_key_entry_data_value d)"
    and "files fs (public_path h) = Some \<lparr>file_data = der_encode L (stored_public_key_entry_value e), file_mode = m\<rparr>"
  shows "load_verified L K h fs = Inr d"
proof -
  obtain tag where t: "mac_public_key_data L K d (env_salt env) h = Inr tag"
    and e: "e = \<lparr>spe_data = d, spe_mac_salt = env_salt env, spe_mac_tag = tag\<rparr>"
    using assms(2) by (auto simp: build_stored_public_key_entry_def)
  have "asn1_valid L (stored_public_key_entry_value e)"
    using assms(3) by (simp add: e stored_public_key_entry_value_def)
  then have "StoredPublicKeyEntry_load L (der_encode L (stored_public_key_entry_value e)) = Inr e"
    by (rule StoredPublicKeyEntry_load_dump [OF keystore_libsD(1) [OF assms(1)]])
  then show ?thesis using t
    by (simp add: load_verified_def read_bytes_files [OF assms(4)] verify_and_get_data_def e)
qed

lemma load_alt_index_written:
  assumes "keystore_libs L" "mac_alt_index L K es salt = Inr tag" "asn1_valid L (alt_index_value es)"
    and "files fs ALT_INDEX_PATH = Some \<lparr>file_data = der_encode L (alt_index_file_value
      \<lparr>aif_entries = es, aif_mac_salt = salt, aif_mac_tag = tag\<rparr>), file_mode = m\<rparr>"
  shows "load_alt_index L K fs = Inr es"
proof -
  have "asn1_valid L (alt_index_file_value \<lparr>aif_entries = es, aif_mac_salt = salt, aif_mac_tag = tag\<rparr>)"
    using assms(3) by (simp add: alt_index_file_value_def)
  then have "AltIndexFile_load L (der_encode L (alt_index_file_value
      \<lparr>aif_entries = es, aif_mac_salt = salt, aif_mac_tag = tag\<rparr>)) =
      Inr \<lparr>aif_entries = es, aif_mac_salt = salt, aif_mac_tag = tag\<rparr>"
    by (rule AltIndexFile_load_dump [OF keystore_libsD(1) [OF assms(1)]])
  then show ?thesis using assms(2)
    by (simp add: load_alt_index_def read_bytes_files [OF assms(4)] file_exists_def assms(4))
qed

lemma private_wf_cong:
  assumes "private_wf L K fs" "\<And>h. files fs' (private_path h) = files fs (private_path h)"
    and "\<And>h. file_exists (public_path h) fs \<Longrightarrow> file_exists (public_path h) fs'"
  shows "private_wf L K fs'"
  unfolding private_wf_def
proof (intro allI impI)
  fix h f assume "files fs' (private_path h) = Some f"
  with assms(1,2) obtain p b where f: "file_mode f = 384" "file_exists (public_path h) fs"
    and p: "h = hex_of p" "sha256_id L p" "get_private_key L K p fs = Inr b"
    unfolding private_wf_def by metis
  have "get_private_key L K p fs' = Inr b"
    using get_private_key_cong [OF p(2) assms(2)] p(3) by simp
  with f p assms(3) show "file_mode f = 384 \<and> file_exists (public_path h) fs' \<and>
      (\<exists>p b. h = hex_of p \<and> sha256_id L p \<and> get_private_key L K p fs' = Inr b)" by blast
qed

lemma index_wf_extends:
  assumes "index_wf L K fs" "extends L K fs fs'" "files fs' ALT_INDEX_PATH = files fs ALT_INDEX_PATH"
  shows "index_wf L K fs'"
  using assms index_entry_ok_extends [OF assms(2)] load_alt_index_cong [OF assms(3)]
  by (auto simp: index_wf_def)

lemma directory_wf_same_files:
  assumes "directory_wf L K fs" "files fs' = files fs" shows "directory_wf L K fs' \<and> extends L K fs fs'"
proof -
  have e: "extends L K fs fs'" by (rule extends_same_files [OF assms(2)])
  have "public_wf L K fs'"
    using assms load_verified_cong [of fs' _ fs] by (simp add: directory_wf_def public_wf_def)
  moreover have "index_wf L K fs'"
    by (rule index_wf_extends [OF directory_wfD(2) [OF assms(1)] e]) (simp add: assms(2))
  moreover have "private_wf L K fs'"
    by (rule private_wf_cong [OF directory_wfD(3) [OF assms(1)]]) (simp_all add: file_exists_def assms(2))
  ultimately show ?thesis using e by (simp add: directory_wf_def)
qed

lemma write_public_wf:
  assumes libs: "keystore_libs L" and wf: "directory_wf L K fs"
    and fs': "files fs' = (files fs)(public_path h \<mapsto>
      \<lparr>file_data = der_encode L (stored_public_key_entry_value e), file_mode = 420\<rparr>)"
    and e: "build_stored_public_key_entry L K env d h = Inr e" and d: "entry_ok L h d"
    and old: "\<And>d0. load_verified L K h fs = Inr d0 \<Longrightarrow> \<exists>ks. d = d0\<lparr>ped_key_ids := ped_key_ids d0 @ ks\<rparr>"
  shows "load_verified L K h fs' = Inr d" "directory_wf L K fs' \<and> extends L K fs fs'"
proof -
  show new: "load_verified L K h fs' = Inr d"
    by (rule load_verified_written [OF libs e]) (use d fs' in \<open>simp_all add: entry_ok_def\<close>)
  have other: "load_verified L K h' fs' = load_verified L K h' fs" if "h' \<noteq> h" for h'
    using that by (intro load_verified_cong) (simp add: fs')
  have alt: "files fs' ALT_INDEX_PATH = files fs ALT_INDEX_PATH" by (simp add: fs')
  have ext: "extends L K fs fs'"
    unfolding extends_def
  proof (intro conjI allI impI)
    fix h' d0 assume "load_verified L K h' fs = Inr d0"
    then show "\<exists>ks. load_verified L K h' fs' = Inr (d0\<lparr>ped_key_ids := ped_key_ids d0 @ ks\<rparr>)"
    proof (cases "h' = h")
      case True
      with \<open>load_verified L K h' fs = Inr d0\<close> old new show ?thesis by blast
    next
      case False
      with \<open>load_verified L K h' fs = Inr d0\<close> have "load_verified L K h' fs' = Inr (d0\<lparr>ped_key_ids := ped_key_ids d0 @ []\<rparr>)"
        by (simp add: other)
      then show ?thesis ..
    qed
  next
    fix es assume "load_alt_index L K fs = Inr es"
    then have "load_alt_index L K fs' = Inr (es @ [])" by (simp add: load_alt_index_cong [OF alt])
    then show "\<exists>es'. load_alt_index L K fs' = Inr (es @ es')" ..
  qed (simp_all add: fs')
  have "public_wf L K fs'"
    unfolding public_wf_def
  proof (intro allI impI)
    fix h' f assume f: "files fs' (public_path h') = Some f"
    show "file_mode f = 420 \<and> (\<exists>d. load_verified L K h' fs' = Inr d \<and> entry_ok L h' d)"
    proof (cases "h' = h")
      case True
      then show ?thesis using f new d by (auto simp: fs')
    next
      case False
      then show ?thesis using f wf other by (simp add: fs' directory_wf_def public_wf_def)
    qed
  qed
  moreover have "index_wf L K fs'"
    by (rule index_wf_extends [OF directory_wfD(2) [OF wf] ext alt])
  moreover have "private_wf L K fs'"
    by (rule private_wf_cong [OF directory_wfD(3) [OF wf]]) (simp_all add: fs' file_exists_def)
  ultimately show "directory_wf L K fs' \<and> extends L K fs fs'" using ext by (simp add: directory_wf_def)
qed

lemma write_index_wf:
  assumes libs: "keystore_libs L" and wf: "directory_wf L K fs"
    and fs': "files fs' = (files fs)(ALT_INDEX_PATH \<mapsto> \<lparr>file_data = der_encode L (alt_index_file_value
      \<lparr>aif_entries = es @ [a], aif_mac_salt = salt, aif_mac_tag = tag\<rparr>), file_mode = 384\<rparr>)"
    and es: "load_alt_index L K fs = Inr es" and tag: "mac_alt_index L K (es @ [a]) salt = Inr tag"
    and a: "index_entry_ok L K fs a" "asn1_valid L (alt_index_entry_value a)"
  shows "load_alt_index L K fs' = Inr (es @ [a])" "directory_wf L K fs' \<and> extends L K fs fs'"
proof -
  have ent: "load_verified L K h fs' = load_verified L K h fs" for h
    by (rule load_verified_cong) (simp add: fs')
  have v: "asn1_valid L (alt_index_value (es @ [a]))"
    using wf es a(2) by (auto simp: directory_wf_def index_wf_def alt_index_value_def)
  show new: "load_alt_index L K fs' = Inr (es @ [a])"
    by (rule load_alt_index_written [OF libs tag v]) (simp add: fs')
  have ext: "extends L K fs fs'"
    unfolding extends_def
  proof (intro conjI allI impI)
    fix h d assume "load_verified L K h fs = Inr d"
    then have "load_verified L K h fs' = Inr (d\<lparr>ped_key_ids := ped_key_ids d @ []\<rparr>)" by (simp add: ent)
    then show "\<exists>ks. load_verified L K h fs' = Inr (d\<lparr>ped_key_ids := ped_key_ids d @ ks\<rparr>)" ..
  qed (use es new in \<open>simp_all add: fs'\<close>)
  have "index_wf L K fs'"
    using wf es v new index_entry_ok_extends [OF ext] a(1)
    by (auto simp: directory_wf_def index_wf_def fs')
  moreover have "public_wf L K fs'" using wf by (simp add: directory_wf_def public_wf_def fs' ent)
  moreover have "private_wf L K fs'"
    by (rule private_wf_cong [OF directory_wfD(3) [OF wf]]) (simp_all add: fs' file_exists_def)
  ultimately show "directory_wf L K fs' \<and> extends L K fs fs'" using ext by (simp add: directory_wf_def)
qed

lemma write_private_wf:
  assumes wf: "directory_wf L K fs" and absent: "\<not> file_exists (private_path (hex_of p)) fs"
    and fs': "files fs' = (files fs)(private_path (hex_of p) \<mapsto> \<lparr>file_data = c, file_mode = 384\<rparr>)"
    and p: "sha256_id L p" "get_private_key L K p fs' = Inr b" "file_exists (public_path (hex_of p)) fs"
  shows "directory_wf L K fs' \<and> extends L K fs fs'"
proof -
  have ent: "load_verified L K h fs' = load_verified L K h fs" for h
    by (rule load_verified_cong) (simp add: fs')
  have alt: "files fs' ALT_INDEX_PATH = files fs ALT_INDEX_PATH" by (simp add: fs')
  have ext: "extends L K fs fs'"
    unfolding extends_def
  proof (intro conjI allI impI)
    fix h d assume "load_verified L K h fs = Inr d"
    then have "load_verified L K h fs' = Inr (d\<lparr>ped_key_ids := ped_key_ids d @ []\<rparr>)" by (simp add: ent)
    then show "\<exists>ks. load_verified L K h fs' = Inr (d\<lparr>ped_key_ids := ped_key_ids d @ ks\<rparr>)" ..
  next
    fix es assume "load_alt_index L K fs = Inr es"
    then have "load_alt_index L K fs' = Inr (es @ [])" by (simp add: load_alt_index_cong [OF alt])
    then show "\<exists>es'. load_alt_index L K fs' = Inr (es @ es')" ..
  qed (use absent in \<open>auto simp: fs' file_exists_def\<close>)
  have "private_wf L K fs'"
    unfolding private_wf_def
  proof (intro allI impI)
    fix h f assume f: "files fs' (private_path h) = Some f"
    show "file_mode f = 384 \<and> file_exists (public_path h) fs' \<and>
        (\<exists>p b. h = hex_of p \<and> sha256_id L p \<and> get_private_key L K p fs' = Inr b)"
    proof (cases "h = hex_of p")
      case True
      with f p show ?thesis by (auto simp: fs' file_exists_def)
    next
      case False
      with f wf obtain q b where o: "file_mode f = 384" "file_exists (public_path h) fs" and q: "h = hex_of q" "sha256_id L q" "get_private_key L K q fs = Inr b"
        unfolding directory_wf_def private_wf_def fs' by (metis fun_upd_other path_simps(2))
      have "get_private_key L K q fs' = get_private_key L K q fs"
        using False q(1) by (intro get_private_key_cong [OF q(2)]) (simp add: fs')
      with o q show ?thesis by (auto simp: fs' file_exists_def)
    qed
  qed
  moreover have "public_wf L K fs'" using wf by (simp add: directory_wf_def public_wf_def fs' ent)
  moreover have "index_wf L K fs'"
    by (rule index_wf_extends [OF directory_wfD(2) [OF wf] ext alt])
  ultimately show ?thesis using ext by (simp add: directory_wf_def)
qed

end
