(* ===== verification/KeystoreOps.thy ===== *)
theory KeystoreOps
  imports KeystoreInv
begin

section \<open>The key directory: its operations keep it well-formed\<close>

text \<open>
  For each operation of \<open>KeyDirectory\<close> the ways it can end, and that the directory stays well-formed and is
  only extended in each of them, I/O errors between two writes included. \<open>directory_step\<close> is one call of
  the client with arbitrary arguments and arbitrary faults; \<open>create\<close> starts a well-formed directory.
\<close>

subsection \<open>Ids\<close>

lemma primary_sha256: "primary_key_id L pk = Inr p \<Longrightarrow> sha256_id L p"
  by (auto simp: primary_key_id_def sha256_id_def digest_oid_def)

lemma KeyId_build_valid:
  assumes "keystore_libs L" "KeyId_build L pk g = Inr k"
  shows "asn1_valid L (key_id_value k)" "digest_oid L g = Inr (id_oid k)"
proof -
  obtain alg where "digest_algorithm L g = Inr alg" "kid_hash_algorithm k = alg" using assms(2) by auto
  then show "asn1_valid L (key_id_value k)" "digest_oid L g = Inr (id_oid k)"
    using keystore_libsD(3) [OF assms(1)] by (auto simp: key_id_value_def digest_oid_def)
qed

lemma primary_entry_ok:
  assumes "keystore_libs L" "primary_key_id L pk = Inr p" "asn1_valid L (kem_public_key_value pk)"
  shows "entry_ok L (hex_of p) \<lparr>ped_public_key = pk, ped_key_ids = [p]\<rparr>"
proof -
  have "asn1_valid L (key_id_value p)"
    using KeyId_build_valid(1) [OF assms(1)] assms(2) by (simp only: primary_key_id_def)
  then show ?thesis
    using assms(2,3) by (auto simp: entry_ok_def public_key_entry_data_value_def primary_key_id_def simp del: KeyId_build_eq_Inr)
qed

lemma cached_key_id_None:
  "cached_key_id L g ks = Inr None \<Longrightarrow> digest_oid L g = Inr oid \<Longrightarrow> oid \<notin> set (map id_oid ks)"
  by (induction ks) (auto split: if_splits)

lemma cached_key_id_Some:
  "cached_key_id L g ks = Inr (Some k) \<Longrightarrow> k \<in> set ks \<and> digest_oid L g = Inr (id_oid k)"
  by (induction ks) (auto split: if_splits)

lemma cached_key_id_found:
  "digest_oid L g = Inr oid \<Longrightarrow> k \<in> set ks \<Longrightarrow> id_oid k = oid \<Longrightarrow> distinct (map id_oid ks) \<Longrightarrow>
    cached_key_id L g ks = Inr (Some k)"
  by (induction ks) (auto split: if_splits)

lemma cached_key_id_total: "digest_oid L g = Inr oid \<Longrightarrow> \<exists>c. cached_key_id L g ks = Inr c"
  by (induction ks) auto

lemma same_key_id_refl [simp]: "same_key_id k k"
  by (simp add: same_key_id_def key_hash_equal_def)

text \<open>A new id under a digest the entry does not have keeps the entry well-formed.\<close>

lemma entry_ok_new_id:
  assumes "keystore_libs L" "entry_ok L h d" "cached_key_id L g (ped_key_ids d) = Inr None"
    and "KeyId_build L (ped_public_key d) g = Inr k"
  shows "entry_ok L h (d\<lparr>ped_key_ids := ped_key_ids d @ [k]\<rparr>)"
proof -
  have "id_oid k \<notin> set (map id_oid (ped_key_ids d))"
    by (rule cached_key_id_None [OF assms(3) KeyId_build_valid(2) [OF assms(1,4)]])
  then show ?thesis
    using assms(2,4) KeyId_build_valid(1) [OF assms(1,4)]
    by (auto simp: entry_ok_def public_key_entry_data_value_def simp del: KeyId_build_eq_Inr)
qed

subsection \<open>Lookups\<close>

lemma load_verified_exists: "load_verified L K h fs = Inr d \<Longrightarrow> \<exists>f. files fs (public_path h) = Some f"
  by (auto simp: load_verified_def read_bytes_def split: option.splits)

lemma load_verified_ok:
  assumes "public_wf L K fs" "load_verified L K h fs = Inr d"
  shows "entry_ok L h d"
proof -
  obtain f where "files fs (public_path h) = Some f" using load_verified_exists [OF assms(2)] ..
  then show ?thesis using assms by (force simp: public_wf_def)
qed

lemma load_public_entryD:
  assumes "load_public_entry_by_key_id L K k fs = Inr d"
  obtains h where "load_verified L K h fs = Inr d" "list_ex (same_key_id k) (ped_key_ids d)"
  using assms by (auto simp: load_public_entry_by_key_id_def Let_def split: if_splits option.splits)

lemma load_public_entry_direct:
  assumes "load_verified L K (hex_of k) fs = Inr d" "list_ex (same_key_id k) (ped_key_ids d)"
  shows "load_public_entry_by_key_id L K k fs = Inr d"
proof -
  have "file_exists (public_path (hex_of k)) fs"
    using load_verified_exists [OF assms(1)] by (auto simp: file_exists_def)
  with assms show ?thesis by (simp add: load_public_entry_by_key_id_def)
qed

lemma load_public_entry_primary:
  assumes "load_verified L K (hex_of p) fs = Inr d" "p \<in> set (ped_key_ids d)"
  shows "load_public_entry_by_key_id L K p fs = Inr d"
  using assms by (intro load_public_entry_direct) (auto simp: list_ex_iff intro!: bexI [where x = p])

subsection \<open>add_public_key\<close>

lemma add_public_key_cases:
  assumes "add_public_key L K env a fs = (r, fs')"
  obtains (unchanged) x where "r = Inl x" "files fs' = files fs"
  | (added) wire p e where "r = Inr p" "to_wire_key a = Inr wire" "primary_key_id L wire = Inr p"
      "\<not> file_exists (public_path (hex_of p)) fs"
      "build_stored_public_key_entry L K env \<lparr>ped_public_key = wire, ped_key_ids = [p]\<rparr> (hex_of p) = Inr e"
      "files fs' = (files fs)(public_path (hex_of p) \<mapsto>
        \<lparr>file_data = der_encode L (stored_public_key_entry_value e), file_mode = 420\<rparr>)"
proof -
  let ?m = "rbind (to_wire_key a) (\<lambda>wire. rbind (primary_key_id L wire) (\<lambda>primary.
       if file_exists (public_path (hex_of primary)) fs then Inl DuplicateKey
       else rbind (build_stored_public_key_entry L K env
              \<lparr>ped_public_key = wire, ped_key_ids = [primary]\<rparr> (hex_of primary)) (\<lambda>entry. Inr (primary, entry))))"
  show thesis
  proof (cases ?m)
    case (Inl x)
    then have "(r, fs') = (Inl x, fs)" using assms by (simp add: add_public_key_def)
    then show thesis by (intro unchanged) simp_all
  next
    case (Inr q)
    obtain p e where q: "q = (p, e)" by (cases q)
    obtain wire where w: "to_wire_key a = Inr wire" "primary_key_id L wire = Inr p"
        "\<not> file_exists (public_path (hex_of p)) fs"
        "build_stored_public_key_entry L K env \<lparr>ped_public_key = wire, ped_key_ids = [p]\<rparr> (hex_of p) = Inr e"
      using Inr unfolding q by (auto split: if_splits)
    obtain r1 f1 where a1: "atomic_write env (public_path (hex_of p))
        (der_encode L (stored_public_key_entry_value e)) 420 fs = (r1, f1)" by fastforce
    have e: "add_public_key L K env a fs = sseq (r1, f1) (\<lambda>_ fs'. (Inr p, fs'))"
      using w a1 by (simp add: add_public_key_def)
    from a1 show thesis
    proof (cases rule: atomic_write_cases)
      case failed
      then show thesis using e assms unchanged by simp
    next
      case written
      then show thesis using e assms added [OF _ w] by simp
    qed
  qed
qed

lemma add_public_key_wf:
  assumes libs: "keystore_libs L" and wf: "directory_wf L K fs"
    and a: "\<And>wire. to_wire_key a = Inr wire \<Longrightarrow> asn1_valid L (kem_public_key_value wire)"
    and step: "add_public_key L K env a fs = (r, fs')"
  shows "directory_wf L K fs' \<and> extends L K fs fs'"
    and "r = Inr p \<Longrightarrow> \<exists>wire. to_wire_key a = Inr wire \<and> primary_key_id L wire = Inr p \<and>
        load_verified L K (hex_of p) fs' = Inr \<lparr>ped_public_key = wire, ped_key_ids = [p]\<rparr>"
proof -
  have "(directory_wf L K fs' \<and> extends L K fs fs') \<and>
      (\<forall>p. r = Inr p \<longrightarrow> (\<exists>wire. to_wire_key a = Inr wire \<and> primary_key_id L wire = Inr p \<and>
        load_verified L K (hex_of p) fs' = Inr \<lparr>ped_public_key = wire, ped_key_ids = [p]\<rparr>))"
    using step
  proof (cases rule: add_public_key_cases)
    case unchanged
    then show ?thesis using directory_wf_same_files [OF wf] by simp
  next
    case (added wire p e)
    have ok: "entry_ok L (hex_of p) \<lparr>ped_public_key = wire, ped_key_ids = [p]\<rparr>"
      by (rule primary_entry_ok [OF libs added(3) a [OF added(2)]])
    have "\<exists>ks. \<lparr>ped_public_key = wire, ped_key_ids = [p]\<rparr> = d0\<lparr>ped_key_ids := ped_key_ids d0 @ ks\<rparr>"
      if "load_verified L K (hex_of p) fs = Inr d0" for d0
      using added(4) load_verified_exists [OF that] by (auto simp: file_exists_def)
    from write_public_wf [OF libs wf added(6,5) ok this] show ?thesis
      using added(1-3) by simp
  qed
  then show "directory_wf L K fs' \<and> extends L K fs fs'"
    and "r = Inr p \<Longrightarrow> \<exists>wire. to_wire_key a = Inr wire \<and> primary_key_id L wire = Inr p \<and>
        load_verified L K (hex_of p) fs' = Inr \<lparr>ped_public_key = wire, ped_key_ids = [p]\<rparr>"
    by blast+
qed

subsection \<open>add_private_key\<close>

lemma add_private_key_cases:
  assumes "add_private_key L K env pk b fs = (r, fs')"
  obtains (unchanged) x where "r = Inl x" "files fs' = files fs"
  | (added) p kek w where "r = Inr p" "primary_key_id L pk = Inr p"
      "file_exists (public_path (hex_of p)) fs" "\<not> file_exists (private_path (hex_of p)) fs"
      "derive_kek L (kd_master_key K) (env_salt env) (KeyId_dump L p) = Inr kek"
      "aes_key_wrap_with_padding L kek b = Inr w"
      "files fs' = (files fs)(private_path (hex_of p) \<mapsto>
        \<lparr>file_data = der_encode L (stored_private_key_entry_value
           \<lparr>sve_key_id = p, sve_kek_salt = env_salt env, sve_wrap_algorithm = WRAP_ALGORITHM_OID,
            sve_wrapped_key = w\<rparr>), file_mode = 384\<rparr>)"
proof -
  let ?m = "rbind (primary_key_id L pk) (\<lambda>primary.
       if \<not> file_exists (public_path (hex_of primary)) fs then Inl PrivateKeyRequiresPublicKey
       else if file_exists (private_path (hex_of primary)) fs then Inl DuplicateKey
       else rbind (derive_kek L (kd_master_key K) (env_salt env) (KeyId_dump L primary)) (\<lambda>kek.
            rbind (aes_key_wrap_with_padding L kek b) (\<lambda>wrapped_key.
            Inr (primary, \<lparr>sve_key_id = primary, sve_kek_salt = env_salt env,
                           sve_wrap_algorithm = WRAP_ALGORITHM_OID, sve_wrapped_key = wrapped_key\<rparr>))))"
  show thesis
  proof (cases ?m)
    case (Inl x)
    then have "(r, fs') = (Inl x, fs)" using assms by (simp add: add_private_key_def)
    then show thesis by (intro unchanged) simp_all
  next
    case (Inr q)
    obtain p e where q: "q = (p, e)" by (cases q)
    obtain kek w where w: "primary_key_id L pk = Inr p" "file_exists (public_path (hex_of p)) fs"
        "\<not> file_exists (private_path (hex_of p)) fs"
        "derive_kek L (kd_master_key K) (env_salt env) (KeyId_dump L p) = Inr kek"
        "aes_key_wrap_with_padding L kek b = Inr w"
      and e: "e = \<lparr>sve_key_id = p, sve_kek_salt = env_salt env, sve_wrap_algorithm = WRAP_ALGORITHM_OID,
            sve_wrapped_key = w\<rparr>"
      using Inr unfolding q by (auto split: if_splits)
    obtain r1 f1 where a1: "atomic_write env (private_path (hex_of p))
        (der_encode L (stored_private_key_entry_value e)) 384 fs = (r1, f1)" by fastforce
    have s: "add_private_key L K env pk b fs = sseq (r1, f1) (\<lambda>_ fs'. (Inr p, fs'))"
      using w a1 by (simp add: add_private_key_def e)
    from a1 show thesis
    proof (cases rule: atomic_write_cases)
      case failed
      then show thesis using s assms unchanged by simp
    next
      case written
      then show thesis using s assms added [OF _ w] e by simp
    qed
  qed
qed

lemma add_private_key_wf:
  assumes libs: "keystore_libs L" and wf: "directory_wf L K fs"
    and step: "add_private_key L K env pk b fs = (r, fs')"
  shows "directory_wf L K fs' \<and> extends L K fs fs'"
    and "r = Inr p \<Longrightarrow> primary_key_id L pk = Inr p \<and> get_private_key L K p fs' = Inr b"
proof -
  have "(directory_wf L K fs' \<and> extends L K fs fs') \<and>
      (\<forall>p. r = Inr p \<longrightarrow> primary_key_id L pk = Inr p \<and> get_private_key L K p fs' = Inr b)"
    using step
  proof (cases rule: add_private_key_cases)
    case unchanged
    then show ?thesis using directory_wf_same_files [OF wf] by simp
  next
    case (added p kek w)
    let ?e = "\<lparr>sve_key_id = p, sve_kek_salt = env_salt env, sve_wrap_algorithm = WRAP_ALGORITHM_OID,
            sve_wrapped_key = w\<rparr>"
    have sha: "sha256_id L p" by (rule primary_sha256 [OF added(2)])
    have "asn1_valid L (key_id_value p)"
      using KeyId_build_valid(1) [OF libs] added(2) by (simp only: primary_key_id_def)
    then have "asn1_valid L (stored_private_key_entry_value ?e)"
      using keystore_libsD(2) [OF libs] by (simp add: stored_private_key_entry_value_def)
    then have load: "StoredPrivateKeyEntry_load L (der_encode L (stored_private_key_entry_value ?e)) = Inr ?e"
      by (rule StoredPrivateKeyEntry_load_dump [OF keystore_libsD(1) [OF libs]])
    have "fromhex (hex_of p) = Inr (kid_key_hash p)" by (simp add: hex_of_def fromhex_hex)
    then have get: "get_private_key L K p fs' = Inr b"
      using sha load added(5) keystore_libsD(4) [OF libs added(6)]
      by (simp add: get_private_key_def file_exists_def read_bytes_def added(7) sha256_id_def [symmetric]
          key_hash_equal_def)
    from write_private_wf [OF wf added(4,7) sha this added(3)] get added(1,2) show ?thesis by simp
  qed
  then show "directory_wf L K fs' \<and> extends L K fs fs'"
    and "r = Inr p \<Longrightarrow> primary_key_id L pk = Inr p \<and> get_private_key L K p fs' = Inr b"
    by blast+
qed

subsection \<open>key_id_for\<close>

lemma alt_index_add_cases:
  assumes "alt_index_add L K env k h fs = (r, fs')"
  obtains (unchanged) x where "r = Inl x" "files fs' = files fs"
  | (added) es tag where "r = Inr ()" "load_alt_index L K fs = Inr es"
      "mac_alt_index L K (es @ [\<lparr>aie_key_id = k, aie_primary_hex = ascii h\<rparr>]) (env_salt env) = Inr tag"
      "files fs' = (files fs)(ALT_INDEX_PATH \<mapsto> \<lparr>file_data = der_encode L (alt_index_file_value
        \<lparr>aif_entries = es @ [\<lparr>aie_key_id = k, aie_primary_hex = ascii h\<rparr>], aif_mac_salt = env_salt env,
         aif_mac_tag = tag\<rparr>), file_mode = 384\<rparr>)"
proof (cases "load_alt_index L K fs")
  case (Inl x)
  then have "(r, fs') = (Inl x, fs)" using assms by (simp add: alt_index_add_def)
  then show thesis by (intro unchanged) simp_all
next
  case es: (Inr es)
  let ?es = "es @ [\<lparr>aie_key_id = k, aie_primary_hex = ascii h\<rparr>]"
  show thesis
  proof (cases "mac_alt_index L K ?es (env_salt env)")
    case (Inl x)
    then have "(r, fs') = (Inl x, fs)" using assms es by (simp add: alt_index_add_def)
    then show thesis by (intro unchanged) simp_all
  next
    case (Inr tag)
    then have "atomic_write env ALT_INDEX_PATH (der_encode L (alt_index_file_value
        \<lparr>aif_entries = ?es, aif_mac_salt = env_salt env, aif_mac_tag = tag\<rparr>)) 384 fs = (r, fs')"
      using assms es by (simp add: alt_index_add_def)
    then show thesis
    proof (cases rule: atomic_write_cases)
      case failed
      then show thesis by (rule unchanged)
    next
      case written
      then show thesis using added es Inr by blast
    qed
  qed
qed

text \<open>The id \<open>key_id_for\<close> starts from.\<close>

fun arg_key_id :: "lib \<Rightarrow> key_or_id \<Rightarrow> key_id result" where
  "arg_key_id L (ByKeyId k) = Inr k"
| "arg_key_id L (ByKey pk) = primary_key_id L pk"

lemma key_id_for_entry:
  "(case arg of ByKeyId key_id \<Rightarrow> load_public_entry_by_key_id L K key_id fs
    | ByKey public_key \<Rightarrow> rbind (primary_key_id L public_key) (\<lambda>key_id. load_public_entry_by_key_id L K key_id fs))
   = rbind (arg_key_id L arg) (\<lambda>k. load_public_entry_by_key_id L K k fs)"
  by (cases arg) simp_all

lemma key_id_for_cached:
  assumes "arg_key_id L arg = Inr k0" "load_public_entry_by_key_id L K k0 fs = Inr d"
    and "cached_key_id L g (ped_key_ids d) = Inr (Some k)"
  shows "key_id_for L K env env' arg g fs = (Inr k, fs)"
  using assms by (simp add: key_id_for_def key_id_for_entry)

lemma key_id_for_cases:
  assumes "key_id_for L K env env' arg g fs = (r, fs')"
  obtains (unchanged) x where "r = Inl x" "files fs' = files fs"
  | (cached) k0 d k where "r = Inr k" "fs' = fs" "arg_key_id L arg = Inr k0"
      "load_public_entry_by_key_id L K k0 fs = Inr d" "cached_key_id L g (ped_key_ids d) = Inr (Some k)"
  | (computed) k0 d k e fs1 ra where "arg_key_id L arg = Inr k0"
      "load_public_entry_by_key_id L K k0 fs = Inr d" "cached_key_id L g (ped_key_ids d) = Inr None"
      "KeyId_build L (ped_public_key d) g = Inr k"
      "build_stored_public_key_entry L K env (d\<lparr>ped_key_ids := ped_key_ids d @ [k]\<rparr>)
         (hex_of (hd (ped_key_ids d @ [k]))) = Inr e"
      "files fs1 = (files fs)(public_path (hex_of (hd (ped_key_ids d @ [k]))) \<mapsto>
        \<lparr>file_data = der_encode L (stored_public_key_entry_value e), file_mode = 420\<rparr>)"
      "alt_index_add L K env' k (hex_of (hd (ped_key_ids d @ [k]))) fs1 = (ra, fs')"
      "r = rbind ra (\<lambda>_. Inr k)"
proof -
  let ?f = "rbind (rbind (arg_key_id L arg) (\<lambda>k. load_public_entry_by_key_id L K k fs)) (\<lambda>data.
      rbind (cached_key_id L g (ped_key_ids data)) (\<lambda>cached. Inr (data, cached)))"
  show thesis
  proof (cases ?f)
    case (Inl x)
    then have "(r, fs') = (Inl x, fs)" using assms by (simp add: key_id_for_def key_id_for_entry)
    then show thesis by (intro unchanged) simp_all
  next
    case (Inr q)
    obtain d c where q: "q = (d, c)" by (cases q)
    obtain k0 where a: "arg_key_id L arg = Inr k0" "load_public_entry_by_key_id L K k0 fs = Inr d"
        "cached_key_id L g (ped_key_ids d) = Inr c" using Inr unfolding q by auto
    show thesis
    proof (cases c)
      case (Some k)
      with key_id_for_cached a assms have "(r, fs') = (Inr k, fs)" by metis
      then show thesis using a Some by (intro cached) simp_all
    next
      case None
      let ?n = "rbind (KeyId_build L (ped_public_key d) g) (\<lambda>k.
        rbind (build_stored_public_key_entry L K env (d\<lparr>ped_key_ids := ped_key_ids d @ [k]\<rparr>)
          (hex_of (hd (ped_key_ids d @ [k])))) (\<lambda>e. Inr (k, hex_of (hd (ped_key_ids d @ [k])), e)))"
      have e: "key_id_for L K env env' arg g fs = (case ?n of Inl e \<Rightarrow> (Inl e, fs)
          | Inr (new_kid, primary_hex, entry) \<Rightarrow>
               sseq (atomic_write env (public_path primary_hex)
                       (der_encode L (stored_public_key_entry_value entry)) 420 fs) (\<lambda>_ fs1.
               sseq (alt_index_add L K env' new_kid primary_hex fs1) (\<lambda>_ fs2. (Inr new_kid, fs2))))"
        using a None by (simp add: key_id_for_def key_id_for_entry Let_def)
      show thesis
      proof (cases ?n)
        case (Inl x)
        then have "(r, fs') = (Inl x, fs)" using assms unfolding e by simp
        then show thesis by (intro unchanged) simp_all
      next
        case n: (Inr n)
        then obtain k en where k: "KeyId_build L (ped_public_key d) g = Inr k"
          and en: "build_stored_public_key_entry L K env (d\<lparr>ped_key_ids := ped_key_ids d @ [k]\<rparr>)
            (hex_of (hd (ped_key_ids d @ [k]))) = Inr en"
          and nn: "n = (k, hex_of (hd (ped_key_ids d @ [k])), en)" by (auto simp del: KeyId_build_eq_Inr)
        obtain r1 f1 where w: "atomic_write env (public_path (hex_of (hd (ped_key_ids d @ [k]))))
            (der_encode L (stored_public_key_entry_value en)) 420 fs = (r1, f1)" by fastforce
        obtain ra f2 where aa: "alt_index_add L K env' k (hex_of (hd (ped_key_ids d @ [k]))) f1 = (ra, f2)"
          by fastforce
        have r: "(r, fs') = sseq (r1, f1) (\<lambda>_ fs1.
            sseq (alt_index_add L K env' k (hex_of (hd (ped_key_ids d @ [k]))) fs1) (\<lambda>_ fs2. (Inr k, fs2)))"
          using assms unfolding e n nn by (simp add: w)
        from w show thesis
        proof (cases rule: atomic_write_cases)
          case failed
          then show thesis using r by (intro unchanged) simp_all
        next
          case written
          then have "r = rbind ra (\<lambda>_. Inr k) \<and> fs' = f2" using r aa by (cases ra) simp_all
          then show thesis using computed [OF a(1,2) _ k en written(2)] a(3) None aa by simp
        qed
      qed
    qed
  qed
qed

text \<open>The two writes of an id that is new: the entry, then the index.\<close>

lemma computed_entry:
  assumes libs: "keystore_libs L" and wf: "directory_wf L K fs"
    and "load_public_entry_by_key_id L K k0 fs = Inr d" "cached_key_id L g (ped_key_ids d) = Inr None"
    and "KeyId_build L (ped_public_key d) g = Inr k"
    and "build_stored_public_key_entry L K env (d\<lparr>ped_key_ids := ped_key_ids d @ [k]\<rparr>)
         (hex_of (hd (ped_key_ids d @ [k]))) = Inr e"
    and "files fs1 = (files fs)(public_path (hex_of (hd (ped_key_ids d @ [k]))) \<mapsto>
        \<lparr>file_data = der_encode L (stored_public_key_entry_value e), file_mode = 420\<rparr>)"
  obtains h where "hex_of (hd (ped_key_ids d @ [k])) = h" "load_verified L K h fs = Inr d"
    and "load_verified L K h fs1 = Inr (d\<lparr>ped_key_ids := ped_key_ids d @ [k]\<rparr>)"
    and "directory_wf L K fs1" "extends L K fs fs1" "k \<notin> set (ped_key_ids d)"
proof -
  obtain h where h: "load_verified L K h fs = Inr d" by (rule load_public_entryD [OF assms(3)])
  have ok: "entry_ok L h d" by (rule load_verified_ok [OF directory_wfD(1) [OF wf] h])
  then have hd: "hex_of (hd (ped_key_ids d @ [k])) = h" by (auto simp: entry_ok_def)
  have "\<exists>ks. d\<lparr>ped_key_ids := ped_key_ids d @ [k]\<rparr> = d0\<lparr>ped_key_ids := ped_key_ids d0 @ ks\<rparr>"
    if "load_verified L K h fs = Inr d0" for d0
    using that h by auto
  note w = write_public_wf [OF libs wf assms(7,6) [unfolded hd] entry_ok_new_id [OF libs ok assms(4,5)] this]
  have "k \<notin> set (ped_key_ids d)"
    using cached_key_id_None [OF assms(4) KeyId_build_valid(2) [OF libs assms(5)]] by auto
  then show thesis using that [OF hd h] w by blast
qed

lemma computed_index:
  assumes libs: "keystore_libs L" and wf: "directory_wf L K fs1"
    and "load_verified L K h fs1 = Inr d" "k \<in> set (ped_key_ids d)" "KeyId_build L pk g = Inr k" "h = hex_of p"
    and "load_alt_index L K fs1 = Inr es" "mac_alt_index L K (es @ [\<lparr>aie_key_id = k, aie_primary_hex = ascii h\<rparr>]) salt = Inr tag"
    and "files fs' = (files fs1)(ALT_INDEX_PATH \<mapsto> \<lparr>file_data = der_encode L (alt_index_file_value
        \<lparr>aif_entries = es @ [\<lparr>aie_key_id = k, aie_primary_hex = ascii h\<rparr>], aif_mac_salt = salt,
         aif_mac_tag = tag\<rparr>), file_mode = 384\<rparr>)"
  shows "load_alt_index L K fs' = Inr (es @ [\<lparr>aie_key_id = k, aie_primary_hex = ascii h\<rparr>])"
    and "directory_wf L K fs'" "extends L K fs1 fs'" "load_verified L K h fs' = Inr d"
proof -
  have "index_entry_ok L K fs1 \<lparr>aie_key_id = k, aie_primary_hex = ascii h\<rparr>"
    using assms(3,4,6) by (auto simp: index_entry_ok_def hex_of_def decode_ascii_hex)
  moreover have "asn1_valid L (alt_index_entry_value \<lparr>aie_key_id = k, aie_primary_hex = ascii h\<rparr>)"
    using KeyId_build_valid(1) [OF libs assms(5)] by (simp add: alt_index_entry_value_def)
  ultimately show "load_alt_index L K fs' = Inr (es @ [\<lparr>aie_key_id = k, aie_primary_hex = ascii h\<rparr>])"
      "directory_wf L K fs'" "extends L K fs1 fs'"
    using write_index_wf [OF libs wf assms(9,7,8)] by blast+
  show "load_verified L K h fs' = Inr d"
    using load_verified_cong [of fs' h fs1] assms(3) by (simp add: assms(9))
qed

lemma key_id_for_wf:
  assumes libs: "keystore_libs L" and wf: "directory_wf L K fs"
    and step: "key_id_for L K env env' arg g fs = (r, fs')"
  shows "directory_wf L K fs' \<and> extends L K fs fs'"
  using step
proof (cases rule: key_id_for_cases)
  case unchanged
  then show ?thesis using directory_wf_same_files [OF wf] by simp
next
  case cached
  then show ?thesis using wf by (simp add: extends_refl)
next
  case (computed k0 d k e fs1 ra)
  obtain h where hd: "hex_of (hd (ped_key_ids d @ [k])) = h"
    and l: "load_verified L K h fs1 = Inr (d\<lparr>ped_key_ids := ped_key_ids d @ [k]\<rparr>)"
    and w: "directory_wf L K fs1" "extends L K fs fs1"
    by (rule computed_entry [OF libs wf computed(2-6)])
  from computed(7) [unfolded hd] show ?thesis
  proof (cases rule: alt_index_add_cases)
    case unchanged
    then show ?thesis using directory_wf_same_files [of L K fs1 fs'] w extends_trans by blast
  next
    case (added es tag)
    from computed_index(2,3) [OF libs w(1) l _ computed(4) hd [symmetric] added(2-4)] w(2) show ?thesis
      using extends_trans by simp
  qed
qed

subsection \<open>Runs of a client\<close>

text \<open>One call with any arguments (the keys are values \<^verbatim>\<open>asn1crypto\<close> can hold) and any I/O fault.\<close>

inductive directory_step :: "lib \<Rightarrow> key_directory \<Rightarrow> filesystem \<Rightarrow> filesystem \<Rightarrow> bool" for L K where
  step_add_public: "add_public_key L K env a fs = (r, fs') \<Longrightarrow>
    \<forall>wire. to_wire_key a = Inr wire \<longrightarrow> asn1_valid L (kem_public_key_value wire) \<Longrightarrow> directory_step L K fs fs'"
| step_add_private: "add_private_key L K env pk b fs = (r, fs') \<Longrightarrow> directory_step L K fs fs'"
| step_key_id_for: "key_id_for L K env env' arg g fs = (r, fs') \<Longrightarrow> directory_step L K fs fs'"

lemma directory_step_wf:
  assumes "directory_step L K fs fs'" "keystore_libs L" "directory_wf L K fs"
  shows "directory_wf L K fs' \<and> extends L K fs fs'"
  using assms(1)
proof cases
  case (step_add_public env a r)
  then show ?thesis using add_public_key_wf(1) [OF assms(2,3)] by blast
next
  case step_add_private
  then show ?thesis using add_private_key_wf(1) [OF assms(2,3)] by blast
next
  case step_key_id_for
  then show ?thesis by (rule key_id_for_wf [OF assms(2,3)])
qed

lemma directory_reach_wf:
  assumes "(directory_step L K)\<^sup>*\<^sup>* fs fs'" "keystore_libs L" "directory_wf L K fs"
  shows "directory_wf L K fs' \<and> extends L K fs fs'"
  using assms(1)
proof (induction rule: rtranclp_induct)
  case base
  then show ?case using assms(3) by (simp add: extends_refl)
next
  case (step f1 f2)
  then show ?case using directory_step_wf [OF step.hyps(2) assms(2)] extends_trans by blast
qed

subsection \<open>create and open\<close>

lemma create_cases:
  assumes "create L env pass iterations fs = (Inr K, fs')"
  obtains tag where "derive_master_key L pass (env_salt env) iterations = Inr (kd_master_key K)"
    and "derive_check_tag L (kd_master_key K) (env_salt env) = Inr tag"
    and "files fs' = [HEADER_PATH \<mapsto> \<lparr>file_data = der_encode L (keystore_header_value
        \<lparr>kh_version = 0, kh_kdf_salt = env_salt env, kh_kdf_iterations = iterations,
         kh_verification_tag = tag\<rparr>), file_mode = 384\<rparr>]"
proof -
  let ?fs1 = "make_dir ''private'' 448 (make_dir ''public'' 448 (make_dir [] 448 fs))"
  have "is_empty_dir fs" using assms by (auto simp: create_def split: if_splits)
  then have none: "files ?fs1 = Map.empty" by (simp add: is_empty_dir_def)
  obtain mk where mk: "derive_master_key L pass (env_salt env) iterations = Inr mk"
    using assms \<open>is_empty_dir fs\<close> by (cases "derive_master_key L pass (env_salt env) iterations") (simp_all add: create_def)
  obtain tag where tag: "derive_check_tag L mk (env_salt env) = Inr tag"
    using assms \<open>is_empty_dir fs\<close> mk by (cases "derive_check_tag L mk (env_salt env)") (simp_all add: create_def)
  obtain r1 f1 where w: "atomic_write env HEADER_PATH (der_encode L (keystore_header_value
        \<lparr>kh_version = 0, kh_kdf_salt = env_salt env, kh_kdf_iterations = iterations,
         kh_verification_tag = tag\<rparr>)) 384 ?fs1 = (r1, f1)" by fastforce
  have r: "(Inr K, fs') = sseq (r1, f1) (\<lambda>_ fs2. (Inr \<lparr>kd_master_key = mk\<rparr>, fs2))"
    using assms \<open>is_empty_dir fs\<close> mk tag w by (simp add: create_def)
  from w show thesis
  proof (cases rule: atomic_write_cases)
    case failed
    then show thesis using r by simp
  next
    case written
    then show thesis using r mk tag none by (intro that) simp_all
  qed
qed

lemma create_wf:
  assumes "keystore_libs L" "create L env pass iterations fs = (Inr K, fs')"
  shows "directory_wf L K fs'"
proof -
  obtain f where f: "files fs' = [HEADER_PATH \<mapsto> f]" by (rule create_cases [OF assms(2)]) simp
  have "load_alt_index L K fs' = Inr []" by (simp add: load_alt_index_def file_exists_def f)
  then have "index_wf L K fs'" by (simp add: index_wf_def f alt_index_value_def)
  then show ?thesis by (simp add: directory_wf_def public_wf_def private_wf_def f)
qed

lemma open_directory_header:
  assumes "asn1_works L" "files fs HEADER_PATH = Some \<lparr>file_data = der_encode L (keystore_header_value
        \<lparr>kh_version = 0, kh_kdf_salt = salt, kh_kdf_iterations = iterations,
         kh_verification_tag = tag\<rparr>), file_mode = m\<rparr>"
  shows "open_directory L pass fs = rbind (derive_master_key L pass salt iterations) (\<lambda>mk.
      rbind (derive_check_tag L mk salt) (\<lambda>t. if t \<noteq> tag then Inl WrongPassphrase else Inr \<lparr>kd_master_key = mk\<rparr>))"
proof -
  let ?h = "\<lparr>kh_version = 0, kh_kdf_salt = salt, kh_kdf_iterations = iterations, kh_verification_tag = tag\<rparr>"
  have "KeystoreHeader_load L (der_encode L (keystore_header_value ?h)) = Inr ?h"
    unfolding KeystoreHeader_load_def
    by (rule canonical_dump [OF assms(1)]) (simp add: keystore_header_value_def, simp)
  then show ?thesis
    by (simp add: open_directory_def file_exists_def read_bytes_files [OF assms(2)] assms(2))
qed

subsection \<open>When calls succeed\<close>

text \<open>Without an I/O error and with a fresh temporary name each call returns, given keys it can derive.\<close>

lemma tmp_path_other:
  "tmp_path env p \<noteq> public_path h" "tmp_path env p \<noteq> private_path h"
  "tmp_path env p \<noteq> HEADER_PATH" "tmp_path env p \<noteq> ALT_INDEX_PATH"
proof -
  have t: "last (tmp_path env p) = CHR ''t''" by (simp add: tmp_path_def)
  show "tmp_path env p \<noteq> public_path h" using t by (auto simp: public_path_def)
  show "tmp_path env p \<noteq> private_path h" using t by (auto simp: private_path_def)
  show "tmp_path env p \<noteq> HEADER_PATH" using t by (auto simp: HEADER_PATH_def)
  show "tmp_path env p \<noteq> ALT_INDEX_PATH" using t by (auto simp: ALT_INDEX_PATH_def)
qed

lemma atomic_write_ok:
  assumes "env_fault env = None" "\<not> file_exists (tmp_path env path) fs"
  obtains fs' where "atomic_write env path data mode fs = (Inr (), fs')"
    and "files fs' = (files fs)(path \<mapsto> \<lparr>file_data = data, file_mode = mode\<rparr>)"
proof -
  obtain r fs' where w: "atomic_write env path data mode fs = (r, fs')" by fastforce
  have "r = Inr ()" using w assms by (simp add: atomic_write_def Let_def)
  note r = this
  from w show thesis
  proof (cases rule: atomic_write_cases)
    case failed
    then show thesis using r by simp
  next
    case written
    then show thesis using w r by (intro that) simp_all
  qed
qed


lemma derive_works:
  assumes "hkdf_works L"
  obtains k where "hkdf_sha256 L 32 salt info ikm = Inr k"
  by (rule hkdf_worksE [OF assms, of 32]) simp_all

lemma create_ok:
  assumes "hkdf_works L" "is_empty_dir fs" "derive_master_key L pass (env_salt env) iterations = Inr mk"
    and "env_fault env = None"
  obtains fs' where "create L env pass iterations fs = (Inr \<lparr>kd_master_key = mk\<rparr>, fs')"
proof -
  obtain ck where "hkdf_sha256 L 32 (env_salt env) DOMAIN_CHECK mk = Inr ck" using assms(1) by (rule derive_works)
  then obtain tag where t: "derive_check_tag L mk (env_salt env) = Inr tag" by (simp add: derive_check_tag_def)
  let ?f = "make_dir ''private'' 448 (make_dir ''public'' 448 (make_dir [] 448 fs))"
  have "\<not> file_exists (tmp_path env HEADER_PATH) ?f"
    using assms(2) by (simp add: file_exists_def is_empty_dir_def)
  then obtain fs' where "atomic_write env HEADER_PATH (der_encode L (keystore_header_value
        \<lparr>kh_version = 0, kh_kdf_salt = env_salt env, kh_kdf_iterations = iterations,
         kh_verification_tag = tag\<rparr>)) 384 ?f = (Inr (), fs')"
    using atomic_write_ok [OF assms(4)] by blast
  then show thesis using that assms(2,3) t by (simp add: create_def)
qed

lemma build_entry_ok:
  assumes "hkdf_works L" obtains e where "build_stored_public_key_entry L K env d h = Inr e"
proof -
  obtain mk where "derive_public_key_mac_key L (kd_master_key K) (env_salt env) h = Inr mk"
    using derive_works [OF assms] unfolding derive_public_key_mac_key_def MAC_KEY_LEN_def by blast
  then show thesis using that by (simp add: build_stored_public_key_entry_def mac_public_key_data_def)
qed

lemma add_public_key_ok:
  assumes "hkdf_works L" "to_wire_key a = Inr wire" "primary_key_id L wire = Inr p"
    and "\<not> file_exists (public_path (hex_of p)) fs" "env_fault env = None"
    and "\<not> file_exists (tmp_path env (public_path (hex_of p))) fs"
  obtains fs' where "add_public_key L K env a fs = (Inr p, fs')"
proof -
  obtain e where e: "build_stored_public_key_entry L K env \<lparr>ped_public_key = wire, ped_key_ids = [p]\<rparr> (hex_of p) = Inr e"
    using assms(1) by (rule build_entry_ok)
  obtain fs' where "atomic_write env (public_path (hex_of p)) (der_encode L (stored_public_key_entry_value e)) 420 fs = (Inr (), fs')"
    by (rule atomic_write_ok [OF assms(5,6)])
  then show thesis using that assms(2-4) e by (simp add: add_public_key_def)
qed

lemma add_private_key_ok:
  assumes "hkdf_works L" "primary_key_id L pk = Inr p"
    and "file_exists (public_path (hex_of p)) fs" "\<not> file_exists (private_path (hex_of p)) fs"
    and "\<And>kek. \<exists>w. aes_key_wrap_with_padding L kek b = Inr w"
    and "env_fault env = None" "\<not> file_exists (tmp_path env (private_path (hex_of p))) fs"
  obtains fs' where "add_private_key L K env pk b fs = (Inr p, fs')"
proof -
  obtain kek where k: "derive_kek L (kd_master_key K) (env_salt env) (KeyId_dump L p) = Inr kek"
    using derive_works [OF assms(1)] unfolding derive_kek_def KEK_LEN_def by blast
  obtain w where w: "aes_key_wrap_with_padding L kek b = Inr w" using assms(5) by blast
  obtain fs' where "atomic_write env (private_path (hex_of p)) (der_encode L (stored_private_key_entry_value
      \<lparr>sve_key_id = p, sve_kek_salt = env_salt env, sve_wrap_algorithm = WRAP_ALGORITHM_OID,
       sve_wrapped_key = w\<rparr>)) 384 fs = (Inr (), fs')"
    by (rule atomic_write_ok [OF assms(6,7)])
  then show thesis using that assms(2-4) k w by (simp add: add_private_key_def)
qed

lemma key_id_for_ok:
  assumes "keystore_libs L" "hkdf_works L" "directory_wf L K fs"
    and "arg_key_id L arg = Inr k0" "load_public_entry_by_key_id L K k0 fs = Inr d"
    and "cached_key_id L g (ped_key_ids d) = Inr None" "KeyId_build L (ped_public_key d) g = Inr k"
    and "env_fault env = None" "env_fault env' = None"
    and "\<And>p. \<not> file_exists (tmp_path env p) fs" "\<And>p. \<not> file_exists (tmp_path env' p) fs"
  obtains fs' where "key_id_for L K env env' arg g fs = (Inr k, fs')"
proof -
  obtain h where h: "load_verified L K h fs = Inr d" by (rule load_public_entryD [OF assms(5)])
  have ok: "entry_ok L h d" by (rule load_verified_ok [OF directory_wfD(1) [OF assms(3)] h])
  then have hd: "hex_of (hd (ped_key_ids d @ [k])) = h" by (auto simp: entry_ok_def)
  let ?d = "d\<lparr>ped_key_ids := ped_key_ids d @ [k]\<rparr>"
  obtain en where en: "build_stored_public_key_entry L K env ?d h = Inr en"
    using assms(2) by (rule build_entry_ok)
  obtain f1 where w: "atomic_write env (public_path h) (der_encode L (stored_public_key_entry_value en)) 420 fs = (Inr (), f1)"
    and f: "files f1 = (files fs)(public_path h \<mapsto>
        \<lparr>file_data = der_encode L (stored_public_key_entry_value en), file_mode = 420\<rparr>)"
    by (rule atomic_write_ok [OF assms(8,10)])
  have "\<exists>ks. ?d = d0\<lparr>ped_key_ids := ped_key_ids d0 @ ks\<rparr>" if "load_verified L K h fs = Inr d0" for d0
    using that h by auto
  note p = write_public_wf [OF assms(1,3) f en entry_ok_new_id [OF assms(1) ok assms(6,7)] this]
  obtain es where es: "load_alt_index L K f1 = Inr es"
    using directory_wfD(2) [OF conjunct1 [OF p(2)]] by (auto simp: index_wf_def)
  obtain mk where "derive_alt_index_mac_key L (kd_master_key K) (env_salt env') = Inr mk"
    using derive_works [OF assms(2)] unfolding derive_alt_index_mac_key_def MAC_KEY_LEN_def by blast
  then obtain tag where "mac_alt_index L K (es @ [\<lparr>aie_key_id = k, aie_primary_hex = ascii h\<rparr>]) (env_salt env') = Inr tag"
    by (simp add: mac_alt_index_def)
  moreover have "\<not> file_exists (tmp_path env' ALT_INDEX_PATH) f1"
    using assms(11) tmp_path_other(1) by (simp add: file_exists_def f)
  then obtain f2 where "atomic_write env' ALT_INDEX_PATH (der_encode L (alt_index_file_value
      \<lparr>aif_entries = es @ [\<lparr>aie_key_id = k, aie_primary_hex = ascii h\<rparr>], aif_mac_salt = env_salt env', aif_mac_tag = tag\<rparr>)) 384 f1 = (Inr (), f2)"
    using atomic_write_ok [OF assms(9)] by blast
  ultimately have a: "alt_index_add L K env' k h f1 = (Inr (), f2)" using es by (simp add: alt_index_add_def)
  have "key_id_for L K env env' arg g fs = (Inr k, f2)"
    by (simp add: key_id_for_def key_id_for_entry Let_def assms(4-7) hd en w a del: KeyId_build_eq_Inr)
  then show thesis by (rule that)
qed

end
