(* ===== verification/KeystoreProps.thy ===== *)
theory KeystoreProps
  imports KeystoreOps
begin

section \<open>The key directory: properties\<close>

text \<open>
  What a client of \<open>KeyDirectory\<close> gets: what was added stays retrievable whatever is called later and
  whatever I/O errors strike, every id that was handed out leads back to its key, no file an attacker puts
  into the directory makes it return a key under a wrong id, a passphrase is accepted exactly when its check
  tag fits, a crash in the middle of a write loses nothing, and where a crash between two writes does.
\<close>

subsection \<open>What lookups give in a well-formed directory\<close>

lemma public_entry_kept:
  assumes "keystore_libs L" "directory_wf L K fs" "(directory_step L K)\<^sup>*\<^sup>* fs fs'"
    and "load_verified L K h fs = Inr d"
  shows "\<exists>ks. load_verified L K h fs' = Inr (d\<lparr>ped_key_ids := ped_key_ids d @ ks\<rparr>)"
  using directory_reach_wf [OF assms(3,1,2)] extendsD(1) assms(4) by blast

lemma get_public_key_direct:
  assumes "load_verified L K (hex_of k) fs = Inr d" "k \<in> set (ped_key_ids d)"
  shows "get_public_key L K k fs = Inr (ped_public_key d)"
  by (simp add: get_public_key_def load_public_entry_primary [OF assms])

lemma alt_index_find_matches:
  "alt_index_find k es = Inr (Some h) \<Longrightarrow> \<exists>e \<in> set es. same_key_id k (aie_key_id e) \<and> decode_ascii (aie_primary_hex e) = Inr h"
  by (induction es) (auto split: if_splits)

lemma alt_index_find_ok:
  assumes "\<forall>e \<in> set es. index_entry_ok L K fs e"
  shows "alt_index_find k es = Inr None \<and> (\<forall>e \<in> set es. \<not> same_key_id k (aie_key_id e)) \<or>
    (\<exists>h d. alt_index_find k es = Inr (Some h) \<and> load_verified L K h fs = Inr d \<and> list_ex (same_key_id k) (ped_key_ids d))"
  using assms by (induction es) (auto simp: index_entry_ok_def list_ex_iff)

text \<open>In a well-formed directory a lookup gives an entry with the id or raises \<open>KeyNotFound\<close>.\<close>

lemma load_public_entry_total:
  assumes "directory_wf L K fs"
  shows "(\<exists>d. load_public_entry_by_key_id L K k fs = Inr d) \<or>
    load_public_entry_by_key_id L K k fs = Inl KeyNotFound \<and>
    (\<forall>es. load_alt_index L K fs = Inr es \<longrightarrow> (\<forall>e \<in> set es. \<not> same_key_id k (aie_key_id e)))"
proof -
  obtain es where es: "load_alt_index L K fs = Inr es" "\<forall>e \<in> set es. index_entry_ok L K fs e"
    using directory_wfD(2) [OF assms] by (auto simp: index_wf_def)
  have direct: "\<exists>d. load_verified L K h fs = Inr d" if "file_exists (public_path h) fs" for h
    using that directory_wfD(1) [OF assms] by (force simp: file_exists_def public_wf_def)
  let ?direct = "if file_exists (public_path (hex_of k)) fs
      then rbind (load_verified L K (hex_of k) fs) (\<lambda>data.
        Inr (if list_ex (same_key_id k) (ped_key_ids data) then Some data else None))
      else Inr None"
  obtain c where c: "?direct = Inr c" using direct [of "hex_of k"] by fastforce
  show ?thesis
  proof (cases c)
    case (Some d)
    then show ?thesis using c by (simp add: load_public_entry_by_key_id_def Let_def)
  next
    case None
    from alt_index_find_ok [OF es(2), of k] show ?thesis
    proof (elim disjE conjE exE)
      assume "alt_index_find k es = Inr None" "\<forall>e \<in> set es. \<not> same_key_id k (aie_key_id e)"
      then show ?thesis using c None es(1)
        by (simp add: load_public_entry_by_key_id_def Let_def alt_index_lookup_def)
    next
      fix h d assume h: "alt_index_find k es = Inr (Some h)" "load_verified L K h fs = Inr d"
        "list_ex (same_key_id k) (ped_key_ids d)"
      then have "file_exists (public_path h) fs" using load_verified_exists by (auto simp: file_exists_def)
      then show ?thesis using c None es(1) h
        by (simp add: load_public_entry_by_key_id_def Let_def alt_index_lookup_def)
    qed
  qed
qed

subsection \<open>Added keys are kept\<close>

text \<open>
  C13. Every directory that \<open>create\<close> and any calls of the public methods produce, with an I/O error
  striking anywhere in any of them, is well-formed: each public entry verifies, is filed under the SHA-256 id
  of its own key and lists ids of that key under different digests; the alternate index verifies and points to
  entries that have the id; each private key unwraps and its public key is registered; files have mode
  0644 or 0600 as documented; and the header is the one \<open>create\<close> wrote.
\<close>

theorem reachable_directory_wf:
  assumes "keystore_libs L" "create L env pass iterations fs0 = (Inr K, fs1)"
    and "(directory_step L K)\<^sup>*\<^sup>* fs1 fs"
  shows "public_wf L K fs \<and> index_wf L K fs \<and> private_wf L K fs \<and>
    files fs HEADER_PATH = files fs1 HEADER_PATH \<and> map_option file_mode (files fs HEADER_PATH) = Some 384"
proof -
  have "directory_wf L K fs \<and> extends L K fs1 fs"
    by (rule directory_reach_wf [OF assms(3,1) create_wf [OF assms(1,2)]])
  moreover obtain f where "files fs1 = [HEADER_PATH \<mapsto> f]" "file_mode f = 384"
    by (rule create_cases [OF assms(2)]) simp
  ultimately show ?thesis by (simp add: directory_wf_def extends_def)
qed

text \<open>
  C24. A public key that was added is retrieved by the id \<open>add_public_key\<close> returned, its SHA-256 id, after any
  further calls and I/O errors; adding it again raises \<open>DuplicateKey\<close> and writes nothing.
\<close>

theorem public_key_kept:
  assumes "keystore_libs L" "directory_wf L K fs" "add_public_key L K env a fs = (Inr p, fs1)"
    and "\<And>wire. to_wire_key a = Inr wire \<Longrightarrow> asn1_valid L (kem_public_key_value wire)"
    and "(directory_step L K)\<^sup>*\<^sup>* fs1 fs2"
  shows "rbind (to_wire_key a) (primary_key_id L) = Inr p \<and> get_public_key L K p fs2 = to_wire_key a
    \<and> add_public_key L K env' a fs2 = (Inl DuplicateKey, fs2)"
proof -
  obtain wire where w: "to_wire_key a = Inr wire" "primary_key_id L wire = Inr p"
    and l: "load_verified L K (hex_of p) fs1 = Inr \<lparr>ped_public_key = wire, ped_key_ids = [p]\<rparr>"
    using add_public_key_wf(2) [OF assms(1,2,4,3)] by blast
  have wf: "directory_wf L K fs1" using add_public_key_wf(1) [OF assms(1,2,4,3)] ..
  obtain ks where ks: "load_verified L K (hex_of p) fs2 = Inr \<lparr>ped_public_key = wire, ped_key_ids = [p] @ ks\<rparr>"
    using public_entry_kept [OF assms(1) wf assms(5) l] by auto
  have "file_exists (public_path (hex_of p)) fs2"
    using load_verified_exists [OF ks] by (auto simp: file_exists_def)
  then have "add_public_key L K env' a fs2 = (Inl DuplicateKey, fs2)"
    using w by (simp add: add_public_key_def)
  with w get_public_key_direct [OF ks] show ?thesis by simp
qed

lemma private_kept:
  assumes "keystore_libs L" "directory_wf L K fs" "add_private_key L K env pk b fs = (Inr p, fs1)"
    and "(directory_step L K)\<^sup>*\<^sup>* fs1 fs2"
  shows "primary_key_id L pk = Inr p \<and> get_private_key L K p fs2 = Inr b"
    and "file_exists (private_path (hex_of p)) fs2 \<and> file_exists (public_path (hex_of p)) fs2"
proof -
  have p: "primary_key_id L pk = Inr p" "get_private_key L K p fs1 = Inr b"
    using add_private_key_wf(2) [OF assms(1-3)] by auto
  have sha: "sha256_id L p" by (rule primary_sha256 [OF p(1)])
  have e: "directory_wf L K fs2" "extends L K fs1 fs2"
    using directory_reach_wf [OF assms(4,1) conjunct1 [OF add_private_key_wf(1) [OF assms(1-3)]]] by auto
  have "file_exists (private_path (hex_of p)) fs1"
    using p(2) sha by (auto simp: get_private_key_def split: if_splits)
  then obtain f where f1: "files fs1 (private_path (hex_of p)) = Some f" by (auto simp: file_exists_def)
  then have f2: "files fs2 (private_path (hex_of p)) = Some f" by (rule extendsD(3) [OF e(2)])
  show "primary_key_id L pk = Inr p \<and> get_private_key L K p fs2 = Inr b"
    using get_private_key_cong [OF sha, of fs2 fs1] f1 f2 p by simp
  show "file_exists (private_path (hex_of p)) fs2 \<and> file_exists (public_path (hex_of p)) fs2"
    using directory_wfD(3) [OF e(1)] f2 unfolding private_wf_def by (auto simp: file_exists_def)
qed

text \<open>
  C25. A private key that was added comes back byte for byte under the id \<open>add_private_key\<close> returned, after
  any further calls and I/O errors, and is never overwritten.
\<close>

theorem private_key_kept:
  assumes "keystore_libs L" "directory_wf L K fs" "add_private_key L K env pk b fs = (Inr p, fs1)"
    and "(directory_step L K)\<^sup>*\<^sup>* fs1 fs2"
  shows "primary_key_id L pk = Inr p \<and> get_private_key L K p fs2 = Inr b
    \<and> add_private_key L K env' pk b' fs2 = (Inl DuplicateKey, fs2)"
  using private_kept [OF assms] by (simp add: add_private_key_def)

subsection \<open>Ids under other digests\<close>

lemma key_id_for_computed:
  assumes libs: "keystore_libs L" and wf: "directory_wf L K fs"
    and step: "key_id_for L K env env' arg g fs = (Inr k, fs')" and new: "fs' \<noteq> fs"
  obtains h d k0 where "arg_key_id L arg = Inr k0" "load_public_entry_by_key_id L K k0 fs = Inr d"
    and "KeyId_build L (ped_public_key d) g = Inr k" "k \<notin> set (ped_key_ids d)"
    and "load_verified L K h fs' = Inr (d\<lparr>ped_key_ids := ped_key_ids d @ [k]\<rparr>)"
    and "\<exists>es. load_alt_index L K fs' = Inr es \<and> k \<in> aie_key_id ` set es"
    and "directory_wf L K fs'"
  using step
proof (cases rule: key_id_for_cases)
  case unchanged
  then show thesis by simp
next
  case cached
  then show thesis using new by simp
next
  case (computed k0 d k' e fs1 ra)
  have ra: "ra = Inr ()" "k' = k" using computed(8) by (cases ra; simp)+
  obtain h where hd: "hex_of (hd (ped_key_ids d @ [k])) = h"
    and l: "load_verified L K h fs1 = Inr (d\<lparr>ped_key_ids := ped_key_ids d @ [k]\<rparr>)"
    and w: "directory_wf L K fs1" "extends L K fs fs1" "k \<notin> set (ped_key_ids d)"
    by (rule computed_entry [OF libs wf computed(2-6) [unfolded ra(2)]])
  from computed(7) [unfolded ra(2) hd] show thesis
  proof (cases rule: alt_index_add_cases)
    case unchanged
    then show thesis using ra by simp
  next
    case (added es tag)
    note x = computed_index [OF libs w(1) l _ computed(4) [unfolded ra(2)] hd [symmetric] added(2-4)]
    show thesis
      using that [OF computed(1,2) computed(4) [unfolded ra(2)] w(3) x(4)] x(1,2) by simp
  qed
qed

lemma entry_ok_same_key:
  assumes "entry_ok L h d" "entry_ok L h' d'" "ped_public_key d = ped_public_key d'"
  shows "h = h'"
  using assms by (auto simp: entry_ok_def)

lemma get_private_key_by_id:
  assumes "primary_hex_of L K k fs = Inr (hex_of p)" "sha256_id L p"
  shows "get_private_key L K k fs = get_private_key L K p fs"
  using assms by (simp add: get_private_key_def)

lemma primary_hex_of_other:
  assumes "load_public_entry_by_key_id L K k fs = Inr d" "ped_key_ids d = p # ks"
    and "digest_oid L ''sha256'' = Inr oid" "id_oid k \<noteq> oid"
  shows "primary_hex_of L K k fs = Inr (hex_of p)"
  using assms by (simp add: primary_hex_of_def)

text \<open>No other key collides with a key under the digest of one of its ids.\<close>

definition no_other_key_has_id :: "lib \<Rightarrow> key_id \<Rightarrow> kem_public_key \<Rightarrow> bool" where
  "no_other_key_has_id L k pk \<longleftrightarrow> (\<forall>pk2 g2 k2. asn1_valid L (kem_public_key_value pk2) \<longrightarrow>
     KeyId_build L pk2 g2 = Inr k2 \<longrightarrow> same_key_id k k2 \<longrightarrow> pk2 = pk)"

lemma id_names_key:
  assumes "entry_ok L h d" "list_ex (same_key_id k) (ped_key_ids d)" "no_other_key_has_id L k pk"
  shows "ped_public_key d = pk"
proof -
  have v: "asn1_valid L (kem_public_key_value (ped_public_key d))"
    using assms(1) by (simp add: entry_ok_def public_key_entry_data_value_def)
  obtain k2 g2 where "same_key_id k k2" "KeyId_build L (ped_public_key d) g2 = Inr k2"
    using assms(1,2) unfolding entry_ok_def list_ex_iff by blast
  with v assms(3) show ?thesis unfolding no_other_key_has_id_def by blast
qed

text \<open>An id in the index finds the entry of its key, if no other key has the id.\<close>

lemma indexed_key_found:
  assumes "directory_wf L K fs" "load_alt_index L K fs = Inr es" "k \<in> aie_key_id ` set es"
    and "no_other_key_has_id L k (ped_public_key d)" "load_verified L K h fs = Inr d"
  shows "load_public_entry_by_key_id L K k fs = Inr d"
proof -
  obtain a where "a \<in> set es" "aie_key_id a = k" using assms(3) by auto
  then have "\<not> (\<forall>es'. load_alt_index L K fs = Inr es' \<longrightarrow> (\<forall>a \<in> set es'. \<not> same_key_id k (aie_key_id a)))"
    using assms(2) same_key_id_refl [of k] by blast
  then obtain d' where d': "load_public_entry_by_key_id L K k fs = Inr d'"
    using load_public_entry_total [OF assms(1), of k] by blast
  obtain h' where h': "load_verified L K h' fs = Inr d'" "list_ex (same_key_id k) (ped_key_ids d')"
    by (rule load_public_entryD [OF d'])
  have ok': "entry_ok L h' d'" by (rule load_verified_ok [OF directory_wfD(1) [OF assms(1)] h'(1)])
  have "h' = h"
    using entry_ok_same_key [OF ok' load_verified_ok [OF directory_wfD(1) [OF assms(1)] assms(5)]]
      id_names_key [OF ok' h'(2) assms(4)] by simp
  then show ?thesis using d' h'(1) assms(5) by simp
qed

text \<open>
  C15. An id that \<open>key_id_for\<close> computed and returned is usable for good: whatever is called later and whatever
  I/O errors strike, the key is found by it, \<open>key_id_for\<close> returns it from the entry without computing or
  writing anything, and the private key is found by it as by the SHA-256 id. (The hypothesis
  excludes a collision of the digest.)
\<close>

theorem computed_id_usable:
  assumes "keystore_libs L" "directory_wf L K fs"
    and "key_id_for L K env env' arg g fs = (Inr k, fs1)" "fs1 \<noteq> fs"
    and "rbind (arg_key_id L arg) (\<lambda>k0. get_public_key L K k0 fs) = Inr pk"
    and "no_other_key_has_id L k pk"
    and "(directory_step L K)\<^sup>*\<^sup>* fs1 fs2"
  shows "KeyId_build L pk g = Inr k \<and> get_public_key L K k fs2 = Inr pk
    \<and> key_id_for L K e e' (ByKeyId k) g fs2 = (Inr k, fs2) \<and> key_id_for L K e e' (ByKey pk) g fs2 = (Inr k, fs2)
    \<and> rbind (primary_key_id L pk) (\<lambda>p. get_private_key L K p fs2) = get_private_key L K k fs2"
proof -
  obtain h d k0 where d: "arg_key_id L arg = Inr k0" "load_public_entry_by_key_id L K k0 fs = Inr d"
      "KeyId_build L (ped_public_key d) g = Inr k" "k \<notin> set (ped_key_ids d)"
    and l: "load_verified L K h fs1 = Inr (d\<lparr>ped_key_ids := ped_key_ids d @ [k]\<rparr>)"
    and i: "\<exists>es. load_alt_index L K fs1 = Inr es \<and> k \<in> aie_key_id ` set es" and wf1: "directory_wf L K fs1"
    by (rule key_id_for_computed [OF assms(1-4)])
  have pk: "ped_public_key d = pk" using assms(5) d(1,2) by (simp add: get_public_key_def)
  have wf2: "directory_wf L K fs2" and ext: "extends L K fs1 fs2"
    using directory_reach_wf [OF assms(7,1) wf1] by auto
  obtain ks where l2: "load_verified L K h fs2 = Inr (d\<lparr>ped_key_ids := (ped_key_ids d @ [k]) @ ks\<rparr>)"
    using extendsD(1) [OF ext l] by auto
  let ?d2 = "d\<lparr>ped_key_ids := (ped_key_ids d @ [k]) @ ks\<rparr>"
  have ok2: "entry_ok L h ?d2" by (rule load_verified_ok [OF directory_wfD(1) [OF wf2] l2])
  have found: "load_public_entry_by_key_id L K k fs2 = Inr ?d2"
  proof -
    obtain es es' where es: "load_alt_index L K fs2 = Inr (es @ es')" "k \<in> aie_key_id ` set es"
      using i extendsD(2) [OF ext] by blast
    from es(2) have "k \<in> aie_key_id ` set (es @ es')" by auto
    then show ?thesis using pk assms(6) by (intro indexed_key_found [OF wf2 es(1) _ _ l2]) simp_all
  qed
  have "list_ex (same_key_id k0) (ped_key_ids d)" using load_public_entryD [OF d(2)] by blast
  then obtain p ps where ids: "ped_key_ids d = p # ps" by (cases "ped_key_ids d") simp_all
  have p: "primary_key_id L pk = Inr p" "h = hex_of p" using ok2 ids pk by (simp_all add: entry_ok_def)
  have c: "cached_key_id L g (ped_key_ids ?d2) = Inr (Some k)"
    using ok2 by (intro cached_key_id_found [OF KeyId_build_valid(2) [OF assms(1) d(3)]])
      (simp_all add: entry_ok_def)
  have prim: "load_public_entry_by_key_id L K p fs2 = Inr ?d2"
    using l2 p(2) ids by (intro load_public_entry_primary) auto
  have sha: "sha256_id L p" by (rule primary_sha256 [OF p(1)])
  have "id_oid k \<noteq> id_oid p" using ok2 ids by (auto simp: entry_ok_def)
  then have "primary_hex_of L K k fs2 = Inr (hex_of p)"
    using found ids sha by (intro primary_hex_of_other [where d = ?d2]) (auto simp: sha256_id_def)
  then have "get_private_key L K k fs2 = get_private_key L K p fs2"
    by (rule get_private_key_by_id [OF _ sha])
  moreover have "get_public_key L K k fs2 = Inr pk" using found pk by (simp add: get_public_key_def)
  moreover have "key_id_for L K e e' (ByKeyId k) g fs2 = (Inr k, fs2)"
    by (rule key_id_for_cached [OF _ found c]) simp
  moreover have "key_id_for L K e e' (ByKey pk) g fs2 = (Inr k, fs2)"
    by (rule key_id_for_cached [OF _ prim c]) (simp add: p(1))
  ultimately show ?thesis using d(3) pk p(1) by simp
qed

subsection \<open>Errors of lookups\<close>

lemma entry_has_id:
  assumes "entry_ok L h d" "list_ex (same_key_id k) (ped_key_ids d)"
  shows "\<exists>g k'. KeyId_build L (ped_public_key d) g = Inr k' \<and> same_key_id k k'"
  using assms unfolding entry_ok_def list_ex_iff by blast

lemma primary_hex_of_cases:
  assumes "directory_wf L K fs" "digest_oid L ''sha256'' = Inr oid"
  shows "(\<exists>h. primary_hex_of L K k fs = Inr h) \<or> primary_hex_of L K k fs = Inl KeyNotFound"
proof (cases "id_oid k = oid")
  case True
  then show ?thesis using assms(2) by (simp add: primary_hex_of_def)
next
  case False
  show ?thesis
  proof (cases "load_public_entry_by_key_id L K k fs")
    case (Inl e)
    then show ?thesis using False assms(2) load_public_entry_total [OF assms(1), of k]
      by (simp add: primary_hex_of_def)
  next
    case (Inr d)
    then have "list_ex (same_key_id k) (ped_key_ids d)" using load_public_entryD by blast
    then show ?thesis using False assms(2) Inr
      by (cases "ped_key_ids d") (simp_all add: primary_hex_of_def)
  qed
qed

text \<open>
  In a well-formed directory a lookup either finds a key, and then the id asked for is one of that key's,
  or raises \<open>KeyNotFound\<close>: neither a damaged entry nor an integrity error comes up, for public and private
  keys and for ids of every kind.
\<close>

theorem lookup_finds_or_KeyNotFound:
  assumes "directory_wf L K fs" "digest_oid L ''sha256'' = Inr oid"
  shows "(case get_public_key L K k fs of
      Inr pk \<Rightarrow> \<exists>g k'. KeyId_build L pk g = Inr k' \<and> same_key_id k k'
    | Inl e \<Rightarrow> e = KeyNotFound)
    \<and> (case get_private_key L K k fs of
      Inr b \<Rightarrow> \<exists>p. primary_hex_of L K k fs = Inr (hex_of p) \<and> sha256_id L p \<and> file_exists (public_path (hex_of p)) fs
    | Inl e \<Rightarrow> e = KeyNotFound)"
proof
  show "case get_public_key L K k fs of
      Inr pk \<Rightarrow> \<exists>g k'. KeyId_build L pk g = Inr k' \<and> same_key_id k k'
    | Inl e \<Rightarrow> e = KeyNotFound"
  proof (cases "load_public_entry_by_key_id L K k fs")
    case (Inl e)
    then show ?thesis using load_public_entry_total [OF assms(1), of k] by (auto simp: get_public_key_def)
  next
    case (Inr d)
    obtain h where h: "load_verified L K h fs = Inr d" "list_ex (same_key_id k) (ped_key_ids d)"
      by (rule load_public_entryD [OF Inr])
    from entry_has_id [OF load_verified_ok [OF directory_wfD(1) [OF assms(1)] h(1)] h(2)] Inr
    show ?thesis by (simp add: get_public_key_def)
  qed
  show "case get_private_key L K k fs of
      Inr b \<Rightarrow> \<exists>p. primary_hex_of L K k fs = Inr (hex_of p) \<and> sha256_id L p \<and> file_exists (public_path (hex_of p)) fs
    | Inl e \<Rightarrow> e = KeyNotFound"
    using primary_hex_of_cases [OF assms, of k]
  proof (elim disjE exE)
    fix h assume h: "primary_hex_of L K k fs = Inr h"
    show ?thesis
    proof (cases "file_exists (private_path h) fs")
      case True
      then obtain f where "files fs (private_path h) = Some f" by (auto simp: file_exists_def)
      then obtain p b where p: "h = hex_of p" "sha256_id L p" "get_private_key L K p fs = Inr b"
          "file_exists (public_path h) fs"
        using directory_wfD(3) [OF assms(1)] unfolding private_wf_def by blast
      have "get_private_key L K k fs = Inr b"
        using get_private_key_by_id [OF _ p(2), of K k fs] h p(1,3) by simp
      then show ?thesis using h p by auto
    next
      case False
      then show ?thesis using h by (simp add: get_private_key_def)
    qed
  next
    assume "primary_hex_of L K k fs = Inl KeyNotFound"
    then show ?thesis by (simp add: get_private_key_def)
  qed
qed

subsection \<open>Files an attacker has written\<close>

text \<open>
  C16. Whatever is in the directory - files swapped, copied over each other, rolled back, a forged or redirected
  alternate index - \<open>get_public_key\<close> never returns a key under an id that is not one of its own, as long as
  an entry that verifies under the master key is one this program has written (the MAC is not forged). In
  particular this does not depend on the alternate index being authentic.
\<close>

theorem only_requested_key_returned:
  assumes "\<And>h d. load_verified L K h fs = Inr d \<Longrightarrow> entry_ok L h d"
    and "get_public_key L K k fs = Inr pk"
  shows "\<exists>g k'. KeyId_build L pk g = Inr k' \<and> same_key_id k k'"
proof -
  obtain d where d: "load_public_entry_by_key_id L K k fs = Inr d" "ped_public_key d = pk"
    using assms(2) by (auto simp: get_public_key_def)
  obtain h where h: "load_verified L K h fs = Inr d" "list_ex (same_key_id k) (ped_key_ids d)"
    by (rule load_public_entryD [OF d(1)])
  from entry_has_id [OF assms(1) [OF h(1)] h(2)] d(2) show ?thesis by simp
qed

lemma translated_unwrap [simp]:
  "(case r of Inl e \<Rightarrow> Inl (f e) | Inr x \<Rightarrow> Inr x) = Inr b \<longleftrightarrow> r = Inr b"
  by (cases r) simp_all

lemma get_private_keyD:
  assumes "sha256_id L p" "get_private_key L K p fs = Inr b" "files fs (private_path (hex_of p)) = Some f"
  obtains stored kek where "StoredPrivateKeyEntry_load L (file_data f) = Inr stored"
    and "sha256_id L (sve_key_id stored)" "kid_key_hash (sve_key_id stored) = kid_key_hash p"
    and "derive_kek L (kd_master_key K) (sve_kek_salt stored) (KeyId_dump L (sve_key_id stored)) = Inr kek"
    and "aes_key_unwrap_with_padding L kek (sve_wrapped_key stored) = Inr b"
  using assms
  by (auto simp: get_private_key_def read_bytes_files sha256_id_def key_hash_equal_def hex_of_def fromhex_hex
      split: if_splits)

text \<open>
  A private key entry that is copied over another's file is refused: the lookup raises
  \<open>PrivateKeyUnwrapFailed\<close> although the entry unwraps under its own name, and all other private keys are
  found as before.
\<close>

theorem swapped_private_entry_rejected:
  assumes "directory_wf L K fs" "files fs (private_path h) = Some f" "sha256_id L k" "hex_of k \<noteq> h"
  shows "get_private_key L K k (put_file (private_path (hex_of k)) f fs) = Inl PrivateKeyUnwrapFailed
    \<and> (\<forall>k'. sha256_id L k' \<and> hex_of k' \<noteq> hex_of k \<longrightarrow>
      get_private_key L K k' (put_file (private_path (hex_of k)) f fs) = get_private_key L K k' fs)"
proof (intro conjI allI impI)
  obtain p b where p: "h = hex_of p" "sha256_id L p" "get_private_key L K p fs = Inr b"
    using directory_wfD(3) [OF assms(1)] assms(2) unfolding private_wf_def by blast
  obtain stored where s: "StoredPrivateKeyEntry_load L (file_data f) = Inr stored"
      "sha256_id L (sve_key_id stored)" "kid_key_hash (sve_key_id stored) = kid_key_hash p"
    by (rule get_private_keyD [OF p(2,3) assms(2) [unfolded p(1)]])
  have "kid_key_hash p \<noteq> kid_key_hash k" using assms(4) p(1) by (auto simp: hex_of_def)
  then show "get_private_key L K k (put_file (private_path (hex_of k)) f fs) = Inl PrivateKeyUnwrapFailed"
    using s assms(3) by (simp add: get_private_key_def file_exists_def read_bytes_def sha256_id_def
        key_hash_equal_def hex_of_def fromhex_hex)
next
  fix k' assume "sha256_id L k' \<and> hex_of k' \<noteq> hex_of k"
  then show "get_private_key L K k' (put_file (private_path (hex_of k)) f fs) = get_private_key L K k' fs"
    by (intro get_private_key_cong) simp_all
qed

subsection \<open>Passphrases\<close>

text \<open>
  C37. After any calls, the passphrase a directory was created with opens it with the same master key; any
  other passphrase gets its own master key if its check tag is the stored one and \<open>WrongPassphrase\<close>
  otherwise; and \<open>create\<close> refuses to start over in it.
\<close>

theorem open_after_any_run:
  assumes "keystore_libs L" "create L env pass iterations fs0 = (Inr K, fs1)"
    and "(directory_step L K)\<^sup>*\<^sup>* fs1 fs"
  shows "open_directory L pass fs = Inr K
    \<and> open_directory L pass' fs = rbind (derive_master_key L pass' (env_salt env) iterations) (\<lambda>mk.
      rbind (derive_check_tag L mk (env_salt env)) (\<lambda>t.
        if derive_check_tag L (kd_master_key K) (env_salt env) \<noteq> Inr t then Inl WrongPassphrase
        else Inr \<lparr>kd_master_key = mk\<rparr>))
    \<and> create L env' pass' iterations' fs = (Inl KeyDirectoryError, fs)"
proof (intro conjI)
  obtain tag where m: "derive_master_key L pass (env_salt env) iterations = Inr (kd_master_key K)"
    and t: "derive_check_tag L (kd_master_key K) (env_salt env) = Inr tag"
    and h: "files fs1 = [HEADER_PATH \<mapsto> \<lparr>file_data = der_encode L (keystore_header_value
        \<lparr>kh_version = 0, kh_kdf_salt = env_salt env, kh_kdf_iterations = iterations,
         kh_verification_tag = tag\<rparr>), file_mode = 384\<rparr>]"
    by (rule create_cases [OF assms(2)])
  have "extends L K fs1 fs"
    using directory_reach_wf [OF assms(3,1) create_wf [OF assms(1,2)]] ..
  then have f: "files fs HEADER_PATH = Some \<lparr>file_data = der_encode L (keystore_header_value
        \<lparr>kh_version = 0, kh_kdf_salt = env_salt env, kh_kdf_iterations = iterations,
         kh_verification_tag = tag\<rparr>), file_mode = 384\<rparr>"
    using extendsD(4) h by simp
  note o = open_directory_header [OF keystore_libsD(1) [OF assms(1)] f]
  show "open_directory L pass fs = Inr K" using o [of pass] m t by simp
  have "(\<lambda>y. if y \<noteq> tag then Inl WrongPassphrase else r) = (\<lambda>y. if tag \<noteq> y then Inl WrongPassphrase else r)" for r :: "key_directory result"
    by auto
  then show "open_directory L pass' fs = rbind (derive_master_key L pass' (env_salt env) iterations) (\<lambda>mk.
      rbind (derive_check_tag L mk (env_salt env)) (\<lambda>t.
        if derive_check_tag L (kd_master_key K) (env_salt env) \<noteq> Inr t then Inl WrongPassphrase
        else Inr \<lparr>kd_master_key = mk\<rparr>))"
    by (simp only: o t sum.inject)
  have "fs_files fs \<noteq> []" using f by auto
  then show "create L env' pass' iterations' fs = (Inl KeyDirectoryError, fs)"
    by (simp add: create_def is_empty_dir_def)
qed

end
