(* ===== verification/KeystoreCrash.thy ===== *)
theory KeystoreCrash
  imports KeystoreProps
begin

section \<open>The key directory: crashes\<close>

text \<open>
  \<open>write_step\<close> is \<open>_atomic_write\<close> one system call at a time, with the data going to the temporary file in
  pieces of any size and its removal possibly failing; a crash is a run of it that stops anywhere. \<open>atomic_write\<close> is shown to be such a run.
  The second part is about a crash between the two atomic writes of \<open>key_id_for\<close>.
\<close>

subsection \<open>One write, call by call\<close>

datatype write_phase = Start | Written nat | Mode_set | Replaced | Failed

inductive write_step :: "os_env \<Rightarrow> string \<Rightarrow> bytes \<Rightarrow> int \<Rightarrow> write_phase \<times> filesystem \<Rightarrow> write_phase \<times> filesystem \<Rightarrow> bool"
  for env path data mode where
  mkstemp: "\<not> file_exists (tmp_path env path) fs \<Longrightarrow> write_step env path data mode (Start, fs)
    (Written 0, put_file (tmp_path env path) \<lparr>file_data = [], file_mode = 384\<rparr> fs)"
| mkstemp_fails: "write_step env path data mode (Start, fs) (Failed, fs)"
| write_some: "n < m \<Longrightarrow> m \<le> length data \<Longrightarrow> write_step env path data mode (Written n, fs)
    (Written m, put_file (tmp_path env path) \<lparr>file_data = take m data, file_mode = 384\<rparr> fs)"
| set_mode: "write_step env path data mode (Written (length data), fs)
    (Mode_set, put_file (tmp_path env path) \<lparr>file_data = data, file_mode = mode\<rparr> fs)"
| replace_file: "write_step env path data mode (Mode_set, fs)
    (Replaced, put_file path \<lparr>file_data = data, file_mode = mode\<rparr> (unlink (tmp_path env path) fs))"
| clean_up: "ph = Mode_set \<or> (\<exists>n. ph = Written n) \<Longrightarrow> write_step env path data mode (ph, fs)
    (Failed, unlink (tmp_path env path) fs)"
| clean_up_fails: "ph = Mode_set \<or> (\<exists>n. ph = Written n) \<Longrightarrow> write_step env path data mode (ph, fs) (Failed, fs)"

inductive_cases write_stepE: "write_step env path data mode (ph, fs) (ph', fs')"

definition directory_path :: "string \<Rightarrow> bool" where
  "directory_path p \<longleftrightarrow> p = HEADER_PATH \<or> p = ALT_INDEX_PATH \<or> (\<exists>h. p = public_path h \<or> p = private_path h)"

lemma tmp_path_not_directory_path: "directory_path q \<Longrightarrow> tmp_path env p \<noteq> q"
  using tmp_path_other by (auto simp: directory_path_def)

lemma write_run_invariant:
  assumes "(write_step env path data mode)\<^sup>*\<^sup>* (Start, fs) (ph, fs')" "tmp_path env path \<noteq> path"
  shows "files fs' path = (if ph = Replaced then Some \<lparr>file_data = data, file_mode = mode\<rparr> else files fs path) \<and>
    (\<forall>q. q \<noteq> path \<longrightarrow> q \<noteq> tmp_path env path \<longrightarrow> files fs' q = files fs q)"
  using assms(1)
proof (induction rule: rtranclp_induct2)
  case refl
  then show ?case by simp
next
  case (step ph1 f1 ph2 f2)
  from step.hyps(2) show ?case
    by (rule write_stepE) (use step.IH assms(2) in auto)
qed

lemma put_file_twice: "put_file p f (put_file p g fs) = put_file p f fs"
  by (simp add: put_file_def update_last)

text \<open>\<open>atomic_write\<close> is a run of these steps that has come to its end.\<close>

lemma atomic_write_is_run:
  assumes "atomic_write env path data mode fs = (r, fs')"
  shows "(write_step env path data mode)\<^sup>*\<^sup>* (Start, fs) (if r = Inr () then Replaced else Failed, fs')"
proof (cases "env_fault env = Some 0 \<or> file_exists (tmp_path env path) fs")
  case True
  then show ?thesis using assms mkstemp_fails by (auto simp: atomic_write_def)
next
  case False
  let ?tmp = "tmp_path env path"
  let ?f1 = "put_file ?tmp \<lparr>file_data = [], file_mode = 384\<rparr> fs"
  let ?f2 = "put_file ?tmp \<lparr>file_data = data, file_mode = 384\<rparr> ?f1"
  let ?f3 = "put_file ?tmp \<lparr>file_data = data, file_mode = mode\<rparr> ?f2"
  have 1: "(write_step env path data mode)\<^sup>*\<^sup>* (Start, fs) (Written 0, ?f1)"
    using False by (intro r_into_rtranclp mkstemp) simp
  have "(write_step env path data mode)\<^sup>*\<^sup>* (Written 0, ?f1) (Written (length data), ?f2)"
  proof (cases "data = []")
    case True
    then show ?thesis by (simp add: put_file_twice)
  next
    case F: False
    then show ?thesis using write_some [of 0 "length data" data env path mode ?f1] by (simp add: r_into_rtranclp)
  qed
  with 1 have 2: "(write_step env path data mode)\<^sup>*\<^sup>* (Start, fs) (Written (length data), ?f2)" by (rule rtranclp_trans)
  then have 3: "(write_step env path data mode)\<^sup>*\<^sup>* (Start, fs) (Mode_set, ?f3)"
    by (rule rtranclp.rtrancl_into_rtrancl) (rule set_mode)
  have 4: "(write_step env path data mode)\<^sup>*\<^sup>* (Start, fs) (Failed, unlink ?tmp ?f1)"
    using 1 by (rule rtranclp.rtrancl_into_rtrancl) (rule clean_up, simp)
  have 5: "(write_step env path data mode)\<^sup>*\<^sup>* (Start, fs) (Failed, unlink ?tmp ?f2)"
    using 2 by (rule rtranclp.rtrancl_into_rtrancl) (rule clean_up, simp)
  have 6: "(write_step env path data mode)\<^sup>*\<^sup>* (Start, fs) (Failed, unlink ?tmp ?f3)"
    using 3 by (rule rtranclp.rtrancl_into_rtrancl) (rule clean_up, simp)
  have 7: "(write_step env path data mode)\<^sup>*\<^sup>* (Start, fs)
      (Replaced, put_file path \<lparr>file_data = data, file_mode = mode\<rparr> (unlink ?tmp ?f3))"
    using 3 by (rule rtranclp.rtrancl_into_rtrancl) (rule replace_file)
  consider "env_fault env = Some 1" | "env_fault env = Some 2" | "env_fault env = Some 3"
    | "env_fault env \<noteq> Some 1" "env_fault env \<noteq> Some 2" "env_fault env \<noteq> Some 3" by blast
  then show ?thesis
  proof cases
    case 1
    then have "(r, fs') = (Inl OSError, unlink ?tmp ?f1)" using assms False by (simp add: atomic_write_def Let_def)
    then show ?thesis using 4 by simp
  next
    case 2
    then have "(r, fs') = (Inl OSError, unlink ?tmp ?f2)" using assms False by (simp add: atomic_write_def Let_def)
    then show ?thesis using 5 by simp
  next
    case 3
    then have "(r, fs') = (Inl OSError, unlink ?tmp ?f3)" using assms False by (simp add: atomic_write_def Let_def)
    then show ?thesis using 6 by simp
  next
    case 4
    then have "(r, fs') = (Inr (), put_file path \<lparr>file_data = data, file_mode = mode\<rparr> (unlink ?tmp ?f3))"
      using assms False by (simp add: atomic_write_def Let_def)
    then show ?thesis using 7 by simp
  qed
qed

lemma directory_wf_agree:
  assumes "directory_wf L K fs" "\<And>p. directory_path p \<Longrightarrow> files fs' p = files fs p"
  shows "directory_wf L K fs' \<and> extends L K fs fs'"
proof -
  have pub: "files fs' (public_path h) = files fs (public_path h)" for h
    by (rule assms(2)) (auto simp: directory_path_def)
  have priv: "files fs' (private_path h) = files fs (private_path h)" for h
    by (rule assms(2)) (auto simp: directory_path_def)
  have alt: "files fs' ALT_INDEX_PATH = files fs ALT_INDEX_PATH"
    and hdr: "files fs' HEADER_PATH = files fs HEADER_PATH"
    by (rule assms(2), simp add: directory_path_def)+
  have ent: "load_verified L K h fs' = load_verified L K h fs" for h by (rule load_verified_cong [OF pub])
  have ext: "extends L K fs fs'"
    unfolding extends_def
  proof (intro conjI allI impI)
    fix h d assume "load_verified L K h fs = Inr d"
    then have "load_verified L K h fs' = Inr (d\<lparr>ped_key_ids := ped_key_ids d @ []\<rparr>)" by (simp add: ent)
    then show "\<exists>ks. load_verified L K h fs' = Inr (d\<lparr>ped_key_ids := ped_key_ids d @ ks\<rparr>)" ..
  next
    fix es assume "load_alt_index L K fs = Inr es"
    then have "load_alt_index L K fs' = Inr (es @ [])" by (simp add: load_alt_index_cong [OF alt])
    then show "\<exists>es'. load_alt_index L K fs' = Inr (es @ es')" ..
  qed (simp_all add: priv hdr)
  have "public_wf L K fs'" using directory_wfD(1) [OF assms(1)] by (simp add: public_wf_def ent pub)
  moreover have "index_wf L K fs'" by (rule index_wf_extends [OF directory_wfD(2) [OF assms(1)] ext alt])
  moreover have "private_wf L K fs'"
    by (rule private_wf_cong [OF directory_wfD(3) [OF assms(1)] priv]) (simp add: file_exists_def pub)
  ultimately show ?thesis using ext by (simp add: directory_wf_def)
qed

text \<open>
  C23. A crash in the middle of a write, after any system call and with any part of the data written, leaves the
  file as it was or complete with its final mode, and every other file as it was except the temporary one; until
  the rename the directory is as well-formed as before. And \<open>atomic_write\<close> with any I/O error is such a run:
  it has renamed exactly when it returns.
\<close>

theorem write_is_crash_safe:
  assumes "directory_path path" "(write_step env path data mode)\<^sup>*\<^sup>* (Start, fs) (ph, fs')"
  shows "files fs' path = (if ph = Replaced then Some \<lparr>file_data = data, file_mode = mode\<rparr> else files fs path)
    \<and> (\<forall>q. q \<noteq> path \<longrightarrow> q \<noteq> tmp_path env path \<longrightarrow> files fs' q = files fs q)
    \<and> (ph \<noteq> Replaced \<longrightarrow> directory_wf L K fs \<longrightarrow> directory_wf L K fs')
    \<and> (case atomic_write env path data mode fs of (r, fs'') \<Rightarrow>
        (write_step env path data mode)\<^sup>*\<^sup>* (Start, fs) (if r = Inr () then Replaced else Failed, fs''))"
proof -
  note inv = write_run_invariant [OF assms(2) tmp_path_not_directory_path [OF assms(1)]]
  have "directory_wf L K fs'" if "ph \<noteq> Replaced" "directory_wf L K fs"
  proof -
    have "files fs' p = files fs p" if "directory_path p" for p
      using inv \<open>ph \<noteq> Replaced\<close> tmp_path_not_directory_path [OF that, of env path] by (cases "p = path") auto
    then show ?thesis using directory_wf_agree [OF that(2)] by blast
  qed
  then show ?thesis using inv atomic_write_is_run by (auto split: prod.split)
qed

subsection \<open>Between two writes\<close>

text \<open>
  An id is lost when the entry of its key has it and the alternate index does not. No later call adds it: \<open>key_id_for\<close>
  finds it in the entry, and no other key has it.
\<close>

definition lost_id :: "lib \<Rightarrow> key_directory \<Rightarrow> key_id \<Rightarrow> kem_public_key \<Rightarrow> filesystem \<Rightarrow> bool" where
  "lost_id L K k pk fs \<longleftrightarrow> directory_wf L K fs \<and>
     (\<exists>h d. load_verified L K h fs = Inr d \<and> ped_public_key d = pk \<and> k \<in> set (ped_key_ids d)) \<and>
     (\<exists>es. load_alt_index L K fs = Inr es \<and> (\<forall>a \<in> set es. \<not> same_key_id k (aie_key_id a)))"

lemma same_key_id_oid: "same_key_id k k' \<Longrightarrow> id_oid k' = id_oid k"
  by (simp add: same_key_id_def)

text \<open>A new id of another digest is not the id of the key's entry, nor one of another key's.\<close>

lemma new_id_differs:
  assumes "keystore_libs L" "public_wf L K fs" "load_verified L K h fs = Inr d" "load_verified L K h' fs = Inr d'"
    and "no_other_key_has_id L k (ped_public_key d)" "cached_key_id L g' (ped_key_ids d') = Inr None"
    and "KeyId_build L (ped_public_key d') g' = Inr k'" "k \<in> set (ped_key_ids d)"
  shows "\<not> same_key_id k k'"
proof
  assume same: "same_key_id k k'"
  note ok = load_verified_ok [OF assms(2,3)] and ok' = load_verified_ok [OF assms(2,4)]
  have "asn1_valid L (kem_public_key_value (ped_public_key d'))"
    using ok' by (simp add: entry_ok_def public_key_entry_data_value_def)
  with assms(5,7) same have "ped_public_key d' = ped_public_key d" unfolding no_other_key_has_id_def by blast
  then have "h' = h" by (rule entry_ok_same_key [OF ok' ok])
  with assms(3,4) have "d' = d" by simp
  then have "id_oid k' \<notin> set (map id_oid (ped_key_ids d))"
    using cached_key_id_None [OF assms(6) KeyId_build_valid(2) [OF assms(1,7)]] by simp
  moreover have "id_oid k \<in> set (map id_oid (ped_key_ids d))" using assms(8) by simp
  ultimately show False using same_key_id_oid [OF same] by simp
qed

lemma lost_id_step:
  assumes "directory_step L K fs fs'" "keystore_libs L" "no_other_key_has_id L k pk" "lost_id L K k pk fs"
  shows "lost_id L K k pk fs'"
proof -
  obtain h d es where wf: "directory_wf L K fs" and d: "load_verified L K h fs = Inr d" "ped_public_key d = pk" "k \<in> set (ped_key_ids d)"
    and es: "load_alt_index L K fs = Inr es" "\<forall>a \<in> set es. \<not> same_key_id k (aie_key_id a)"
    using assms(4) by (auto simp: lost_id_def)
  note wf' = directory_step_wf [OF assms(1,2) wf]
  have "\<exists>es'. load_alt_index L K fs' = Inr es' \<and> (\<forall>a \<in> set es'. \<not> same_key_id k (aie_key_id a))"
  proof -
    have same: ?thesis if "files fs' ALT_INDEX_PATH = files fs ALT_INDEX_PATH"
      using es load_alt_index_cong [OF that] by simp
    from assms(1) show ?thesis
    proof cases
      case (step_add_public env a r)
      from step_add_public(1) show ?thesis by (cases rule: add_public_key_cases) (simp_all add: same)
    next
      case (step_add_private env pk b r)
      from step_add_private show ?thesis by (cases rule: add_private_key_cases) (simp_all add: same)
    next
      case (step_key_id_for env env' arg g r)
      from step_key_id_for show ?thesis
      proof (cases rule: key_id_for_cases)
        case (computed k0 d' k' e fs1 ra)
        from computed(7) show ?thesis
        proof (cases rule: alt_index_add_cases)
          case unchanged
          then show ?thesis by (intro same) (simp add: computed(6))
        next
          case (added es1 tag)
          have "load_alt_index L K fs1 = Inr es" using load_alt_index_cong [of fs1 fs] es(1) by (simp add: computed(6))
          then have es1: "es1 = es" using added(2) by simp
          obtain h' where hd: "hex_of (hd (ped_key_ids d' @ [k'])) = h'" and h': "load_verified L K h' fs = Inr d'"
            and l: "load_verified L K h' fs1 = Inr (d'\<lparr>ped_key_ids := ped_key_ids d' @ [k']\<rparr>)"
            and w: "directory_wf L K fs1" "extends L K fs fs1"
            by (rule computed_entry [OF assms(2) wf computed(2-6)])
          have "\<not> same_key_id k k'"
            by (rule new_id_differs [OF assms(2) directory_wfD(1) [OF wf] d(1) h']) (use assms(3) d(2,3) computed(3,4) in auto)
          moreover have "load_alt_index L K fs' = Inr (es1 @ [\<lparr>aie_key_id = k', aie_primary_hex = ascii h'\<rparr>])"
            by (rule computed_index(1) [OF assms(2) w(1) l _ computed(4) hd [symmetric] added(2-4) [unfolded hd]]) simp
          ultimately show ?thesis using es(2) es1 by auto
        qed
      next
        case cached
        then show ?thesis using es by simp
      next
        case unchanged
        then show ?thesis by (intro same) simp
      qed
    qed
  qed
  moreover obtain ks where "load_verified L K h fs' = Inr (d\<lparr>ped_key_ids := ped_key_ids d @ ks\<rparr>)"
    using extendsD(1) [OF conjunct2 [OF wf'] d(1)] by blast
  then have "\<exists>h d. load_verified L K h fs' = Inr d \<and> ped_public_key d = pk \<and> k \<in> set (ped_key_ids d)"
    using d(2,3) by (intro exI [of _ h] exI [of _ "d\<lparr>ped_key_ids := ped_key_ids d @ ks\<rparr>"]) simp
  ultimately show ?thesis using wf' by (simp add: lost_id_def)
qed

lemma lost_id_run:
  assumes "(directory_step L K)\<^sup>*\<^sup>* fs fs'" "keystore_libs L" "no_other_key_has_id L k pk" "lost_id L K k pk fs"
  shows "lost_id L K k pk fs'"
  using assms(1) by (induction rule: rtranclp_induct) (use assms(2-4) lost_id_step in blast)+

lemma lost_id_not_found:
  assumes "lost_id L K k pk fs" "no_other_key_has_id L k pk" "primary_key_id L pk = Inr p" "hex_of k \<noteq> hex_of p"
  shows "load_public_entry_by_key_id L K k fs = Inl KeyNotFound"
proof -
  obtain es where wf: "directory_wf L K fs" and es: "load_alt_index L K fs = Inr es"
    and none: "alt_index_find k es = Inr None"
  proof -
    obtain es where es: "directory_wf L K fs" "load_alt_index L K fs = Inr es" "\<forall>a \<in> set es. \<not> same_key_id k (aie_key_id a)"
      using assms(1) by (auto simp: lost_id_def)
    then have "\<forall>e \<in> set es. index_entry_ok L K fs e" using directory_wfD(2) [OF es(1)] by (auto simp: index_wf_def)
    then have "alt_index_find k es = Inr None" using alt_index_find_ok [of es L K fs k] alt_index_find_matches [of k es] es(3) by blast
    with that es(1,2) show thesis .
  qed
  have "\<not> list_ex (same_key_id k) (ped_key_ids d)" if "load_verified L K (hex_of k) fs = Inr d" for d
  proof
    assume "list_ex (same_key_id k) (ped_key_ids d)"
    moreover have ok: "entry_ok L (hex_of k) d" by (rule load_verified_ok [OF directory_wfD(1) [OF wf] that])
    ultimately have "ped_public_key d = pk" using id_names_key assms(2) by blast
    with ok assms(3,4) show False by (auto simp: entry_ok_def)
  qed
  moreover have "\<exists>d. load_verified L K (hex_of k) fs = Inr d" if "file_exists (public_path (hex_of k)) fs"
    using that directory_wfD(1) [OF wf] by (force simp: file_exists_def public_wf_def)
  ultimately show ?thesis
    using es none by (auto simp: load_public_entry_by_key_id_def Let_def alt_index_lookup_def)
qed

text \<open>A call that raises after the first of its two writes loses the id.\<close>

lemma interrupted_loses:
  assumes "keystore_libs L" "directory_wf L K fs" "key_id_for L K env env' arg g fs = (Inl e, fs1)" "files fs1 \<noteq> files fs"
    and "rbind (arg_key_id L arg) (\<lambda>k0. get_public_key L K k0 fs) = Inr pk" "KeyId_build L pk g = Inr k"
    and "no_other_key_has_id L k pk"
  shows "lost_id L K k pk fs1"
  using assms(3)
proof (cases rule: key_id_for_cases)
  case (computed k0 d k' en f ra)
  have pk: "ped_public_key d = pk" using assms(5) computed(1,2) by (simp add: get_public_key_def)
  then have k': "k' = k" using computed(4) assms(6) by (simp del: KeyId_build_eq_Inr)
  obtain h where h: "load_verified L K h fs = Inr d" and l: "load_verified L K h f = Inr (d\<lparr>ped_key_ids := ped_key_ids d @ [k]\<rparr>)"
    and w: "directory_wf L K f" and hd: "hex_of (hd (ped_key_ids d @ [k])) = h"
    by (rule computed_entry [OF assms(1,2) computed(2-6) [unfolded k']])
  have raised: "ra \<noteq> Inr ()" using computed(8) by auto
  from computed(7) have f: "files fs1 = files f" by (cases rule: alt_index_add_cases) (use raised in simp_all)
  obtain es where es: "load_alt_index L K fs = Inr es" "\<forall>a \<in> set es. index_entry_ok L K fs a"
    using directory_wfD(2) [OF assms(2)] by (auto simp: index_wf_def)
  have "\<not> same_key_id k (aie_key_id a)" if a: "a \<in> set es" for a
  proof
    assume same: "same_key_id k (aie_key_id a)"
    obtain h' d' where d': "load_verified L K h' fs = Inr d'" "aie_key_id a \<in> set (ped_key_ids d')"
      using bspec [OF es(2) a] by (auto simp: index_entry_ok_def)
    have ok': "entry_ok L h' d'" by (rule load_verified_ok [OF directory_wfD(1) [OF assms(2)] d'(1)])
    have "list_ex (same_key_id k) (ped_key_ids d')" using same d'(2) by (auto simp: list_ex_iff)
    then have "ped_public_key d' = ped_public_key d" using id_names_key [OF ok' _ assms(7)] pk by simp
    then have "h' = h" by (rule entry_ok_same_key [OF ok' load_verified_ok [OF directory_wfD(1) [OF assms(2)] h]])
    with h d' have "id_oid (aie_key_id a) \<in> set (map id_oid (ped_key_ids d))" by simp
    moreover have "id_oid k \<notin> set (map id_oid (ped_key_ids d))"
      by (rule cached_key_id_None [OF computed(3)]) (use KeyId_build_valid(2) [OF assms(1,6)] in simp)
    ultimately show False using same_key_id_oid [OF same] by simp
  qed
  moreover have "load_alt_index L K fs1 = Inr es"
    using load_alt_index_cong [of fs1 fs] es(1) by (simp add: f computed(6))
  moreover have "load_verified L K h fs1 = Inr (d\<lparr>ped_key_ids := ped_key_ids d @ [k]\<rparr>)"
    using load_verified_cong [of fs1 h f] l by (simp add: f)
  moreover have "directory_wf L K fs1" using key_id_for_wf [OF assms(1-3)] by simp
  ultimately show ?thesis
    using pk unfolding lost_id_def
    by (intro conjI exI [of _ h] exI [of _ "d\<lparr>ped_key_ids := ped_key_ids d @ [k]\<rparr>"]) auto
qed (use assms(4) in simp_all)

text \<open>
  C38. \<open>key_id_for\<close> writes the entry first and the alternate index second. If the call raises between the two, for
  whatever reason the second write fails, the new id is lost for good: whatever is called afterwards, with any
  further I/O errors, \<open>key_id_for\<close> takes the id from the entry, returns it and never repairs the index, while
  \<open>get_public_key\<close> and \<open>get_private_key\<close> answer \<open>KeyNotFound\<close> for that very id. (The hypotheses exclude a
  collision of the digest, and a hash that is also the file name of the key's own entry.)
\<close>

theorem interrupted_key_id_for_loses_id:
  assumes "keystore_libs L" "directory_wf L K fs"
    and "key_id_for L K env env' arg g fs = (Inl x, fs1)" "files fs1 \<noteq> files fs"
    and "rbind (arg_key_id L arg) (\<lambda>k0. get_public_key L K k0 fs) = Inr pk"
    and "KeyId_build L pk g = Inr k" "primary_key_id L pk = Inr p"
    and "no_other_key_has_id L k pk" "hex_of k \<noteq> hex_of p"
    and "(directory_step L K)\<^sup>*\<^sup>* fs1 fs2"
  shows "key_id_for L K e e' (ByKey pk) g fs2 = (Inr k, fs2) \<and> key_id_for L K e e' (ByKeyId p) g fs2 = (Inr k, fs2)
    \<and> get_public_key L K k fs2 = Inl KeyNotFound \<and> get_private_key L K k fs2 = Inl KeyNotFound"
proof -
  have lost: "lost_id L K k pk fs2"
    by (rule lost_id_run [OF assms(10,1,8) interrupted_loses [OF assms(1-6,8)]])
  note gone = lost_id_not_found [OF lost assms(8,7,9)]
  obtain h d where wf: "directory_wf L K fs2" and d: "load_verified L K h fs2 = Inr d" "ped_public_key d = pk" "k \<in> set (ped_key_ids d)"
    using lost by (auto simp: lost_id_def)
  have ok: "entry_ok L h d" by (rule load_verified_ok [OF directory_wfD(1) [OF wf] d(1)])
  then obtain ks where p: "h = hex_of p" "ped_key_ids d = p # ks" using assms(7) d(2) by (auto simp: entry_ok_def)
  have found: "load_public_entry_by_key_id L K p fs2 = Inr d"
    using d(1) p by (intro load_public_entry_primary) simp_all
  have c: "cached_key_id L g (ped_key_ids d) = Inr (Some k)"
    using ok d(3) by (intro cached_key_id_found [OF KeyId_build_valid(2) [OF assms(1,6)]]) (simp_all add: entry_ok_def)
  have "key_id_for L K e e' (ByKey pk) g fs2 = (Inr k, fs2)"
    by (rule key_id_for_cached [OF _ found c]) (simp add: assms(7))
  moreover have "key_id_for L K e e' (ByKeyId p) g fs2 = (Inr k, fs2)"
    by (rule key_id_for_cached [OF _ found c]) simp
  moreover have "id_oid k \<noteq> id_oid p"
  proof -
    have "k \<in> set ks" using d(3) p(2) assms(9) by auto
    moreover have "id_oid p \<notin> id_oid ` set ks" using ok p(2) by (simp add: entry_ok_def)
    ultimately show ?thesis by (metis imageI)
  qed
  then have "get_private_key L K k fs2 = Inl KeyNotFound"
    using gone primary_sha256 [OF assms(7)] by (auto simp: get_private_key_def primary_hex_of_def sha256_id_def)
  ultimately show ?thesis using gone by (simp add: get_public_key_def)
qed

subsection \<open>When the second write fails\<close>

text \<open>Such a call exists: a fault at any system call of the second write makes it.\<close>

lemma atomic_write_fault:
  assumes "env_fault env = Some n" "n \<le> 3"
  shows "\<exists>fs'. atomic_write env path data mode fs = (Inl OSError, fs')"
proof -
  from assms(2) consider "n = 0" | "n = 1" | "n = 2" | "n = 3" by linarith
  then show ?thesis by cases (simp_all add: assms(1) atomic_write_def Let_def)
qed

lemma faulty_second_write:
  assumes "keystore_libs L" "hkdf_works L" "directory_wf L K fs"
    and "load_verified L K (hex_of p) fs = Inr d" "primary_key_id L (ped_public_key d) = Inr p"
    and "cached_key_id L g (ped_key_ids d) = Inr None" "KeyId_build L (ped_public_key d) g = Inr k"
    and "env_fault env = None" "\<not> file_exists (tmp_path env (public_path (hex_of p))) fs"
    and "env_fault env' = Some n" "n \<le> 3"
  shows "\<exists>e fs1. key_id_for L K env env' (ByKeyId p) g fs = (Inl e, fs1) \<and> files fs1 \<noteq> files fs"
proof -
  have ok: "entry_ok L (hex_of p) d" by (rule load_verified_ok [OF directory_wfD(1) [OF assms(3)] assms(4)])
  then obtain ks where ids: "ped_key_ids d = p # ks" using assms(5) by (auto simp: entry_ok_def)
  have hd: "hd (ped_key_ids d @ [k]) = p" by (simp add: ids)
  have found: "load_public_entry_by_key_id L K p fs = Inr d"
    using assms(4) ids by (intro load_public_entry_primary) auto
  obtain en where en: "build_stored_public_key_entry L K env (d\<lparr>ped_key_ids := ped_key_ids d @ [k]\<rparr>) (hex_of p) = Inr en"
    using assms(2) by (rule build_entry_ok)
  obtain f where w: "atomic_write env (public_path (hex_of p)) (der_encode L (stored_public_key_entry_value en)) 420 fs = (Inr (), f)"
    and f: "files f = (files fs)(public_path (hex_of p) \<mapsto>
        \<lparr>file_data = der_encode L (stored_public_key_entry_value en), file_mode = 420\<rparr>)"
    by (rule atomic_write_ok [OF assms(8,9)])
  obtain ra fs1 where a: "alt_index_add L K env' k (hex_of p) f = (ra, fs1)" by fastforce
  then obtain e where e: "ra = Inl e" and same: "files fs1 = files f"
  proof (cases rule: alt_index_add_cases)
    case unchanged
    then show thesis by (rule that)
  next
    case (added es tag)
    then have "\<exists>data. atomic_write env' ALT_INDEX_PATH data 384 f = (Inr (), fs1)"
      using a by (auto simp: alt_index_add_def)
    then obtain data where "atomic_write env' ALT_INDEX_PATH data 384 f = (Inr (), fs1)" by blast
    with atomic_write_fault [OF assms(10,11), of ALT_INDEX_PATH data 384 f] show thesis by simp
  qed
  have "load_verified L K (hex_of p) f \<noteq> Inr d"
  proof -
    have "load_verified L K (hex_of p) f = Inr (d\<lparr>ped_key_ids := ped_key_ids d @ [k]\<rparr>)"
      by (rule computed_entry [OF assms(1,3) found assms(6,7) en [folded hd] f [folded hd]]) (simp add: hd)
    then show ?thesis by (cases d) simp
  qed
  then have "files fs1 \<noteq> files fs" using load_verified_cong [of f "hex_of p" fs] assms(4) same by auto
  moreover have "key_id_for L K env env' (ByKeyId p) g fs = (Inl e, fs1)"
    by (simp add: key_id_for_def Let_def found assms(6,7) hd en w a e del: KeyId_build_eq_Inr)
  ultimately show ?thesis by blast
qed

end
