(* ===== verification/KeystoreCalls.thy ===== *)
theory KeystoreCalls
  imports KeystoreCrash
begin

section \<open>Calls that succeed and what they leave\<close>

text \<open>
  What each call returns and which file it writes when nothing goes wrong: no I/O error, no temporary file
  of an earlier crash in the directory, libraries that derive and wrap.
\<close>

subsection \<open>Directories without temporary files\<close>

definition no_tmp :: "filesystem \<Rightarrow> bool" where
  "no_tmp fs \<longleftrightarrow> (\<forall>p. files fs p \<noteq> None \<longrightarrow> directory_path p)"

lemma no_tmpD: "no_tmp fs \<Longrightarrow> \<not> file_exists (tmp_path env p) fs"
  by (metis file_exists_def no_tmp_def tmp_path_not_directory_path)

lemma no_tmp_update: "no_tmp fs \<Longrightarrow> files fs' = (files fs)(p \<mapsto> f) \<Longrightarrow> directory_path p \<Longrightarrow> no_tmp fs'"
  by (simp add: no_tmp_def)

lemma directory_paths: "directory_path (public_path h)" "directory_path (private_path h)"
  "directory_path HEADER_PATH" "directory_path ALT_INDEX_PATH"
  by (auto simp: directory_path_def)

subsection \<open>The calls\<close>

lemma atomic_write_dirs: "fs_dirs (snd (atomic_write env p b m fs)) = fs_dirs fs"
  by (simp add: atomic_write_def Let_def put_file_def unlink_def)

lemma create_dirs:
  assumes "create L env pass iterations fs = (Inr K, fs')"
  shows "map_of (fs_dirs fs') = (map_of (fs_dirs fs))([] \<mapsto> 448, ''public'' \<mapsto> 448, ''private'' \<mapsto> 448)"
proof -
  have keep: "snd q = s" if "sseq q (\<lambda>_. Pair x) = (y, s)" for q x y and s :: filesystem
    using that by (cases q; cases "fst q") simp_all
  let ?fs = "make_dir ''private'' 448 (make_dir ''public'' 448 (make_dir [] 448 fs))"
  obtain b where "fs' = snd (atomic_write env HEADER_PATH b 384 ?fs)"
    using assms unfolding create_def Let_def by (auto split: if_splits sum.splits dest!: keep [symmetric])
  then show ?thesis by (simp add: atomic_write_dirs make_dir_def update_conv')
qed

lemma create_call:
  assumes "keystore_libs L" "hkdf_works L" "is_empty_dir fs" "env_fault env = None"
    and "derive_master_key L pass (env_salt env) iterations = Inr mk"
  obtains fs' h where "create L env pass iterations fs = (Inr \<lparr>kd_master_key = mk\<rparr>, fs')"
    and "directory_wf L \<lparr>kd_master_key = mk\<rparr> fs'" "no_tmp fs'" "files fs' = [HEADER_PATH \<mapsto> h]"
proof -
  obtain fs' where c: "create L env pass iterations fs = (Inr \<lparr>kd_master_key = mk\<rparr>, fs')"
    by (rule create_ok [OF assms(2,3,5,4)])
  obtain h where h: "files fs' = [HEADER_PATH \<mapsto> h]" by (rule create_cases [OF c])
  have "no_tmp fs'" using directory_paths by (simp add: no_tmp_def h)
  then show thesis by (rule that [OF c create_wf [OF assms(1) c] _ h])
qed

lemma add_public_call:
  assumes "keystore_libs L" "hkdf_works L" "env_fault env = None" "directory_wf L K fs" "no_tmp fs"
    and "primary_key_id L pk = Inr p" "asn1_valid L (kem_public_key_value pk)"
    and "\<not> file_exists (public_path (hex_of p)) fs"
  obtains fs' x where "add_public_key L K env (WireKey pk) fs = (Inr p, fs')"
    and "files fs' = (files fs)(public_path (hex_of p) \<mapsto> x)" "directory_wf L K fs'" "no_tmp fs'"
    and "load_verified L K (hex_of p) fs' = Inr \<lparr>ped_public_key = pk, ped_key_ids = [p]\<rparr>"
    and "directory_step L K fs fs'"
proof -
  obtain fs' where a: "add_public_key L K env (WireKey pk) fs = (Inr p, fs')"
    by (rule add_public_key_ok [OF assms(2) _ assms(6,8,3) no_tmpD [OF assms(5)], of "WireKey pk"]) simp
  have v: "\<And>wire. to_wire_key (WireKey pk) = Inr wire \<Longrightarrow> asn1_valid L (kem_public_key_value wire)"
    using assms(7) by simp
  obtain x where x: "files fs' = (files fs)(public_path (hex_of p) \<mapsto> x)"
    using a by (cases rule: add_public_key_cases) auto
  have "load_verified L K (hex_of p) fs' = Inr \<lparr>ped_public_key = pk, ped_key_ids = [p]\<rparr>"
    using add_public_key_wf(2) [OF assms(1,4) v a] by auto
  moreover have "directory_step L K fs fs'" by (rule step_add_public [OF a]) (simp add: assms(7))
  ultimately show thesis
    using that [OF a x conjunct1 [OF add_public_key_wf(1) [OF assms(1,4) v a]]
        no_tmp_update [OF assms(5) x directory_paths(1)]] by blast
qed

lemma add_private_call:
  assumes "keystore_libs L" "hkdf_works L" "env_fault env = None" "directory_wf L K fs" "no_tmp fs"
    and "\<And>kek. \<exists>w. aes_key_wrap_with_padding L kek b = Inr w" "primary_key_id L pk = Inr p"
    and "file_exists (public_path (hex_of p)) fs" "\<not> file_exists (private_path (hex_of p)) fs"
  obtains fs' kek w e where "add_private_key L K env pk b fs = (Inr p, fs')"
    and "derive_kek L (kd_master_key K) (env_salt env) (KeyId_dump L p) = Inr kek"
    and "aes_key_wrap_with_padding L kek b = Inr w"
    and "e = \<lparr>sve_key_id = p, sve_kek_salt = env_salt env, sve_wrap_algorithm = WRAP_ALGORITHM_OID, sve_wrapped_key = w\<rparr>"
    and "files fs' = (files fs)(private_path (hex_of p) \<mapsto>
        \<lparr>file_data = der_encode L (stored_private_key_entry_value e), file_mode = 384\<rparr>)"
    and "\<forall>w'. StoredPrivateKeyEntry_load L (der_encode L (stored_private_key_entry_value (e\<lparr>sve_wrapped_key := w'\<rparr>))) =
        Inr (e\<lparr>sve_wrapped_key := w'\<rparr>)"
    and "directory_wf L K fs'" "no_tmp fs'" "get_private_key L K p fs' = Inr b" "directory_step L K fs fs'"
proof -
  obtain fs' where a: "add_private_key L K env pk b fs = (Inr p, fs')"
    by (rule add_private_key_ok [OF assms(2,7,8,9,6,3) no_tmpD [OF assms(5)]])
  then obtain kek w where w: "derive_kek L (kd_master_key K) (env_salt env) (KeyId_dump L p) = Inr kek"
      "aes_key_wrap_with_padding L kek b = Inr w"
    and f: "files fs' = (files fs)(private_path (hex_of p) \<mapsto>
        \<lparr>file_data = der_encode L (stored_private_key_entry_value \<lparr>sve_key_id = p, sve_kek_salt = env_salt env,
           sve_wrap_algorithm = WRAP_ALGORITHM_OID, sve_wrapped_key = w\<rparr>), file_mode = 384\<rparr>)"
    by (cases rule: add_private_key_cases) auto
  have "asn1_valid L (key_id_value p)"
    using KeyId_build_valid(1) [OF assms(1)] assms(7) by (simp only: primary_key_id_def)
  then have load: "StoredPrivateKeyEntry_load L (der_encode L (stored_private_key_entry_value e)) = Inr e"
    if "sve_key_id e = p" "sve_wrap_algorithm e = WRAP_ALGORITHM_OID" for e
    using that keystore_libsD(2) [OF assms(1)]
    by (intro StoredPrivateKeyEntry_load_dump [OF keystore_libsD(1) [OF assms(1)]])
      (simp add: stored_private_key_entry_value_def)
  show thesis
    by (rule that [OF a w refl f _ conjunct1 [OF add_private_key_wf(1) [OF assms(1,4) a]]
        no_tmp_update [OF assms(5) f directory_paths(2)] _ step_add_private [OF a]])
      (use add_private_key_wf(2) [OF assms(1,4) a] load in simp_all)
qed

text \<open>
  \<open>key_id_for\<close> in a directory with one key: the id is computed once, recorded in the entry and in the
  index, and finds the key.
\<close>

lemma key_id_for_call:
  assumes "keystore_libs L" "hkdf_works L" "env_fault env = None" "env_fault env' = None" "directory_wf L K fs" "no_tmp fs"
    and "load_verified L K (hex_of p) fs = Inr \<lparr>ped_public_key = pk, ped_key_ids = [p]\<rparr>"
    and "\<And>h. file_exists (public_path h) fs \<Longrightarrow> h = hex_of p" "\<not> file_exists ALT_INDEX_PATH fs"
    and "cached_key_id L g [p] = Inr None" "KeyId_build L pk g = Inr k"
  obtains fs' f where "key_id_for L K env env' (ByKeyId p) g fs = (Inr k, fs')"
    and "\<And>e e'. key_id_for L K e e' (ByKeyId p) g fs' = (Inr k, fs')"
    and "get_public_key L K k fs' = Inr pk"
    and "rbind (read_bytes ALT_INDEX_PATH fs') (AltIndexFile_load L) = Inr f" "k \<in> aie_key_id ` set (aif_entries f)"
proof -
  let ?d = "\<lparr>ped_public_key = pk, ped_key_ids = [p]\<rparr>" and ?d' = "\<lparr>ped_public_key = pk, ped_key_ids = [p, k]\<rparr>"
  have p: "load_public_entry_by_key_id L K p fs = Inr ?d" by (rule load_public_entry_primary [OF assms(7)]) simp
  obtain fs' where k: "key_id_for L K env env' (ByKeyId p) g fs = (Inr k, fs')"
    by (rule key_id_for_ok [OF assms(1,2,5) _ p, where arg = "ByKeyId p" and g = g and k = k and env = env and env' = env'])
      (use assms(3,4,10,11) no_tmpD [OF assms(6)] in \<open>simp_all del: KeyId_build_eq_Inr cached_key_id.simps\<close>)
  obtain kk h e fs1 ra where c: "files fs1 = (files fs)(public_path (hex_of p) \<mapsto> e)"
      "alt_index_add L K env' kk h fs1 = (ra, fs')" "rbind ra (\<lambda>_. Inr kk) = Inr k"
    using k p assms(10) by (cases rule: key_id_for_cases) (auto simp del: KeyId_build_eq_Inr cached_key_id.simps rbind_eq_Inr)
  then obtain ix where f': "files fs' = (files fs)(public_path (hex_of p) \<mapsto> e, ALT_INDEX_PATH \<mapsto> ix)"
    by (cases rule: alt_index_add_cases [OF c(2)]) auto
  then have "file_exists ALT_INDEX_PATH fs'" by (simp add: file_exists_def)
  then have new: "fs' \<noteq> fs" using assms(9) by blast
  have only: "h = hex_of p" if "load_verified L K h fs' = Inr d" for h d
    using load_verified_exists [OF that] assms(8) [of h] f' by (auto simp: file_exists_def split: if_splits)
  obtain h d k0 where l: "arg_key_id L (ByKeyId p) = Inr k0" "load_public_entry_by_key_id L K k0 fs = Inr d"
      "load_verified L K h fs' = Inr (d\<lparr>ped_key_ids := ped_key_ids d @ [k]\<rparr>)"
      "\<exists>es. load_alt_index L K fs' = Inr es \<and> k \<in> aie_key_id ` set es" "directory_wf L K fs'"
    by (rule key_id_for_computed [OF assms(1,5) k new])
  then have d': "load_verified L K (hex_of p) fs' = Inr ?d'" using p only by auto
  have ok: "entry_ok L (hex_of p) ?d'" by (rule load_verified_ok [OF directory_wfD(1) [OF l(5)] d'])
  have cached: "cached_key_id L g [p, k] = Inr (Some k)"
    using ok by (intro cached_key_id_found [OF KeyId_build_valid(2) [OF assms(1,11)]]) (auto simp: entry_ok_def)
  have again: "key_id_for L K e e' (ByKeyId p) g fs' = (Inr k, fs')" for e e'
    by (rule key_id_for_cached [OF _ load_public_entry_primary [OF d']]) (use cached in simp_all)
  obtain es where es: "load_alt_index L K fs' = Inr es" "k \<in> aie_key_id ` set es" using l(4) by blast
  then have "\<not> (\<forall>es'. load_alt_index L K fs' = Inr es' \<longrightarrow> (\<forall>a \<in> set es'. \<not> same_key_id k (aie_key_id a)))"
    by fastforce
  then obtain dk where dk: "load_public_entry_by_key_id L K k fs' = Inr dk"
    using load_public_entry_total [OF l(5), of k] by blast
  then obtain hk where "load_verified L K hk fs' = Inr dk" by (rule load_public_entryD)
  then have "get_public_key L K k fs' = Inr pk" using dk only d' by (auto simp: get_public_key_def)
  moreover obtain f where "rbind (read_bytes ALT_INDEX_PATH fs') (AltIndexFile_load L) = Inr f" "aif_entries f = es"
    using es(1) f' by (auto simp: load_alt_index_def file_exists_def split: if_splits)
  ultimately show thesis using that [OF k again] es(2) by blast
qed

subsection \<open>The \<^verbatim>\<open>with\<close> statement\<close>

definition enter_directory :: "key_directory \<Rightarrow> key_directory" where
  "enter_directory K = K"

definition exit_directory :: "key_directory \<Rightarrow> key_directory" where
  "exit_directory K = close_directory K"

text \<open>
  Leaving the block of a directory leaves an object that holds nothing but zeros where the master key was, and
  calls on it go on with that key: it is not refused.
\<close>

lemma exit_zeroes: "kd_master_key (exit_directory (enter_directory K)) = replicate (length (kd_master_key K)) 0"
  by (simp add: exit_directory_def enter_directory_def close_directory_def zero_def)

end
