(* ===== verification/Backend.thy ===== *)
theory Backend
  imports SessionCrypto
begin

section \<open>\<^verbatim>\<open>crypto_backend.py\<close>: the capability check and key creation\<close>

text \<open>
  \<open>check_backend\<close> runs one round trip of every primitive. The classes in the tables of the code are named
  by what the model's library functions take: the ML-KEM level and the AEAD class. \<open>backend_coins\<close> is the
  randomness the checks draw. The lemmas: it passes exactly when every round trip it makes comes out right,
  it raises nothing but \<open>CryptoBackendUnsupported\<close>, and working libraries pass; \<open>create_mlkem_keypair\<close> gives
  a matching pair at the two levels and that same exception otherwise.
\<close>

definition MLKEM_BACKEND_CLASSES :: "(int, int) dict" where
  "MLKEM_BACKEND_CLASSES = [(768, 768), (1024, 1024)]"

definition AEAD_BACKEND_CLASSES :: "(string, aead_class) dict" where
  "AEAD_BACKEND_CLASSES = [(''AES-256-GCM'', AESGCM), (''ChaCha20-Poly1305'', ChaCha20Poly1305)]"

definition HKDF_BACKEND_PROFILES :: "(string, int) dict" where
  "HKDF_BACKEND_PROFILES = [(''HKDF-SHA256'', 32)]"

record backend_coins =
  bk_generate :: "int \<Rightarrow> bytes"
  bk_encaps :: "int \<Rightarrow> bytes"
  bk_key :: "string \<Rightarrow> bytes"

definition check_mlkem :: "lib \<Rightarrow> backend_coins \<Rightarrow> int \<Rightarrow> int \<Rightarrow> unit result" where
  "check_mlkem L c level private_key_cls =
     rbind (rcatch CryptoBackendUnsupported
       (rbind (mlkem_generate L private_key_cls (bk_generate c level)) (\<lambda>priv.
        rbind (mlkem_encapsulate L private_key_cls (mlkem_public_bytes L priv) (bk_encaps c level))
          (\<lambda>(shared_secret, ciphertext).
        rbind (mlkem_decapsulate L priv ciphertext) (\<lambda>recovered. Inr (shared_secret, recovered))))))
     (\<lambda>(shared_secret, recovered).
       if shared_secret \<noteq> recovered then Inl CryptoBackendUnsupported else Inr ())"

text \<open>
  \<^verbatim>\<open>cls.generate_key(**key_kwargs)\<close> for the two ways it is called: AES-GCM needs a bit length (256 is the
  only one passed), ChaCha20-Poly1305 takes none.
\<close>

fun new_aead_key :: "lib \<Rightarrow> aead_class \<Rightarrow> int option \<Rightarrow> bytes \<Rightarrow> bytes result" where
  "new_aead_key L AESGCM (Some bit_length) c =
     (if bit_length = 256 then aead_generate_key L AESGCM c else Inl ValueError)"
| "new_aead_key L ChaCha20Poly1305 None c = aead_generate_key L ChaCha20Poly1305 c"
| "new_aead_key L _ _ c = Inl TypeError"

definition check_aead :: "lib \<Rightarrow> backend_coins \<Rightarrow> string \<Rightarrow> aead_class \<Rightarrow> int option \<Rightarrow> unit result" where
  "check_aead L c name cls key_kwargs =
     (let nonce = replicate 12 0; pt = ascii ''capability-check''
      in rbind (rcatch CryptoBackendUnsupported
           (rbind (new_aead_key L cls key_kwargs (bk_key c name)) (\<lambda>key.
            rbind (aead_encrypt L cls key nonce pt []) (\<lambda>ct.
            aead_decrypt L cls key nonce ct []))))
         (\<lambda>recovered. if recovered \<noteq> pt then Inl CryptoBackendUnsupported else Inr ()))"

text \<open>\<^verbatim>\<open>HKDF(salt=None)\<close> is HKDF with a salt of zeros of the hash's length.\<close>

definition check_hkdf :: "lib \<Rightarrow> string \<Rightarrow> unit result" where
  "check_hkdf L profile =
     rbind (rcatch CryptoBackendUnsupported
       (rbind (lookup_or_KeyError (map_of HKDF_BACKEND_PROFILES profile)) (\<lambda>n.
        hkdf_sha256 L n (replicate 32 0) (ascii ''capability-check'') (replicate 32 0))))
     (\<lambda>derived. if length derived \<noteq> 32 then Inl CryptoBackendUnsupported else Inr ())"

definition create_mlkem_keypair :: "lib \<Rightarrow> bytes \<Rightarrow> int \<Rightarrow> (kem_public_key \<times> bytes) result" where
  "create_mlkem_keypair L c level =
     rcatch CryptoBackendUnsupported
       (rbind (lookup_or_KeyError (map_of MLKEM_BACKEND_CLASSES level)) (\<lambda>cls.
        rbind (mlkem_generate L cls c) (\<lambda>private_key.
        rbind (KemPublicKey_build (mlkem_public_bytes L private_key) (Some level) None) (\<lambda>wire.
        Inr (wire, private_bytes_raw private_key)))))"

text \<open>A \<^verbatim>\<open>for\<close> loop over the items of a dict whose body may raise.\<close>

fun for_items :: "('k \<Rightarrow> 'v \<Rightarrow> unit result) \<Rightarrow> ('k, 'v) dict \<Rightarrow> unit result" where
  "for_items f [] = Inr ()"
| "for_items f ((k, v) # d) = rbind (f k v) (\<lambda>_. for_items f d)"

definition check_backend :: "lib \<Rightarrow> backend_coins \<Rightarrow> unit result" where
  "check_backend L c =
     rbind (for_items (check_mlkem L c) MLKEM_BACKEND_CLASSES) (\<lambda>_.
     rbind (for_items (\<lambda>algorithm cls.
              check_aead L c algorithm cls (if algorithm = ''AES-256-GCM'' then Some 256 else None))
            AEAD_BACKEND_CLASSES) (\<lambda>_.
     check_hkdf L ''HKDF-SHA256''))"

subsection \<open>Lemmas\<close>

lemma unsupported_or_ok:
  "(\<And>y. f y = Inr () \<or> f y = Inl x) \<Longrightarrow> rbind (rcatch x r) f = Inr () \<or> rbind (rcatch x r) f = Inl x"
  by (cases r) simp_all

lemma checks_unsupported:
  "check_mlkem L c l p = Inr () \<or> check_mlkem L c l p = Inl CryptoBackendUnsupported"
  "check_aead L c n cls kw = Inr () \<or> check_aead L c n cls kw = Inl CryptoBackendUnsupported"
  "check_hkdf L h = Inr () \<or> check_hkdf L h = Inl CryptoBackendUnsupported"
  unfolding check_mlkem_def check_aead_def check_hkdf_def Let_def
  by (rule unsupported_or_ok; simp split: prod.split)+

lemma check_backend_eq:
  "check_backend L c = rbind (check_mlkem L c 768 768) (\<lambda>_. rbind (check_mlkem L c 1024 1024) (\<lambda>_.
     rbind (check_aead L c ''AES-256-GCM'' AESGCM (Some 256)) (\<lambda>_.
     rbind (check_aead L c ''ChaCha20-Poly1305'' ChaCha20Poly1305 None) (\<lambda>_.
     check_hkdf L ''HKDF-SHA256''))))"
  by (simp add: check_backend_def MLKEM_BACKEND_CLASSES_def AEAD_BACKEND_CLASSES_def rbind_assoc
      split: rbind_split)

text \<open>\<^verbatim>\<open>generate_key\<close> of both AEADs gives a key of 32 bytes.\<close>

definition aead_keys_work :: "lib \<Rightarrow> bool" where
  "aead_keys_work L \<longleftrightarrow> (\<forall>cls c. \<exists>key. aead_generate_key L cls c = Inr key \<and> length key = 32)"

text \<open>What each check has seen when it passes.\<close>

definition kem_round_trip :: "lib \<Rightarrow> backend_coins \<Rightarrow> int \<Rightarrow> bool" where
  "kem_round_trip L c level \<longleftrightarrow> (\<exists>priv ss ct. mlkem_generate L level (bk_generate c level) = Inr priv \<and>
     mlkem_encapsulate L level (mlkem_public_bytes L priv) (bk_encaps c level) = Inr (ss, ct) \<and>
     mlkem_decapsulate L priv ct = Inr ss)"

definition aead_round_trip :: "lib \<Rightarrow> backend_coins \<Rightarrow> string \<Rightarrow> aead_class \<Rightarrow> bool" where
  "aead_round_trip L c name cls \<longleftrightarrow> (\<exists>key ct. aead_generate_key L cls (bk_key c name) = Inr key \<and>
     aead_encrypt L cls key (replicate 12 0) (ascii ''capability-check'') [] = Inr ct \<and>
     aead_decrypt L cls key (replicate 12 0) ct [] = Inr (ascii ''capability-check''))"

definition hkdf_round_trip :: "lib \<Rightarrow> bool" where
  "hkdf_round_trip L \<longleftrightarrow> (\<exists>k. hkdf_sha256 L 32 (replicate 32 0) (ascii ''capability-check'') (replicate 32 0) = Inr k \<and>
     length k = 32)"

lemma checks_pass_iff:
  "check_mlkem L c level level = Inr () \<longleftrightarrow> kem_round_trip L c level"
  "check_aead L c name AESGCM (Some 256) = Inr () \<longleftrightarrow> aead_round_trip L c name AESGCM"
  "check_aead L c name ChaCha20Poly1305 None = Inr () \<longleftrightarrow> aead_round_trip L c name ChaCha20Poly1305"
  "check_hkdf L ''HKDF-SHA256'' = Inr () \<longleftrightarrow> hkdf_round_trip L"
  by (auto simp: check_mlkem_def kem_round_trip_def check_aead_def aead_round_trip_def check_hkdf_def
      hkdf_round_trip_def HKDF_BACKEND_PROFILES_def Let_def split: if_splits)

lemma create_mlkem_keypair_works:
  assumes "mlkem_works L" "level = 768 \<or> level = 1024"
  obtains k pk where "create_mlkem_keypair L c level = Inr (pk, private_bytes_raw k)" "key_pair L k pk"
    and "priv_level k = level" "kem_public_key_ok level pk" "alg_parameters (pk_algorithm pk) = None"
proof -
  obtain k where k: "mlkem_generate L level c = Inr k" "priv_level k = level" "mlkem_key_works L k"
    using assms by (rule mlkem_worksE)
  then have "length (mlkem_public_bytes L k) = fips203_pk_len level" by (simp add: mlkem_key_works_def)
  then obtain pk where b: "KemPublicKey_build (mlkem_public_bytes L k) (Some level) None = Inr pk"
      "pk_public_key pk = mlkem_public_bytes L k" "kem_public_key_ok level pk"
      "alg_parameters (pk_algorithm pk) = None"
  proof -
    obtain oid where "map_of MLKEM_OIDS level = Some oid" using MLKEM_OIDS_Some [OF assms(2)] ..
    with \<open>length (mlkem_public_bytes L k) = fips203_pk_len level\<close>
    show thesis by (intro that [of "\<lparr>pk_algorithm = kem_alg oid, pk_public_key = mlkem_public_bytes L k\<rparr>"])
      (simp_all add: KemPublicKey_build_level kem_public_key_ok_def kem_alg_def)
  qed
  have "map_of MLKEM_BACKEND_CLASSES level = Some level" using assms(2) by (auto simp: MLKEM_BACKEND_CLASSES_def)
  then have "create_mlkem_keypair L c level = Inr (pk, private_bytes_raw k)"
    using k b by (simp add: create_mlkem_keypair_def)
  moreover have "key_pair L k pk" using k b assms(2) by (auto simp: key_pair_def kem_public_key_ok_def)
  ultimately show thesis using that k(2) b by blast
qed

lemma create_mlkem_keypair_other:
  "level \<noteq> 768 \<Longrightarrow> level \<noteq> 1024 \<Longrightarrow> create_mlkem_keypair L c level = Inl CryptoBackendUnsupported"
  by (simp add: create_mlkem_keypair_def MLKEM_BACKEND_CLASSES_def)

subsection \<open>Properties\<close>

text \<open>
  C39. \<open>check_backend\<close> decides exactly what it documents: it passes when both ML-KEM levels, both AEADs and
  HKDF come out right in one round trip each, and in every other case, whatever a primitive raised, it
  raises \<open>CryptoBackendUnsupported\<close> and nothing else.
\<close>

theorem check_backend_decides:
  "check_backend L c =
    (if kem_round_trip L c 768 \<and> kem_round_trip L c 1024 \<and> aead_round_trip L c ''AES-256-GCM'' AESGCM \<and>
        aead_round_trip L c ''ChaCha20-Poly1305'' ChaCha20Poly1305 \<and> hkdf_round_trip L
     then Inr () else Inl CryptoBackendUnsupported)"
  unfolding check_backend_eq checks_pass_iff [symmetric]
  using checks_unsupported(1) [of L c 768 768] checks_unsupported(1) [of L c 1024 1024]
    checks_unsupported(2) [of L c "''AES-256-GCM''" AESGCM "Some 256"]
    checks_unsupported(2) [of L c "''ChaCha20-Poly1305''" ChaCha20Poly1305 None]
    checks_unsupported(3) [of L "''HKDF-SHA256''"]
  by (elim disjE) simp_all

lemma check_backend_works:
  assumes "mlkem_works L" "aead_works L" "hkdf_works L" "aead_keys_work L"
  shows "check_backend L c = Inr ()"
proof -
  have kem: "kem_round_trip L c level" if l: "level = 768 \<or> level = 1024" for level
  proof -
    obtain k where k: "mlkem_generate L level (bk_generate c level) = Inr k" "priv_level k = level"
        "mlkem_key_works L k" using assms(1) l by (rule mlkem_worksE)
    obtain ss ct where "mlkem_encapsulate L (priv_level k) (mlkem_public_bytes L k) (bk_encaps c level) = Inr (ss, ct)"
        "mlkem_decapsulate L k ct = Inr ss" using k(3) by (rule mlkem_key_worksE)
    with k show ?thesis by (auto simp: kem_round_trip_def)
  qed
  have aead: "aead_round_trip L c name cls" for name cls
  proof -
    obtain key where k: "aead_generate_key L cls (bk_key c name) = Inr key" "length key = 32"
      using assms(4) unfolding aead_keys_work_def by blast
    obtain ct where "aead_encrypt L cls key (replicate 12 0) (ascii ''capability-check'') [] = Inr ct"
        "aead_decrypt L cls key (replicate 12 0) ct [] = Inr (ascii ''capability-check'')"
      by (rule aead_worksE [OF assms(2) k(2), of "replicate 12 0" "ascii ''capability-check''"])
        (simp_all add: ascii_def)
    with k show ?thesis by (auto simp: aead_round_trip_def)
  qed
  obtain k where "hkdf_sha256 L 32 (replicate 32 0) (ascii ''capability-check'') (replicate 32 0) = Inr k"
      "int (length k) = 32"
    by (rule hkdf_worksE [OF assms(3), of 32]) simp_all
  then have "hkdf_round_trip L" by (simp add: hkdf_round_trip_def)
  then show ?thesis using kem aead by (simp add: check_backend_decides)
qed

text \<open>
  Over libraries that work as documented the capability check passes whatever it draws, and
  \<open>create_mlkem_keypair\<close> returns a private key with the public key that belongs to it, as a wire key of the
  level asked for; at any other level it raises \<open>CryptoBackendUnsupported\<close>, whatever the libraries do.
\<close>

theorem backend_usable:
  assumes "mlkem_works L" "aead_works L" "hkdf_works L" "aead_keys_work L"
  shows "check_backend L bc = Inr ()
    \<and> (if level = 768 \<or> level = 1024
       then \<exists>k pk. create_mlkem_keypair L c level = Inr (pk, private_bytes_raw k) \<and> key_pair L k pk \<and>
              priv_level k = level \<and> kem_public_key_ok level pk
       else create_mlkem_keypair L c level = Inl CryptoBackendUnsupported)"
proof (cases "level = 768 \<or> level = 1024")
  case True
  then obtain k pk where "create_mlkem_keypair L c level = Inr (pk, private_bytes_raw k)" "key_pair L k pk"
      "priv_level k = level" "kem_public_key_ok level pk"
    by (rule create_mlkem_keypair_works [OF assms(1)])
  with True show ?thesis using check_backend_works [OF assms] by auto
next
  case False
  then show ?thesis using check_backend_works [OF assms] create_mlkem_keypair_other by simp
qed

end
