(* ===== verification/KeystoreHandshake.thy ===== *)
theory KeystoreHandshake
  imports KeystoreProps Backend Handshake
begin

section \<open>Key creation, key directories and sessions together\<close>

text \<open>
  The way the parts are meant to be used: both parties make a key pair with \<open>create_mlkem_keypair\<close>, file their
  own pair and the other's public key in a key directory, and give the directory to their session as its
  \<open>KeyLookup\<close>.
\<close>

text \<open>A key was added at some point of the directory's life.\<close>

definition public_added :: "lib \<Rightarrow> key_directory \<Rightarrow> filesystem \<Rightarrow> kem_public_key \<Rightarrow> key_id \<Rightarrow> filesystem \<Rightarrow> bool" where
  "public_added L K fs0 pk p fs \<longleftrightarrow> (\<exists>env f1 f2. (directory_step L K)\<^sup>*\<^sup>* fs0 f1 \<and>
     add_public_key L K env (WireKey pk) f1 = (Inr p, f2) \<and> (directory_step L K)\<^sup>*\<^sup>* f2 fs)"

definition private_added ::
    "lib \<Rightarrow> key_directory \<Rightarrow> filesystem \<Rightarrow> kem_public_key \<Rightarrow> bytes \<Rightarrow> key_id \<Rightarrow> filesystem \<Rightarrow> bool" where
  "private_added L K fs0 pk b p fs \<longleftrightarrow> (\<exists>env f1 f2. (directory_step L K)\<^sup>*\<^sup>* fs0 f1 \<and>
     add_private_key L K env pk b f1 = (Inr p, f2) \<and> (directory_step L K)\<^sup>*\<^sup>* f2 fs)"

lemma public_added_found:
  assumes "keystore_libs L" "directory_wf L K fs0" "public_added L K fs0 pk p fs"
    and "asn1_valid L (kem_public_key_value pk)"
  shows "primary_key_id L pk = Inr p \<and> get_public_key L K p fs = Inr pk"
proof -
  obtain env f1 f2 where r: "(directory_step L K)\<^sup>*\<^sup>* fs0 f1" "add_public_key L K env (WireKey pk) f1 = (Inr p, f2)"
      "(directory_step L K)\<^sup>*\<^sup>* f2 fs" using assms(3) by (auto simp: public_added_def)
  have wf: "directory_wf L K f1" using directory_reach_wf [OF r(1) assms(1,2)] ..
  have v: "\<And>wire. to_wire_key (WireKey pk) = Inr wire \<Longrightarrow> asn1_valid L (kem_public_key_value wire)"
    using assms(4) by simp
  have l: "primary_key_id L pk = Inr p"
    "load_verified L K (hex_of p) f2 = Inr \<lparr>ped_public_key = pk, ped_key_ids = [p]\<rparr>"
    using add_public_key_wf(2) [OF assms(1) wf v r(2)] by auto
  obtain ks where "load_verified L K (hex_of p) fs = Inr \<lparr>ped_public_key = pk, ped_key_ids = [p] @ ks\<rparr>"
    using public_entry_kept [OF assms(1) conjunct1 [OF add_public_key_wf(1) [OF assms(1) wf v r(2)]] r(3) l(2)]
    by auto
  from get_public_key_direct [OF this] l(1) show ?thesis by simp
qed

lemma private_added_found:
  assumes "keystore_libs L" "directory_wf L K fs0" "private_added L K fs0 pk b p fs"
  shows "primary_key_id L pk = Inr p \<and> get_private_key L K p fs = Inr b"
proof -
  obtain env f1 f2 where r: "(directory_step L K)\<^sup>*\<^sup>* fs0 f1" "add_private_key L K env pk b f1 = (Inr p, f2)"
      "(directory_step L K)\<^sup>*\<^sup>* f2 fs" using assms(3) by (auto simp: private_added_def)
  have wf: "directory_wf L K f1" using directory_reach_wf [OF r(1) assms(1,2)] ..
  show ?thesis by (rule private_kept(1) [OF assms(1) wf r(2,3)])
qed

lemma static_key_held:
  assumes "libs_work L" "keystore_libs L" "level = 768 \<or> level = 1024"
    and "create_mlkem_keypair L c level = Inr (pk, b)"
    and "directory_wf L K fs0" "private_added L K fs0 pk b p fs"
    and "directory_wf L K' fs0'" "public_added L K' fs0' pk p fs'"
  obtains k where "holds_key L level (directory_lookup L K fs) (directory_lookup L K' fs') p k pk"
proof -
  obtain k pk' where k: "create_mlkem_keypair L c level = Inr (pk', private_bytes_raw k)" "key_pair L k pk'"
      "priv_level k = level" "alg_parameters (pk_algorithm pk') = None"
    using libs_workD(3) [OF assms(1)] assms(3) by (rule create_mlkem_keypair_works)
  then have eq: "pk' = pk" "b = private_bytes_raw k" using assms(4) by simp_all
  have v: "asn1_valid L (kem_public_key_value pk)"
    using wire_valid(2) [OF libs_workD(2) [OF assms(1)]] k eq(1) by blast
  have pub: "primary_key_id L pk = Inr p" "get_public_key L K' p fs' = Inr pk"
    using public_added_found [OF assms(2,7,8) v] by auto
  have "get_private_key L K p fs = Inr b" using private_added_found [OF assms(2,5,6)] ..
  moreover have "asn1_valid L (key_id_value p)"
    using KeyId_build_valid(1) [OF assms(2)] pub(1) by (simp only: primary_key_id_def)
  ultimately show thesis using that k eq pub(2) by (simp add: holds_key_def directory_lookup_def)
qed

text \<open>
  C3. The package as a whole: when each party has made its pair with \<open>create_mlkem_keypair\<close>, filed it in a
  directory made with \<open>create\<close>, added the other's public key, and the directories have been used since in any
  way (other keys, further ids, calls that failed), then two fresh sessions that look keys up in these
  directories establish each other as peers and deliver both waiting payloads.
\<close>

theorem directories_carry_handshake:
  assumes "libs_work L" "keystore_libs L" "level = 768 \<or> level = 1024"
    and "create_mlkem_keypair L cA level = Inr (pkA, skA)" "create_mlkem_keypair L cB level = Inr (pkB, skB)"
    and "create L eA passA itA fA = (Inr DA, fA0)" "create L eB passB itB fB = (Inr DB, fB0)"
    and "private_added L DA fA0 pkA skA idA fsA" "public_added L DA fA0 pkB idB fsA"
    and "private_added L DB fB0 pkB skB idB fsB" "public_added L DB fB0 pkA idA fsB"
    and "fresh_session level a" "ses_role a = INITIATOR" "ses_own_key_id a = Some idA"
    and "fresh_session level b" "ses_role b = RESPONDER"
    and "set (cfg_acceptable_aeads (ses_config a)) \<inter> set (cfg_acceptable_aeads (ses_config b)) \<noteq> {}"
    and "length (coin_uuid4 ca) = 16"
    and "handshake L (directory_lookup L DA fsA) (directory_lookup L DB fsB) idB (ca, cb, ca') t (a, b) = (a', b')"
  shows "peers L a' b'
    \<and> ses_outgoing_payloads b' = ses_outgoing_payloads b @ (case ses_pending_payload a of None \<Rightarrow> [] | Some p \<Rightarrow> [p])
    \<and> ses_outgoing_payloads a' = ses_outgoing_payloads a @ (case ses_pending_payload b of None \<Rightarrow> [] | Some p \<Rightarrow> [p])"
proof -
  have wf: "directory_wf L DA fA0" "directory_wf L DB fB0"
    using create_wf [OF assms(2)] assms(6,7) by blast+
  obtain kA where A: "holds_key L level (directory_lookup L DA fsA) (directory_lookup L DB fsB) idA kA pkA"
    by (rule static_key_held [OF assms(1-4) wf(1) assms(8) wf(2) assms(11)])
  obtain kB where B: "holds_key L level (directory_lookup L DB fsB) (directory_lookup L DA fsA) idB kB pkB"
    by (rule static_key_held [OF assms(1-3,5) wf(2) assms(10) wf(1) assms(9)])
  have "handshake_ready L (directory_lookup L DA fsA) (directory_lookup L DB fsB) idA idB a b"
    unfolding handshake_ready_def using assms(3,12-17) A B by blast
  from handshake_peers [OF assms(1) this assms(18,19)] show ?thesis by blast
qed

end
