(* ===== verification/KeystoreWitness.thy ===== *)
theory KeystoreWitness
  imports KeystoreCalls KeystoreHandshake SessionWitness
begin

section \<open>Witnesses: the key directory, key creation, the package as a whole\<close>

text \<open>
  A key directory over the small libraries of theory Example: two key pairs, an id under a second digest,
  and the same for the other party; each property of the key directory is applied to it.
\<close>

subsection \<open>The directory\<close>

definition toy_env :: os_env where
  "toy_env = \<lparr>env_salt = [1, 2], env_tmp = ''x'', env_fault = None\<rparr>"

definition toy_fault :: os_env where
  "toy_fault = \<lparr>env_salt = [3], env_tmp = ''y'', env_fault = Some 0\<rparr>"

definition toy_empty :: filesystem where
  "toy_empty = \<lparr>fs_files = [], fs_dirs = []\<rparr>"

definition toy_K :: key_directory where
  "toy_K = \<lparr>kd_master_key = replicate 32 8\<rparr>"

definition toy_pk :: "byte \<Rightarrow> kem_public_key" where
  "toy_pk n = toy_public (toy_kid n)"

definition toy_id :: "string \<Rightarrow> byte \<Rightarrow> key_id" where
  "toy_id g n = \<lparr>kid_hash_algorithm = \<lparr>alg_algorithm = g, alg_parameters = None\<rparr>,
     kid_key_hash = toy_chars g @ KemPublicKey_dump toy (toy_pk n)\<rparr>"

definition toy_f1 :: filesystem where
  "toy_f1 = snd (create toy toy_env (PassBytes [5]) 1000 toy_empty)"

definition toy_f2 :: "byte \<Rightarrow> filesystem" where
  "toy_f2 n = snd (add_public_key toy toy_K toy_env (WireKey (toy_pk n)) toy_f1)"

definition toy_f3 :: "byte \<Rightarrow> filesystem" where
  "toy_f3 n = snd (add_private_key toy toy_K toy_env (toy_pk n) [n] (toy_f2 n))"

definition toy_f4 :: "byte \<Rightarrow> filesystem" where
  "toy_f4 n = snd (key_id_for toy toy_K toy_env toy_env (ByKey (toy_pk n)) ''sha384'' (toy_f3 n))"

text \<open>With the other party's key.\<close>

definition toy_both :: "byte \<Rightarrow> byte \<Rightarrow> filesystem" where
  "toy_both n m = snd (add_public_key toy toy_K toy_env (WireKey (toy_pk m)) (toy_f3 n))"

lemma toy_keystore_libs: "keystore_libs toy"
proof -
  have "valid_oid toy WRAP_ALGORITHM_OID" by (simp add: toy_def WRAP_ALGORITHM_OID_def)
  moreover have "asn1_valid toy (alg_value alg)" if "digest_algorithm toy name = Inr alg" for name alg
    using that by (auto simp: toy_def alg_value_def split: if_splits)
  moreover have "aes_key_unwrap_with_padding toy kek w = Inr b" if "aes_key_wrap_with_padding toy kek b = Inr w" for kek b w
    using that by (auto simp: toy_def)
  ultimately show ?thesis by (simp add: keystore_libs_def toy_asn1_works)
qed

lemma toy_pk_valid: "asn1_valid toy (kem_public_key_value (toy_pk n))"
  unfolding toy_pk_def by (rule wire_valid(2) [OF toy_oids toy_key_pair]) (simp add: toy_public_def kem_alg_def)

lemma toy_id_built: "g \<noteq> [] \<Longrightarrow> KeyId_build toy (toy_pk n) g = Inr (toy_id g n)"
  by (simp add: toy_id_def toy_def)

lemma toy_primary: "primary_key_id toy (toy_pk n) = Inr (toy_id ''sha256'' n)"
  unfolding primary_key_id_def by (rule toy_id_built) simp

lemma toy_id_eq: "toy_id g n = toy_id g m \<longleftrightarrow> n = m"
proof
  assume "toy_id g n = toy_id g m"
  then have "KemPublicKey_dump toy (toy_pk n) = KemPublicKey_dump toy (toy_pk m)" by (simp add: toy_id_def)
  then have "toy_pk n = toy_pk m"
    using KemPublicKey_dump_inj [OF toy_asn1_works toy_pk_valid toy_pk_valid] by blast
  then have "mlkem_public_bytes toy (toy_private (toy_kid n)) = mlkem_public_bytes toy (toy_private (toy_kid m))"
    by (simp add: toy_pk_def toy_public_def)
  then show "n = m"
    by (simp add: toy_def toy_pad_def toy_private_def toy_kid_def fips203_pk_len_def)
qed simp

lemma toy_hex_of: "hex_of (toy_id g n) = hex_of (toy_id g m) \<longleftrightarrow> n = m"
  using toy_id_eq [of g n m] by (auto simp: hex_of_def toy_id_def)

lemma toy_hex_of_384: "hex_of (toy_id ''sha384'' n) \<noteq> hex_of (toy_id ''sha256'' m)"
  by (simp add: hex_of_def toy_id_def toy_chars_def)

lemma toy_wraps: "\<exists>w. aes_key_wrap_with_padding toy kek b = Inr w"
  by (simp add: toy_def)

lemma toy_sha256 [simp]: "digest_oid toy ''sha256'' = Inr ''sha256''" "digest_oid toy ''sha384'' = Inr ''sha384''"
  by (simp_all add: digest_oid_def toy_def)

subsection \<open>The steps\<close>

lemma toy_fault_free: "env_fault toy_env = None"
  by (simp add: toy_env_def)

lemma toy_is_empty: "is_empty_dir toy_empty"
  by (simp add: is_empty_dir_def toy_empty_def)

lemma toy_f1:
  "create toy toy_env (PassBytes [5]) 1000 toy_empty = (Inr toy_K, toy_f1)"
  "directory_wf toy toy_K toy_f1" "no_tmp toy_f1" "\<not> file_exists (public_path h) toy_f1" "\<not> file_exists (private_path h) toy_f1"
  "files toy_f1 ALT_INDEX_PATH = None"
proof -
  have m: "derive_master_key toy (PassBytes [5]) (env_salt toy_env) 1000 = Inr (replicate 32 8)"
    by (simp add: derive_master_key_def toy_def toy_env_def MASTER_KEY_LEN_def)
  obtain f hd where c: "create toy toy_env (PassBytes [5]) 1000 toy_empty = (Inr toy_K, f)"
      "directory_wf toy toy_K f" "no_tmp f" "files f = [HEADER_PATH \<mapsto> hd]"
    unfolding toy_K_def by (rule create_call [OF toy_keystore_libs toy_hkdf_works toy_is_empty toy_fault_free m])
  have [simp]: "toy_f1 = f" by (simp add: toy_f1_def c(1))
  show "create toy toy_env (PassBytes [5]) 1000 toy_empty = (Inr toy_K, toy_f1)"
    and "directory_wf toy toy_K toy_f1" "no_tmp toy_f1" using c by simp_all
  show "\<not> file_exists (public_path h) toy_f1" "\<not> file_exists (private_path h) toy_f1"
      "files toy_f1 ALT_INDEX_PATH = None"
    by (simp_all add: file_exists_def c(4))
qed

lemma toy_add_public:
  assumes "directory_wf toy toy_K fs" "no_tmp fs" "\<not> file_exists (public_path (hex_of (toy_id ''sha256'' n))) fs"
    and "fs' = snd (add_public_key toy toy_K toy_env (WireKey (toy_pk n)) fs)"
  shows "add_public_key toy toy_K toy_env (WireKey (toy_pk n)) fs = (Inr (toy_id ''sha256'' n), fs')"
    and "directory_wf toy toy_K fs'" "no_tmp fs'" "directory_step toy toy_K fs fs'"
    and "load_verified toy toy_K (hex_of (toy_id ''sha256'' n)) fs' =
        Inr \<lparr>ped_public_key = toy_pk n, ped_key_ids = [toy_id ''sha256'' n]\<rparr>"
    and "\<And>h. file_exists (private_path h) fs' = file_exists (private_path h) fs"
    and "\<And>h. h \<noteq> hex_of (toy_id ''sha256'' n) \<Longrightarrow> file_exists (public_path h) fs' = file_exists (public_path h) fs"
    and "files fs' ALT_INDEX_PATH = files fs ALT_INDEX_PATH"
proof -
  obtain f x where a: "add_public_key toy toy_K toy_env (WireKey (toy_pk n)) fs = (Inr (toy_id ''sha256'' n), f)"
      "files f = (files fs)(public_path (hex_of (toy_id ''sha256'' n)) \<mapsto> x)" "directory_wf toy toy_K f" "no_tmp f"
      "load_verified toy toy_K (hex_of (toy_id ''sha256'' n)) f =
        Inr \<lparr>ped_public_key = toy_pk n, ped_key_ids = [toy_id ''sha256'' n]\<rparr>" "directory_step toy toy_K fs f"
    by (rule add_public_call [OF toy_keystore_libs toy_hkdf_works toy_fault_free assms(1,2) toy_primary toy_pk_valid assms(3)])
  have [simp]: "fs' = f" using assms(4) a(1) by simp
  show "add_public_key toy toy_K toy_env (WireKey (toy_pk n)) fs = (Inr (toy_id ''sha256'' n), fs')"
    and "directory_wf toy toy_K fs'" "no_tmp fs'" "directory_step toy toy_K fs fs'"
    and "load_verified toy toy_K (hex_of (toy_id ''sha256'' n)) fs' =
        Inr \<lparr>ped_public_key = toy_pk n, ped_key_ids = [toy_id ''sha256'' n]\<rparr>"
    using a by simp_all
  show "file_exists (private_path h) fs' = file_exists (private_path h) fs" for h
    by (simp add: file_exists_def a(2))
  show "files fs' ALT_INDEX_PATH = files fs ALT_INDEX_PATH" by (simp add: a(2))
  show "file_exists (public_path h) fs' = file_exists (public_path h) fs" if "h \<noteq> hex_of (toy_id ''sha256'' n)" for h
    using that by (simp add: file_exists_def a(2))
qed

lemma toy_f2:
  "add_public_key toy toy_K toy_env (WireKey (toy_pk n)) toy_f1 = (Inr (toy_id ''sha256'' n), toy_f2 n)"
  "directory_wf toy toy_K (toy_f2 n)" "no_tmp (toy_f2 n)" "directory_step toy toy_K toy_f1 (toy_f2 n)"
  "load_verified toy toy_K (hex_of (toy_id ''sha256'' n)) (toy_f2 n) =
        Inr \<lparr>ped_public_key = toy_pk n, ped_key_ids = [toy_id ''sha256'' n]\<rparr>"
  "\<not> file_exists (private_path h) (toy_f2 n)"
  "h \<noteq> hex_of (toy_id ''sha256'' n) \<Longrightarrow> \<not> file_exists (public_path h) (toy_f2 n)"
  "files (toy_f2 n) ALT_INDEX_PATH = None"
  using toy_add_public [OF toy_f1(2,3,4) toy_f2_def] toy_f1(4,5,6) by simp_all

lemma toy_f3:
  "add_private_key toy toy_K toy_env (toy_pk n) [n] (toy_f2 n) = (Inr (toy_id ''sha256'' n), toy_f3 n)"
  "directory_wf toy toy_K (toy_f3 n)" "no_tmp (toy_f3 n)" "directory_step toy toy_K (toy_f2 n) (toy_f3 n)"
  "load_verified toy toy_K (hex_of (toy_id ''sha256'' n)) (toy_f3 n) =
        Inr \<lparr>ped_public_key = toy_pk n, ped_key_ids = [toy_id ''sha256'' n]\<rparr>"
  "file_exists (private_path (hex_of (toy_id ''sha256'' n))) (toy_f3 n)"
  "h \<noteq> hex_of (toy_id ''sha256'' n) \<Longrightarrow> \<not> file_exists (public_path h) (toy_f3 n)"
  "load_alt_index toy toy_K (toy_f3 n) = Inr []"
proof -
  have "file_exists (public_path (hex_of (toy_id ''sha256'' n))) (toy_f2 n)"
    using load_verified_exists [OF toy_f2(5)] by (auto simp: file_exists_def)
  then obtain f where "add_private_key toy toy_K toy_env (toy_pk n) [n] (toy_f2 n) = (Inr (toy_id ''sha256'' n), f)"
    by (rule add_private_key_ok [OF toy_hkdf_works toy_primary _ toy_f2(6) toy_wraps toy_fault_free no_tmpD [OF toy_f2(3)]])
  then show a: "add_private_key toy toy_K toy_env (toy_pk n) [n] (toy_f2 n) = (Inr (toy_id ''sha256'' n), toy_f3 n)"
    by (simp add: toy_f3_def)
  show "directory_wf toy toy_K (toy_f3 n)"
    using add_private_key_wf(1) [OF toy_keystore_libs toy_f2(2) a] ..
  show "directory_step toy toy_K (toy_f2 n) (toy_f3 n)" by (rule step_add_private [OF a])
  obtain f p where f: "files (toy_f3 n) = (files (toy_f2 n))(private_path (hex_of p) \<mapsto> f)" "p = toy_id ''sha256'' n"
    using a by (cases rule: add_private_key_cases) auto
  show "no_tmp (toy_f3 n)" by (rule no_tmp_update [OF toy_f2(3) f(1) directory_paths(2)])
  show "load_verified toy toy_K (hex_of (toy_id ''sha256'' n)) (toy_f3 n) =
        Inr \<lparr>ped_public_key = toy_pk n, ped_key_ids = [toy_id ''sha256'' n]\<rparr>"
    using toy_f2(5) load_verified_cong [of "toy_f3 n" _ "toy_f2 n"] by (simp add: f)
  show "file_exists (private_path (hex_of (toy_id ''sha256'' n))) (toy_f3 n)" by (simp add: file_exists_def f)
  show "load_alt_index toy toy_K (toy_f3 n) = Inr []"
    by (simp add: load_alt_index_def file_exists_def f toy_f2(8))
  show "\<not> file_exists (public_path h) (toy_f3 n)" if "h \<noteq> hex_of (toy_id ''sha256'' n)"
    using toy_f2(7) [OF that] by (simp add: file_exists_def f)
qed

lemma toy_f3_entry:
  "load_public_entry_by_key_id toy toy_K (toy_id ''sha256'' n) (toy_f3 n) =
     Inr \<lparr>ped_public_key = toy_pk n, ped_key_ids = [toy_id ''sha256'' n]\<rparr>"
  by (rule load_public_entry_primary [OF toy_f3(5)]) simp

lemma toy_not_cached: "cached_key_id toy ''sha384'' [toy_id ''sha256'' n] = Inr None"
  by (simp add: toy_id_def)

lemma toy_f4:
  "key_id_for toy toy_K toy_env toy_env (ByKey (toy_pk n)) ''sha384'' (toy_f3 n) = (Inr (toy_id ''sha384'' n), toy_f4 n)"
  "directory_wf toy toy_K (toy_f4 n)" "directory_step toy toy_K (toy_f3 n) (toy_f4 n)" "toy_f4 n \<noteq> toy_f3 n"
  "no_tmp (toy_f4 n)"
proof -
  obtain f where "key_id_for toy toy_K toy_env toy_env (ByKey (toy_pk n)) ''sha384'' (toy_f3 n) = (Inr (toy_id ''sha384'' n), f)"
    by (rule key_id_for_ok [OF toy_keystore_libs toy_hkdf_works toy_f3(2), where arg = "ByKey (toy_pk n)"
          and g = "''sha384''" and env = toy_env and env' = toy_env and k = "toy_id ''sha384'' n", OF _ toy_f3_entry])
      (simp_all add: toy_primary toy_not_cached toy_id_built toy_fault_free no_tmpD [OF toy_f3(3)] del: KeyId_build_eq_Inr cached_key_id.simps)
  then show k: "key_id_for toy toy_K toy_env toy_env (ByKey (toy_pk n)) ''sha384'' (toy_f3 n) = (Inr (toy_id ''sha384'' n), toy_f4 n)"
    by (simp add: toy_f4_def)
  show "directory_wf toy toy_K (toy_f4 n)" using key_id_for_wf [OF toy_keystore_libs toy_f3(2) k] ..
  show "directory_step toy toy_K (toy_f3 n) (toy_f4 n)" by (rule step_key_id_for [OF k])
  from k show "no_tmp (toy_f4 n)"
  proof (cases rule: key_id_for_cases)
    case (computed k0 d k' en fs1 ra)
    from computed(7) show ?thesis
    proof (cases rule: alt_index_add_cases)
      case unchanged
      then show ?thesis using no_tmp_update [OF toy_f3(3) computed(6) directory_paths(1)] by (simp add: no_tmp_def)
    next
      case (added es tag)
      then show ?thesis
        using no_tmp_update [OF no_tmp_update [OF toy_f3(3) computed(6) directory_paths(1)] added(4) directory_paths(4)] by simp
    qed
  qed (use toy_f3(3) in \<open>simp_all add: no_tmp_def\<close>)
  show "toy_f4 n \<noteq> toy_f3 n"
  proof
    assume e: "toy_f4 n = toy_f3 n"
    have ne: "toy_id ''sha384'' n \<noteq> toy_id ''sha256'' n" by (simp add: toy_id_def)
    from k show False unfolding e
    proof (cases rule: key_id_for_cases)
      case (cached k0 d k')
      then have "d = \<lparr>ped_public_key = toy_pk n, ped_key_ids = [toy_id ''sha256'' n]\<rparr>"
        using toy_f3_entry [of n] toy_primary [of n] by simp
      then show False using cached(5) toy_not_cached [of n] by (simp del: cached_key_id.simps)
    next
      case (computed k0 d k' en fs1 ra)
      have d: "d = \<lparr>ped_public_key = toy_pk n, ped_key_ids = [toy_id ''sha256'' n]\<rparr>"
        using computed(1,2) toy_f3_entry [of n] toy_primary [of n] by simp
      have "k' = toy_id ''sha384'' n" using computed(8) by (cases ra) simp_all
      have same: "files (toy_f3 n) (public_path h) = files fs1 (public_path h)" for h
        using computed(7) by (cases rule: alt_index_add_cases) simp_all
      have w: "load_verified toy toy_K (hex_of (hd (ped_key_ids d @ [k']))) fs1 = Inr (d\<lparr>ped_key_ids := ped_key_ids d @ [k']\<rparr>)"
        by (rule load_verified_written [OF toy_keystore_libs computed(5)])
          (simp add: d public_key_entry_data_value_def toy_pk_valid KeyId_build_valid(1) [OF toy_keystore_libs computed(4)]
            KeyId_build_valid(1) [OF toy_keystore_libs toy_primary [unfolded primary_key_id_def]], simp add: computed(6))
      have "load_verified toy toy_K (hex_of (toy_id ''sha256'' n)) (toy_f3 n) = Inr (d\<lparr>ped_key_ids := ped_key_ids d @ [k']\<rparr>)"
        using w load_verified_cong [OF same] by (simp add: d)
      then show False using toy_f3(5) [of n] by (simp add: d)
    qed simp
  qed
qed

lemma toy_f4_public: "file_exists (public_path h) (toy_f4 n) = file_exists (public_path h) (toy_f3 n)"
  using toy_f4(1) [of n]
proof (cases rule: key_id_for_cases)
  case (computed k0 d k' en fs1 ra)
  have d: "d = \<lparr>ped_public_key = toy_pk n, ped_key_ids = [toy_id ''sha256'' n]\<rparr>"
    using computed(1,2) toy_f3_entry [of n] toy_primary [of n] by simp
  have same: "files (toy_f4 n) (public_path h) = files fs1 (public_path h)" for h
    using computed(7) by (cases rule: alt_index_add_cases) simp_all
  show ?thesis
    using load_verified_exists [OF toy_f3(5) [of n]] by (auto simp: file_exists_def same computed(6) d)
qed (simp_all add: file_exists_def)

lemma toy_run:
  "(directory_step toy toy_K)\<^sup>*\<^sup>* toy_f1 (toy_f4 n)" "(directory_step toy toy_K)\<^sup>*\<^sup>* (toy_f2 n) (toy_f4 n)"
  "(directory_step toy toy_K)\<^sup>*\<^sup>* (toy_f3 n) (toy_f4 n)"
  using toy_f2(4) [of n] toy_f3(4) [of n] toy_f4(3) [of n]
  by (meson r_into_rtranclp rtranclp_trans)+

subsection \<open>Witnesses\<close>

theorem reachable_directory_wf_witness: "directory_wf toy toy_K (toy_f4 1)"
  using reachable_directory_wf [OF toy_keystore_libs toy_f1(1) toy_run(1) [of 1]] by (simp add: directory_wf_def)

theorem public_key_kept_witness:
  "get_public_key toy toy_K (toy_id ''sha256'' 1) (toy_f4 1) = Inr (toy_pk 1)
   \<and> add_public_key toy toy_K toy_fault (WireKey (toy_pk 1)) (toy_f4 1) = (Inl DuplicateKey, toy_f4 1)"
proof -
  have v: "\<And>wire. to_wire_key (WireKey (toy_pk 1)) = Inr wire \<Longrightarrow> asn1_valid toy (kem_public_key_value wire)"
    using toy_pk_valid by simp
  show ?thesis using public_key_kept [OF toy_keystore_libs toy_f1(2) toy_f2(1) v toy_run(2), where env' = toy_fault] by simp
qed

theorem private_key_kept_witness:
  "get_private_key toy toy_K (toy_id ''sha256'' 1) (toy_f4 1) = Inr [1]
   \<and> add_private_key toy toy_K toy_env (toy_pk 1) [7] (toy_f4 1) = (Inl DuplicateKey, toy_f4 1)"
  using private_key_kept [OF toy_keystore_libs toy_f2(2) toy_f3(1) [of 1] toy_run(3), where env' = toy_env and b' = "[7]"] by simp

lemma toy_hash: "hash_new toy g b = Inr (toy_chars g @ b)"
  by (simp add: toy_def)

lemma toy_digest: "digest_algorithm toy g =
    (if g = [] then Inl ValueError else Inr \<lparr>alg_algorithm = g, alg_parameters = None\<rparr>)"
  by (simp add: toy_def)

lemma toy_no_collision:
  assumes "asn1_valid toy (kem_public_key_value pk)" "KeyId_build toy pk g = Inr k" "same_key_id (toy_id g' n) k"
  shows "pk = toy_pk n"
proof -
  have a: "kid_key_hash k = toy_chars g @ KemPublicKey_dump toy pk"
      "kid_hash_algorithm k = \<lparr>alg_algorithm = g, alg_parameters = None\<rparr>"
    using assms(2) by (auto simp: toy_hash toy_digest split: if_splits)
  have k: "kid_key_hash k = toy_chars g @ KemPublicKey_dump toy pk" "id_oid k = g"
    by (simp_all add: a)
  then have "KemPublicKey_dump toy pk = KemPublicKey_dump toy (toy_pk n)"
    using assms(3) by (auto simp: same_key_id_def key_hash_equal_def toy_id_def)
  then show ?thesis using KemPublicKey_dump_inj [OF toy_asn1_works assms(1) toy_pk_valid] by blast
qed

theorem computed_id_usable_witness:
  "get_public_key toy toy_K (toy_id ''sha384'' 1) (toy_f4 1) = Inr (toy_pk 1)
   \<and> key_id_for toy toy_K toy_env toy_fault (ByKeyId (toy_id ''sha384'' 1)) ''sha384'' (toy_f4 1) =
       (Inr (toy_id ''sha384'' 1), toy_f4 1)"
proof -
  have pk: "rbind (arg_key_id toy (ByKey (toy_pk 1))) (\<lambda>k0. get_public_key toy toy_K k0 (toy_f3 1)) = Inr (toy_pk 1)"
    by (simp add: toy_primary get_public_key_def toy_f3_entry)
  have nc: "no_other_key_has_id toy (toy_id ''sha384'' 1) (toy_pk 1)"
    unfolding no_other_key_has_id_def using toy_no_collision by blast
  show ?thesis
    using computed_id_usable [OF toy_keystore_libs toy_f3(2) toy_f4(1) toy_f4(4) pk nc rtranclp.rtrancl_refl,
        where e = toy_env and e' = toy_fault] by blast
qed

theorem lookup_finds_or_KeyNotFound_witness:
  "get_public_key toy toy_K (toy_id ''sha256'' 2) (toy_f4 1) = Inl KeyNotFound"
proof -
  have "get_public_key toy toy_K (toy_id ''sha256'' 2) (toy_f4 1) \<noteq> Inr pk" for pk
  proof
    assume g: "get_public_key toy toy_K (toy_id ''sha256'' 2) (toy_f4 1) = Inr pk"
    then obtain d where d: "load_public_entry_by_key_id toy toy_K (toy_id ''sha256'' 2) (toy_f4 1) = Inr d" "ped_public_key d = pk"
      by (auto simp: get_public_key_def)
    obtain h where h: "load_verified toy toy_K h (toy_f4 1) = Inr d" "list_ex (same_key_id (toy_id ''sha256'' 2)) (ped_key_ids d)"
      by (rule load_public_entryD [OF d(1)])
    have ok: "entry_ok toy h d" by (rule load_verified_ok [OF directory_wfD(1) [OF toy_f4(2)] h(1)])
    obtain g k where "KeyId_build toy (ped_public_key d) g = Inr k" "same_key_id (toy_id ''sha256'' 2) k"
      using entry_has_id [OF ok h(2)] by blast
    then have "ped_public_key d = toy_pk 2"
      using toy_no_collision ok by (auto simp: entry_ok_def public_key_entry_data_value_def simp del: KeyId_build_eq_Inr)
    then have "h = hex_of (toy_id ''sha256'' 2)" using ok toy_primary [of 2] by (auto simp: entry_ok_def)
    then have "h \<noteq> hex_of (toy_id ''sha256'' 1)" by (simp add: toy_hex_of)
    then have n: "\<not> file_exists (public_path h) (toy_f3 1)" by (rule toy_f3(7))
    then show False using h(1) toy_f4_public [of h 1] load_verified_exists [OF h(1)] by (auto simp: file_exists_def)
  qed
  then obtain e where e: "get_public_key toy toy_K (toy_id ''sha256'' 2) (toy_f4 1) = Inl e"
    by (cases "get_public_key toy toy_K (toy_id ''sha256'' 2) (toy_f4 1)") auto
  show ?thesis
    using lookup_finds_or_KeyNotFound [OF toy_f4(2) [of 1] toy_sha256(1), of "toy_id ''sha256'' 2"]
    unfolding e by simp
qed

theorem only_requested_key_returned_witness:
  "\<exists>g k'. KeyId_build toy (toy_pk 1) g = Inr k' \<and> same_key_id (toy_id ''sha256'' 1) k'"
proof (rule only_requested_key_returned)
  show "entry_ok toy h d" if "load_verified toy toy_K h (toy_f4 1) = Inr d" for h d
    by (rule load_verified_ok [OF directory_wfD(1) [OF toy_f4(2)] that])
  show "get_public_key toy toy_K (toy_id ''sha256'' 1) (toy_f4 1) = Inr (toy_pk 1)"
    using public_entry_kept [OF toy_keystore_libs toy_f2(2) toy_run(2) toy_f2(5), of 1] get_public_key_direct by fastforce
qed

theorem swapped_private_entry_rejected_witness:
  "\<exists>f. files (toy_f3 1) (private_path (hex_of (toy_id ''sha256'' 1))) = Some f \<and>
     get_private_key toy toy_K (toy_id ''sha256'' 2)
       (put_file (private_path (hex_of (toy_id ''sha256'' 2))) f (toy_f3 1)) = Inl PrivateKeyUnwrapFailed"
proof -
  obtain f where f: "files (toy_f3 1) (private_path (hex_of (toy_id ''sha256'' 1))) = Some f"
    using toy_f3(6) [of 1] by (auto simp: file_exists_def)
  have "sha256_id toy (toy_id ''sha256'' 2)" by (rule primary_sha256 [OF toy_primary])
  moreover have "hex_of (toy_id ''sha256'' 2) \<noteq> hex_of (toy_id ''sha256'' 1)" by (simp add: toy_hex_of)
  ultimately show ?thesis using f swapped_private_entry_rejected [OF toy_f3(2) f] by blast
qed

theorem open_after_any_run_witness:
  "open_directory toy (PassBytes [5]) (toy_f4 1) = Inr toy_K
   \<and> open_directory toy (PassBytes [6]) (toy_f4 1) = Inl WrongPassphrase"
proof -
  have k: "derive_master_key toy (PassBytes [6]) (env_salt toy_env) 1000 = Inr (replicate 32 9)"
    by (simp add: derive_master_key_def toy_def toy_env_def MASTER_KEY_LEN_def)
  have t: "derive_check_tag toy (replicate 32 9) (env_salt toy_env) \<noteq> derive_check_tag toy (kd_master_key toy_K) (env_salt toy_env)"
    by code_simp
  obtain t9 where t9: "derive_check_tag toy (replicate 32 9) (env_salt toy_env) = Inr t9"
    by (cases "derive_check_tag toy (replicate 32 9) (env_salt toy_env)") (simp_all add: derive_check_tag_def toy_def)
  show ?thesis
    using open_after_any_run [OF toy_keystore_libs toy_f1(1) toy_run(1), where pass' = "PassBytes [6]"
        and env' = toy_env and iterations' = 1, of 1] k t t9 by simp
qed

theorem write_is_crash_safe_witness:
  "files (put_file (tmp_path toy_env HEADER_PATH) \<lparr>file_data = [], file_mode = 384\<rparr> (toy_f4 1)) HEADER_PATH =
     files (toy_f4 1) HEADER_PATH"
proof -
  have "no_tmp (toy_f4 1)" by (rule toy_f4(5))
  then have "(write_step toy_env HEADER_PATH [1, 2] 384)\<^sup>*\<^sup>* (Start, toy_f4 1)
      (Written 0, put_file (tmp_path toy_env HEADER_PATH) \<lparr>file_data = [], file_mode = 384\<rparr> (toy_f4 1))"
    by (intro r_into_rtranclp mkstemp no_tmpD)
  from write_is_crash_safe [OF directory_paths(3) this] show ?thesis by simp
qed

theorem interrupted_key_id_for_loses_id_witness:
  "\<exists>e fs1. key_id_for toy toy_K toy_env toy_fault (ByKeyId (toy_id ''sha256'' 1)) ''sha384'' (toy_f3 1) = (Inl e, fs1) \<and>
     key_id_for toy toy_K toy_env toy_env (ByKeyId (toy_id ''sha256'' 1)) ''sha384'' fs1 = (Inr (toy_id ''sha384'' 1), fs1) \<and>
     get_public_key toy toy_K (toy_id ''sha384'' 1) fs1 = Inl KeyNotFound"
proof -
  let ?d = "\<lparr>ped_public_key = toy_pk 1, ped_key_ids = [toy_id ''sha256'' 1]\<rparr>"
  have p: "primary_key_id toy (ped_public_key ?d) = Inr (toy_id ''sha256'' 1)"
    and c: "cached_key_id toy ''sha384'' (ped_key_ids ?d) = Inr None"
    and k: "KeyId_build toy (ped_public_key ?d) ''sha384'' = Inr (toy_id ''sha384'' 1)"
    using toy_primary toy_not_cached toy_id_built [of "''sha384''" 1] by (simp_all del: KeyId_build_eq_Inr cached_key_id.simps)
  have "env_fault toy_fault = Some 0" by (simp add: toy_fault_def)
  then obtain e fs1 where run: "key_id_for toy toy_K toy_env toy_fault (ByKeyId (toy_id ''sha256'' 1)) ''sha384'' (toy_f3 1) = (Inl e, fs1)"
      "files fs1 \<noteq> files (toy_f3 1)"
    using faulty_second_write [OF toy_keystore_libs toy_hkdf_works toy_f3(2,5) p c k toy_fault_free no_tmpD [OF toy_f3(3)]]
    by blast
  have g: "rbind (arg_key_id toy (ByKeyId (toy_id ''sha256'' 1))) (\<lambda>k0. get_public_key toy toy_K k0 (toy_f3 1)) = Inr (toy_pk 1)"
    by (simp add: get_public_key_def toy_f3_entry)
  have nc: "no_other_key_has_id toy (toy_id ''sha384'' 1) (toy_pk 1)"
    unfolding no_other_key_has_id_def using toy_no_collision by blast
  from interrupted_key_id_for_loses_id [OF toy_keystore_libs toy_f3(2) run g _ toy_primary nc toy_hex_of_384 rtranclp.rtrancl_refl,
      where e = toy_env and e' = toy_env] k run(1) show ?thesis by (simp del: KeyId_build_eq_Inr)
qed

theorem backend_usable_witness:
  "check_backend toy \<lparr>bk_generate = (\<lambda>_. [1]), bk_encaps = (\<lambda>_. [2]), bk_key = (\<lambda>_. [3])\<rparr> = Inr ()
   \<and> create_mlkem_keypair toy [1] 512 = Inl CryptoBackendUnsupported"
proof -
  have "aead_keys_work toy" by (simp add: aead_keys_work_def toy_def)
  from backend_usable [OF toy_mlkem_works toy_aead_works toy_hkdf_works this, where level = 512] show ?thesis by simp
qed

lemma toy_keypair: "create_mlkem_keypair toy [n] 768 = Inr (toy_pk n, [n])"
proof -
  have g: "mlkem_generate toy 768 [n] = Inr (toy_private (toy_kid n))"
    by (simp add: toy_def toy_private_def toy_kid_def)
  have l: "length (mlkem_public_bytes toy (toy_private (toy_kid n))) = fips203_pk_len 768"
    by (simp add: toy_def toy_private_def)
  have "KemPublicKey_build (mlkem_public_bytes toy (toy_private (toy_kid n))) (Some 768) None = Inr (toy_pk n)"
    by (simp add: KemPublicKey_build_level kem_public_key_ok_def toy_pk_def toy_public_def kem_alg_def MLKEM_OIDS_def l)
  then show ?thesis by (simp add: create_mlkem_keypair_def MLKEM_BACKEND_CLASSES_def g) (simp add: toy_private_def toy_kid_def)
qed

lemma toy_both:
  assumes "n \<noteq> m"
  shows "private_added toy toy_K toy_f1 (toy_pk n) [n] (toy_id ''sha256'' n) (toy_both n m)"
    and "public_added toy toy_K toy_f1 (toy_pk m) (toy_id ''sha256'' m) (toy_both n m)"
proof -
  have "\<not> file_exists (public_path (hex_of (toy_id ''sha256'' m))) (toy_f3 n)"
    using assms by (intro toy_f3(7)) (simp add: toy_hex_of)
  note a = toy_add_public [OF toy_f3(2,3) this toy_both_def]
  have r3: "(directory_step toy toy_K)\<^sup>*\<^sup>* toy_f1 (toy_f3 n)"
    using toy_f2(4) [of n] toy_f3(4) [of n] by (meson r_into_rtranclp rtranclp_trans)
  show "private_added toy toy_K toy_f1 (toy_pk n) [n] (toy_id ''sha256'' n) (toy_both n m)"
    unfolding private_added_def using toy_f2(4) [of n] toy_f3(1) [of n] a(4) by (meson r_into_rtranclp)
  show "public_added toy toy_K toy_f1 (toy_pk m) (toy_id ''sha256'' m) (toy_both n m)"
    unfolding public_added_def using r3 a(1) by blast
qed

definition toy_initiator :: session where
  "toy_initiator = Session_init INITIATOR (Some (toy_id ''sha256'' 1)) None"

definition toy_directory_pair :: "session \<times> session" where
  "toy_directory_pair = handshake toy (directory_lookup toy toy_K (toy_both 1 2)) (directory_lookup toy toy_K (toy_both 2 1))
     (toy_id ''sha256'' 2) (toy_coins 1, toy_coins 2, toy_coins 3) of_nat (toy_initiator, toy_b0)"

theorem directories_carry_handshake_witness:
  "peers toy (fst toy_directory_pair) (snd toy_directory_pair)
   \<and> ses_outgoing_payloads (fst toy_directory_pair) = [[42]]"
proof -
  have a: "fresh_session 768 toy_initiator" "ses_role toy_initiator = INITIATOR"
      "ses_own_key_id toy_initiator = Some (toy_id ''sha256'' 1)"
    by (auto simp: fresh_session_def toy_initiator_def Session_init_def SessionConfig_def AEAD_OIDS_def
        session_wf_def no_response_yet_def)
  have b: "ses_role toy_b0 = RESPONDER" by (simp add: toy_b0_def post_payload_def Session_init_def)
  have c: "set (cfg_acceptable_aeads (ses_config toy_initiator)) \<inter> set (cfg_acceptable_aeads (ses_config toy_b0)) \<noteq> {}"
    by (simp add: toy_initiator_def toy_b0_def post_payload_def Session_init_def SessionConfig_def)
  have n: "(1 :: byte) \<noteq> 2" "(2 :: byte) \<noteq> 1" by simp_all
  have h: "handshake toy (directory_lookup toy toy_K (toy_both 1 2)) (directory_lookup toy toy_K (toy_both 2 1))
     (toy_id ''sha256'' 2) (toy_coins 1, toy_coins 2, toy_coins 3) of_nat (toy_initiator, toy_b0) =
     (fst toy_directory_pair, snd toy_directory_pair)" by (simp add: toy_directory_pair_def)
  have l: "(768 :: int) = 768 \<or> (768 :: int) = 1024" by simp
  from directories_carry_handshake [OF toy_libs_work toy_keystore_libs l toy_keypair toy_keypair toy_f1(1) toy_f1(1)
      toy_both(1) [OF n(1)] toy_both(2) [OF n(1)] toy_both(1) [OF n(2)] toy_both(2) [OF n(2)]
      a toy_fresh(2) b c toy_uuid h]
  show ?thesis by (simp add: toy_initiator_def toy_b0_def post_payload_def Session_init_def)
qed

end
