(* ===== verification/Behave.thy ===== *)
theory Behave
  imports SessionCrypto
begin

section \<open>Running the scenarios of \<^verbatim>\<open>features/\<close>\<close>

text \<open>
  The acceptance tests of the package are \<^verbatim>\<open>behave\<close> features: a scenario is a list of steps, each a function
  on a \<open>context\<close> object, run one after the other until one raises. A step is modelled as what it does to
  the attributes of the context, a record of options: an attribute that has not been set raises
  \<open>AttributeError\<close> when it is read, a failed \<^verbatim>\<open>assert\<close> raises \<open>AssertionError\<close>. The matching of the step texts
  to functions and the conversion of their arguments are behave's; a scenario names its step functions
  and their arguments.
\<close>

type_synonym 'c step = "'c \<Rightarrow> unit result \<times> 'c"

definition assert_that :: "bool \<Rightarrow> unit result" where
  "assert_that b = (if b then Inr () else Inl AssertionError)"

fun run_steps :: "'c step list \<Rightarrow> 'c step" where
  "run_steps [] c = (Inr (), c)"
| "run_steps (s # ss) c = sseq (s c) (\<lambda>_. run_steps ss)"

text \<open>\<^verbatim>\<open>for x in xs: ...\<close> in a step.\<close>

fun for_each :: "('i \<Rightarrow> 'c step) \<Rightarrow> 'i list \<Rightarrow> 'c step" where
  "for_each f [] c = (Inr (), c)"
| "for_each f (x # xs) c = sseq (f x c) (\<lambda>_. for_each f xs)"

text \<open>An assignment to an attribute, its right-hand side evaluated first.\<close>

definition assign :: "'a result \<Rightarrow> ('a \<Rightarrow> 'c \<Rightarrow> 'c) \<Rightarrow> 'c step" where
  "assign r set_attr c = (case r of Inl e \<Rightarrow> (Inl e, c) | Inr x \<Rightarrow> (Inr (), set_attr x c))"

definition passes :: "'c \<Rightarrow> 'c step list \<Rightarrow> bool" where
  "passes c ss \<longleftrightarrow> fst (run_steps ss c) = Inr ()"

lemma assign_simps [simp]: "assign (Inr x) f c = (Inr (), f x c)" "assign (Inl e) f c = (Inl e, c)"
  by (simp_all add: assign_def)

lemma assert_that_simps [simp]: "assert_that True = Inr ()" "assert_that False = Inl AssertionError"
  by (simp_all add: assert_that_def)

lemma assert_that_eq_Inr [simp]: "assert_that b = Inr () \<longleftrightarrow> b"
  by (simp add: assert_that_def)

lemma run_steps_append: "run_steps (ss @ ts) c = sseq (run_steps ss c) (\<lambda>_. run_steps ts)"
  by (induction ss arbitrary: c) (auto split: sseq_split)

lemma passes_Cons: "s c = (Inr (), c') \<Longrightarrow> passes c (s # ss) \<longleftrightarrow> passes c' ss"
  by (simp add: passes_def)

lemma passes_Nil [simp]: "passes c []"
  by (simp add: passes_def)

end
