(* ===== verification/CandidateFeature.thy ===== *)
theory CandidateFeature
  imports Behave Candidate
begin

section \<open>\<^verbatim>\<open>features/candidate_store.feature\<close> and its steps\<close>

text \<open>
  The step functions of \<^verbatim>\<open>session_candidate_store_steps.py\<close> over the model of the store, and the ten scenarios of
  the feature with their background.
\<close>

record candidate_context =
  cx_store :: "candidate_store option"
  cx_candidate :: "candidate option option"
  cx_limit_exceeded :: "bool option"

definition empty_candidate_context :: candidate_context where
  "empty_candidate_context = \<lparr>cx_store = None, cx_candidate = None, cx_limit_exceeded = None\<rparr>"

text \<open>A method call on \<^verbatim>\<open>context.candidate_store\<close>, its value not used.\<close>

definition on_store :: "(candidate_store \<Rightarrow> 'a result \<times> candidate_store) \<Rightarrow> candidate_context step" where
  "on_store f c =
     (case cx_store c of
        None \<Rightarrow> (Inl AttributeError, c)
      | Some s \<Rightarrow> (case f s of (r, s') \<Rightarrow> (rbind r (\<lambda>_. Inr ()), c\<lparr>cx_store := Some s'\<rparr>)))"

definition set_store :: "candidate_store result \<Rightarrow> candidate_context step" where
  "set_store r c = (case r of Inl e \<Rightarrow> (Inl e, c) | Inr s \<Rightarrow> (Inr (), c\<lparr>cx_store := Some s\<rparr>))"

text \<open>\<^verbatim>\<open>try: ... except CandidateLimitExceeded: context.candidate_limit_exceeded = True\<close>\<close>

definition noting_limit :: "candidate_context step \<Rightarrow> candidate_context step" where
  "noting_limit s c =
     (case s c of
        (Inl CandidateLimitExceeded, c') \<Rightarrow> (Inr (), c'\<lparr>cx_limit_exceeded := Some True\<rparr>)
      | (r, c') \<Rightarrow> (r, c'))"

text \<open>What a \<^verbatim>\<open>then\<close> step checks of the store.\<close>

definition check_store :: "(candidate_store \<Rightarrow> bool) \<Rightarrow> candidate_context step" where
  "check_store P c = (rbind (need (cx_store c)) (\<lambda>s. assert_that (P s)), c)"

subsection \<open>Given\<close>

definition an_empty_candidate_store :: "candidate_context step" where
  "an_empty_candidate_store = set_store (CandidateStore_init DEFAULT_MAX_CANDIDATES_PER_CID
     DEFAULT_MAX_TOTAL_CANDIDATES DEFAULT_CANDIDATE_TTL_SECONDS)"

definition a_candidate :: "string \<Rightarrow> string \<Rightarrow> string \<Rightarrow> candidate_context step" where
  "a_candidate cid received_bytes sent_bytes =
     on_store (add (ascii cid) (ascii received_bytes) (ascii sent_bytes) 0)"

definition a_store_with_per_cid_cap :: "int \<Rightarrow> candidate_context step" where
  "a_store_with_per_cid_cap max_per_cid =
     set_store (CandidateStore_init max_per_cid DEFAULT_MAX_TOTAL_CANDIDATES DEFAULT_CANDIDATE_TTL_SECONDS)"

definition two_candidates_already_added :: "candidate_context step" where
  "two_candidates_already_added = for_each (\<lambda>i. on_store (add (ascii ''cid-1'')
     (ascii (''req-'' @ decimal (i + 1))) (ascii (''resp-'' @ decimal (i + 1))) 0)) [0..<2]"

definition a_candidate_already_added :: "candidate_context step" where
  "a_candidate_already_added = on_store (add (ascii ''cid-1'') (ascii ''req-1'') (ascii ''resp-1'') 0)"

definition a_store_with_global_cap :: "int \<Rightarrow> candidate_context step" where
  "a_store_with_global_cap max_total =
     set_store (CandidateStore_init DEFAULT_MAX_CANDIDATES_PER_CID max_total DEFAULT_CANDIDATE_TTL_SECONDS)"

definition candidates_for_different_cids :: "nat \<Rightarrow> nat \<Rightarrow> candidate_context step" where
  "candidates_for_different_cids candidate_count cid_count c =
     (if candidate_count \<noteq> cid_count then (Inl AssertionError, c)
      else for_each (\<lambda>i. on_store (add (ascii (''cid-'' @ decimal (i + 1)))
             (ascii (''req-'' @ decimal (i + 1))) (ascii (''resp-'' @ decimal (i + 1))) 0)) [0..<candidate_count] c)"

definition candidates_added_for :: "nat \<Rightarrow> string \<Rightarrow> candidate_context step" where
  "candidates_added_for candidate_count cid = for_each (\<lambda>i. on_store (add (ascii cid)
     (ascii (''req-'' @ decimal (i + 1))) (ascii (''resp-'' @ decimal (i + 1))) 0)) [0..<candidate_count]"

definition a_store_with_TTL :: "rat \<Rightarrow> candidate_context step" where
  "a_store_with_TTL ttl =
     set_store (CandidateStore_init DEFAULT_MAX_CANDIDATES_PER_CID DEFAULT_MAX_TOTAL_CANDIDATES ttl)"

definition a_candidate_added_at :: "string \<Rightarrow> rat \<Rightarrow> candidate_context step" where
  "a_candidate_added_at cid now = on_store (add (ascii cid) (ascii ''req'') (ascii ''resp'') now)"

subsection \<open>When\<close>

definition I_add_the_first_candidate :: "candidate_context step" where
  "I_add_the_first_candidate = on_store (add (ascii ''cid-1'') (ascii ''req-1'') (ascii ''resp-1'') 0)"

definition I_look_up :: "string \<Rightarrow> string \<Rightarrow> candidate_context step" where
  "I_look_up cid received_bytes c =
     (case cx_store c of
        None \<Rightarrow> (Inl AttributeError, c)
      | Some s \<Rightarrow> (Inr (), c\<lparr>cx_candidate := Some (match_or_none (ascii cid) (ascii received_bytes) s)\<rparr>))"

definition I_attempt_to_add_a_third :: "candidate_context step" where
  "I_attempt_to_add_a_third =
     noting_limit (on_store (add (ascii ''cid-1'') (ascii ''req-3'') (ascii ''resp-3'') 0))"

definition I_attempt_to_add_a_second :: "candidate_context step" where
  "I_attempt_to_add_a_second =
     noting_limit (on_store (add (ascii ''cid-1'') (ascii ''req-2'') (ascii ''resp-2'') 0))"

definition I_add_a_candidate_for :: "string \<Rightarrow> candidate_context step" where
  "I_add_a_candidate_for cid = on_store (add (ascii cid) (ascii ''req-1'') (ascii ''resp-1'') 0)"

definition I_attempt_to_add_a_fourth :: "candidate_context step" where
  "I_attempt_to_add_a_fourth =
     noting_limit (on_store (add (ascii ''cid-4'') (ascii ''req-4'') (ascii ''resp-4'') 0))"

definition I_promote_the_first :: "string \<Rightarrow> candidate_context step" where
  "I_promote_the_first cid = on_store (\<lambda>s.
     case candidates_for (ascii cid) s of
       [] \<Rightarrow> (Inl IndexError, s)
     | winner # _ \<Rightarrow> (Inr (), promote (ascii cid) winner s))"

definition I_discard :: "string \<Rightarrow> candidate_context step" where
  "I_discard cid = on_store (\<lambda>s. (Inr (), discard (ascii cid) s))"

definition I_sweep_at :: "rat \<Rightarrow> candidate_context step" where
  "I_sweep_at now = on_store (\<lambda>s. (Inr (), snd (expire now s)))"

text \<open>The time of this step is not used, the value of the call is dropped.\<close>

definition I_look_up_at :: "string \<Rightarrow> rat \<Rightarrow> candidate_context step" where
  "I_look_up_at cid now = on_store (\<lambda>s. (Inr (match_or_none (ascii cid) (ascii ''req'') s), s))"

subsection \<open>Then\<close>

definition a_candidate_is_found :: "string \<Rightarrow> string \<Rightarrow> candidate_context step" where
  "a_candidate_is_found cid received_bytes c =
     (case cx_store c of
        None \<Rightarrow> (Inl AttributeError, c)
      | Some s \<Rightarrow>
          (case match_or_none (ascii cid) (ascii received_bytes) s of
             None \<Rightarrow> (Inl AssertionError, c)
           | Some candidate \<Rightarrow> (Inr (), c\<lparr>cx_candidate := Some (Some candidate)\<rparr>)))"

definition its_sent_bytes_are :: "string \<Rightarrow> candidate_context step" where
  "its_sent_bytes_are sent_bytes c =
     (rbind (need (cx_candidate c)) (\<lambda>found. rbind (need found) (\<lambda>candidate.
      assert_that (cand_sent_pdu candidate = ascii sent_bytes))), c)"

definition no_candidate_is_found :: "candidate_context step" where
  "no_candidate_is_found c = (rbind (need (cx_candidate c)) (\<lambda>found. assert_that (found = None)), c)"

definition adding_fails_with_limit :: "candidate_context step" where
  "adding_fails_with_limit c = (rbind (need (cx_limit_exceeded c)) assert_that, c)"

definition cid1_still_has_two :: "candidate_context step" where
  "cid1_still_has_two = check_store (\<lambda>s. length (candidates_for (ascii ''cid-1'') s) = 2)"

definition cid_has_exactly :: "string \<Rightarrow> nat \<Rightarrow> candidate_context step" where
  "cid_has_exactly cid candidate_count =
     check_store (\<lambda>s. length (candidates_for (ascii cid) s) = candidate_count)"

definition cid_has_none :: "string \<Rightarrow> candidate_context step" where
  "cid_has_none cid = check_store (\<lambda>s. length (candidates_for (ascii cid) s) = 0)"

definition none_of_the_originals_is_found :: "string \<Rightarrow> candidate_context step" where
  "none_of_the_originals_is_found cid = for_each (\<lambda>i. check_store (\<lambda>s.
     match_or_none (ascii cid) (ascii (''req-'' @ decimal (i + 2))) s = None)) [0..<2]"

definition cid_new_still_has_one :: "candidate_context step" where
  "cid_new_still_has_one = check_store (\<lambda>s. length (candidates_for (ascii ''cid-new'') s) = 1)"

subsection \<open>The feature\<close>

definition candidate_feature :: "candidate_context step list list" where
  "candidate_feature = map (Cons an_empty_candidate_store)
    [[I_add_the_first_candidate, a_candidate_is_found ''cid-1'' ''req-1'', its_sent_bytes_are ''resp-1''],
     [a_candidate ''cid-1'' ''req-1'' ''resp-1'', I_look_up ''cid-2'' ''req-1'', no_candidate_is_found],
     [a_candidate ''cid-1'' ''shared-bytes'' ''resp-1'', a_candidate ''cid-2'' ''shared-bytes'' ''resp-2'',
      I_look_up ''cid-1'' ''shared-bytes'', its_sent_bytes_are ''resp-1'',
      I_look_up ''cid-2'' ''shared-bytes'', its_sent_bytes_are ''resp-2''],
     [a_store_with_per_cid_cap 2, two_candidates_already_added, I_attempt_to_add_a_third,
      adding_fails_with_limit, cid1_still_has_two],
     [a_store_with_per_cid_cap 1, a_candidate_already_added, I_attempt_to_add_a_second,
      adding_fails_with_limit, I_add_a_candidate_for ''cid-2'', cid_has_exactly ''cid-2'' 1],
     [a_store_with_global_cap 3, candidates_for_different_cids 3 3, I_attempt_to_add_a_fourth,
      adding_fails_with_limit],
     [candidates_added_for 2 ''cid-1'', I_promote_the_first ''cid-1'', cid_has_none ''cid-1'',
      none_of_the_originals_is_found ''cid-1''],
     [candidates_added_for 2 ''cid-1'', I_discard ''cid-1'', cid_has_none ''cid-1''],
     [a_store_with_TTL 10, a_candidate_added_at ''cid-old'' 0, a_candidate_added_at ''cid-new'' 5, I_sweep_at 12,
      cid_has_none ''cid-old'', cid_new_still_has_one],
     [a_store_with_TTL 10, a_candidate_added_at ''cid-1'' 0, I_look_up_at ''cid-1'' 5, I_look_up_at ''cid-1'' 9,
      I_sweep_at 10, cid_has_none ''cid-1'']]"

text \<open>
  The acceptance tests of the candidate store pass: every scenario of the feature runs to its end,
  each assertion of its steps true.
\<close>

theorem candidate_feature_passes: "list_all (passes empty_candidate_context) candidate_feature"
  by code_simp

end
