(* ===== verification/X690.thy ===== *)
theory X690
  imports ThirdParty
begin

section \<open>The distinguished encoding rules\<close>

text \<open>
  X.690, as far as the values of \<open>asn1\<close> go: the DER encoding of a value, and a reader of BER with definite
  lengths. The package leaves encoding to \<^verbatim>\<open>asn1crypto\<close>, which stays a parameter; the tests look at the
  bytes it writes and build encodings of their own, and \<open>writes_der\<close> says what they rely on. The reader shows
  that the hypotheses about a \<open>lib\<close> hold of real DER: what \<open>x690\<close> writes, \<open>read_values\<close> reads.
\<close>

unbundle bit_operations_syntax

subsection \<open>Lengths\<close>

text \<open>\<^verbatim>\<open>n.to_bytes((n.bit_length() + 7) // 8, "big")\<close>: no octet for 0, no leading zero.\<close>

fun nat_bytes :: "nat \<Rightarrow> bytes" where
  "nat_bytes n = (if n = 0 then [] else nat_bytes (n div 256) @ [word_of_nat n])"

declare nat_bytes.simps [simp del]

definition nat_of_bytes :: "bytes \<Rightarrow> nat" where
  "nat_of_bytes = foldl (\<lambda>n b. n * 256 + unat b) 0"

definition der_length :: "nat \<Rightarrow> bytes" where
  "der_length n = (if n < 0x80 then [word_of_nat n]
     else let length_bytes = nat_bytes n in (0x80 OR word_of_nat (length length_bytes)) # length_bytes)"

text \<open>BER allows leading zeros; the indefinite form (\<open>0x80\<close>) is not read.\<close>

fun read_length :: "bytes \<Rightarrow> (nat \<times> bytes) option" where
  "read_length [] = None"
| "read_length (b # r) =
     (if unat b < 128 then Some (unat b, r)
      else let k = unat b - 128 in
        if k = 0 \<or> length r < k then None else Some (nat_of_bytes (take k r), drop k r))"

subsection \<open>Numbers in base 128, tags, object identifiers\<close>

fun base128_more :: "nat \<Rightarrow> bytes" where
  "base128_more n = (if n = 0 then [] else base128_more (n div 128) @ [0x80 OR word_of_nat (n mod 128)])"

declare base128_more.simps [simp del]

definition base128 :: "nat \<Rightarrow> bytes" where
  "base128 n = base128_more (n div 128) @ [word_of_nat (n mod 128)]"

fun read_base128 :: "nat \<Rightarrow> bytes \<Rightarrow> (nat \<times> bytes) option" where
  "read_base128 n [] = None"
| "read_base128 n (b # r) =
     (if unat b < 128 then Some (n * 128 + unat b, r) else read_base128 (n * 128 + (unat b - 128)) r)"

text \<open>A tag: the bits of the class and of the constructed form, and the number.\<close>

definition write_tag :: "byte \<Rightarrow> nat \<Rightarrow> bytes" where
  "write_tag c n = (if n < 31 then [c OR word_of_nat n] else (c OR 31) # base128 n)"

fun read_tag :: "bytes \<Rightarrow> (byte \<times> nat \<times> bytes) option" where
  "read_tag [] = None"
| "read_tag (b # r) =
     (if b AND 31 = 31 then map_option (\<lambda>(n, r'). (b AND 0xE0, n, r')) (read_base128 0 r)
      else Some (b AND 0xE0, unat (b AND 31), r))"

fun split_dots :: "string \<Rightarrow> string list" where
  "split_dots [] = [[]]"
| "split_dots (c # s) = (if c = CHR ''.'' then [] # split_dots s
     else case split_dots s of [] \<Rightarrow> [[c]] | a # as \<Rightarrow> (c # a) # as)"

definition arc_of :: "string \<Rightarrow> nat" where
  "arc_of = foldl (\<lambda>n c. 10 * n + (of_char c - 48)) 0"

fun dotted :: "nat list \<Rightarrow> string" where
  "dotted [] = []"
| "dotted [a] = decimal a"
| "dotted (a # as) = decimal a @ CHR ''.'' # dotted as"

text \<open>The first two arcs share a number (8.19.4).\<close>

fun subidentifiers :: "nat list \<Rightarrow> nat list option" where
  "subidentifiers (a # b # as) = (if a < 2 \<and> b < 40 \<or> a = 2 then Some ((a * 40 + b) # as) else None)"
| "subidentifiers _ = None"

fun arcs_of :: "nat list \<Rightarrow> nat list" where
  "arcs_of [] = []"
| "arcs_of (n # as) = (if n < 40 then [0, n] else if n < 80 then [1, n - 40] else [2, n - 80]) @ as"

definition oid_numbers :: "string \<Rightarrow> nat list option" where
  "oid_numbers s = subidentifiers (map arc_of (split_dots s))"

text \<open>An object identifier in its usual form: decimal arcs without leading zeros, separated by dots.\<close>

definition dotted_oid :: "string \<Rightarrow> bool" where
  "dotted_oid s \<longleftrightarrow> (case oid_numbers s of None \<Rightarrow> False | Some ns \<Rightarrow> dotted (arcs_of ns) = s)"

definition oid_bytes :: "string \<Rightarrow> bytes" where
  "oid_bytes s = (case oid_numbers s of None \<Rightarrow> [] | Some ns \<Rightarrow> concat (map base128 ns))"

fun read_numbers :: "nat \<Rightarrow> bytes \<Rightarrow> nat list" where
  "read_numbers n [] = []"
| "read_numbers n (b # r) = (if unat b < 128 then (n * 128 + unat b) # read_numbers 0 r
     else read_numbers (n * 128 + (unat b - 128)) r)"

subsection \<open>Integers in two's complement\<close>

function int_bytes :: "int \<Rightarrow> bytes" where
  "int_bytes i = (if - 128 \<le> i \<and> i < 128 then [word_of_int i] else int_bytes (i div 256) @ [word_of_int i])"
  by auto
termination by (relation "measure (\<lambda>i. nat \<bar>i\<bar>)") auto

declare int_bytes.simps [simp del]

fun int_of_bytes :: "bytes \<Rightarrow> int" where
  "int_of_bytes [] = 0"
| "int_of_bytes (b # r) = foldl (\<lambda>i w. i * 256 + uint w) (sint b) r"

subsection \<open>Values\<close>

definition length_octets :: "nat \<Rightarrow> bytes \<Rightarrow> bool" where
  "length_octets n bs \<longleftrightarrow> (case bs of [] \<Rightarrow> False
     | b # ls \<Rightarrow> if unat b < 128 then ls = [] \<and> unat b = n
         else ls \<noteq> [] \<and> length ls = unat b - 128 \<and> nat_of_bytes ls = n)"

definition tlv :: "byte \<Rightarrow> nat \<Rightarrow> bytes \<Rightarrow> bytes" where
  "tlv c n content = write_tag c n @ der_length (length content) @ content"

fun x690 :: "asn1 \<Rightarrow> bytes" where
  "x690 (AInt i) = tlv 0 2 (int_bytes i)"
| "x690 (AOctets b) = tlv 0 4 b"
| "x690 (AOid s) = tlv 0 6 (oid_bytes s)"
| "x690 ANull = tlv 0 5 []"
| "x690 (ASeq ts) = tlv 0x20 16 (concat (map x690 ts))"
| "x690 (ACtxP n b) = tlv 0x80 n b"
| "x690 (ACtxC n ts) = tlv 0xA0 n (concat (map x690 ts))"
| "x690 (AOther n b) = tlv 0x40 n b"

text \<open>
  BER with definite lengths: as DER, but a length may be written in the long form and with leading zeros
  (8.1.3.5), at any level.
\<close>

inductive ber :: "asn1 \<Rightarrow> bytes \<Rightarrow> bool" where
  ber_int: "length_octets (length (int_bytes i)) l \<Longrightarrow> ber (AInt i) (write_tag 0 2 @ l @ int_bytes i)"
| ber_octets: "length_octets (length b) l \<Longrightarrow> ber (AOctets b) (write_tag 0 4 @ l @ b)"
| ber_oid: "length_octets (length (oid_bytes s)) l \<Longrightarrow> ber (AOid s) (write_tag 0 6 @ l @ oid_bytes s)"
| ber_null: "length_octets 0 l \<Longrightarrow> ber ANull (write_tag 0 5 @ l)"
| ber_seq: "list_all2 ber ts bs \<Longrightarrow> length_octets (length (concat bs)) l \<Longrightarrow>
    ber (ASeq ts) (write_tag 0x20 16 @ l @ concat bs)"
| ber_ctxp: "length_octets (length b) l \<Longrightarrow> ber (ACtxP n b) (write_tag 0x80 n @ l @ b)"
| ber_ctxc: "list_all2 ber ts bs \<Longrightarrow> length_octets (length (concat bs)) l \<Longrightarrow>
    ber (ACtxC n ts) (write_tag 0xA0 n @ l @ concat bs)"

text \<open>The next tag, length and content.\<close>

definition read_tlv :: "bytes \<Rightarrow> (byte \<times> nat \<times> bytes \<times> bytes) option" where
  "read_tlv bs = (case read_tag bs of None \<Rightarrow> None
     | Some (c, n, r) \<Rightarrow> (case read_length r of None \<Rightarrow> None
       | Some (k, r') \<Rightarrow> if length r' < k then None else Some (c, n, take k r', drop k r')))"

definition constructed :: "byte \<Rightarrow> nat \<Rightarrow> bool" where
  "constructed c n \<longleftrightarrow> (c = 0x20 \<and> n = 16) \<or> c = 0xA0"

definition primitive_value :: "byte \<Rightarrow> nat \<Rightarrow> bytes \<Rightarrow> asn1 option" where
  "primitive_value c n content =
     (if c = 0 \<and> n = 2 then (if content = [] then None else Some (AInt (int_of_bytes content)))
      else if c = 0 \<and> n = 4 then Some (AOctets content)
      else if c = 0 \<and> n = 5 then (if content = [] then Some ANull else None)
      else if c = 0 \<and> n = 6 then Some (AOid (dotted (arcs_of (read_numbers 0 content))))
      else if c = 0x80 then Some (ACtxP n content)
      else Some (AOther n content))"

text \<open>All values of a content; each level of nesting and each value takes at least two octets, so the length is
  fuel enough.\<close>

fun read_values :: "nat \<Rightarrow> bytes \<Rightarrow> asn1 list option" where
  "read_values k [] = Some []"
| "read_values 0 (b # bs) = None"
| "read_values (Suc k) (b # bs) = (case read_tlv (b # bs) of None \<Rightarrow> None
     | Some (c, n, content, r) \<Rightarrow>
         (case (if constructed c n
                then map_option (if c = 0x20 then ASeq else ACtxC n) (read_values k content)
                else primitive_value c n content) of
            None \<Rightarrow> None
          | Some t \<Rightarrow> map_option ((#) t) (read_values k r)))"

definition x690_decode :: "bytes \<Rightarrow> asn1 result" where
  "x690_decode bs = (case read_values (length bs) bs of Some [t] \<Rightarrow> Inr t | _ \<Rightarrow> Inl ValueError)"

text \<open>What the tests rely on: the encoder writes DER and the decoder reads BER. (The length of a length has seven bits.)\<close>

definition der_size_ok :: "asn1 \<Rightarrow> bool" where
  "der_size_ok t \<longleftrightarrow> length (x690 t) < 256 ^ 126"

definition writes_der :: "lib \<Rightarrow> bool" where
  "writes_der L \<longleftrightarrow> (\<forall>t. asn1_valid L t \<longrightarrow> der_size_ok t \<longrightarrow> der_encode L t = x690 t)"

definition reads_ber :: "lib \<Rightarrow> bool" where
  "reads_ber L \<longleftrightarrow> (\<forall>t b. asn1_valid L t \<longrightarrow> ber t b \<longrightarrow> ber_decode L b = Inr t)"

subsection \<open>What is written is read\<close>

lemma nat_of_bytes_snoc [simp]: "nat_of_bytes (bs @ [b]) = nat_of_bytes bs * 256 + unat b"
  by (simp add: nat_of_bytes_def)

lemma nat_of_nat_bytes [simp]: "nat_of_bytes (nat_bytes n) = n"
proof (induction n rule: nat_bytes.induct)
  case (1 n)
  show ?case
  proof (cases "n = 0")
    case True
    then show ?thesis by (simp add: nat_bytes.simps nat_of_bytes_def)
  next
    case False
    then show ?thesis using 1 by (simp add: nat_bytes.simps [of n] unat_of_nat)
  qed
qed

lemma length_nat_bytes: "n < 256 ^ k \<Longrightarrow> length (nat_bytes n) \<le> k"
proof (induction k arbitrary: n)
  case 0
  then show ?case by (simp add: nat_bytes.simps)
next
  case (Suc k)
  then have "n div 256 < 256 ^ k" by (simp add: less_mult_imp_div_less mult.commute)
  then show ?case using Suc.IH by (simp add: nat_bytes.simps [of n])
qed

lemma octet_facts:
  "list_all (\<lambda>n. unat (0x80 OR word_of_nat n :: byte) = 128 + n) [0..<128]"
  "list_all (\<lambda>c. list_all (\<lambda>n. (c OR word_of_nat n :: byte) AND 0xE0 = c \<and> unat ((c OR word_of_nat n) AND 31) = n) [0..<32])
     [0, 0x20, 0x40, 0x80, 0xA0]"
  by code_simp+

lemma unat_high_octet: "n < 128 \<Longrightarrow> unat (0x80 OR word_of_nat n :: byte) = 128 + n"
  using octet_facts(1) by (simp add: list_all_iff)

lemma der_length_forms:
  "n < 128 \<Longrightarrow> der_length n = [word_of_nat n]"
  "128 \<le> n \<Longrightarrow> n < 256 \<Longrightarrow> der_length n = [0x81, word_of_nat n]"
  "256 \<le> n \<Longrightarrow> n < 65536 \<Longrightarrow> der_length n = [0x82, word_of_nat (n div 256), word_of_nat n]"
  by (simp_all add: der_length_def Let_def nat_bytes.simps [of n] nat_bytes.simps [of "n div 256"] nat_bytes.simps [of 0]
      div_less_iff_less_mult)

lemma length_octets_der_length [intro]:
  assumes "n < 256 ^ 126"
  shows "length_octets n (der_length n)"
proof (cases "n < 128")
  case True
  then show ?thesis by (simp add: length_octets_def der_length_def unat_of_nat)
next
  case False
  have "length (nat_bytes n) < 128" using length_nat_bytes [OF assms] by simp
  moreover have "nat_bytes n \<noteq> []" using False by (simp add: nat_bytes.simps [of n])
  ultimately show ?thesis using False by (simp add: length_octets_def der_length_def Let_def unat_high_octet)
qed

lemma read_length_octets [simp]: "length_octets n l \<Longrightarrow> read_length (l @ r) = Some (n, r)"
  by (cases l) (auto simp: length_octets_def Let_def split: if_splits)

lemma read_base128_more: "\<exists>k. read_base128 m (base128_more n @ r) = read_base128 (m * 128 ^ k + n) r"
proof (induction n arbitrary: r rule: base128_more.induct)
  case (1 n)
  show ?case
  proof (cases "n = 0")
    case True
    then show ?thesis by (intro exI [of _ 0]) (simp add: base128_more.simps)
  next
    case False
    then obtain k where "read_base128 m (base128_more (n div 128) @ [0x80 OR word_of_nat (n mod 128)] @ r) =
        read_base128 (m * 128 ^ k + n div 128) ([0x80 OR word_of_nat (n mod 128)] @ r)"
      using 1 by blast
    then show ?thesis using False
      by (intro exI [of _ "Suc k"]) (simp add: base128_more.simps [of n] unat_high_octet algebra_simps)
  qed
qed

lemma read_base128 [simp]: "read_base128 0 (base128 n @ r) = Some (n, r)"
proof -
  have "unat (word_of_nat (n mod 128) :: byte) = n mod 128" by (simp add: unat_of_nat)
  then show ?thesis
    using read_base128_more [of 0 "n div 128" "word_of_nat (n mod 128) # r"] by (auto simp: base128_def)
qed

lemma read_numbers_more: "\<exists>k. read_numbers m (base128_more n @ r) = read_numbers (m * 128 ^ k + n) r"
proof (induction n arbitrary: r rule: base128_more.induct)
  case (1 n)
  show ?case
  proof (cases "n = 0")
    case True
    then show ?thesis by (intro exI [of _ 0]) (simp add: base128_more.simps)
  next
    case False
    then obtain k where "read_numbers m (base128_more (n div 128) @ [0x80 OR word_of_nat (n mod 128)] @ r) =
        read_numbers (m * 128 ^ k + n div 128) ([0x80 OR word_of_nat (n mod 128)] @ r)"
      using 1 by blast
    then show ?thesis using False
      by (intro exI [of _ "Suc k"]) (simp add: base128_more.simps [of n] unat_high_octet algebra_simps)
  qed
qed

lemma read_numbers_base128 [simp]: "read_numbers 0 (concat (map base128 ns)) = ns"
proof (induction ns)
  case (Cons n ns)
  have "unat (word_of_nat (n mod 128) :: byte) = n mod 128" by (simp add: unat_of_nat)
  then show ?case
    using read_numbers_more [of 0 "n div 128" "word_of_nat (n mod 128) # concat (map base128 ns)"] Cons.IH
      base128_def [of n] by auto
qed simp

abbreviation tag_bits :: "byte list" where
  "tag_bits \<equiv> [0, 0x20, 0x40, 0x80, 0xA0]"

lemma read_write_tag [simp]:
  assumes "c \<in> set tag_bits"
  shows "read_tag (write_tag c n @ r) = Some (c, n, r)"
proof -
  have bits: "(c OR word_of_nat k) AND 0xE0 = c" "unat ((c OR word_of_nat k) AND 31) = k" if "k < 32" for k
    using octet_facts(2) assms that by (auto simp: list_all_iff)
  have "(c OR word_of_nat n) AND 31 \<noteq> (31 :: byte)" if "n < 31" using bits(2) [of n] that by auto
  moreover have "(c OR 31) AND 31 = (31 :: byte)" "(c OR 31) AND 0xE0 = c"
    using assms by auto
  ultimately show ?thesis using bits by (simp add: write_tag_def)
qed

lemma write_tag_not_Nil [simp]: "write_tag c n \<noteq> []"
  by (simp add: write_tag_def)

lemma der_length_not_Nil [simp]: "der_length n \<noteq> []"
  by (simp add: der_length_def Let_def)

lemma tlv_not_Nil [simp]: "tlv c n content \<noteq> []"
  by (simp add: tlv_def)

lemma length_content_less: "length content < length (tlv c n content)"
  by (cases "write_tag c n") (simp_all add: tlv_def)

lemma read_tlv_octets [simp]:
  "c \<in> set tag_bits \<Longrightarrow> length_octets (length content) l \<Longrightarrow>
   read_tlv (write_tag c n @ l @ content @ r) = Some (c, n, content, r)"
  by (simp add: read_tlv_def)

lemma int_of_bytes_snoc: "bs \<noteq> [] \<Longrightarrow> int_of_bytes (bs @ [w]) = int_of_bytes bs * 256 + uint w"
  by (cases bs) simp_all

lemma int_bytes_not_Nil [simp]: "int_bytes i \<noteq> []"
  by (subst int_bytes.simps) simp

lemma int_of_int_bytes [simp]: "int_of_bytes (int_bytes i) = i"
proof (induction i rule: int_bytes.induct)
  case (1 i)
  show ?case
  proof (cases "- 128 \<le> i \<and> i < 128")
    case True
    then have "sint (word_of_int i :: byte) = i" by (simp add: signed_take_bit_int_eq_self_iff sint_sbintrunc')
    then show ?thesis using True by (simp add: int_bytes.simps [of i])
  next
    case False
    then have "int_bytes i = int_bytes (i div 256) @ [word_of_int i]" by (subst int_bytes.simps) simp
    then show ?thesis using 1 [OF False] by (simp add: int_of_bytes_snoc uint_word_of_int)
  qed
qed

lemma arcs_of_numbers: "subidentifiers as = Some ns \<Longrightarrow> arcs_of ns = as"
  by (cases as rule: subidentifiers.cases) (auto simp: less_2_cases_iff split: if_splits)

lemma read_oid_bytes: "dotted_oid s \<Longrightarrow> dotted (arcs_of (read_numbers 0 (oid_bytes s))) = s"
  by (auto simp: dotted_oid_def oid_bytes_def split: option.splits)

text \<open>One value, given that the values inside it are read.\<close>

lemma x690_not_Nil [simp]: "x690 t \<noteq> []"
  by (cases t) simp_all

lemma read_values_step:
  "read_tlv bs = Some (c, n, content, r) \<Longrightarrow> 0 < k \<Longrightarrow> read_values k bs =
    (case (if constructed c n then map_option (if c = 0x20 then ASeq else ACtxC n) (read_values (k - 1) content)
           else primitive_value c n content) of
       None \<Rightarrow> None | Some t \<Rightarrow> map_option ((#) t) (read_values (k - 1) r))"
proof (cases bs)
  case Nil
  then show "read_tlv bs = Some (c, n, content, r) \<Longrightarrow> ?thesis" by (simp add: read_tlv_def)
qed (cases k; simp cong: option.case_cong)

lemma read_values_octets:
  assumes "c \<in> set tag_bits" "length_octets (length content) l"
  shows "read_values (Suc k) (write_tag c n @ l @ content @ r) =
    (case (if constructed c n then map_option (if c = 0x20 then ASeq else ACtxC n) (read_values k content)
           else primitive_value c n content) of
       None \<Rightarrow> None | Some t \<Rightarrow> map_option ((#) t) (read_values k r))"
  unfolding read_values_step [OF read_tlv_octets [OF assms] zero_less_Suc] diff_Suc_1 ..

lemma octets_differ [simp]:
  "(0x20 :: byte) \<noteq> 0" "(0x80 :: byte) \<noteq> 0" "(0xA0 :: byte) \<noteq> 0" "(0x80 :: byte) \<noteq> 0x20" "(0xA0 :: byte) \<noteq> 0x20"
  "(0x80 :: byte) \<noteq> 0xA0"
  by simp_all

lemma length_octets_not_Nil: "length_octets n l \<Longrightarrow> l \<noteq> []"
  by (auto simp: length_octets_def)

text \<open>A value, given that the values inside it are read.\<close>

lemma read_ber_value:
  assumes "ber t b" "asn1_valid L t" "\<And>s. valid_oid L s \<Longrightarrow> dotted_oid s" "length b \<le> Suc k"
    and inner: "\<And>us bs. list_all2 ber us bs \<Longrightarrow> list_all (asn1_valid L) us \<Longrightarrow> length (concat bs) \<le> k \<Longrightarrow>
      read_values k (concat bs) = Some us"
  shows "read_values (Suc k) (b @ r) = map_option ((#) t) (read_values k r)"
proof -
  have fits: "length content \<le> k" if "b = write_tag c n @ l @ content" for c n l content
    using assms(4) that by (cases "write_tag c n") simp_all
  show ?thesis
    using assms(1-3)
  proof cases
    case (ber_seq ts bs l)
    then have "read_values k (concat bs) = Some ts" using fits assms(2) by (intro inner) auto
    then show ?thesis using ber_seq by (simp add: read_values_octets constructed_def)
  next
    case (ber_ctxc ts bs l n)
    then have "read_values k (concat bs) = Some ts" using fits assms(2) by (intro inner) auto
    then show ?thesis using ber_ctxc by (simp add: read_values_octets constructed_def)
  next
    case (ber_null l)
    then show ?thesis using read_values_octets [of 0 "[]" l k 5 r] by (simp add: constructed_def primitive_value_def)
  qed (use assms(3) in \<open>simp_all add: read_values_octets constructed_def primitive_value_def read_oid_bytes\<close>)
qed

lemma ber_not_Nil: "ber t b \<Longrightarrow> b \<noteq> []"
  by (cases rule: ber.cases) auto

lemma read_values_ber:
  "\<lbrakk>list_all2 ber ts bs; length (concat bs) \<le> k; \<And>s. valid_oid L s \<Longrightarrow> dotted_oid s; list_all (asn1_valid L) ts\<rbrakk> \<Longrightarrow>
   read_values k (concat bs) = Some ts"
proof (induction k arbitrary: ts bs)
  case 0
  then show ?case by (cases bs) (auto dest: ber_not_Nil simp: list_all2_Cons2)
next
  case (Suc k)
  show ?case
  proof (cases bs)
    case Nil
    then show ?thesis using Suc.prems(1) by simp
  next
    case (Cons b bs')
    then obtain t ts' where ts: "ts = t # ts'" "ber t b" "list_all2 ber ts' bs'"
      using Suc.prems(1) by (auto simp: list_all2_Cons2)
    have "length (concat bs') \<le> k" using Suc.prems(2) Cons ber_not_Nil [OF ts(2)] by (cases b) simp_all
    then have "read_values k (concat bs') = Some ts'" using Suc.prems(3,4) ts by (intro Suc.IH) auto
    moreover have "read_values (Suc k) (b @ concat bs') = map_option ((#) t) (read_values k (concat bs'))"
      using Suc.prems Cons ts by (intro read_ber_value [where L = L] Suc.IH) auto
    ultimately show ?thesis using ts Cons by simp
  qed
qed

lemma x690_decode_ber:
  "ber t b \<Longrightarrow> asn1_valid L t \<Longrightarrow> (\<And>s. valid_oid L s \<Longrightarrow> dotted_oid s) \<Longrightarrow> x690_decode b = Inr t"
  using read_values_ber [of "[t]" "[b]" "length b" L] by (simp add: x690_decode_def)

text \<open>DER is BER.\<close>

lemma length_concat_mem: "x \<in> set xs \<Longrightarrow> length x \<le> length (concat xs)"
  by (induction xs) auto

lemma ber_x690:
  "asn1_valid L t \<Longrightarrow> der_size_ok t \<Longrightarrow> ber t (x690 t)"
proof (induction t)
  case (ASeq ts)
  let ?bs = "map x690 ts"
  have len: "length (concat ?bs) < 256 ^ 126"
    using ASeq.prems(2) length_content_less [of "concat ?bs" "0x20" 16] by (simp add: der_size_ok_def)
  have "ber t (x690 t)" if "t \<in> set ts" for t
    using that ASeq.prems(1) len length_concat_mem [of "x690 t" ?bs]
    by (intro ASeq.IH) (auto simp: list_all_iff der_size_ok_def)
  then have "list_all2 ber ts ?bs" by (simp add: list_all2_map2 list_all2_same)
  then show ?case using len by (simp add: tlv_def ber_seq length_octets_der_length)
next
  case (ACtxC n ts)
  let ?bs = "map x690 ts"
  have len: "length (concat ?bs) < 256 ^ 126"
    using ACtxC.prems(2) length_content_less [of "concat ?bs" "0xA0" n] by (simp add: der_size_ok_def)
  have "ber t (x690 t)" if "t \<in> set ts" for t
    using that ACtxC.prems(1) len length_concat_mem [of "x690 t" ?bs]
    by (intro ACtxC.IH) (auto simp: list_all_iff der_size_ok_def)
  then have "list_all2 ber ts ?bs" by (simp add: list_all2_map2 list_all2_same)
  then show ?case using len by (simp add: tlv_def ber_ctxc length_octets_der_length)
next
  case ANull
  then show ?case using ber_null [of "der_length 0"] by (simp add: tlv_def length_octets_der_length)
qed (simp_all add: tlv_def ber.intros length_octets_der_length der_size_ok_def)

lemma x690_decode_x690:
  assumes "asn1_valid L t" "der_size_ok t" "\<And>s. valid_oid L s \<Longrightarrow> dotted_oid s"
  shows "x690_decode (x690 t) = Inr t"
  by (rule x690_decode_ber [OF ber_x690 [OF assms(1,2)] assms(1,3)])

text \<open>DER but for the length of the outermost sequence.\<close>

lemma ber_outer_length:
  assumes "asn1_valid L (ASeq ts)" "der_size_ok (ASeq ts)" "length_octets (length (concat (map x690 ts))) l"
  shows "ber (ASeq ts) (0x30 # l @ concat (map x690 ts))"
proof -
  have "ber t (x690 t)" if "t \<in> set ts" for t
    using that assms(1,2) length_concat_mem [of "x690 t" "map x690 ts"]
      length_content_less [of "concat (map x690 ts)" "0x20" 16]
    by (intro ber_x690) (auto simp: list_all_iff der_size_ok_def)
  then have "list_all2 ber ts (map x690 ts)" by (simp add: list_all2_map2 list_all2_same)
  then show ?thesis using ber_seq [OF _ assms(3)] by (simp add: write_tag_def)
qed

end
