(* ===== verification/WireFormat.thy ===== *)
theory WireFormat
  imports Bottom X690
begin

section \<open>The messages of the protocol on the wire\<close>

text \<open>
  The wire structures over a codec that writes DER and reads BER. BER has many encodings of a message;
  all of them decode to it, and exactly one is accepted.
\<close>

lemma written_as_der:
  "writes_der L \<Longrightarrow> asn1_valid L t \<Longrightarrow> der_size_ok t \<Longrightarrow> der_encode L t = x690 t"
  by (simp add: writes_der_def)

text \<open>A codec that writes DER and reads BER round-trips what it can write.\<close>

lemma ber_codec_works:
  "writes_der L \<Longrightarrow> reads_ber L \<Longrightarrow> asn1_valid L t \<Longrightarrow> der_size_ok t \<Longrightarrow> ber_decode L (der_encode L t) = Inr t"
  using ber_x690 [of L t] by (simp add: written_as_der reads_ber_def)

lemma other_form_refused:
  assumes "writes_der L" "reads_ber L" "asn1_valid L (make_message_value m)" "der_size_ok (make_message_value m)"
    and "validate_payload (mm_payload m) = Inr ()" "ber (make_message_value m) b" "b \<noteq> x690 (make_message_value m)"
  shows "MakeMessage_load L b = Inl NonCanonicalEncoding"
  using assms by (auto simp: MakeMessage_load_def reads_ber_def require_der_def MakeMessage_dump_def written_as_der)

text \<open>
  C14. Each message has one encoding. Bytes load as a message exactly when they are its DER encoding, so every
  message that can be built round-trips; and every other BER form of it, with longer lengths anywhere inside, is
  read and then refused as not canonical. No party on the path can turn a PDU into different bytes for the same message.
\<close>

theorem message_has_one_encoding:
  assumes "writes_der L" "reads_ber L" "asn1_valid L (make_message_value m)" "der_size_ok (make_message_value m)"
    and "validate_payload (mm_payload m) = Inr ()" "length (mm_cid m) = CID_LEN"
  shows "(MakeMessage_load L b = Inr m \<longleftrightarrow> b = x690 (make_message_value m)) \<and>
    (ber (make_message_value m) b \<longrightarrow> b \<noteq> x690 (make_message_value m) \<longrightarrow> MakeMessage_load L b = Inl NonCanonicalEncoding)"
proof (intro conjI impI)
  note der = written_as_der [OF assms(1,3,4)]
  have dump: "MakeMessage_dump L m = Inr (x690 (make_message_value m))" using assms(5) der by (simp add: MakeMessage_dump_def)
  have "MakeMessage_load L (x690 (make_message_value m)) = Inr m"
    using ber_codec_works [OF assms(1-4)] assms(6) dump
    by (simp add: MakeMessage_load_def der validate_cid_def)
  moreover have "b = x690 (make_message_value m)" if "MakeMessage_load L b = Inr m"
    using make_message.load_canonical [OF that] dump by simp
  ultimately show "MakeMessage_load L b = Inr m \<longleftrightarrow> b = x690 (make_message_value m)" by blast
qed (rule other_form_refused [OF assms(1-5)])

end
