(* ===== verification/EnvelopeFeature.thy ===== *)
theory EnvelopeFeature
  imports Behave WireFormat
begin

section \<open>\<^verbatim>\<open>features/message_envelope.feature\<close> and \<^verbatim>\<open>post_handshake_message.feature\<close>\<close>

text \<open>
  The step functions of \<^verbatim>\<open>message_envelope_steps.py\<close> and \<^verbatim>\<open>post_handshake_message_steps.py\<close> over the model of the wire
  structures, for any \<^verbatim>\<open>asn1crypto\<close> that round-trips and any uuids. Steps that compare an encoding with literal
  bytes pass because the encoder writes DER (\<open>writes_der\<close>).
\<close>

record envelope_context =
  ex_scr :: "session_completion_response option"
  ex_cid :: "bytes option"
  ex_session_init_request :: "session_init_request option"
  ex_session_init_response :: "session_init_response option"
  ex_session_completion_request :: "session_completion_request option"
  ex_msg :: "message option"
  ex_m_data :: "bytes option"
  ex_message :: "make_message option"
  ex_loaded_message :: "make_message option"
  ex_error_raised :: "bool option"
  ex_non_canonical_encoding :: "bytes option"
  ex_indefinite_length_encoding :: "bytes option"
  ex_exception :: "exn option"
  ex_load_failed :: "bool option"

definition empty_envelope_context :: envelope_context where
  "empty_envelope_context = \<lparr>ex_scr = None, ex_cid = None, ex_session_init_request = None,
     ex_session_init_response = None, ex_session_completion_request = None, ex_msg = None, ex_m_data = None,
     ex_message = None, ex_loaded_message = None, ex_error_raised = None, ex_non_canonical_encoding = None,
     ex_indefinite_length_encoding = None, ex_exception = None, ex_load_failed = None\<rparr>"

text \<open>\<^verbatim>\<open>context.message = ...\<close> and \<^verbatim>\<open>context.loaded_message = ...\<close>, the right-hand side of which may raise.\<close>

definition set_message :: "make_message result \<Rightarrow> envelope_context step" where
  "set_message r c = (case r of Inl e \<Rightarrow> (Inl e, c) | Inr m \<Rightarrow> (Inr (), c\<lparr>ex_message := Some m\<rparr>))"

definition set_loaded_message :: "make_message result \<Rightarrow> envelope_context step" where
  "set_loaded_message r c = (case r of Inl e \<Rightarrow> (Inl e, c) | Inr m \<Rightarrow> (Inr (), c\<lparr>ex_loaded_message := Some m\<rparr>))"

text \<open>\<^verbatim>\<open>MakeMessage({"cid": ..., "payload": ...})\<close>, the plain constructor, with the default version.\<close>

definition MakeMessage_init :: "bytes \<Rightarrow> make_payload \<Rightarrow> make_message" where
  "MakeMessage_init cid payload = \<lparr>mm_version = 0, mm_cid = cid, mm_payload = payload\<rparr>"

definition zeros :: "nat \<Rightarrow> bytes" where
  "zeros n = replicate n 0"

definition test_alg :: algorithm_identifier where
  "test_alg = \<lparr>alg_algorithm = ''1.2.3.4.5'', alg_parameters = None\<rparr>"

subsection \<open>Given\<close>

definition a_built_scr :: "envelope_context step" where
  "a_built_scr c = (Inr (), c\<lparr>ex_scr := Some \<lparr>scp_h_m = zeros 32, scp_m = None\<rparr>\<rparr>)"

definition a_random_cid :: "bytes \<Rightarrow> envelope_context step" where
  "a_random_cid uuid4 c = (Inr (), c\<lparr>ex_cid := Some uuid4\<rparr>)"

definition a_built_SessionInitRequest :: "lib \<Rightarrow> envelope_context step" where
  "a_built_SessionInitRequest L c =
     (let ct1 = \<lparr>ct_algorithm = test_alg, ct_ciphertext = zeros 32\<rparr>;
          key_id_b = \<lparr>kid_hash_algorithm = test_alg, kid_key_hash = zeros 16\<rparr>;
          pk_a_star = \<lparr>pk_algorithm = test_alg, pk_public_key = zeros 32\<rparr>;
          key_id_a = \<lparr>kid_hash_algorithm = test_alg, kid_key_hash = zeros 16\<rparr>
      in case AeadAlgorithmList_build L [''2.16.840.1.101.3.4.1.46''] of
           Inl e \<Rightarrow> (Inl e, c)
         | Inr acceptable_aeads \<Rightarrow> (Inr (), c\<lparr>ex_session_init_request := Some
             \<lparr>sir_ct1 = ct1, sir_key_id_b = key_id_b, sir_pk_a_star = pk_a_star, sir_key_id_a = key_id_a,
              sir_acceptable_aeads = acceptable_aeads\<rparr>\<rparr>))"

definition a_built_SessionInitResponse :: "envelope_context step" where
  "a_built_SessionInitResponse c =
     (let pk_b_star = \<lparr>pk_algorithm = test_alg, pk_public_key = zeros 32\<rparr>;
          ct2 = \<lparr>ct_algorithm = test_alg, ct_ciphertext = zeros 32\<rparr>;
          ct3 = \<lparr>ct_algorithm = test_alg, ct_ciphertext = zeros 32\<rparr>
      in (Inr (), c\<lparr>ex_session_init_response := Some
            \<lparr>rsp_pk_b_star = pk_b_star, rsp_ct2 = ct2, rsp_ct3 = ct3, rsp_n_b = zeros 4,
             rsp_chosen_aead = ''2.16.840.1.101.3.4.1.46''\<rparr>\<rparr>))"

definition a_built_SessionCompletionRequest :: "envelope_context step" where
  "a_built_SessionCompletionRequest c =
     (let ct4 = \<lparr>ct_algorithm = test_alg, ct_ciphertext = zeros 32\<rparr>
      in (Inr (), c\<lparr>ex_session_completion_request := Some \<lparr>scr_c_m = zeros 32, scr_ct4 = ct4, scr_n_a = zeros 16\<rparr>\<rparr>))"

definition a_built_SessionCompletionResponse :: "envelope_context step" where
  "a_built_SessionCompletionResponse c = (Inr (), c)"

definition a_built_Message :: "envelope_context step" where
  "a_built_Message c =
     (case Message_init (Some 1) (Some (zeros 32)) of
        Inl e \<Rightarrow> (Inl e, c) | Inr message \<Rightarrow> (Inr (), c\<lparr>ex_msg := Some message\<rparr>))"

definition application_payload_bytes :: "envelope_context step" where
  "application_payload_bytes c = (Inr (), c\<lparr>ex_m_data := Some (ascii ''m_data'')\<rparr>)"

text \<open>The step assigns eight zeros to \<^verbatim>\<open>context.cid\<close> (and to a local \<^verbatim>\<open>bytes\<close>).\<close>

definition a_short_cid :: "envelope_context step" where
  "a_short_cid c = (Inr (), c\<lparr>ex_cid := Some (zeros 8)\<rparr>)"

subsection \<open>When\<close>

definition I_build_a_MakeMessage :: "int \<Rightarrow> envelope_context step" where
  "I_build_a_MakeMessage version c =
     set_message (rbind (need (ex_cid c)) (\<lambda>cid. rbind (need (ex_scr c)) (\<lambda>scr.
       MakeMessage_build cid (Session_completion_response scr) version))) c"

definition I_build_a_MakeMessage_version_1 :: "envelope_context step" where
  "I_build_a_MakeMessage_version_1 = I_build_a_MakeMessage 1"

definition I_load_the_encoding :: "lib \<Rightarrow> envelope_context step" where
  "I_load_the_encoding L c =
     set_loaded_message (rbind (need (ex_message c)) (\<lambda>m. rbind (MakeMessage_dump L m) (\<lambda>der_encoded.
       MakeMessage_load L der_encoded))) c"

definition I_wrap_SessionInitRequest :: "bytes \<Rightarrow> envelope_context step" where
  "I_wrap_SessionInitRequest uuid4 c = set_message (rbind (need (ex_session_init_request c)) (\<lambda>r.
     Inr (MakeMessage_init uuid4 (Session_init_request r)))) c"

definition I_wrap_SessionInitResponse :: "bytes \<Rightarrow> envelope_context step" where
  "I_wrap_SessionInitResponse uuid4 c = set_message (rbind (need (ex_session_init_response c)) (\<lambda>r.
     Inr (MakeMessage_init uuid4 (Session_init_response r)))) c"

definition I_wrap_SessionCompletionRequest :: "bytes \<Rightarrow> envelope_context step" where
  "I_wrap_SessionCompletionRequest uuid4 c = set_message (rbind (need (ex_session_completion_request c)) (\<lambda>r.
     Inr (MakeMessage_init uuid4 (Session_completion_request r)))) c"

definition I_wrap_SessionCompletionResponse :: "bytes \<Rightarrow> envelope_context step" where
  "I_wrap_SessionCompletionResponse uuid4 c = set_message (rbind (need (ex_scr c)) (\<lambda>r.
     Inr (MakeMessage_init uuid4 (Session_completion_response r)))) c"

definition I_wrap_Message :: "bytes \<Rightarrow> envelope_context step" where
  "I_wrap_Message uuid4 c = set_message (rbind (need (ex_msg c)) (\<lambda>r. Inr (MakeMessage_init uuid4 (Message r)))) c"

definition I_build_a_Message :: "bytes \<Rightarrow> envelope_context step" where
  "I_build_a_Message uuid4 c = set_message (rbind (need (ex_m_data c)) (\<lambda>m. rbind (Message_init (Some 1) (Some m)) (\<lambda>msg.
     Inr (MakeMessage_init uuid4 (Message msg))))) c"

text \<open>The \<^verbatim>\<open>Given\<close> steps with the same bodies.\<close>

definition a_MakeMessage :: "envelope_context step" where
  "a_MakeMessage = I_build_a_MakeMessage 0"

definition a_built_Message_with_seq_1 :: "bytes \<Rightarrow> envelope_context step" where
  "a_built_Message_with_seq_1 uuid4 = I_build_a_Message uuid4"

text \<open>The two re-encodings of \<^verbatim>\<open>context.message.dump()\<close>, a length octet too many and the indefinite form.\<close>

definition non_minimal_length :: "bytes \<Rightarrow> bytes" where
  "non_minimal_length canonical_encoding = take 1 canonical_encoding @ [0x81] @ drop 1 canonical_encoding"

definition indefinite_length :: "bytes \<Rightarrow> bytes result" where
  "indefinite_length b = (if length b \<le> 1 then Inl IndexError else Inr (b[1 := 0x80] @ [0, 0]))"

definition reencoded_non_minimal :: "lib \<Rightarrow> envelope_context step" where
  "reencoded_non_minimal L c = assign (rbind (need (ex_message c)) (MakeMessage_dump L))
     (\<lambda>b c. c\<lparr>ex_non_canonical_encoding := Some (non_minimal_length b)\<rparr>) c"

definition reencoded_indefinite :: "lib \<Rightarrow> envelope_context step" where
  "reencoded_indefinite L c = assign (rbind (need (ex_message c)) (\<lambda>m. rbind (MakeMessage_dump L m) indefinite_length))
     (\<lambda>b c. c\<lparr>ex_indefinite_length_encoding := Some b\<rparr>) c"

definition I_load_the_non_canonical_encoding :: "lib \<Rightarrow> envelope_context step" where
  "I_load_the_non_canonical_encoding L c =
     (case rbind (need (ex_non_canonical_encoding c)) (MakeMessage_load L) of
        Inl e \<Rightarrow> (Inr (), c\<lparr>ex_exception := Some e\<rparr>)
      | Inr _ \<Rightarrow> (Inl AssertionError, c))"

definition I_attempt_to_load_the_indefinite :: "lib \<Rightarrow> envelope_context step" where
  "I_attempt_to_load_the_indefinite L c =
     (case rbind (need (ex_indefinite_length_encoding c)) (MakeMessage_load L) of
        Inl e \<Rightarrow> (Inr (), c\<lparr>ex_exception := Some e, ex_load_failed := Some True\<rparr>)
      | Inr _ \<Rightarrow> (Inr (), c\<lparr>ex_load_failed := Some False\<rparr>))"

text \<open>\<^verbatim>\<open>try: ... except ValueError ... else\<close> around building a message.\<close>

definition attempt_to_build :: "(envelope_context \<Rightarrow> make_message result) \<Rightarrow> envelope_context step" where
  "attempt_to_build f c =
     (case f c of
        Inl e \<Rightarrow> if is_value_error e then (Inr (), c\<lparr>ex_error_raised := Some True\<rparr>) else (Inl e, c)
      | Inr m \<Rightarrow> (Inr (), c\<lparr>ex_message := Some m, ex_error_raised := Some False\<rparr>))"

definition I_attempt_without_seq :: "bytes \<Rightarrow> envelope_context step" where
  "I_attempt_without_seq uuid4 = attempt_to_build (\<lambda>c. rbind (need (ex_m_data c)) (\<lambda>m.
     rbind (Message_init None (Some m)) (\<lambda>msg. Inr (MakeMessage_init uuid4 (Message msg)))))"

definition I_attempt_without_m :: "bytes \<Rightarrow> envelope_context step" where
  "I_attempt_without_m uuid4 = attempt_to_build (\<lambda>c.
     rbind (Message_init (Some 1) None) (\<lambda>msg. Inr (MakeMessage_init uuid4 (Message msg))))"

text \<open>\<^verbatim>\<open>try: ... except Exception as e: ... else ...\<close> around loading a literal with the correlation id spliced in.\<close>

definition I_attempt_to_load_the_short_cid :: "lib \<Rightarrow> envelope_context step" where
  "I_attempt_to_load_the_short_cid L c =
     (case rbind (need (ex_cid c)) (\<lambda>cid. MakeMessage_load L ([0x30, 0x2e, 0x04, 0x08] @ cid @ [0xa3, 0x22, 0x04, 0x20] @ zeros 32)) of
        Inl e \<Rightarrow> (Inr (), c\<lparr>ex_exception := Some e\<rparr>)
      | Inr _ \<Rightarrow> (Inl AssertionError, c))"

subsection \<open>Then\<close>

text \<open>\<^verbatim>\<open>b[i:j]\<close>\<close>

definition slice :: "nat \<Rightarrow> nat \<Rightarrow> bytes \<Rightarrow> bytes" where
  "slice i j b = take (j - i) (drop i b)"

definition no_explicit_version_field :: "lib \<Rightarrow> envelope_context step" where
  "no_explicit_version_field L c =
     (rbind (need (ex_message c)) (\<lambda>m. rbind (MakeMessage_dump L m) (\<lambda>encoded_message.
      rbind (assert_that (length encoded_message = 56)) (\<lambda>_.
      rbind (assert_that (slice 0 4 encoded_message = [0x30, 0x36, 0x04, 0x10])) (\<lambda>_.
      rbind (need (ex_cid c)) (\<lambda>cid. rbind (assert_that (slice 4 20 encoded_message = cid)) (\<lambda>_.
      rbind (assert_that (slice 20 24 encoded_message = [0xa3, 0x22, 0x04, 0x20])) (\<lambda>_.
      assert_that (slice 24 56 encoded_message = zeros 32)))))))), c)"

definition an_explicit_version_field :: "lib \<Rightarrow> envelope_context step" where
  "an_explicit_version_field L c =
     (rbind (need (ex_message c)) (\<lambda>m. rbind (MakeMessage_dump L m) (\<lambda>encoded_message.
      assert_that (slice 0 7 encoded_message = [0x30, 0x39, 0x02, 0x01, 0x01, 0x04, 0x10]))), c)"

definition it_is_longer :: "lib \<Rightarrow> envelope_context step" where
  "it_is_longer L c =
     (rbind (need (ex_message c)) (\<lambda>m. rbind (MakeMessage_dump L m) (\<lambda>encoded_message.
      assert_that (length encoded_message = 59))), c)"

definition an_InvalidCorrelationId_is_raised :: "envelope_context step" where
  "an_InvalidCorrelationId_is_raised c =
     (rbind (need (ex_exception c)) (\<lambda>e. assert_that (e = InvalidCorrelationId)), c)"

definition the_cid_round_trips :: "envelope_context step" where
  "the_cid_round_trips c =
     (rbind (need (ex_loaded_message c)) (\<lambda>m. rbind (need (ex_cid c)) (\<lambda>cid. assert_that (mm_cid m = cid))), c)"

definition a_NonCanonicalEncoding_is_raised :: "envelope_context step" where
  "a_NonCanonicalEncoding_is_raised c =
     (rbind (need (ex_exception c)) (\<lambda>e. assert_that (e = NonCanonicalEncoding)), c)"

definition loading_fails :: "envelope_context step" where
  "loading_fails c = (rbind (need (ex_load_failed c)) assert_that, c)"

definition loading_reports_version_0 :: "lib \<Rightarrow> envelope_context step" where
  "loading_reports_version_0 L c =
     (rbind (need (ex_message c)) (\<lambda>m. rbind (MakeMessage_dump L m) (\<lambda>b.
      rbind (MakeMessage_load L b) (\<lambda>loaded_message. assert_that (mm_version loaded_message = 0)))), c)"

definition loading_succeeds :: "lib \<Rightarrow> envelope_context step" where
  "loading_succeeds L c =
     (rbind (need (ex_message c)) (\<lambda>m. rbind (MakeMessage_dump L m) (\<lambda>der_encoded.
      rbind (MakeMessage_load L der_encoded) (\<lambda>_. Inr ()))), c)"

text \<open>For \<^verbatim>\<open>SessionInitRequest\<close> the step looks at the message that was built, not at the loaded one.\<close>

definition the_built_alternative_is :: "string \<Rightarrow> envelope_context step" where
  "the_built_alternative_is name c =
     (rbind (need (ex_message c)) (\<lambda>m. assert_that (payload_name (mm_payload m) = name)), c)"

definition the_loaded_alternative_is :: "string \<Rightarrow> envelope_context step" where
  "the_loaded_alternative_is name c =
     (rbind (need (ex_loaded_message c)) (\<lambda>m. assert_that (payload_name (mm_payload m) = name)), c)"

definition the_Message_round_trips :: "lib \<Rightarrow> envelope_context step" where
  "the_Message_round_trips L c =
     sseq (set_loaded_message (rbind (need (ex_message c)) (\<lambda>m. rbind (MakeMessage_dump L m) (MakeMessage_load L))) c) (\<lambda>_ c'.
       (rbind (need (ex_loaded_message c')) (\<lambda>l. rbind (need (ex_message c')) (\<lambda>m.
        assert_that (MakeMessage_dump L l = MakeMessage_dump L m))), c'))"

text \<open>\<^verbatim>\<open>loaded_message["payload"].chosen["seq"]\<close> of an alternative without that field raises \<^verbatim>\<open>KeyError\<close>.\<close>

fun chosen_message :: "make_payload \<Rightarrow> message result" where
  "chosen_message (Message m) = Inr m"
| "chosen_message _ = Inl KeyError"

definition its_seq_is_1 :: "envelope_context step" where
  "its_seq_is_1 c = (rbind (need (ex_loaded_message c)) (\<lambda>l. rbind (chosen_message (mm_payload l)) (\<lambda>m.
     assert_that (msg_seq m = 1))), c)"

definition its_m_is_m_data :: "envelope_context step" where
  "its_m_is_m_data c = (rbind (need (ex_loaded_message c)) (\<lambda>l. rbind (chosen_message (mm_payload l)) (\<lambda>m.
     rbind (need (ex_m_data c)) (\<lambda>m_data. assert_that (msg_m m = m_data)))), c)"

definition encoding_fails :: "envelope_context step" where
  "encoding_fails c = (rbind (need (ex_error_raised c)) assert_that, c)"

text \<open>The names in \<^verbatim>\<open>_fields\<close> of each alternative.\<close>

fun field_names :: "make_payload \<Rightarrow> string list" where
  "field_names (Session_init_request _) = [''ct1'', ''key_id_b'', ''pk_a_star'', ''key_id_a'', ''acceptable_aeads'']"
| "field_names (Session_init_response _) = [''pk_b_star'', ''ct2'', ''ct3'', ''n_b'', ''chosen_aead'']"
| "field_names (Session_completion_request _) = [''c_m'', ''ct4'', ''n_a'']"
| "field_names (Session_completion_response _) = [''h_m'', ''m'']"
| "field_names (Message _) = [''seq'', ''m'']"

definition the_Message_has_two_fields :: "envelope_context step" where
  "the_Message_has_two_fields c =
     (rbind (need (ex_message c)) (\<lambda>m. assert_that (set (field_names (mm_payload m)) = {''seq'', ''m''})), c)"

subsection \<open>The features\<close>

definition wire_scenarios :: "lib \<Rightarrow> bytes \<Rightarrow> envelope_context step list list" where
  "wire_scenarios L cid =
    [[a_random_cid cid, I_build_a_MakeMessage 0, no_explicit_version_field L, loading_reports_version_0 L],
     [a_random_cid cid, I_build_a_MakeMessage_version_1, an_explicit_version_field L, it_is_longer L],
     [a_short_cid, I_attempt_to_load_the_short_cid L, an_InvalidCorrelationId_is_raised]]"

definition envelope_feature :: "lib \<Rightarrow> bytes \<Rightarrow> bytes \<Rightarrow> envelope_context step list list" where
  "envelope_feature L cid uuid4 = map (Cons a_built_scr) (wire_scenarios L cid @
    [[a_random_cid cid, I_build_a_MakeMessage 0, I_load_the_encoding L, the_cid_round_trips],
     [a_random_cid cid, I_build_a_MakeMessage 0, loading_succeeds L],
     [a_random_cid cid, a_MakeMessage, reencoded_non_minimal L, I_load_the_non_canonical_encoding L,
      a_NonCanonicalEncoding_is_raised],
     [a_random_cid cid, a_MakeMessage, reencoded_indefinite L, I_attempt_to_load_the_indefinite L, loading_fails],
     [a_built_SessionInitRequest L, I_wrap_SessionInitRequest uuid4, I_load_the_encoding L,
      the_built_alternative_is ''session_init_request''],
     [a_built_SessionInitResponse, I_wrap_SessionInitResponse uuid4, I_load_the_encoding L,
      the_loaded_alternative_is ''session_init_response''],
     [a_built_SessionCompletionRequest, I_wrap_SessionCompletionRequest uuid4, I_load_the_encoding L,
      the_loaded_alternative_is ''session_completion_request''],
     [a_built_SessionCompletionResponse, I_wrap_SessionCompletionResponse uuid4, I_load_the_encoding L,
      the_loaded_alternative_is ''session_completion_response''],
     [a_built_Message, I_wrap_Message uuid4, I_load_the_encoding L, the_loaded_alternative_is ''message'']])"

definition post_handshake_feature :: "lib \<Rightarrow> bytes \<Rightarrow> envelope_context step list list" where
  "post_handshake_feature L uuid4 = map (Cons application_payload_bytes)
    [[I_build_a_Message uuid4, the_Message_round_trips L, its_seq_is_1, its_m_is_m_data],
     [I_attempt_without_seq uuid4, encoding_fails],
     [I_attempt_without_m uuid4, encoding_fails],
     [a_built_Message_with_seq_1 uuid4, the_Message_has_two_fields]]"

lemma MakeMessage_init_fields [simp]:
  "mm_cid (MakeMessage_init cid p) = cid" "mm_payload (MakeMessage_init cid p) = p"
  "mm_version (MakeMessage_init cid p) = 0"
  by (simp_all add: MakeMessage_init_def)

lemma init_message_dumps:
  "validate_payload p = Inr () \<Longrightarrow>
   MakeMessage_dump L (MakeMessage_init cid p) = Inr (der_encode L (make_message_value (MakeMessage_init cid p)))"
  by (simp add: MakeMessage_dump_def)

lemma init_message_loads:
  assumes "asn1_works L" "length cid = 16" "asn1_valid L (make_payload_value p)" "validate_payload p = Inr ()"
  shows "MakeMessage_load L (der_encode L (make_message_value (MakeMessage_init cid p))) = Inr (MakeMessage_init cid p)"
proof (rule MakeMessage_load_dump [OF assms(1) _ init_message_dumps [OF assms(4)]])
  show "asn1_valid L (make_message_value (MakeMessage_init cid p))"
    using assms(3) by (simp add: make_message_value_def)
qed (simp add: assms(2))

lemmas envelope_steps = a_built_scr_def a_random_cid_def a_built_SessionInitRequest_def a_built_SessionInitResponse_def
  a_built_SessionCompletionRequest_def a_built_SessionCompletionResponse_def a_built_Message_def
  application_payload_bytes_def I_build_a_MakeMessage_def I_load_the_encoding_def I_wrap_SessionInitRequest_def
  I_wrap_SessionInitResponse_def I_wrap_SessionCompletionRequest_def I_wrap_SessionCompletionResponse_def
  I_wrap_Message_def I_build_a_Message_def a_built_Message_with_seq_1_def a_MakeMessage_def I_attempt_without_seq_def I_attempt_without_m_def the_cid_round_trips_def
  loading_succeeds_def the_built_alternative_is_def the_loaded_alternative_is_def the_Message_round_trips_def
  reencoded_non_minimal_def reencoded_indefinite_def I_load_the_non_canonical_encoding_def
  I_attempt_to_load_the_indefinite_def a_NonCanonicalEncoding_is_raised_def loading_fails_def
  loading_reports_version_0_def its_seq_is_1_def its_m_is_m_data_def encoding_fails_def the_Message_has_two_fields_def

lemmas wire_steps = a_built_scr_def a_random_cid_def I_build_a_MakeMessage_def I_build_a_MakeMessage_version_1_def
  a_short_cid_def I_attempt_to_load_the_short_cid_def no_explicit_version_field_def loading_reports_version_0_def
  an_explicit_version_field_def it_is_longer_def an_InvalidCorrelationId_is_raised_def

lemmas test_payloads = session_init_request_fields_def session_init_response_fields_def
  session_completion_request_fields_def session_completion_response_fields_def message_fields_def
  kem_ciphertext_value_def kem_public_key_value_def key_id_value_def alg_value_def test_alg_def zeros_def

text \<open>
  What the scenario about the indefinite form relies on: the encoder writes definite lengths (X.690, 10.1).
\<close>

definition scr_message :: "bytes \<Rightarrow> make_message" where
  "scr_message cid = MakeMessage_init cid (Session_completion_response \<lparr>scp_h_m = zeros 32, scp_m = None\<rparr>)"

definition writes_definite_lengths :: "lib \<Rightarrow> bool" where
  "writes_definite_lengths L \<longleftrightarrow> (\<forall>ts. 1 < length (der_encode L (ASeq ts)) \<and> der_encode L (ASeq ts) ! 1 \<noteq> 0x80)"

lemma length_zeros [simp]: "length (zeros n) = n"
  by (simp add: zeros_def)

lemma scr_encoding:
  "length cid < 64 \<Longrightarrow> x690 (make_message_value (scr_message cid)) =
     [0x30, word_of_nat (length cid + 38), 0x04, word_of_nat (length cid)] @ cid @ [0xa3, 0x22, 0x04, 0x20] @ zeros 32"
  "length cid < 64 \<Longrightarrow> x690 (make_message_value (scr_message cid\<lparr>mm_version := 1\<rparr>)) =
     [0x30, word_of_nat (length cid + 41), 0x02, 0x01, 0x01, 0x04, word_of_nat (length cid)] @ cid @ [0xa3, 0x22, 0x04, 0x20] @ zeros 32"
  by (simp_all add: make_message_value_def scr_message_def MakeMessage_init_def session_completion_response_fields_def tlv_def
      write_tag_def der_length_def zeros_def int_bytes.simps [of 1])

lemma scr_valid [simp]:
  "asn1_valid L (make_message_value (scr_message cid))"
  "asn1_valid L (make_message_value (scr_message cid\<lparr>mm_version := 1\<rparr>))"
  by (simp_all add: make_message_value_def scr_message_def session_completion_response_fields_def)

lemma scr_written:
  assumes "writes_der L" "length cid < 64"
  shows "der_encode L (make_message_value (scr_message cid)) = x690 (make_message_value (scr_message cid))"
    and "der_encode L (make_message_value (scr_message cid\<lparr>mm_version := 1\<rparr>)) =
      x690 (make_message_value (scr_message cid\<lparr>mm_version := 1\<rparr>))"
  using assms by (auto simp: writes_der_def der_size_ok_def scr_encoding zeros_def)

text \<open>The literal of the scenario with the short correlation id is the encoding of a message, so only its length is wrong.\<close>

lemma short_cid_refused:
  assumes "asn1_works L" "writes_der L"
  shows "MakeMessage_load L ([0x30, 0x2e, 0x04, 0x08] @ zeros 8 @ [0xa3, 0x22, 0x04, 0x20] @ zeros 32) = Inl InvalidCorrelationId"
proof -
  have "x690 (make_message_value (scr_message (zeros 8))) =
      [0x30, 0x2e, 0x04, 0x08] @ zeros 8 @ [0xa3, 0x22, 0x04, 0x20] @ zeros 32"
    using scr_encoding(1) [of "zeros 8"] by (simp add: zeros_def)
  then have "[0x30, 0x2e, 0x04, 0x08] @ zeros 8 @ [0xa3, 0x22, 0x04, 0x20] @ zeros 32 =
      der_encode L (make_message_value (scr_message (zeros 8)))"
    using scr_written(1) [OF assms(2), of "zeros 8"] by (simp add: zeros_def)
  then show ?thesis
    using assms(1) by (simp add: MakeMessage_load_def asn1_worksD MakeMessage_dump_def require_der_def validate_cid_def)
      (simp add: scr_message_def CID_LEN_def zeros_def)
qed

lemma wire_scenarios_pass:
  assumes "asn1_works L" "writes_der L" "length cid = 16"
  shows "list_all (passes empty_envelope_context) (map (Cons a_built_scr) (wire_scenarios L cid))"
proof -
  let ?p = "Session_completion_response \<lparr>scp_h_m = zeros 32, scp_m = None\<rparr>"
  have built: "MakeMessage_build cid ?p 0 = Inr (scr_message cid)"
      "MakeMessage_build cid ?p 1 = Inr (scr_message cid\<lparr>mm_version := 1\<rparr>)"
    using assms(3) by (simp_all add: MakeMessage_build_def scr_message_def MakeMessage_init_def validate_cid_def CID_LEN_def)
  have dump: "MakeMessage_dump L (scr_message cid) = Inr (x690 (make_message_value (scr_message cid)))"
      "MakeMessage_dump L (scr_message cid\<lparr>mm_version := 1\<rparr>) = Inr (x690 (make_message_value (scr_message cid\<lparr>mm_version := 1\<rparr>)))"
    using scr_written [OF assms(2), of cid] assms(3) by (simp_all add: MakeMessage_dump_def scr_message_def)
  have load: "MakeMessage_load L (x690 (make_message_value (scr_message cid))) = Inr (scr_message cid)"
    using init_message_loads [OF assms(1,3), of ?p] scr_written(1) [OF assms(2), of cid] assms(3)
    by (simp add: scr_message_def session_completion_response_fields_def)
  have version: "mm_version (scr_message cid) = 0" by (simp add: scr_message_def)
  have enc: "x690 (make_message_value (scr_message cid)) =
        [0x30, 0x36, 0x04, 0x10] @ cid @ [0xa3, 0x22, 0x04, 0x20] @ zeros 32"
      "x690 (make_message_value (scr_message cid\<lparr>mm_version := 1\<rparr>)) =
        [0x30, 0x39, 0x02, 0x01, 0x01, 0x04, 0x10] @ cid @ [0xa3, 0x22, 0x04, 0x20] @ zeros 32"
    using scr_encoding [of cid] assms(3) by simp_all
  show ?thesis
    by (simp add: passes_def wire_scenarios_def wire_steps built dump load [unfolded enc, simplified] version enc short_cid_refused [OF assms(1,2), simplified]
        empty_envelope_context_def set_message_def slice_def assms(3))
qed

lemma non_minimal_differs [simp]: "non_minimal_length b \<noteq> b"
proof
  assume "non_minimal_length b = b"
  then have "length (non_minimal_length b) = length b" by simp
  then show False by (cases b) (simp_all add: non_minimal_length_def)
qed

text \<open>The octet \<open>0x81\<close> makes the length the long form of itself, so the encoding is BER for the same message.\<close>

lemma non_minimal_ber:
  assumes "length cid = 16"
  shows "ber (make_message_value (scr_message cid)) (non_minimal_length (x690 (make_message_value (scr_message cid))))"
proof -
  let ?m = "make_message_value (scr_message cid)"
  let ?ts = "[AOctets cid, ACtxC 3 [AOctets (zeros 32)]]"
  let ?c = "concat (map x690 ?ts)"
  have m: "?m = ASeq ?ts"
    by (simp add: make_message_value_def scr_message_def session_completion_response_fields_def)
  have enc: "x690 ?m = 0x30 # 0x36 # ?c" and len: "length ?c = 54"
    using assms by (simp_all add: m tlv_def write_tag_def der_length_def)
  have "ber (ASeq ?ts) (0x30 # [0x81, 0x36] @ ?c)"
    by (rule ber_outer_length [where L = undefined], use len assms in \<open>simp_all add: der_size_ok_def tlv_def write_tag_def der_length_def\<close>)
      (simp add: length_octets_def nat_of_bytes_def)
  moreover have nm: "non_minimal_length (x690 ?m) = 0x30 # [0x81, 0x36] @ ?c"
    unfolding enc by (simp add: non_minimal_length_def)
  ultimately show "ber ?m (non_minimal_length (x690 ?m))" unfolding nm unfolding m by blast
qed

lemma non_minimal_refused:
  assumes "reads_ber L" "writes_der L" "length cid = 16"
  shows "MakeMessage_load L (non_minimal_length (x690 (make_message_value (scr_message cid)))) = Inl NonCanonicalEncoding"
proof -
  have "der_size_ok (make_message_value (scr_message cid))"
    using scr_encoding(1) [of cid] assms(3) by (simp add: der_size_ok_def)
  then show ?thesis
    by (rule other_form_refused [OF assms(2,1) scr_valid(1) _ _ non_minimal_ber [OF assms(3)] non_minimal_differs])
      (simp add: scr_message_def)
qed

lemma indefinite_refused:
  assumes "writes_definite_lengths L" "indefinite_length b = Inr x"
  shows "\<exists>e. MakeMessage_load L x = Inl e"
proof (cases "MakeMessage_load L x")
  case (Inr m)
  then have "MakeMessage_dump L m = Inr x" by (rule make_message.load_canonical)
  then have "x = der_encode L (make_message_value m)" by (simp add: MakeMessage_dump_def)
  then obtain ts where "x = der_encode L (ASeq ts)" by (simp add: make_message_value_def)
  moreover have "x ! 1 = 0x80" using assms(2) by (auto simp: indefinite_length_def nth_append split: if_splits)
  ultimately show ?thesis using assms(1) by (simp add: writes_definite_lengths_def)
qed simp

lemma indefinite_decided:
  assumes "writes_definite_lengths L"
  shows "\<exists>x e. indefinite_length (der_encode L (make_message_value m)) = Inr x \<and> MakeMessage_load L x = Inl e"
proof -
  obtain ts where "make_message_value m = ASeq ts" by (simp add: make_message_value_def)
  then have "1 < length (der_encode L (make_message_value m))" using assms by (simp add: writes_definite_lengths_def)
  then obtain x where "indefinite_length (der_encode L (make_message_value m)) = Inr x"
    by (simp add: indefinite_length_def)
  with indefinite_refused [OF assms this] show ?thesis by blast
qed

text \<open>
  The acceptance tests of the envelope and of the message PDU pass, for every encoder that round-trips and
  all uuids: each of the five PDUs survives the wire as the alternative it was built as, a correlation
  id comes back, the version is written only when it is not the default, a correlation id of 8 bytes and a
  padded or indefinite length are refused, and a message without a sequence number or a payload cannot be built.
\<close>

theorem envelope_features_pass:
  assumes "asn1_works L" "valid_oid L ''1.2.3.4.5''" "valid_oid L ''2.16.840.1.101.3.4.1.46''"
    and "length cid = 16" "length uuid4 = 16" "reads_ber L" "writes_der L" "writes_definite_lengths L"
  shows "list_all (passes empty_envelope_context) (envelope_feature L cid uuid4 @ post_handshake_feature L uuid4)"
proof -
  note loads = init_message_loads [OF assms(1,5)]
  have init: "MakeMessage_build cid p 0 = Inr (MakeMessage_init cid p)" for p
    using assms(4) by (simp add: MakeMessage_build_def MakeMessage_init_def validate_cid_def CID_LEN_def)
  have aeads: "AeadAlgorithmList_build L [''2.16.840.1.101.3.4.1.46''] = Inr [''2.16.840.1.101.3.4.1.46'']"
    using assms(3) by (simp add: AeadAlgorithmList_build_def AEAD_OIDS_def)
  let ?scr = "MakeMessage_init cid (Session_completion_response \<lparr>scp_h_m = replicate 32 0, scp_m = None\<rparr>)"
  have scr: "scr_message cid = ?scr" by (simp add: scr_message_def zeros_def)
  have "x690 (make_message_value ?scr) = der_encode L (make_message_value ?scr)"
    using scr_written(1) [OF assms(7), of cid] assms(4) by (simp add: scr)
  then have non_minimal: "MakeMessage_load L (non_minimal_length (der_encode L (make_message_value ?scr))) = Inl NonCanonicalEncoding"
    using non_minimal_refused [OF assms(6,7,4)] by (simp add: scr)
  obtain x e where x: "indefinite_length (der_encode L (make_message_value ?scr)) = Inr x" "MakeMessage_load L x = Inl e"
    using indefinite_decided [OF assms(8), of ?scr] by blast
  show ?thesis
    unfolding envelope_feature_def post_handshake_feature_def map_append list_all_append
    using wire_scenarios_pass [OF assms(1,7,4)]
    by (simp add: passes_def envelope_steps a_MakeMessage_def non_minimal x empty_envelope_context_def Let_def set_message_def set_loaded_message_def
        attempt_to_build_def Message_init_def aeads init init_message_dumps loads init_message_loads [OF assms(1,4)]
        validate_c_m_def test_payloads assms(2,3))
qed

end
