(* ===== verification/KemFeature.thy ===== *)
theory KemFeature
  imports Behave
begin

section \<open>\<^verbatim>\<open>features/kem_key_material.feature\<close> and its steps\<close>

text \<open>
  The step functions of \<^verbatim>\<open>security_kem_key_material_steps.py\<close>, for any libraries and draws. \<open>FakeKemPublicKey\<close> is
  the wire class without its checks: its encoding is that of a record built by hand. The two steps about
  ML-KEM-512, which raise \<^verbatim>\<open>StepNotImplementedError\<close>, belong to no scenario.
\<close>

datatype kem_object = A_public_key kem_public_key | A_ciphertext kem_ciphertext

record kem_context =
  kx_public_key_material :: "bytes option"
  kx_ciphertext_material :: "bytes option"
  kx_it :: "kem_object option"
  kx_kem_length_mismatch_error :: "exn option"
  kx_unknown_kem_algorithm_error :: "exn option"
  kx_der_encoded :: "bytes option"

definition empty_kem_context :: kem_context where
  "empty_kem_context = \<lparr>kx_public_key_material = None, kx_ciphertext_material = None, kx_it = None,
     kx_kem_length_mismatch_error = None, kx_unknown_kem_algorithm_error = None, kx_der_encoded = None\<rparr>"

definition FakeKemPublicKey_build :: "bytes \<Rightarrow> oid \<Rightarrow> kem_public_key" where
  "FakeKemPublicKey_build pk_bytes oid =
     \<lparr>pk_algorithm = \<lparr>alg_algorithm = oid, alg_parameters = None\<rparr>, pk_public_key = pk_bytes\<rparr>"

subsection \<open>Given\<close>

definition nothing_to_do :: "kem_context step" where
  "nothing_to_do c = (Inr (), c)"

text \<open>\<^verbatim>\<open>generate().public_key().public_bytes(Raw, Raw)\<close>, and its \<^verbatim>\<open>encapsulate()\<close>.\<close>

definition generated_public_key :: "lib \<Rightarrow> bytes \<Rightarrow> int \<Rightarrow> bytes result" where
  "generated_public_key L r level =
     rbind (mlkem_generate L level r) (\<lambda>private. Inr (mlkem_public_bytes L private))"

definition generated_ciphertext :: "lib \<Rightarrow> bytes \<Rightarrow> bytes \<Rightarrow> int \<Rightarrow> bytes result" where
  "generated_ciphertext L r r' level =
     rbind (generated_public_key L r level) (\<lambda>pk.
     rbind (mlkem_encapsulate L level pk r') (\<lambda>(_, ciphertext). Inr ciphertext))"

definition public_key_material :: "lib \<Rightarrow> bytes \<Rightarrow> nat \<Rightarrow> string \<Rightarrow> kem_context step" where
  "public_key_material L r n algorithm c =
     (if n = 1184 \<and> algorithm = ''ML-KEM-768'' then
        (case generated_public_key L r 768 of
           Inl e \<Rightarrow> (Inl e, c)
         | Inr b \<Rightarrow> (assert_that (length b = 1184), c\<lparr>kx_public_key_material := Some b\<rparr>))
      else if n = 1568 \<and> algorithm = ''ML-KEM-1024'' then
        (case generated_public_key L r 1024 of
           Inl e \<Rightarrow> (Inl e, c)
         | Inr b \<Rightarrow> (assert_that (length b = 1568), c\<lparr>kx_public_key_material := Some b\<rparr>))
      else (Inr (), c\<lparr>kx_public_key_material := Some (replicate n 0)\<rparr>))"

definition ciphertext_material :: "lib \<Rightarrow> bytes \<Rightarrow> bytes \<Rightarrow> nat \<Rightarrow> string \<Rightarrow> kem_context step" where
  "ciphertext_material L r r' n algorithm c =
     (if n = 1088 \<and> algorithm = ''ML-KEM-768'' then
        (case generated_ciphertext L r r' 768 of
           Inl e \<Rightarrow> (Inl e, c)
         | Inr b \<Rightarrow> (assert_that (length b = 1088), c\<lparr>kx_ciphertext_material := Some b\<rparr>))
      else if n = 1568 \<and> algorithm = ''ML-KEM-1024'' then
        (case generated_ciphertext L r r' 1024 of
           Inl e \<Rightarrow> (Inl e, c)
         | Inr b \<Rightarrow> (assert_that (length b = 1568), c\<lparr>kx_ciphertext_material := Some b\<rparr>))
      else (Inr (), c\<lparr>kx_ciphertext_material := Some (replicate n 0)\<rparr>))"

definition a_DER_encoded_key_with_OID :: "lib \<Rightarrow> oid \<Rightarrow> kem_context step" where
  "a_DER_encoded_key_with_OID L oid c =
     (Inr (), c\<lparr>kx_der_encoded := Some (KemPublicKey_dump L (FakeKemPublicKey_build [0] oid))\<rparr>)"

definition a_valid_768_key :: "lib \<Rightarrow> bytes \<Rightarrow> kem_context step" where
  "a_valid_768_key L r c =
     (case generated_public_key L r 768 of
        Inl e \<Rightarrow> (Inl e, c) | Inr b \<Rightarrow> (Inr (), c\<lparr>kx_public_key_material := Some b\<rparr>))"

definition its_bytes_are_truncated :: "lib \<Rightarrow> kem_context step" where
  "its_bytes_are_truncated L c =
     (case kx_public_key_material c of
        None \<Rightarrow> (Inl AttributeError, c)
      | Some b \<Rightarrow> (Inr (), c\<lparr>kx_der_encoded := Some (KemPublicKey_dump L
          (FakeKemPublicKey_build (butlast b) ''2.16.840.1.101.3.4.4.2''))\<rparr>))"

subsection \<open>When\<close>

definition set_it :: "kem_object result \<Rightarrow> kem_context step" where
  "set_it r c = (case r of Inl e \<Rightarrow> (Inl e, c) | Inr x \<Rightarrow> (Inr (), c\<lparr>kx_it := Some x\<rparr>))"

text \<open>\<^verbatim>\<open>try\<close> around an assignment to \<^verbatim>\<open>context.it_\<close>: the exception is kept on the context.\<close>

definition noting_mismatch :: "kem_context step \<Rightarrow> kem_context step" where
  "noting_mismatch s c = (case s c of
       (Inl KemLengthMismatch, c') \<Rightarrow> (Inr (), c'\<lparr>kx_kem_length_mismatch_error := Some KemLengthMismatch\<rparr>)
     | (r, c') \<Rightarrow> (r, c'))"

definition noting_unknown :: "kem_context step \<Rightarrow> kem_context step" where
  "noting_unknown s c = (case s c of
       (Inl UnknownKemAlgorithm, c') \<Rightarrow> (Inr (), c'\<lparr>kx_unknown_kem_algorithm_error := Some UnknownKemAlgorithm\<rparr>)
     | (r, c') \<Rightarrow> (r, c'))"

definition I_build_a_KemPublicKey :: "int \<Rightarrow> kem_context step" where
  "I_build_a_KemPublicKey level c = set_it (rbind (need (kx_public_key_material c)) (\<lambda>b.
     rbind (KemPublicKey_build b (Some level) None) (\<lambda>k. Inr (A_public_key k)))) c"

definition I_build_a_KemCiphertext :: "int \<Rightarrow> kem_context step" where
  "I_build_a_KemCiphertext level c = set_it (rbind (need (kx_ciphertext_material c)) (\<lambda>b.
     rbind (KemCiphertext_build b level) (\<lambda>ct. Inr (A_ciphertext ct)))) c"

definition I_attempt_a_KemPublicKey :: "int \<Rightarrow> kem_context step" where
  "I_attempt_a_KemPublicKey level = noting_mismatch (I_build_a_KemPublicKey level)"

definition I_attempt_a_KemCiphertext :: "int \<Rightarrow> kem_context step" where
  "I_attempt_a_KemCiphertext level = noting_mismatch (I_build_a_KemCiphertext level)"

definition I_attempt_a_level :: "int \<Rightarrow> kem_context step" where
  "I_attempt_a_level level = noting_unknown (set_it
     (rbind (KemPublicKey_build [0] (Some level) None) (\<lambda>k. Inr (A_public_key k))))"

definition I_load_that_KemPublicKey :: "lib \<Rightarrow> kem_context step" where
  "I_load_that_KemPublicKey L = noting_mismatch (noting_unknown (\<lambda>c. set_it
     (rbind (need (kx_der_encoded c)) (\<lambda>b. rbind (KemPublicKey_load L b) (\<lambda>k. Inr (A_public_key k)))) c))"

subsection \<open>Then\<close>

definition the_KemPublicKey_is_built :: "kem_context step" where
  "the_KemPublicKey_is_built c = (rbind (need (kx_it c)) (\<lambda>x.
     assert_that (case x of A_public_key _ \<Rightarrow> True | A_ciphertext _ \<Rightarrow> False)), c)"

definition the_KemCiphertext_is_built :: "kem_context step" where
  "the_KemCiphertext_is_built c = (rbind (need (kx_it c)) (\<lambda>x.
     assert_that (case x of A_public_key _ \<Rightarrow> False | A_ciphertext _ \<Rightarrow> True)), c)"

fun object_algorithm :: "kem_object \<Rightarrow> algorithm_identifier" where
  "object_algorithm (A_public_key k) = pk_algorithm k"
| "object_algorithm (A_ciphertext ct) = ct_algorithm ct"

definition its_OID_is :: "oid \<Rightarrow> kem_context step" where
  "its_OID_is oid c = (rbind (need (kx_it c)) (\<lambda>x. assert_that (alg_algorithm (object_algorithm x) = oid)), c)"

definition its_parameters_are_absent :: "kem_context step" where
  "its_parameters_are_absent c =
     (rbind (need (kx_it c)) (\<lambda>x. assert_that (alg_parameters (object_algorithm x) = None)), c)"

definition a_mismatch_is_raised :: "kem_context step" where
  "a_mismatch_is_raised c = (rbind (need (kx_kem_length_mismatch_error c)) (\<lambda>_. Inr ()), c)"

definition an_unknown_algorithm_is_raised :: "kem_context step" where
  "an_unknown_algorithm_is_raised c = (rbind (need (kx_unknown_kem_algorithm_error c)) (\<lambda>_. Inr ()), c)"

subsection \<open>The feature\<close>

definition kem_feature :: "lib \<Rightarrow> bytes \<Rightarrow> bytes \<Rightarrow> kem_context step list list" where
  "kem_feature L r r' = map (\<lambda>ss. nothing_to_do # nothing_to_do # ss)
    [[public_key_material L r 1184 ''ML-KEM-768'', I_build_a_KemPublicKey 768, the_KemPublicKey_is_built,
      its_OID_is ''2.16.840.1.101.3.4.4.2'', its_parameters_are_absent],
     [public_key_material L r 1568 ''ML-KEM-1024'', I_build_a_KemPublicKey 1024, the_KemPublicKey_is_built,
      its_OID_is ''2.16.840.1.101.3.4.4.3'', its_parameters_are_absent],
     [ciphertext_material L r r' 1088 ''ML-KEM-768'', I_build_a_KemCiphertext 768, the_KemCiphertext_is_built,
      its_OID_is ''2.16.840.1.101.3.4.4.2''],
     [ciphertext_material L r r' 1568 ''ML-KEM-1024'', I_build_a_KemCiphertext 1024, the_KemCiphertext_is_built,
      its_OID_is ''2.16.840.1.101.3.4.4.3''],
     [public_key_material L r 1183 ''ML-KEM-768'', I_attempt_a_KemPublicKey 768, a_mismatch_is_raised],
     [ciphertext_material L r r' 1089 ''ML-KEM-768'', I_attempt_a_KemCiphertext 768, a_mismatch_is_raised],
     [I_attempt_a_level 999, an_unknown_algorithm_is_raised],
     [a_DER_encoded_key_with_OID L ''1.2.3.4.5'', I_load_that_KemPublicKey L, an_unknown_algorithm_is_raised],
     [a_valid_768_key L r, its_bytes_are_truncated L, I_load_that_KemPublicKey L, a_mismatch_is_raised]]"

lemma generated_material:
  assumes "mlkem_works L" "level = 768 \<or> level = 1024"
  obtains pk ct where "generated_public_key L r level = Inr pk" "length pk = fips203_pk_len level"
    and "generated_ciphertext L r r' level = Inr ct" "length ct = fips203_ct_len level"
proof -
  obtain k where k: "mlkem_generate L level r = Inr k" "priv_level k = level" "mlkem_key_works L k"
    using assms by (rule mlkem_worksE)
  obtain ss ct where "mlkem_encapsulate L (priv_level k) (mlkem_public_bytes L k) r' = Inr (ss, ct)"
      "length ct = fips203_ct_len (priv_level k)"
    using k(3) by (rule mlkem_key_worksE)
  with k show thesis
    by (intro that) (auto simp: generated_public_key_def generated_ciphertext_def mlkem_key_works_def)
qed

lemma fake_key_refused:
  assumes "asn1_works L" "valid_oid L oid"
  shows "KemPublicKey_load L (KemPublicKey_dump L (FakeKemPublicKey_build b oid)) =
    rbind (KemPublicKey_validate_length (FakeKemPublicKey_build b oid)) (\<lambda>_. Inr (FakeKemPublicKey_build b oid))"
proof -
  have "asn1_valid L (kem_public_key_value (FakeKemPublicKey_build b oid))"
    using assms(2) by (simp add: kem_public_key_value_def FakeKemPublicKey_build_def alg_value_def)
  then show ?thesis using assms(1) by (simp add: KemPublicKey_load_def KemPublicKey_dump_def asn1_worksD
      require_der_def)
qed

lemma FakeKemPublicKey_fields [simp]:
  "pk_algorithm (FakeKemPublicKey_build b oid) = \<lparr>alg_algorithm = oid, alg_parameters = None\<rparr>"
  "pk_public_key (FakeKemPublicKey_build b oid) = b"
  by (simp_all add: FakeKemPublicKey_build_def)

lemmas kem_steps = nothing_to_do_def public_key_material_def ciphertext_material_def a_DER_encoded_key_with_OID_def
  a_valid_768_key_def its_bytes_are_truncated_def I_build_a_KemPublicKey_def I_build_a_KemCiphertext_def
  I_attempt_a_KemPublicKey_def I_attempt_a_KemCiphertext_def I_attempt_a_level_def I_load_that_KemPublicKey_def
  the_KemPublicKey_is_built_def the_KemCiphertext_is_built_def its_OID_is_def its_parameters_are_absent_def
  a_mismatch_is_raised_def an_unknown_algorithm_is_raised_def set_it_def noting_mismatch_def noting_unknown_def

text \<open>
  The acceptance tests of the KEM wire structures pass whatever keys the libraries draw: generated material
  builds at its level under the OID of RFC 9935, a byte too few or too many, an unknown level or OID and a
  truncated key are refused with the exception that names the reason.
\<close>

theorem kem_feature_passes:
  assumes "mlkem_works L" "asn1_works L" "valid_oid L ''1.2.3.4.5''" "valid_oid L ''2.16.840.1.101.3.4.4.2''"
  shows "list_all (passes empty_kem_context) (kem_feature L r r')"
proof -
  obtain pk ct where m: "generated_public_key L r 768 = Inr pk" "length pk = 1184"
      "generated_ciphertext L r r' 768 = Inr ct" "length ct = 1088"
    by (rule generated_material [OF assms(1), of 768 r r']) (simp_all add: fips203_pk_len_def fips203_ct_len_def)
  obtain pk' ct' where m': "generated_public_key L r 1024 = Inr pk'" "length pk' = 1568"
      "generated_ciphertext L r r' 1024 = Inr ct'" "length ct' = 1568"
    by (rule generated_material [OF assms(1), of 1024 r r']) (simp_all add: fips203_pk_len_def fips203_ct_len_def)
  show ?thesis
    unfolding kem_feature_def
    by (simp add: passes_def kem_steps empty_kem_context_def Let_def m m' fake_key_refused [OF assms(2)] assms(3,4)
        KemPublicKey_build_def KemCiphertext_build_def KemPublicKey_validate_length_def
        KemCiphertext_validate_length_def kem_alg_def MLKEM_OIDS_def OID_TO_LEVEL_def MLKEM_PK_LEN_def MLKEM_CT_LEN_def)
qed

end
