(* ===== verification/KeyIdFeature.thy ===== *)
theory KeyIdFeature
  imports Behave Backend
begin

section \<open>\<^verbatim>\<open>features/key_id.feature\<close> and its steps\<close>

text \<open>
  The step functions of \<^verbatim>\<open>key_id_steps.py\<close>. A \<^verbatim>\<open>KeyId\<close> is a Python object without value equality: \<^verbatim>\<open>!=\<close> compares
  identities, so the context keeps with every id the number of its object.
\<close>

record key_id_context =
  ix_pk_a :: "(kem_public_key \<times> bytes) option"
  ix_pk_a_relabelled :: "kem_public_key option"
  ix_key_id_a :: "(nat \<times> key_id) option"
  ix_key_id_a_relabelled :: "(nat \<times> key_id) option"
  ix_objects :: nat

definition empty_key_id_context :: key_id_context where
  "empty_key_id_context = \<lparr>ix_pk_a = None, ix_pk_a_relabelled = None, ix_key_id_a = None,
     ix_key_id_a_relabelled = None, ix_objects = 0\<rparr>"

definition a_valid_pkA :: "lib \<Rightarrow> bytes \<Rightarrow> key_id_context step" where
  "a_valid_pkA L r = assign (create_mlkem_keypair L r 768) (\<lambda>pk c. c\<lparr>ix_pk_a := Some pk\<rparr>)"

definition pkA_relabelled :: "key_id_context step" where
  "pkA_relabelled c = assign (need (ix_pk_a c)) (\<lambda>(pk, _) c. c\<lparr>ix_pk_a_relabelled :=
     Some (pk\<lparr>pk_algorithm := (pk_algorithm pk)\<lparr>alg_algorithm := ''2.16.840.1.101.3.4.4.3''\<rparr>\<rparr>)\<rparr>) c"

definition I_build_a_KeyId_for_pkA :: "lib \<Rightarrow> key_id_context step" where
  "I_build_a_KeyId_for_pkA L c = assign (rbind (need (ix_pk_a c)) (\<lambda>(pk, _). KeyId_build L pk ''sha256''))
     (\<lambda>kid c. c\<lparr>ix_key_id_a := Some (ix_objects c, kid), ix_objects := ix_objects c + 1\<rparr>) c"

definition I_build_a_KeyId_for_pkA_relabelled :: "lib \<Rightarrow> key_id_context step" where
  "I_build_a_KeyId_for_pkA_relabelled L c = assign (rbind (need (ix_pk_a_relabelled c)) (\<lambda>pk. KeyId_build L pk ''sha256''))
     (\<lambda>kid c. c\<lparr>ix_key_id_a_relabelled := Some (ix_objects c, kid), ix_objects := ix_objects c + 1\<rparr>) c"

definition key_hash_is_digest_of_encoding :: "lib \<Rightarrow> key_id_context step" where
  "key_hash_is_digest_of_encoding L c = (rbind (need (ix_pk_a c)) (\<lambda>(pk, _). rbind (need (ix_key_id_a c)) (\<lambda>(_, kid).
     assert_that (kid_key_hash kid = sha256 L (KemPublicKey_dump L pk)))), c)"

definition hash_algorithm_is_sha256 :: "key_id_context step" where
  "hash_algorithm_is_sha256 c = (rbind (need (ix_key_id_a c)) (\<lambda>(_, kid).
     assert_that (alg_algorithm (kid_hash_algorithm kid) = ''2.16.840.1.101.3.4.2.1'')), c)"

definition key_hash_is_not_digest_of_raw_bytes :: "lib \<Rightarrow> key_id_context step" where
  "key_hash_is_not_digest_of_raw_bytes L c = (rbind (need (ix_pk_a c)) (\<lambda>(pk, _). rbind (need (ix_key_id_a c)) (\<lambda>(_, kid).
     assert_that (kid_key_hash kid \<noteq> sha256 L (pk_public_key pk)))), c)"

definition the_two_KeyIds_are_not_equal :: "key_id_context step" where
  "the_two_KeyIds_are_not_equal c = (rbind (need (ix_key_id_a c)) (\<lambda>(x, _).
     rbind (need (ix_key_id_a_relabelled c)) (\<lambda>(y, _). assert_that (x \<noteq> y))), c)"

definition key_id_feature :: "lib \<Rightarrow> bytes \<Rightarrow> key_id_context step list list" where
  "key_id_feature L r = map (Cons (a_valid_pkA L r))
    [[I_build_a_KeyId_for_pkA L, key_hash_is_digest_of_encoding L, hash_algorithm_is_sha256],
     [I_build_a_KeyId_for_pkA L, key_hash_is_not_digest_of_raw_bytes L],
     [pkA_relabelled, I_build_a_KeyId_for_pkA L, I_build_a_KeyId_for_pkA_relabelled L, the_two_KeyIds_are_not_equal]]"

text \<open>\<^verbatim>\<open>hashlib.new("sha256", x)\<close> is \<^verbatim>\<open>hashlib.sha256(x)\<close>, and SHA-256 has its OID.\<close>

definition sha256_by_name :: "lib \<Rightarrow> bool" where
  "sha256_by_name L \<longleftrightarrow> (\<forall>b. hash_new L ''sha256'' b = Inr (sha256 L b)) \<and>
     digest_algorithm L ''sha256'' = Inr \<lparr>alg_algorithm = ''2.16.840.1.101.3.4.2.1'', alg_parameters = None\<rparr>"

lemmas key_id_steps = a_valid_pkA_def pkA_relabelled_def I_build_a_KeyId_for_pkA_def
  I_build_a_KeyId_for_pkA_relabelled_def key_hash_is_digest_of_encoding_def hash_algorithm_is_sha256_def
  key_hash_is_not_digest_of_raw_bytes_def the_two_KeyIds_are_not_equal_def

text \<open>
  The acceptance tests of the key identifiers pass for every key the backend draws, unless SHA-256 maps the
  encoding of the key and its raw bytes to one digest. The last scenario passes for any two ids, equal or not.
\<close>

theorem key_id_feature_passes:
  assumes "mlkem_works L" "sha256_by_name L"
    and "\<forall>pk b. create_mlkem_keypair L r 768 = Inr (pk, b) \<longrightarrow> sha256 L (KemPublicKey_dump L pk) \<noteq> sha256 L (pk_public_key pk)"
  shows "list_all (passes empty_key_id_context) (key_id_feature L r)"
proof -
  obtain k pk where c: "create_mlkem_keypair L r 768 = Inr (pk, private_bytes_raw k)"
    by (rule create_mlkem_keypair_works [OF assms(1), of 768 r]) simp_all
  have b: "KeyId_build L pk' ''sha256'' = Inr \<lparr>kid_hash_algorithm =
      \<lparr>alg_algorithm = ''2.16.840.1.101.3.4.2.1'', alg_parameters = None\<rparr>, kid_key_hash = sha256 L (KemPublicKey_dump L pk')\<rparr>" for pk'
    using assms(2) by (simp add: KeyId_build_def sha256_by_name_def)
  show ?thesis
    using assms(3) c unfolding key_id_feature_def
    by (simp add: passes_def key_id_steps empty_key_id_context_def b)
qed

end
