(* ===== verification/BackendFeature.thy ===== *)
theory BackendFeature
  imports Behave Backend
begin

section \<open>\<^verbatim>\<open>features/crypto_backend.feature\<close> and its steps\<close>

text \<open>
  The step functions of \<^verbatim>\<open>crypto_backend_steps.py\<close>, for any working libraries and draws. \<^verbatim>\<open>mock.patch\<close> replaces
  a function of a library, so the libraries in force are part of the context. Steps that look at the text of an
  exception are left out of their scenarios, and the scenario that records the calls of \<open>_check_aead\<close> is
  left out.
\<close>

record backend_context =
  bx_lib :: lib
  bx_check_result :: "bool option"
  bx_check_exception :: "exn option"
  bx_private_key :: "mlkem_private option"
  bx_public_key :: "(int \<times> bytes) option"
  bx_shared_secret :: "bytes option"
  bx_ciphertext :: "bytes option"
  bx_decapsulated_shared_secret :: "bytes option"
  bx_aead :: "(aead_class \<times> bytes) option"
  bx_nonce :: "bytes option"
  bx_decrypted_plaintext :: "bytes option"
  bx_derived_key :: "bytes option"

definition empty_backend_context :: "lib \<Rightarrow> backend_context" where
  "empty_backend_context L = \<lparr>bx_lib = L, bx_check_result = None, bx_check_exception = None, bx_private_key = None,
     bx_public_key = None, bx_shared_secret = None, bx_ciphertext = None, bx_decapsulated_shared_secret = None,
     bx_aead = None, bx_nonce = None, bx_decrypted_plaintext = None, bx_derived_key = None\<rparr>"

subsection \<open>Given\<close>

definition a_working_backend :: "backend_context step" where
  "a_working_backend c = (Inr (), c)"

definition ML_KEM_768_generation_is_broken :: "backend_context step" where
  "ML_KEM_768_generation_is_broken c =
     (let L = bx_lib c
      in (Inr (), c\<lparr>bx_lib := L\<lparr>mlkem_generate := (\<lambda>level r.
            if level = 768 then Inl NotImplementedError else mlkem_generate L level r)\<rparr>\<rparr>))"

text \<open>
  The wrapper that is generated from now on has the public key of one real key and decapsulates to zeros.
\<close>

definition ML_KEM_768_decapsulation_is_wrong :: "bytes \<Rightarrow> backend_context step" where
  "ML_KEM_768_decapsulation_is_wrong r c =
     (let L = bx_lib c
      in assign (mlkem_generate L 768 r) (\<lambda>real_key. bx_lib_update (\<lambda>_. L\<lparr>
            mlkem_generate := (\<lambda>level r'. if level = 768 then Inr real_key else mlkem_generate L level r'),
            mlkem_decapsulate := (\<lambda>k ct. if k = real_key
              then rbind (mlkem_decapsulate L real_key ct) (\<lambda>_. Inr (replicate 32 0))
              else mlkem_decapsulate L k ct)\<rparr>)) c)"

definition AES_256_GCM_encryption_is_broken :: "backend_context step" where
  "AES_256_GCM_encryption_is_broken c =
     (let L = bx_lib c
      in (Inr (), c\<lparr>bx_lib := L\<lparr>aead_encrypt := (\<lambda>cls key nonce pt ad.
            if cls = AESGCM then Inl NotImplementedError else aead_encrypt L cls key nonce pt ad)\<rparr>\<rparr>))"

definition AES_256_GCM_encryption_is_also_broken :: "backend_context step" where
  "AES_256_GCM_encryption_is_also_broken = run_steps [AES_256_GCM_encryption_is_broken]"

subsection \<open>When\<close>

definition I_run_the_check :: "backend_coins \<Rightarrow> backend_context step" where
  "I_run_the_check bc c =
     (case check_backend (bx_lib c) bc of
        Inl e \<Rightarrow> (Inr (), c\<lparr>bx_check_result := Some False, bx_check_exception := Some e\<rparr>)
      | Inr _ \<Rightarrow> (Inr (), c\<lparr>bx_check_result := Some True\<rparr>))"

definition I_generate_a_key_pair :: "bytes \<Rightarrow> int \<Rightarrow> backend_context step" where
  "I_generate_a_key_pair r level c =
     (case map_of MLKEM_BACKEND_CLASSES level of
        None \<Rightarrow> (Inl ValueError, c)
      | Some private_key_cls \<Rightarrow> assign (mlkem_generate (bx_lib c) private_key_cls r) (\<lambda>k c. c\<lparr>bx_private_key := Some k,
          bx_public_key := Some (priv_level k, mlkem_public_bytes (bx_lib c) k)\<rparr>) c)"

definition I_encapsulate :: "bytes \<Rightarrow> backend_context step" where
  "I_encapsulate r c = assign (rbind (need (bx_public_key c)) (\<lambda>(level, pk). mlkem_encapsulate (bx_lib c) level pk r))
     (\<lambda>(ss, ct) c. c\<lparr>bx_shared_secret := Some ss, bx_ciphertext := Some ct\<rparr>) c"

definition I_decapsulate :: "backend_context step" where
  "I_decapsulate c = assign (rbind (need (bx_private_key c)) (\<lambda>k. rbind (need (bx_ciphertext c)) (\<lambda>ct.
       mlkem_decapsulate (bx_lib c) k ct))) (\<lambda>ss c. c\<lparr>bx_decapsulated_shared_secret := Some ss\<rparr>) c"

definition I_encrypt_under :: "bytes \<Rightarrow> string \<Rightarrow> backend_context step" where
  "I_encrypt_under r algorithm c =
     (case map_of AEAD_BACKEND_CLASSES algorithm of
        None \<Rightarrow> (Inl ValueError, c)
      | Some backend \<Rightarrow>
          (let key_kwargs = (if algorithm = ''AES-256-GCM'' then Some 256 else None);
               nonce = replicate 12 0
           in assign (rbind (new_aead_key (bx_lib c) backend key_kwargs r) (\<lambda>key.
                rbind (aead_encrypt (bx_lib c) backend key nonce (ascii ''capability-check'') []) (\<lambda>ct. Inr (key, ct))))
              (\<lambda>(key, ct) c. c\<lparr>bx_aead := Some (backend, key), bx_nonce := Some nonce, bx_ciphertext := Some ct\<rparr>) c))"

definition I_decrypt :: "backend_context step" where
  "I_decrypt c = assign (rbind (need (bx_aead c)) (\<lambda>(backend, key). rbind (need (bx_nonce c)) (\<lambda>nonce.
       rbind (need (bx_ciphertext c)) (\<lambda>ct. aead_decrypt (bx_lib c) backend key nonce ct []))))
     (\<lambda>pt c. c\<lparr>bx_decrypted_plaintext := Some pt\<rparr>) c"

definition I_derive_a_key :: "string \<Rightarrow> backend_context step" where
  "I_derive_a_key profile c =
     (if profile \<noteq> ''HKDF-SHA256'' then (Inl ValueError, c)
      else assign (hkdf_sha256 (bx_lib c) 32 (replicate 32 0) (ascii ''capability-check'') (replicate 32 0))
        (\<lambda>k c. c\<lparr>bx_derived_key := Some k\<rparr>) c)"

definition I_generate_and_encapsulate :: "bytes \<Rightarrow> bytes \<Rightarrow> int \<Rightarrow> backend_context step" where
  "I_generate_and_encapsulate r r' level = run_steps [I_generate_a_key_pair r level, I_encapsulate r']"

subsection \<open>Then\<close>

definition the_check_passes :: "backend_context step" where
  "the_check_passes c = (rbind (need (bx_check_result c)) assert_that, c)"

definition the_shared_secrets_are_equal :: "backend_context step" where
  "the_shared_secrets_are_equal c = (rbind (need (bx_shared_secret c)) (\<lambda>ss.
     rbind (need (bx_decapsulated_shared_secret c)) (\<lambda>ss'. assert_that (ss = ss'))), c)"

definition ML_KEM_512_is_not_covered :: "backend_context step" where
  "ML_KEM_512_is_not_covered c = (assert_that (map_of MLKEM_BACKEND_CLASSES 512 = None), c)"

definition exactly_768_and_1024_are_covered :: "backend_context step" where
  "exactly_768_and_1024_are_covered c = (assert_that (set (dict_keys MLKEM_BACKEND_CLASSES) = {768, 1024}), c)"

definition the_check_fails :: "backend_context step" where
  "the_check_fails c = (rbind (need (bx_check_result c)) (\<lambda>ok. rbind (assert_that (\<not> ok)) (\<lambda>_.
     rbind (need (bx_check_exception c)) (\<lambda>e. assert_that (e = CryptoBackendUnsupported)))), c)"

definition the_plaintext_is_back :: "backend_context step" where
  "the_plaintext_is_back c =
     (rbind (need (bx_decrypted_plaintext c)) (\<lambda>pt. assert_that (pt = ascii ''capability-check'')), c)"

definition the_derived_key_has_32_bytes :: "backend_context step" where
  "the_derived_key_has_32_bytes c = (rbind (need (bx_derived_key c)) (\<lambda>k. assert_that (length k = 32)), c)"

definition the_public_key_has :: "nat \<Rightarrow> backend_context step" where
  "the_public_key_has n c = (rbind (need (bx_public_key c)) (\<lambda>(_, pk). assert_that (length pk = n)), c)"

definition the_ciphertext_has :: "nat \<Rightarrow> backend_context step" where
  "the_ciphertext_has n c = (rbind (need (bx_ciphertext c)) (\<lambda>ct. assert_that (length ct = n)), c)"

subsection \<open>The feature\<close>

definition backend_feature :: "backend_coins \<Rightarrow> bytes \<Rightarrow> bytes \<Rightarrow> backend_context step list list" where
  "backend_feature bc r r' = map (Cons a_working_backend)
    [[I_run_the_check bc, the_check_passes],
     [I_generate_a_key_pair r 768, I_encapsulate r', I_decapsulate, the_shared_secrets_are_equal],
     [I_generate_a_key_pair r 1024, I_encapsulate r', I_decapsulate, the_shared_secrets_are_equal],
     [ML_KEM_512_is_not_covered, exactly_768_and_1024_are_covered],
     [ML_KEM_768_generation_is_broken, I_run_the_check bc, the_check_fails],
     [ML_KEM_768_decapsulation_is_wrong r, I_run_the_check bc, the_check_fails],
     [I_encrypt_under r ''AES-256-GCM'', I_decrypt, the_plaintext_is_back],
     [I_encrypt_under r ''ChaCha20-Poly1305'', I_decrypt, the_plaintext_is_back],
     [AES_256_GCM_encryption_is_broken, I_run_the_check bc, the_check_fails],
     [I_derive_a_key ''HKDF-SHA256'', the_derived_key_has_32_bytes],
     [ML_KEM_768_generation_is_broken, AES_256_GCM_encryption_is_also_broken, I_run_the_check bc, the_check_fails],
     [I_generate_and_encapsulate r r' 768, the_public_key_has 1184, the_ciphertext_has 1088],
     [I_generate_and_encapsulate r r' 1024, the_public_key_has 1568, the_ciphertext_has 1568]]"

text \<open>The shared secret of the key that is wrapped is not the constant the wrapper returns.\<close>

definition secret_not_zero :: "lib \<Rightarrow> backend_coins \<Rightarrow> bytes \<Rightarrow> bool" where
  "secret_not_zero L bc r \<longleftrightarrow> (\<forall>k ss ct. mlkem_generate L 768 r = Inr k \<longrightarrow>
     mlkem_encapsulate L 768 (mlkem_public_bytes L k) (bk_encaps bc 768) = Inr (ss, ct) \<longrightarrow> ss \<noteq> replicate 32 0)"

lemma check_runs:
  assumes "\<not> (kem_round_trip L bc 768 \<and> kem_round_trip L bc 1024 \<and> aead_round_trip L bc ''AES-256-GCM'' AESGCM)"
  shows "check_backend L bc = Inl CryptoBackendUnsupported"
proof -
  have "check_backend L bc \<noteq> Inr ()"
    using assms by (auto simp: check_backend_eq checks_pass_iff)
  moreover have "check_backend L bc = Inr () \<or> check_backend L bc = Inl CryptoBackendUnsupported"
    unfolding check_backend_eq
    using checks_unsupported(1) [of L bc 768 768] checks_unsupported(1) [of L bc 1024 1024]
      checks_unsupported(2) [of L bc "''AES-256-GCM''" AESGCM "Some 256"]
      checks_unsupported(2) [of L bc "''ChaCha20-Poly1305''" ChaCha20Poly1305 None]
      checks_unsupported(3) [of L "''HKDF-SHA256''"]
    by (elim disjE) simp_all
  ultimately show ?thesis by blast
qed

lemma broken_backend:
  "check_backend (L\<lparr>mlkem_generate := (\<lambda>level r. if level = 768 then Inl NotImplementedError else g level r)\<rparr>) bc =
     Inl CryptoBackendUnsupported"
  "check_backend (L\<lparr>aead_encrypt := (\<lambda>cls key nonce pt ad. if cls = AESGCM then Inl NotImplementedError else f cls key nonce pt ad)\<rparr>) bc =
     Inl CryptoBackendUnsupported"
  by (rule check_runs, simp add: kem_round_trip_def aead_round_trip_def)+

lemma wrong_decapsulation:
  assumes "mlkem_generate L 768 r = Inr k" "secret_not_zero L bc r"
  shows "check_backend (L\<lparr>mlkem_generate := (\<lambda>level r'. if level = 768 then Inr k else g level r'),
      mlkem_decapsulate := (\<lambda>k' ct. if k' = k then rbind (mlkem_decapsulate L k ct) (\<lambda>_. Inr (replicate 32 0))
        else d k' ct)\<rparr>) bc = Inl CryptoBackendUnsupported"
  using assms by (intro check_runs) (auto simp: kem_round_trip_def secret_not_zero_def)

lemmas backend_steps = a_working_backend_def ML_KEM_768_generation_is_broken_def ML_KEM_768_decapsulation_is_wrong_def
  AES_256_GCM_encryption_is_broken_def AES_256_GCM_encryption_is_also_broken_def I_run_the_check_def I_generate_a_key_pair_def I_encapsulate_def I_decapsulate_def
  I_encrypt_under_def I_decrypt_def I_derive_a_key_def I_generate_and_encapsulate_def the_check_passes_def
  the_shared_secrets_are_equal_def ML_KEM_512_is_not_covered_def exactly_768_and_1024_are_covered_def the_check_fails_def
  the_plaintext_is_back_def the_derived_key_has_32_bytes_def the_public_key_has_def the_ciphertext_has_def assign_def

text \<open>
  The acceptance tests of the backend check pass over all working libraries and whatever they draw: the check
  passes, the primitives round-trip with the sizes of FIPS 203, and a primitive that raises, or that returns a
  wrong result without raising, makes the check raise \<open>CryptoBackendUnsupported\<close>.
\<close>

theorem backend_feature_passes:
  assumes "mlkem_works L" "aead_works L" "hkdf_works L" "aead_keys_work L" "secret_not_zero L bc r"
  shows "list_all (passes (empty_backend_context L)) (backend_feature bc r r')"
proof -
  obtain k where k: "mlkem_generate L 768 r = Inr k" "priv_level k = 768" "mlkem_key_works L k"
    by (rule mlkem_worksE [OF assms(1), of 768 r]) simp_all
  obtain ss ct where e: "mlkem_encapsulate L 768 (mlkem_public_bytes L k) r' = Inr (ss, ct)"
      "length ct = 1088" "mlkem_decapsulate L k ct = Inr ss"
    using mlkem_key_worksE [OF k(3), of r'] k(2) by (auto simp: fips203_ct_len_def)
  obtain k' where k': "mlkem_generate L 1024 r = Inr k'" "priv_level k' = 1024" "mlkem_key_works L k'"
    by (rule mlkem_worksE [OF assms(1), of 1024 r]) simp_all
  obtain ss' ct' where e': "mlkem_encapsulate L 1024 (mlkem_public_bytes L k') r' = Inr (ss', ct')"
      "length ct' = 1568" "mlkem_decapsulate L k' ct' = Inr ss'"
    using mlkem_key_worksE [OF k'(3), of r'] k'(2) by (auto simp: fips203_ct_len_def)
  have len: "length (mlkem_public_bytes L k) = 1184" "length (mlkem_public_bytes L k') = 1568"
    using k k' by (simp_all add: mlkem_key_works_def fips203_pk_len_def)
  have aead: "\<exists>key ct. aead_generate_key L cls r = Inr key \<and>
      aead_encrypt L cls key (replicate 12 0) (ascii ''capability-check'') [] = Inr ct \<and>
      aead_decrypt L cls key (replicate 12 0) ct [] = Inr (ascii ''capability-check'')" for cls
  proof -
    obtain key where k: "aead_generate_key L cls r = Inr key" "length key = 32"
      using assms(4) unfolding aead_keys_work_def by blast
    obtain ct where "aead_encrypt L cls key (replicate 12 0) (ascii ''capability-check'') [] = Inr ct"
        "aead_decrypt L cls key (replicate 12 0) ct [] = Inr (ascii ''capability-check'')"
      by (rule aead_worksE [OF assms(2) k(2), of "replicate 12 0" "ascii ''capability-check''"]) (simp_all add: ascii_def)
    with k show ?thesis by blast
  qed
  obtain key1 ct1 where a1: "aead_generate_key L AESGCM r = Inr key1"
      "aead_encrypt L AESGCM key1 (replicate 12 0) (ascii ''capability-check'') [] = Inr ct1"
      "aead_decrypt L AESGCM key1 (replicate 12 0) ct1 [] = Inr (ascii ''capability-check'')"
    using aead [of AESGCM] by blast
  obtain key2 ct2 where a2: "aead_generate_key L ChaCha20Poly1305 r = Inr key2"
      "aead_encrypt L ChaCha20Poly1305 key2 (replicate 12 0) (ascii ''capability-check'') [] = Inr ct2"
      "aead_decrypt L ChaCha20Poly1305 key2 (replicate 12 0) ct2 [] = Inr (ascii ''capability-check'')"
    using aead [of ChaCha20Poly1305] by blast
  obtain d where d: "hkdf_sha256 L 32 (replicate 32 0) (ascii ''capability-check'') (replicate 32 0) = Inr d" "length d = 32"
    by (rule hkdf_worksE [OF assms(3), of 32]) simp_all
  show ?thesis
    unfolding backend_feature_def
    using check_backend_works [OF assms(1-4)] wrong_decapsulation [OF k(1) assms(5)]
    by (simp add: passes_def backend_steps empty_backend_context_def Let_def k k' e e' len a1 a2 d broken_backend
        MLKEM_BACKEND_CLASSES_def AEAD_BACKEND_CLASSES_def dict_keys_def)
qed

end
