(* ===== verification/DirectorySteps.thy ===== *)
theory DirectorySteps
  imports Behave Backend Keystore
begin

unbundle bit_operations_syntax

section \<open>The steps of the three \<^verbatim>\<open>key_directory_*.feature\<close> files\<close>

text \<open>
  The step functions of \<^verbatim>\<open>key_directory_common_steps.py\<close>, \<^verbatim>\<open>..._lifecycle_steps.py\<close>, \<^verbatim>\<open>..._public_keys_steps.py\<close> and
  \<^verbatim>\<open>..._private_keys_steps.py\<close> over the model of the key directory. The context holds the files below
  \<open>context.key_directory_path\<close>; what a step draws (random bytes, the name of a temporary file) is its argument. A
  pair of attributes \<open>x_succeeded\<close>, \<open>x_exception\<close>, always set together, is one outcome.

  Left out: the steps that look for the text \<^verbatim>\<open>raw master key bytes\<close> in files, at the text of an exception,
  or count the calls of \<^verbatim>\<open>KeyId.build\<close>. The steps that build BER forms byte by byte are in theory StoredForms.
\<close>

record directory_context =
  dx_files :: filesystem
  dx_key_directory :: "key_directory option"
  dx_passphrase :: "string option"
  dx_create_error :: "exn option"
  dx_open_error :: "exn option"
  dx_pk :: "(kem_public_key \<times> bytes) option"
  dx_pk2 :: "(kem_public_key \<times> bytes) option"
  dx_unregistered_key :: "(kem_public_key \<times> bytes) option"
  dx_private_key :: "(kem_public_key \<times> bytes) option"
  dx_kid :: "key_id option"
  dx_kid2 :: "key_id option"
  dx_unregistered_kid :: "key_id option"
  dx_sha384_kid :: "key_id option"
  dx_add_public_key :: "unit result option"
  dx_add_private_key :: "unit result option"
  dx_retrieve_private_key :: "unit result option"
  dx_retrieve_public_key :: "unit result option"
  dx_retrieve_unregistered :: "unit result option"
  dx_retrieved_public_key :: "kem_public_key option"
  dx_retrieved_private_key :: "bytes option"
  dx_raw_public_key_bytes :: "bytes option"
  dx_stored_entry :: "stored_private_key_entry option"

definition no_files :: filesystem where
  "no_files = \<lparr>fs_files = [], fs_dirs = []\<rparr>"

definition empty_directory_context :: directory_context where
  "empty_directory_context = \<lparr>dx_files = no_files, dx_key_directory = None, dx_passphrase = None,
     dx_create_error = None, dx_open_error = None, dx_pk = None, dx_pk2 = None, dx_unregistered_key = None,
     dx_private_key = None, dx_kid = None, dx_kid2 = None, dx_unregistered_kid = None, dx_sha384_kid = None,
     dx_add_public_key = None, dx_add_private_key = None, dx_retrieve_private_key = None,
     dx_retrieve_public_key = None, dx_retrieve_unregistered = None, dx_retrieved_public_key = None,
     dx_retrieved_private_key = None, dx_raw_public_key_bytes = None, dx_stored_entry = None\<rparr>"

text \<open>
  \<^verbatim>\<open>context.x = context.key_directory.method(...)\<close>: the call may read attributes, changes the files, and its
  value is assigned.
\<close>

definition call :: "(directory_context \<Rightarrow> key_directory \<Rightarrow> filesystem \<Rightarrow> 'a result \<times> filesystem) \<Rightarrow>
    ('a \<Rightarrow> directory_context \<Rightarrow> directory_context) \<Rightarrow> directory_context step" where
  "call f set_attr c = (case dx_key_directory c of
       None \<Rightarrow> (Inl AttributeError, c)
     | Some K \<Rightarrow> (case f c K (dx_files c) of (r, fs) \<Rightarrow> assign r set_attr (c\<lparr>dx_files := fs\<rparr>)))"

definition with_attr :: "'a option \<Rightarrow> ('a \<Rightarrow> filesystem \<Rightarrow> 'b result \<times> filesystem) \<Rightarrow> filesystem \<Rightarrow> 'b result \<times> filesystem" where
  "with_attr x f fs = (case x of None \<Rightarrow> (Inl AttributeError, fs) | Some v \<Rightarrow> f v fs)"

definition reading :: "(filesystem \<Rightarrow> 'b result) \<Rightarrow> filesystem \<Rightarrow> 'b result \<times> filesystem" where
  "reading f fs = (f fs, fs)"

text \<open>\<^verbatim>\<open>try: ... except Exception as e: ...\<close>, the outcome assigned.\<close>

definition trying :: "directory_context step \<Rightarrow> (unit result \<Rightarrow> directory_context \<Rightarrow> directory_context) \<Rightarrow> directory_context step" where
  "trying s set_attr c = (case s c of (r, c') \<Rightarrow> (Inr (), set_attr r c'))"

definition check :: "'a option \<Rightarrow> ('a \<Rightarrow> bool) \<Rightarrow> unit result" where
  "check x P = rbind (need x) (\<lambda>v. assert_that (P v))"

definition str_passphrase :: "string \<Rightarrow> passphrase" where
  "str_passphrase s = PassStr (map of_char s)"

text \<open>\<^verbatim>\<open>Path.write_bytes\<close> keeps the mode of a file that exists.\<close>

definition write_bytes :: "string \<Rightarrow> bytes \<Rightarrow> filesystem \<Rightarrow> filesystem" where
  "write_bytes p b fs = put_file p \<lparr>file_data = b,
     file_mode = (case map_of (fs_files fs) p of None \<Rightarrow> 420 | Some f \<Rightarrow> file_mode f)\<rparr> fs"

subsection \<open>\<^verbatim>\<open>key_directory_common_steps.py\<close>\<close>

definition created :: "key_directory result \<times> filesystem \<Rightarrow> directory_context step" where
  "created r c = (case r of (K, fs) \<Rightarrow>
     assign K (\<lambda>K c. c\<lparr>dx_key_directory := Some K\<rparr>) (c\<lparr>dx_files := fs\<rparr>))"

definition a_key_directory_with_pass :: "lib \<Rightarrow> os_env \<Rightarrow> directory_context step" where
  "a_key_directory_with_pass L env =
     created (create L env (str_passphrase ''pass'') DEFAULT_PBKDF2_ITERATIONS no_files)"

definition a_valid_unregistered_pk :: "lib \<Rightarrow> bytes \<Rightarrow> directory_context step" where
  "a_valid_unregistered_pk L r = assign (create_mlkem_keypair L r 768) (\<lambda>k c. c\<lparr>dx_unregistered_key := Some k\<rparr>)"

subsection \<open>\<^verbatim>\<open>key_directory_private_keys_steps.py\<close>\<close>

definition a_valid_pk :: "lib \<Rightarrow> bytes \<Rightarrow> directory_context step" where
  "a_valid_pk L r = assign (create_mlkem_keypair L r 768) (\<lambda>k c. c\<lparr>dx_pk := Some k\<rparr>)"

definition pk_added_with_kid :: "lib \<Rightarrow> os_env \<Rightarrow> directory_context step" where
  "pk_added_with_kid L env = call (\<lambda>c K. with_attr (dx_pk c) (\<lambda>(pk, _). add_public_key L K env (WireKey pk)))
     (\<lambda>kid c. c\<lparr>dx_kid := Some kid\<rparr>)"

text \<open>\<^verbatim>\<open>key_directory.add_private_key(private_key_bytes=x[1], public_key=x[0])\<close>\<close>

definition add_private_pair :: "lib \<Rightarrow> os_env \<Rightarrow> (directory_context \<Rightarrow> (kem_public_key \<times> bytes) option) \<Rightarrow>
    directory_context step" where
  "add_private_pair L env attr = call (\<lambda>c K. with_attr (attr c) (\<lambda>(pk, b). add_private_key L K env pk b)) (\<lambda>_ c. c)"

definition I_attempt_unregistered_private :: "lib \<Rightarrow> os_env \<Rightarrow> directory_context step" where
  "I_attempt_unregistered_private L env =
     trying (add_private_pair L env dx_unregistered_key) (\<lambda>r c. c\<lparr>dx_add_private_key := Some r\<rparr>)"

definition adding_private_requires_public :: "directory_context step" where
  "adding_private_requires_public c = (check (dx_add_private_key c) (\<lambda>r. r = Inl PrivateKeyRequiresPublicKey), c)"

definition I_add_private_pk :: "lib \<Rightarrow> os_env \<Rightarrow> directory_context step" where
  "I_add_private_pk L env = trying (add_private_pair L env dx_pk) (\<lambda>r c. c\<lparr>dx_add_private_key := Some r\<rparr>)"

definition the_private_key_is_added :: "directory_context step" where
  "the_private_key_is_added c = (check (dx_add_private_key c) (\<lambda>r. r = Inr ()), c)"

definition private_pk_already_added :: "lib \<Rightarrow> os_env \<Rightarrow> directory_context step" where
  "private_pk_already_added L env = add_private_pair L env dx_pk"

definition I_attempt_private_pk_again :: "lib \<Rightarrow> os_env \<Rightarrow> directory_context step" where
  "I_attempt_private_pk_again L env = trying (add_private_pair L env dx_pk) (\<lambda>r c. c\<lparr>dx_add_private_key := Some r\<rparr>)"

definition adding_private_is_duplicate :: "directory_context step" where
  "adding_private_is_duplicate c = (check (dx_add_private_key c) (\<lambda>r. r = Inl DuplicateKey), c)"

definition I_retrieve_private :: "lib \<Rightarrow> directory_context step" where
  "I_retrieve_private L = call (\<lambda>c K. with_attr (dx_kid c) (\<lambda>kid. reading (get_private_key L K kid)))
     (\<lambda>b c. c\<lparr>dx_retrieved_private_key := Some b\<rparr>)"

definition retrieved_equals_original :: "directory_context step" where
  "retrieved_equals_original c = (rbind (need (dx_retrieved_private_key c)) (\<lambda>b. check (dx_pk c) (\<lambda>(_, b'). b = b')), c)"

definition I_attempt_to_retrieve_private :: "lib \<Rightarrow> directory_context step" where
  "I_attempt_to_retrieve_private L =
     trying (I_retrieve_private L) (\<lambda>r c. c\<lparr>dx_retrieve_private_key := Some r\<rparr>)"

definition retrieving_private_not_found :: "directory_context step" where
  "retrieving_private_not_found c = (check (dx_retrieve_private_key c) (\<lambda>r. r = Inl KeyNotFound), c)"

definition pk2_added_with_kid2 :: "lib \<Rightarrow> os_env \<Rightarrow> bytes \<Rightarrow> directory_context step" where
  "pk2_added_with_kid2 L env r = run_steps
     [assign (create_mlkem_keypair L r 768) (\<lambda>k c. c\<lparr>dx_pk2 := Some k\<rparr>),
      call (\<lambda>c K. with_attr (dx_pk2 c) (\<lambda>(pk, _). add_public_key L K env (WireKey pk))) (\<lambda>kid c. c\<lparr>dx_kid2 := Some kid\<rparr>)]"

definition I_add_private_pk_and_pk2 :: "lib \<Rightarrow> os_env \<Rightarrow> os_env \<Rightarrow> directory_context step" where
  "I_add_private_pk_and_pk2 L env env' = run_steps [add_private_pair L env dx_pk, add_private_pair L env' dx_pk2]"

text \<open>\<^verbatim>\<open>StoredPrivateKeyEntry.load(key_directory._private_path(hex_id).read_bytes())\<close>\<close>

definition load_private_entry :: "lib \<Rightarrow> key_id \<Rightarrow> filesystem \<Rightarrow> stored_private_key_entry result" where
  "load_private_entry L kid fs = rbind (read_bytes (private_path (hex_of kid)) fs) (StoredPrivateKeyEntry_load L)"

definition the_entries_have_different_salts :: "lib \<Rightarrow> directory_context step" where
  "the_entries_have_different_salts L c =
     (rbind (need (dx_key_directory c)) (\<lambda>_. rbind (need (dx_kid c)) (\<lambda>kid. rbind (need (dx_kid2 c)) (\<lambda>kid2.
      rbind (load_private_entry L kid (dx_files c)) (\<lambda>stored_entry1.
      rbind (load_private_entry L kid2 (dx_files c)) (\<lambda>stored_entry2.
      assert_that (sve_kek_salt stored_entry1 \<noteq> sve_kek_salt stored_entry2)))))), c)"

definition both_private_keys_decrypt :: "lib \<Rightarrow> directory_context step" where
  "both_private_keys_decrypt L c =
     (rbind (need (dx_key_directory c)) (\<lambda>K. rbind (need (dx_kid c)) (\<lambda>kid.
      rbind (get_private_key L K kid (dx_files c)) (\<lambda>retrieved_pk1. rbind (need (dx_kid2 c)) (\<lambda>kid2.
      rbind (get_private_key L K kid2 (dx_files c)) (\<lambda>retrieved_pk2.
      rbind (check (dx_pk c) (\<lambda>(_, b). retrieved_pk1 = b)) (\<lambda>_. check (dx_pk2 c) (\<lambda>(_, b). retrieved_pk2 = b))))))), c)"

definition I_inspect_the_private_entry :: "lib \<Rightarrow> directory_context step" where
  "I_inspect_the_private_entry L = call (\<lambda>c K. with_attr (dx_kid c) (\<lambda>kid. reading (load_private_entry L kid)))
     (\<lambda>e c. c\<lparr>dx_stored_entry := Some e\<rparr>)"

text \<open>The names in \<^verbatim>\<open>_fields\<close> of the class, which is what \<^verbatim>\<open>in\<close> looks at.\<close>

definition stored_private_key_entry_fields :: "string list" where
  "stored_private_key_entry_fields = [''key_id'', ''kek_salt'', ''wrap_algorithm'', ''wrapped_key'']"

definition the_entry_has_its_fields :: "directory_context step" where
  "the_entry_has_its_fields c = (check (dx_stored_entry c) (\<lambda>_.
     {''kek_salt'', ''wrap_algorithm'', ''wrapped_key''} \<subseteq> set stored_private_key_entry_fields), c)"

text \<open>\<^verbatim>\<open>random.randint(0, n - 1)\<close> is a draw below \<open>n\<close>; without bytes it raises \<^verbatim>\<open>ValueError\<close>.\<close>

definition flip_byte :: "nat \<Rightarrow> bytes \<Rightarrow> bytes result" where
  "flip_byte draw b = (if b = [] then Inl ValueError
     else (let i = draw mod length b in Inr (b[i := b ! i XOR 255])))"

definition a_byte_has_been_flipped :: "lib \<Rightarrow> nat \<Rightarrow> directory_context step" where
  "a_byte_has_been_flipped L draw = run_steps
     [I_inspect_the_private_entry L,
      call (\<lambda>c K. with_attr (dx_stored_entry c) (\<lambda>e. with_attr (dx_kid c) (\<lambda>kid fs.
        case flip_byte draw (sve_wrapped_key e) of
          Inl x \<Rightarrow> (Inl x, fs)
        | Inr wrapped_key \<Rightarrow> (let e' = e\<lparr>sve_wrapped_key := wrapped_key\<rparr>
            in (Inr e', write_bytes (private_path (hex_of kid)) (der_encode L (stored_private_key_entry_value e')) fs)))))
        (\<lambda>e c. c\<lparr>dx_stored_entry := Some e\<rparr>)]"

definition retrieving_private_unwrap_fails :: "lib \<Rightarrow> directory_context step" where
  "retrieving_private_unwrap_fails L = run_steps [I_attempt_to_retrieve_private L,
     \<lambda>c. (check (dx_retrieve_private_key c) (\<lambda>r. r = Inl PrivateKeyUnwrapFailed), c)]"

subsection \<open>\<^verbatim>\<open>key_directory_public_keys_steps.py\<close>\<close>

definition I_add_pk :: "lib \<Rightarrow> os_env \<Rightarrow> directory_context step" where
  "I_add_pk L env = trying (pk_added_with_kid L env) (\<lambda>r c. c\<lparr>dx_add_public_key := Some r\<rparr>)"

definition a_KeyId_is_returned :: "directory_context step" where
  "a_KeyId_is_returned c = (check (dx_kid c) (\<lambda>_. True), c)"

definition its_algorithm_is_SHA256 :: "directory_context step" where
  "its_algorithm_is_SHA256 c =
     (check (dx_kid c) (\<lambda>kid. alg_algorithm (kid_hash_algorithm kid) = ''2.16.840.1.101.3.4.2.1''), c)"

definition pk_already_added :: "lib \<Rightarrow> os_env \<Rightarrow> directory_context step" where
  "pk_already_added L env = run_steps [I_add_pk L env, \<lambda>c. (check (dx_add_public_key c) (\<lambda>r. r = Inr ()), c)]"

definition I_attempt_to_add_pk_again :: "lib \<Rightarrow> os_env \<Rightarrow> directory_context step" where
  "I_attempt_to_add_pk_again L env =
     run_steps [I_add_pk L env, \<lambda>c. (check (dx_add_public_key c) (\<lambda>r. r \<noteq> Inr ()), c)]"

definition adding_public_is_duplicate :: "directory_context step" where
  "adding_public_is_duplicate c = (check (dx_add_public_key c) (\<lambda>r. r = Inl DuplicateKey), c)"

definition I_retrieve_public :: "lib \<Rightarrow> directory_context step" where
  "I_retrieve_public L = call (\<lambda>c K. with_attr (dx_kid c) (\<lambda>kid. reading (get_public_key L K kid)))
     (\<lambda>k c. c\<lparr>dx_retrieved_public_key := Some k\<rparr>)"

definition the_retrieved_key_is_identical :: "lib \<Rightarrow> directory_context step" where
  "the_retrieved_key_is_identical L c = (rbind (need (dx_retrieved_public_key c)) (\<lambda>k.
     check (dx_pk c) (\<lambda>(pk, _). KemPublicKey_dump L k = KemPublicKey_dump L pk)), c)"

definition I_compute_the_unregistered_KeyId :: "lib \<Rightarrow> directory_context step" where
  "I_compute_the_unregistered_KeyId L c = assign (rbind (need (dx_unregistered_key c)) (\<lambda>(pk, _).
     KeyId_build L pk ''sha256'')) (\<lambda>kid c. c\<lparr>dx_unregistered_kid := Some kid\<rparr>) c"

definition I_attempt_to_retrieve_that_KeyId :: "lib \<Rightarrow> directory_context step" where
  "I_attempt_to_retrieve_that_KeyId L = trying
     (call (\<lambda>c K. with_attr (dx_unregistered_kid c) (\<lambda>kid. reading (get_public_key L K kid))) (\<lambda>_ c. c))
     (\<lambda>r c. c\<lparr>dx_retrieve_unregistered := Some r\<rparr>)"

definition retrieving_public_not_found :: "directory_context step" where
  "retrieving_public_not_found c = (check (dx_retrieve_unregistered c) (\<lambda>r. r = Inl KeyNotFound), c)"

definition I_read_the_raw_bytes :: "lib \<Rightarrow> directory_context step" where
  "I_read_the_raw_bytes L = call (\<lambda>c K. with_attr (dx_kid c) (\<lambda>kid. reading (\<lambda>fs.
       rbind (read_bytes (public_path (hex_of kid)) fs) (\<lambda>b. rbind (StoredPublicKeyEntry_load L b) (\<lambda>stored_entry.
       Inr (KemPublicKey_dump L (ped_public_key (spe_data stored_entry))))))))
     (\<lambda>b c. c\<lparr>dx_raw_public_key_bytes := Some b\<rparr>)"

definition the_raw_bytes_are_the_key :: "lib \<Rightarrow> directory_context step" where
  "the_raw_bytes_are_the_key L c = (rbind (need (dx_key_directory c)) (\<lambda>K. rbind (need (dx_kid c)) (\<lambda>kid.
     rbind (get_public_key L K kid (dx_files c)) (\<lambda>public_key.
     check (dx_raw_public_key_bytes c) (\<lambda>b. b = KemPublicKey_dump L public_key)))), c)"

definition I_request_the_sha384_KeyId :: "lib \<Rightarrow> os_env \<Rightarrow> os_env \<Rightarrow> directory_context step" where
  "I_request_the_sha384_KeyId L env env' =
     call (\<lambda>c K. with_attr (dx_kid c) (\<lambda>kid. key_id_for L K env env' (ByKeyId kid) ''sha384''))
       (\<lambda>k c. c\<lparr>dx_sha384_kid := Some k\<rparr>)"

definition its_algorithm_is_SHA384 :: "directory_context step" where
  "its_algorithm_is_SHA384 c =
     (check (dx_sha384_kid c) (\<lambda>k. alg_algorithm (kid_hash_algorithm k) = ''2.16.840.1.101.3.4.2.2''), c)"

text \<open>A \<^verbatim>\<open>for\<close> loop over the entries that returns at the first match; after it the step fails.\<close>

fun find_entry :: "key_id option \<Rightarrow> alt_index_entry list \<Rightarrow> unit result" where
  "find_entry sha384_kid [] = Inl AssertionError"
| "find_entry sha384_kid (entry # entries) =
     (if alg_algorithm (kid_hash_algorithm (aie_key_id entry)) = ''2.16.840.1.101.3.4.2.2''
      then rbind (need sha384_kid) (\<lambda>k.
        if key_hash_equal (kid_key_hash (aie_key_id entry)) (kid_key_hash k) then Inr ()
        else find_entry sha384_kid entries)
      else find_entry sha384_kid entries)"

definition that_computation_is_recorded :: "lib \<Rightarrow> directory_context step" where
  "that_computation_is_recorded L c = (rbind (read_bytes ''alt_index.der'' (dx_files c)) (\<lambda>b.
     rbind (AltIndexFile_load L b) (\<lambda>alt_index. find_entry (dx_sha384_kid c) (aif_entries alt_index))), c)"

text \<open>Without the call counter of the mock.\<close>

definition the_sha384_KeyId_computed_once :: "lib \<Rightarrow> os_env \<Rightarrow> os_env \<Rightarrow> directory_context step" where
  "the_sha384_KeyId_computed_once L env env' = run_steps [I_request_the_sha384_KeyId L env env']"

definition I_request_the_sha384_KeyId_again :: "lib \<Rightarrow> os_env \<Rightarrow> os_env \<Rightarrow> directory_context step" where
  "I_request_the_sha384_KeyId_again L env env' = run_steps [I_request_the_sha384_KeyId L env env']"

definition the_same_KeyId_is_returned :: "lib \<Rightarrow> os_env \<Rightarrow> os_env \<Rightarrow> directory_context step" where
  "the_same_KeyId_is_returned L env env' c = (case (dx_key_directory c, dx_kid c) of
       (Some K, Some kid) \<Rightarrow> (case key_id_for L K env env' (ByKeyId kid) ''sha384'' (dx_files c) of
         (r, fs) \<Rightarrow> (rbind r (\<lambda>other. check (dx_sha384_kid c) (\<lambda>k.
             alg_algorithm (kid_hash_algorithm k) = alg_algorithm (kid_hash_algorithm other) \<and>
             key_hash_equal (kid_key_hash k) (kid_key_hash other))), c\<lparr>dx_files := fs\<rparr>))
     | _ \<Rightarrow> (Inl AttributeError, c))"

definition I_retrieve_public_by_sha384 :: "lib \<Rightarrow> directory_context step" where
  "I_retrieve_public_by_sha384 L = call (\<lambda>c K. with_attr (dx_sha384_kid c) (\<lambda>kid. reading (get_public_key L K kid)))
     (\<lambda>k c. c\<lparr>dx_retrieved_public_key := Some k\<rparr>)"

subsection \<open>\<^verbatim>\<open>key_directory_lifecycle_steps.py\<close>\<close>

text \<open>A fresh path after \<^verbatim>\<open>mkdir\<close>, with the mode the umask leaves.\<close>

definition made_path :: "int \<Rightarrow> filesystem" where
  "made_path mode = make_dir [] mode no_files"

definition a_passphrase :: "string \<Rightarrow> directory_context step" where
  "a_passphrase p c = (Inr (), c\<lparr>dx_passphrase := Some p\<rparr>)"

definition I_create_with_iterations :: "lib \<Rightarrow> os_env \<Rightarrow> int \<Rightarrow> int \<Rightarrow> directory_context step" where
  "I_create_with_iterations L env mode iterations c = (case dx_passphrase c of
       None \<Rightarrow> (Inl AttributeError, c\<lparr>dx_files := made_path mode\<rparr>)
     | Some p \<Rightarrow> created (create L env (str_passphrase p) iterations (made_path mode)) c)"

definition I_create_a_key_directory :: "lib \<Rightarrow> os_env \<Rightarrow> int \<Rightarrow> directory_context step" where
  "I_create_a_key_directory L env mode = I_create_with_iterations L env mode DEFAULT_PBKDF2_ITERATIONS"

definition the_key_directory_is_created :: "directory_context step" where
  "the_key_directory_is_created c = (rbind (assert_that (map_of (fs_dirs (dx_files c)) [] \<noteq> None)) (\<lambda>_.
     check (dx_key_directory c) (\<lambda>_. True)), c)"

text \<open>The class the step defines has the fields and defaults of \<^verbatim>\<open>KeystoreHeader\<close>.\<close>

definition StrictKeystoreHeader_load :: "lib \<Rightarrow> bytes \<Rightarrow> keystore_header result" where
  "StrictKeystoreHeader_load L = canonical L keystore_header_of keystore_header_value"

definition the_header_has_exactly_its_fields :: "lib \<Rightarrow> directory_context step" where
  "the_header_has_exactly_its_fields L c = (rbind (read_bytes ''header.der'' (dx_files c)) (\<lambda>header_data.
     rbind (StrictKeystoreHeader_load L header_data) (\<lambda>_. Inr ())), c)"

definition a_key_directory_with_correct_horse :: "lib \<Rightarrow> os_env \<Rightarrow> int \<Rightarrow> directory_context step" where
  "a_key_directory_with_correct_horse L env mode =
     run_steps [a_passphrase ''correct horse battery staple'', I_create_a_key_directory L env mode]"

definition I_open_with_correct_horse :: "lib \<Rightarrow> directory_context step" where
  "I_open_with_correct_horse L c = assign
     (open_directory L (str_passphrase ''correct horse battery staple'') (dx_files c))
     (\<lambda>K c. c\<lparr>dx_key_directory := Some K\<rparr>) c"

definition it_opens_successfully :: "directory_context step" where
  "it_opens_successfully c = (Inr (), c)"

definition I_attempt_to_open_wrongly :: "lib \<Rightarrow> directory_context step" where
  "I_attempt_to_open_wrongly L c = (case open_directory L (str_passphrase ''wrong passphrase'') (dx_files c) of
       Inr _ \<Rightarrow> (Inr (), c)
     | Inl e \<Rightarrow> if e = WrongPassphrase then (Inr (), c\<lparr>dx_open_error := Some e\<rparr>) else (Inl e, c))"

definition opening_fails :: "directory_context step" where
  "opening_fails c = (check (dx_open_error c) (\<lambda>e. e = WrongPassphrase), c)"

definition a_directory_with_an_unrelated_file :: "int \<Rightarrow> int \<Rightarrow> directory_context step" where
  "a_directory_with_an_unrelated_file mode fmode c = (Inr (), c\<lparr>dx_files := put_file ''unrelated_file.txt''
     \<lparr>file_data = ascii ''This is an unrelated file.'', file_mode = fmode\<rparr> (made_path mode)\<rparr>)"

text \<open>\<^verbatim>\<open>isinstance(e, KeyDirectoryError)\<close>: the base class of the exceptions of the module.\<close>

definition is_key_directory_error :: "exn \<Rightarrow> bool" where
  "is_key_directory_error e \<longleftrightarrow> e \<in> {KeyDirectoryError, WrongPassphrase, KeyNotFound, DuplicateKey,
     PrivateKeyRequiresPublicKey, PrivateKeyUnwrapFailed, PublicKeyIntegrityError, AltIndexIntegrityError}"

definition I_attempt_to_create_there :: "lib \<Rightarrow> os_env \<Rightarrow> directory_context step" where
  "I_attempt_to_create_there L env c =
     (case create L env (str_passphrase ''some passphrase'') DEFAULT_PBKDF2_ITERATIONS (dx_files c) of
        (Inr K, fs) \<Rightarrow> (Inr (), c\<lparr>dx_files := fs, dx_key_directory := Some K\<rparr>)
      | (Inl e, fs) \<Rightarrow> if is_key_directory_error e then (Inr (), c\<lparr>dx_files := fs, dx_create_error := Some e\<rparr>)
          else (Inl e, c\<lparr>dx_files := fs\<rparr>))"

definition creating_fails :: "directory_context step" where
  "creating_fails c = (check (dx_create_error c) is_key_directory_error, c)"

definition dir_mode_is :: "int \<Rightarrow> string \<Rightarrow> filesystem \<Rightarrow> unit result" where
  "dir_mode_is m p fs = (case map_of (fs_dirs fs) p of None \<Rightarrow> Inl OSError | Some mode \<Rightarrow> assert_that (mode AND 511 = m))"

definition the_directory_is_private :: "directory_context step" where
  "the_directory_is_private c = (dir_mode_is 448 [] (dx_files c), c)"

definition the_subdirectories_are_private :: "directory_context step" where
  "the_subdirectories_are_private c = (rbind (dir_mode_is 448 ''public'' (dx_files c)) (\<lambda>_.
     dir_mode_is 448 ''private'' (dx_files c)), c)"

definition the_header_is_private :: "directory_context step" where
  "the_header_is_private c = (case map_of (fs_files (dx_files c)) ''header.der'' of
       None \<Rightarrow> (Inl OSError, c)
     | Some f \<Rightarrow> (assert_that (file_mode f AND 511 = 384), c))"

text \<open>
  The step for 100 iterations has a function of its own, which does not make the path and takes the
  passphrase \<^verbatim>\<open>a\<close> whatever passphrase the scenario gave; it is registered first, so it is the one that runs.
\<close>

definition I_create_with_100_iterations :: "lib \<Rightarrow> os_env \<Rightarrow> directory_context step" where
  "I_create_with_100_iterations L env = created (create L env (str_passphrase ''a'') 100 no_files)"

definition I_add_a_public_and_a_private_key :: "lib \<Rightarrow> os_env \<Rightarrow> os_env \<Rightarrow> bytes \<Rightarrow> directory_context step" where
  "I_add_a_public_and_a_private_key L env env' r = run_steps
     [assign (create_mlkem_keypair L r 768) (\<lambda>k c. c\<lparr>dx_private_key := Some k\<rparr>),
      call (\<lambda>c K. with_attr (dx_private_key c) (\<lambda>(pk, _). add_public_key L K env (WireKey pk))) (\<lambda>_ c. c),
      add_private_pair L env' dx_private_key]"

end
