(* ===== verification/DirectoryFeature.thy ===== *)
theory DirectoryFeature
  imports DirectorySteps KeystoreCalls KeystoreHandshake
begin

section \<open>\<^verbatim>\<open>features/key_directory_*.feature\<close>\<close>

text \<open>
  The scenarios of the three features, without the steps that theory DirectorySteps leaves out, pass over any
  libraries that work. \<open>env\<close> is what the operating system gives the calls of a scenario, \<open>r\<close> what the
  key pairs are drawn from.
\<close>

subsection \<open>What the scenarios rely on\<close>

text \<open>
  The digests exist and have their OIDs, PBKDF2 takes any passphrase and a positive number of iterations,
  and every private key can be wrapped.
\<close>

definition keystore_tests_ready :: "lib \<Rightarrow> bool" where
  "keystore_tests_ready L \<longleftrightarrow> libs_work L \<and> keystore_libs L \<and>
     (\<forall>b. \<exists>h. hash_new L ''sha256'' b = Inr h) \<and> (\<forall>b. \<exists>h. hash_new L ''sha384'' b = Inr h) \<and>
     digest_algorithm L ''sha256'' = Inr \<lparr>alg_algorithm = ''2.16.840.1.101.3.4.2.1'', alg_parameters = None\<rparr> \<and>
     digest_algorithm L ''sha384'' = Inr \<lparr>alg_algorithm = ''2.16.840.1.101.3.4.2.2'', alg_parameters = None\<rparr> \<and>
     (\<forall>n salt p. 0 < n \<longrightarrow> (\<exists>k. pbkdf2_sha256 L 32 salt n p = Inr k)) \<and>
     (\<forall>kek b. \<exists>w. aes_key_wrap_with_padding L kek b = Inr w)"

text \<open>The two key pairs have different SHA-256 ids.\<close>

definition different_ids :: "lib \<Rightarrow> bytes \<Rightarrow> bytes \<Rightarrow> bool" where
  "different_ids L r r' \<longleftrightarrow> (\<forall>pk b pk' b' p p'. create_mlkem_keypair L r 768 = Inr (pk, b) \<longrightarrow>
     create_mlkem_keypair L r' 768 = Inr (pk', b') \<longrightarrow> primary_key_id L pk = Inr p \<longrightarrow>
     primary_key_id L pk' = Inr p' \<longrightarrow> kid_key_hash p \<noteq> kid_key_hash p')"

text \<open>AES key wrap with padding detects a byte of the wrapped key that is inverted.\<close>

definition flips_detected :: "lib \<Rightarrow> bool" where
  "flips_detected L \<longleftrightarrow> (\<forall>kek b w draw. aes_key_wrap_with_padding L kek b = Inr w \<longrightarrow>
     (\<exists>w'. flip_byte draw w = Inr w' \<and> aes_key_unwrap_with_padding L kek w' = Inl InvalidUnwrap))"

definition quiet :: "(nat \<Rightarrow> os_env) \<Rightarrow> bool" where
  "quiet env \<longleftrightarrow> (\<forall>n. env_fault (env n) = None)"

lemma readyD:
  assumes "keystore_tests_ready L"
  shows "libs_work L" "keystore_libs L" "hkdf_works L" "mlkem_works L" "asn1_works L"
    and "digest_oid L ''sha256'' = Inr ''2.16.840.1.101.3.4.2.1''"
    and "digest_oid L ''sha384'' = Inr ''2.16.840.1.101.3.4.2.2''"
    and "\<And>kek b. \<exists>w. aes_key_wrap_with_padding L kek b = Inr w"
  using assms libs_workD by (auto simp: keystore_tests_ready_def digest_oid_def)

lemma test_ids:
  assumes "keystore_tests_ready L"
  obtains p k where "primary_key_id L pk = Inr p" "id_oid p = ''2.16.840.1.101.3.4.2.1''"
    and "KeyId_build L pk ''sha384'' = Inr k" "id_oid k = ''2.16.840.1.101.3.4.2.2''"
    and "cached_key_id L ''sha384'' [p] = Inr None"
proof -
  obtain h h' where "hash_new L ''sha256'' (KemPublicKey_dump L pk) = Inr h" "hash_new L ''sha384'' (KemPublicKey_dump L pk) = Inr h'"
    using assms unfolding keystore_tests_ready_def by blast
  then show thesis using assms
    by (intro that [of "\<lparr>kid_hash_algorithm = \<lparr>alg_algorithm = ''2.16.840.1.101.3.4.2.1'', alg_parameters = None\<rparr>, kid_key_hash = h\<rparr>"
          "\<lparr>kid_hash_algorithm = \<lparr>alg_algorithm = ''2.16.840.1.101.3.4.2.2'', alg_parameters = None\<rparr>, kid_key_hash = h'\<rparr>"])
      (simp_all add: primary_key_id_def KeyId_build_def keystore_tests_ready_def digest_oid_def del: KeyId_build_eq_Inr)
qed

lemma str_passphrase_bytes: "list_all (\<lambda>c. of_char c < (128 :: nat)) s \<Longrightarrow> \<exists>b. passphrase_bytes (str_passphrase s) = Inr b"
  unfolding str_passphrase_def by (induction s) (auto simp: utf8_char_def)

lemma master_key_derived:
  assumes "keystore_tests_ready L" "list_all (\<lambda>c. of_char c < (128 :: nat)) s" "0 < n"
  obtains mk where "derive_master_key L (str_passphrase s) salt n = Inr mk"
proof -
  obtain b where "passphrase_bytes (str_passphrase s) = Inr b" using str_passphrase_bytes [OF assms(2)] ..
  moreover obtain mk where "pbkdf2_sha256 L 32 salt n b = Inr mk"
    using assms(1,3) unfolding keystore_tests_ready_def by blast
  ultimately show thesis using that by (simp add: derive_master_key_def MASTER_KEY_LEN_def)
qed

lemma test_key:
  assumes "keystore_tests_ready L"
  obtains pk b where "create_mlkem_keypair L r 768 = Inr (pk, b)" "asn1_valid L (kem_public_key_value pk)"
proof -
  obtain k pk where "create_mlkem_keypair L r 768 = Inr (pk, private_bytes_raw k)" "key_pair L k pk"
      "alg_parameters (pk_algorithm pk) = None"
    by (rule create_mlkem_keypair_works [OF readyD(4) [OF assms], of 768 r]) simp_all
  moreover have "standard_oids_ok L" using libs_workD [OF readyD(1) [OF assms]] by simp
  ultimately show thesis using wire_valid(2) that by blast
qed

lemma no_files_empty [simp]: "is_empty_dir no_files" "is_empty_dir (made_path m)"
  by (simp_all add: is_empty_dir_def no_files_def made_path_def make_dir_def)

text \<open>Creating a directory at an empty path.\<close>

lemma created_directory:
  assumes "keystore_tests_ready L" "env_fault env = None" "list_all (\<lambda>c. of_char c < (128 :: nat)) s" "0 < n" "is_empty_dir fs"
  obtains K f h where "create L env (str_passphrase s) n fs = (Inr K, f)" "directory_wf L K f" "no_tmp f"
    and "files f = [HEADER_PATH \<mapsto> h]"
proof -
  obtain mk where "derive_master_key L (str_passphrase s) (env_salt env) n = Inr mk"
    by (rule master_key_derived [OF assms(1,3,4)])
  then show thesis using create_call [OF readyD(2,3) [OF assms(1)] assms(5,2)] that by blast
qed

subsection \<open>The features\<close>

definition private_keys_feature :: "lib \<Rightarrow> (nat \<Rightarrow> os_env) \<Rightarrow> (nat \<Rightarrow> bytes) \<Rightarrow> nat \<Rightarrow> directory_context step list list" where
  "private_keys_feature L env r draw =
    map (\<lambda>ss. a_key_directory_with_pass L (env 0) # a_valid_pk L (r 0) # pk_added_with_kid L (env 1) # ss)
    [[a_valid_unregistered_pk L (r 1), I_attempt_unregistered_private L (env 2), adding_private_requires_public],
     [I_add_private_pk L (env 2), the_private_key_is_added],
     [private_pk_already_added L (env 2), I_attempt_private_pk_again L (env 3), adding_private_is_duplicate],
     [private_pk_already_added L (env 2), I_retrieve_private L, retrieved_equals_original],
     [I_attempt_to_retrieve_private L, retrieving_private_not_found],
     [pk2_added_with_kid2 L (env 2) (r 1), I_add_private_pk_and_pk2 L (env 3) (env 4),
      the_entries_have_different_salts L, both_private_keys_decrypt L],
     [private_pk_already_added L (env 2), I_inspect_the_private_entry L, the_entry_has_its_fields],
     [private_pk_already_added L (env 2), a_byte_has_been_flipped L draw, I_attempt_to_retrieve_private L,
      retrieving_private_unwrap_fails L]]"

lemmas private_steps = a_key_directory_with_pass_def created_def a_valid_unregistered_pk_def a_valid_pk_def
  pk_added_with_kid_def add_private_pair_def I_attempt_unregistered_private_def adding_private_requires_public_def
  I_add_private_pk_def the_private_key_is_added_def private_pk_already_added_def I_attempt_private_pk_again_def
  adding_private_is_duplicate_def I_retrieve_private_def retrieved_equals_original_def
  I_attempt_to_retrieve_private_def retrieving_private_not_found_def pk2_added_with_kid2_def
  I_add_private_pk_and_pk2_def the_entries_have_different_salts_def both_private_keys_decrypt_def
  I_inspect_the_private_entry_def the_entry_has_its_fields_def a_byte_has_been_flipped_def
  retrieving_private_unwrap_fails_def

lemmas run_directory = passes_def call_def with_attr_def reading_def trying_def check_def empty_directory_context_def

text \<open>After the background: one key in a new directory.\<close>

lemma directory_with_pk:
  assumes "keystore_tests_ready L" "quiet env"
  obtains K f1 pk b p f2 where
    "create L (env 0) (str_passphrase ''pass'') DEFAULT_PBKDF2_ITERATIONS no_files = (Inr K, f1)"
    and "create_mlkem_keypair L r 768 = Inr (pk, b)" "primary_key_id L pk = Inr p"
    and "add_public_key L K (env n) (WireKey pk) f1 = (Inr p, f2)"
    and "directory_wf L K f2" "no_tmp f2"
    and "load_verified L K (hex_of p) f2 = Inr \<lparr>ped_public_key = pk, ped_key_ids = [p]\<rparr>"
    and "\<forall>h. file_exists (public_path h) f2 \<longleftrightarrow> h = hex_of p" "\<forall>h. \<not> file_exists (private_path h) f2"
    and "\<not> file_exists ALT_INDEX_PATH f2"
proof -
  note ready = readyD [OF assms(1)]
  have fault: "env_fault (env m) = None" for m using assms(2) by (simp add: quiet_def)
  obtain K f1 h where c: "create L (env 0) (str_passphrase ''pass'') DEFAULT_PBKDF2_ITERATIONS no_files = (Inr K, f1)"
      "directory_wf L K f1" "no_tmp f1" "files f1 = [HEADER_PATH \<mapsto> h]"
    by (rule created_directory [OF assms(1) fault, of "''pass''" DEFAULT_PBKDF2_ITERATIONS no_files])
      (simp_all add: DEFAULT_PBKDF2_ITERATIONS_def)
  obtain pk b where k: "create_mlkem_keypair L r 768 = Inr (pk, b)" "asn1_valid L (kem_public_key_value pk)"
    by (rule test_key [OF assms(1)])
  obtain p where p: "primary_key_id L pk = Inr p" by (rule test_ids [OF assms(1)])
  have "\<not> file_exists (public_path (hex_of p)) f1" by (simp add: file_exists_def c(4))
  then obtain f2 x where a: "add_public_key L K (env n) (WireKey pk) f1 = (Inr p, f2)"
      "files f2 = (files f1)(public_path (hex_of p) \<mapsto> x)" "directory_wf L K f2" "no_tmp f2"
      "load_verified L K (hex_of p) f2 = Inr \<lparr>ped_public_key = pk, ped_key_ids = [p]\<rparr>"
    using add_public_call [OF ready(2,3) fault c(2,3) p k(2), of n] by blast
  show thesis by (rule that [OF c(1) k(1) p a(1,3,4,5)]) (simp_all add: file_exists_def a(2) c(4))
qed

subsection \<open>Private keys\<close>

lemma stored_entry_loads:
  assumes "files fs (private_path (hex_of p)) = Some \<lparr>file_data = der_encode L (stored_private_key_entry_value e), file_mode = m\<rparr>"
    and "StoredPrivateKeyEntry_load L (der_encode L (stored_private_key_entry_value e)) = Inr e"
  shows "load_private_entry L p fs = Inr e"
  by (simp add: load_private_entry_def read_bytes_def assms)

lemma broken_entry_refused:
  assumes "load_private_entry L p fs = Inr e" "sha256_id L p" "sve_key_id e = p"
    and "derive_kek L (kd_master_key K) (sve_kek_salt e) (KeyId_dump L p) = Inr kek"
    and "aes_key_unwrap_with_padding L kek (sve_wrapped_key e) = Inl InvalidUnwrap"
  shows "get_private_key L K p fs = Inl PrivateKeyUnwrapFailed"
proof -
  obtain b where b: "read_bytes (private_path (hex_of p)) fs = Inr b" "StoredPrivateKeyEntry_load L b = Inr e"
    using assms(1) by (auto simp: load_private_entry_def)
  then have "file_exists (private_path (hex_of p)) fs" by (auto simp: read_bytes_def file_exists_def split: option.splits)
  moreover have "fromhex (hex_of p) = Inr (kid_key_hash p)" by (simp add: hex_of_def fromhex_hex)
  ultimately show ?thesis using assms(2-5) b
    by (simp add: get_private_key_def sha256_id_def key_hash_equal_def)
qed

text \<open>The private key filed: its file, what is read from it, and what happens when a byte is inverted.\<close>

lemma private_key_filed:
  assumes "keystore_tests_ready L" "env_fault env = None" "directory_wf L K fs" "no_tmp fs" "primary_key_id L pk = Inr p"
    and "file_exists (public_path (hex_of p)) fs" "\<not> file_exists (private_path (hex_of p)) fs"
  obtains fs' e where "add_private_key L K env pk b fs = (Inr p, fs')" "directory_wf L K fs'" "no_tmp fs'"
    and "files fs' = (files fs)(private_path (hex_of p) \<mapsto> \<lparr>file_data = der_encode L (stored_private_key_entry_value e), file_mode = 384\<rparr>)"
    and "load_private_entry L p fs' = Inr e" "sve_kek_salt e = env_salt env" "get_private_key L K p fs' = Inr b"
    and "add_private_key L K env' pk b fs' = (Inl DuplicateKey, fs')"
    and "flips_detected L \<Longrightarrow> \<exists>w. flip_byte draw (sve_wrapped_key e) = Inr w \<and>
        get_private_key L K p (write_bytes (private_path (hex_of p))
          (der_encode L (stored_private_key_entry_value (e\<lparr>sve_wrapped_key := w\<rparr>))) fs') = Inl PrivateKeyUnwrapFailed"
proof -
  note ready = readyD [OF assms(1)]
  obtain fs' kek w e where a: "add_private_key L K env pk b fs = (Inr p, fs')"
      "derive_kek L (kd_master_key K) (env_salt env) (KeyId_dump L p) = Inr kek"
      "aes_key_wrap_with_padding L kek b = Inr w"
    and e: "e = \<lparr>sve_key_id = p, sve_kek_salt = env_salt env, sve_wrap_algorithm = WRAP_ALGORITHM_OID, sve_wrapped_key = w\<rparr>"
    and f: "files fs' = (files fs)(private_path (hex_of p) \<mapsto>
        \<lparr>file_data = der_encode L (stored_private_key_entry_value e), file_mode = 384\<rparr>)"
    and l: "\<forall>w'. StoredPrivateKeyEntry_load L (der_encode L (stored_private_key_entry_value (e\<lparr>sve_wrapped_key := w'\<rparr>))) =
        Inr (e\<lparr>sve_wrapped_key := w'\<rparr>)"
    and g: "directory_wf L K fs'" "no_tmp fs'" "get_private_key L K p fs' = Inr b" "directory_step L K fs fs'"
    by (rule add_private_call [where b = b, OF ready(2,3) assms(2,3,4) ready(8) assms(5,6,7)])
  have "StoredPrivateKeyEntry_load L (der_encode L (stored_private_key_entry_value e)) = Inr e"
    using l [rule_format, of w] by (simp add: e)
  then have le: "load_private_entry L p fs' = Inr e" using stored_entry_loads [of fs' p L e 384] f by simp
  have sha: "sha256_id L p" by (rule primary_sha256 [OF assms(5)])
  have "\<exists>w'. flip_byte draw (sve_wrapped_key e) = Inr w' \<and> get_private_key L K p (write_bytes (private_path (hex_of p))
          (der_encode L (stored_private_key_entry_value (e\<lparr>sve_wrapped_key := w'\<rparr>))) fs') = Inl PrivateKeyUnwrapFailed"
    if flips: "flips_detected L"
  proof -
    obtain w' where w': "flip_byte draw w = Inr w'" "aes_key_unwrap_with_padding L kek w' = Inl InvalidUnwrap"
      using flips a(3) unfolding flips_detected_def by blast
    have "load_private_entry L p (write_bytes (private_path (hex_of p))
          (der_encode L (stored_private_key_entry_value (e\<lparr>sve_wrapped_key := w'\<rparr>))) fs') = Inr (e\<lparr>sve_wrapped_key := w'\<rparr>)"
      by (rule stored_entry_loads [OF _ l [rule_format]]) (simp add: write_bytes_def)
    from broken_entry_refused [OF this sha, of K kek] a(2) w' show ?thesis by (simp add: e)
  qed
  moreover have "add_private_key L K env' pk b fs' = (Inl DuplicateKey, fs')"
    using assms(5,6) f by (simp add: add_private_key_def file_exists_def)
  ultimately show thesis using that [OF a(1) g(1,2) f le _ g(3)] by (simp add: e)
qed

text \<open>A second key pair next to the first.\<close>

lemma second_key_pair:
  assumes "keystore_tests_ready L" "quiet env" "directory_wf L K fs" "no_tmp fs"
    and "primary_key_id L pk = Inr p" "primary_key_id L pk2 = Inr p2" "asn1_valid L (kem_public_key_value pk2)"
    and "\<forall>h. file_exists (public_path h) fs \<longleftrightarrow> h = hex_of p" "\<forall>h. \<not> file_exists (private_path h) fs" "hex_of p2 \<noteq> hex_of p"
  obtains fa fb fc e1 e2 where "add_public_key L K (env 2) (WireKey pk2) fs = (Inr p2, fa)"
    and "add_private_key L K (env 3) pk b fa = (Inr p, fb)" "add_private_key L K (env 4) pk2 b2 fb = (Inr p2, fc)"
    and "load_private_entry L p fc = Inr e1" "load_private_entry L p2 fc = Inr e2"
    and "sve_kek_salt e1 = env_salt (env 3)" "sve_kek_salt e2 = env_salt (env 4)"
    and "get_private_key L K p fc = Inr b" "get_private_key L K p2 fc = Inr b2"
proof -
  note ready = readyD [OF assms(1)]
  have fault: "env_fault (env n) = None" for n using assms(2) by (simp add: quiet_def)
  have "\<not> file_exists (public_path (hex_of p2)) fs" using assms(8,10) by simp
  then obtain fa x where a: "add_public_key L K (env 2) (WireKey pk2) fs = (Inr p2, fa)"
      "files fa = (files fs)(public_path (hex_of p2) \<mapsto> x)" "directory_wf L K fa" "no_tmp fa"
    using add_public_call [OF ready(2,3) fault assms(3,4,6,7), of 2] by blast
  have fa: "file_exists (public_path (hex_of p)) fa" "\<not> file_exists (private_path (hex_of p)) fa"
    using assms(8,9) by (auto simp: file_exists_def a(2))
  obtain fb e1 where b: "add_private_key L K (env 3) pk b fa = (Inr p, fb)" "directory_wf L K fb" "no_tmp fb"
      "files fb = (files fa)(private_path (hex_of p) \<mapsto> \<lparr>file_data = der_encode L (stored_private_key_entry_value e1), file_mode = 384\<rparr>)"
      "load_private_entry L p fb = Inr e1" "sve_kek_salt e1 = env_salt (env 3)" "get_private_key L K p fb = Inr b"
    using private_key_filed [OF assms(1) fault a(3,4) assms(5) fa, of 3 b] by blast
  have fb: "file_exists (public_path (hex_of p2)) fb" "\<not> file_exists (private_path (hex_of p2)) fb"
    using assms(9,10) by (auto simp: file_exists_def a(2) b(4))
  obtain fc e2 where c: "add_private_key L K (env 4) pk2 b2 fb = (Inr p2, fc)"
      "files fc = (files fb)(private_path (hex_of p2) \<mapsto> \<lparr>file_data = der_encode L (stored_private_key_entry_value e2), file_mode = 384\<rparr>)"
      "load_private_entry L p2 fc = Inr e2" "sve_kek_salt e2 = env_salt (env 4)" "get_private_key L K p2 fc = Inr b2"
    using private_key_filed [OF assms(1) fault b(2,3) assms(6) fb, of 4 b2] by blast
  have same: "files fc (private_path (hex_of p)) = files fb (private_path (hex_of p))"
    using assms(10) by (simp add: c(2))
  then have "load_private_entry L p fc = Inr e1" using b(5) by (simp add: load_private_entry_def read_bytes_def)
  moreover have "get_private_key L K p fc = Inr b"
    using get_private_key_cong [OF primary_sha256 [OF assms(5)] same] b(7) by simp
  ultimately show thesis using that a(1) b(1,6) c(1,3,4,5) by blast
qed

text \<open>
  C40. The acceptance tests of private keys pass over all working libraries: a private key needs its public key,
  is filed once, comes back byte for byte next to another one under another salt, and a byte inverted on disk is
  found out.
\<close>

theorem private_keys_feature_passes:
  assumes "keystore_tests_ready L" "quiet env" "different_ids L (r 0) (r 1)" "flips_detected L"
    and "env_salt (env 3) \<noteq> env_salt (env 4)"
  shows "list_all (passes empty_directory_context) (private_keys_feature L env r draw)"
proof -
  note ready = readyD [OF assms(1)]
  have fault: "env_fault (env n) = None" for n using assms(2) by (simp add: quiet_def)
  obtain K f1 pk b p f2 where bg: "create L (env 0) (str_passphrase ''pass'') DEFAULT_PBKDF2_ITERATIONS no_files = (Inr K, f1)"
      "create_mlkem_keypair L (r 0) 768 = Inr (pk, b)" "primary_key_id L pk = Inr p"
      "add_public_key L K (env 1) (WireKey pk) f1 = (Inr p, f2)"
    and wf: "directory_wf L K f2" "no_tmp f2" and files: "load_verified L K (hex_of p) f2 = Inr \<lparr>ped_public_key = pk, ped_key_ids = [p]\<rparr>"
      "\<forall>h. file_exists (public_path h) f2 \<longleftrightarrow> h = hex_of p" "\<forall>h. \<not> file_exists (private_path h) f2"
      "\<not> file_exists ALT_INDEX_PATH f2"
    by (rule directory_with_pk [OF assms(1,2), of "r 0" 1])
  obtain pk2 b2 where k2: "create_mlkem_keypair L (r 1) 768 = Inr (pk2, b2)" "asn1_valid L (kem_public_key_value pk2)"
    by (rule test_key [OF assms(1)])
  obtain p2 where p2: "primary_key_id L pk2 = Inr p2" by (rule test_ids [OF assms(1)])
  have ne: "hex_of p2 \<noteq> hex_of p" using assms(3) bg(2,3) k2(1) p2 unfolding different_ids_def by (auto simp: hex_of_def)
  have sha: "sha256_id L p" by (rule primary_sha256 [OF bg(3)])
  have unregistered: "add_private_key L K (env 2) pk2 b2 f2 = (Inl PrivateKeyRequiresPublicKey, f2)"
    using p2 ne files(2) by (simp add: add_private_key_def)
  have missing: "get_private_key L K p f2 = Inl KeyNotFound"
    using files(3) by (simp add: get_private_key_def primary_hex_of_sha256 [OF sha])
  have here: "file_exists (public_path (hex_of p)) f2" by (simp add: files(2))
  obtain f3 e where f3: "add_private_key L K (env 2) pk b f2 = (Inr p, f3)" "load_private_entry L p f3 = Inr e"
      "get_private_key L K p f3 = Inr b" "add_private_key L K (env 3) pk b f3 = (Inl DuplicateKey, f3)"
    and flip: "\<exists>w. flip_byte draw (sve_wrapped_key e) = Inr w \<and> get_private_key L K p (write_bytes (private_path (hex_of p))
          (der_encode L (stored_private_key_entry_value (e\<lparr>sve_wrapped_key := w\<rparr>))) f3) = Inl PrivateKeyUnwrapFailed"
    using private_key_filed [OF assms(1) fault wf bg(3) here files(3) [rule_format], of 2 b "env 3" draw] assms(4) by metis
  then obtain w where w: "flip_byte draw (sve_wrapped_key e) = Inr w"
    "get_private_key L K p (write_bytes (private_path (hex_of p))
          (der_encode L (stored_private_key_entry_value (e\<lparr>sve_wrapped_key := w\<rparr>))) f3) = Inl PrivateKeyUnwrapFailed"
    by blast
  obtain fa fb fc e1 e2 where two: "add_public_key L K (env 2) (WireKey pk2) f2 = (Inr p2, fa)"
      "add_private_key L K (env 3) pk b fa = (Inr p, fb)" "add_private_key L K (env 4) pk2 b2 fb = (Inr p2, fc)"
      "load_private_entry L p fc = Inr e1" "load_private_entry L p2 fc = Inr e2"
      "sve_kek_salt e1 = env_salt (env 3)" "sve_kek_salt e2 = env_salt (env 4)"
      "get_private_key L K p fc = Inr b" "get_private_key L K p2 fc = Inr b2"
    by (rule second_key_pair [OF assms(1,2) wf bg(3) p2 k2(2) files(2,3) ne])
  show ?thesis
    unfolding private_keys_feature_def
    by (simp add: run_directory private_steps bg k2(1) unregistered missing f3 w two assms(5)
        stored_private_key_entry_fields_def Let_def del: One_nat_def)
qed

subsection \<open>Public keys\<close>

definition public_keys_feature :: "lib \<Rightarrow> (nat \<Rightarrow> os_env) \<Rightarrow> (nat \<Rightarrow> bytes) \<Rightarrow> directory_context step list list" where
  "public_keys_feature L env r = map (\<lambda>ss. a_key_directory_with_pass L (env 0) # a_valid_pk L (r 0) # ss)
    [[I_add_pk L (env 1), a_KeyId_is_returned, its_algorithm_is_SHA256],
     [pk_already_added L (env 1), I_attempt_to_add_pk_again L (env 2), adding_public_is_duplicate],
     [pk_added_with_kid L (env 1), I_retrieve_public L, the_retrieved_key_is_identical L],
     [a_valid_unregistered_pk L (r 1), I_compute_the_unregistered_KeyId L, I_attempt_to_retrieve_that_KeyId L,
      retrieving_public_not_found],
     [pk_added_with_kid L (env 1), I_read_the_raw_bytes L, the_raw_bytes_are_the_key L],
     [pk_added_with_kid L (env 1), I_request_the_sha384_KeyId L (env 2) (env 3), its_algorithm_is_SHA384,
      that_computation_is_recorded L],
     [pk_added_with_kid L (env 1), the_sha384_KeyId_computed_once L (env 2) (env 3),
      I_request_the_sha384_KeyId_again L (env 4) (env 5), the_same_KeyId_is_returned L (env 6) (env 7)],
     [pk_added_with_kid L (env 1), the_sha384_KeyId_computed_once L (env 2) (env 3),
      I_retrieve_public_by_sha384 L, the_retrieved_key_is_identical L]]"

lemmas public_steps = I_add_pk_def a_KeyId_is_returned_def its_algorithm_is_SHA256_def pk_already_added_def
  I_attempt_to_add_pk_again_def adding_public_is_duplicate_def I_retrieve_public_def
  the_retrieved_key_is_identical_def I_compute_the_unregistered_KeyId_def I_attempt_to_retrieve_that_KeyId_def
  retrieving_public_not_found_def I_read_the_raw_bytes_def the_raw_bytes_are_the_key_def
  I_request_the_sha384_KeyId_def its_algorithm_is_SHA384_def that_computation_is_recorded_def
  the_sha384_KeyId_computed_once_def I_request_the_sha384_KeyId_again_def the_same_KeyId_is_returned_def
  I_retrieve_public_by_sha384_def

lemma find_entry_found:
  "k \<in> aie_key_id ` set es \<Longrightarrow> id_oid k = ''2.16.840.1.101.3.4.2.2'' \<Longrightarrow> find_entry (Some k) es = Inr ()"
  by (induction es) (auto simp: key_hash_equal_def)

lemma raw_entry:
  assumes "load_verified L K (hex_of p) fs = Inr d"
  shows "rbind (read_bytes (public_path (hex_of p)) fs) (\<lambda>b. rbind (StoredPublicKeyEntry_load L b) (\<lambda>stored_entry.
       Inr (KemPublicKey_dump L (ped_public_key (spe_data stored_entry))))) = Inr (KemPublicKey_dump L (ped_public_key d))"
  using assms by (auto simp: load_verified_def verify_and_get_data_def split: if_splits)

lemma no_key_found:
  assumes "\<forall>h. \<not> file_exists (public_path h) fs" "\<not> file_exists ALT_INDEX_PATH fs"
  shows "get_public_key L K k fs = Inl KeyNotFound"
  using assms by (simp add: get_public_key_def load_public_entry_by_key_id_def alt_index_lookup_def load_alt_index_def)

text \<open>
  The acceptance tests of public keys pass over all working libraries: a key is filed once under its
  SHA-256 id, read back unchanged and without the passphrase, and its SHA-384 id is computed once, recorded in the
  index and finds the key.
\<close>

theorem public_keys_feature_passes:
  assumes "keystore_tests_ready L" "quiet env"
  shows "list_all (passes empty_directory_context) (public_keys_feature L env r)"
proof -
  note ready = readyD [OF assms(1)]
  have fault: "env_fault (env n) = None" for n using assms(2) by (simp add: quiet_def)
  obtain K f1 pk b p f2 where bg: "create L (env 0) (str_passphrase ''pass'') DEFAULT_PBKDF2_ITERATIONS no_files = (Inr K, f1)"
      "create_mlkem_keypair L (r 0) 768 = Inr (pk, b)" "primary_key_id L pk = Inr p"
      "add_public_key L K (env 1) (WireKey pk) f1 = (Inr p, f2)"
    and wf: "directory_wf L K f2" "no_tmp f2" and files: "load_verified L K (hex_of p) f2 = Inr \<lparr>ped_public_key = pk, ped_key_ids = [p]\<rparr>"
      "\<forall>h. file_exists (public_path h) f2 \<longleftrightarrow> h = hex_of p" "\<forall>h. \<not> file_exists (private_path h) f2"
      "\<not> file_exists ALT_INDEX_PATH f2"
    by (rule directory_with_pk [OF assms(1,2), of "r 0" 1])
  obtain h where h: "files f1 = [HEADER_PATH \<mapsto> h]" by (rule create_cases [OF bg(1)])
  have empty: "get_public_key L K q f1 = Inl KeyNotFound" for q
    by (rule no_key_found) (simp_all add: file_exists_def h)
  obtain k where k: "id_oid p = ''2.16.840.1.101.3.4.2.1''" "KeyId_build L pk ''sha384'' = Inr k"
      "id_oid k = ''2.16.840.1.101.3.4.2.2''" "cached_key_id L ''sha384'' [p] = Inr None"
    using test_ids [OF assms(1), of pk] bg(3) by (metis sum.inject(2))
  obtain f3 ix where s: "key_id_for L K (env 2) (env 3) (ByKeyId p) ''sha384'' f2 = (Inr k, f3)"
      "\<forall>e e'. key_id_for L K e e' (ByKeyId p) ''sha384'' f3 = (Inr k, f3)" "get_public_key L K k f3 = Inr pk"
      "rbind (read_bytes ALT_INDEX_PATH f3) (AltIndexFile_load L) = Inr ix" "k \<in> aie_key_id ` set (aif_entries ix)"
    using key_id_for_call [OF ready(2,3) fault fault wf files(1) _ files(4) k(4,2), of 2 3] files(2) by metis
  obtain pk2 b2 where k2: "create_mlkem_keypair L (r 1) 768 = Inr (pk2, b2)" by (rule test_key [OF assms(1)])
  obtain p2 where p2: "KeyId_build L pk2 ''sha256'' = Inr p2" using test_ids [OF assms(1)] unfolding primary_key_id_def by blast
  have again: "add_public_key L K (env 2) (WireKey pk) f2 = (Inl DuplicateKey, f2)"
    using bg(3) files(2) by (simp add: add_public_key_def)
  have get: "get_public_key L K p f2 = Inr pk" using get_public_key_direct [OF files(1)] by simp
  obtain ab where ab: "read_bytes ''alt_index.der'' f3 = Inr ab" "AltIndexFile_load L ab = Inr ix"
    using s(4) by (auto simp: ALT_INDEX_PATH_def)
  note facts = bg k k2 p2 s(1-3) ab empty again get raw_entry [OF files(1)] find_entry_found [OF s(5) k(3)] key_hash_equal_def
  show ?thesis
    unfolding public_keys_feature_def
    by (simp add: run_directory private_steps public_steps facts del: One_nat_def KeyId_build_eq_Inr)
qed

subsection \<open>Lifecycle\<close>

text \<open>\<open>mode\<close> and \<open>fmode\<close> are what the umask leaves of the mode of a new directory and of a new file.\<close>

definition lifecycle_feature :: "lib \<Rightarrow> (nat \<Rightarrow> os_env) \<Rightarrow> bytes \<Rightarrow> int \<Rightarrow> int \<Rightarrow> directory_context step list list" where
  "lifecycle_feature L env r mode fmode =
    [[a_passphrase ''correct horse battery staple'', I_create_a_key_directory L (env 0) mode, the_key_directory_is_created],
     [a_passphrase ''correct horse battery staple'', I_create_a_key_directory L (env 0) mode,
      the_header_has_exactly_its_fields L],
     [a_key_directory_with_correct_horse L (env 0) mode, I_open_with_correct_horse L, it_opens_successfully],
     [a_key_directory_with_correct_horse L (env 0) mode, I_attempt_to_open_wrongly L, opening_fails],
     [a_directory_with_an_unrelated_file mode fmode, I_attempt_to_create_there L (env 0), creating_fails],
     [a_key_directory_with_pass L (env 0), the_directory_is_private, the_subdirectories_are_private,
      the_header_is_private],
     [a_passphrase ''correct horse battery staple'', I_create_with_100_iterations L (env 0),
      I_add_a_public_and_a_private_key L (env 1) (env 2) r],
     [a_passphrase ''a'', I_create_with_iterations L (env 0) mode 1,
      I_add_a_public_and_a_private_key L (env 1) (env 2) r],
     [a_passphrase ''a much longer passphrase than the others, well over sixty-four bytes long overall'',
      I_create_with_iterations L (env 0) mode 500, I_add_a_public_and_a_private_key L (env 1) (env 2) r]]"

lemmas lifecycle_steps = a_passphrase_def I_create_with_iterations_def I_create_a_key_directory_def
  the_key_directory_is_created_def the_header_has_exactly_its_fields_def a_key_directory_with_correct_horse_def
  I_open_with_correct_horse_def it_opens_successfully_def I_attempt_to_open_wrongly_def opening_fails_def
  a_directory_with_an_unrelated_file_def I_attempt_to_create_there_def creating_fails_def dir_mode_is_def
  the_directory_is_private_def the_subdirectories_are_private_def the_header_is_private_def
  I_create_with_100_iterations_def I_add_a_public_and_a_private_key_def

text \<open>The check tags of the two passphrases differ.\<close>

definition wrong_tag_differs :: "lib \<Rightarrow> bytes \<Rightarrow> bool" where
  "wrong_tag_differs L salt \<longleftrightarrow> (\<forall>mk mk'.
     derive_master_key L (str_passphrase ''correct horse battery staple'') salt DEFAULT_PBKDF2_ITERATIONS = Inr mk \<longrightarrow>
     derive_master_key L (str_passphrase ''wrong passphrase'') salt DEFAULT_PBKDF2_ITERATIONS = Inr mk' \<longrightarrow>
     derive_check_tag L mk' salt \<noteq> derive_check_tag L mk salt)"

lemma ascii_passphrases:
  "list_all (\<lambda>c. of_char c < (128 :: nat)) ''correct horse battery staple''"
  "list_all (\<lambda>c. of_char c < (128 :: nat)) ''wrong passphrase''" "list_all (\<lambda>c. of_char c < (128 :: nat)) ''pass''"
  "list_all (\<lambda>c. of_char c < (128 :: nat)) ''a''"
  "list_all (\<lambda>c. of_char c < (128 :: nat)) ''a much longer passphrase than the others, well over sixty-four bytes long overall''"
  by code_simp+

text \<open>A new directory: its header, its modes, which passphrase opens it, and a key pair filed in it.\<close>

lemma new_directory:
  assumes "keystore_tests_ready L" "env_fault env = None" "list_all (\<lambda>c. of_char c < (128 :: nat)) s" "0 < n" "is_empty_dir fs"
  obtains K f b hd where "create L env (str_passphrase s) n fs = (Inr K, f)"
    and "map_of (fs_files f) ''header.der'' = Some \<lparr>file_data = b, file_mode = 384\<rparr>"
    and "StrictKeystoreHeader_load L b = Inr hd"
    and "map_of (fs_dirs f) [] = Some 448" "map_of (fs_dirs f) ''public'' = Some 448" "map_of (fs_dirs f) ''private'' = Some 448"
    and "open_directory L (str_passphrase s) f = Inr K"
proof -
  obtain K f h where c: "create L env (str_passphrase s) n fs = (Inr K, f)"
    by (rule created_directory [OF assms])
  obtain tag where t: "derive_master_key L (str_passphrase s) (env_salt env) n = Inr (kd_master_key K)"
      "derive_check_tag L (kd_master_key K) (env_salt env) = Inr tag"
    and f: "files f = [HEADER_PATH \<mapsto> \<lparr>file_data = der_encode L (keystore_header_value
        \<lparr>kh_version = 0, kh_kdf_salt = env_salt env, kh_kdf_iterations = n, kh_verification_tag = tag\<rparr>), file_mode = 384\<rparr>]"
    by (rule create_cases [OF c])
  have "StrictKeystoreHeader_load L (der_encode L (keystore_header_value
      \<lparr>kh_version = 0, kh_kdf_salt = env_salt env, kh_kdf_iterations = n, kh_verification_tag = tag\<rparr>)) =
      Inr \<lparr>kh_version = 0, kh_kdf_salt = env_salt env, kh_kdf_iterations = n, kh_verification_tag = tag\<rparr>"
    unfolding StrictKeystoreHeader_load_def
    by (rule canonical_dump [OF readyD(5) [OF assms(1)]]) (simp add: keystore_header_value_def, simp)
  moreover have "open_directory L (str_passphrase s) f = Inr K"
    using open_directory_header [OF readyD(5) [OF assms(1)], of f "env_salt env" n tag 384] t by (simp add: f)
  ultimately show thesis
    using c create_dirs [OF c] by (intro that) (simp_all add: f HEADER_PATH_def)
qed

lemma wrong_passphrase_refused:
  assumes "keystore_tests_ready L" "wrong_tag_differs L (env_salt env)"
    and "create L env (str_passphrase ''correct horse battery staple'') DEFAULT_PBKDF2_ITERATIONS fs = (Inr K, f)"
  shows "open_directory L (str_passphrase ''wrong passphrase'') f = Inl WrongPassphrase"
proof -
  obtain tag where t: "derive_master_key L (str_passphrase ''correct horse battery staple'') (env_salt env) DEFAULT_PBKDF2_ITERATIONS = Inr (kd_master_key K)"
      "derive_check_tag L (kd_master_key K) (env_salt env) = Inr tag"
    and f: "files f = [HEADER_PATH \<mapsto> \<lparr>file_data = der_encode L (keystore_header_value
        \<lparr>kh_version = 0, kh_kdf_salt = env_salt env, kh_kdf_iterations = DEFAULT_PBKDF2_ITERATIONS, kh_verification_tag = tag\<rparr>), file_mode = 384\<rparr>]"
    by (rule create_cases [OF assms(3)])
  obtain mk where mk: "derive_master_key L (str_passphrase ''wrong passphrase'') (env_salt env) DEFAULT_PBKDF2_ITERATIONS = Inr mk"
    by (rule master_key_derived [OF assms(1) ascii_passphrases(2), of DEFAULT_PBKDF2_ITERATIONS])
      (simp add: DEFAULT_PBKDF2_ITERATIONS_def)
  obtain ck where "hkdf_sha256 L 32 (env_salt env) DOMAIN_CHECK mk = Inr ck"
    using readyD(3) [OF assms(1)] by (rule derive_works)
  then obtain tag' where t': "derive_check_tag L mk (env_salt env) = Inr tag'" by (simp add: derive_check_tag_def)
  then have "tag' \<noteq> tag" using assms(2) t mk unfolding wrong_tag_differs_def by metis
  then show ?thesis
    using open_directory_header [OF readyD(5) [OF assms(1)], of f "env_salt env" DEFAULT_PBKDF2_ITERATIONS tag 384] mk t'
    by (simp add: f)
qed

lemma key_pair_filed_in_new_directory:
  assumes "keystore_tests_ready L" "quiet env" "create L (env 0) (str_passphrase s) n fs = (Inr K, f)"
    and "create_mlkem_keypair L r 768 = Inr (pk, b)"
  obtains p f' f'' where "add_public_key L K (env 1) (WireKey pk) f = (Inr p, f')" "add_private_key L K (env 2) pk b f' = (Inr p, f'')"
proof -
  note ready = readyD [OF assms(1)]
  have fault: "env_fault (env m) = None" for m using assms(2) by (simp add: quiet_def)
  obtain h where h: "files f = [HEADER_PATH \<mapsto> h]" by (rule create_cases [OF assms(3)])
  then have "no_tmp f" using directory_paths by (simp add: no_tmp_def)
  moreover have "asn1_valid L (kem_public_key_value pk)"
    using assms(4) by (metis Pair_inject sum.inject(2) test_key [OF assms(1)])
  moreover obtain p where p: "primary_key_id L pk = Inr p" by (rule test_ids [OF assms(1)])
  moreover have "\<not> file_exists (public_path (hex_of p)) f" by (simp add: file_exists_def h)
  ultimately obtain f' x where a: "add_public_key L K (env 1) (WireKey pk) f = (Inr p, f')"
      "files f' = (files f)(public_path (hex_of p) \<mapsto> x)" "directory_wf L K f'" "no_tmp f'"
    using add_public_call [OF ready(2,3) fault create_wf [OF ready(2) assms(3)], of pk p 1] by blast
  have "file_exists (public_path (hex_of p)) f'" "\<not> file_exists (private_path (hex_of p)) f'"
    by (simp_all add: file_exists_def a(2) h)
  from private_key_filed [OF assms(1) fault a(3,4) p this, of 2 b] that a(1) show thesis by blast
qed

text \<open>
  The acceptance tests of the lifecycle pass over all working libraries: a directory is created with the
  modes and the header the documentation promises, its passphrase opens it, another one is refused, and a path
  with a file in it is not taken over.
\<close>

theorem lifecycle_feature_passes:
  assumes "keystore_tests_ready L" "quiet env" "wrong_tag_differs L (env_salt (env 0))"
  shows "list_all (passes empty_directory_context) (lifecycle_feature L env r mode fmode)"
proof -
  have fault: "env_fault (env n) = None" for n using assms(2) by (simp add: quiet_def)
  have it: "0 < DEFAULT_PBKDF2_ITERATIONS" by (simp add: DEFAULT_PBKDF2_ITERATIONS_def)
  note new = new_directory [OF assms(1) fault]
  obtain K f b hd where c: "create L (env 0) (str_passphrase ''correct horse battery staple'') DEFAULT_PBKDF2_ITERATIONS
      (made_path mode) = (Inr K, f)" "map_of (fs_files f) ''header.der'' = Some \<lparr>file_data = b, file_mode = 384\<rparr>"
      "StrictKeystoreHeader_load L b = Inr hd" "map_of (fs_dirs f) [] = Some 448"
      "open_directory L (str_passphrase ''correct horse battery staple'') f = Inr K"
    by (rule new [OF ascii_passphrases(1) it, where fs = "made_path mode"]) simp_all
  note wrong = wrong_passphrase_refused [OF assms(1,3) c(1)]
  obtain K1 f1 b1 where p: "create L (env 0) (str_passphrase ''pass'') DEFAULT_PBKDF2_ITERATIONS no_files = (Inr K1, f1)"
      "map_of (fs_files f1) ''header.der'' = Some \<lparr>file_data = b1, file_mode = 384\<rparr>" "map_of (fs_dirs f1) [] = Some 448"
      "map_of (fs_dirs f1) ''public'' = Some 448" "map_of (fs_dirs f1) ''private'' = Some 448"
    by (rule new [OF ascii_passphrases(3) it, where fs = no_files]) simp_all
  obtain pk b where k: "create_mlkem_keypair L r 768 = Inr (pk, b)" by (rule test_key [OF assms(1)])
  have filed: "\<exists>K f p f' f''. create L (env 0) (str_passphrase s) n fs = (Inr K, f) \<and>
      add_public_key L K (env 1) (WireKey pk) f = (Inr p, f') \<and> add_private_key L K (env 2) pk b f' = (Inr p, f'')"
    if ok: "list_all (\<lambda>c. of_char c < (128 :: nat)) s" "0 < n" "is_empty_dir fs" for s n fs
  proof -
    obtain K f where c: "create L (env 0) (str_passphrase s) n fs = (Inr K, f)" by (rule new [OF ok])
    obtain p f' f'' where "add_public_key L K (env 1) (WireKey pk) f = (Inr p, f')"
        "add_private_key L K (env 2) pk b f' = (Inr p, f'')"
      by (rule key_pair_filed_in_new_directory [OF assms(1,2) c k])
    with c show ?thesis by (intro exI conjI)
  qed
  have "\<not> is_empty_dir (put_file ''unrelated_file.txt'' x (made_path mode))" for x
    by (simp add: is_empty_dir_def put_file_def made_path_def make_dir_def no_files_def)
  then have refused: "create L (env 0) (str_passphrase ''some passphrase'') DEFAULT_PBKDF2_ITERATIONS
      (put_file ''unrelated_file.txt'' x (made_path mode)) = (Inl KeyDirectoryError, put_file ''unrelated_file.txt'' x (made_path mode))" for x
    by (simp add: create_def)
  show ?thesis
    using filed [OF ascii_passphrases(4), of 100 no_files] filed [OF ascii_passphrases(4), of 1 "made_path mode"]
      filed [OF ascii_passphrases(5), of 500 "made_path mode"]
    unfolding lifecycle_feature_def
    by (auto simp: run_directory private_steps lifecycle_steps c wrong p k refused read_bytes_def is_key_directory_error_def
        simp del: One_nat_def)
qed

end
