(* ===== verification/StoredForms.thy ===== *)
theory StoredForms
  imports DirectoryFeature X690
begin

section \<open>Stored entries in a BER form\<close>

text \<open>
  The last scenario of \<^verbatim>\<open>key_directory_private_keys.feature\<close> and of \<^verbatim>\<open>key_directory_public_keys.feature\<close>: an entry of the key
  directory is rewritten with a length that is not minimal, the outermost one of a private key entry, a nested one of
  a public key entry under a MAC that still verifies. The decoder reads the same entry, and the
  directory refuses it.
\<close>

subsection \<open>The steps\<close>

text \<open>\<^verbatim>\<open>b[1] == x\<close> asserted; an index past the end raises \<^verbatim>\<open>IndexError\<close>.\<close>

definition second_byte_is :: "byte \<Rightarrow> bytes \<Rightarrow> unit result" where
  "second_byte_is x b = (if length b \<le> 1 then Inl IndexError else assert_that (b ! 1 = x))"

definition lengthened :: "bytes \<Rightarrow> bytes \<Rightarrow> bytes" where
  "lengthened l b = take 1 b @ l @ drop 2 b"

definition private_entry_rewritten :: "lib \<Rightarrow> directory_context step" where
  "private_entry_rewritten L = run_steps
     [I_inspect_the_private_entry L,
      call (\<lambda>c K. with_attr (dx_stored_entry c) (\<lambda>e. with_attr (dx_kid c) (\<lambda>kid fs.
        let der = der_encode L (stored_private_key_entry_value e) in
        case second_byte_is 0x81 der of
          Inl x \<Rightarrow> (Inl x, fs)
        | Inr _ \<Rightarrow> (Inr (), write_bytes (private_path (hex_of kid)) (lengthened [0x82, 0x00] der) fs))))
        (\<lambda>_ c. c)]"

definition retrieving_private_non_canonical :: "lib \<Rightarrow> directory_context step" where
  "retrieving_private_non_canonical L = run_steps [I_attempt_to_retrieve_private L,
     \<lambda>c. (check (dx_retrieve_private_key c) (\<lambda>r. r = Inl NonCanonicalEncoding), c)]"

text \<open>\<^verbatim>\<open>bytes.find\<close>, without a position instead of -1, and \<^verbatim>\<open>bytes.count\<close>.\<close>

fun find_bytes :: "bytes \<Rightarrow> bytes \<Rightarrow> nat option" where
  "find_bytes sub b = (if take (length sub) b = sub then Some 0
     else case b of [] \<Rightarrow> None | _ # r \<Rightarrow> map_option Suc (find_bytes sub r))"

declare find_bytes.simps [simp del]

function count_bytes :: "bytes \<Rightarrow> bytes \<Rightarrow> nat" where
  "count_bytes sub b = (if sub = [] then length b + 1 else if b = [] then 0
     else if take (length sub) b = sub then 1 + count_bytes sub (drop (length sub) b) else count_bytes sub (tl b))"
  by auto
termination by (relation "measure (\<lambda>(sub, b). length b)") (auto simp: neq_Nil_conv)

declare count_bytes.simps [simp del]

text \<open>
  \<^verbatim>\<open>data_content[:idx] + non_minimal_pk + data_content[idx + len(pk_der):]\<close>, also for the index -1 of a \<^verbatim>\<open>find\<close> that fails.
\<close>

definition spliced :: "bytes \<Rightarrow> bytes \<Rightarrow> bytes \<Rightarrow> bytes" where
  "spliced pk_der non_minimal_pk data_content =
     (case find_bytes pk_der data_content of
        Some idx \<Rightarrow> take idx data_content @ non_minimal_pk @ drop (idx + length pk_der) data_content
      | None \<Rightarrow> butlast data_content @ non_minimal_pk @ drop (length pk_der - 1) data_content)"

text \<open>\<^verbatim>\<open>value.contents\<close>: what follows the tag and the length of its encoding.\<close>

fun contents_of :: "lib \<Rightarrow> asn1 \<Rightarrow> bytes" where
  "contents_of L (ASeq ts) = concat (map (der_encode L) ts)"
| "contents_of L t = []"

definition tampered_entry :: "lib \<Rightarrow> key_directory \<Rightarrow> bytes \<Rightarrow> string \<Rightarrow> bytes \<Rightarrow> bytes result" where
  "tampered_entry L K pk_der kid_hex_id b =
     (let non_minimal_pk = lengthened [0x83, 0x00] pk_der
     in rbind (StoredPublicKeyEntry_load L b) (\<lambda>stored.
        let data = spe_data stored;
            data_bytes = der_encode L (public_key_entry_data_value data)
        in rbind (assert_that (count_bytes pk_der data_bytes = 1)) (\<lambda>_.
           let header_len = length data_bytes - length (contents_of L (public_key_entry_data_value data));
               data_tag = take 1 data_bytes;
               data_content = drop header_len data_bytes;
               new_data_content = spliced pk_der non_minimal_pk data_content;
               new_data_bytes = data_tag @ der_length (length new_data_content) @ new_data_content
           in rbind (mac_public_key_data L K data (spe_mac_salt stored) kid_hex_id) (\<lambda>mac_tag.
              let outer_content = new_data_bytes @ der_encode L (AOctets (spe_mac_salt stored)) @ der_encode L (AOctets mac_tag)
              in Inr (take 1 b @ der_length (length outer_content) @ outer_content)))))"

definition public_entry_rewritten :: "lib \<Rightarrow> directory_context step" where
  "public_entry_rewritten L = run_steps
     [I_read_the_raw_bytes L,
      call (\<lambda>c K. with_attr (dx_raw_public_key_bytes c) (\<lambda>pk_der. with_attr (dx_kid c) (\<lambda>kid fs.
        case rbind (second_byte_is 0x82 pk_der) (\<lambda>_.
               rbind (read_bytes (public_path (hex_of kid)) fs) (tampered_entry L K pk_der (hex_of kid))) of
          Inl x \<Rightarrow> (Inl x, fs)
        | Inr tampered \<Rightarrow> (Inr (), write_bytes (public_path (hex_of kid)) tampered fs))))
        (\<lambda>_ c. c)]"

definition I_attempt_to_retrieve_public :: "lib \<Rightarrow> directory_context step" where
  "I_attempt_to_retrieve_public L = trying
     (call (\<lambda>c K. with_attr (dx_kid c) (\<lambda>kid. reading (get_public_key L K kid))) (\<lambda>_ c. c))
     (\<lambda>r c. c\<lparr>dx_retrieve_public_key := Some r\<rparr>)"

definition retrieving_public_non_canonical :: "directory_context step" where
  "retrieving_public_non_canonical c = (check (dx_retrieve_public_key c) (\<lambda>r. r = Inl NonCanonicalEncoding), c)"

definition stored_forms_scenarios :: "lib \<Rightarrow> (nat \<Rightarrow> os_env) \<Rightarrow> bytes \<Rightarrow> directory_context step list list" where
  "stored_forms_scenarios L env r =
     map (\<lambda>ss. a_key_directory_with_pass L (env 0) # a_valid_pk L r # pk_added_with_kid L (env 1) # ss)
     [[private_pk_already_added L (env 2), private_entry_rewritten L, I_attempt_to_retrieve_private L,
       retrieving_private_non_canonical L],
      [public_entry_rewritten L, I_attempt_to_retrieve_public L, retrieving_public_non_canonical]]"

subsection \<open>What the scenarios rely on\<close>

text \<open>
  The lengths of SHA-256 and HMAC-SHA-256, of a key wrapped by RFC 5649, of a private key (the seed of FIPS 203) and
  of the salts the code draws (\<^verbatim>\<open>MAC_SALT_LEN\<close>, \<^verbatim>\<open>KEK_SALT_LEN\<close>).
\<close>

definition standard_lengths :: "lib \<Rightarrow> (nat \<Rightarrow> os_env) \<Rightarrow> bytes \<Rightarrow> bool" where
  "standard_lengths L env r \<longleftrightarrow>
     (\<forall>b h. hash_new L ''sha256'' b = Inr h \<longrightarrow> length h = 32) \<and>
     (\<forall>k b. length (hmac_sha256 L k b) = 32) \<and>
     (\<forall>kek b w. aes_key_wrap_with_padding L kek b = Inr w \<longrightarrow> length w = 8 * ((length b + 7) div 8) + 8) \<and>
     (\<forall>pk b. create_mlkem_keypair L r 768 = Inr (pk, b) \<longrightarrow> length b = 64) \<and>
     (\<forall>n. length (env_salt (env n)) = 16)"

subsection \<open>Encodings of the entries\<close>

lemma encoded_oids:
  "x690 (AOid ''2.16.840.1.101.3.4.2.1'') = [0x06, 9, 0x60, 0x86, 0x48, 1, 0x65, 3, 4, 2, 1]"
  "x690 (AOid ''2.16.840.1.101.3.4.4.2'') = [0x06, 9, 0x60, 0x86, 0x48, 1, 0x65, 3, 4, 4, 2]"
  "x690 (AOid ''2.16.840.1.101.3.4.1.48'') = [0x06, 9, 0x60, 0x86, 0x48, 1, 0x65, 3, 4, 1, 0x30]"
  by code_simp+

lemma tlv_forms:
  "length c < 128 \<Longrightarrow> tlv 0x20 16 c = 0x30 # word_of_nat (length c) # c"
  "128 \<le> length c \<Longrightarrow> length c < 256 \<Longrightarrow> tlv 0x20 16 c = 0x30 # 0x81 # word_of_nat (length c) # c"
  "256 \<le> length c \<Longrightarrow> length c < 65536 \<Longrightarrow>
     tlv 0x20 16 c = 0x30 # 0x82 # word_of_nat (length c div 256) # word_of_nat (length c) # c"
  "length c < 128 \<Longrightarrow> tlv 0 4 c = 0x04 # word_of_nat (length c) # c"
  "256 \<le> length c \<Longrightarrow> length c < 65536 \<Longrightarrow>
     tlv 0 4 c = 0x04 # 0x82 # word_of_nat (length c div 256) # word_of_nat (length c) # c"
  by (simp_all add: tlv_def write_tag_def der_length_forms)

lemma x690_alg:
  "length (x690 (AOid oid)) = 11 \<Longrightarrow>
   x690 (alg_value \<lparr>alg_algorithm = oid, alg_parameters = None\<rparr>) = 0x30 # 0x0b # x690 (AOid oid)"
  by (simp del: x690.simps(3) add: alg_value_def tlv_forms(1))

lemma primary_id_form:
  assumes "keystore_tests_ready L" "standard_lengths L env r" "primary_key_id L pk = Inr p"
  shows "kid_hash_algorithm p = \<lparr>alg_algorithm = ''2.16.840.1.101.3.4.2.1'', alg_parameters = None\<rparr>"
    and "length (kid_key_hash p) = 32" "asn1_valid L (key_id_value p)"
proof -
  obtain a h where h: "hash_new L ''sha256'' (KemPublicKey_dump L pk) = Inr h" "digest_algorithm L ''sha256'' = Inr a"
      "p = \<lparr>kid_hash_algorithm = a, kid_key_hash = h\<rparr>"
    using assms(3) by (auto simp: primary_key_id_def KeyId_build_def simp del: KeyId_build_eq_Inr)
  then show "kid_hash_algorithm p = \<lparr>alg_algorithm = ''2.16.840.1.101.3.4.2.1'', alg_parameters = None\<rparr>"
    using assms(1) by (simp add: keystore_tests_ready_def)
  show "length (kid_key_hash p) = 32" using h assms(2) by (simp add: standard_lengths_def)
  show "asn1_valid L (key_id_value p)"
    using KeyId_build_valid(1) [OF readyD(2) [OF assms(1)]] assms(3) by (simp only: primary_key_id_def)
qed

lemma length_key_id:
  assumes "keystore_tests_ready L" "standard_lengths L env r" "primary_key_id L pk = Inr p"
  shows "length (x690 (key_id_value p)) = 49"
  using primary_id_form [OF assms]
  by (simp add: key_id_value_def x690_alg encoded_oids tlv_forms del: x690.simps(3))

text \<open>A form that is BER for a value but not its DER is read and then refused.\<close>

lemma ber_form_refused:
  assumes "reads_ber L" "asn1_valid L (value x)" "ber (value x) b" "b \<noteq> der_encode L (value x)" "of_value (value x) = Inr x"
  shows "canonical L of_value value b = Inl NonCanonicalEncoding"
  using assms by (auto simp: reads_ber_def canonical_def require_der_def)

lemma private_form_refused:
  assumes "keystore_tests_ready L" "standard_lengths L env r" "writes_der L" "reads_ber L" "primary_key_id L pk = Inr p"
    and e: "e = \<lparr>sve_key_id = p, sve_kek_salt = salt, sve_wrap_algorithm = WRAP_ALGORITHM_OID, sve_wrapped_key = w\<rparr>"
    and "length salt = 16" "length w = 72"
  shows "second_byte_is 0x81 (der_encode L (stored_private_key_entry_value e)) = Inr ()"
    and "StoredPrivateKeyEntry_load L (lengthened [0x82, 0x00] (der_encode L (stored_private_key_entry_value e))) =
      Inl NonCanonicalEncoding"
proof -
  let ?t = "stored_private_key_entry_value e"
  obtain ts where t: "?t = ASeq ts" and ts: "ts = [key_id_value p, AOctets salt, AOid WRAP_ALGORITHM_OID, AOctets w]"
    by (simp add: stored_private_key_entry_value_def e)
  have len: "length (concat (map x690 ts)) = 152"
    using length_key_id [OF assms(1,2,5)] assms(7,8)
    by (simp add: ts WRAP_ALGORITHM_OID_def encoded_oids tlv_forms del: x690.simps(3))
  have enc: "x690 ?t = 0x30 # 0x81 # 0x98 # concat (map x690 ts)"
    using len by (simp add: t tlv_forms)
  have valid: "asn1_valid L ?t"
    using primary_id_form(3) [OF assms(1,2,5)] keystore_libsD(2) [OF readyD(2) [OF assms(1)]] by (simp add: t ts)
  have reads: "stored_private_key_entry_of (ASeq ts) = Inr e" unfolding t [symmetric] by simp
  have small: "der_size_ok ?t" using len by (simp add: der_size_ok_def t tlv_forms)
  have d: "der_encode L ?t = 0x30 # 0x81 # 0x98 # concat (map x690 ts)"
    using assms(3) valid small enc by (simp add: writes_der_def)
  show "second_byte_is 0x81 (der_encode L ?t) = Inr ()" by (simp add: d second_byte_is_def)
  have "ber (ASeq ts) (0x30 # [0x82, 0, 0x98] @ concat (map x690 ts))"
    by (rule ber_outer_length [where L = L]) (use valid small t len in \<open>simp_all add: length_octets_def nat_of_bytes_def\<close>)
  then show "StoredPrivateKeyEntry_load L (lengthened [0x82, 0x00] (der_encode L ?t)) = Inl NonCanonicalEncoding"
    unfolding StoredPrivateKeyEntry_load_def
    using valid by (intro ber_form_refused [where x = e] assms(4)) (simp_all only: d, simp_all add: lengthened_def t reads)
qed

subsection \<open>Finding and counting bytes\<close>

lemma find_bytes_prefix [simp]: "find_bytes sub (sub @ r) = Some 0"
  by (simp add: find_bytes.simps)

lemma count_bytes_short: "sub \<noteq> [] \<Longrightarrow> length b < length sub \<Longrightarrow> count_bytes sub b = 0"
proof (induction b)
  case (Cons x b)
  have "take (length sub) (x # b) \<noteq> sub" using Cons.prems(2) by (metis length_take min.strict_order_iff nat_neq_iff)
  then show ?case using Cons by (simp add: count_bytes.simps [of sub "x # b"])
qed (simp add: count_bytes.simps)

lemma count_bytes_here: "sub \<noteq> [] \<Longrightarrow> count_bytes sub (sub @ r) = 1 + count_bytes sub r"
  by (subst count_bytes.simps) simp

lemma count_bytes_skip:
  "take (length sub) (x # b) \<noteq> sub \<Longrightarrow> sub \<noteq> [] \<Longrightarrow> count_bytes sub (x # b) = count_bytes sub b"
  by (simp add: count_bytes.simps [of sub "x # b"])

lemma spliced_prefix [simp]: "spliced p n (p @ r) = n @ r"
  by (simp add: spliced_def)

text \<open>A sequence header in front of the bytes does not begin another occurrence of them.\<close>

lemma count_after_header:
  assumes "sub = 0x30 # 0x82 # h' # l' # c" "length r < length sub" "h \<noteq> 0x30" "(h, l) \<noteq> (h', l')"
  shows "count_bytes sub (0x30 # 0x82 # h # l # sub @ r) = 1"
proof -
  have ne: "sub \<noteq> []" using assms(1) by simp
  have "count_bytes sub (0x30 # 0x82 # h # l # sub @ r) = count_bytes sub (0x82 # h # l # sub @ r)"
    by (rule count_bytes_skip) (use assms in auto)
  also have "\<dots> = count_bytes sub (h # l # sub @ r)" by (rule count_bytes_skip) (use assms in auto)
  also have "\<dots> = count_bytes sub (l # sub @ r)" by (rule count_bytes_skip) (use assms in auto)
  also have "\<dots> = count_bytes sub (sub @ r)" by (rule count_bytes_skip) (use assms in auto)
  finally show ?thesis using count_bytes_here [OF ne] count_bytes_short [OF ne assms(2)] by simp
qed

subsection \<open>The public key entry\<close>

lemma ber_seq_header:
  "list_all2 ber ts bs \<Longrightarrow> length_octets (length (concat bs)) l \<Longrightarrow> ber (ASeq ts) (0x30 # l @ concat bs)"
  using ber_seq [of ts bs l] by (simp add: write_tag_def)

text \<open>The lengths of the parts of an entry for an ML-KEM-768 key.\<close>

lemma public_key_form:
  assumes "pk_algorithm pk = kem_alg ''2.16.840.1.101.3.4.4.2''" "length (pk_public_key pk) = 1184"
  obtains c where "x690 (kem_public_key_value pk) = 0x30 # 0x82 # 0x04 # 0xB1 # c" "length c = 1201"
    and "c = concat (map x690 [alg_value (pk_algorithm pk), AOctets (pk_public_key pk)])"
proof -
  let ?c = "concat (map x690 [alg_value (pk_algorithm pk), AOctets (pk_public_key pk)])"
  have "length ?c = 1201"
    using assms by (simp add: kem_alg_def x690_alg encoded_oids tlv_forms del: x690.simps(3))
  then show thesis by (intro that [of ?c]) (simp_all add: kem_public_key_value_def tlv_forms)
qed

text \<open>The entry of such a key: its parts, and the whole with a leading zero in the length of the key.\<close>

lemma entry_forms:
  assumes "length (x690 P) = 1205" "length (x690 I) = 51" "length salt = 16" "length tag = 32"
  shows "x690 (ASeq [P, I]) = 0x30 # 0x82 # 0x04 # 0xE8 # x690 P @ x690 I"
    and "x690 (ASeq [ASeq [P, I], AOctets salt, AOctets tag]) =
      0x30 # 0x82 # 0x05 # 0x20 # x690 (ASeq [P, I]) @ x690 (AOctets salt) @ x690 (AOctets tag)"
    and "length (x690 (AOctets salt)) = 18" "length (x690 (AOctets tag)) = 34"
    and "length (der_length 1257) = 3" "length (der_length 1313) = 3"
  using assms by (simp_all add: tlv_forms der_length_forms)

lemma lengthened_entry_ber:
  assumes "asn1_valid L (ASeq ts)" "asn1_valid L I" "length (concat (map x690 ts)) = 1201"
    and len: "length (x690 I) = 51" "length salt = 16" "length tag = 32"
  shows "ber (ASeq [ASeq [ASeq ts, I], AOctets salt, AOctets tag])
    (0x30 # der_length 1313 @ (0x30 # der_length 1257 @ (0x30 # 0x83 # 0 # 0x04 # 0xB1 # concat (map x690 ts)) @ x690 I) @
       x690 (AOctets salt) @ x690 (AOctets tag))"
    (is "ber _ (0x30 # der_length 1313 @ (0x30 # der_length 1257 @ ?n @ x690 I) @ _)")
proof -
  have small: "der_size_ok (ASeq ts)" "der_size_ok I" "der_size_ok (AOctets salt)" "der_size_ok (AOctets tag)"
    using assms(3) len by (simp_all add: der_size_ok_def tlv_forms)
  have n: "length ?n = 1206" and P: "length (x690 (ASeq ts)) = 1205" using assms(3) by (simp_all add: tlv_forms)
  have "ber (ASeq ts) ?n"
    using ber_outer_length [OF assms(1) small(1), of "[0x83, 0, 0x04, 0xB1]"] assms(3)
    by (simp add: length_octets_def nat_of_bytes_def)
  then have "ber (ASeq [ASeq ts, I]) (0x30 # der_length 1257 @ concat [?n, x690 I])"
    by (intro ber_seq_header)
      (use ber_x690 [OF assms(2) small(2)] n len(1) in \<open>simp_all add: length_octets_der_length del: x690.simps\<close>)
  moreover have "ber (AOctets salt) (x690 (AOctets salt))" "ber (AOctets tag) (x690 (AOctets tag))"
    by (rule ber_x690 [where L = L]; use small in simp)+
  ultimately have "ber (ASeq [ASeq [ASeq ts, I], AOctets salt, AOctets tag])
      (0x30 # der_length 1313 @ concat [0x30 # der_length 1257 @ concat [?n, x690 I], x690 (AOctets salt), x690 (AOctets tag)])"
    by (intro ber_seq_header)
      (use n len entry_forms(3-6) [OF P len] in \<open>simp_all add: length_octets_der_length del: x690.simps\<close>)
  then show ?thesis by (simp del: x690.simps)
qed

lemma tampered_form:
  assumes "writes_der L" "reads_ber L"
    and pk: "pk_algorithm pk = kem_alg ''2.16.840.1.101.3.4.4.2''" "length (pk_public_key pk) = 1184"
      "asn1_valid L (kem_public_key_value pk)"
    and p: "length (x690 (key_id_value p)) = 49" "asn1_valid L (key_id_value p)"
    and e: "e = \<lparr>spe_data = \<lparr>ped_public_key = pk, ped_key_ids = [p]\<rparr>, spe_mac_salt = salt, spe_mac_tag = tag\<rparr>"
      "length salt = 16" "length tag = 32"
    and mac: "mac_public_key_data L K (spe_data e) salt h = Inr tag"
    and load: "StoredPublicKeyEntry_load L (der_encode L (stored_public_key_entry_value e)) = Inr e"
  obtains b where "second_byte_is 0x82 (KemPublicKey_dump L pk) = Inr ()"
    and "tampered_entry L K (KemPublicKey_dump L pk) h (der_encode L (stored_public_key_entry_value e)) = Inr b"
    and "StoredPublicKeyEntry_load L b = Inl NonCanonicalEncoding"
proof -
  obtain c where c: "x690 (kem_public_key_value pk) = 0x30 # 0x82 # 0x04 # 0xB1 # c" "length c = 1201"
      "c = concat (map x690 [alg_value (pk_algorithm pk), AOctets (pk_public_key pk)])"
    by (rule public_key_form [OF pk(1,2)])
  let ?P = "kem_public_key_value pk" and ?I = "ASeq [key_id_value p]"
  let ?D = "ASeq [?P, ?I]"
  let ?S = "ASeq [?D, AOctets salt, AOctets tag]"
  have data: "public_key_entry_data_value (spe_data e) = ?D" and entry: "stored_public_key_entry_value e = ?S"
    by (simp_all add: e(1) public_key_entry_data_value_def stored_public_key_entry_value_def)
  have reads: "stored_public_key_entry_of ?S = Inr e" unfolding entry [symmetric] by simp
  have I: "length (x690 ?I) = 51" using p(1) by (simp add: tlv_forms)
  have P: "length (x690 ?P) = 1205" using c(1,2) by simp
  note forms = entry_forms [OF P I e(2,3)]
  have der: "der_encode L ?P = x690 ?P" "der_encode L ?D = x690 ?D" "der_encode L ?S = x690 ?S" "der_encode L ?I = x690 ?I"
      "der_encode L (AOctets salt) = x690 (AOctets salt)" "der_encode L (AOctets tag) = x690 (AOctets tag)"
    by (rule assms(1) [unfolded writes_der_def, rule_format];
      use pk(3) p(2) P I forms in \<open>simp add: der_size_ok_def del: x690.simps\<close>)+
  define q i n where "q = x690 ?P" and "i = x690 ?I" and "n = 0x30 # 0x83 # 0 # 0x04 # 0xB1 # c"
  define b where "b = 0x30 # der_length 1313 @ (0x30 # der_length 1257 @ n @ i) @ x690 (AOctets salt) @ x690 (AOctets tag)"
  have q: "q = 0x30 # 0x82 # 0x04 # 0xB1 # c" "length q = 1205" and len: "length n = 1206" "length i = 51"
    using c(1,2) I by (simp_all add: q_def n_def i_def del: x690.simps)
  have dump: "KemPublicKey_dump L pk = q" using der(1) by (simp add: KemPublicKey_dump_def q_def)
  have count: "count_bytes q (0x30 # 0x82 # 0x04 # 0xE8 # q @ i) = 1"
    by (rule count_after_header [OF q(1)]) (simp_all add: q(2) len)
  have bytes: "StoredPublicKeyEntry_load L (x690 ?S) = Inr e" "contents_of L (public_key_entry_data_value (spe_data e)) = q @ i"
      "der_encode L (public_key_entry_data_value (spe_data e)) = 0x30 # 0x82 # 0x04 # 0xE8 # q @ i"
    using load
    by (simp_all only: entry data der forms(1) contents_of.simps list.map concat.simps q_def i_def append_Nil2)
  have parts: "mac_public_key_data L K (spe_data e) (spe_mac_salt e) h = Inr tag" "take 1 (x690 ?S) = [0x30]"
      "lengthened [0x83, 0x00] q = n" "der_encode L (AOctets (spe_mac_salt e)) = x690 (AOctets salt)"
    using mac der(5) forms(2) q(1) by (simp_all add: e(1) lengthened_def n_def del: x690.simps)
  show thesis
  proof (rule that)
    show "second_byte_is 0x82 (KemPublicKey_dump L pk) = Inr ()" by (simp add: dump q(1) second_byte_is_def)
    show "tampered_entry L K (KemPublicKey_dump L pk) h (der_encode L (stored_public_key_entry_value e)) = Inr b"
      unfolding tampered_entry_def dump entry der(3) bytes parts Let_def count der(6)
      by (simp add: bytes parts count len q(2) b_def forms(3-6) Let_def der(6) del: x690.simps)
    have "ber (stored_public_key_entry_value e) b"
      using lengthened_entry_ber [OF pk(3) [unfolded kem_public_key_value_def] _ c(2) [unfolded c(3)] I e(2,3)] p(2)
      unfolding entry b_def n_def i_def kem_public_key_value_def c(3) by simp
    moreover have "b \<noteq> x690 ?S"
      using len forms P I by (auto simp: b_def simp del: x690.simps dest!: arg_cong [where f = length])
    ultimately show "StoredPublicKeyEntry_load L b = Inl NonCanonicalEncoding"
      unfolding StoredPublicKeyEntry_load_def
      by (intro ber_form_refused [where x = e] assms(2)) (use pk(3) p(2) reads in \<open>simp_all add: entry der del: x690.simps\<close>)
  qed
qed

subsection \<open>The scenarios pass\<close>

lemma private_form_not_read:
  assumes "sha256_id L p" "StoredPrivateKeyEntry_load L b = Inl x"
  shows "get_private_key L K p (write_bytes (private_path (hex_of p)) b fs) = Inl x"
  using assms by (simp add: get_private_key_def write_bytes_def file_exists_def read_bytes_def put_file_def update_conv')

lemma public_form_not_read:
  assumes "StoredPublicKeyEntry_load L b = Inl x"
  shows "get_public_key L K p (write_bytes (public_path (hex_of p)) b fs) = Inl x"
  using assms
  by (simp add: get_public_key_def load_public_entry_by_key_id_def load_verified_def write_bytes_def file_exists_def
      read_bytes_def put_file_def update_conv' Let_def)

lemma test_key_form:
  assumes "keystore_tests_ready L" "create_mlkem_keypair L r 768 = Inr (pk, b)"
  shows "pk_algorithm pk = kem_alg ''2.16.840.1.101.3.4.4.2''" "length (pk_public_key pk) = 1184"
    and "asn1_valid L (kem_public_key_value pk)"
proof -
  obtain k where k: "key_pair L k pk" "priv_level k = 768" "kem_public_key_ok 768 pk" "alg_parameters (pk_algorithm pk) = None"
    using create_mlkem_keypair_works [OF readyD(4) [OF assms(1)], of 768 r] assms(2) by auto
  then show "pk_algorithm pk = kem_alg ''2.16.840.1.101.3.4.4.2''" "length (pk_public_key pk) = 1184"
    by (auto simp: kem_public_key_ok_def kem_alg_def MLKEM_OIDS_def fips203_pk_len_def key_pair_def)
  show "asn1_valid L (kem_public_key_value pk)" using test_key [OF assms(1), of r] assms(2) by auto
qed

text \<open>
  The scenarios about entries in a BER form pass over all working libraries: a private key entry whose outermost
  length has a leading zero, and a public key entry with such a length inside the key and a MAC that still
  verifies, decode to the entry that was stored and are refused all the same, as not canonical.
\<close>

theorem stored_forms_refused:
  assumes "keystore_tests_ready L" "quiet env" "writes_der L" "reads_ber L" "standard_lengths L env r"
  shows "list_all (passes empty_directory_context) (stored_forms_scenarios L env r)"
proof -
  note ready = readyD [OF assms(1)]
  have fault: "env_fault (env n) = None" for n using assms(2) by (simp add: quiet_def)
  obtain K f1 pk b p f2 where bg: "create L (env 0) (str_passphrase ''pass'') DEFAULT_PBKDF2_ITERATIONS no_files = (Inr K, f1)"
      "create_mlkem_keypair L r 768 = Inr (pk, b)" "primary_key_id L pk = Inr p"
      "add_public_key L K (env 1) (WireKey pk) f1 = (Inr p, f2)"
    and wf: "directory_wf L K f2" "no_tmp f2" and files: "load_verified L K (hex_of p) f2 = Inr \<lparr>ped_public_key = pk, ped_key_ids = [p]\<rparr>"
      "\<forall>h. file_exists (public_path h) f2 \<longleftrightarrow> h = hex_of p" "\<forall>h. \<not> file_exists (private_path h) f2"
    by (rule directory_with_pk [OF assms(1,2), of r 1])
  note p = length_key_id [OF assms(1,5) bg(3)] primary_id_form(3) [OF assms(1,5) bg(3)]
  have sha: "sha256_id L p" by (rule primary_sha256 [OF bg(3)])
  have here: "file_exists (public_path (hex_of p)) f2" by (simp add: files(2))
  obtain f3 kek w e where f3: "add_private_key L K (env 2) pk b f2 = (Inr p, f3)" "aes_key_wrap_with_padding L kek b = Inr w"
    and e: "e = \<lparr>sve_key_id = p, sve_kek_salt = env_salt (env 2), sve_wrap_algorithm = WRAP_ALGORITHM_OID, sve_wrapped_key = w\<rparr>"
    and ef: "files f3 = (files f2)(private_path (hex_of p) \<mapsto>
        \<lparr>file_data = der_encode L (stored_private_key_entry_value e), file_mode = 384\<rparr>)"
    and el: "\<forall>w'. StoredPrivateKeyEntry_load L (der_encode L (stored_private_key_entry_value (e\<lparr>sve_wrapped_key := w'\<rparr>))) =
        Inr (e\<lparr>sve_wrapped_key := w'\<rparr>)"
    by (rule add_private_call [where b = b, OF ready(2,3) fault wf ready(8) bg(3) here files(3) [rule_format]])
  have "length b = 64" "length (env_salt (env 2)) = 16" using assms(5) bg(2) by (auto simp: standard_lengths_def)
  moreover from this have "length w = 72" using assms(5) f3(2) by (auto simp: standard_lengths_def)
  ultimately have priv: "second_byte_is 0x81 (der_encode L (stored_private_key_entry_value e)) = Inr ()"
      "StoredPrivateKeyEntry_load L (lengthened [0x82, 0x00] (der_encode L (stored_private_key_entry_value e))) = Inl NonCanonicalEncoding"
    using private_form_refused [OF assms(1,5,3,4) bg(3) e] by simp_all
  have le: "load_private_entry L p f3 = Inr e"
    using stored_entry_loads [of f3 p L e 384] ef el [rule_format, of w] by (simp add: e)
  obtain se where se: "build_stored_public_key_entry L K (env 1) \<lparr>ped_public_key = pk, ped_key_ids = [p]\<rparr> (hex_of p) = Inr se"
      "files f2 = (files f1)(public_path (hex_of p) \<mapsto> \<lparr>file_data = der_encode L (stored_public_key_entry_value se), file_mode = 420\<rparr>)"
    using bg(4) by (cases rule: add_public_key_cases) auto
  then obtain tag where tag: "se = \<lparr>spe_data = \<lparr>ped_public_key = pk, ped_key_ids = [p]\<rparr>, spe_mac_salt = env_salt (env 1), spe_mac_tag = tag\<rparr>"
      "mac_public_key_data L K (spe_data se) (env_salt (env 1)) (hex_of p) = Inr tag"
    by (auto simp: build_stored_public_key_entry_def)
  then have lengths: "length tag = 32" "length (env_salt (env 1)) = 16"
    using assms(5) by (auto simp: mac_public_key_data_def standard_lengths_def)
  have stored: "read_bytes (public_path (hex_of p)) f2 = Inr (der_encode L (stored_public_key_entry_value se))"
    using se(2) by (simp add: read_bytes_def)
  have sl: "StoredPublicKeyEntry_load L (der_encode L (stored_public_key_entry_value se)) = Inr se"
    using test_key_form(3) [OF assms(1) bg(2)] p(2)
    by (intro StoredPublicKeyEntry_load_dump ready(5)) (simp add: tag(1) stored_public_key_entry_value_def public_key_entry_data_value_def)
  obtain tb where tb: "second_byte_is 0x82 (KemPublicKey_dump L pk) = Inr ()"
      "tampered_entry L K (KemPublicKey_dump L pk) (hex_of p) (der_encode L (stored_public_key_entry_value se)) = Inr tb"
      "StoredPublicKeyEntry_load L tb = Inl NonCanonicalEncoding"
    by (rule tampered_form [OF assms(3,4) test_key_form [OF assms(1) bg(2)] p tag(1) lengths(2,1) tag(2) sl])
  have key: "ped_public_key (spe_data se) = pk" by (simp add: tag(1))
  show ?thesis
    unfolding stored_forms_scenarios_def
    by (simp add: run_directory private_steps private_entry_rewritten_def retrieving_private_non_canonical_def
        public_entry_rewritten_def I_attempt_to_retrieve_public_def retrieving_public_non_canonical_def I_read_the_raw_bytes_def
        bg f3(1) le priv private_form_not_read [OF sha priv(2)] stored sl key tb public_form_not_read [OF tb(3)] Let_def del: One_nat_def)
qed

end
