(* ===== verification/PartiesFixture.thy ===== *)
theory PartiesFixture
  imports Handshake
begin

section \<open>\<^verbatim>\<open>features/environment.py\<close>: two parties that know each other\<close>

text \<open>
  The fixture \<^verbatim>\<open>fixture.parties\<close> of the features: a key lookup over two dicts indexed by key hash, two identities
  drawn from the backend, and two sessions with short deadlines. \<open>parties\<close> is the fixture up to its \<^verbatim>\<open>yield\<close>; the
  registry of fixtures and the tag hook are behave's. The theorem: the two sessions it makes do run the
  handshake to the end, whatever keys were drawn.
\<close>

record KeyLookup =
  lk_pub :: "(bytes, kem_public_key) dict"
  lk_priv :: "(bytes, bytes) dict"

definition KeyLookup_init :: KeyLookup where
  "KeyLookup_init = \<lparr>lk_pub = [], lk_priv = []\<rparr>"

definition KeyLookup_add :: "key_id \<Rightarrow> kem_public_key \<Rightarrow> bytes option \<Rightarrow> KeyLookup \<Rightarrow> KeyLookup" where
  "KeyLookup_add key_id public_key private_key keys =
     (let keys1 = keys\<lparr>lk_pub := AList.update (kid_key_hash key_id) public_key (lk_pub keys)\<rparr>
      in case private_key of
           None \<Rightarrow> keys1
         | Some b \<Rightarrow> keys1\<lparr>lk_priv := AList.update (kid_key_hash key_id) b (lk_priv keys1)\<rparr>)"

text \<open>\<open>get_public_key\<close> and \<open>get_private_key\<close>, as what a session is given.\<close>

definition KeyLookup_functions :: "KeyLookup \<Rightarrow> key_lookup" where
  "KeyLookup_functions keys =
     \<lparr>kl_get_public_key = (\<lambda>key_id. lookup_or_KeyError (map_of (lk_pub keys) (kid_key_hash key_id))),
      kl_get_private_key = (\<lambda>key_id. lookup_or_KeyError (map_of (lk_priv keys) (kid_key_hash key_id)))\<rparr>"

definition make_identity :: "lib \<Rightarrow> bytes \<Rightarrow> (mlkem_private \<times> kem_public_key \<times> key_id) result" where
  "make_identity L r =
     rbind (mlkem_generate L 768 r) (\<lambda>private.
     rbind (KemPublicKey_build (mlkem_public_bytes L private) (Some 768) None) (\<lambda>public_wire.
     rbind (KeyId_build L public_wire ''sha256'') (\<lambda>key_id.
     Inr (private, public_wire, key_id))))"

record parties =
  pt_alice :: session
  pt_bob :: session
  pt_alice_kid :: key_id
  pt_bob_kid :: key_id
  pt_alice_pub :: kem_public_key
  pt_bob_pub :: kem_public_key
  pt_alice_keys :: KeyLookup
  pt_bob_keys :: KeyLookup
  pt_config :: session_config

definition make_parties :: "lib \<Rightarrow> bytes \<Rightarrow> bytes \<Rightarrow> parties result" where
  "make_parties L rA rB =
     rbind (make_identity L rA) (\<lambda>(alice_priv, alice_pub, alice_kid).
     rbind (make_identity L rB) (\<lambda>(bob_priv, bob_pub, bob_kid).
     let alice_keys = KeyLookup_add bob_kid bob_pub None
           (KeyLookup_add alice_kid alice_pub (Some (private_bytes_raw alice_priv)) KeyLookup_init);
         bob_keys = KeyLookup_add alice_kid alice_pub None
           (KeyLookup_add bob_kid bob_pub (Some (private_bytes_raw bob_priv)) KeyLookup_init);
         alice_config = SessionConfig\<lparr>cfg_max_retries := 2, cfg_retry_interval_seconds := 5, cfg_ttl_seconds := 20\<rparr>;
         bob_config = SessionConfig\<lparr>cfg_max_retries := 2, cfg_retry_interval_seconds := 5, cfg_ttl_seconds := 20\<rparr>;
         alice = Session_init INITIATOR (Some alice_kid) (Some alice_config);
         bob = Session_init RESPONDER (Some bob_kid) (Some bob_config)
     in Inr \<lparr>pt_alice = alice, pt_bob = bob, pt_alice_kid = alice_kid, pt_bob_kid = bob_kid,
             pt_alice_pub = alice_pub, pt_bob_pub = bob_pub, pt_alice_keys = alice_keys, pt_bob_keys = bob_keys,
             pt_config = alice_config\<rparr>))"

text \<open>SHA-256 exists and its identifier can be encoded; the two keys drawn have different digests.\<close>

definition sha256_ids :: "lib \<Rightarrow> bool" where
  "sha256_ids L \<longleftrightarrow> (\<forall>b. \<exists>h. hash_new L ''sha256'' b = Inr h) \<and>
     (\<exists>alg. digest_algorithm L ''sha256'' = Inr alg \<and> asn1_valid L (alg_value alg))"

definition identities_differ :: "lib \<Rightarrow> bytes \<Rightarrow> bytes \<Rightarrow> bool" where
  "identities_differ L rA rB \<longleftrightarrow> (\<forall>k pk kid k' pk' kid'. make_identity L rA = Inr (k, pk, kid) \<longrightarrow>
     make_identity L rB = Inr (k', pk', kid') \<longrightarrow> kid_key_hash kid \<noteq> kid_key_hash kid')"

lemma KeyLookup_add_simps [simp]:
  "kl_get_public_key (KeyLookup_functions (KeyLookup_add kid pk b keys)) k =
     (if kid_key_hash k = kid_key_hash kid then Inr pk else kl_get_public_key (KeyLookup_functions keys) k)"
  "kl_get_private_key (KeyLookup_functions (KeyLookup_add kid pk None keys)) k =
     kl_get_private_key (KeyLookup_functions keys) k"
  "kl_get_private_key (KeyLookup_functions (KeyLookup_add kid pk (Some b') keys)) k =
     (if kid_key_hash k = kid_key_hash kid then Inr b' else kl_get_private_key (KeyLookup_functions keys) k)"
  by (simp_all add: KeyLookup_functions_def KeyLookup_add_def Let_def split: option.split)

lemma made_identity:
  assumes "libs_work L" "sha256_ids L"
  obtains k pk kid where "make_identity L r = Inr (k, pk, kid)" "key_pair L k pk" "priv_level k = 768"
    and "asn1_valid L (key_id_value kid)"
proof -
  obtain k where k: "mlkem_generate L 768 r = Inr k" "priv_level k = 768" "mlkem_key_works L k"
    by (rule mlkem_worksE [OF libs_workD(3) [OF assms(1)], of 768 r]) simp_all
  have len: "length (mlkem_public_bytes L k) = 1184" using k(2,3) by (simp add: mlkem_key_works_def fips203_pk_len_def)
  let ?pk = "\<lparr>pk_algorithm = kem_alg ''2.16.840.1.101.3.4.4.2'', pk_public_key = mlkem_public_bytes L k\<rparr>"
  have b: "KemPublicKey_build (mlkem_public_bytes L k) (Some 768) None = Inr ?pk"
    using len by (simp add: KemPublicKey_build_def MLKEM_OIDS_def KemPublicKey_validate_length_def OID_TO_LEVEL_def
        MLKEM_PK_LEN_def kem_alg_def Let_def)
  obtain h alg where h: "hash_new L ''sha256'' (KemPublicKey_dump L ?pk) = Inr h" "digest_algorithm L ''sha256'' = Inr alg"
      "asn1_valid L (alg_value alg)"
    using assms(2) unfolding sha256_ids_def by blast
  have "KeyId_build L ?pk ''sha256'' = Inr \<lparr>kid_hash_algorithm = alg, kid_key_hash = h\<rparr>"
    using h by simp
  moreover have "asn1_valid L (key_id_value \<lparr>kid_hash_algorithm = alg, kid_key_hash = h\<rparr>)"
    using h(3) by (simp add: key_id_value_def)
  moreover have "key_pair L k ?pk"
    using k(2,3) by (simp add: key_pair_def MLKEM_OIDS_def kem_alg_def)
  ultimately show thesis using that k(1,2) b by (simp add: make_identity_def del: KeyId_build_eq_Inr)
qed

text \<open>
  The sessions of the fixture establish each other: whatever keys the backend draws, unless their digests
  collide, the fixture returns, and its two sessions, looking keys up in the dicts it filled, run the handshake
  to the end as peers, with the short deadlines it configures and any clock.
\<close>

theorem fixture_parties_establish:
  assumes "libs_work L" "sha256_ids L" "identities_differ L rA rB" "length (coin_uuid4 ca) = 16"
  shows "\<exists>p. make_parties L rA rB = Inr p \<and>
    (case handshake L (KeyLookup_functions (pt_alice_keys p)) (KeyLookup_functions (pt_bob_keys p)) (pt_bob_kid p)
       (ca, cb, ca') t (pt_alice p, pt_bob p) of (a', b') \<Rightarrow> peers L a' b' \<and> ses_cid a' = Some (coin_uuid4 ca))"
proof -
  obtain kA pkA idA where A: "make_identity L rA = Inr (kA, pkA, idA)" "key_pair L kA pkA" "priv_level kA = 768"
      "asn1_valid L (key_id_value idA)" by (rule made_identity [OF assms(1,2)])
  obtain kB pkB idB where B: "make_identity L rB = Inr (kB, pkB, idB)" "key_pair L kB pkB" "priv_level kB = 768"
      "asn1_valid L (key_id_value idB)" by (rule made_identity [OF assms(1,2)])
  have ne: "kid_key_hash idA \<noteq> kid_key_hash idB" using assms(3) A(1) B(1) unfolding identities_differ_def by blast
  obtain p where p: "make_parties L rA rB = Inr p" using A(1) B(1) by (simp add: make_parties_def Let_def)
  let ?KA = "KeyLookup_functions (pt_alice_keys p)" and ?KB = "KeyLookup_functions (pt_bob_keys p)"
  have h: "holds_key L 768 ?KA ?KB idA kA pkA" "holds_key L 768 ?KB ?KA idB kB pkB"
    using p A B ne by (auto simp: make_parties_def holds_key_def Let_def)
  have f: "fresh_session 768 (pt_alice p)" "fresh_session 768 (pt_bob p)"
    using p A(1) B(1) by (auto simp: make_parties_def Let_def fresh_session_def Session_init_def SessionConfig_def
        AEAD_OIDS_def session_wf_def no_response_yet_def)
  have r: "handshake_ready L ?KA ?KB idA idB (pt_alice p) (pt_bob p)" and id: "pt_bob_kid p = idB"
    unfolding handshake_ready_def using h f p A(1) B(1)
    by (fastforce simp: make_parties_def Let_def Session_init_def SessionConfig_def)+
  obtain a' b' where run: "handshake L ?KA ?KB idB (ca, cb, ca') t (pt_alice p, pt_bob p) = (a', b')" by fastforce
  from handshake_peers [OF assms(1) r assms(4) run] run show ?thesis by (intro exI [of _ p]) (simp add: p id)
qed

end
