(* ===== verification/FeatureWitness.thy ===== *)
theory FeatureWitness
  imports SessionWitness CandidateFeature EnvelopeFeature KemFeature KeyIdFeature BackendFeature DirectoryFeature StoredForms PartiesFixture
begin

section \<open>The feature theorems over the concrete libraries\<close>

text \<open>
  Each theorem about a feature that has hypotheses on the libraries, applied to \<open>toy\<close>. The encapsulations of
  the backend check draw a byte that is not zero.
\<close>

definition toy_backend_coins :: backend_coins where
  "toy_backend_coins = \<lparr>bk_generate = (\<lambda>_. [1]), bk_encaps = (\<lambda>_. [2]), bk_key = (\<lambda>_. [3])\<rparr>"

lemma toy_secret_not_zero: "secret_not_zero toy toy_backend_coins r"
proof -
  have "replicate 32 0 = (0 :: byte) # replicate 31 0" by (simp add: eval_nat_numeral)
  then show ?thesis
    by (simp add: secret_not_zero_def toy_def toy_backend_coins_def toy_pad_def fips203_ct_len_def)
qed

lemma toy_any_oid: "oid \<noteq> [] \<Longrightarrow> valid_oid toy oid"
  by (simp add: toy_def)

subsection \<open>Real DER\<close>

text \<open>
  The codec of \<open>X690\<close> as the \<^verbatim>\<open>asn1crypto\<close> of a \<open>lib\<close>. HOL's lists may be longer than a DER length can say; such
  values, which no memory holds, are written some other way, behind the tag 0 that no value has.
\<close>

definition der_write :: "asn1 \<Rightarrow> bytes" where
  "der_write t = (if der_size_ok t then x690 t else 0 # toy_encode t)"

definition der_read :: "bytes \<Rightarrow> asn1 result" where
  "der_read b = (case b of [] \<Rightarrow> Inl ValueError | h # r \<Rightarrow> if h = 0 then toy_decode r else x690_decode b)"

definition toy_der :: lib where
  "toy_der = toy\<lparr>ber_decode := der_read, der_encode := der_write, valid_oid := dotted_oid\<rparr>"

lemma ber_first_octet:
  assumes "ber t b"
  shows "\<exists>h r. b = h # r \<and> h \<noteq> 0"
proof -
  have "\<exists>h r. write_tag c n @ b = h # r \<and> h \<noteq> 0" if "c \<in> {0x80, 0xA0}" for c n b
    using read_write_tag [of c n b] that by (cases "write_tag c n @ b") (auto split: if_splits)
  with assms show ?thesis by (cases rule: ber.cases) (simp_all, simp_all add: write_tag_def)
qed

lemma der_read_write:
  assumes "asn1_valid toy_der t"
  shows "der_read (der_write t) = Inr t"
proof (cases "der_size_ok t")
  case True
  then have "x690_decode (x690 t) = Inr t" by (intro x690_decode_x690 [OF assms]) (simp_all add: toy_der_def)
  then show ?thesis using ber_first_octet [OF ber_x690 [OF assms True]] True by (auto simp: der_read_def der_write_def)
next
  case False
  then show ?thesis using toy_decode_encode [OF assms] by (simp add: der_read_def der_write_def)
qed

lemma toy_der_facts: "asn1_works toy_der" "writes_der toy_der" "reads_ber toy_der" "writes_definite_lengths toy_der"
proof -
  show "asn1_works toy_der" using der_read_write by (simp add: asn1_works_def) (simp add: toy_der_def)
  show "writes_der toy_der" by (simp add: writes_der_def toy_der_def der_write_def)
  have "der_read b = Inr t" if "ber t b" "asn1_valid toy_der t" for t b
  proof -
    have "x690_decode b = Inr t" by (rule x690_decode_ber [OF that]) (simp add: toy_der_def)
    then show ?thesis using ber_first_octet [OF that(1)] by (auto simp: der_read_def)
  qed
  then show "reads_ber toy_der" by (simp add: reads_ber_def) (simp add: toy_der_def)
  have "1 < length (der_write (ASeq ts)) \<and> der_write (ASeq ts) ! 1 \<noteq> 0x80" for ts
  proof (cases "der_size_ok (ASeq ts)")
    case True
    let ?n = "length (concat (map x690 ts))"
    have n: "?n < 256 ^ 126" using True length_content_less [of "concat (map x690 ts)" "0x20" 16] by (simp add: der_size_ok_def)
    obtain d ds where d: "der_length ?n = d # ds" by (cases "der_length ?n") auto
    then have "d \<noteq> 0x80" using length_octets_der_length [OF n] by (auto simp: length_octets_def)
    then show ?thesis using True d by (simp add: der_write_def tlv_def write_tag_def)
  qed (simp add: der_write_def)
  then show "writes_definite_lengths toy_der" by (simp add: writes_definite_lengths_def toy_der_def)
qed

lemma toy_der_oids: "valid_oid toy_der ''1.2.3.4.5''" "valid_oid toy_der ''2.16.840.1.101.3.4.1.46''"
  by (simp_all add: toy_der_def) code_simp+

theorem message_has_one_encoding_witness:
  "MakeMessage_load toy_der (x690 (make_message_value (scr_message (replicate 16 1)))) = Inr (scr_message (replicate 16 1))
   \<and> MakeMessage_load toy_der (non_minimal_length (x690 (make_message_value (scr_message (replicate 16 1))))) = Inl NonCanonicalEncoding"
proof -
  let ?m = "scr_message (replicate 16 1)"
  have small: "der_size_ok (make_message_value ?m)" using scr_encoding(1) [of "replicate 16 1"] by (simp add: der_size_ok_def)
  have m: "validate_payload (mm_payload ?m) = Inr ()" "length (mm_cid ?m) = CID_LEN" by (simp_all add: scr_message_def CID_LEN_def)
  note one = message_has_one_encoding [OF toy_der_facts(2,3) scr_valid(1) small m]
  have "ber (make_message_value ?m) (non_minimal_length (x690 (make_message_value ?m)))"
    by (rule non_minimal_ber) simp
  then show ?thesis using one non_minimal_differs by blast
qed

theorem envelope_features_pass_witness:
  "list_all (passes empty_envelope_context)
     (envelope_feature toy_der (replicate 16 1) (replicate 16 2) @ post_handshake_feature toy_der (replicate 16 2))"
  by (rule envelope_features_pass) (simp_all add: toy_der_facts toy_der_oids)

theorem kem_feature_passes_witness: "list_all (passes empty_kem_context) (kem_feature toy [1] [2])"
  by (rule kem_feature_passes [OF toy_mlkem_works toy_asn1_works]) (simp_all add: toy_any_oid)

definition toy_sha :: lib where
  "toy_sha = toy\<lparr>sha256 := (\<lambda>b. toy_chars ''sha256'' @ b), digest_algorithm := (\<lambda>name.
     Inr \<lparr>alg_algorithm = ''2.16.840.1.101.3.4.2.1'', alg_parameters = None\<rparr>)\<rparr>"

theorem key_id_feature_passes_witness: "list_all (passes empty_key_id_context) (key_id_feature toy_sha [1])"
proof (rule key_id_feature_passes)
  show "mlkem_works toy_sha"
    using toy_mlkem_works by (simp add: mlkem_works_def mlkem_key_works_def toy_sha_def)
  show "sha256_by_name toy_sha" by (simp add: sha256_by_name_def toy_sha_def) (simp add: toy_def)
  have "hd (toy_pad (fips203_pk_len 768) [1]) = 1" by (simp add: toy_pad_def fips203_pk_len_def take_Cons')
  then have "der_encode toy (kem_public_key_value pk) \<noteq> toy_pad (fips203_pk_len 768) [1]" for pk
    by (auto simp: toy_def kem_public_key_value_def dest: arg_cong [where f = hd])
  then show "\<forall>pk b. create_mlkem_keypair toy_sha [1] 768 = Inr (pk, b) \<longrightarrow>
      sha256 toy_sha (KemPublicKey_dump toy_sha pk) \<noteq> sha256 toy_sha (pk_public_key pk)"
    by (simp add: toy_sha_def KemPublicKey_dump_def create_mlkem_keypair_def MLKEM_BACKEND_CLASSES_def
        KemPublicKey_build_def MLKEM_OIDS_def MLKEM_PK_LEN_def)
      (auto simp: toy_def fips203_pk_len_def Let_def)
qed

theorem backend_feature_passes_witness:
  "list_all (passes (empty_backend_context toy)) (backend_feature toy_backend_coins [1] [2])"
proof -
  have "aead_keys_work toy" by (simp add: aead_keys_work_def toy_def)
  then show ?thesis
    by (rule backend_feature_passes [OF toy_mlkem_works toy_aead_works toy_hkdf_works _ toy_secret_not_zero])
qed

subsection \<open>The fixture\<close>

lemma toy_identity:
  "make_identity toy [n] = Inr (k, pk, kid) \<Longrightarrow> kid_key_hash kid = toy_chars ''sha256'' @
     toy_encode (kem_public_key_value \<lparr>pk_algorithm = kem_alg ''2.16.840.1.101.3.4.4.2'', pk_public_key = toy_pad 1184 [n]\<rparr>)"
  by (auto simp: make_identity_def KemPublicKey_build_def MLKEM_OIDS_def toy_def fips203_pk_len_def Let_def KemPublicKey_dump_def)

theorem fixture_parties_establish_witness:
  "\<exists>p. make_parties toy [1] [2] = Inr p \<and>
    (case handshake toy (KeyLookup_functions (pt_alice_keys p)) (KeyLookup_functions (pt_bob_keys p)) (pt_bob_kid p)
       (toy_coins 1, toy_coins 2, toy_coins 3) of_nat (pt_alice p, pt_bob p) of
       (a', b') \<Rightarrow> peers toy a' b' \<and> ses_cid a' = Some (coin_uuid4 (toy_coins 1)))"
proof (rule fixture_parties_establish [OF toy_libs_work])
  show "sha256_ids toy" by (simp add: sha256_ids_def toy_def alg_value_def)
  have "toy_pad 1184 [1] \<noteq> toy_pad 1184 [2]" by (auto simp: toy_pad_def take_Cons')
  then show "identities_differ toy [1] [2]"
    unfolding identities_differ_def by (auto dest!: toy_identity simp: kem_public_key_value_def toy_bytes_def)
  show "length (coin_uuid4 (toy_coins 1)) = 16" by (simp add: toy_coins_def)
qed

subsection \<open>The key directory\<close>

text \<open>Libraries with the OIDs of the digests and a wrap whose checksum detects an inverted byte.\<close>

definition toy_tests :: lib where
  "toy_tests = toy\<lparr>digest_algorithm := (\<lambda>name.
       if name = ''sha256'' then Inr \<lparr>alg_algorithm = ''2.16.840.1.101.3.4.2.1'', alg_parameters = None\<rparr>
       else if name = ''sha384'' then Inr \<lparr>alg_algorithm = ''2.16.840.1.101.3.4.2.2'', alg_parameters = None\<rparr>
       else Inl ValueError),
     aes_key_wrap_with_padding := (\<lambda>k b. Inr (sum_list b # b)),
     aes_key_unwrap_with_padding := (\<lambda>k w. case w of
       [] \<Rightarrow> Inl InvalidUnwrap | t # b \<Rightarrow> if t = sum_list b then Inr b else Inl InvalidUnwrap)\<rparr>"

definition toy_envs :: "nat \<Rightarrow> os_env" where
  "toy_envs n = \<lparr>env_salt = [of_nat n], env_tmp = ''x'', env_fault = None\<rparr>"

definition toy_draws :: "nat \<Rightarrow> bytes" where
  "toy_draws n = [of_nat n + 1]"

lemma toy_tests_ready: "keystore_tests_ready toy_tests"
proof -
  have asn1: "asn1_works toy_tests" using toy_decode_encode by (simp add: asn1_works_def toy_tests_def) (simp add: toy_def)
  have "standard_oids_ok toy_tests" using toy_oids by (simp add: standard_oids_ok_def toy_tests_def)
  moreover have "mlkem_works toy_tests" using toy_mlkem_works by (simp add: mlkem_works_def mlkem_key_works_def toy_tests_def)
  moreover have "aead_works toy_tests" using toy_aead_works by (simp add: aead_works_def toy_tests_def)
  moreover have "hkdf_works toy_tests" using toy_hkdf_works by (simp add: hkdf_works_def toy_tests_def)
  ultimately have "libs_work toy_tests" using asn1 by (simp add: libs_work_def)
  moreover have "keystore_libs toy_tests"
    unfolding keystore_libs_def using asn1
    by (auto simp: toy_tests_def toy_any_oid alg_value_def WRAP_ALGORITHM_OID_def split: if_splits)
  ultimately show ?thesis
    by (simp add: keystore_tests_ready_def) (simp add: toy_tests_def toy_def)
qed

lemma toy_envs_quiet: "quiet toy_envs"
  by (simp add: quiet_def toy_envs_def)

lemma byte_inverted: "(x :: byte) XOR 255 \<noteq> x"
proof
  assume a: "x XOR 255 = x"
  have "(x XOR x) XOR 255 = x XOR x" by (simp only: xor.assoc a)
  then show False by simp
qed

lemma sum_list_changed: "i < length b \<Longrightarrow> sum_list (b[i := y]) = sum_list b + (y - b ! i)" for b :: bytes
  by (induction b arbitrary: i) (auto split: nat.split)

lemma toy_flips: "flips_detected toy_tests"
proof -
  have "\<exists>w'. flip_byte draw (sum_list b # b) = Inr w' \<and> aes_key_unwrap_with_padding toy_tests kek w' = Inl InvalidUnwrap"
    for kek b draw
  proof (cases "draw mod length (sum_list b # b)")
    case 0
    then show ?thesis by (simp add: flip_byte_def toy_tests_def byte_inverted)
  next
    case (Suc i)
    moreover have "draw mod length (sum_list b # b) < length (sum_list b # b)" by (rule mod_less_divisor) simp
    ultimately have "i < length b" by simp
    then have "sum_list b \<noteq> sum_list (b[i := b ! i XOR 255])"
      using byte_inverted [of "b ! i"] by (simp add: sum_list_changed)
    with Suc show ?thesis by (simp add: flip_byte_def toy_tests_def)
  qed
  then show ?thesis by (simp add: flips_detected_def) (simp add: toy_tests_def)
qed

lemma toy_tests_key:
  "create_mlkem_keypair toy_tests [n] 768 = Inr (pk, b) \<Longrightarrow>
     pk = \<lparr>pk_algorithm = kem_alg ''2.16.840.1.101.3.4.4.2'', pk_public_key = toy_pad 1184 [n]\<rparr>"
  by (auto simp: toy_tests_def create_mlkem_keypair_def MLKEM_BACKEND_CLASSES_def KemPublicKey_build_def
      MLKEM_OIDS_def toy_def fips203_pk_len_def Let_def)

lemma toy_different_ids: "different_ids toy_tests (toy_draws 0) (toy_draws 1)"
  unfolding different_ids_def
proof (intro allI impI notI)
  fix pk b pk' b' p p'
  assume k: "create_mlkem_keypair toy_tests (toy_draws 0) 768 = Inr (pk, b)"
      "create_mlkem_keypair toy_tests (toy_draws 1) 768 = Inr (pk', b')"
    and p: "primary_key_id toy_tests pk = Inr p" "primary_key_id toy_tests pk' = Inr p'" "kid_key_hash p = kid_key_hash p'"
  have pk: "pk = \<lparr>pk_algorithm = kem_alg ''2.16.840.1.101.3.4.4.2'', pk_public_key = toy_pad 1184 [1]\<rparr>"
      "pk' = \<lparr>pk_algorithm = kem_alg ''2.16.840.1.101.3.4.4.2'', pk_public_key = toy_pad 1184 [2]\<rparr>"
    using toy_tests_key [of 1 pk b] toy_tests_key [of 2 pk' b'] k by (simp_all add: toy_draws_def)
  have "kid_key_hash q = toy_chars ''sha256'' @ KemPublicKey_dump toy_tests key"
    if "primary_key_id toy_tests key = Inr q" for key q
    using that by (auto simp: primary_key_id_def toy_tests_def toy_def)
  then have "KemPublicKey_dump toy_tests pk = KemPublicKey_dump toy_tests pk'" using p by simp
  moreover have "asn1_valid toy_tests (kem_public_key_value key)" if "pk_algorithm key = kem_alg ''2.16.840.1.101.3.4.4.2''" for key
    using that by (simp add: kem_public_key_value_def alg_value_def kem_alg_def toy_tests_def toy_any_oid)
  ultimately have "pk = pk'" using pk by (intro KemPublicKey_dump_inj [OF readyD(5) [OF toy_tests_ready]]) simp_all
  then have "hd (toy_pad 1184 [1]) = hd (toy_pad 1184 [2])" by (simp add: pk)
  then show False by (simp add: toy_pad_def take_Cons')
qed

theorem private_keys_feature_passes_witness:
  "list_all (passes empty_directory_context) (private_keys_feature toy_tests toy_envs toy_draws 7)"
  by (rule private_keys_feature_passes [OF toy_tests_ready toy_envs_quiet toy_different_ids toy_flips])
    (simp add: toy_envs_def)

theorem public_keys_feature_passes_witness:
  "list_all (passes empty_directory_context) (public_keys_feature toy_tests toy_envs toy_draws)"
  by (rule public_keys_feature_passes [OF toy_tests_ready toy_envs_quiet])

lemma toy_wrong_tag: "wrong_tag_differs toy_tests [n]"
proof -
  have "rbind (passphrase_bytes (str_passphrase ''correct horse battery staple'')) (\<lambda>b. Inr (sum_list b)) = Inr (247 :: byte)"
    "rbind (passphrase_bytes (str_passphrase ''wrong passphrase'')) (\<lambda>b. Inr (sum_list b)) = Inr (135 :: byte)"
    by code_simp+
  then show ?thesis
    by (auto simp: wrong_tag_differs_def derive_master_key_def derive_check_tag_def MASTER_KEY_LEN_def toy_tests_def toy_def)
qed

theorem lifecycle_feature_passes_witness:
  "list_all (passes empty_directory_context) (lifecycle_feature toy_tests toy_envs [1] 493 420)"
  by (rule lifecycle_feature_passes [OF toy_tests_ready toy_envs_quiet]) (simp add: toy_envs_def toy_wrong_tag)

subsection \<open>Stored entries in a BER form\<close>

text \<open>Real DER, and a wrap with the lengths of RFC 5649: eight octets in front, zeros up to a multiple of eight.\<close>

definition toy_wrap :: "bytes \<Rightarrow> bytes" where
  "toy_wrap b = replicate 7 0 @ word_of_nat (length b mod 8) # b @ replicate ((8 - length b mod 8) mod 8) 0"

definition toy_unwrap :: "bytes \<Rightarrow> bytes result" where
  "toy_unwrap w = (case drop 7 w of [] \<Rightarrow> Inl InvalidUnwrap | n # r \<Rightarrow> Inr (take (length r - (8 - unat n) mod 8) r))"

lemma toy_unwrap_wrap: "toy_unwrap (toy_wrap b) = Inr b"
  by (simp add: toy_wrap_def toy_unwrap_def unat_of_nat)

lemma length_toy_wrap: "length (toy_wrap b) = 8 * ((length b + 7) div 8) + 8"
proof -
  define q m where "q = length b div 8" and "m = length b mod 8"
  then have n: "length b = 8 * q + m" and "m < 8" by simp_all
  then have "m \<in> {0, 1, 2, 3, 4, 5, 6, 7}" by auto
  then have "length b + (8 - length b mod 8) mod 8 = 8 * ((length b + 7) div 8)" unfolding n by auto
  then show ?thesis by (simp add: toy_wrap_def)
qed

definition toy_forms :: lib where
  "toy_forms = toy_tests\<lparr>ber_decode := der_read, der_encode := der_write, valid_oid := dotted_oid,
     hash_new := (\<lambda>name b. Inr (replicate 32 0)), hmac_sha256 := (\<lambda>k b. replicate 32 0),
     aes_key_wrap_with_padding := (\<lambda>k b. Inr (toy_wrap b)), aes_key_unwrap_with_padding := (\<lambda>k w. toy_unwrap w)\<rparr>"

lemma digits: "char_of (48 :: nat) = CHR ''0''" "char_of (49 :: nat) = CHR ''1''" "char_of (50 :: nat) = CHR ''2''"
  "char_of (51 :: nat) = CHR ''3''" "char_of (52 :: nat) = CHR ''4''" "char_of (53 :: nat) = CHR ''5''"
  "char_of (54 :: nat) = CHR ''6''" "char_of (55 :: nat) = CHR ''7''" "char_of (56 :: nat) = CHR ''8''" "char_of (57 :: nat) = CHR ''9''"
  by code_simp+

lemma dotted_oids:
  "dotted_oid ''2.16.840.1.101.3.4.4.2''" "dotted_oid ''2.16.840.1.101.3.4.4.3''" "dotted_oid ''2.16.840.1.101.3.4.1.46''"
  "dotted_oid ''1.2.840.113549.1.9.16.3.18''" "dotted_oid ''2.16.840.1.101.3.4.2.1''" "dotted_oid ''2.16.840.1.101.3.4.2.2''"
  "dotted_oid ''2.16.840.1.101.3.4.1.48''"
  by (simp_all add: dotted_oid_def oid_numbers_def arc_of_def decimal.simps digits)

lemma toy_forms_codec: "asn1_works toy_forms" "writes_der toy_forms" "reads_ber toy_forms"
proof -
  have codec: "ber_decode toy_forms = ber_decode toy_der" "der_encode toy_forms = der_encode toy_der" "valid_oid toy_forms = valid_oid toy_der"
    by (simp_all add: toy_forms_def toy_der_def)
  have valid: "asn1_valid toy_forms t = asn1_valid toy_der t" for t
    by (induction t) (simp_all add: codec list_all_iff)
  show "asn1_works toy_forms" using toy_der_facts(1) by (simp only: asn1_works_def codec valid)
  show "writes_der toy_forms" using toy_der_facts(2) by (simp only: writes_der_def codec valid)
  show "reads_ber toy_forms" using toy_der_facts(3) by (simp only: reads_ber_def codec valid)
qed

lemma toy_forms_ready: "keystore_tests_ready toy_forms"
proof -
  have "standard_oids_ok toy_forms" using dotted_oids by (simp add: standard_oids_ok_def toy_forms_def MLKEM_OIDS_def AEAD_OIDS_def)
  moreover have "mlkem_works toy_forms" using toy_mlkem_works by (simp add: mlkem_works_def mlkem_key_works_def toy_forms_def toy_tests_def)
  moreover have "aead_works toy_forms" using toy_aead_works by (simp add: aead_works_def toy_forms_def toy_tests_def)
  moreover have "hkdf_works toy_forms" using toy_hkdf_works by (simp add: hkdf_works_def toy_forms_def toy_tests_def)
  ultimately have "libs_work toy_forms" using toy_forms_codec by (simp add: libs_work_def)
  moreover have "keystore_libs toy_forms"
    unfolding keystore_libs_def using toy_forms_codec(1) dotted_oids
    by (auto simp: toy_forms_def toy_tests_def alg_value_def WRAP_ALGORITHM_OID_def toy_unwrap_wrap split: if_splits)
  ultimately show ?thesis
    by (simp add: keystore_tests_ready_def) (simp add: toy_forms_def toy_tests_def, simp add: toy_def)
qed

definition long_salts :: "nat \<Rightarrow> os_env" where
  "long_salts n = \<lparr>env_salt = replicate 16 (of_nat n), env_tmp = ''x'', env_fault = None\<rparr>"

theorem stored_forms_refused_witness:
  "list_all (passes empty_directory_context) (stored_forms_scenarios toy_forms long_salts (replicate 64 1))"
proof (rule stored_forms_refused [OF toy_forms_ready _ toy_forms_codec(2,3)])
  show "quiet long_salts" by (simp add: quiet_def long_salts_def)
  have "length b = 64" if "create_mlkem_keypair toy_forms (replicate 64 1) 768 = Inr (pk, b)" for pk b
    using that by (auto simp: create_mlkem_keypair_def toy_forms_def toy_tests_def toy_def MLKEM_BACKEND_CLASSES_def)
  then show "standard_lengths toy_forms long_salts (replicate 64 1)"
    unfolding standard_lengths_def long_salts_def by (simp add: toy_forms_def length_toy_wrap)
qed

end
