(* ===== verification/MainBlocks.thy ===== *)
theory MainBlocks
  imports Behave Backend PartiesFixture
begin

section \<open>The \<^verbatim>\<open>__main__\<close> blocks\<close>

text \<open>
  What \<^verbatim>\<open>python -m kem_make.bottom\<close> and \<^verbatim>\<open>python -m kem_make.crypto_backend\<close> run: an example exchange of the wire structures
  and the capability check. Their prints have no effect on what follows and are left out.
\<close>

definition bottom_main :: "lib \<Rightarrow> bytes \<Rightarrow> unit result" where
  "bottom_main L cid =
     rbind (lookup_or_KeyError (map_of MLKEM_PK_LEN 768)) (\<lambda>pk_len.
     rbind (KemPublicKey_build (replicate pk_len 0) (Some 768) None) (\<lambda>pk_a_star.
     rbind (KemPublicKey_build (replicate pk_len 0x22) (Some 768) None) (\<lambda>pk_a_static.
     rbind (KeyId_build L pk_a_static ''sha256'') (\<lambda>key_id_a.
     rbind (KemPublicKey_build (replicate pk_len 0x33) (Some 768) None) (\<lambda>pk_b_static.
     rbind (KeyId_build L pk_b_static ''sha256'') (\<lambda>key_id_b.
     rbind (lookup_or_KeyError (map_of MLKEM_CT_LEN 768)) (\<lambda>ct_len.
     rbind (KemCiphertext_build (replicate ct_len 0x11) 768) (\<lambda>ct1.
     rbind (AeadAlgorithmList_build L [''aes256-gcm'', ''chacha20-poly1305'']) (\<lambda>aeads.
     let req = \<lparr>sir_ct1 = ct1, sir_key_id_b = key_id_b, sir_pk_a_star = pk_a_star, sir_key_id_a = key_id_a,
                sir_acceptable_aeads = aeads\<rparr>
     in rbind (MakeMessage_build cid (Session_init_request req) 0) (\<lambda>msg.
        rbind (MakeMessage_dump L msg) (\<lambda>der.
        rbind (MakeMessage_load L der) (\<lambda>parsed.
        rbind (correlation_id parsed) (\<lambda>c.
        rbind (assert_that (c = cid)) (\<lambda>_.
        assert_that (payload_name (mm_payload parsed) = ''session_init_request'')))))))))))))))"

definition crypto_backend_main :: "lib \<Rightarrow> backend_coins \<Rightarrow> unit result" where
  "crypto_backend_main L c = check_backend L c"

text \<open>The example of \<^verbatim>\<open>bottom.py\<close> runs to its end with any codec that round-trips and any uuid.\<close>

lemma bottom_main_runs:
  assumes "asn1_works L" "standard_oids_ok L" "sha256_ids L" "length cid = 16"
  shows "bottom_main L cid = Inr ()"
proof -
  obtain alg where alg: "digest_algorithm L ''sha256'' = Inr alg" "asn1_valid L (alg_value alg)"
    using assms(3) unfolding sha256_ids_def by blast
  have h: "\<exists>h. hash_new L ''sha256'' b = Inr h" for b using assms(3) unfolding sha256_ids_def by blast
  have pk: "KemPublicKey_build (replicate 1184 x) (Some 768) None =
      Inr \<lparr>pk_algorithm = kem_alg ''2.16.840.1.101.3.4.4.2'', pk_public_key = replicate 1184 x\<rparr>" for x
    by (simp add: KemPublicKey_build_def MLKEM_OIDS_def KemPublicKey_validate_length_def OID_TO_LEVEL_def
        MLKEM_PK_LEN_def kem_alg_def Let_def)
  have ct: "KemCiphertext_build (replicate 1088 0x11) 768 =
      Inr \<lparr>ct_algorithm = kem_alg ''2.16.840.1.101.3.4.4.2'', ct_ciphertext = replicate 1088 0x11\<rparr>"
    by (simp add: KemCiphertext_build_def MLKEM_OIDS_def KemCiphertext_validate_length_def OID_TO_LEVEL_def
        MLKEM_CT_LEN_def kem_alg_def Let_def)
  have oid: "valid_oid L ''2.16.840.1.101.3.4.4.2''" "\<And>n oid. (n, oid) \<in> set AEAD_OIDS \<Longrightarrow> valid_oid L oid"
    using assms(2) by (auto simp: standard_oids_ok_def MLKEM_OIDS_def list_all_iff)
  obtain oa oc where a: "map_of AEAD_OIDS ''aes256-gcm'' = Some oa" "map_of AEAD_OIDS ''chacha20-poly1305'' = Some oc"
    by (simp add: AEAD_OIDS_def)
  then have v: "valid_oid L oa" "valid_oid L oc" using oid(2) map_of_SomeD by fast+
  obtain ha hb where ids: "hash_new L ''sha256'' (KemPublicKey_dump L \<lparr>pk_algorithm = kem_alg ''2.16.840.1.101.3.4.4.2'',
        pk_public_key = replicate 1184 0x22\<rparr>) = Inr ha"
      "hash_new L ''sha256'' (KemPublicKey_dump L \<lparr>pk_algorithm = kem_alg ''2.16.840.1.101.3.4.4.2'',
        pk_public_key = replicate 1184 0x33\<rparr>) = Inr hb"
    using h by meson
  let ?m = "\<lparr>mm_version = 0, mm_cid = cid, mm_payload = Session_init_request
     \<lparr>sir_ct1 = \<lparr>ct_algorithm = kem_alg ''2.16.840.1.101.3.4.4.2'', ct_ciphertext = replicate 1088 0x11\<rparr>,
      sir_key_id_b = \<lparr>kid_hash_algorithm = alg, kid_key_hash = hb\<rparr>,
      sir_pk_a_star = \<lparr>pk_algorithm = kem_alg ''2.16.840.1.101.3.4.4.2'', pk_public_key = replicate 1184 0\<rparr>,
      sir_key_id_a = \<lparr>kid_hash_algorithm = alg, kid_key_hash = ha\<rparr>, sir_acceptable_aeads = [oa, oc]\<rparr>\<rparr>"
  have d: "MakeMessage_dump L ?m = Inr (der_encode L (make_message_value ?m))" by (simp add: MakeMessage_dump_def)
  have "asn1_valid L (make_message_value ?m)"
    using alg(2) oid(1) v by (simp add: make_message_value_def session_init_request_fields_def kem_ciphertext_value_def
        kem_public_key_value_def key_id_value_def alg_value_def kem_alg_def)
  from MakeMessage_load_dump [OF assms(1) this d] assms(4)
  have "MakeMessage_load L (der_encode L (make_message_value ?m)) = Inr ?m" by simp
  with d show ?thesis
    using assms(4) v by (simp add: bottom_main_def MLKEM_PK_LEN_def MLKEM_CT_LEN_def pk ct ids alg(1) KeyId_build_def
        AeadAlgorithmList_build_def a MakeMessage_build_def validate_cid_def CID_LEN_def correlation_id_def Let_def
        del: KeyId_build_eq_Inr)
qed

end
