(* ===== verification/Spec2Isabelle.thy ===== *)
theory Spec2Isabelle
  imports ChannelWitness KeystoreWitness FeatureWitness MainBlocks
begin

text \<open>
  A verification library for KEM-MAKE, a mutually authenticated key establishment protocol over ML-KEM, as
  implemented by the Python package \<^verbatim>\<open>src/kem_make\<close>.

  \<^bold>\<open>The program.\<close> Two parties with static ML-KEM keys exchange four handshake PDUs (init request, init
  response, completion request, completion response); three shared secrets and two nonces go through
  HKDF into two directional AEAD keys and IVs, after which each side sends sequence-numbered messages. A
  \<^verbatim>\<open>Session\<close> is one endpoint: a state machine driven by \<^verbatim>\<open>post_pdu\<close>/\<^verbatim>\<open>post_payload\<close>, cranked by
  \<^verbatim>\<open>update(now)\<close> and polled for output. A \<^verbatim>\<open>Dispatcher\<close> routes PDUs of many correlation ids to sessions:
  responder sessions, initiator templates, the forks made for each response to an initiation, established
  sessions; a \<^verbatim>\<open>CandidateStore\<close> bounds the half-open ones. A \<^verbatim>\<open>KeyDirectory\<close> keeps the static keys on disk
  and is what a session looks keys up in.

  \<^bold>\<open>Theories, in the order of the code.\<close>
  \<^item> \<open>Prelude\<close>: bytes, exceptions as values (\<open>exn + 'a\<close>, sequencing \<open>rbind\<close>/\<open>sseq\<close>), times, dicts in
    insertion order, queues and the locale \<open>output_queue\<close> (the four queues of \<open>Session\<close> and \<open>Dispatcher\<close>).
    \<open>ThirdParty\<close>: the record \<open>lib\<close> of library functions and what the code relies on. \<open>X690\<close>: DER and BER as the
    standard has them, for the theorems about bytes on the wire and on disk.
  \<^item> \<open>Common\<close>: \<^verbatim>\<open>common.py\<close>, \<open>require_der\<close> and the locale \<open>canonical_load\<close> every \<^verbatim>\<open>load\<close> meets (nine
    interpretations in \<open>Bottom\<close> and \<open>KeystoreInv\<close>).
  \<^item> \<open>Bottom\<close>: \<^verbatim>\<open>bottom.py\<close>, the wire structures with \<^verbatim>\<open>build\<close>, \<^verbatim>\<open>load\<close>, \<^verbatim>\<open>dump\<close> and their checks. \<open>WireFormat\<close>: of the
    many BER forms of a message only its DER is accepted.
  \<^item> \<open>SessionCrypto\<close>, \<open>Session\<close>: \<^verbatim>\<open>session.py\<close>, its stateless functions and the class, one definition per
    method; a method returns its result and the new session, also when it raises.
    \<open>SessionInv\<close>: the invariant \<open>session_wf\<close>, the calls of a client (\<open>session_step\<close>, \<open>session_reach\<close>).
    \<open>SessionProps\<close>: authentication, progress, errors, replay and retry properties; \<open>reset\<close>, which starts a session
    over, and \<open>fork\<close>, which makes another, are rules of \<open>session_reach\<close>. \<open>NonceUse\<close>: everything a session encrypts over its
    life (\<open>session_sends\<close>), and under which nonce. \<open>SessionTyping\<close>: no attribute is
    used while it is None. \<open>Handshake\<close>: two sessions over working libraries; established peers refine a pair
    of reliable ordered channels. \<open>LossyHandshake\<close>: the same in rounds in which PDUs are lost, up to the retries and the
    time to live. \<open>SecureChannel\<close>: established peers over a network that gives them any bytes.
  \<^item> \<open>Candidate\<close>: \<^verbatim>\<open>candidate.py\<close>; the locale \<open>candidate_pool\<close> is what the dispatcher needs of it.
  \<^item> \<open>Dispatcher\<close>, \<open>DispatcherInv\<close>, \<open>DispatcherProps\<close>: \<^verbatim>\<open>dispatcher.py\<close>, its invariant, and isolation of
    correlation ids, forking, promotion and bounds.
  \<^item> \<open>DispatcherHandshake\<close>: two dispatchers that exchange the PDUs they queue; the session steps of \<open>Handshake\<close>
    lifted to what a dispatcher holds under one id (\<open>view\<close>, \<open>moves\<close>). \<open>DispatcherConversation\<close>: two dispatchers
    that are peers under any number of ids (\<open>linked\<close>) are a family of ordered channels. \<open>ForgedResponse\<close>: which of several
    forks a completion response establishes. \<open>DispatcherPhases\<close>: the dispatcher refines a family of small
    state machines, one for each correlation id, on every path out of every call, an instance of the locale \<open>forward_simulation\<close> of \<open>Simulation\<close>.
  \<^item> \<open>Keystore\<close>: \<^verbatim>\<open>keystore.py\<close>, each method as a function of the files before and after it and of what the
    operating system gives it (\<open>os_env\<close>, with the place where an I/O error strikes). \<open>KeystoreInv\<close>: hexadecimal
    and record round trips, the invariant \<open>directory_wf\<close> and the relation \<open>extends\<close>. \<open>KeystoreOps\<close>: every way
    each operation can end, that it keeps the invariant, runs of a client (\<open>directory_step\<close>). \<open>KeystoreProps\<close>:
    what lookups promise, also over files an attacker has written. \<open>KeystoreCrash\<close>: \<open>_atomic_write\<close> call by
    call, crashes, and the id that is lost for good between two writes. \<open>KeystoreCalls\<close>: what each call returns and writes
    when nothing goes wrong.
  \<^item> \<open>Backend\<close>: \<^verbatim>\<open>crypto_backend.py\<close>. \<open>KeystoreHandshake\<close>: key creation, two key directories and two
    sessions put together.
  \<^item> \<open>Behave\<close>: running the scenarios of \<^verbatim>\<open>features/\<close>. \<open>CandidateFeature\<close>, \<open>EnvelopeFeature\<close>, \<open>KemFeature\<close>, \<open>KeyIdFeature\<close>,
    \<open>BackendFeature\<close>, \<open>DirectorySteps\<close> with \<open>DirectoryFeature\<close>, \<open>StoredForms\<close> (entries rewritten in a BER form): the step functions of \<^verbatim>\<open>features/steps/\<close> over the model, one definition per function, and the
    scenarios of each feature as lists of steps; the theorem of each says that all its scenarios pass over
    any libraries that work, where the tests try one build of them. \<open>PartiesFixture\<close>: \<^verbatim>\<open>environment.py\<close>, a key lookup
    over dicts and two sessions, which establish each other. \<open>MainBlocks\<close>: the \<^verbatim>\<open>__main__\<close> blocks.
  \<^item> \<open>Example\<close>, \<open>SessionWitness\<close>, \<open>DispatcherWitness\<close>, \<open>ConversationWitness\<close>, \<open>ChannelWitness\<close>,
    \<open>KeystoreWitness\<close>, \<open>FeatureWitness\<close>: a concrete \<open>lib\<close> that meets all
    hypotheses, and each property applied to it; where a theorem is about DER, its codec is the one of \<open>X690\<close>.

  \<^bold>\<open>Parameters.\<close> \<^verbatim>\<open>asn1crypto\<close>, \<^verbatim>\<open>cryptography\<close>, \<^verbatim>\<open>hashlib\<close> and \<^verbatim>\<open>hmac\<close> are the functions of a \<open>lib\<close>; theorems that
  need them to work say so with \<open>asn1_works\<close>, \<open>mlkem_works\<close>, \<open>aead_works\<close>, \<open>hkdf_works\<close>, \<open>libs_work\<close>,
  \<open>keystore_libs\<close>; \<open>has_room\<close> says that a dispatcher does not know an id and its store can take one candidate for it, \<open>writes_der\<close> and
  \<open>reads_ber\<close> that the codec follows X.690, \<open>in_window\<close> and \<open>paced\<close> that a handshake ends before the responder's time to live
  and is cranked at its deadlines, \<open>unforged\<close> that a message which decrypts carries what the peer has sent under that
  sequence number. Nothing is assumed about secrecy: a property that rests on a MAC or a hash not colliding has
  that as a hypothesis or states the alternative. Random draws and the clock are arguments.

  \<^bold>\<open>Integers, loops and bounds.\<close> Bytes are 8-bit words, sequence numbers and levels are Python integers; the
  12-byte bound of a nonce is a branch that raises. All loops are structural or have a termination proof
  (draining queues, the fork loop, the sweep of candidates), so no fuel is used.

  \<^bold>\<open>What modelling showed.\<close> Theorems about behaviour that differs from what the code or its documentation
  intends: \<open>empty_false_start_forgeable\<close>, \<open>unanswered_initiation_dropped_by_update\<close>,
  \<open>rejected_request_ends_initiation\<close>, \<open>forged_fork_wins_without_reply\<close>, \<open>pending_responder_blocks_initiation\<close>,
  \<open>interrupted_key_id_for_loses_id\<close>; \<open>responders_bounded_after_update\<close>
  shows what bound does hold.

  \<^bold>\<open>Not modelled.\<close> The text of exceptions; float rounding of times; the file system below paths (path
  resolution, permissions being enforced, concurrent writers); zeroing of local buffers and timing of
  comparisons, which have no effect on results; \<^verbatim>\<open>__init__.py\<close> (re-exports); the unit tests; the steps of the features that
  look at the text of an exception, for the literal text \<^verbatim>\<open>raw master key bytes\<close> or at which functions were
  called; the indefinite lengths of BER; ASN.1 modules and documents.
\<close>

end
